(* ===== verification/Atlas_Prelude.thy ===== *)
theory Atlas_Prelude
  imports Complex_Main "HOL-Library.AList" "HOL-Library.Sublist" "HOL-Library.Multiset"
begin

section \<open>Shared vocabulary: JavaScript strings, collections and feeds\<close>

text \<open>
  What every component theory uses of the language and its standard library:
  \<^item> strings: \<open>string\<close> is a list of code units; the model covers code units below
    256 (Latin-1), for which the white space set and the lower-case mapping below are exact,
    and the upper-case mapping but for the three characters whose capital lies outside;
  \<^item> \<open>Set\<close> and \<open>Map\<close> in insertion order: a \<open>Set\<close> is a list without repetitions
    (\<open>set_add\<close>), a \<open>Map\<close> or a plain object an association list (\<open>AList.update\<close>
    keeps the position of a key that is already there and appends a new one);
  \<^item> \<open>Array.prototype.sort\<close> as a stable insertion sort for a comparator;
  \<^item> \<open>Math.round\<close> on exact rationals.
  It also holds two interfaces that several components implement: a capped, newest-first
  feed (\<open>capped_feed\<close>) and a keyed store (\<open>keyed_store\<close>).
\<close>

named_theorems js_defs \<comment> \<open>definitions that unfold to library functions\<close>

subsection \<open>Strings\<close>

definition is_ws :: "char \<Rightarrow> bool" where
  "is_ws c \<longleftrightarrow> of_char c \<in> {9, 10, 11, 12, 13, 32, 160 :: nat}"

definition trim :: "string \<Rightarrow> string" where
  "trim s = rev (dropWhile is_ws (rev (dropWhile is_ws s)))"

definition lower_char :: "char \<Rightarrow> char" where
  "lower_char c =
     (let n = (of_char c :: nat)
      in if (65 \<le> n \<and> n \<le> 90) \<or> (192 \<le> n \<and> n \<le> 222 \<and> n \<noteq> 215)
         then char_of (n + 32) else c)"

definition upper_char :: "char \<Rightarrow> char" where
  "upper_char c =
     (let n = (of_char c :: nat)
      in if (97 \<le> n \<and> n \<le> 122) \<or> (224 \<le> n \<and> n \<le> 254 \<and> n \<noteq> 247)
         then char_of (n - 32) else c)"

definition to_lower :: "string \<Rightarrow> string" where
  "to_lower s = map lower_char s"

definition starts_with :: "string \<Rightarrow> string \<Rightarrow> bool" where
  "starts_with s p \<longleftrightarrow> take (length p) s = p"

definition index_of :: "string \<Rightarrow> string \<Rightarrow> nat \<Rightarrow> nat option" where
  "index_of needle hay i =
     find (\<lambda>k. take (length needle) (drop k hay) = needle) [i ..< Suc (length hay)]"

definition str_includes :: "string \<Rightarrow> string \<Rightarrow> bool" where
  "str_includes hay needle \<longleftrightarrow> index_of needle hay 0 \<noteq> None"

definition slice :: "'a list \<Rightarrow> nat \<Rightarrow> nat \<Rightarrow> 'a list" where
  "slice xs i j = take (j - i) (drop i xs)"

fun split_on :: "char \<Rightarrow> string \<Rightarrow> string list" where
  "split_on d [] = [[]]"
| "split_on d (c # cs) =
     (if c = d then [] # split_on d cs
      else case split_on d cs of [] \<Rightarrow> [[c]] | w # ws \<Rightarrow> (c # w) # ws)"

fun join_with :: "string \<Rightarrow> string list \<Rightarrow> string" where
  "join_with sep [] = []"
| "join_with sep [w] = w"
| "join_with sep (w # v # ws) = w @ sep @ join_with sep (v # ws)"

text \<open>Decimal notation of an integer, as \<open>String(n)\<close> writes it.\<close>

fun string_of_nat :: "nat \<Rightarrow> string" where
  "string_of_nat n =
     (if n < 10 then [char_of (48 + n)]
      else string_of_nat (n div 10) @ [char_of (48 + n mod 10)])"

declare string_of_nat.simps [simp del]

definition string_of_int :: "int \<Rightarrow> string" where
  "string_of_int i = (if i < 0 then ''-'' @ string_of_nat (nat (- i)) else string_of_nat (nat i))"

lemma length_to_lower [simp]: "length (to_lower s) = length s"
  by (simp add: to_lower_def)

lemma to_lower_append [simp]: "to_lower (s @ t) = to_lower s @ to_lower t"
  by (simp add: to_lower_def)

lemma to_lower_slice: "to_lower (slice s i j) = slice (to_lower s) i j"
  by (simp add: to_lower_def slice_def take_map drop_map)

lemma starts_with_iff_prefix: "starts_with s p \<longleftrightarrow> prefix p s"
  unfolding starts_with_def by (metis append_take_drop_id append_eq_conv_conj prefix_def)

lemma starts_with_self [simp]: "starts_with (p @ s) p"
  by (simp add: starts_with_def)

lemma starts_with_refl [simp]: "starts_with p p"
  by (simp add: starts_with_def)

lemma starts_with_trans: "starts_with s p \<Longrightarrow> starts_with p q \<Longrightarrow> starts_with s q"
  by (meson starts_with_iff_prefix prefix_order.trans)

lemma index_of_Some:
  assumes "index_of needle hay i = Some k"
  shows "i \<le> k" "k + length needle \<le> length hay \<or> needle = []"
    "k \<le> length hay" "slice hay k (k + length needle) = needle"
proof -
  from assms obtain n where n: "n < length [i ..< Suc (length hay)]"
    and k: "k = [i ..< Suc (length hay)] ! n"
    and eq: "take (length needle) (drop k hay) = needle"
    by (auto simp: index_of_def find_Some_iff simp del: upt_Suc)
  from n k have kn: "k = i + n" "k < Suc (length hay)"
    by (auto simp del: upt_Suc simp: nth_upt)
  then show "i \<le> k" and "k \<le> length hay"
    by auto
  from eq show "slice hay k (k + length needle) = needle"
    by (simp add: slice_def)
  have "length needle = min (length needle) (length hay - k)"
    by (metis eq length_drop length_take min.commute)
  with kn show "k + length needle \<le> length hay \<or> needle = []"
    by (cases needle) auto
qed

lemma index_of_None:
  assumes "index_of needle hay i = None" and "i \<le> k" and "k \<le> length hay"
  shows "slice hay k (k + length needle) \<noteq> needle"
  using assms by (auto simp: index_of_def find_None_iff slice_def simp del: upt_Suc)

lemma slice_append_drop: "i \<le> j \<Longrightarrow> slice xs i j @ drop j xs = drop i xs"
  unfolding slice_def
  by (metis append_take_drop_id drop_drop le_add_diff_inverse2)

lemma split_on_nonempty [simp]: "split_on d s \<noteq> []"
  by (induction s) (auto split: list.splits)

lemma join_split: "join_with [d] (split_on d s) = s"
proof (induction s)
  case Nil
  show ?case by simp
next
  case (Cons c cs)
  then obtain w ws where w: "split_on d cs = w # ws"
    by (cases "split_on d cs") auto
  with Cons show ?case
    by (cases ws) auto
qed

lemma split_on_no_sep: "w \<in> set (split_on d s) \<Longrightarrow> d \<notin> set w"
proof (induction s arbitrary: w)
  case (Cons c cs)
  then show ?case
    by (cases "split_on d cs") (auto split: if_splits)
qed simp

subsection \<open>Updating a list\<close>

lemma length_filter_update:
  assumes "k < length xs"
  shows "length (filter P (xs[k := x])) + (if P (xs ! k) then 1 else 0) =
    length (filter P xs) + (if P x then 1 else 0)"
  using assms
proof (induction xs arbitrary: k)
  case (Cons y ys)
  show ?case
  proof (cases k)
    case (Suc j)
    with Cons.IH [of j] Cons.prems show ?thesis by simp
  qed simp
qed simp

lemma all_update: "\<forall>y \<in> set xs. P y \<Longrightarrow> P x \<Longrightarrow> \<forall>y \<in> set (xs[k := x]). P y"
  using set_update_subset_insert [of xs k x] by auto

subsection \<open>Sets and maps in insertion order\<close>

type_synonym 'a js_set = "'a list"
type_synonym ('k, 'v) js_map = "('k \<times> 'v) list"

definition set_add :: "'a \<Rightarrow> 'a js_set \<Rightarrow> 'a js_set" where
  "set_add x xs = (if x \<in> set xs then xs else xs @ [x])"

definition set_delete :: "'a \<Rightarrow> 'a js_set \<Rightarrow> 'a js_set" where
  "set_delete x xs = filter (\<lambda>y. y \<noteq> x) xs"

abbreviation map_get :: "('k, 'v) js_map \<Rightarrow> 'k \<Rightarrow> 'v option" where
  "map_get m k \<equiv> map_of m k"

abbreviation map_set :: "'k \<Rightarrow> 'v \<Rightarrow> ('k, 'v) js_map \<Rightarrow> ('k, 'v) js_map" where
  "map_set k v m \<equiv> AList.update k v m"

lemma set_set_add [simp]: "set (set_add x xs) = insert x (set xs)"
  by (auto simp: set_add_def)

lemma distinct_set_add [simp]: "distinct xs \<Longrightarrow> distinct (set_add x xs)"
  by (simp add: set_add_def)

lemma set_set_delete [simp]: "set (set_delete x xs) = set xs - {x}"
  by (auto simp: set_delete_def)

lemma distinct_set_delete [simp]: "distinct xs \<Longrightarrow> distinct (set_delete x xs)"
  by (simp add: set_delete_def)

lemma map_get_set [simp]:
  "map_get (map_set k v m) k' = (if k' = k then Some v else map_get m k')"
  by (simp add: update_conv)

subsection \<open>Stable sorting with a comparator\<close>

text \<open>\<open>before x y\<close> is \<open>compare(x, y) <= 0\<close>: equal elements keep their order.\<close>

fun insert_by :: "('a \<Rightarrow> 'a \<Rightarrow> bool) \<Rightarrow> 'a \<Rightarrow> 'a list \<Rightarrow> 'a list" where
  "insert_by before x [] = [x]"
| "insert_by before x (y # ys) =
     (if before x y then x # y # ys else y # insert_by before x ys)"

fun sort_by :: "('a \<Rightarrow> 'a \<Rightarrow> bool) \<Rightarrow> 'a list \<Rightarrow> 'a list" where
  "sort_by before [] = []"
| "sort_by before (x # xs) = insert_by before x (sort_by before xs)"

lemma mset_insert_by: "mset (insert_by le x ys) = add_mset x (mset ys)"
  by (induction ys) auto

lemma mset_sort_by [simp]: "mset (sort_by le xs) = mset xs"
  by (induction xs) (auto simp: mset_insert_by)

lemma set_sort_by [simp]: "set (sort_by le xs) = set xs"
  by (metis mset_sort_by set_mset_mset)

lemma length_sort_by [simp]: "length (sort_by le xs) = length xs"
  by (metis mset_sort_by size_mset)

lemma set_insert_by [simp]: "set (insert_by le x ys) = insert x (set ys)"
  by (induction ys) auto

lemma sorted_insert_by:
  assumes "sorted_wrt le ys" "\<And>a b. le a b \<or> le b a" "transp le"
  shows "sorted_wrt le (insert_by le x ys)"
  using assms(1)
proof (induction ys)
  case (Cons y ys)
  show ?case
  proof (cases "le x y")
    case True
    with Cons.prems show ?thesis
      by (auto dest: transpD [OF assms(3)])
  next
    case False
    then have "le y x" using assms(2) by blast
    with False Cons show ?thesis by auto
  qed
qed simp

lemma sorted_sort_by:
  assumes "\<And>a b. le a b \<or> le b a" "transp le"
  shows "sorted_wrt le (sort_by le xs)"
  by (induction xs) (simp_all add: sorted_insert_by [OF _ assms])

subsection \<open>Rounding\<close>

definition math_round :: "rat \<Rightarrow> int" where
  "math_round x = \<lfloor>x + 1 / 2\<rfloor>"

lemma math_round_mono: "x \<le> y \<Longrightarrow> math_round x \<le> math_round y"
  by (simp add: math_round_def floor_mono)

lemma math_round_int [simp]: "math_round (of_int n) = n"
  by (simp add: math_round_def floor_unique)

subsection \<open>Interface: a capped feed, newest first\<close>

text \<open>
  The live store, the notification socket, the event stream and the web socket all keep
  \<open>[item, ...prev].slice(0, cap)\<close>. \<open>push\<close> is one arrival; \<open>fresh\<close> says when the item
  is taken at all (the notification list drops an item whose id it already holds).
\<close>

locale capped_feed =
  fixes push :: "'a \<Rightarrow> 's \<Rightarrow> 's"
    and items :: "'s \<Rightarrow> 'a list"
    and cap :: nat
    and fresh :: "'a \<Rightarrow> 'a list \<Rightarrow> bool"
  assumes push_fresh: "fresh x (items s) \<Longrightarrow> items (push x s) = take cap (x # items s)"
    and push_stale: "\<not> fresh x (items s) \<Longrightarrow> items (push x s) = items s"
begin

lemma push_bound: "length (items s) \<le> cap \<Longrightarrow> length (items (push x s)) \<le> cap"
  by (cases "fresh x (items s)") (auto simp: push_fresh push_stale)

lemma pushes_bound: "length (items s) \<le> cap \<Longrightarrow> length (items (fold push xs s)) \<le> cap"
  by (induction xs arbitrary: s) (auto simp: push_bound)

lemma push_head: "0 < cap \<Longrightarrow> fresh x (items s) \<Longrightarrow> hd (items (push x s)) = x"
  by (cases cap) (auto simp: push_fresh)

lemma pushes_members: "set (items (fold push xs s)) \<subseteq> set xs \<union> set (items s)"
proof (induction xs arbitrary: s)
  case (Cons x xs)
  have "set (items (push x s)) \<subseteq> insert x (set (items s))"
    by (cases "fresh x (items s)") (auto simp: push_fresh push_stale dest: in_set_takeD)
  with Cons[of "push x s"] show ?case by auto
qed simp

lemma pushes_newest_first:
  assumes "\<And>x ys. fresh x ys"
  shows "items (fold push xs s) = take cap (rev xs @ items s) \<or> length (items s) > cap"
proof (cases "length (items s) > cap")
  case False
  then show ?thesis
  proof (induction xs arbitrary: s)
    case (Cons x xs)
    have it: "items (push x s) = take cap (x # items s)"
      by (simp add: push_fresh assms)
    then have "\<not> cap < length (items (push x s))" by simp
    from Cons.IH [OF this] this
    have "items (fold push xs (push x s)) = take cap (rev xs @ take cap (x # items s))"
      by (simp add: it)
    then show ?case
      by (simp add: take_append take_Cons' min_def)
  qed simp
qed simp

end

subsection \<open>Interface: a keyed store\<close>

text \<open>A store whose entries are replaced whole, by key.\<close>

locale keyed_store =
  fixes put :: "'k \<Rightarrow> 'v \<Rightarrow> 's \<Rightarrow> 's"
    and look :: "'s \<Rightarrow> 'k \<Rightarrow> 'v option"
  assumes look_put: "look (put k v s) = (look s)(k \<mapsto> v)"
begin

lemma look_put_same: "look (put k v s) k = Some v"
  by (simp add: look_put)

lemma look_put_other: "k' \<noteq> k \<Longrightarrow> look (put k v s) k' = look s k'"
  by (simp add: look_put)

lemma put_overwrites: "look (put k v (put k w s)) = look (put k v s)"
  by (simp add: look_put)

lemma puts_last_wins:
  "look (fold (\<lambda>(k, v). put k v) kvs s) k =
     (case map_of (rev kvs) k of Some v \<Rightarrow> Some v | None \<Rightarrow> look s k)"
  by (induction kvs arbitrary: s) (auto simp: look_put map_add_def split: option.splits)

end

subsection \<open>Reachable states\<close>

text \<open>
  A component driven by events: \<open>enabled e s\<close> says when its environment can deliver \<open>e\<close>, and
  \<open>step e s\<close> is what its handler makes of the state.
\<close>

inductive reachable ::
  "('s \<Rightarrow> bool) \<Rightarrow> ('e \<Rightarrow> 's \<Rightarrow> bool) \<Rightarrow> ('e \<Rightarrow> 's \<Rightarrow> 's) \<Rightarrow> 's \<Rightarrow> bool"
  for start enabled step
where
  reach_start: "start s \<Longrightarrow> reachable start enabled step s"
| reach_step: "reachable start enabled step s \<Longrightarrow> enabled e s \<Longrightarrow>
    reachable start enabled step (step e s)"

text \<open>An invariant of such a component: it holds at the start and every delivery keeps it.\<close>

locale event_invariant =
  fixes start :: "'s \<Rightarrow> bool" and enabled :: "'e \<Rightarrow> 's \<Rightarrow> bool" and step :: "'e \<Rightarrow> 's \<Rightarrow> 's"
    and inv :: "'s \<Rightarrow> bool"
  assumes inv_start: "start s \<Longrightarrow> inv s"
    and inv_step: "inv s \<Longrightarrow> enabled e s \<Longrightarrow> inv (step e s)"
begin

lemma reachable_inv: "reachable start enabled step s \<Longrightarrow> inv s"
  by (induction rule: reachable.induct) (auto intro: inv_start inv_step)

end

end
