(* ===== verification/Org_Tree.thy ===== *)
theory Org_Tree
  imports Atlas_Prelude
begin

section \<open>The org chart helpers (frontend/src/lib/org-tree.ts)\<close>

text \<open>
  The reporting forest the employee service returns and the pure functions that decide what
  the client renders of it: visible rows, search matches, the expansion that should reveal
  them, department facets, search highlighting and the manager ranking.

  Every traversal of the file is a loop over an array used as a stack. A stack is a list
  here with its top first, so \<open>[...roots]\<close>, popped from its end, is \<open>rev roots\<close>. Four of the loops
  differ only in what they do with the popped node; \<open>walk\<close> is that loop and the interface
  \<open>collector\<close> says what such a loop gathers. Counts are integers.
\<close>

subsection \<open>Data\<close>

datatype OrgNode = OrgNode
  (node_email: string) (node_name: string) (node_department: "string option")
  (node_position: "string option") (node_manager_id: "string option")
  (direct_reports: int) (total_reports: int) (children: "OrgNode list")

record OrgTreeResponse =
  scope :: string
  viewer_email :: "string option"
  total_visible :: int
  roots :: "OrgNode list"

record OrgRow =
  row_node :: OrgNode
  row_depth :: nat
  hasChildren :: bool
  row_expanded :: bool

fun node_count :: "OrgNode \<Rightarrow> nat" where
  "node_count (OrgNode _ _ _ _ _ _ _ cs) = Suc (sum_list (map node_count cs))"

fun tree_nodes :: "OrgNode \<Rightarrow> OrgNode list" where
  "tree_nodes (OrgNode e nm dp ps mg dr tr cs) =
     OrgNode e nm dp ps mg dr tr cs # concat (map tree_nodes cs)"

declare tree_nodes.simps [simp del]

definition forest_nodes :: "OrgNode list \<Rightarrow> OrgNode list" where
  "forest_nodes ns = concat (map tree_nodes ns)"

lemma node_count_children: "node_count n = Suc (sum_list (map node_count (children n)))"
  by (cases n) simp

lemma tree_nodes_eq: "tree_nodes n = n # concat (map tree_nodes (children n))"
  by (cases n) (simp add: tree_nodes.simps)

lemma children_induct [case_names node]:
  assumes "\<And>n. (\<And>c. c \<in> set (children n) \<Longrightarrow> P c) \<Longrightarrow> P n"
  shows "P n"
proof (induction n rule: measure_induct_rule [where f = node_count])
  case (less n)
  have "node_count c < node_count n" if "c \<in> set (children n)" for c
    using member_le_sum_list [of "node_count c" "map node_count (children n)"] that
    by (simp add: node_count_children [of n])
  with less assms show ?case by blast
qed

lemma self_in_tree [simp]: "n \<in> set (tree_nodes n)"
  by (subst tree_nodes_eq) simp

lemma set_tree_nodes:
  "set (tree_nodes n) = insert n (\<Union>c \<in> set (children n). set (tree_nodes c))"
  by (subst tree_nodes_eq) auto

lemma child_in_tree:
  "m \<in> set (tree_nodes n) \<Longrightarrow> c \<in> set (children m) \<Longrightarrow> c \<in> set (tree_nodes n)"
proof (induction n rule: children_induct)
  case (node n)
  from node.prems(1) consider "m = n" | d where "d \<in> set (children n)" "m \<in> set (tree_nodes d)"
    by (auto simp: set_tree_nodes [of n])
  then show ?case
  proof cases
    case 1
    with node.prems(2) show ?thesis by (auto simp: set_tree_nodes [of n] intro: bexI [of _ c])
  next
    case 2
    with node.IH node.prems(2) show ?thesis by (auto simp: set_tree_nodes [of n])
  qed
qed

lemma set_forest_nodes: "set (forest_nodes ns) = (\<Union>n \<in> set ns. set (tree_nodes n))"
  by (simp add: forest_nodes_def)

lemma child_in_forest:
  "m \<in> set (forest_nodes ns) \<Longrightarrow> c \<in> set (children m) \<Longrightarrow> c \<in> set (forest_nodes ns)"
  by (auto simp: set_forest_nodes intro: child_in_tree)

subsection \<open>Visible rows\<close>

text \<open>The loop of \<open>flattenVisible\<close>: pop a row, emit it, push its children if it is expanded.\<close>

definition row_of :: "string js_set \<Rightarrow> nat \<Rightarrow> OrgNode \<Rightarrow> OrgRow" where
  "row_of expanded d n =
     \<lparr>row_node = n, row_depth = d, hasChildren = children n \<noteq> [],
      row_expanded = children n \<noteq> [] \<and> node_email n \<in> set expanded\<rparr>"

function flatten_loop :: "string js_set \<Rightarrow> (OrgNode \<times> nat) list \<Rightarrow> OrgRow list \<Rightarrow> OrgRow list"
where
  "flatten_loop expanded [] rows = rows"
| "flatten_loop expanded ((node, depth) # stack) rows =
     flatten_loop expanded
       ((if children node \<noteq> [] \<and> node_email node \<in> set expanded
         then map (\<lambda>c. (c, Suc depth)) (children node) else []) @ stack)
       (rows @ [row_of expanded depth node])"
  by pat_completeness auto
termination
proof (relation "measure (\<lambda>(_, stack, _). sum_list (map (node_count \<circ> fst) stack))", goal_cases)
  case (2 expanded node depth stack rows)
  then show ?case by (simp add: node_count_children [of node] comp_def)
qed simp

definition flattenVisible :: "OrgNode list \<Rightarrow> string js_set \<Rightarrow> OrgRow list" where
  "flattenVisible rs expanded = flatten_loop expanded (map (\<lambda>n. (n, 0)) rs) []"

text \<open>Reference: the preorder listing of the expanded part, by recursion on the tree.\<close>

function visible_rows :: "string js_set \<Rightarrow> nat \<Rightarrow> OrgNode \<Rightarrow> OrgRow list" where
  "visible_rows expanded d n =
     row_of expanded d n #
     (if node_email n \<in> set expanded
      then concat (map (visible_rows expanded (Suc d)) (children n)) else [])"
  by pat_completeness auto
termination
proof (relation "measure (\<lambda>(_, _, n). node_count n)", goal_cases)
  case (2 expanded d n c)
  then show ?case
    using member_le_sum_list [of "node_count c" "map node_count (children n)"]
    by (simp add: node_count_children [of n])
qed simp

declare visible_rows.simps [simp del]

lemma flatten_loop_visible:
  "flatten_loop expanded stack rows =
   rows @ concat (map (\<lambda>(n, d). visible_rows expanded d n) stack)"
proof (induction expanded stack rows rule: flatten_loop.induct)
  case (2 expanded node depth stack rows)
  then show ?case
    by (auto simp: visible_rows.simps [of expanded depth node] comp_def)
qed simp

text \<open>
  Claim C40. The stack loop of \<open>flattenVisible\<close> computes the preorder listing: every root at depth 0, the
  children of a node right after it, one level deeper, exactly when its e-mail is expanded.
\<close>

theorem flattenVisible_preorder:
  "flattenVisible rs expanded = concat (map (visible_rows expanded 0) rs)"
  by (simp add: flattenVisible_def flatten_loop_visible comp_def)

subsection \<open>The shared traversal\<close>

text \<open>
  \<open>const stack = [...roots]; while (stack.length > 0) { const node = stack.pop(); ...;
  stack.push(...node.children); }\<close>, with \<open>step\<close> for the body: the last child is popped first.
\<close>

function walk :: "(OrgNode \<Rightarrow> 'a \<Rightarrow> 'a) \<Rightarrow> OrgNode list \<Rightarrow> 'a \<Rightarrow> 'a" where
  "walk step [] acc = acc"
| "walk step (node # stack) acc = walk step (rev (children node) @ stack) (step node acc)"
  by pat_completeness auto
termination
  by (relation "measure (\<lambda>(_, stack, _). sum_list (map node_count stack))")
     (simp_all add: node_count_children sum_list_rev rev_map [symmetric])

fun pop_order :: "OrgNode \<Rightarrow> OrgNode list" where
  "pop_order (OrgNode e nm dp ps mg dr tr cs) =
     OrgNode e nm dp ps mg dr tr cs # concat (rev (map pop_order cs))"

declare pop_order.simps [simp del]

lemma pop_order_eq: "pop_order n = n # concat (rev (map pop_order (children n)))"
  by (cases n) (simp add: pop_order.simps)

lemma walk_fold: "walk step stack acc = fold step (concat (map pop_order stack)) acc"
proof (induction step stack acc rule: walk.induct)
  case (2 step node stack acc)
  then show ?case
    by (simp add: pop_order_eq [of node] rev_map)
qed simp

declare walk.simps [simp del]

lemma mset_pop_order: "mset (pop_order n) = mset (tree_nodes n)"
proof (induction n rule: children_induct)
  case (node n)
  then have eq: "map (\<lambda>c. mset (pop_order c)) (children n) = map (\<lambda>c. mset (tree_nodes c)) (children n)"
    by simp
  show ?case
    by (subst pop_order_eq, subst tree_nodes_eq)
       (simp add: mset_concat rev_map [symmetric] comp_def sum_list_rev eq)
qed

lemma set_pop_orders: "set (concat (map pop_order ns)) = set (forest_nodes ns)"
  by (simp add: forest_nodes_def) (metis mset_pop_order set_mset_mset)

text \<open>
  A collecting loop: each popped node \<open>n\<close> contributes \<open>gen n\<close> to what the accumulator
  holds, in whatever order the nodes come.
\<close>

locale collector =
  fixes step :: "OrgNode \<Rightarrow> 'a \<Rightarrow> 'a"
    and held :: "'a \<Rightarrow> 'k set"
    and gen :: "OrgNode \<Rightarrow> 'k set"
  assumes held_step: "held (step n acc) = held acc \<union> gen n"
begin

lemma held_fold: "held (fold step ns acc) = held acc \<union> (\<Union>n \<in> set ns. gen n)"
  by (induction ns arbitrary: acc) (auto simp: held_step)

lemma held_walk:
  "held (walk step stack acc) = held acc \<union> (\<Union>n \<in> set (forest_nodes stack). gen n)"
  by (simp only: walk_fold held_fold set_pop_orders)

end

lemma set_forest_rev [simp]: "set (forest_nodes (rev ns)) = set (forest_nodes ns)"
  by (simp add: set_forest_nodes)

subsection \<open>Search\<close>

definition normalizeQuery :: "string \<Rightarrow> string" where
  "normalizeQuery query = to_lower (trim query)"

definition or_empty :: "string option \<Rightarrow> string" where
  "or_empty x = (case x of Some s \<Rightarrow> s | None \<Rightarrow> [])"

definition matchesOrgNode :: "OrgNode \<Rightarrow> string \<Rightarrow> bool" where
  "matchesOrgNode node query =
     (let needle = normalizeQuery query
      in if needle = [] then False
         else list_ex (\<lambda>value. str_includes (to_lower value) needle)
                [node_name node, node_email node, or_empty (node_department node),
                 or_empty (node_position node)])"

definition match_step :: "string \<Rightarrow> OrgNode \<Rightarrow> string js_set \<Rightarrow> string js_set" where
  "match_step query node matches =
     (if matchesOrgNode node query then set_add (node_email node) matches else matches)"

definition findMatches :: "OrgNode list \<Rightarrow> string \<Rightarrow> string js_set" where
  "findMatches rs query =
     (if normalizeQuery query = [] then [] else walk (match_step query) (rev rs) [])"

definition expandable_step :: "OrgNode \<Rightarrow> string js_set \<Rightarrow> string js_set" where
  "expandable_step node emails =
     (if children node \<noteq> [] then set_add (node_email node) emails else emails)"

definition allExpandable :: "OrgNode list \<Rightarrow> string js_set" where
  "allExpandable rs = walk expandable_step (rev rs) []"

interpretation matching:
  collector "match_step query" set "\<lambda>n. if matchesOrgNode n query then {node_email n} else {}"
  for query
  by unfold_locales (auto simp: match_step_def)

interpretation expandable:
  collector expandable_step set "\<lambda>n. if children n \<noteq> [] then {node_email n} else {}"
  by unfold_locales (auto simp: expandable_step_def)

lemma blank_query_matches_nothing: "normalizeQuery query = [] \<Longrightarrow> \<not> matchesOrgNode n query"
  by (simp add: matchesOrgNode_def)

text \<open>
  \<open>findMatches\<close> returns exactly the e-mails of the nodes of the forest, at any depth, that
  match the query; a blank query matches nothing.
\<close>

lemma findMatches_exact:
  "set (findMatches rs query) = {node_email n | n. n \<in> set (forest_nodes rs) \<and> matchesOrgNode n query}"
  by (auto simp: findMatches_def matching.held_walk blank_query_matches_nothing split: if_splits)

lemma allExpandable_exact:
  "set (allExpandable rs) = {node_email n | n. n \<in> set (forest_nodes rs) \<and> children n \<noteq> []}"
  by (auto simp: allExpandable_def expandable.held_walk split: if_splits)

subsection \<open>Parents and the expansion that reveals matches\<close>

text \<open>\<open>if (parents.has(node.email)) continue\<close>: a repeated e-mail is skipped with its subtree.\<close>

function parent_loop ::
  "(OrgNode \<times> string option) list \<Rightarrow> (string, string option) js_map \<Rightarrow> (string, string option) js_map"
where
  "parent_loop [] parents = parents"
| "parent_loop ((node, parent) # stack) parents =
     (if map_get parents (node_email node) \<noteq> None then parent_loop stack parents
      else parent_loop
             (rev (map (\<lambda>c. (c, Some (node_email node))) (children node)) @ stack)
             (map_set (node_email node) parent parents))"
  by pat_completeness auto
termination
proof (relation "measure (\<lambda>(stack, _). sum_list (map (node_count \<circ> fst) stack))", goal_cases)
  case (2 node parent stack parents)
  then show ?case by (simp add: node_count_children [of node])
next
  case (3 node parent stack parents)
  then show ?case
    by (simp add: node_count_children [of node] rev_map [symmetric] sum_list_rev comp_def)
qed simp

definition buildParentMap :: "OrgNode list \<Rightarrow> (string, string option) js_map" where
  "buildParentMap rs = parent_loop (rev (map (\<lambda>n. (n, None)) rs)) []"

text \<open>\<open>parents.get(email) ?? null\<close>\<close>

definition parent_of :: "(string, string option) js_map \<Rightarrow> string \<Rightarrow> string option" where
  "parent_of parents e = (case map_get parents e of Some p \<Rightarrow> p | None \<Rightarrow> None)"

text \<open>\<open>while (parent && !next.has(parent))\<close>: null and the empty string both end the climb.\<close>

function climb ::
  "(string, string option) js_map \<Rightarrow> string option \<Rightarrow> string js_set \<Rightarrow> string js_set"
where
  "climb parents None next = next"
| "climb parents (Some e) next =
     (if e \<noteq> [] \<and> e \<notin> set next
      then climb parents (parent_of parents e) (set_add e next) else next)"
  by pat_completeness auto
termination
proof (relation "measure (\<lambda>(parents, p, next).
    card (({e. p = Some e} \<union> {e. Some e \<in> snd ` set parents}) - set next))", goal_cases)
  case (2 parents e "next")
  let ?A = "{e. Some e \<in> snd ` set parents}"
  have "finite (Some -` (snd ` set parents))"
    by (intro finite_vimageI) auto
  then have fin: "finite ?A" by (simp add: vimage_def)
  have "{x. parent_of parents e = Some x} \<subseteq> ?A"
    by (force simp: parent_of_def split: option.splits dest: map_of_SomeD)
  then have "({x. parent_of parents e = Some x} \<union> ?A) - set (set_add e next)
      \<subset> ({x. Some e = Some x} \<union> ?A) - set next"
    using 2 by auto
  then show ?case
    using fin by (auto intro!: psubset_card_mono)
qed simp

definition expandToMatches ::
  "OrgNode list \<Rightarrow> string js_set \<Rightarrow> string js_set \<Rightarrow> string js_set" where
  "expandToMatches rs expanded matches =
     (if matches = [] then expanded
      else let parents = buildParentMap rs
           in fold (\<lambda>email next. climb parents (parent_of parents email) next) matches expanded)"

text \<open>\<open>rows.findIndex(...)\<close>, with the \<open>-1\<close> of no match\<close>

definition firstMatchRow :: "OrgRow list \<Rightarrow> string js_set \<Rightarrow> int" where
  "firstMatchRow rows matches =
     (case find (\<lambda>i. node_email (row_node (rows ! i)) \<in> set matches) [0 ..< length rows] of
        Some i \<Rightarrow> int i | None \<Rightarrow> -1)"

text \<open>
  On a forest whose e-mails are distinct the map holds, for every node, the e-mail of the
  node it hangs from: the parents in the order the loop pops them are \<open>parent_pairs\<close>.
\<close>

fun parent_pairs :: "OrgNode \<times> string option \<Rightarrow> (string \<times> string option) list" where
  "parent_pairs (OrgNode e nm dp ps mg dr tr cs, p) =
     (e, p) # concat (rev (map (\<lambda>c. parent_pairs (c, Some e)) cs))"

declare parent_pairs.simps [simp del]

lemma parent_pairs_eq:
  "parent_pairs (n, p) =
     (node_email n, p) # concat (rev (map (\<lambda>c. parent_pairs (c, Some (node_email n))) (children n)))"
  by (cases n) (simp add: parent_pairs.simps)

lemma fst_parent_pairs: "map fst (parent_pairs (n, p)) = map node_email (pop_order n)"
proof (induction n arbitrary: p rule: children_induct)
  case (node n)
  then show ?case
    by (subst parent_pairs_eq, subst pop_order_eq)
       (auto simp: map_concat rev_map intro!: arg_cong [where f = concat])
qed

lemma parent_loop_pairs:
  assumes "distinct (map fst acc @ map fst (concat (map parent_pairs stack)))"
  shows "parent_loop stack acc = acc @ concat (map parent_pairs stack)"
  using assms
proof (induction stack acc rule: parent_loop.induct)
  case (2 node parent stack parents)
  have new: "node_email node \<notin> fst ` set parents"
    using "2.prems" by (auto simp: parent_pairs_eq [of node parent])
  then have none: "map_get parents (node_email node) = None"
    by (simp add: map_of_eq_None_iff)
  have app: "map_set (node_email node) parent parents = parents @ [(node_email node, parent)]"
    using new by (induction parents) auto
  have "parent_loop ((node, parent) # stack) parents =
      parent_loop (rev (map (\<lambda>c. (c, Some (node_email node))) (children node)) @ stack)
        (parents @ [(node_email node, parent)])"
    by (simp add: none app)
  also have "\<dots> = (parents @ [(node_email node, parent)]) @ concat (map parent_pairs
      (rev (map (\<lambda>c. (c, Some (node_email node))) (children node)) @ stack))"
    using "2.IH"(2) none "2.prems" app
    by (simp add: parent_pairs_eq [of node parent] rev_map comp_def)
  also have "\<dots> = parents @ concat (map parent_pairs ((node, parent) # stack))"
    by (simp add: parent_pairs_eq [of node parent] rev_map comp_def)
  finally show ?case .
qed simp

definition unique_emails :: "OrgNode list \<Rightarrow> bool" where
  "unique_emails rs \<longleftrightarrow> distinct (map node_email (forest_nodes rs))"

lemma emails_parent_pairs [simp]:
  "image_mset fst (mset (parent_pairs (n, p))) = image_mset node_email (mset (tree_nodes n))"
  by (metis fst_parent_pairs mset_map mset_pop_order)

lemma fst_parent_pairs_forest:
  "mset (map fst (concat (map parent_pairs (rev (map (\<lambda>n. (n, None)) rs))))) =
   mset (map node_email (forest_nodes rs))"
  by (induction rs) (simp_all add: forest_nodes_def)

lemma buildParentMap_pairs:
  assumes "unique_emails rs"
  shows "buildParentMap rs = concat (map parent_pairs (rev (map (\<lambda>n. (n, None)) rs)))"
    and "distinct (map fst (buildParentMap rs))"
proof -
  have d: "distinct (map fst (concat (map parent_pairs (rev (map (\<lambda>n. (n, None)) rs)))))"
    using assms fst_parent_pairs_forest [of rs]
    by (metis mset_eq_imp_distinct_iff unique_emails_def)
  show eq: "buildParentMap rs = concat (map parent_pairs (rev (map (\<lambda>n. (n, None)) rs)))"
    unfolding buildParentMap_def using d by (subst parent_loop_pairs) auto
  with d show "distinct (map fst (buildParentMap rs))" by simp
qed

lemma child_in_pairs:
  "m \<in> set (tree_nodes n) \<Longrightarrow> c \<in> set (children m) \<Longrightarrow>
   (node_email c, Some (node_email m)) \<in> set (parent_pairs (n, p))"
proof (induction n arbitrary: p rule: children_induct)
  case (node n)
  consider "m = n" | d where "d \<in> set (children n)" "m \<in> set (tree_nodes d)"
    using node.prems(1) by (auto simp: set_tree_nodes [of n])
  then show ?case
  proof cases
    case 1
    with node.prems(2) show ?thesis
      by (subst parent_pairs_eq) (auto simp: parent_pairs_eq [of c] intro!: bexI [of _ c])
  next
    case 2
    with node.IH [OF 2(1) 2(2) node.prems(2)] show ?thesis
      by (subst parent_pairs_eq) (auto intro!: bexI [of _ d])
  qed
qed

lemma parent_map_root:
  assumes "unique_emails rs" and "n \<in> set rs"
  shows "map_get (buildParentMap rs) (node_email n) = Some None"
  using assms(2) buildParentMap_pairs [OF assms(1)]
  by (auto simp: parent_pairs_eq [of n] intro!: map_of_is_SomeI bexI [of _ n])

lemma parent_map_child:
  assumes "unique_emails rs" and "m \<in> set (forest_nodes rs)" and "c \<in> set (children m)"
  shows "map_get (buildParentMap rs) (node_email c) = Some (Some (node_email m))"
  using assms(2,3) buildParentMap_pairs [OF assms(1)] child_in_pairs [of m _ c None]
  by (auto simp: set_forest_nodes intro!: map_of_is_SomeI)

lemma parent_map_range:
  assumes "unique_emails rs" and "parent_of (buildParentMap rs) e = Some p"
  shows "p \<in> node_email ` set (forest_nodes rs)"
proof -
  have rng: "q \<in> node_email ` set (tree_nodes n) \<or> Some q = par"
    if "(x, Some q) \<in> set (parent_pairs (n, par))" for x q par n
    using that
  proof (induction n arbitrary: par rule: children_induct)
    case (node n)
    from node.prems consider "Some q = par"
      | c where "c \<in> set (children n)" "(x, Some q) \<in> set (parent_pairs (c, Some (node_email n)))"
      by (auto simp: parent_pairs_eq [of n])
    then show ?case
    proof cases
      case 2
      from node.IH [OF this] 2(1) show ?thesis
        by (auto simp: set_tree_nodes [of n])
    qed simp
  qed
  from assms(2) have "(e, Some p) \<in> set (buildParentMap rs)"
    by (auto simp: parent_of_def split: option.splits dest: map_of_SomeD)
  then show ?thesis
    by (auto simp: buildParentMap_pairs [OF assms(1)] set_forest_nodes dest!: rng)
qed

text \<open>A three-level chart for the witnesses: a root, its report and the report's report.\<close>

definition sample_hit :: OrgNode where
  "sample_hit = OrgNode ''c@x'' ''Carol'' (Some ''Eng'') None None 0 0 []"

definition sample_lead :: OrgNode where
  "sample_lead = OrgNode ''b@x'' ''Bob'' (Some ''Eng'') None None 1 1 [sample_hit]"

definition sample_root :: OrgNode where
  "sample_root = OrgNode ''a@x'' ''Alice'' None None None 1 2 [sample_lead]"

lemmas sample_chart = sample_root_def sample_lead_def sample_hit_def

lemma sample_fields [simp]:
  "node_email sample_root = ''a@x''" "node_email sample_lead = ''b@x''" "node_email sample_hit = ''c@x''"
  "children sample_root = [sample_lead]" "children sample_lead = [sample_hit]" "children sample_hit = []"
  by (simp_all add: sample_chart)

lemma sample_nodes [simp]:
  "forest_nodes [sample_root] = [sample_root, sample_lead, sample_hit]"
  "unique_emails [sample_root]"
  by (simp_all add: forest_nodes_def unique_emails_def sample_chart tree_nodes.simps)

text \<open>
  For a forest with distinct e-mails \<open>buildParentMap\<close> maps every root to null and every other node
  to the e-mail of the node whose child it is.
\<close>

lemma buildParentMap_correct:
  assumes "unique_emails rs"
  shows "(\<forall>n \<in> set rs. map_get (buildParentMap rs) (node_email n) = Some None) \<and>
    (\<forall>m \<in> set (forest_nodes rs). \<forall>c \<in> set (children m).
       map_get (buildParentMap rs) (node_email c) = Some (Some (node_email m)))"
  by (simp add: assms parent_map_root parent_map_child)

lemma buildParentMap_correct_witness:
  "unique_emails [sample_root] \<and>
   map_get (buildParentMap [sample_root]) ''b@x'' = Some (Some ''a@x'')"
proof -
  have u: "unique_emails [sample_root]" by simp
  show ?thesis
    using u buildParentMap_correct [OF u] by simp
qed

subsection \<open>What the expansion reveals\<close>

text \<open>A set of expanded rows is closed when the parent of each of its rows is in it too.\<close>

definition closed_expansion :: "(string, string option) js_map \<Rightarrow> string js_set \<Rightarrow> bool" where
  "closed_expansion parents xs \<longleftrightarrow>
     (\<forall>e \<in> set xs. \<forall>p. parent_of parents e = Some p \<longrightarrow> p \<in> set xs)"

lemma climb_mono: "set next \<subseteq> set (climb parents p next)"
  by (induction parents p "next" rule: climb.induct) auto

text \<open>
  While the climb runs the set is closed but for the row it stands on; it stops at a root or
  at a row that is already in the set, and then the set is closed.
\<close>

lemma climb_closes:
  assumes "\<forall>e \<in> set next. \<forall>q. parent_of parents e = Some q \<longrightarrow> q \<in> set next \<or> p = Some q"
    and "\<forall>e. Some e \<in> insert p (range (parent_of parents)) \<longrightarrow> e \<noteq> []"
  shows "closed_expansion parents (climb parents p next) \<and>
    (\<forall>e. p = Some e \<longrightarrow> e \<in> set (climb parents p next))"
  using assms
proof (induction parents p "next" rule: climb.induct)
  case (1 parents "next")
  then show ?case by (auto simp: closed_expansion_def)
next
  case (2 parents e "next")
  show ?case
  proof (cases "e \<in> set next")
    case True
    with 2(2) show ?thesis by (auto simp: closed_expansion_def)
  next
    case False
    have e: "e \<noteq> []" using 2(3) by auto
    have "closed_expansion parents (climb parents (parent_of parents e) (set_add e next))"
      using 2(1) [OF conjI [OF e False]] 2(2,3) by (auto split: if_splits)
    moreover have "e \<in> set (climb parents (parent_of parents e) (set_add e next))"
      using climb_mono [of "set_add e next"] by auto
    ultimately show ?thesis using e False by simp
  qed
qed

lemma expand_fold_closes:
  assumes "closed_expansion parents next"
    and "\<forall>e. Some e \<in> range (parent_of parents) \<longrightarrow> e \<noteq> []"
  shows "closed_expansion parents
      (fold (\<lambda>email next. climb parents (parent_of parents email) next) ms next) \<and>
    set next \<subseteq> set (fold (\<lambda>email next. climb parents (parent_of parents email) next) ms next) \<and>
    (\<forall>m \<in> set ms. \<forall>p. parent_of parents m = Some p \<longrightarrow>
       p \<in> set (fold (\<lambda>email next. climb parents (parent_of parents email) next) ms next))"
  using assms(1)
proof (induction ms arbitrary: "next")
  case (Cons m ms)
  let ?n = "climb parents (parent_of parents m) next"
  have c: "closed_expansion parents ?n \<and> (\<forall>e. parent_of parents m = Some e \<longrightarrow> e \<in> set ?n)"
    by (rule climb_closes) (use Cons.prems assms(2) in \<open>auto simp: closed_expansion_def\<close>)
  from Cons.IH [of ?n] c climb_mono [of "next" parents "parent_of parents m"] show ?case
    by auto
qed simp

lemma visible_below_expanded:
  assumes "\<forall>m \<in> set (tree_nodes n). \<forall>c \<in> set (children m).
      node_email c \<in> set R \<longrightarrow> node_email m \<in> set R"
    and "m \<in> set (tree_nodes n)" and "node_email m \<in> set R"
  shows "node_email n \<in> set R \<and>
    (\<forall>c \<in> insert m (set (children m)). \<exists>d'. row_of R d' c \<in> set (visible_rows R d n))"
  using assms
proof (induction n arbitrary: d rule: children_induct)
  case (node n)
  show ?case
  proof (cases "m = n")
    case True
    with node.prems(3) show ?thesis
      by (auto simp: visible_rows.simps [of R d n] visible_rows.simps [of R "Suc d"])
  next
    case False
    with node.prems(2) obtain k where k: "k \<in> set (children n)" "m \<in> set (tree_nodes k)"
      by (auto simp: set_tree_nodes [of n])
    have closed_k: "\<forall>m \<in> set (tree_nodes k). \<forall>c \<in> set (children m).
        node_email c \<in> set R \<longrightarrow> node_email m \<in> set R"
      using node.prems(1) k(1) by (auto simp: set_tree_nodes [of n])
    have ih: "node_email k \<in> set R \<and>
      (\<forall>c \<in> insert m (set (children m)). \<exists>d'. row_of R d' c \<in> set (visible_rows R (Suc d) k))"
      by (rule node.IH [OF k(1) closed_k k(2) node.prems(3)])
    then have n: "node_email n \<in> set R"
      using node.prems(1) k(1) by auto
    then have "set (visible_rows R (Suc d) k) \<subseteq> set (visible_rows R d n)"
      using k(1) by (subst visible_rows.simps [of R d n]) auto
    with ih n show ?thesis by blast
  qed
qed

lemma closed_expansion_forest:
  assumes "unique_emails rs" and "closed_expansion (buildParentMap rs) R"
    and "m \<in> set (forest_nodes rs)" and "c \<in> set (children m)" and "node_email c \<in> set R"
  shows "node_email m \<in> set R"
proof -
  have "parent_of (buildParentMap rs) (node_email c) = Some (node_email m)"
    by (simp add: parent_of_def parent_map_child [OF assms(1,3,4)])
  with assms(2,5) show ?thesis
    unfolding closed_expansion_def by blast
qed

lemma in_forest_cases:
  assumes "m \<in> set (forest_nodes rs)"
  obtains "m \<in> set rs"
    | m' where "m' \<in> set (forest_nodes rs)" "m \<in> set (children m')"
proof -
  have "m = n \<or> (\<exists>m' \<in> set (tree_nodes n). m \<in> set (children m'))"
    if "m \<in> set (tree_nodes n)" for n
    using that
  proof (induction n rule: children_induct)
    case (node n)
    then consider "m = n" | k where "k \<in> set (children n)" "m \<in> set (tree_nodes k)"
      by (auto simp: set_tree_nodes [of n])
    then show ?case
      using node.IH by cases (auto simp: set_tree_nodes [of n])
  qed
  moreover from assms obtain n where "n \<in> set rs" "m \<in> set (tree_nodes n)"
    by (auto simp: set_forest_nodes)
  ultimately show ?thesis
    using that by (auto simp: set_forest_nodes)
qed

text \<open>
  Searching reveals every hit: from a closed set of expanded rows (a fresh chart, or one opened
  from the top down), after \<open>expandToMatches\<close> every match is among the visible rows, and rows
  that were expanded stay expanded.
\<close>

lemma expandToMatches_reveals:
  assumes "unique_emails rs" and "\<forall>n \<in> set (forest_nodes rs). node_email n \<noteq> []"
    and "closed_expansion (buildParentMap rs) expanded"
    and "m \<in> set (forest_nodes rs)" and "node_email m \<in> set matches"
  shows "m \<in> row_node ` set (flattenVisible rs (expandToMatches rs expanded matches)) \<and>
    set expanded \<subseteq> set (expandToMatches rs expanded matches)"
proof -
  let ?R = "expandToMatches rs expanded matches"
  have R: "?R = fold (\<lambda>e n. climb (buildParentMap rs) (parent_of (buildParentMap rs) e) n) matches expanded"
    using assms(5) by (auto simp: expandToMatches_def Let_def)
  have "\<forall>e. Some e \<in> range (parent_of (buildParentMap rs)) \<longrightarrow> e \<noteq> []"
  proof (intro allI impI)
    fix e assume "Some e \<in> range (parent_of (buildParentMap rs))"
    then obtain x where "parent_of (buildParentMap rs) x = Some e" by (metis imageE)
    then show "e \<noteq> []" using parent_map_range [OF assms(1)] assms(2) by fastforce
  qed
  note closes = expand_fold_closes [OF assms(3) this, of matches, folded R]
  have vis: "flattenVisible rs ?R = concat (map (visible_rows ?R 0) rs)"
    by (simp add: flattenVisible_def flatten_loop_visible comp_def)
  have closed_n: "\<forall>m \<in> set (tree_nodes n). \<forall>c \<in> set (children m).
      node_email c \<in> set ?R \<longrightarrow> node_email m \<in> set ?R" if "n \<in> set rs" for n
    using closed_expansion_forest [OF assms(1), of ?R] closes that by (auto simp: set_forest_nodes)
  from assms(4) have "\<exists>d' n. n \<in> set rs \<and> row_of ?R d' m \<in> set (visible_rows ?R 0 n)"
  proof (cases rule: in_forest_cases)
    case 1
    have "row_of ?R 0 m \<in> set (visible_rows ?R 0 m)"
      by (subst visible_rows.simps) simp
    with 1 show ?thesis by blast
  next
    case (2 m')
    have "parent_of (buildParentMap rs) (node_email m) = Some (node_email m')"
      by (simp add: parent_of_def parent_map_child [OF assms(1) 2])
    with closes assms(5) have "node_email m' \<in> set ?R" by blast
    moreover obtain n where n: "n \<in> set rs" "m' \<in> set (tree_nodes n)"
      using 2(1) by (auto simp: set_forest_nodes)
    ultimately show ?thesis
      using visible_below_expanded [OF closed_n [OF n(1)] n(2), of 0] 2(2) n(1) by blast
  qed
  then have "m \<in> row_node ` set (flattenVisible rs ?R)"
    by (force simp: vis row_of_def)
  with closes show ?thesis by blast
qed

lemma expandToMatches_reveals_witness:
  "sample_hit \<in> row_node ` set (flattenVisible [sample_root]
     (expandToMatches [sample_root] [] [''c@x'']))"
proof -
  have "\<forall>n \<in> set (forest_nodes [sample_root]). node_email n \<noteq> []"
    by simp
  moreover have "closed_expansion (buildParentMap [sample_root]) []"
    by (simp add: closed_expansion_def)
  moreover have "node_email sample_hit \<in> set [''c@x'']"
    by simp
  ultimately show ?thesis
    using expandToMatches_reveals [of "[sample_root]" "[]" sample_hit "[''c@x'']"] by simp
qed

text \<open>
  Without that closure the search can stay blind: when the manager \<open>c\<close> of the hit is still expanded
  under a collapsed root \<open>r\<close> (expand both, then collapse \<open>r\<close>), the climb stops at \<open>c\<close>, nothing
  is added and only the root row is visible.
\<close>

lemma expandToMatches_blind_under_collapsed_root:
  assumes "unique_emails [r]" and "c \<in> set (children r)" and "m \<in> set (children c)"
    and "node_email c \<in> set expanded" and "node_email r \<notin> set expanded"
  shows "expandToMatches [r] expanded [node_email m] = expanded \<and>
    map row_node (flattenVisible [r] (expandToMatches [r] expanded [node_email m])) = [r]"
proof -
  have "c \<in> set (forest_nodes [r])"
    using assms(2) by (auto simp: set_forest_nodes intro: child_in_tree [OF self_in_tree])
  then have "parent_of (buildParentMap [r]) (node_email m) = Some (node_email c)"
    by (simp add: parent_of_def parent_map_child [OF assms(1) _ assms(3)])
  then have "expandToMatches [r] expanded [node_email m] = expanded"
    using assms(4) by (simp add: expandToMatches_def)
  then show ?thesis
    using assms(5)
    by (simp add: flattenVisible_def flatten_loop_visible visible_rows.simps row_of_def)
qed

theorem expandToMatches_blind_witness:
  "expandToMatches [sample_root] [''b@x''] [''c@x''] = [''b@x''] \<and>
   map row_node (flattenVisible [sample_root] [''b@x'']) = [sample_root]"
  using expandToMatches_blind_under_collapsed_root [of sample_root sample_lead sample_hit "[''b@x'']"]
  by auto

subsection \<open>Department facets\<close>

record Job =
  job_department :: "string option"
  job_status :: "string option"

definition department_step :: "OrgNode \<Rightarrow> string js_set \<Rightarrow> string js_set" where
  "department_step node departments =
     (case node_department node of
        Some d \<Rightarrow> if d \<noteq> [] then set_add d departments else departments
      | None \<Rightarrow> departments)"

definition collectDepartments :: "OrgNode \<Rightarrow> string js_set" where
  "collectDepartments node = walk department_step [node] []"

definition openReqsForNode :: "OrgNode \<Rightarrow> (string, nat) js_map \<Rightarrow> nat" where
  "openReqsForNode node byDepartment =
     fold (\<lambda>d total. total + (case map_get byDepartment d of Some n \<Rightarrow> n | None \<Rightarrow> 0))
       (collectDepartments node) 0"

text \<open>A job counts when it has no status or is PUBLISHED, under its trimmed department.\<close>

definition open_department :: "Job \<Rightarrow> string option" where
  "open_department job =
     (if or_empty (job_status job) \<noteq> [] \<and> or_empty (job_status job) \<noteq> ''PUBLISHED'' then None
      else let department = trim (or_empty (job_department job))
           in if department = [] then None else Some department)"

definition aggregateOpenReqs :: "Job list \<Rightarrow> (string, nat) js_map" where
  "aggregateOpenReqs jobs =
     fold (\<lambda>job counts. case open_department job of
             None \<Rightarrow> counts
           | Some d \<Rightarrow> map_set d ((case map_get counts d of Some n \<Rightarrow> n | None \<Rightarrow> 0) + 1) counts)
       jobs []"

interpretation departments:
  collector department_step set "\<lambda>n. {d. node_department n = Some d \<and> d \<noteq> []}"
  by unfold_locales (auto simp: department_step_def split: option.splits)

lemma collectDepartments_set:
  "set (collectDepartments n) = {d. d \<noteq> [] \<and> (\<exists>m \<in> set (tree_nodes n). node_department m = Some d)}"
  by (auto simp: collectDepartments_def departments.held_walk set_forest_nodes)

lemma collectDepartments_distinct: "distinct (collectDepartments n)"
proof -
  have "distinct acc \<Longrightarrow> distinct (fold department_step ns acc)" for ns acc
    by (induction ns arbitrary: acc) (auto simp: department_step_def split: option.splits)
  then show ?thesis by (simp add: collectDepartments_def walk_fold)
qed

lemma fold_sum_list: "fold (\<lambda>d total. total + f d) ds t = t + (sum_list (map f ds) :: nat)"
  by (induction ds arbitrary: t) auto

text \<open>
  \<open>openReqsForNode\<close> adds the open requisitions of each department of the subtree once, however
  many people of that department report to the node.
\<close>

lemma openReqsForNode_sum:
  "openReqsForNode n byDepartment =
     (\<Sum>d \<in> {d. d \<noteq> [] \<and> (\<exists>m \<in> set (tree_nodes n). node_department m = Some d)}.
        case map_get byDepartment d of Some k \<Rightarrow> k | None \<Rightarrow> 0)"
  by (simp add: openReqsForNode_def fold_sum_list collectDepartments_distinct
      sum_list_distinct_conv_sum_set flip: collectDepartments_set)

lemma aggregate_fold:
  "map_get (fold (\<lambda>job counts. case open_department job of
             None \<Rightarrow> counts
           | Some d \<Rightarrow> map_set d ((case map_get counts d of Some n \<Rightarrow> n | None \<Rightarrow> 0) + 1) counts)
       jobs counts) d =
   (let k = length (filter (\<lambda>job. open_department job = Some d) jobs)
    in if k = 0 then map_get counts d
       else Some ((case map_get counts d of Some n \<Rightarrow> n | None \<Rightarrow> 0) + k))"
  by (induction jobs arbitrary: counts) (auto simp: Let_def split: option.splits)

text \<open>
  \<open>aggregateOpenReqs\<close> counts, per trimmed department, the jobs that are PUBLISHED or carry no
  status; departments without such a job have no entry.
\<close>

lemma aggregateOpenReqs_counts:
  "map_get (aggregateOpenReqs jobs) d =
     (let k = length (filter (\<lambda>job. open_department job = Some d) jobs)
      in if k = 0 then None else Some k)"
  by (simp add: aggregateOpenReqs_def aggregate_fold Let_def)

subsection \<open>Highlighting\<close>

record HighlightSegment =
  seg_text :: string
  seg_match :: bool

text \<open>
  The loop of \<open>highlightSegments\<close>; it is entered with a non-empty needle only, which is
  what makes \<open>index\<close> grow.
\<close>

function highlight_loop ::
  "string \<Rightarrow> string \<Rightarrow> string \<Rightarrow> nat \<Rightarrow> HighlightSegment list \<Rightarrow> HighlightSegment list"
where
  "highlight_loop content haystack needle index segs =
     (if index < length content \<and> needle \<noteq> [] then
        (case index_of needle haystack index of
           None \<Rightarrow> segs @ [\<lparr>seg_text = drop index content, seg_match = False\<rparr>]
         | Some found \<Rightarrow>
             highlight_loop content haystack needle (found + length needle)
               (segs @
                (if found > index
                 then [\<lparr>seg_text = slice content index found, seg_match = False\<rparr>] else []) @
                [\<lparr>seg_text = slice content found (found + length needle), seg_match = True\<rparr>]))
      else segs)"
  by pat_completeness auto
termination
proof (relation "measure (\<lambda>(content, _, _, index, _). length content - index)", goal_cases)
  case (2 content haystack needle index segs found)
  then have "index \<le> found" and "0 < length needle" and "index < length content"
    by (auto dest: index_of_Some)
  then have "length content - (found + length needle) < length content - index"
    by linarith
  then show ?case by simp
qed simp

declare highlight_loop.simps [simp del]

definition highlightSegments :: "string \<Rightarrow> string \<Rightarrow> HighlightSegment list" where
  "highlightSegments content query =
     (let needle = normalizeQuery query
      in if needle = [] then [\<lparr>seg_text = content, seg_match = False\<rparr>]
         else highlight_loop content (to_lower content) needle 0 [])"

lemma highlight_loop_text:
  "concat (map seg_text (highlight_loop content (to_lower content) needle i segs)) =
   concat (map seg_text segs) @ (if needle = [] then [] else drop i content)"
proof (induction content "to_lower content" needle i segs rule: highlight_loop.induct)
  case (1 content needle i segs)
  show ?case
  proof (cases "i < length content \<and> needle \<noteq> []")
    case True
    show ?thesis
    proof (cases "index_of needle (to_lower content) i")
      case None
      with True show ?thesis by (subst highlight_loop.simps) simp
    next
      case (Some found)
      then have "i \<le> found" by (rule index_of_Some)
      then have "(if found > i then slice content i found else []) @ drop found content = drop i content"
        by (auto simp: slice_append_drop)
      moreover have "slice content found (found + length needle) @ drop (found + length needle) content
          = drop found content"
        by (simp add: slice_append_drop)
      ultimately show ?thesis
        using "1" [OF True Some] True Some
        by (subst highlight_loop.simps) (auto split: if_splits)
    qed
  next
    case False
    then show ?thesis by (subst highlight_loop.simps) auto
  qed
qed

lemma highlight_loop_matches:
  assumes "\<forall>s \<in> set segs. seg_match s \<longrightarrow> to_lower (seg_text s) = needle"
  shows "\<forall>s \<in> set (highlight_loop content (to_lower content) needle i segs).
    seg_match s \<longrightarrow> to_lower (seg_text s) = needle"
  using assms
proof (induction content "to_lower content" needle i segs rule: highlight_loop.induct)
  case (1 content needle i segs)
  show ?case
  proof (cases "i < length content \<and> needle \<noteq> []")
    case True
    show ?thesis
    proof (cases "index_of needle (to_lower content) i")
      case None
      with True "1.prems" show ?thesis by (subst highlight_loop.simps) auto
    next
      case (Some found)
      then have "to_lower (slice content found (found + length needle)) = needle"
        by (simp add: to_lower_slice index_of_Some(4))
      with "1" True Some show ?thesis
        by (subst highlight_loop.simps) auto
    qed
  next
    case False
    with "1.prems" show ?thesis by (subst highlight_loop.simps) auto
  qed
qed

text \<open>
  Highlighting loses and invents nothing: the segments concatenate to the text, and every
  segment marked as a match is, case aside, the trimmed query.
\<close>

lemma highlightSegments_partition:
  "concat (map seg_text (highlightSegments content query)) = content \<and>
   (\<forall>s \<in> set (highlightSegments content query).
      seg_match s \<longrightarrow> to_lower (seg_text s) = normalizeQuery query)"
  using highlight_loop_matches [of "[]" "normalizeQuery query" content 0]
  by (simp add: highlightSegments_def Let_def highlight_loop_text)

lemma highlightSegments_partition_witness:
  "map seg_text (filter seg_match (highlightSegments ''Eve'' '' E'')) = [''E'', ''e''] \<and>
   concat (map seg_text (highlightSegments ''Eve'' '' E'')) = ''Eve'' \<and>
   map to_lower [''E'', ''e''] = [normalizeQuery '' E'', normalizeQuery '' E'']"
proof -
  have m: "map seg_text (filter seg_match (highlightSegments ''Eve'' '' E'')) = [''E'', ''e'']"
    by code_simp
  have "\<forall>s \<in> set (filter seg_match (highlightSegments ''Eve'' '' E'')).
      to_lower (seg_text s) = normalizeQuery '' E''"
    using highlightSegments_partition [of "''Eve''" "'' E''"] by simp
  then have "map to_lower (map seg_text (filter seg_match (highlightSegments ''Eve'' '' E''))) =
      map (\<lambda>_. normalizeQuery '' E'') (filter seg_match (highlightSegments ''Eve'' '' E''))"
    by simp
  then have "map to_lower [''E'', ''e''] = [normalizeQuery '' E'', normalizeQuery '' E'']"
    using m by (auto simp: map_eq_Cons_conv)
  with m show ?thesis
    using highlightSegments_partition [of "''Eve''" "'' E''"] by blast
qed

subsection \<open>The manager ranking\<close>

record ManagerFacetRow =
  mf_email :: string
  mf_name :: string
  mf_department :: "string option"
  directReports :: int
  totalReports :: int

definition manager_row :: "OrgNode \<Rightarrow> ManagerFacetRow" where
  "manager_row node =
     \<lparr>mf_email = node_email node, mf_name = node_name node, mf_department = node_department node,
      directReports = direct_reports node, totalReports = total_reports node\<rparr>"

definition is_manager :: "OrgNode \<Rightarrow> bool" where
  "is_manager node \<longleftrightarrow> direct_reports node > 0 \<or> total_reports node > 0"

definition manager_step :: "OrgNode \<Rightarrow> ManagerFacetRow list \<Rightarrow> ManagerFacetRow list" where
  "manager_step node managers =
     (if is_manager node then managers @ [manager_row node] else managers)"

text \<open>
  The comparator; \<open>lc\<close> is \<open>localeCompare\<close>, which the host's collation decides.
\<close>

definition compare_managers ::
  "(string \<Rightarrow> string \<Rightarrow> int) \<Rightarrow> ManagerFacetRow \<Rightarrow> ManagerFacetRow \<Rightarrow> int" where
  "compare_managers lc a b =
     (if totalReports b - totalReports a \<noteq> 0 then totalReports b - totalReports a
      else if directReports b - directReports a \<noteq> 0 then directReports b - directReports a
      else lc (mf_name a) (mf_name b))"

definition topManagers ::
  "(string \<Rightarrow> string \<Rightarrow> int) \<Rightarrow> OrgNode list \<Rightarrow> nat \<Rightarrow> ManagerFacetRow list" where
  "topManagers lc rs limit =
     take limit (sort_by (\<lambda>a b. compare_managers lc a b \<le> 0) (walk manager_step (rev rs) []))"

definition topManagers_default_limit :: nat where
  "topManagers_default_limit = 5"

lemma manager_fold: "fold manager_step ns acc = acc @ map manager_row (filter is_manager ns)"
  by (induction ns arbitrary: acc) (auto simp: manager_step_def)

lemma mset_forest_pop: "mset (concat (map pop_order (rev rs))) = mset (forest_nodes rs)"
proof -
  have eq: "map (\<lambda>n. mset (pop_order n)) rs = map (\<lambda>n. mset (tree_nodes n)) rs"
    by (simp add: mset_pop_order)
  show ?thesis
    by (simp add: forest_nodes_def mset_concat rev_map [symmetric] sum_list_rev comp_def eq)
qed

lemma compare_managers_total:
  "(\<And>x y. lc x y \<le> 0 \<or> lc y x \<le> 0) \<Longrightarrow>
   compare_managers lc a b \<le> 0 \<or> compare_managers lc b a \<le> 0"
  by (auto simp: compare_managers_def)

lemma compare_managers_trans:
  assumes "\<And>x y z. lc x y \<le> 0 \<Longrightarrow> lc y z \<le> 0 \<Longrightarrow> lc x z \<le> 0"
  shows "transp (\<lambda>a b. compare_managers lc a b \<le> 0)"
  by (rule transpI) (auto simp: compare_managers_def split: if_splits intro: assms)

text \<open>
  For a collation that is a total preorder the ranking holds the \<open>limit\<close> first managers of the
  whole forest, in order: nothing left out ranks before anything listed.
\<close>

lemma topManagers_ranking:
  assumes "\<And>x y. lc x y \<le> 0 \<or> lc y x \<le> 0"
    and "\<And>x y z. lc x y \<le> 0 \<Longrightarrow> lc y z \<le> 0 \<Longrightarrow> lc x z \<le> 0"
  shows "\<exists>rest. mset (topManagers lc rs limit @ rest) =
      image_mset manager_row (filter_mset is_manager (mset (forest_nodes rs))) \<and>
    sorted_wrt (\<lambda>a b. compare_managers lc a b \<le> 0) (topManagers lc rs limit @ rest) \<and>
    (rest = [] \<or> length (topManagers lc rs limit) = limit)"
proof -
  let ?le = "\<lambda>a b. compare_managers lc a b \<le> 0"
  let ?ms = "walk manager_step (rev rs) []"
  let ?rest = "drop limit (sort_by ?le ?ms)"
  have all: "topManagers lc rs limit @ ?rest = sort_by ?le ?ms"
    by (simp add: topManagers_def)
  have "mset ?ms = image_mset manager_row (filter_mset is_manager (mset (forest_nodes rs)))"
    by (simp add: walk_fold manager_fold flip: mset_forest_pop)
  moreover have "sorted_wrt ?le (sort_by ?le ?ms)"
    by (rule sorted_sort_by [OF compare_managers_total [OF assms(1)] compare_managers_trans])
       (rule assms(2))
  moreover have "?rest = [] \<or> length (topManagers lc rs limit) = limit"
    by (auto simp: topManagers_def min_def)
  ultimately show ?thesis
    by (intro exI [of _ ?rest]) (simp only: all mset_sort_by simp_thms)
qed

lemma topManagers_ranking_witness:
  "map mf_name (topManagers (\<lambda>_ _. 0) [sample_root] 1) = [''Alice''] \<and>
   (\<exists>rest. mset (topManagers (\<lambda>_ _. 0) [sample_root] 1 @ rest) =
      mset (map manager_row [sample_root, sample_lead]))"
proof -
  have managers: "is_manager sample_root" "is_manager sample_lead" "\<not> is_manager sample_hit"
    by (simp_all add: is_manager_def sample_chart)
  have row: "mf_name (manager_row sample_root) = ''Alice''"
    "totalReports (manager_row sample_root) = 2" "totalReports (manager_row sample_lead) = 1"
    by (simp_all add: manager_row_def sample_chart)
  have "map mf_name (topManagers (\<lambda>_ _. 0) [sample_root] 1) = [''Alice'']"
    by (simp add: topManagers_def walk.simps manager_step_def managers row compare_managers_def)
  moreover have "\<exists>rest. mset (topManagers (\<lambda>_ _. 0) [sample_root] 1 @ rest) =
      mset (map manager_row [sample_root, sample_lead])"
    using topManagers_ranking [of "\<lambda>_ _. 0" "[sample_root]" 1] by (auto simp: managers)
  ultimately show ?thesis by blast
qed

end
