(* ===== verification/Js_Value.thy ===== *)
theory Js_Value
  imports Atlas_Prelude
begin

section \<open>Dynamic values: JSON, coercions and base64\<close>

text \<open>
  The client reads untyped data: response bodies, token payloads, socket frames. \<open>jsv\<close> is
  such a value; \<open>JSON.parse\<close>, \<open>Number\<close>, \<open>String\<close>, truthiness, \<open>atob\<close> and Node's base64
  decoder are the functions of the language's standard library the source uses on them.
  Numbers are exact rationals: rounding, infinities and NaN of doubles are not represented, so
  \<open>Number\<close> returns \<open>None\<close> for NaN, and a fractional number prints as its decimal expansion
  (at most 17 digits). Strings carry code units below 256; an escape above that makes
  \<open>json_parse\<close> fail.
\<close>

datatype jsv =
    JUndef
  | JNull
  | JBool bool
  | JNum rat
  | JStr string
  | JArr "jsv list"
  | JObj "(string \<times> jsv) list"

definition nullish :: "jsv \<Rightarrow> bool" where
  "nullish v \<longleftrightarrow> v = JUndef \<or> v = JNull"

fun truthy :: "jsv \<Rightarrow> bool" where
  "truthy JUndef = False"
| "truthy JNull = False"
| "truthy (JBool b) = b"
| "truthy (JNum q) = (q \<noteq> 0)"
| "truthy (JStr s) = (s \<noteq> [])"
| "truthy (JArr xs) = True"
| "truthy (JObj fs) = True"

text \<open>\<open>v.k\<close> where \<open>v\<close> is not nullish, and \<open>v?.k\<close> in every case\<close>

definition get_field :: "jsv \<Rightarrow> string \<Rightarrow> jsv" where
  "get_field v k = (case v of
     JObj fs \<Rightarrow> (case map_of fs k of Some w \<Rightarrow> w | None \<Rightarrow> JUndef)
   | _ \<Rightarrow> JUndef)"

text \<open>Falsiness of a string that may be missing\<close>

definition falsy_string :: "string option \<Rightarrow> bool" where
  "falsy_string t \<longleftrightarrow> t = None \<or> t = Some []"

text \<open>\<open>a ?? b\<close>\<close>

definition coalesce :: "jsv \<Rightarrow> jsv \<Rightarrow> jsv" where
  "coalesce a b = (if nullish a then b else a)"

text \<open>\<open>typeof v === "object"\<close> holds of null, arrays and objects\<close>

definition typeof_object :: "jsv \<Rightarrow> bool" where
  "typeof_object v \<longleftrightarrow> (case v of JNull \<Rightarrow> True | JArr _ \<Rightarrow> True | JObj _ \<Rightarrow> True | _ \<Rightarrow> False)"

definition is_object :: "jsv \<Rightarrow> bool" where
  "is_object v \<longleftrightarrow> truthy v \<and> typeof_object v"

lemma get_field_JObj [simp]: "get_field (JObj fs) k = (case map_of fs k of Some w \<Rightarrow> w | None \<Rightarrow> JUndef)"
  by (simp add: get_field_def)

lemma coalesce_simps [simp]:
  "coalesce JUndef b = b" "coalesce JNull b = b" "coalesce (JStr s) b = JStr s"
  "coalesce (JNum q) b = JNum q"
  by (simp_all add: coalesce_def nullish_def)

subsection \<open>Scanning digits\<close>

definition is_digit :: "char \<Rightarrow> bool" where
  "is_digit c \<longleftrightarrow> 48 \<le> (of_char c :: nat) \<and> (of_char c :: nat) \<le> 57"

definition digit_val :: "char \<Rightarrow> nat" where
  "digit_val c = of_char c - 48"

definition digits_val :: "string \<Rightarrow> nat" where
  "digits_val ds = foldl (\<lambda>a d. 10 * a + digit_val d) 0 ds"

definition hex_val :: "char \<Rightarrow> nat option" where
  "hex_val c =
     (let n = of_char c
      in if 48 \<le> n \<and> n \<le> 57 then Some (n - 48)
         else if 97 \<le> n \<and> n \<le> 102 then Some (n - 87)
         else if 65 \<le> n \<and> n \<le> 70 then Some (n - 55) else None)"

definition pow10 :: "int \<Rightarrow> rat" where
  "pow10 e = (if e \<ge> 0 then 10 ^ nat e else 1 / 10 ^ nat (- e))"

text \<open>The optional fraction and exponent of a number literal, after its integer digits.\<close>

definition scan_fraction :: "string \<Rightarrow> (string \<times> string) option" where
  "scan_fraction s = (case s of
     c # r \<Rightarrow> if c = CHR ''.'' then
                (let ds = takeWhile is_digit r
                 in if ds = [] then None else Some (ds, dropWhile is_digit r))
              else Some ([], s)
   | [] \<Rightarrow> Some ([], []))"

definition scan_exponent :: "string \<Rightarrow> (int \<times> string) option" where
  "scan_exponent s = (case s of
     c # r \<Rightarrow> if c = CHR ''e'' \<or> c = CHR ''E'' then
                (let (sg, r') = (case r of
                       d # r1 \<Rightarrow> if d = CHR ''-'' then (- 1, r1)
                                 else if d = CHR ''+'' then (1, r1) else (1, r)
                     | [] \<Rightarrow> (1, []));
                     ds = takeWhile is_digit r'
                 in if ds = [] then None
                    else Some (sg * int (digits_val ds), dropWhile is_digit r'))
              else Some (0, s)
   | [] \<Rightarrow> Some (0, []))"

definition number_value :: "string \<Rightarrow> string \<Rightarrow> int \<Rightarrow> rat" where
  "number_value ds fs e =
     (of_nat (digits_val ds) + of_nat (digits_val fs) / 10 ^ length fs) * pow10 e"

subsection \<open>JSON.parse\<close>

definition json_ws :: "char \<Rightarrow> bool" where
  "json_ws c \<longleftrightarrow> of_char c \<in> {9, 10, 13, 32 :: nat}"

definition json_skip :: "string \<Rightarrow> string" where
  "json_skip s = dropWhile json_ws s"

definition scan_json_number :: "string \<Rightarrow> (jsv \<times> string) option" where
  "scan_json_number s =
     (let (neg, r) = (case s of c # r \<Rightarrow> if c = CHR ''-'' then (True, r) else (False, s) | [] \<Rightarrow> (False, []));
          ds = takeWhile is_digit r; r1 = dropWhile is_digit r
      in if ds = [] \<or> (hd ds = CHR ''0'' \<and> length ds > 1) then None
         else case scan_fraction r1 of None \<Rightarrow> None
              | Some (fs, r2) \<Rightarrow> (case scan_exponent r2 of None \<Rightarrow> None
                  | Some (e, r3) \<Rightarrow>
                      Some (JNum ((if neg then - 1 else 1) * number_value ds fs e), r3)))"

definition hex4 :: "char \<Rightarrow> char \<Rightarrow> char \<Rightarrow> char \<Rightarrow> char option" where
  "hex4 a b c d =
     (case (hex_val a, hex_val b, hex_val c, hex_val d) of
        (Some w, Some x, Some y, Some z) \<Rightarrow>
          if w = 0 \<and> x = 0 then Some (char_of (16 * y + z)) else None
      | _ \<Rightarrow> None)"

definition unescape :: "char \<Rightarrow> char option" where
  "unescape e =
     (if e = CHR 0x22 \<or> e = CHR 0x5C \<or> e = CHR ''/'' then Some e
      else if e = CHR ''b'' then Some (CHR 0x08) else if e = CHR ''f'' then Some (CHR 0x0C)
      else if e = CHR ''n'' then Some (CHR 0x0A) else if e = CHR ''r'' then Some (CHR 0x0D)
      else if e = CHR ''t'' then Some (CHR 0x09) else None)"

text \<open>The rest of a string literal, after its opening quote.\<close>

fun scan_json_string :: "string \<Rightarrow> (string \<times> string) option" where
  "scan_json_string [] = None"
| "scan_json_string (c # r) =
     (if c = CHR 0x22 then Some ([], r)
      else if (of_char c :: nat) < 32 then None
      else if c = CHR 0x5C then
        (case r of
           [] \<Rightarrow> None
         | e # r1 \<Rightarrow>
             if e = CHR ''u'' then
               (case r1 of
                  h1 # h2 # h3 # h4 # r2 \<Rightarrow>
                    (case hex4 h1 h2 h3 h4 of
                       None \<Rightarrow> None
                     | Some ch \<Rightarrow> map_option (\<lambda>(s, t). (ch # s, t)) (scan_json_string r2))
                | _ \<Rightarrow> None)
             else (case unescape e of
                     None \<Rightarrow> None
                   | Some ch \<Rightarrow> map_option (\<lambda>(s, t). (ch # s, t)) (scan_json_string r1)))
      else map_option (\<lambda>(s, t). (c # s, t)) (scan_json_string r))"

text \<open>
  The recursive descent, on fuel: each call consumes a character before it recurses, so the
  length of the input is enough.
\<close>

fun parse_value :: "nat \<Rightarrow> string \<Rightarrow> (jsv \<times> string) option"
  and parse_elements :: "nat \<Rightarrow> string \<Rightarrow> (jsv list \<times> string) option"
  and parse_members :: "nat \<Rightarrow> string \<Rightarrow> ((string \<times> jsv) list \<times> string) option"
where
  "parse_value 0 s = None"
| "parse_value (Suc n) s =
     (case json_skip s of
        [] \<Rightarrow> None
      | c # r \<Rightarrow>
          if c = CHR ''{'' then
            (case json_skip r of
               d # r' \<Rightarrow> if d = CHR ''}'' then Some (JObj [], r')
                         else map_option (\<lambda>(m, t). (JObj m, t)) (parse_members n r)
             | [] \<Rightarrow> None)
          else if c = CHR ''['' then
            (case json_skip r of
               d # r' \<Rightarrow> if d = CHR '']'' then Some (JArr [], r')
                         else map_option (\<lambda>(m, t). (JArr m, t)) (parse_elements n r)
             | [] \<Rightarrow> None)
          else if c = CHR 0x22 then map_option (\<lambda>(x, t). (JStr x, t)) (scan_json_string r)
          else if starts_with (c # r) ''true'' then Some (JBool True, drop 4 (c # r))
          else if starts_with (c # r) ''false'' then Some (JBool False, drop 5 (c # r))
          else if starts_with (c # r) ''null'' then Some (JNull, drop 4 (c # r))
          else scan_json_number (c # r))"
| "parse_elements 0 s = None"
| "parse_elements (Suc n) s =
     (case parse_value n s of
        None \<Rightarrow> None
      | Some (v, r) \<Rightarrow>
          (case json_skip r of
             d # r' \<Rightarrow> if d = CHR '']'' then Some ([v], r')
                       else if d = CHR '','' then
                         map_option (\<lambda>(vs, t). (v # vs, t)) (parse_elements n r')
                       else None
           | [] \<Rightarrow> None))"
| "parse_members 0 s = None"
| "parse_members (Suc n) s =
     (case json_skip s of
        q # r \<Rightarrow>
          if q = CHR 0x22 then
            (case scan_json_string r of
               None \<Rightarrow> None
             | Some (k, r1) \<Rightarrow>
                 (case json_skip r1 of
                    d # r2 \<Rightarrow>
                      if d = CHR '':'' then
                        (case parse_value n r2 of
                           None \<Rightarrow> None
                         | Some (v, r3) \<Rightarrow>
                             (case json_skip r3 of
                                x # r4 \<Rightarrow>
                                  if x = CHR ''}'' then Some ([(k, v)], r4)
                                  else if x = CHR '','' then
                                    map_option (\<lambda>(ms, t). ((k, v) # ms, t)) (parse_members n r4)
                                  else None
                              | [] \<Rightarrow> None))
                      else None
                  | [] \<Rightarrow> None))
          else None
      | [] \<Rightarrow> None)"

text \<open>A repeated key keeps its first position and takes its last value.\<close>

fun norm_keys :: "jsv \<Rightarrow> jsv" where
  "norm_keys (JArr vs) = JArr (map norm_keys vs)"
| "norm_keys (JObj ms) = JObj (fold (\<lambda>(k, v) m. map_set k v m) (map (\<lambda>(k, v). (k, norm_keys v)) ms) [])"
| "norm_keys v = v"

definition json_parse :: "string \<Rightarrow> jsv option" where
  "json_parse s =
     (case parse_value (2 * length s + 2) s of
        Some (v, r) \<Rightarrow> if json_skip r = [] then Some (norm_keys v) else None
      | None \<Rightarrow> None)"

subsection \<open>Coercions\<close>

text \<open>\<open>Number(string)\<close>: blank is 0, a decimal literal with an optional sign, or a hex literal.\<close>

definition hex_digits_val :: "string \<Rightarrow> nat option" where
  "hex_digits_val ds =
     (if ds = [] then None
      else foldl (\<lambda>a d. case (a, hex_val d) of (Some n, Some h) \<Rightarrow> Some (16 * n + h) | _ \<Rightarrow> None)
             (Some 0) ds)"

definition string_to_number :: "string \<Rightarrow> rat option" where
  "string_to_number str =
     (let s = trim str
      in if s = [] then Some 0
         else if starts_with s ''0x'' \<or> starts_with s ''0X''
         then map_option of_nat (hex_digits_val (drop 2 s))
         else
           (let (sg, r) = (case s of
                  c # r \<Rightarrow> if c = CHR ''-'' then (- 1, r) else if c = CHR ''+'' then (1, r) else (1, s)
                | [] \<Rightarrow> (1, []));
                ds = takeWhile is_digit r; r1 = dropWhile is_digit r;
                (fs, r2) = (case r1 of
                    c # q \<Rightarrow> if c = CHR ''.'' then (takeWhile is_digit q, dropWhile is_digit q)
                             else ([], r1)
                  | [] \<Rightarrow> ([], []))
            in if ds = [] \<and> fs = [] then None
               else case scan_exponent r2 of
                      Some (e, []) \<Rightarrow> Some (sg * number_value ds fs e)
                    | _ \<Rightarrow> None))"

fun digits_after_point :: "nat \<Rightarrow> rat \<Rightarrow> string" where
  "digits_after_point 0 q = []"
| "digits_after_point (Suc n) q =
     (if q = 0 then []
      else let d = \<lfloor>10 * q\<rfloor>
           in char_of (48 + nat d) # digits_after_point n (10 * q - of_int d))"

definition number_to_string :: "rat \<Rightarrow> string" where
  "number_to_string q =
     (let a = \<bar>q\<bar>; i = \<lfloor>a\<rfloor>; f = a - of_int i
      in (if q < 0 then ''-'' else []) @ string_of_nat (nat i) @
         (if f = 0 then [] else ''.'' @ digits_after_point 17 f))"

fun js_string :: "jsv \<Rightarrow> string" where
  "js_string JUndef = ''undefined''"
| "js_string JNull = ''null''"
| "js_string (JBool b) = (if b then ''true'' else ''false'')"
| "js_string (JNum q) = number_to_string q"
| "js_string (JStr s) = s"
| "js_string (JArr vs) =
     join_with '','' (map (\<lambda>v. if nullish v then [] else js_string v) vs)"
| "js_string (JObj fs) = ''[object Object]''"

fun js_number :: "jsv \<Rightarrow> rat option" where
  "js_number JUndef = None"
| "js_number JNull = Some 0"
| "js_number (JBool b) = Some (if b then 1 else 0)"
| "js_number (JNum q) = Some q"
| "js_number (JStr s) = string_to_number s"
| "js_number (JArr vs) = string_to_number (js_string (JArr vs))"
| "js_number (JObj fs) = None"

text \<open>\<open>Number(v) || 0\<close>\<close>

definition number_or_zero :: "jsv \<Rightarrow> rat" where
  "number_or_zero v = (case js_number v of Some q \<Rightarrow> q | None \<Rightarrow> 0)"

subsection \<open>Base64\<close>

definition b64_val :: "char \<Rightarrow> nat option" where
  "b64_val c =
     (let n = of_char c
      in if 65 \<le> n \<and> n \<le> 90 then Some (n - 65)
         else if 97 \<le> n \<and> n \<le> 122 then Some (n - 71)
         else if 48 \<le> n \<and> n \<le> 57 then Some (n + 4)
         else if n = 43 then Some 62 else if n = 47 then Some 63 else None)"

text \<open>Groups of four sextets are three bytes; two or three left over are one or two bytes.\<close>

fun sextets_bytes :: "nat list \<Rightarrow> string" where
  "sextets_bytes (a # b # c # d # r) =
     char_of (a * 4 + b div 16) # char_of ((b mod 16) * 16 + c div 4) #
     char_of ((c mod 4) * 64 + d) # sextets_bytes r"
| "sextets_bytes [a, b, c] = [char_of (a * 4 + b div 16), char_of ((b mod 16) * 16 + c div 4)]"
| "sextets_bytes [a, b] = [char_of (a * 4 + b div 16)]"
| "sextets_bytes _ = []"

fun strip_padding :: "string \<Rightarrow> string" where
  "strip_padding s =
     (if length s mod 4 = 0 then
        (if s \<noteq> [] \<and> last s = CHR ''='' then
           (let t = butlast s in if t \<noteq> [] \<and> last t = CHR ''='' then butlast t else t)
         else s)
      else s)"

text \<open>\<open>atob\<close>: drops white space, then refuses a bad length or a character outside the alphabet.\<close>

definition atob :: "string \<Rightarrow> string option" where
  "atob str =
     (let s = strip_padding (filter (\<lambda>c. of_char c \<notin> {9, 10, 12, 13, 32 :: nat}) str)
      in if length s mod 4 = 1 then None
         else map_option sextets_bytes (those (map b64_val s)))"

text \<open>
  \<open>Buffer.from(s, "base64").toString("utf-8")\<close> skips what is not in the alphabet and stops at
  padding; it is the identity on bytes for payloads in ASCII.
\<close>

definition buffer_base64 :: "string \<Rightarrow> string" where
  "buffer_base64 s =
     sextets_bytes (List.map_filter b64_val (takeWhile (\<lambda>c. c \<noteq> CHR ''='') s))"

subsection \<open>encodeURIComponent and decodeURIComponent\<close>

definition hex_digit :: "nat \<Rightarrow> char" where
  "hex_digit n = (if n < 10 then char_of (48 + n) else char_of (55 + n))"

definition percent_byte :: "nat \<Rightarrow> string" where
  "percent_byte n = [CHR ''%'', hex_digit (n div 16), hex_digit (n mod 16)]"

definition uri_unreserved :: "char \<Rightarrow> bool" where
  "uri_unreserved c \<longleftrightarrow>
     (let n = (of_char c :: nat)
      in (48 \<le> n \<and> n \<le> 57) \<or> (65 \<le> n \<and> n \<le> 90) \<or> (97 \<le> n \<and> n \<le> 122) \<or>
         n \<in> {33, 39, 40, 41, 42, 45, 46, 95, 126})"

definition encode_uri_char :: "char \<Rightarrow> string" where
  "encode_uri_char c =
     (let n = (of_char c :: nat)
      in if uri_unreserved c then [c]
         else if n < 128 then percent_byte n
         else percent_byte (192 + n div 64) @ percent_byte (128 + n mod 64))"

definition encode_uri_component :: "string \<Rightarrow> string" where
  "encode_uri_component s = concat (map encode_uri_char s)"

text \<open>One escaped byte, and the decoder; \<open>None\<close> is the URIError of a malformed escape.\<close>

definition unpercent :: "char \<Rightarrow> char \<Rightarrow> nat option" where
  "unpercent a b = (case (hex_val a, hex_val b) of (Some x, Some y) \<Rightarrow> Some (16 * x + y) | _ \<Rightarrow> None)"

fun decode_uri_component :: "string \<Rightarrow> string option" where
  "decode_uri_component [] = Some []"
| "decode_uri_component (c # r) =
     (if c = CHR ''%'' then
        (case r of
           a # b # r1 \<Rightarrow>
             (case unpercent a b of
                None \<Rightarrow> None
              | Some n \<Rightarrow>
                  if n < 128 then map_option (\<lambda>s. char_of n # s) (decode_uri_component r1)
                  else if n = 194 \<or> n = 195 then
                    (case r1 of
                       p # x # y # r2 \<Rightarrow>
                         if p = CHR ''%'' then
                           (case unpercent x y of
                              None \<Rightarrow> None
                            | Some m \<Rightarrow>
                                if 128 \<le> m \<and> m < 192
                                then map_option (\<lambda>s. char_of ((n - 192) * 64 + m - 128) # s)
                                       (decode_uri_component r2)
                                else None)
                         else None
                     | _ \<Rightarrow> None)
                  else None)
         | _ \<Rightarrow> None)
      else map_option (\<lambda>s. c # s) (decode_uri_component r))"

lemma hex_val_digit: "n < 16 \<Longrightarrow> hex_val (hex_digit n) = Some n"
  by (cases "n < 10") (simp_all add: hex_val_def hex_digit_def Let_def)

lemma unpercent_byte:
  "n < 256 \<Longrightarrow> unpercent (hex_digit (n div 16)) (hex_digit (n mod 16)) = Some n"
  by (simp add: unpercent_def hex_val_digit)

lemma div64_cases: "m < 256 \<Longrightarrow> \<not> m < 128 \<Longrightarrow> (m div 64 = 2 \<and> m < 192) \<or> m div 64 = (3 :: nat)"
  by auto

lemma decode_encode_char:
  "decode_uri_component (encode_uri_char c @ r) = map_option (\<lambda>s. c # s) (decode_uri_component r)"
proof -
  let ?n = "of_char c :: nat"
  have n: "?n < 256" and c: "char_of ?n = c" by simp_all
  show ?thesis
  proof (cases "uri_unreserved c")
    case True
    then have "c \<noteq> CHR ''%''" by (auto simp: uri_unreserved_def Let_def)
    with True show ?thesis by (simp add: encode_uri_char_def)
  next
    case False
    show ?thesis
    proof (cases "?n < 128")
      case True
      with False c unpercent_byte [OF n] show ?thesis
        by (simp add: encode_uri_char_def percent_byte_def Let_def)
    next
      case False
      then have "(?n div 64 = 2 \<and> ?n < 192) \<or> ?n div 64 = 3" by (rule div64_cases [OF n])
      then show ?thesis
        using False \<open>\<not> uri_unreserved c\<close> c mult_div_mod_eq [of 64 ?n]
          unpercent_byte [of "192 + ?n div 64"] unpercent_byte [of "128 + ?n mod 64"]
        by (elim disjE) (simp_all add: encode_uri_char_def percent_byte_def Let_def)
    qed
  qed
qed

lemma decode_encode_uri: "decode_uri_component (encode_uri_component s) = Some s"
  by (induction s) (simp_all add: encode_uri_component_def decode_encode_char)

end
