(* ===== verification/Client_Stores.thy ===== *)
theory Client_Stores
  imports Js_Value
begin

section \<open>The client's state stores: live data, toasts and the workspace\<close>

text \<open>
  Three zustand stores (\<open>frontend/src/stores\<close>). A store is a record, an action a function on
  it; a run of the client is a list of actions. Objects used as dictionaries are association
  lists (keys that name members of \<open>Object.prototype\<close> are outside the model).
\<close>

subsection \<open>live-store.ts\<close>

record PresenceUser =
  user_id :: string
  pu_name :: string
  pu_status :: string
  pu_department :: "string option"
  pu_role :: "string option"

record ChatMessage =
  msg_id :: string
  sender :: string
  message :: string
  message_type :: string
  room :: string
  msg_timestamp :: string

record SLAStatus =
  service :: string
  sla_status :: string
  response_time_ms :: int
  threshold_ms :: int

record ActivityEvent =
  ev_actor :: string
  ev_action :: string
  ev_resource :: string
  ev_details :: "string option"
  ev_department :: "string option"
  ev_timestamp :: "string option"

record LiveStore =
  presence :: "(string, PresenceUser) js_map"
  chatMessages :: "(string, ChatMessage list) js_map"
  slaStatus :: "(string, SLAStatus) js_map"
  activityFeed :: "ActivityEvent list"
  alertCount :: nat
  unreadChats :: "string js_set"
  liveUsers :: int

definition live_start :: LiveStore where
  "live_start = \<lparr>presence = [], chatMessages = [], slaStatus = [], activityFeed = [],
     alertCount = 0, unreadChats = [], liveUsers = 0\<rparr>"

definition setPresence :: "PresenceUser \<Rightarrow> LiveStore \<Rightarrow> LiveStore" where
  "setPresence user s = s\<lparr>presence := map_set (user_id user) user (presence s)\<rparr>"

definition removePresence :: "string \<Rightarrow> LiveStore \<Rightarrow> LiveStore" where
  "removePresence userId s = s\<lparr>presence := AList.delete userId (presence s)\<rparr>"

text \<open>\<open>xs.slice(-n)\<close>\<close>

definition slice_last :: "nat \<Rightarrow> 'a list \<Rightarrow> 'a list" where
  "slice_last n xs = drop (length xs - n) xs"

definition room_messages :: "LiveStore \<Rightarrow> string \<Rightarrow> ChatMessage list" where
  "room_messages s r = (case map_get (chatMessages s) r of Some ms \<Rightarrow> ms | None \<Rightarrow> [])"

definition addChatMessage :: "string \<Rightarrow> ChatMessage \<Rightarrow> LiveStore \<Rightarrow> LiveStore" where
  "addChatMessage r msg s =
     s\<lparr>chatMessages := map_set r (slice_last 200 (room_messages s r @ [msg])) (chatMessages s),
       unreadChats := set_add r (unreadChats s)\<rparr>"

definition setSLA :: "string \<Rightarrow> SLAStatus \<Rightarrow> LiveStore \<Rightarrow> LiveStore" where
  "setSLA sv status s = s\<lparr>slaStatus := map_set sv status (slaStatus s)\<rparr>"

definition addActivity :: "ActivityEvent \<Rightarrow> LiveStore \<Rightarrow> LiveStore" where
  "addActivity event s = s\<lparr>activityFeed := take 200 (event # activityFeed s)\<rparr>"

definition incrementAlerts :: "LiveStore \<Rightarrow> LiveStore" where
  "incrementAlerts s = s\<lparr>alertCount := alertCount s + 1\<rparr>"

definition clearAlerts :: "LiveStore \<Rightarrow> LiveStore" where
  "clearAlerts s = s\<lparr>alertCount := 0\<rparr>"

definition markChatRead :: "string \<Rightarrow> LiveStore \<Rightarrow> LiveStore" where
  "markChatRead r s = s\<lparr>unreadChats := set_delete r (unreadChats s)\<rparr>"

definition setLiveUsers :: "int \<Rightarrow> LiveStore \<Rightarrow> LiveStore" where
  "setLiveUsers n s = s\<lparr>liveUsers := n\<rparr>"

datatype live_action =
    SetPresence PresenceUser
  | RemovePresence string
  | AddChatMessage string ChatMessage
  | SetSLA string SLAStatus
  | AddActivity ActivityEvent
  | IncrementAlerts
  | ClearAlerts
  | MarkChatRead string
  | SetLiveUsers int

fun live_step :: "live_action \<Rightarrow> LiveStore \<Rightarrow> LiveStore" where
  "live_step (SetPresence u) s = setPresence u s"
| "live_step (RemovePresence i) s = removePresence i s"
| "live_step (AddChatMessage r m) s = addChatMessage r m s"
| "live_step (SetSLA sv st) s = setSLA sv st s"
| "live_step (AddActivity e) s = addActivity e s"
| "live_step IncrementAlerts s = incrementAlerts s"
| "live_step ClearAlerts s = clearAlerts s"
| "live_step (MarkChatRead r) s = markChatRead r s"
| "live_step (SetLiveUsers n) s = setLiveUsers n s"

lemmas live_defs = setPresence_def removePresence_def addChatMessage_def setSLA_def addActivity_def
  incrementAlerts_def clearAlerts_def markChatRead_def setLiveUsers_def

definition live_run :: "live_action list \<Rightarrow> LiveStore" where
  "live_run as = fold live_step as live_start"

lemma live_run_Nil [simp]: "live_run [] = live_start"
  by (simp add: live_run_def)

lemma live_run_snoc [simp]: "live_run (as @ [a]) = live_step a (live_run as)"
  by (simp add: live_run_def)

interpretation sla_store: keyed_store setSLA "\<lambda>s. map_get (slaStatus s)"
  by unfold_locales (auto simp: setSLA_def fun_eq_iff)

interpretation activity_feed: capped_feed addActivity activityFeed 200 "\<lambda>_ _. True"
  by unfold_locales (auto simp: addActivity_def)

lemma rev_slice_last: "rev (slice_last n xs) = take n (rev xs)"
  by (cases "n \<le> length xs") (simp_all add: slice_last_def rev_drop)

lemma room_messages_add [simp]:
  "room_messages (addChatMessage r m s) r' =
     (if r' = r then slice_last 200 (room_messages s r @ [m]) else room_messages s r')"
  by (simp add: room_messages_def addChatMessage_def)

interpretation chat_feed:
  capped_feed "addChatMessage r" "\<lambda>s. rev (room_messages s r)" 200 "\<lambda>_ _. True" for r
  by unfold_locales (auto simp: rev_slice_last)

text \<open>What the history of actions says the store should hold.\<close>

definition sent_to :: "string \<Rightarrow> live_action list \<Rightarrow> ChatMessage list" where
  "sent_to r as = List.map_filter
     (\<lambda>a. case a of AddChatMessage r' m \<Rightarrow> if r' = r then Some m else None | _ \<Rightarrow> None) as"

definition activities :: "live_action list \<Rightarrow> ActivityEvent list" where
  "activities as = List.map_filter (\<lambda>a. case a of AddActivity e \<Rightarrow> Some e | _ \<Rightarrow> None) as"

fun unread_after :: "string \<Rightarrow> live_action list \<Rightarrow> bool \<Rightarrow> bool" where
  "unread_after r [] b = b"
| "unread_after r (AddChatMessage r' m # as) b = unread_after r as (b \<or> r' = r)"
| "unread_after r (MarkChatRead r' # as) b = unread_after r as (b \<and> r' \<noteq> r)"
| "unread_after r (_ # as) b = unread_after r as b"

fun alerts_after :: "live_action list \<Rightarrow> nat \<Rightarrow> nat" where
  "alerts_after [] n = n"
| "alerts_after (IncrementAlerts # as) n = alerts_after as (n + 1)"
| "alerts_after (ClearAlerts # as) n = alerts_after as 0"
| "alerts_after (_ # as) n = alerts_after as n"

lemma unread_after_snoc:
  "unread_after r (as @ [a]) b =
     (case a of AddChatMessage r' m \<Rightarrow> unread_after r as b \<or> r' = r
      | MarkChatRead r' \<Rightarrow> unread_after r as b \<and> r' \<noteq> r
      | _ \<Rightarrow> unread_after r as b)"
  by (induction r as b rule: unread_after.induct) (auto split: live_action.splits)

lemma alerts_after_snoc:
  "alerts_after (as @ [a]) n =
     (case a of IncrementAlerts \<Rightarrow> alerts_after as n + 1 | ClearAlerts \<Rightarrow> 0
      | _ \<Rightarrow> alerts_after as n)"
  by (induction as n rule: alerts_after.induct) (auto split: live_action.splits)

lemma map_filter_snoc:
  "List.map_filter f (xs @ [x]) = List.map_filter f xs @ (case f x of Some y \<Rightarrow> [y] | None \<Rightarrow> [])"
  by (simp add: List.map_filter_def split: option.splits)

lemma slice_last_snoc: "slice_last n (slice_last n xs @ [x]) = slice_last n (xs @ [x])"
proof -
  have "rev (slice_last n (slice_last n xs @ [x])) = rev (slice_last n (xs @ [x]))"
    by (cases n) (simp_all add: rev_slice_last min_def)
  then show ?thesis by simp
qed

lemma room_messages_step:
  "room_messages (live_step a s) r =
     (case a of AddChatMessage r' m \<Rightarrow>
        if r' = r then slice_last 200 (room_messages s r @ [m]) else room_messages s r
      | _ \<Rightarrow> room_messages s r)"
  by (cases a) (auto simp: live_defs room_messages_def)

text \<open>
  The live store is its history, cut to its bounds: after any run of actions a room holds the last
  200 messages sent to it, in order; the feed holds the 200 latest activities, newest first; a
  room is unread exactly when a message came after it was last read; and the alert count is the
  number of alerts since they were last cleared.
\<close>

lemma live_store_is_history:
  "room_messages (live_run as) r = slice_last 200 (sent_to r as) \<and>
   activityFeed (live_run as) = take 200 (rev (activities as)) \<and>
   (r \<in> set (unreadChats (live_run as)) \<longleftrightarrow> unread_after r as False) \<and>
   alertCount (live_run as) = alerts_after as 0"
proof (induction as rule: rev_induct)
  case Nil
  show ?case
    by (simp add: live_start_def room_messages_def sent_to_def activities_def slice_last_def)
next
  case (snoc a as)
  have "room_messages (live_run (as @ [a])) r = slice_last 200 (sent_to r (as @ [a]))"
    using snoc by (auto simp: room_messages_step sent_to_def map_filter_snoc slice_last_snoc
        split: live_action.splits)
  moreover have "activityFeed (live_run (as @ [a])) = take 200 (rev (activities (as @ [a])))"
    using snoc by (cases a) (auto simp: live_defs activities_def map_filter_snoc)
  moreover have "r \<in> set (unreadChats (live_run (as @ [a]))) \<longleftrightarrow> unread_after r (as @ [a]) False"
    using snoc by (cases a) (auto simp: live_defs unread_after_snoc)
  moreover have "alertCount (live_run (as @ [a])) = alerts_after (as @ [a]) 0"
    using snoc by (cases a) (auto simp: live_defs alerts_after_snoc)
  ultimately show ?case by blast
qed

subsection \<open>toast-store.ts\<close>

text \<open>A JavaScript number used as a delay: \<open>Infinity\<close> or finite.\<close>

datatype delay = Infinity | Finite rat

datatype toast_variant = Default | Destructive | Success

record ToastItem =
  toast_id :: string
  toast_title :: "string option"
  description :: "string option"
  variant :: "toast_variant option"
  duration :: "delay option"

text \<open>
  The store with what its \<open>setTimeout\<close> calls leave in the host: the pending timers (the time
  they fire and the id their callback removes) and the clock. Delays are taken to stay below the
  host's limit of \<open>2 ^ 31\<close> milliseconds.
\<close>

record toast_state =
  toasts :: "ToastItem list"
  timers :: "(rat \<times> string) list"
  clock :: rat

definition toast_start :: toast_state where
  "toast_start = \<lparr>toasts = [], timers = [], clock = 0\<rparr>"

definition toast_duration :: "ToastItem \<Rightarrow> delay" where
  "toast_duration item =
     (case duration item of
        Some d \<Rightarrow> d
      | None \<Rightarrow> Finite (if variant item = Some Destructive then 10000 else 5000))"

definition toast_deadline :: "rat \<Rightarrow> ToastItem \<Rightarrow> rat option" where
  "toast_deadline t item =
     (case toast_duration item of
        Infinity \<Rightarrow> None
      | Finite d \<Rightarrow> if d > 0 then Some (t + d) else None)"

text \<open>\<open>i\<close> is the id \<open>crypto.randomUUID\<close> (or the clock and \<open>Math.random\<close>) gives.\<close>

definition toast :: "string \<Rightarrow> ToastItem \<Rightarrow> toast_state \<Rightarrow> toast_state" where
  "toast i item s =
     s\<lparr>toasts := toasts s @ [item\<lparr>toast_id := i\<rparr>],
       timers := timers s @ (case toast_deadline (clock s) item of Some t \<Rightarrow> [(t, i)] | None \<Rightarrow> [])\<rparr>"

definition remove_toast :: "string \<Rightarrow> ToastItem list \<Rightarrow> ToastItem list" where
  "remove_toast i ts = filter (\<lambda>t. toast_id t \<noteq> i) ts"

definition dismiss :: "string \<Rightarrow> toast_state \<Rightarrow> toast_state" where
  "dismiss i s = s\<lparr>toasts := remove_toast i (toasts s)\<rparr>"

text \<open>Time passes: every timer that is due runs its callback.\<close>

definition elapse :: "rat \<Rightarrow> toast_state \<Rightarrow> toast_state" where
  "elapse dt s =
     (let t = clock s + dt; due = filter (\<lambda>(d, _). d \<le> t) (timers s)
      in s\<lparr>toasts := fold (\<lambda>(_, i). remove_toast i) due (toasts s),
           timers := filter (\<lambda>(d, _). t < d) (timers s), clock := t\<rparr>)"

datatype toast_event = Toast string ToastItem | Dismiss string | Elapse rat

fun toast_step :: "toast_event \<Rightarrow> toast_state \<Rightarrow> toast_state" where
  "toast_step (Toast i item) s = toast i item s"
| "toast_step (Dismiss i) s = dismiss i s"
| "toast_step (Elapse dt) s = elapse dt s"

definition toast_run :: "toast_event list \<Rightarrow> toast_state" where
  "toast_run es = fold toast_step es toast_start"

definition toast_ids :: "toast_event list \<Rightarrow> string list" where
  "toast_ids es = List.map_filter (\<lambda>e. case e of Toast i _ \<Rightarrow> Some i | _ \<Rightarrow> None) es"

text \<open>The contract: a toast carries its own deadline and leaves at it.\<close>

fun shown_step ::
  "toast_event \<Rightarrow> (ToastItem \<times> rat option) list \<times> rat \<Rightarrow> (ToastItem \<times> rat option) list \<times> rat" where
  "shown_step (Toast i item) (xs, t) = (xs @ [(item\<lparr>toast_id := i\<rparr>, toast_deadline t item)], t)"
| "shown_step (Dismiss i) (xs, t) = (filter (\<lambda>(it, _). toast_id it \<noteq> i) xs, t)"
| "shown_step (Elapse dt) (xs, t) =
     (filter (\<lambda>(_, d). case d of None \<Rightarrow> True | Some d \<Rightarrow> t + dt < d) xs, t + dt)"

definition shown :: "toast_event list \<Rightarrow> (ToastItem \<times> rat option) list \<times> rat" where
  "shown es = fold shown_step es ([], 0)"

lemma fold_remove_toast:
  "fold (\<lambda>(_, i). remove_toast i) due ts = filter (\<lambda>t. toast_id t \<notin> snd ` set due) ts"
proof (induction due arbitrary: ts)
  case (Cons d due)
  then show ?case
    by (auto simp: remove_toast_def split_beta intro!: filter_cong)
qed simp

lemma toast_ids_snoc [simp]:
  "toast_ids (es @ [e]) = toast_ids es @ (case e of Toast i _ \<Rightarrow> [i] | _ \<Rightarrow> [])"
  by (cases e) (simp_all add: toast_ids_def map_filter_snoc)

text \<open>Store and contract agree, and each pending timer belongs to the toast that set it.\<close>

definition toast_agrees ::
  "string set \<Rightarrow> toast_state \<Rightarrow> (ToastItem \<times> rat option) list \<times> rat \<Rightarrow> bool" where
  "toast_agrees ids s x \<longleftrightarrow>
     toasts s = map fst (fst x) \<and> clock s = snd x \<and>
     (\<forall>(it, d) \<in> set (fst x). toast_id it \<in> ids \<and>
        (\<forall>t. d = Some t \<longrightarrow> (t, toast_id it) \<in> set (timers s))) \<and>
     (\<forall>(t, i) \<in> set (timers s). i \<in> ids \<and>
        (\<forall>(it, d) \<in> set (fst x). toast_id it = i \<longrightarrow> d = Some t))"

lemma toast_agrees_toast:
  assumes "toast_agrees ids s x" and "i \<notin> ids"
  shows "toast_agrees (insert i ids) (toast_step (Toast i item) s) (shown_step (Toast i item) x)"
  using assms
  by (cases x) (force simp: toast_agrees_def toast_def split: option.splits prod.splits)

lemma toast_agrees_dismiss:
  assumes "toast_agrees ids s x"
  shows "toast_agrees ids (toast_step (Dismiss i) s) (shown_step (Dismiss i) x)"
  using assms
  by (cases x) (auto simp: toast_agrees_def dismiss_def remove_toast_def filter_map o_def
      intro!: arg_cong [where f = "map fst"] filter_cong)

lemma toast_agrees_elapse:
  assumes "toast_agrees ids s x"
  shows "toast_agrees ids (toast_step (Elapse dt) s) (shown_step (Elapse dt) x)"
proof -
  obtain xs t where x: "x = (xs, t)" by (cases x)
  define due where "due = filter (\<lambda>(d, _). d \<le> clock s + dt) (timers s)"
  have kept: "toasts (elapse dt s) = filter (\<lambda>i. toast_id i \<notin> snd ` set due) (toasts s)"
    by (simp add: elapse_def Let_def fold_remove_toast due_def)
  have "filter (\<lambda>p. toast_id (fst p) \<notin> snd ` set due) xs =
        filter (\<lambda>(_, d). case d of None \<Rightarrow> True | Some d \<Rightarrow> t + dt < d) xs"
    using assms
    by (intro filter_cong refl)
      (force simp: x toast_agrees_def due_def image_iff split: option.splits)
  then have "toasts (elapse dt s) = map fst (fst (shown_step (Elapse dt) x))"
    using kept assms by (simp add: x toast_agrees_def filter_map o_def)
  then show ?thesis
    using assms by (fastforce simp: x toast_agrees_def elapse_def Let_def)
qed

text \<open>
  Toasts leave on time and for no other reason: as long as ids are fresh, whatever is
  shown, dismissed and however time passes, the toasts on screen are exactly those that were
  neither dismissed nor reached their own deadline (5 seconds, 10 for a destructive one, the
  given duration otherwise; \<open>Infinity\<close> and 0 never end). A dismissed toast's pending timer
  never removes another toast.
\<close>

lemma toasts_leave_on_time:
  assumes "distinct (toast_ids es)"
  shows "toasts (toast_run es) = map fst (fst (shown es))"
proof -
  have "toast_agrees (set (toast_ids es)) (toast_run es) (shown es)"
    using assms
  proof (induction es rule: rev_induct)
    case Nil
    show ?case by (simp add: toast_run_def toast_start_def shown_def toast_agrees_def)
  next
    case (snoc e es)
    then show ?case
      by (cases e)
        (auto simp: toast_run_def shown_def toast_agrees_dismiss toast_agrees_elapse
          toast_agrees_toast simp del: toast_step.simps shown_step.simps)
  qed
  then show ?thesis by (simp add: toast_agrees_def)
qed

lemma toasts_leave_on_time_witness:
  "map toast_id (toasts (toast_run
     [Toast ''a'' \<lparr>toast_id = [], toast_title = None, description = None,
        variant = Some Destructive, duration = None\<rparr>,
      Toast ''b'' \<lparr>toast_id = [], toast_title = None, description = None,
        variant = None, duration = None\<rparr>, Elapse 6000])) = [''a'']"
  by (subst toasts_leave_on_time)
    (simp_all add: toast_ids_def List.map_filter_def shown_def toast_deadline_def toast_duration_def)

subsection \<open>workspace-store.ts\<close>

record SavedView =
  view_id :: string
  view_name :: string
  filters :: "(string, jsv) js_map"
  view_timestamp :: rat

datatype widget_size = Sm | Md | Lg | Xl | Full

record WidgetLayout =
  widget_id :: string
  widget_title :: string
  widget_size :: widget_size
  order :: rat
  visible :: bool

record WorkspacePreferences =
  sidebarCollapsed :: bool
  sidebarWidth :: rat
  commandPaletteEnabled :: bool
  globalSearchEnabled :: bool
  keyboardShortcutsHint :: bool
  denseMode :: bool
  reducedMotion :: bool
  highContrast :: bool

record WorkspaceState =
  preferences :: WorkspacePreferences
  savedViews :: "(string, SavedView list) js_map"
  widgetLayouts :: "(string, WidgetLayout list) js_map"

definition DEFAULT_PREFERENCES :: WorkspacePreferences where
  "DEFAULT_PREFERENCES = \<lparr>sidebarCollapsed = False, sidebarWidth = 260,
     commandPaletteEnabled = True, globalSearchEnabled = True, keyboardShortcutsHint = True,
     denseMode = False, reducedMotion = False, highContrast = False\<rparr>"

definition workspace_start :: WorkspaceState where
  "workspace_start =
     \<lparr>preferences = DEFAULT_PREFERENCES, savedViews = [], widgetLayouts = []\<rparr>"

text \<open>\<open>setPreference(key, value)\<close> with the value's type fixed by its key.\<close>

datatype preference =
    SidebarCollapsed bool | SidebarWidth rat | CommandPaletteEnabled bool
  | GlobalSearchEnabled bool | KeyboardShortcutsHint bool | DenseMode bool
  | ReducedMotion bool | HighContrast bool

fun put_preference :: "preference \<Rightarrow> WorkspacePreferences \<Rightarrow> WorkspacePreferences" where
  "put_preference (SidebarCollapsed v) p = p\<lparr>sidebarCollapsed := v\<rparr>"
| "put_preference (SidebarWidth v) p = p\<lparr>sidebarWidth := v\<rparr>"
| "put_preference (CommandPaletteEnabled v) p = p\<lparr>commandPaletteEnabled := v\<rparr>"
| "put_preference (GlobalSearchEnabled v) p = p\<lparr>globalSearchEnabled := v\<rparr>"
| "put_preference (KeyboardShortcutsHint v) p = p\<lparr>keyboardShortcutsHint := v\<rparr>"
| "put_preference (DenseMode v) p = p\<lparr>denseMode := v\<rparr>"
| "put_preference (ReducedMotion v) p = p\<lparr>reducedMotion := v\<rparr>"
| "put_preference (HighContrast v) p = p\<lparr>highContrast := v\<rparr>"

definition setPreference :: "preference \<Rightarrow> WorkspaceState \<Rightarrow> WorkspaceState" where
  "setPreference pr s = s\<lparr>preferences := put_preference pr (preferences s)\<rparr>"

definition resetPreferences :: "WorkspaceState \<Rightarrow> WorkspaceState" where
  "resetPreferences s = s\<lparr>preferences := DEFAULT_PREFERENCES\<rparr>"

definition toggleSidebar :: "WorkspaceState \<Rightarrow> WorkspaceState" where
  "toggleSidebar s =
     s\<lparr>preferences := (preferences s)
         \<lparr>sidebarCollapsed := \<not> sidebarCollapsed (preferences s)\<rparr>\<rparr>"

definition setSidebarCollapsed :: "bool \<Rightarrow> WorkspaceState \<Rightarrow> WorkspaceState" where
  "setSidebarCollapsed collapsed s =
     s\<lparr>preferences := (preferences s)\<lparr>sidebarCollapsed := collapsed\<rparr>\<rparr>"

definition getSavedViews :: "string \<Rightarrow> WorkspaceState \<Rightarrow> SavedView list" where
  "getSavedViews page s = (case map_get (savedViews s) page of Some vs \<Rightarrow> vs | None \<Rightarrow> [])"

definition saveView :: "string \<Rightarrow> SavedView \<Rightarrow> WorkspaceState \<Rightarrow> WorkspaceState" where
  "saveView page view s =
     s\<lparr>savedViews := map_set page (getSavedViews page s @ [view]) (savedViews s)\<rparr>"

definition deleteView :: "string \<Rightarrow> string \<Rightarrow> WorkspaceState \<Rightarrow> WorkspaceState" where
  "deleteView page viewId s =
     s\<lparr>savedViews := map_set page (filter (\<lambda>v. view_id v \<noteq> viewId) (getSavedViews page s))
         (savedViews s)\<rparr>"

definition renameView :: "string \<Rightarrow> string \<Rightarrow> string \<Rightarrow> WorkspaceState \<Rightarrow> WorkspaceState" where
  "renameView page viewId nm s =
     s\<lparr>savedViews := map_set page
         (map (\<lambda>v. if view_id v = viewId then v\<lparr>view_name := nm\<rparr> else v) (getSavedViews page s))
         (savedViews s)\<rparr>"

definition getWidgetLayout :: "string \<Rightarrow> WorkspaceState \<Rightarrow> WidgetLayout list" where
  "getWidgetLayout dashboard s =
     (case map_get (widgetLayouts s) dashboard of Some ls \<Rightarrow> ls | None \<Rightarrow> [])"

definition setWidgetLayout ::
  "string \<Rightarrow> WidgetLayout list \<Rightarrow> WorkspaceState \<Rightarrow> WorkspaceState" where
  "setWidgetLayout dashboard layouts s =
     s\<lparr>widgetLayouts := map_set dashboard layouts (widgetLayouts s)\<rparr>"

interpretation widget_store: keyed_store setWidgetLayout "\<lambda>s. map_get (widgetLayouts s)"
  by unfold_locales (auto simp: setWidgetLayout_def fun_eq_iff)

datatype workspace_action =
    Prefer preference | ResetPreferences | ToggleSidebar | SetSidebar bool
  | SaveView string SavedView | DeleteView string string | RenameView string string string
  | SetLayout string "WidgetLayout list"

fun workspace_step :: "workspace_action \<Rightarrow> WorkspaceState \<Rightarrow> WorkspaceState" where
  "workspace_step (Prefer pr) s = setPreference pr s"
| "workspace_step ResetPreferences s = resetPreferences s"
| "workspace_step ToggleSidebar s = toggleSidebar s"
| "workspace_step (SetSidebar b) s = setSidebarCollapsed b s"
| "workspace_step (SaveView p v) s = saveView p v s"
| "workspace_step (DeleteView p i) s = deleteView p i s"
| "workspace_step (RenameView p i n) s = renameView p i n s"
| "workspace_step (SetLayout d ls) s = setWidgetLayout d ls s"

lemmas workspace_defs = setPreference_def resetPreferences_def toggleSidebar_def
  setSidebarCollapsed_def saveView_def deleteView_def renameView_def setWidgetLayout_def

text \<open>
  The views a page should show, read off the actions backwards: a view is kept unless a later
  action deletes it, under the name of the last later renaming.
\<close>

fun view_fate :: "string \<Rightarrow> workspace_action list \<Rightarrow> SavedView \<Rightarrow> SavedView option" where
  "view_fate p [] v = Some v"
| "view_fate p (DeleteView q i # as) v =
     (if q = p \<and> i = view_id v then None else view_fate p as v)"
| "view_fate p (RenameView q i n # as) v =
     view_fate p as (if q = p \<and> i = view_id v then v\<lparr>view_name := n\<rparr> else v)"
| "view_fate p (_ # as) v = view_fate p as v"

fun views_expected :: "string \<Rightarrow> workspace_action list \<Rightarrow> SavedView list" where
  "views_expected p [] = []"
| "views_expected p (SaveView q v # as) =
     (if q = p then (case view_fate p as v of Some w \<Rightarrow> [w] | None \<Rightarrow> []) else [])
     @ views_expected p as"
| "views_expected p (_ # as) = views_expected p as"

definition workspace_run :: "workspace_action list \<Rightarrow> WorkspaceState" where
  "workspace_run as = fold workspace_step as workspace_start"

lemma map_filter_filter:
  "List.map_filter f (filter P xs) = List.map_filter (\<lambda>x. if P x then f x else None) xs"
  by (induction xs) (auto simp: List.map_filter_def)

lemma map_filter_map: "List.map_filter f (map g xs) = List.map_filter (\<lambda>x. f (g x)) xs"
  by (induction xs) (auto simp: List.map_filter_def)

lemma getSavedViews_step:
  "getSavedViews p (workspace_step a s) =
     (case a of
        SaveView q v \<Rightarrow> getSavedViews p s @ (if q = p then [v] else [])
      | DeleteView q i \<Rightarrow> filter (\<lambda>v. \<not> (q = p \<and> i = view_id v)) (getSavedViews p s)
      | RenameView q i n \<Rightarrow>
          map (\<lambda>v. if q = p \<and> i = view_id v then v\<lparr>view_name := n\<rparr> else v) (getSavedViews p s)
      | _ \<Rightarrow> getSavedViews p s)"
proof (cases a)
  case (DeleteView q i)
  then show ?thesis
    by (cases "q = p") (auto simp: deleteView_def getSavedViews_def intro!: filter_cong)
next
  case (RenameView q i n)
  then show ?thesis
    by (cases "q = p") (auto simp: renameView_def getSavedViews_def)
qed (auto simp: workspace_defs getSavedViews_def)

lemma view_fate_Cons:
  "view_fate p (a # as) =
     (case a of
        DeleteView q i \<Rightarrow> (\<lambda>v. if \<not> (q = p \<and> i = view_id v) then view_fate p as v else None)
      | RenameView q i n \<Rightarrow>
          (\<lambda>v. view_fate p as (if q = p \<and> i = view_id v then v\<lparr>view_name := n\<rparr> else v))
      | _ \<Rightarrow> view_fate p as)"
  by (cases a) (auto simp: fun_eq_iff)

lemma saved_views_run:
  "getSavedViews p (fold workspace_step as s) =
     List.map_filter (view_fate p as) (getSavedViews p s) @ views_expected p as"
proof (induction as arbitrary: s)
  case Nil
  show ?case by (simp add: List.map_filter_def o_def)
next
  case (Cons a as)
  show ?case
    by (cases a)
      (simp_all add: Cons.IH getSavedViews_step view_fate_Cons map_filter_filter map_filter_map
        map_filter_snoc del: workspace_step.simps view_fate.simps)
qed

text \<open>
  The saved views of a page are what its history says: after any run of workspace
  actions a page lists the views saved on it, oldest first, without those deleted on that page
  after they were saved and each under its latest name; actions on other pages, preferences and
  widget layouts never touch it.
\<close>

lemma saved_views_history:
  "getSavedViews p (workspace_run as) = views_expected p as"
  by (simp add: workspace_run_def saved_views_run)
     (simp add: workspace_start_def getSavedViews_def List.map_filter_def)

end
