(* ===== verification/Client_Support.thy ===== *)
theory Client_Support
  imports Js_Value
begin

section \<open>Small helpers of the client: exports, configuration, breadcrumbs, shortcuts\<close>

text \<open>
  \<open>frontend/src/lib/csv.ts\<close> (the text of the CSV file; the download itself is DOM work),
  \<open>lib/env.ts\<close>, \<open>hooks/use-breadcrumbs.ts\<close>, \<open>hooks/use-keyboard-shortcuts.ts\<close> and
  \<open>hooks/use-online-status.ts\<close>.
\<close>

subsection \<open>csv.ts\<close>

abbreviation QUOTE :: char where "QUOTE \<equiv> CHR 0x22"
abbreviation COMMA :: char where "COMMA \<equiv> CHR '',''"
abbreviation LF :: char where "LF \<equiv> CHR 0x0A"
abbreviation CR :: char where "CR \<equiv> CHR 0x0D"

fun double_quotes :: "string \<Rightarrow> string" where
  "double_quotes [] = []"
| "double_quotes (c # cs) = (if c = QUOTE then [QUOTE, QUOTE] else [c]) @ double_quotes cs"

definition csv_escape :: "string \<Rightarrow> string" where
  "csv_escape val =
     (if COMMA \<in> set val \<or> QUOTE \<in> set val \<or> LF \<in> set val
      then [QUOTE] @ double_quotes val @ [QUOTE] else val)"

definition csv_line :: "string list \<Rightarrow> string" where
  "csv_line row = join_with [COMMA] (map csv_escape row)"

text \<open>The text of the blob after the byte order mark.\<close>

definition csv_text :: "string list \<Rightarrow> string list list \<Rightarrow> string" where
  "csv_text headers rows = join_with [CR, LF] (csv_line headers # map csv_line rows)"

lemma length_dropWhile_less [termination_simp]: "length (dropWhile P xs) < Suc (length xs)"
  by (simp add: le_imp_less_Suc length_dropWhile_le)

fun collapse_ws :: "string \<Rightarrow> string" where
  "collapse_ws [] = []"
| "collapse_ws (c # cs) =
     (if is_ws c then CHR ''_'' # collapse_ws (dropWhile is_ws cs) else c # collapse_ws cs)"

definition download_name :: "string \<Rightarrow> string \<Rightarrow> string" where
  "download_name filename extension = to_lower (collapse_ws filename) @ extension"

text \<open>A reader of RFC 4180 text: \<open>q\<close> inside quotes, \<open>f\<close> the field and \<open>row\<close> the fields so far.\<close>

fun csv_read :: "bool \<Rightarrow> string \<Rightarrow> string list \<Rightarrow> string \<Rightarrow> string list list" where
  "csv_read q f row [] = [row @ [f]]"
| "csv_read True f row (c # r) =
     (if c \<noteq> QUOTE then csv_read True (f @ [c]) row r
      else if r \<noteq> [] \<and> hd r = QUOTE then csv_read True (f @ [QUOTE]) row (tl r)
      else csv_read False f row r)"
| "csv_read False f row (c # r) =
     (if c = QUOTE \<and> f = [] then csv_read True [] row r
      else if c = COMMA then csv_read False [] (row @ [f]) r
      else if c = CR \<and> r \<noteq> [] \<and> hd r = LF then (row @ [f]) # csv_read False [] [] (tl r)
      else csv_read False (f @ [c]) row r)"

lemma csv_read_plain:
  assumes "COMMA \<notin> set w" "QUOTE \<notin> set w" "LF \<notin> set w" "rest = [] \<or> hd rest \<noteq> LF"
  shows "csv_read False f row (w @ rest) = csv_read False (f @ w) row rest"
  using assms
proof (induction w arbitrary: f)
  case (Cons c w)
  have "\<not> (w @ rest \<noteq> [] \<and> hd (w @ rest) = LF)"
    using Cons.prems by (cases w) auto
  moreover have "c \<noteq> COMMA" "c \<noteq> QUOTE" using Cons.prems by auto
  ultimately show ?case using Cons by (auto simp: Cons.IH [of "f @ [c]"])
qed simp

lemma csv_read_quoted:
  assumes "rest = [] \<or> hd rest \<noteq> QUOTE"
  shows "csv_read True f row (double_quotes w @ QUOTE # rest) = csv_read False (f @ w) row rest"
  using assms
proof (induction w arbitrary: f)
  case (Cons c w)
  then show ?case by (simp add: Cons.IH [of "f @ [c]"])
qed auto

lemma csv_read_field:
  assumes "rest = [] \<or> hd rest = COMMA \<or> hd rest = CR"
  shows "csv_read False [] row (csv_escape w @ rest) = csv_read False w row rest"
proof (cases "COMMA \<in> set w \<or> QUOTE \<in> set w \<or> LF \<in> set w")
  case True
  then have "csv_escape w @ rest = QUOTE # (double_quotes w @ QUOTE # rest)"
    by (auto simp: csv_escape_def)
  moreover have "rest = [] \<or> hd rest \<noteq> QUOTE" using assms by auto
  ultimately show ?thesis using csv_read_quoted [of rest "[]" row w] by simp
next
  case False
  then show ?thesis using assms csv_read_plain [of w rest "[]" row] by (auto simp: csv_escape_def)
qed

lemma csv_read_line:
  assumes "fs \<noteq> []" and "rest = [] \<or> (\<exists>r. rest = CR # LF # r)"
  shows "csv_read False [] row (csv_line fs @ rest) =
    (row @ fs) # (if rest = [] then [] else csv_read False [] [] (drop 2 rest))"
  using assms(1)
proof (induction fs arbitrary: row rule: list_nonempty_induct)
  case (single w)
  show ?case using assms(2) csv_read_field [of "[]" row w] by (auto simp: csv_line_def csv_read_field)
next
  case (cons w ws)
  then obtain v vs where ws: "ws = v # vs" by (cases ws) auto
  then have "csv_line (w # ws) @ rest = csv_escape w @ COMMA # (csv_line ws @ rest)"
    by (simp add: csv_line_def)
  with cons.IH [of "row @ [w]"] show ?case by (simp add: csv_read_field)
qed

text \<open>
  An exported CSV reads back: a reader that follows the quoting rules of RFC 4180
  recovers exactly the headers and the cells, whatever commas, quotes and line breaks they
  hold, provided no line is without cells.
\<close>

lemma csv_roundtrip:
  assumes "\<forall>row \<in> set (headers # rows). row \<noteq> []"
  shows "csv_read False [] [] (csv_text headers rows) = headers # rows"
  using assms
proof (induction rows arbitrary: headers)
  case Nil
  then show ?case
    using csv_read_line [of headers "[]" "[]"] by (simp add: csv_text_def)
next
  case (Cons r rs)
  have "csv_text headers (r # rs) = csv_line headers @ CR # LF # csv_text r rs"
    by (simp add: csv_text_def)
  with Cons csv_read_line [of headers "CR # LF # csv_text r rs" "[]"] show ?case by simp
qed

lemma csv_roundtrip_witness:
  "csv_read False [] [] (csv_text [''name'', ''note''] [[''Ada'', ''a,b'' @ [QUOTE, LF]]]) =
     [[''name'', ''note''], [''Ada'', ''a,b'' @ [QUOTE, LF]]]"
  by (rule csv_roundtrip) simp

subsection \<open>env.ts\<close>

record env =
  env_value :: "string \<Rightarrow> string option"
  node_env :: "string option"
  allow_localhost :: "string option"

definition isLocalDev :: "env \<Rightarrow> bool" where
  "isLocalDev e \<longleftrightarrow> node_env e = Some ''development'' \<or> allow_localhost e = Some ''true''"

definition requiredEnv :: "env \<Rightarrow> string \<Rightarrow> string \<Rightarrow> string + string" where
  "requiredEnv e nm localFallback =
     (case env_value e nm of
        Some v \<Rightarrow>
          if v \<noteq> [] then Inr v
          else if isLocalDev e then Inr localFallback
          else Inl (''[frontend boot] Missing required environment variable '' @ nm @ ''. Set '' @ nm @
                    '' before starting the app. '' @
                    ''The localhost fallback is local-dev only (NODE_ENV=development or NEXT_PUBLIC_ALLOW_LOCALHOST=true).'')
      | None \<Rightarrow>
          if isLocalDev e then Inr localFallback
          else Inl (''[frontend boot] Missing required environment variable '' @ nm @ ''. Set '' @ nm @
                    '' before starting the app. '' @
                    ''The localhost fallback is local-dev only (NODE_ENV=development or NEXT_PUBLIC_ALLOW_LOCALHOST=true).''))"

lemma requiredEnv_no_fallback_in_production:
  "\<not> isLocalDev e \<Longrightarrow> requiredEnv e nm fb = Inr v \<Longrightarrow> env_value e nm = Some v \<and> v \<noteq> []"
  by (auto simp: requiredEnv_def split: option.splits if_splits)

subsection \<open>use-breadcrumbs.ts\<close>

record BreadcrumbItem =
  crumb_title :: string
  crumb_link :: string

definition labelMap :: "(string, string) js_map" where
  "labelMap = [
     (''dashboard'', ''Dashboard''), (''employees'', ''Employees''), (''lifecycle'', ''Lifecycle''),
     (''attendance'', ''Attendance''), (''payroll'', ''Payroll''), (''analytics'', ''Analytics''),
     (''leave'', ''Leave''), (''reports'', ''Reports''), (''notifications'', ''Notifications''),
     (''performance'', ''Performance''), (''lms'', ''LMS''), (''learning-development'', ''L&D''),
     (''workforce-planning'', ''Workforce Planning''), (''ai'', ''AI''), (''compliance'', ''Compliance''),
     (''security'', ''Security''), (''live'', ''Live''), (''integrations'', ''Integrations''),
     (''command-center'', ''Command Center''), (''settings'', ''Settings''), (''ats'', ''ATS''),
     (''jobs'', ''Jobs''), (''candidates'', ''Candidates''), (''courses'', ''Courses''),
     (''certifications'', ''Certifications''), (''skills'', ''Skills'')]"

definition capitalize :: "string \<Rightarrow> string" where
  "capitalize s = (case s of c # cs \<Rightarrow> upper_char c # cs | [] \<Rightarrow> [])"

fun crumbs_from :: "string list \<Rightarrow> string list \<Rightarrow> BreadcrumbItem list" where
  "crumbs_from done_segments [] = []"
| "crumbs_from done_segments (segment # rest) =
     \<lparr>crumb_title = (case map_get labelMap segment of Some l \<Rightarrow> l | None \<Rightarrow> capitalize segment),
      crumb_link = ''/'' @ join_with ''/'' (done_segments @ [segment])\<rparr>
     # crumbs_from (done_segments @ [segment]) rest"

definition useBreadcrumbs :: "string \<Rightarrow> BreadcrumbItem list" where
  "useBreadcrumbs pathname = crumbs_from [] (filter (\<lambda>s. s \<noteq> []) (split_on (CHR ''/'') pathname))"

lemma split_on_append:
  "d \<notin> set u \<Longrightarrow> split_on d (u @ d # v) = u # split_on d v"
  by (induction u) auto

lemma split_on_none: "d \<notin> set u \<Longrightarrow> split_on d u = [u]"
  by (induction u) auto

lemma split_join:
  "ws \<noteq> [] \<Longrightarrow> \<forall>w \<in> set ws. d \<notin> set w \<Longrightarrow> split_on d (join_with [d] ws) = ws"
proof (induction ws rule: list_nonempty_induct)
  case (cons w ws)
  then obtain v vs where "ws = v # vs" by (cases ws) auto
  with cons show ?case by (simp add: split_on_append)
qed (simp add: split_on_none)

definition path_segments :: "string \<Rightarrow> string list" where
  "path_segments pathname = filter (\<lambda>s. s \<noteq> []) (split_on (CHR ''/'') pathname)"

lemma path_segments_link:
  assumes "ws \<noteq> []" and "\<forall>w \<in> set ws. w \<noteq> [] \<and> CHR ''/'' \<notin> set w"
  shows "path_segments (''/'' @ join_with ''/'' ws) = ws"
  using assms split_join [of ws "CHR ''/''"] by (simp add: path_segments_def filter_id_conv)

lemma crumbs_from_links:
  assumes "\<forall>w \<in> set (done_segments @ rest). w \<noteq> [] \<and> CHR ''/'' \<notin> set w"
  shows "map (\<lambda>c. path_segments (crumb_link c)) (crumbs_from done_segments rest) =
    map (\<lambda>i. done_segments @ take (Suc i) rest) [0 ..< length rest]"
  using assms
proof (induction rest arbitrary: done_segments)
  case (Cons s rest)
  have "path_segments (''/'' @ join_with ''/'' (done_segments @ [s])) = done_segments @ [s]"
    by (rule path_segments_link) (use Cons.prems in auto)
  moreover have "[0 ..< length (s # rest)] = 0 # map Suc [0 ..< length rest]"
    by (simp add: upt_conv_Cons map_Suc_upt del: upt_Suc)
  ultimately show ?case
    using Cons.IH [of "done_segments @ [s]"] Cons.prems by (simp add: o_def del: upt_Suc)
qed simp

text \<open>
  The trail has one crumb per non-empty segment of the path, and the link of the n-th
  crumb leads to exactly the first n segments, so the last one leads to the page itself.
\<close>

lemma breadcrumbs_trail:
  "map (\<lambda>c. path_segments (crumb_link c)) (useBreadcrumbs pathname) =
     map (\<lambda>i. take (Suc i) (path_segments pathname)) [0 ..< length (path_segments pathname)]"
proof -
  have "\<forall>w \<in> set ([] @ path_segments pathname). w \<noteq> [] \<and> CHR ''/'' \<notin> set w"
    by (auto simp: path_segments_def split_on_no_sep)
  from crumbs_from_links [OF this] show ?thesis
    by (simp add: useBreadcrumbs_def path_segments_def)
qed

subsection \<open>use-keyboard-shortcuts.ts\<close>

text \<open>Handlers are values of \<open>'h\<close>; a keydown listener returns the handler it calls, if any.\<close>

record 'h Shortcut =
  sc_key :: string
  sc_ctrl :: "bool option"
  sc_meta :: "bool option"
  sc_shift :: "bool option"
  sc_alt :: "bool option"
  sc_handler :: 'h
  sc_enabled :: "bool option"
  sc_description :: "string option"

record key_event =
  ev_key :: string
  ev_ctrl :: bool
  ev_meta :: bool
  ev_shift :: bool
  ev_alt :: bool
  in_text_field :: bool \<comment> \<open>the target is an input or a textarea\<close>

definition is_set :: "bool option \<Rightarrow> bool" where
  "is_set b = (case b of Some v \<Rightarrow> v | None \<Rightarrow> False)"

definition shortcut_matches :: "'h Shortcut \<Rightarrow> key_event \<Rightarrow> bool" where
  "shortcut_matches s e \<longleftrightarrow>
     to_lower (ev_key e) = to_lower (sc_key s) \<and> ev_meta e = is_set (sc_meta s) \<and>
     ev_ctrl e = is_set (sc_ctrl s) \<and> ev_shift e = is_set (sc_shift s) \<and>
     ev_alt e = is_set (sc_alt s) \<and> \<not> in_text_field e"

definition useGlobalShortcut :: "'h Shortcut \<Rightarrow> key_event \<Rightarrow> 'h option" where
  "useGlobalShortcut s e =
     (if sc_enabled s = Some False then None
      else if shortcut_matches s e then Some (sc_handler s) else None)"

fun useKeyboardShortcuts :: "'h Shortcut list \<Rightarrow> key_event \<Rightarrow> 'h option" where
  "useKeyboardShortcuts [] e = None"
| "useKeyboardShortcuts (s # ss) e =
     (if sc_enabled s = Some False then useKeyboardShortcuts ss e
      else if shortcut_matches s e then Some (sc_handler s)
      else useKeyboardShortcuts ss e)"

definition registerGlobalShortcuts :: "'h Shortcut list \<Rightarrow> 'h Shortcut list \<Rightarrow> 'h Shortcut list" where
  "registerGlobalShortcuts newShortcuts registry = registry @ newShortcuts"

text \<open>\<open>command\<close> is the command sign, which lies outside the character range of the model.\<close>

definition formatShortcutLabel :: "string \<Rightarrow> 'h Shortcut \<Rightarrow> string" where
  "formatShortcutLabel command s =
     join_with '' + ''
       ((if is_set (sc_meta s) then [command] else []) @
        (if is_set (sc_ctrl s) then [''Ctrl''] else []) @
        (if is_set (sc_shift s) then [''Shift''] else []) @
        (if is_set (sc_alt s) then [''Alt''] else []) @ [capitalize (sc_key s)])"

lemma useKeyboardShortcuts_find:
  "useKeyboardShortcuts ss e =
     map_option sc_handler (find (\<lambda>s. sc_enabled s \<noteq> Some False \<and> shortcut_matches s e) ss)"
  by (induction ss) auto

lemma no_shortcut_while_typing: "in_text_field e \<Longrightarrow> useKeyboardShortcuts ss e = None"
  by (induction ss) (auto simp: shortcut_matches_def)

definition shortcut_row :: "string \<Rightarrow> bool option \<Rightarrow> bool option \<Rightarrow> string \<Rightarrow> unit Shortcut" where
  "shortcut_row k ctrl meta d = \<lparr>sc_key = k, sc_ctrl = ctrl, sc_meta = meta, sc_shift = None,
     sc_alt = None, sc_handler = (), sc_enabled = None, sc_description = Some d\<rparr>"

definition DIALOG_SHORTCUTS :: "unit Shortcut list" where
  "DIALOG_SHORTCUTS = [
     shortcut_row ''k'' (Some True) None ''Open command palette (Ctrl)'',
     shortcut_row ''k'' None (Some True) ''Open command palette (Cmd)'',
     shortcut_row ''Escape'' None None ''Close dialog or palette'',
     shortcut_row ''Enter'' None None ''Confirm highlighted result'',
     shortcut_row ''ArrowDown'' None None ''Move to next result'',
     shortcut_row ''ArrowUp'' None None ''Move to previous result'']"

subsection \<open>use-online-status.ts\<close>

text \<open>\<open>None\<close>: there is no \<open>navigator\<close>.\<close>

definition online_start :: "bool option \<Rightarrow> bool" where
  "online_start navigator = (case navigator of Some b \<Rightarrow> b | None \<Rightarrow> True)"

datatype network_event = Online | Offline

fun online_step :: "network_event \<Rightarrow> bool \<Rightarrow> bool" where
  "online_step Online b = True"
| "online_step Offline b = False"

lemma online_last: "fold online_step (es @ [e]) b = (e = Online)"
  by (cases e) auto

end
