(* ===== verification/Api_Errors.thy ===== *)
theory Api_Errors
  imports Js_Value
begin

section \<open>Failures of API calls: classification, retries and redaction\<close>

text \<open>
  \<open>frontend/src/lib/api-errors.ts\<close>, \<open>query-retry.ts\<close>, \<open>error-reporting.ts\<close> and
  \<open>reconnect.ts\<close>. A thrown value is an \<open>api_error\<close>: what the code asks of it and nothing
  else (\<open>axios.isAxiosError\<close> and \<open>axios.isCancel\<close> are tests of the axios package, kept as
  fields). Delays are milliseconds; \<open>Math.random\<close> is an argument.
\<close>

subsection \<open>The errors\<close>

record request_config =
  cfg_method :: "string option"
  cfg_url :: string
  retryCount :: "nat option" \<comment> \<open>\<open>_retryCount\<close>\<close>

record api_error =
  is_axios :: bool
  is_error :: bool \<comment> \<open>\<open>error instanceof Error\<close>\<close>
  is_cancel :: bool
  err_code :: "string option"
  err_message :: string
  err_status :: "int option" \<comment> \<open>\<open>error.response?.status\<close>\<close>
  err_config :: "request_config option"

definition API_TIMEOUT_MS :: int where "API_TIMEOUT_MS = 15000"
definition RETRY_MAX_ATTEMPTS :: nat where "RETRY_MAX_ATTEMPTS = 2"
definition RETRY_BASE_DELAY_MS :: int where "RETRY_BASE_DELAY_MS = 300"
definition RETRY_MAX_DELAY_MS :: int where "RETRY_MAX_DELAY_MS = 4000"

lemmas retry_constants = RETRY_MAX_ATTEMPTS_def RETRY_BASE_DELAY_MS_def RETRY_MAX_DELAY_MS_def

definition IDEMPOTENT_METHODS :: "string list" where
  "IDEMPOTENT_METHODS = [''get'', ''head'', ''options'']"

definition RETRYABLE_STATUSES :: "int list" where
  "RETRYABLE_STATUSES = [408, 425, 429, 500, 502, 503, 504]"

definition STATUS_MESSAGES :: "(int, string) js_map" where
  "STATUS_MESSAGES = [
     (400, ''The request was rejected. Check the values you entered and try again.''),
     (401, ''Your session has expired. Sign in again.''),
     (403, ''You do not have permission to do that.''),
     (404, ''The requested item was not found.''),
     (405, ''That action is not supported here.''),
     (408, ''The request timed out. Try again.''),
     (409, ''This change conflicts with the current state. Refresh and try again.''),
     (410, ''This item is no longer available.''),
     (413, ''The submitted data is too large.''),
     (415, ''The server could not read the submitted format.''),
     (422, ''The server rejected the submitted values.''),
     (429, ''Too many requests. Wait a moment and try again.''),
     (500, ''The server hit an unexpected error. Try again shortly.''),
     (502, ''A backend service is unavailable. Try again shortly.''),
     (503, ''A backend service is unavailable. Try again shortly.''),
     (504, ''A backend service did not respond in time. Try again shortly.'')]"

definition isIdempotentMethod :: "string option \<Rightarrow> bool" where
  "isIdempotentMethod meth =
     (case meth of
        None \<Rightarrow> False
      | Some m \<Rightarrow> if m = [] then False else to_lower m \<in> set IDEMPOTENT_METHODS)"

definition isTimeoutError :: "api_error \<Rightarrow> bool" where
  "isTimeoutError e \<longleftrightarrow> err_code e = Some ''ECONNABORTED'' \<or> err_code e = Some ''ETIMEDOUT''"

definition isCanceledError :: "api_error \<Rightarrow> bool" where
  "isCanceledError e \<longleftrightarrow> is_cancel e \<or> err_code e = Some ''ERR_CANCELED''"

definition isRetryableError :: "api_error \<Rightarrow> bool" where
  "isRetryableError e =
     (if isCanceledError e then False
      else case err_status e of None \<Rightarrow> True | Some st \<Rightarrow> st \<in> set RETRYABLE_STATUSES)"

record NormalizedApiError =
  ne_status :: "int option"
  ne_code :: string
  ne_message :: string
  ne_retryable :: bool

definition normalizeApiError :: "api_error \<Rightarrow> NormalizedApiError" where
  "normalizeApiError e =
     (if is_axios e then
        (case err_status e of
           None \<Rightarrow>
             if isTimeoutError e then
               \<lparr>ne_status = None, ne_code = ''timeout'',
                ne_message = ''The request timed out. Check your connection and try again.'',
                ne_retryable = True\<rparr>
             else if isCanceledError e then
               \<lparr>ne_status = None, ne_code = ''canceled'',
                ne_message = ''The request was cancelled.'', ne_retryable = False\<rparr>
             else
               \<lparr>ne_status = None, ne_code = ''network'',
                ne_message = ''Could not reach the server. Check your connection and try again.'',
                ne_retryable = True\<rparr>
         | Some st \<Rightarrow>
             \<lparr>ne_status = Some st, ne_code = ''http_'' @ string_of_int st,
              ne_message = (case map_get STATUS_MESSAGES st of
                              Some m \<Rightarrow> m | None \<Rightarrow> ''The request could not be completed.''),
              ne_retryable = isRetryableError e\<rparr>)
      else if is_error e then
        \<lparr>ne_status = None, ne_code = ''unexpected'',
         ne_message = ''Something went wrong. Try again.'', ne_retryable = False\<rparr>
      else
        \<lparr>ne_status = None, ne_code = ''unknown'',
         ne_message = ''Something went wrong. Try again.'', ne_retryable = False\<rparr>)"

text \<open>
  The two classifications agree on transport errors: for an axios error that is not both a
  timeout and a cancellation, the error shown is marked retryable exactly when the retry policy
  retries it; and a client error (a 4xx status other than 408, 425 and 429) is never retried. On any other
  thrown value (the error \<open>validateResponse\<close> throws, say) they differ: it is shown as not
  retryable, and the policy retries it unless it is a cancellation.
\<close>

lemma retry_classification:
  assumes "is_axios e \<Longrightarrow> \<not> (isTimeoutError e \<and> isCanceledError e)"
    and "\<not> is_axios e \<Longrightarrow> err_status e = None"
  shows "(is_axios e \<longrightarrow> ne_retryable (normalizeApiError e) = isRetryableError e) \<and>
    (\<forall>st. err_status e = Some st \<and> 400 \<le> st \<and> st < 500 \<and> st \<notin> {408, 425, 429} \<longrightarrow>
       \<not> isRetryableError e) \<and>
    (\<not> is_axios e \<longrightarrow> \<not> ne_retryable (normalizeApiError e) \<and>
       isRetryableError e = (\<not> isCanceledError e))"
  using assms
  by (auto simp: normalizeApiError_def isRetryableError_def RETRYABLE_STATUSES_def
      split: option.splits)

definition invalid_response_error :: api_error where
  "invalid_response_error = \<lparr>is_axios = False, is_error = True, is_cancel = False, err_code = None,
     err_message = ''Invalid employees response format'', err_status = None, err_config = None\<rparr>"

lemma retry_classification_witness:
  "isRetryableError invalid_response_error \<and>
   \<not> ne_retryable (normalizeApiError invalid_response_error)"
  using retry_classification [of invalid_response_error]
  by (simp add: invalid_response_error_def isCanceledError_def)

subsection \<open>Backoff\<close>

definition retry_ceiling :: "nat \<Rightarrow> int" where
  "retry_ceiling attempt = min (RETRY_BASE_DELAY_MS * 2 ^ attempt) RETRY_MAX_DELAY_MS"

definition computeRetryDelay :: "rat \<Rightarrow> rat \<Rightarrow> int" where
  "computeRetryDelay attempt random =
     (let safeAttempt = nat (max 0 \<lfloor>attempt\<rfloor>);
          jitter = min (max random 0) 1
      in math_round (of_int (retry_ceiling safeAttempt) * jitter))"

definition RECONNECT_BASE_MS :: int where "RECONNECT_BASE_MS = 1000"
definition RECONNECT_MAX_MS :: int where "RECONNECT_MAX_MS = 30000"

definition getReconnectDelay :: "rat \<Rightarrow> int" where
  "getReconnectDelay attempt =
     (let safeAttempt = nat (max 0 (min \<lfloor>attempt\<rfloor> 5))
      in min (RECONNECT_BASE_MS * 2 ^ safeAttempt) RECONNECT_MAX_MS)"

text \<open>What a reconnecting client needs of its delays.\<close>

locale backoff =
  fixes delay :: "nat \<Rightarrow> int" and limit :: int
  assumes delay_pos: "0 < delay n"
    and delay_step: "delay n \<le> delay (Suc n)"
    and delay_limit: "delay n \<le> limit"
begin

lemma delay_mono: "m \<le> n \<Longrightarrow> delay m \<le> delay n"
  by (rule lift_Suc_mono_le [of delay, OF delay_step])

lemma total_delay_le: "(\<Sum>k<n. delay k) \<le> int n * limit"
  using delay_limit by (induction n) (auto simp: algebra_simps intro: add_mono)

lemma total_delay_pos: "0 < n \<Longrightarrow> 0 < (\<Sum>k<n. delay k)"
  using delay_pos by (simp add: sum_pos lessThan_empty_iff)

end

interpretation retry: backoff retry_ceiling RETRY_MAX_DELAY_MS
  by unfold_locales (auto simp: retry_ceiling_def retry_constants min_def)

lemma getReconnectDelay_nat:
  "getReconnectDelay (of_nat n) = min (1000 * 2 ^ min n 5) 30000"
  by (cases "n \<le> 5") (auto simp: getReconnectDelay_def RECONNECT_BASE_MS_def RECONNECT_MAX_MS_def
      Let_def min_def)

interpretation reconnect: backoff "\<lambda>n. getReconnectDelay (of_nat n)" 30000
proof (unfold_locales, unfold getReconnectDelay_nat)
  fix n
  show "min (1000 * 2 ^ min n 5) 30000 \<le> min (1000 * 2 ^ min (Suc n) 5) (30000 :: int)"
    by (intro min.mono mult_left_mono power_increasing) auto
qed simp_all

lemma computeRetryDelay_eq:
  "computeRetryDelay (of_nat n) x = math_round (of_int (min (300 * 2 ^ n) 4000) * min (max x 0) 1)"
  by (simp add: computeRetryDelay_def retry_ceiling_def retry_constants Let_def)

lemma computeRetryDelay_mono:
  assumes "x \<le> y"
  shows "computeRetryDelay (of_nat n) x \<le> computeRetryDelay (of_nat n) y"
proof -
  have "0 \<le> (of_int (min (300 * 2 ^ n) 4000) :: rat)"
    by (simp only: of_int_0_le_iff) simp
  with assms show ?thesis
    unfolding computeRetryDelay_eq
    by (intro math_round_mono mult_left_mono) (auto simp: min_def max_def)
qed

lemma computeRetryDelay_low: "x \<le> 0 \<Longrightarrow> computeRetryDelay (of_nat n) x = 0"
  using math_round_int [of 0] unfolding computeRetryDelay_eq by (simp add: max_def)

lemma computeRetryDelay_high:
  assumes "1 \<le> x"
  shows "computeRetryDelay (of_nat n) x = min (300 * 2 ^ n) 4000"
proof -
  have "min (max x 0) 1 = 1" using assms by (simp add: max_def min_def)
  then show ?thesis unfolding computeRetryDelay_eq by (simp only: mult_1_right math_round_int)
qed

lemma computeRetryDelay_range:
  "0 \<le> computeRetryDelay (of_nat n) r" "computeRetryDelay (of_nat n) r \<le> min (300 * 2 ^ n) 4000"
  "computeRetryDelay (of_nat n) r \<le> 4000"
proof -
  show "0 \<le> computeRetryDelay (of_nat n) r"
    using computeRetryDelay_mono [of "min r 0" r n] by (simp add: computeRetryDelay_low)
  show "computeRetryDelay (of_nat n) r \<le> min (300 * 2 ^ n) 4000"
    using computeRetryDelay_mono [of r "max r 1" n] by (simp add: computeRetryDelay_high)
  then show "computeRetryDelay (of_nat n) r \<le> 4000" by simp
qed

text \<open>
  The jittered retry delay is bounded for every jitter source, even one outside \<open>[0, 1)\<close>: it is
  never negative, never above the exponential ceiling of its attempt nor above four seconds, it
  reaches both ends, and a larger random draw never shortens it.
\<close>

lemma computeRetryDelay_bounds:
  "0 \<le> computeRetryDelay (of_nat n) r \<and>
   computeRetryDelay (of_nat n) r \<le> min (300 * 2 ^ n) 4000 \<and>
   computeRetryDelay (of_nat n) 0 = 0 \<and>
   computeRetryDelay (of_nat n) 1 = min (300 * 2 ^ n) 4000 \<and>
   computeRetryDelay (of_nat n) r \<le> computeRetryDelay (of_nat n) (r + of_nat d)"
  by (intro conjI computeRetryDelay_range computeRetryDelay_low computeRetryDelay_high
      computeRetryDelay_mono) simp_all

subsection \<open>The retry interceptor\<close>

text \<open>
  \<open>attachRetryInterceptor\<close>: what it does with one failed request, either \<open>Reject\<close> or wait and
  send the same configuration again with its count raised. axios hands the configuration, with
  its additional fields, through \<open>client.request\<close>; a failed request carries its configuration.
\<close>

datatype retry_decision = Reject | Resend request_config nat

definition retry_interceptor :: "api_error \<Rightarrow> retry_decision" where
  "retry_interceptor e =
     (case err_config e of
        None \<Rightarrow> Reject
      | Some cfg \<Rightarrow>
          if \<not> isIdempotentMethod (cfg_method cfg) then Reject
          else if \<not> isRetryableError e then Reject
          else
            (let attempt = (case retryCount cfg of Some n \<Rightarrow> n | None \<Rightarrow> 0)
             in if RETRY_MAX_ATTEMPTS \<le> attempt then Reject
                else Resend (cfg\<lparr>retryCount := Some (attempt + 1)\<rparr>) attempt))"

text \<open>
  A request against a server that answers the attempts one after the other: \<open>None\<close> while
  answers are missing, otherwise the number of requests sent, the delays waited and the
  outcome. \<open>random\<close> is the jitter draw of each wait.
\<close>

record 'a served =
  attempts :: nat
  waited :: "int list"
  outcome :: "api_error + 'a"

fun client_request ::
  "request_config \<Rightarrow> (api_error + 'a) list \<Rightarrow> rat list \<Rightarrow> 'a served option"
where
  "client_request cfg [] random = None"
| "client_request cfg (Inr res # rest) random =
     Some \<lparr>attempts = 1, waited = [], outcome = Inr res\<rparr>"
| "client_request cfg (Inl e # rest) random =
     (case retry_interceptor (e\<lparr>err_config := Some cfg\<rparr>) of
        Reject \<Rightarrow> Some \<lparr>attempts = 1, waited = [], outcome = Inl (e\<lparr>err_config := Some cfg\<rparr>)\<rparr>
      | Resend cfg' attempt \<Rightarrow>
          (case random of
             [] \<Rightarrow> None
           | r # rs \<Rightarrow>
               map_option
                 (\<lambda>x. x\<lparr>attempts := attempts x + 1,
                       waited := computeRetryDelay (of_nat attempt) r # waited x\<rparr>)
                 (client_request cfg' rest rs)))"

definition tries_left :: "request_config \<Rightarrow> nat" where
  "tries_left cfg = RETRY_MAX_ATTEMPTS - (case retryCount cfg of Some n \<Rightarrow> n | None \<Rightarrow> 0)"

lemma retry_interceptor_Resend:
  "retry_interceptor (e\<lparr>err_config := Some cfg\<rparr>) = Resend cfg' attempt \<longleftrightarrow>
     isIdempotentMethod (cfg_method cfg) \<and> isRetryableError e \<and> 0 < tries_left cfg \<and>
     attempt = (case retryCount cfg of Some n \<Rightarrow> n | None \<Rightarrow> 0) \<and>
     cfg' = cfg\<lparr>retryCount := Some (attempt + 1)\<rparr>"
  by (auto simp: retry_interceptor_def tries_left_def Let_def isRetryableError_def
      isCanceledError_def split: option.splits)

text \<open>The answers a request run used up, against its result.\<close>

definition served_by :: "request_config \<Rightarrow> (api_error + 'a) list \<Rightarrow> 'a served \<Rightarrow> bool" where
  "served_by cfg answers x \<longleftrightarrow>
     1 \<le> attempts x \<and> attempts x \<le> 1 + tries_left cfg \<and>
     (\<not> isIdempotentMethod (cfg_method cfg) \<longrightarrow> attempts x = 1) \<and>
     length (waited x) + 1 = attempts x \<and> (\<forall>d \<in> set (waited x). 0 \<le> d \<and> d \<le> 4000) \<and>
     (\<forall>k < attempts x - 1. \<exists>e. answers ! k = Inl e \<and> isRetryableError e) \<and>
     (case outcome x of
        Inr r \<Rightarrow> answers ! (attempts x - 1) = Inr r
      | Inl e \<Rightarrow> (\<exists>e'. answers ! (attempts x - 1) = Inl e' \<and> err_status e = err_status e') \<and>
          (attempts x = 1 + tries_left cfg \<or> \<not> isIdempotentMethod (cfg_method cfg) \<or>
           \<not> isRetryableError e))"

lemma served_by_resend:
  assumes "served_by cfg' rest x" and "isIdempotentMethod (cfg_method cfg)"
    and "isRetryableError e" and "tries_left cfg = Suc (tries_left cfg')"
    and "cfg_method cfg' = cfg_method cfg" and "0 \<le> d" "d \<le> 4000"
  shows "served_by cfg (Inl e # rest) (x\<lparr>attempts := attempts x + 1, waited := d # waited x\<rparr>)"
proof -
  have "(Inl e # rest) ! attempts x = rest ! (attempts x - 1)"
    using assms(1) by (simp add: served_by_def nth_Cons')
  moreover have "\<exists>e'. (Inl e # rest) ! k = Inl e' \<and> isRetryableError e'"
    if "k < attempts x" for k
    using that assms(1,3) by (cases k) (auto simp: served_by_def)
  ultimately show ?thesis
    using assms by (auto simp: served_by_def split: sum.splits)
qed

lemma client_request_served:
  assumes "tries_left cfg < length answers" and "tries_left cfg \<le> length random"
  shows "\<exists>x. client_request cfg answers random = Some x \<and> served_by cfg answers x"
  using assms
proof (induction cfg answers random rule: client_request.induct)
  case (3 cfg e rest random)
  show ?case
  proof (cases "retry_interceptor (e\<lparr>err_config := Some cfg\<rparr>)")
    case Reject
    then have "\<not> (isIdempotentMethod (cfg_method cfg) \<and> isRetryableError e \<and> 0 < tries_left cfg)"
      by (metis retry_decision.distinct(1) retry_interceptor_Resend)
    with Reject show ?thesis
      by (auto simp: served_by_def isRetryableError_def isCanceledError_def)
  next
    case (Resend cfg' attempt)
    then have R: "isIdempotentMethod (cfg_method cfg)" "isRetryableError e" "0 < tries_left cfg"
        "cfg' = cfg\<lparr>retryCount := Some (attempt + 1)\<rparr>"
        "attempt = (case retryCount cfg of Some n \<Rightarrow> n | None \<Rightarrow> 0)"
      by (simp_all only: retry_interceptor_Resend)
    then have left: "tries_left cfg = Suc (tries_left cfg')"
      by (simp add: tries_left_def)
    with 3 R(3) obtain r rs where random: "random = r # rs" by (cases random) auto
    obtain x where x: "client_request cfg' rest rs = Some x" "served_by cfg' rest x"
      using 3 (1) [OF Resend random] 3 (2,3) left random by auto
    have "served_by cfg (Inl e # rest)
        (x\<lparr>attempts := attempts x + 1, waited := computeRetryDelay (of_nat attempt) r # waited x\<rparr>)"
      using computeRetryDelay_range [of attempt r]
      by (intro served_by_resend [OF x(2) R(1,2) left]) (simp_all add: R(4))
    with x(1) Resend random show ?thesis by simp
  qed
qed (auto simp: served_by_def)

text \<open>
  Retrying always comes to an end: against any three answers a request is sent between
  one and three times, and exactly once when its method is not GET, HEAD or OPTIONS, so no write
  is ever submitted twice; every answer before the last is a retryable failure, each wait lies
  between 0 and 4 seconds, and the caller gets the last answer: a success, or a failure that is
  not retryable, or whose method is not idempotent, or the third in a row.
\<close>

lemma retries_bounded:
  assumes "retryCount cfg = None" and "3 \<le> length answers" and "2 \<le> length random"
  shows "\<exists>x. client_request cfg answers random = Some x \<and>
    1 \<le> attempts x \<and> attempts x \<le> 3 \<and>
    (\<not> isIdempotentMethod (cfg_method cfg) \<longrightarrow> attempts x = 1) \<and>
    length (waited x) + 1 = attempts x \<and> (\<forall>d \<in> set (waited x). 0 \<le> d \<and> d \<le> 4000) \<and>
    (\<forall>k < attempts x - 1. \<exists>e. answers ! k = Inl e \<and> isRetryableError e) \<and>
    (case outcome x of
       Inr r \<Rightarrow> answers ! (attempts x - 1) = Inr r
     | Inl e \<Rightarrow> (\<exists>e'. answers ! (attempts x - 1) = Inl e' \<and> err_status e = err_status e') \<and>
         (attempts x = 3 \<or> \<not> isIdempotentMethod (cfg_method cfg) \<or> \<not> isRetryableError e))"
proof -
  have two: "tries_left cfg = 2"
    using assms(1) by (simp add: tries_left_def RETRY_MAX_ATTEMPTS_def)
  then have three: "1 + tries_left cfg = 3" by simp
  obtain x where "client_request cfg answers random = Some x" "served_by cfg answers x"
    using client_request_served [of cfg answers random] assms(2,3) two by auto
  then show ?thesis
    unfolding served_by_def three by (intro exI [of _ x] conjI) blast+
qed

definition gateway_down :: api_error where
  "gateway_down = \<lparr>is_axios = True, is_error = True, is_cancel = False, err_code = None,
     err_message = [], err_status = Some 503, err_config = None\<rparr>"

lemma retries_bounded_witness:
  "\<exists>x. client_request \<lparr>cfg_method = Some ''POST'', cfg_url = ''/payroll/runs'', retryCount = None\<rparr>
     [Inl gateway_down, Inr (), Inr ()] [0, 0] = Some x \<and> attempts x = 1"
proof -
  have "\<not> isIdempotentMethod (Some ''POST'')" by code_simp
  with retries_bounded [of "\<lparr>cfg_method = Some ''POST'', cfg_url = ''/payroll/runs'',
      retryCount = None\<rparr>" "[Inl gateway_down, Inr (), Inr ()]" "[0, 0]"]
  show ?thesis by fastforce
qed

subsection \<open>query-retry.ts\<close>

definition QUERY_RETRY_MAX_ATTEMPTS :: nat where "QUERY_RETRY_MAX_ATTEMPTS = 2"

definition shouldRetryQuery :: "nat \<Rightarrow> api_error \<Rightarrow> bool" where
  "shouldRetryQuery failureCount e =
     (if QUERY_RETRY_MAX_ATTEMPTS \<le> failureCount then False else isRetryableError e)"

definition queryRetryDelay :: "nat \<Rightarrow> rat \<Rightarrow> int" where
  "queryRetryDelay attemptIndex random = computeRetryDelay (of_nat attemptIndex) random"

subsection \<open>Redaction\<close>

text \<open>
  The three regular expressions of \<open>redactSensitiveString\<close> as matchers: at a position they give
  the replacement and the length of the match. None of them needs to backtrack, because what
  may follow each repetition is outside the repeated class.
\<close>

definition is_alnum :: "char \<Rightarrow> bool" where
  "is_alnum c \<longleftrightarrow>
     (let n = (of_char c :: nat)
      in (48 \<le> n \<and> n \<le> 57) \<or> (65 \<le> n \<and> n \<le> 90) \<or> (97 \<le> n \<and> n \<le> 122))"

definition jwt_char :: "char \<Rightarrow> bool" where
  "jwt_char c \<longleftrightarrow> is_alnum c \<or> c = CHR ''_'' \<or> c = CHR ''-''"

text \<open>A run of at least \<open>n\<close> characters of a class: its length and what follows.\<close>

definition run_of :: "(char \<Rightarrow> bool) \<Rightarrow> nat \<Rightarrow> string \<Rightarrow> (nat \<times> string) option" where
  "run_of P n s =
     (let k = length (takeWhile P s) in if n \<le> k then Some (k, drop k s) else None)"

definition expect_char :: "char \<Rightarrow> string \<Rightarrow> string option" where
  "expect_char c s = (case s of d # r \<Rightarrow> if d = c then Some r else None | [] \<Rightarrow> None)"

definition jwt_match :: "string \<Rightarrow> (string \<times> nat) option" where
  "jwt_match s =
     Option.bind (run_of jwt_char 2 s) (\<lambda>(a, s1).
     Option.bind (expect_char (CHR ''.'') s1) (\<lambda>s2.
     Option.bind (run_of jwt_char 10 s2) (\<lambda>(b, s3).
     Option.bind (expect_char (CHR ''.'') s3) (\<lambda>s4.
     Option.bind (run_of jwt_char 10 s4) (\<lambda>(c, s5).
       Some (''[redacted-jwt]'', a + 1 + b + 1 + c))))))"

definition bearer_char :: "char \<Rightarrow> bool" where
  "bearer_char c \<longleftrightarrow> is_alnum c \<or> c \<in> set ''._~+/=-''"

text \<open>The flag \<open>i\<close>: a keyword at the start, case aside.\<close>

definition keyword_at :: "string \<Rightarrow> string \<Rightarrow> bool" where
  "keyword_at kw s \<longleftrightarrow> starts_with (to_lower s) kw"

definition bearer_match :: "string \<Rightarrow> (string \<times> nat) option" where
  "bearer_match s =
     (if keyword_at ''bearer'' s then
        Option.bind (run_of is_ws 1 (drop 6 s)) (\<lambda>(w, s1).
        Option.bind (run_of bearer_char 8 s1) (\<lambda>(v, s2).
          Some (take (6 + w) s @ ''[redacted]'', 6 + w + v)))
      else None)"

definition secret_keywords :: "string list" where
  "secret_keywords =
     [''token'', ''secret'', ''password'', ''passwd'', ''apikey'', ''api_key'', ''api-key'',
      ''authorization'', ''refreshtoken'', ''refresh_token'', ''refresh-token'',
      ''accesstoken'', ''access_token'', ''access-token'']"

definition is_quote :: "char \<Rightarrow> bool" where
  "is_quote c \<longleftrightarrow> c = CHR 0x22 \<or> c = CHR 0x27"

definition secret_char :: "char \<Rightarrow> bool" where
  "secret_char c \<longleftrightarrow>
     \<not> (is_quote c \<or> c = CHR '','' \<or> is_ws c \<or> c = CHR ''&'' \<or> c = CHR ''}'')"

definition opt_quote :: "string \<Rightarrow> nat" where
  "opt_quote s = (case s of c # _ \<Rightarrow> if is_quote c then 1 else 0 | [] \<Rightarrow> 0)"

text \<open>The length of the group that is kept: keyword, quote, blanks, separator, blanks, quote.\<close>

definition secret_prefix :: "string \<Rightarrow> nat option" where
  "secret_prefix s =
     Option.bind (find (\<lambda>kw. keyword_at kw s) secret_keywords) (\<lambda>kw.
       let s1 = drop (length kw) s; q1 = opt_quote s1; s2 = drop q1 s1;
           w1 = length (takeWhile is_ws s2); s3 = drop w1 s2
       in case s3 of
            [] \<Rightarrow> None
          | c # s4 \<Rightarrow>
              if c = CHR '':'' \<or> c = CHR ''='' then
                (let w2 = length (takeWhile is_ws s4); q2 = opt_quote (drop w2 s4)
                 in Some (length kw + q1 + w1 + 1 + w2 + q2))
              else None)"

definition secret_match :: "string \<Rightarrow> (string \<times> nat) option" where
  "secret_match s =
     Option.bind (secret_prefix s) (\<lambda>k.
     Option.bind (run_of secret_char 4 (drop k s)) (\<lambda>(v, _).
       Some (take k s @ ''[redacted]'', k + v)))"

text \<open>\<open>replace\<close> with the flag \<open>g\<close>.\<close>

fun replace_all :: "(string \<Rightarrow> (string \<times> nat) option) \<Rightarrow> string \<Rightarrow> string" where
  "replace_all m [] = []"
| "replace_all m (c # cs) =
     (case m (c # cs) of
        None \<Rightarrow> c # replace_all m cs
      | Some (r, k) \<Rightarrow> r @ replace_all m (drop (k - 1) cs))"

definition redactSensitiveString :: "string \<Rightarrow> string" where
  "redactSensitiveString s = replace_all secret_match (replace_all bearer_match (replace_all jwt_match s))"

text \<open>What redaction is for: no position of the string holds a match.\<close>

definition free_of :: "(string \<Rightarrow> (string \<times> nat) option) \<Rightarrow> string \<Rightarrow> bool" where
  "free_of m s \<longleftrightarrow> list_all (\<lambda>i. m (drop i s) = None) [0 ..< Suc (length s)]"

lemma free_of_iff: "free_of m s \<longleftrightarrow> (\<forall>i \<le> length s. m (drop i s) = None)"
  by (auto simp: free_of_def list_all_iff simp del: upt_Suc)

lemma free_of_Cons: "free_of m (c # s) \<longleftrightarrow> m (c # s) = None \<and> free_of m s"
proof -
  have "free_of m (c # s) \<longleftrightarrow> (\<forall>i. i \<le> Suc (length s) \<longrightarrow> m (drop i (c # s)) = None)"
    by (simp add: free_of_iff)
  also have "\<dots> \<longleftrightarrow> m (c # s) = None \<and> (\<forall>i. i \<le> length s \<longrightarrow> m (drop i s) = None)"
  proof safe
    fix i assume "m (c # s) = None" "\<forall>i\<le>length s. m (drop i s) = None" "i \<le> Suc (length s)"
    then show "m (drop i (c # s)) = None" by (cases i) auto
  next
    assume *: "\<forall>i\<le>Suc (length s). m (drop i (c # s)) = None"
    then show "m (c # s) = None" by (metis drop0 le0)
    fix i assume "i \<le> length s"
    with * show "m (drop i s) = None" by (metis Suc_le_mono drop_Suc_Cons)
  qed
  finally show ?thesis by (simp add: free_of_iff)
qed

lemma free_of_append: "free_of m (u @ v) \<Longrightarrow> free_of m v"
  by (induction u) (auto simp: free_of_Cons)

text \<open>
  A pattern that cannot span a bracket: when it matches before one, it matches whatever follows
  instead. Replacements are a kept prefix of the match and a bracketed note.
\<close>

definition note_of ::
  "(string \<Rightarrow> (string \<times> nat) option) \<Rightarrow> (string \<Rightarrow> (string \<times> nat) option) \<Rightarrow> bool" where
  "note_of m m' \<longleftrightarrow> (\<forall>s r k. m' s = Some (r, k) \<longrightarrow>
     (\<exists>j body. j \<le> length s \<and> r = take j s @ CHR ''['' # body @ [CHR '']''] \<and> free_of m body \<and>
        (m' = m \<longrightarrow> (\<forall>i < j. \<exists>w. m (drop i (take j s) @ w) = None))))"

locale bracketed_redaction =
  fixes m :: "string \<Rightarrow> (string \<times> nat) option"
  assumes bracket: "x \<in> {CHR ''['', CHR '']''} \<Longrightarrow> m (u @ x # v) \<noteq> None \<Longrightarrow> m (u @ w) \<noteq> None"
    and nonempty: "m [] = None"
begin

lemma bracket_None: "x \<in> {CHR ''['', CHR '']''} \<Longrightarrow> m (u @ w) = None \<Longrightarrow> m (u @ x # v) = None"
  using bracket [of x u v w] by blast

lemma free_around_note:
  assumes "free_of m body" and "free_of m t"
    and "\<And>i. i < length kept \<Longrightarrow> \<exists>w. m (drop i kept @ w) = None"
  shows "free_of m (kept @ CHR ''['' # body @ CHR '']'' # t)"
  using assms(3)
proof (induction kept)
  case Nil
  have "m (CHR ''['' # r) = None" for r
    using bracket_None [of "CHR ''[''" "[]" "[]" r] nonempty by simp
  moreover have "m (CHR '']'' # r) = None" for r
    using bracket_None [of "CHR '']''" "[]" "[]" r] nonempty by simp
  moreover have "free_of m (body @ CHR '']'' # t)"
    using assms(1)
  proof (induction body)
    case (Cons c cs)
    then show ?case
      using bracket_None [of "CHR '']''" "c # cs" "[]" t] by (simp add: free_of_Cons)
  qed (use assms(2) calculation in \<open>auto simp: free_of_Cons\<close>)
  ultimately show ?case by (simp add: free_of_Cons)
next
  case (Cons c cs)
  from Cons.prems [of 0] obtain w where "m (c # cs @ w) = None" by auto
  then have "m ((c # cs) @ CHR ''['' # body @ CHR '']'' # t) = None"
    using bracket_None [of "CHR ''[''" "c # cs" w] by simp
  moreover have "\<exists>w. m (drop i cs @ w) = None" if "i < length cs" for i
    using Cons.prems [of "Suc i"] that by auto
  ultimately show ?case using Cons.IH by (simp add: free_of_Cons)
qed

lemma replace_all_diverges:
  assumes "note_of m m'"
  shows "replace_all m' s = s \<or> (\<exists>p q v. s = p @ q \<and> replace_all m' s = p @ CHR ''['' # v)"
proof (induction s)
  case (Cons c cs)
  show ?case
  proof (cases "m' (c # cs)")
    case None
    from Cons show ?thesis
    proof (elim disjE exE conjE)
      fix p q v assume "cs = p @ q" "replace_all m' cs = p @ CHR ''['' # v"
      with None have "c # cs = (c # p) @ q" "replace_all m' (c # cs) = (c # p) @ CHR ''['' # v"
        by simp_all
      then show ?thesis by blast
    qed (simp add: None)
  next
    case (Some rk)
    then obtain r k where m': "m' (c # cs) = Some (r, k)" by (cases rk) auto
    with assms obtain j body where "r = take j (c # cs) @ CHR ''['' # body @ [CHR '']'']"
      unfolding note_of_def by blast
    with m' have "replace_all m' (c # cs) =
        take j (c # cs) @ CHR ''['' # (body @ [CHR '']''] @ replace_all m' (drop (k - 1) cs))"
      by simp
    then show ?thesis by (metis append_take_drop_id)
  qed
qed simp

text \<open>Replacing never makes a match of \<open>m\<close>, and replacing the matches of \<open>m\<close> removes them all.\<close>

lemma replace_all_free:
  assumes "note_of m m'" and "m' = m \<or> free_of m s"
  shows "free_of m (replace_all m' s)"
  using assms(2)
proof (induction s rule: length_induct)
  case (1 s)
  show ?case
  proof (cases s)
    case Nil
    then show ?thesis by (simp add: free_of_def nonempty)
  next
    case (Cons c cs)
    have sub: "m' = m \<or> free_of m (drop i cs)" for i
      using 1(2) Cons by (metis append_take_drop_id free_of_append free_of_Cons)
    show ?thesis
    proof (cases "m' (c # cs)")
      case None
      then have head: "m (c # cs) = None"
        using 1(2) Cons by (auto simp: free_of_Cons)
      have "m (c # replace_all m' cs) = None"
        using replace_all_diverges [OF assms(1), of cs]
      proof (elim disjE exE conjE)
        fix p q v assume "cs = p @ q" "replace_all m' cs = p @ CHR ''['' # v"
        with head bracket_None [of "CHR ''[''" "c # p" q v] show ?thesis by simp
      qed (simp add: head)
      moreover have "free_of m (replace_all m' cs)"
        using 1(1) sub [of 0] Cons by auto
      ultimately show ?thesis using None Cons by (simp add: free_of_Cons)
    next
      case (Some rk)
      then obtain r k where m': "m' (c # cs) = Some (r, k)" by (cases rk) auto
      with assms(1) obtain j body where r: "r = take j (c # cs) @ CHR ''['' # body @ [CHR '']'']"
        and note_free: "free_of m body"
        and j: "j \<le> length (c # cs)"
        and own: "m' = m \<Longrightarrow> \<forall>i < j. \<exists>w. m (drop i (take j (c # cs)) @ w) = None"
        unfolding note_of_def by blast
      have kept: "\<exists>w. m (drop i (take j (c # cs)) @ w) = None" if "i < j" for i
      proof (cases "m' = m")
        case False
        with 1(2) Cons that j have "m (drop i (c # cs)) = None" by (auto simp: free_of_iff)
        moreover have "drop i (c # cs) = drop i (take j (c # cs)) @ drop j (c # cs)"
          using that j by (metis append_take_drop_id drop_append length_take min.absorb2
              diff_is_0_eq less_imp_le drop0)
        ultimately show ?thesis by metis
      qed (use own that in blast)
      have rest: "free_of m (replace_all m' (drop (k - 1) cs))"
        using 1(1) sub [of "k - 1"] Cons by auto
      have "free_of m (take j (c # cs) @ CHR ''['' # body @ CHR '']'' #
          replace_all m' (drop (k - 1) cs))"
        by (rule free_around_note [OF note_free rest]) (use kept in auto)
      then show ?thesis using m' r Cons by simp
    qed
  qed
qed

end

lemma run_of_last:
  assumes "run_of P n (u @ x # v) = Some p" and "\<not> P x"
  shows "\<exists>p. run_of P n (u @ w) = Some p"
proof -
  have "length (takeWhile P (u @ x # v)) \<le> length (takeWhile P (u @ w))"
    using assms(2) by (cases "\<forall>c \<in> set u. P c") (auto simp: takeWhile_append)
  with assms(1) show ?thesis by (auto simp: run_of_def Let_def split: if_splits)
qed

text \<open>A run followed by something outside its class ends at the same place.\<close>

lemma run_of_inside:
  assumes "run_of P n (u @ x # v) = Some (k, s)" and "\<not> P x" and "k < length u"
  shows "run_of P n (u @ w) = Some (k, drop k u @ w)" "s = drop k u @ x # v" "\<not> P (u ! k)"
proof -
  have k: "k = length (takeWhile P (u @ x # v))" and n: "n \<le> k" and s: "s = drop k (u @ x # v)"
    using assms(1) by (auto simp: run_of_def Let_def split: if_splits)
  have ex: "\<exists>c \<in> set u. \<not> P c"
  proof (rule ccontr)
    assume "\<not> (\<exists>c \<in> set u. \<not> P c)"
    with k assms(2,3) show False by (simp add: takeWhile_append)
  qed
  then have same: "takeWhile P (u @ z) = takeWhile P u" for z
    by (auto simp: takeWhile_append)
  with k have "k = length (takeWhile P u)" by simp
  then show "run_of P n (u @ w) = Some (k, drop k u @ w)" "\<not> P (u ! k)"
    using n same [of w] assms(3) nth_length_takeWhile [of P u] by (auto simp: run_of_def Let_def)
  show "s = drop k u @ x # v" using s assms(3) by simp
qed

lemma run_of_length: "run_of P n s = Some (k, s') \<Longrightarrow> k \<le> length s \<and> s' = drop k s \<and> n \<le> k"
  by (auto simp: run_of_def Let_def length_takeWhile_le split: if_splits)

lemma run_of_reaches:
  assumes "run_of P n (u @ x # v) = Some (k, s)" and "\<not> P x"
  shows "k < length u \<or> s = x # v"
proof (cases "\<forall>c \<in> set u. P c")
  case True
  with assms show ?thesis by (auto simp: run_of_def Let_def takeWhile_append split: if_splits)
next
  case False
  then have "takeWhile P u \<noteq> u" by (auto simp: takeWhile_eq_all_conv)
  then have "length (takeWhile P u) < length u"
    by (metis length_takeWhile_le le_neq_implies_less order_refl takeWhile_eq_take take_all)
  then have "length (takeWhile P (u @ x # v)) < length u"
    using False by (auto simp: takeWhile_append)
  with assms show ?thesis by (auto simp: run_of_def Let_def split: if_splits)
qed

text \<open>A run of at least one character of a class, then a character outside it.\<close>

lemma run_then_char:
  assumes "run_of P n (u @ x # v) = Some (k, s1)" and "expect_char c s1 = Some s2"
    and "\<not> P x" and "x \<noteq> c"
  obtains u' where "s2 = u' @ x # v"
    and "\<And>w. \<exists>k' r. run_of P n (u @ w) = Some (k', r) \<and> expect_char c r = Some (u' @ w)"
proof -
  have "k < length u"
    using run_of_reaches [OF assms(1,3)] assms(2,4) by (auto simp: expect_char_def)
  note in_u = run_of_inside [OF assms(1,3) this]
  from \<open>k < length u\<close> obtain d u' where d: "drop k u = d # u'"
    by (cases "drop k u") auto
  with assms(2) in_u(2) have "d = c" "s2 = u' @ x # v"
    by (auto simp: expect_char_def split: if_splits)
  moreover have "\<exists>k' r. run_of P n (u @ w) = Some (k', r) \<and> expect_char c r = Some (u' @ w)" for w
    using in_u(1) [of w] d \<open>d = c\<close> by (simp add: expect_char_def)
  ultimately show thesis using that by blast
qed

lemma jwt_char_bracket [simp]: "\<not> jwt_char (CHR ''['')" "\<not> jwt_char (CHR '']'')"
  by (simp_all add: jwt_char_def is_alnum_def Let_def)

lemma jwt_match_Some:
  "jwt_match s \<noteq> None \<longleftrightarrow>
     (\<exists>a s1 s2 b s3 s4 p. run_of jwt_char 2 s = Some (a, s1) \<and>
        expect_char (CHR ''.'') s1 = Some s2 \<and> run_of jwt_char 10 s2 = Some (b, s3) \<and>
        expect_char (CHR ''.'') s3 = Some s4 \<and> run_of jwt_char 10 s4 = Some p)"
  by (auto simp: jwt_match_def bind_eq_Some_conv)

interpretation jwt: bracketed_redaction jwt_match
proof
  fix x u v w
  assume x: "x \<in> {CHR ''['', CHR '']''}" and m: "jwt_match (u @ x # v) \<noteq> None"
  then have nx: "\<not> jwt_char x" "x \<noteq> CHR ''.''" by auto
  from m obtain a s1 s2 b s3 s4 p where *:
    "run_of jwt_char 2 (u @ x # v) = Some (a, s1)" "expect_char (CHR ''.'') s1 = Some s2"
    "run_of jwt_char 10 s2 = Some (b, s3)" "expect_char (CHR ''.'') s3 = Some s4"
    "run_of jwt_char 10 s4 = Some p"
    unfolding jwt_match_Some by blast
  obtain u1 where u1: "s2 = u1 @ x # v"
    "\<exists>k r. run_of jwt_char 2 (u @ w) = Some (k, r) \<and> expect_char (CHR ''.'') r = Some (u1 @ w)"
    by (rule run_then_char [OF *(1,2) nx]) blast
  obtain u2 where u2: "s4 = u2 @ x # v"
    "\<exists>k r. run_of jwt_char 10 (u1 @ w) = Some (k, r) \<and> expect_char (CHR ''.'') r = Some (u2 @ w)"
    by (rule run_then_char [OF *(3) [unfolded u1(1)] *(4) nx]) blast
  have "\<exists>p. run_of jwt_char 10 (u2 @ w) = Some p"
    by (rule run_of_last [OF *(5) [unfolded u2(1)] nx(1)])
  with u1(2) u2(2) show "jwt_match (u @ w) \<noteq> None"
    unfolding jwt_match_Some by blast
next
  show "jwt_match [] = None" by (simp add: jwt_match_def run_of_def)
qed

lemma run_of_run:
  assumes "run_of P n (u @ x # v) = Some (k, s)" and "run_of Q (Suc l) s = Some p"
    and "\<not> P x" and "\<not> Q x"
  shows "\<exists>k' r p. run_of P n (u @ w) = Some (k', r) \<and> run_of Q (Suc l) r = Some p"
proof -
  have "s \<noteq> x # v"
    using assms(2,4) by (auto simp: run_of_def Let_def)
  with run_of_reaches [OF assms(1,3)] have "k < length u" by blast
  note in_u = run_of_inside [OF assms(1,3) this]
  from assms(2) in_u(2) have "run_of Q (Suc l) (drop k u @ x # v) = Some p" by simp
  from run_of_last [OF this assms(4)] have "\<exists>p. run_of Q (Suc l) (drop k u @ w) = Some p" .
  with in_u(1) [of w] show ?thesis by blast
qed

lemma keyword_at_inside:
  assumes "keyword_at kw (u @ x # v)" and "lower_char x \<notin> set kw"
  shows "length kw \<le> length u"
proof (rule ccontr)
  assume short: "\<not> length kw \<le> length u"
  from assms(1) have "take (length kw) (to_lower (u @ x # v)) = kw"
    by (simp add: keyword_at_def starts_with_def)
  then have "take (length kw) (to_lower (u @ x # v)) ! length u = kw ! length u" by simp
  with short have "lower_char x = kw ! length u"
    by (simp add: to_lower_def nth_append)
  with short assms(2) show False by auto
qed

lemma keyword_at_prefix:
  assumes "length kw \<le> length u"
  shows "keyword_at kw (u @ w) \<longleftrightarrow> keyword_at kw u"
  using assms by (simp add: keyword_at_def starts_with_def)

lemma bearer_match_Some:
  "bearer_match s \<noteq> None \<longleftrightarrow> keyword_at ''bearer'' s \<and>
     (\<exists>w s1 p. run_of is_ws 1 (drop 6 s) = Some (w, s1) \<and> run_of bearer_char (Suc 7) s1 = Some p)"
  by (auto simp: bearer_match_def bind_eq_Some_conv split: prod.splits)

lemma bearer_brackets [simp]:
  "\<not> bearer_char (CHR ''['')" "\<not> bearer_char (CHR '']'')" "\<not> is_ws (CHR ''['')" "\<not> is_ws (CHR '']'')"
  by (simp_all add: bearer_char_def is_alnum_def is_ws_def Let_def)

interpretation bearer: bracketed_redaction bearer_match
proof
  fix x u v w
  assume x: "x \<in> {CHR ''['', CHR '']''}" and m: "bearer_match (u @ x # v) \<noteq> None"
  then have nx: "\<not> bearer_char x" "\<not> is_ws x" "lower_char x \<notin> set ''bearer''"
    by (auto simp: lower_char_def Let_def)
  from m have kw: "keyword_at ''bearer'' (u @ x # v)"
    by (simp only: bearer_match_Some)
  have len: "length ''bearer'' \<le> length u" by (rule keyword_at_inside [OF kw nx(3)])
  from m len obtain k s1 p where "run_of is_ws 1 (drop 6 u @ x # v) = Some (k, s1)"
      "run_of bearer_char (Suc 7) s1 = Some p"
    unfolding bearer_match_Some by auto
  from run_of_run [OF this nx(2,1), of w] kw len show "bearer_match (u @ w) \<noteq> None"
    unfolding bearer_match_Some by (auto simp: keyword_at_prefix)
next
  show "bearer_match [] = None" by (simp add: bearer_match_def keyword_at_def starts_with_def to_lower_def)
qed

lemma run_of_all: "run_of P n s = Some (k, s') \<Longrightarrow> i < k \<Longrightarrow> P (s ! i)"
  by (auto simp: run_of_def Let_def split: if_splits) (metis nth_mem set_takeWhileD takeWhile_nth)

lemma run_of_Suc_hd: "run_of P (Suc n) s = Some p \<Longrightarrow> s \<noteq> [] \<and> P (hd s)"
  by (cases s) (auto simp: run_of_def Let_def split: if_splits)

lemma bearer_not_ws: "bearer_char c \<Longrightarrow> \<not> is_ws c"
  by (auto simp: bearer_char_def is_ws_def is_alnum_def Let_def)

lemma jwt_note: "note_of jwt_match jwt_match"
proof -
  have "free_of jwt_match ''redacted-jwt''" by code_simp
  then show ?thesis
    unfolding note_of_def jwt_match_def
    by (force simp: bind_eq_Some_conv intro: exI [of _ 0])
qed

lemma redacted_free: "free_of jwt_match ''redacted''" "free_of bearer_match ''redacted''"
  by code_simp+

lemma bearer_kept_free:
  assumes "run_of is_ws 1 (drop 6 s) = Some (w, s1)" and "i < 6 + w"
  shows "bearer_match (drop i (take (6 + w) s)) = None"
proof (rule ccontr)
  let ?t = "drop i (take (6 + w) s)"
  assume "bearer_match ?t \<noteq> None"
  then obtain k s2 p where k: "run_of is_ws 1 (drop 6 ?t) = Some (k, s2)"
      "run_of bearer_char (Suc 7) s2 = Some p"
    unfolding bearer_match_Some by blast
  then have s2: "s2 = drop k (drop 6 ?t)" "s2 \<noteq> []" "bearer_char (hd s2)"
    using run_of_length [OF k(1)] run_of_Suc_hd [OF k(2)] by auto
  have len: "w \<le> length s - 6" using run_of_length [OF assms(1)] by simp
  from s2 have pos: "i + k < w" by (auto simp: not_le)
  with s2 len have "hd s2 = drop 6 s ! (i + k)"
    by (simp add: hd_drop_conv_nth ac_simps)
  with run_of_all [OF assms(1) pos] s2(3) bearer_not_ws show False by simp
qed

lemma bearer_note: "note_of m bearer_match" if "free_of m ''redacted''" "m = jwt_match \<or> m = bearer_match"
  unfolding note_of_def
proof (intro allI impI)
  fix s r k assume "bearer_match s = Some (r, k)"
  then obtain w s1 where w: "run_of is_ws 1 (drop 6 s) = Some (w, s1)" "keyword_at ''bearer'' s"
      "r = take (6 + w) s @ ''[redacted]''"
    by (auto simp: bearer_match_def bind_eq_Some_conv split: if_splits)
  from run_of_length [OF w(1)] have "w \<le> length s - 6" "1 \<le> w" by simp_all
  then have "6 + w \<le> length s" by linarith
  moreover have "\<forall>i < 6 + w. \<exists>z. bearer_match (drop i (take (6 + w) s) @ z) = None"
    using bearer_kept_free [OF w(1)] by (metis append_Nil2)
  ultimately show "\<exists>j body. j \<le> length s \<and> r = take j s @ CHR ''['' # body @ [CHR '']''] \<and>
      free_of m body \<and> (bearer_match = m \<longrightarrow> (\<forall>i<j. \<exists>z. m (drop i (take j s) @ z) = None))"
    using that w(3) by (intro exI [of _ "6 + w"] exI [of _ "''redacted''"]) auto
qed

lemma secret_match_form:
  assumes "secret_match s = Some (r, k)"
  obtains j where "r = take j s @ ''[redacted]''"
  using assms by (auto simp: secret_match_def bind_eq_Some_conv)

lemma secret_note: "note_of m secret_match" if "free_of m ''redacted''" "m \<noteq> secret_match"
  unfolding note_of_def
proof (intro allI impI)
  fix s r k assume "secret_match s = Some (r, k)"
  then obtain j where "r = take j s @ ''[redacted]''" by (rule secret_match_form)
  then have "r = take (min j (length s)) s @ ''[redacted]''" by (simp add: min_def)
  then show "\<exists>j body. j \<le> length s \<and> r = take j s @ CHR ''['' # body @ [CHR '']''] \<and>
      free_of m body \<and> (secret_match = m \<longrightarrow> (\<forall>i<j. \<exists>z. m (drop i (take j s) @ z) = None))"
    using that by (intro exI [of _ "min j (length s)"] exI [of _ "''redacted''"]) auto
qed

lemma not_secret_match: "jwt_match \<noteq> secret_match" "bearer_match \<noteq> secret_match"
proof -
  have "jwt_match ''token=abcd'' \<noteq> secret_match ''token=abcd''"
    "bearer_match ''token=abcd'' \<noteq> secret_match ''token=abcd''"
    by code_simp+
  then show "jwt_match \<noteq> secret_match" "bearer_match \<noteq> secret_match" by auto
qed

text \<open>
  Redaction never under-redacts tokens: whatever string goes in, no position of
  what comes out is the start of a token of three dot-separated base64url parts or of a bearer
  credential of eight characters or more; the later replacements never rebuild one.
\<close>

lemma redact_leaves_no_token:
  "free_of jwt_match (redactSensitiveString s) \<and> free_of bearer_match (redactSensitiveString s)"
proof -
  have "free_of jwt_match (replace_all jwt_match s)"
    by (rule jwt.replace_all_free [OF jwt_note]) simp
  then have "free_of jwt_match (replace_all bearer_match (replace_all jwt_match s))"
    by (intro jwt.replace_all_free bearer_note redacted_free) auto
  moreover have "free_of bearer_match (replace_all bearer_match (replace_all jwt_match s))"
    by (intro bearer.replace_all_free bearer_note redacted_free) auto
  ultimately show ?thesis
    unfolding redactSensitiveString_def
    by (auto intro!: jwt.replace_all_free bearer.replace_all_free secret_note redacted_free
        not_secret_match)
qed

subsection \<open>error-reporting.ts\<close>

datatype thrown = ThrownError string | ThrownString string | ThrownOther

record ClientErrorContext =
  boundary :: string
  ctx_route :: "string option"

definition MAX_MESSAGE_LENGTH :: nat where "MAX_MESSAGE_LENGTH = 300"

definition reported_message :: "thrown \<Rightarrow> string" where
  "reported_message e =
     take MAX_MESSAGE_LENGTH (redactSensitiveString
       (case e of ThrownError m \<Rightarrow> m | ThrownString s \<Rightarrow> s | ThrownOther \<Rightarrow> ''unknown error''))"

text \<open>The line written to the console.\<close>

definition reportClientError :: "thrown \<Rightarrow> ClientErrorContext \<Rightarrow> string" where
  "reportClientError e ctx =
     (let route = (case ctx_route ctx of
                     Some r \<Rightarrow> if r \<noteq> [] then '' route='' @ r else [] | None \<Rightarrow> [])
      in ''[client-error] boundary='' @ boundary ctx @ route @ '': '' @ reported_message e)"

lemma reported_message_length: "length (reported_message e) \<le> 300"
  by (simp add: reported_message_def MAX_MESSAGE_LENGTH_def)

end
