(* ===== verification/Auth_Session.thy ===== *)
theory Auth_Session
  imports Js_Value
begin

section \<open>The browser session: token, cookie and route guards\<close>

text \<open>
  Four parts of the client that together decide whether a page is shown:
  \<^item> \<open>frontend/src/lib/auth.ts\<close>: the in-memory access token, its expiry and \<open>initializeAuth\<close>;
  \<^item> \<open>frontend/src/app/api/auth/*/route.ts\<close>: the routes that keep the token in an http-only
    cookie (\<open>set-cookie\<close>, \<open>clear-cookie\<close>, \<open>token\<close>);
  \<^item> \<open>frontend/src/middleware.ts\<close>: the server-side guard of page requests;
  \<^item> \<open>frontend/src/components/auth/auth-guard.tsx\<close>: the client-side guard of the dashboard.
  \<open>jose\<close> is a package: \<open>jwtVerify\<close> and \<open>decodeJwt\<close> are the parameters \<open>verify\<close> and
  \<open>decode_jwt\<close>. Times are milliseconds.
\<close>

subsection \<open>lib/auth.ts\<close>

record runtime =
  has_window :: bool
  has_atob :: bool

record auth_state =
  inMemoryToken :: "string option"
  auth_initialized :: bool
  stored_user :: "string option" \<comment> \<open>localStorage under the user key\<close>

definition auth_start :: auth_state where
  "auth_start = \<lparr>inMemoryToken = None, auth_initialized = False, stored_user = None\<rparr>"

definition base64url_to_base64 :: "string \<Rightarrow> string" where
  "base64url_to_base64 s =
     map (\<lambda>c. if c = CHR ''-'' then CHR ''+'' else if c = CHR ''_'' then CHR ''/'' else c) s"

definition decodeTokenPayload :: "runtime \<Rightarrow> string \<Rightarrow> jsv option" where
  "decodeTokenPayload rt token =
     (let parts = split_on (CHR ''.'') token
      in if length parts \<noteq> 3 then None
         else
           (let base64 = base64url_to_base64 (parts ! 1);
                padded = base64 @ replicate ((4 - length base64 mod 4) mod 4) (CHR ''='');
                json = (if has_atob rt then atob padded else Some (buffer_base64 padded))
            in case Option.bind json json_parse of
                 None \<Rightarrow> None
               | Some payload \<Rightarrow>
                   if \<not> typeof_object payload \<or> payload = JNull then None else Some payload))"

definition expired_at :: "int \<Rightarrow> jsv \<Rightarrow> bool" where
  "expired_at now payload =
     (case get_field payload ''exp'' of JNum e \<Rightarrow> of_int now \<ge> e * 1000 | _ \<Rightarrow> False)"

definition isTokenExpired :: "runtime \<Rightarrow> int \<Rightarrow> string \<Rightarrow> bool" where
  "isTokenExpired rt now token =
     (case decodeTokenPayload rt token of
        None \<Rightarrow> True
      | Some payload \<Rightarrow> expired_at now payload)"

definition getAccessToken :: "auth_state \<Rightarrow> string option" where
  "getAccessToken s = inMemoryToken s"

definition getSessionId :: "runtime \<Rightarrow> auth_state \<Rightarrow> string option" where
  "getSessionId rt s =
     (if falsy_string (inMemoryToken s) then None
      else case decodeTokenPayload rt (the (inMemoryToken s)) of
             None \<Rightarrow> None
           | Some payload \<Rightarrow>
               (case get_field payload ''sid'' of
                  JStr sid \<Rightarrow> if sid \<noteq> [] then Some sid else None
                | _ \<Rightarrow> None))"

definition setTokens :: "string \<Rightarrow> auth_state \<Rightarrow> auth_state" where
  "setTokens access s = s\<lparr>inMemoryToken := Some access\<rparr>"

definition clearAuth :: "auth_state \<Rightarrow> auth_state" where
  "clearAuth s = s\<lparr>inMemoryToken := None, auth_initialized := False, stored_user := None\<rparr>"

definition setStoredUser :: "string \<Rightarrow> auth_state \<Rightarrow> auth_state" where
  "setStoredUser json s = s\<lparr>stored_user := Some json\<rparr>"

definition getStoredUser :: "runtime \<Rightarrow> auth_state \<Rightarrow> jsv option" where
  "getStoredUser rt s =
     (if \<not> has_window rt then None
      else if falsy_string (stored_user s) then None
      else json_parse (the (stored_user s)))"

text \<open>
  \<open>fetch("/api/auth/token")\<close> either throws (network, a body that is not JSON) or yields a
  body; \<open>data.token\<close> throws when the body is null. A token that is not a string makes
  \<open>token.split\<close> throw inside the decoder's try block, so it counts as expired.
\<close>

datatype fetch_outcome = FetchFailed | FetchJson jsv

definition token_usable :: "runtime \<Rightarrow> int \<Rightarrow> jsv \<Rightarrow> bool" where
  "token_usable rt now t = (case t of JStr s \<Rightarrow> \<not> isTokenExpired rt now s | _ \<Rightarrow> False)"

record init_result =
  init_ok :: bool
  init_state :: auth_state
  cookie_cleared :: bool \<comment> \<open>POST /api/auth/clear-cookie was sent\<close>

definition initializeAuth :: "runtime \<Rightarrow> int \<Rightarrow> fetch_outcome \<Rightarrow> auth_state \<Rightarrow> init_result" where
  "initializeAuth rt now response s =
     (if \<not> has_window rt then \<lparr>init_ok = False, init_state = s, cookie_cleared = False\<rparr>
      else if auth_initialized s then \<lparr>init_ok = True, init_state = s, cookie_cleared = False\<rparr>
      else case response of
        FetchFailed \<Rightarrow>
          \<lparr>init_ok = False, init_state = s\<lparr>auth_initialized := True\<rparr>, cookie_cleared = False\<rparr>
      | FetchJson body \<Rightarrow>
          if nullish body then
            \<lparr>init_ok = False, init_state = s\<lparr>auth_initialized := True\<rparr>, cookie_cleared = False\<rparr>
          else
            (let token = get_field body ''token''
             in if truthy token \<and> token_usable rt now token then
                  \<lparr>init_ok = True,
                   init_state = s\<lparr>inMemoryToken := Some (js_string token), auth_initialized := True\<rparr>,
                   cookie_cleared = False\<rparr>
                else if truthy token then
                  \<lparr>init_ok = False, init_state = (clearAuth s)\<lparr>auth_initialized := True\<rparr>,
                   cookie_cleared = True\<rparr>
                else
                  \<lparr>init_ok = False, init_state = s\<lparr>auth_initialized := True\<rparr>,
                   cookie_cleared = False\<rparr>))"

definition isInitialized :: "auth_state \<Rightarrow> bool" where
  "isInitialized s = auth_initialized s"

definition isAuthenticated :: "runtime \<Rightarrow> int \<Rightarrow> auth_state \<Rightarrow> bool" where
  "isAuthenticated rt now s =
     (if falsy_string (getAccessToken s) then False
      else if isTokenExpired rt now (the (getAccessToken s)) then False
      else True)"

lemma setTokens_fields [simp]:
  "inMemoryToken (setTokens t s) = Some t" "stored_user (setTokens t s) = stored_user s"
  by (simp_all add: setTokens_def)

lemma clearAuth_fields [simp]:
  "inMemoryToken (clearAuth s) = None" "stored_user (clearAuth s) = None"
  "auth_initialized (clearAuth s) = False"
  by (simp_all add: clearAuth_def)

lemma not_authenticated_without_token [simp]:
  "inMemoryToken s = None \<Longrightarrow> \<not> isAuthenticated rt now s"
  by (simp add: isAuthenticated_def getAccessToken_def falsy_string_def)

lemma expired_at_mono: "expired_at now p \<Longrightarrow> now \<le> later \<Longrightarrow> expired_at later p"
  by (auto simp: expired_at_def split: jsv.splits)

lemma isTokenExpired_mono: "isTokenExpired rt now t \<Longrightarrow> now \<le> later \<Longrightarrow> isTokenExpired rt later t"
  by (auto simp: isTokenExpired_def split: option.splits intro: expired_at_mono)

text \<open>
  The first \<open>initializeAuth\<close> in a browser answers true exactly when the client then holds a
  token that is valid at that moment, starting from a client without a token; it always leaves
  the client initialised, and it clears the cookie exactly when the server handed out a token
  that is not usable.
\<close>

lemma initializeAuth_sound:
  assumes "has_window rt" and "\<not> auth_initialized s" and "inMemoryToken s = None"
  shows "init_ok (initializeAuth rt now r s) =
      isAuthenticated rt now (init_state (initializeAuth rt now r s)) \<and>
    isInitialized (init_state (initializeAuth rt now r s)) \<and>
    (cookie_cleared (initializeAuth rt now r s) \<longleftrightarrow>
       (\<exists>body. r = FetchJson body \<and> truthy (get_field body ''token'') \<and>
          \<not> token_usable rt now (get_field body ''token'')))"
  using assms
  by (auto simp: initializeAuth_def isInitialized_def isAuthenticated_def getAccessToken_def
      falsy_string_def token_usable_def Let_def nullish_def get_field_def
      split: fetch_outcome.splits jsv.splits option.splits if_splits)

lemma initializeAuth_sound_witness:
  "\<not> init_ok (initializeAuth \<lparr>has_window = True, has_atob = True\<rparr> 0
     (FetchJson (JObj [(''token'', JStr ''x.y'')])) auth_start)"
  using initializeAuth_sound [of "\<lparr>has_window = True, has_atob = True\<rparr>" auth_start 0
      "FetchJson (JObj [(''token'', JStr ''x.y'')])"]
  by (simp add: auth_start_def initializeAuth_def token_usable_def isTokenExpired_def
      decodeTokenPayload_def nullish_def)

text \<open>
  The answer of a repeated \<open>initializeAuth\<close> says nothing about the session: after a failed first
  call (no cookie, say) the second call answers true although the client holds no token.
\<close>

lemma initializeAuth_repeat_always_true:
  assumes "has_window rt" and "\<not> auth_initialized s" and "inMemoryToken s = None"
    and "\<not> init_ok (initializeAuth rt now r s)"
  shows "init_ok (initializeAuth rt later r' (init_state (initializeAuth rt now r s))) \<and>
    \<not> isAuthenticated rt later (init_state (initializeAuth rt later r'
       (init_state (initializeAuth rt now r s))))"
proof -
  let ?s1 = "init_state (initializeAuth rt now r s)"
  have "auth_initialized ?s1 \<and> inMemoryToken ?s1 = None"
    using assms
    by (auto simp: initializeAuth_def Let_def split: fetch_outcome.splits if_splits)
  then show ?thesis
    using assms(1) by (simp add: initializeAuth_def)
qed

lemma initializeAuth_repeat_always_true_witness:
  "init_ok (initializeAuth \<lparr>has_window = True, has_atob = True\<rparr> 5 FetchFailed
     (init_state (initializeAuth \<lparr>has_window = True, has_atob = True\<rparr> 0 FetchFailed auth_start)))"
proof -
  have "\<not> init_ok (initializeAuth \<lparr>has_window = True, has_atob = True\<rparr> 0 FetchFailed auth_start)"
    by (simp add: auth_start_def initializeAuth_def)
  from initializeAuth_repeat_always_true [OF _ _ _ this, of 5 FetchFailed]
  show ?thesis by (simp add: auth_start_def)
qed

subsection \<open>The cookie routes\<close>

record cookie =
  cookie_value :: string
  httpOnly :: bool
  secure :: bool
  cookie_maxAge :: int

text \<open>The \<open>access_token\<close> entry of the jar; \<open>sameSite: "lax"\<close>, \<open>path: "/"\<close> on every write.\<close>

type_synonym jar = "cookie option"

record route_response =
  resp_status :: int
  resp_body :: jsv
  resp_jar :: jar

definition week_seconds :: int where
  "week_seconds = 60 * 60 * 24 * 7"

text \<open>\<open>maxAge: 0\<close> tells the browser to drop the cookie.\<close>

definition store_cookie :: "cookie \<Rightarrow> jar" where
  "store_cookie c = (if cookie_maxAge c \<le> 0 then None else Some c)"

definition clear_cookie_POST :: "bool \<Rightarrow> jar \<Rightarrow> route_response" where
  "clear_cookie_POST production j =
     \<lparr>resp_status = 200, resp_body = JObj [(''message'', JStr ''Cookie cleared'')],
      resp_jar = store_cookie \<lparr>cookie_value = [], httpOnly = True, secure = production,
                               cookie_maxAge = 0\<rparr>\<rparr>"

text \<open>A body that is not JSON, or null, throws out of the handler.\<close>

definition set_cookie_POST :: "bool \<Rightarrow> jsv option \<Rightarrow> jar \<Rightarrow> unit + route_response" where
  "set_cookie_POST production request j =
     (case request of
        None \<Rightarrow> Inl ()
      | Some body \<Rightarrow>
          if nullish body then Inl ()
          else
            (let token = get_field body ''token''
             in if \<not> truthy token then
                  Inr \<lparr>resp_status = 400, resp_body = JObj [(''message'', JStr ''Token is required'')],
                       resp_jar = j\<rparr>
                else
                  Inr \<lparr>resp_status = 200, resp_body = JObj [(''message'', JStr ''Cookie set'')],
                       resp_jar = store_cookie \<lparr>cookie_value = js_string token, httpOnly = True,
                                                secure = production, cookie_maxAge = week_seconds\<rparr>\<rparr>))"

definition token_body :: "string option \<Rightarrow> jsv" where
  "token_body t = JObj [(''token'', case t of Some s \<Rightarrow> JStr s | None \<Rightarrow> JNull)]"

definition refuse_token :: route_response where
  "refuse_token = \<lparr>resp_status = 200, resp_body = token_body None, resp_jar = None\<rparr>"

text \<open>
  Without a secret the payload is decoded by hand; a token with no second part, or whose
  payload is not JSON or is null, throws into the catch branch.
\<close>

definition payload_by_hand :: "string \<Rightarrow> jsv option" where
  "payload_by_hand token =
     (let parts = split_on (CHR ''.'') token
      in if length parts < 2 then None
         else json_parse (buffer_base64 (base64url_to_base64 (parts ! 1))))"

definition token_GET ::
  "(string \<Rightarrow> string \<Rightarrow> bool) \<Rightarrow> string option \<Rightarrow> int \<Rightarrow> jar \<Rightarrow> route_response" where
  "token_GET verify secret now j =
     (case j of
        None \<Rightarrow> \<lparr>resp_status = 200, resp_body = token_body None, resp_jar = j\<rparr>
      | Some c \<Rightarrow>
          (let token = cookie_value c
           in if token = [] then \<lparr>resp_status = 200, resp_body = token_body None, resp_jar = j\<rparr>
              else if \<not> falsy_string secret then
                (if verify (the secret) token
                 then \<lparr>resp_status = 200, resp_body = token_body (Some token), resp_jar = j\<rparr>
                 else refuse_token)
              else
                (case payload_by_hand token of
                   None \<Rightarrow> refuse_token
                 | Some payload \<Rightarrow>
                     if nullish payload then refuse_token
                     else if expired_at now payload then refuse_token
                     else \<lparr>resp_status = 200, resp_body = token_body (Some token), resp_jar = j\<rparr>)))"

definition served_token :: "route_response \<Rightarrow> string option" where
  "served_token r = (case get_field (resp_body r) ''token'' of JStr s \<Rightarrow> Some s | _ \<Rightarrow> None)"

lemma served_token_body [simp]:
  "served_token \<lparr>resp_status = st, resp_body = token_body t, resp_jar = j\<rparr> = t"
  by (simp add: served_token_def token_body_def split: option.splits)

lemma served_refuse [simp]: "served_token refuse_token = None" "resp_jar refuse_token = None"
  by (simp_all add: refuse_token_def)

text \<open>
  The cookie keeps what it was given and no more: after \<open>set-cookie\<close> stored a token, \<open>token\<close> on
  a server with a secret serves that very token when it verifies and otherwise serves none and
  drops the cookie; the cookie is never readable by scripts.
\<close>

lemma set_then_get_token:
  assumes "tok \<noteq> []" and "\<not> falsy_string secret"
    and "set_cookie_POST production (Some (JObj [(''token'', JStr tok)])) j = Inr r"
  shows "resp_status r = 200 \<and> (\<forall>c. resp_jar r = Some c \<longrightarrow> httpOnly c \<and> secure c = production) \<and>
    served_token (token_GET verify secret now (resp_jar r)) =
      (if verify (the secret) tok then Some tok else None) \<and>
    (resp_jar (token_GET verify secret now (resp_jar r)) = None \<longleftrightarrow> \<not> verify (the secret) tok)"
  using assms
  by (auto simp: set_cookie_POST_def nullish_def store_cookie_def week_seconds_def token_GET_def)

lemma set_then_get_token_witness:
  "served_token (token_GET (\<lambda>k t. t = ''good'') (Some ''k'') 0
     (Some \<lparr>cookie_value = ''good'', httpOnly = True, secure = True, cookie_maxAge = week_seconds\<rparr>))
   = Some ''good''"
proof -
  have "set_cookie_POST True (Some (JObj [(''token'', JStr ''good'')])) None =
    Inr \<lparr>resp_status = 200, resp_body = JObj [(''message'', JStr ''Cookie set'')],
      resp_jar = Some \<lparr>cookie_value = ''good'', httpOnly = True, secure = True,
        cookie_maxAge = week_seconds\<rparr>\<rparr>"
    by (simp add: set_cookie_POST_def nullish_def store_cookie_def week_seconds_def)
  from set_then_get_token [OF _ _ this, of "Some ''k''" "\<lambda>k t. t = ''good''" 0]
  show ?thesis by (simp add: falsy_string_def)
qed

text \<open>
  Whatever the cookie holds, a token the server hands to the page has verified under the secret, or,
  on a server without a secret, is unexpired by its own payload; a refusal drops the cookie.
\<close>

lemma token_GET_serves_checked:
  assumes "j = Some c" and "cookie_value c \<noteq> []"
  shows "served_token (token_GET verify secret now j) \<in> {None, Some (cookie_value c)} \<and>
    (served_token (token_GET verify secret now j) = Some (cookie_value c) \<longleftrightarrow>
      (if falsy_string secret
       then \<exists>p. payload_by_hand (cookie_value c) = Some p \<and> \<not> nullish p \<and> \<not> expired_at now p
       else verify (the secret) (cookie_value c))) \<and>
    (served_token (token_GET verify secret now j) = None \<longrightarrow>
      resp_jar (token_GET verify secret now j) = None)"
  using assms by (auto simp: token_GET_def Let_def split: option.splits)

lemma token_GET_serves_checked_witness:
  "served_token (token_GET (\<lambda>_ _. False) (Some ''k'') 0
     (Some \<lparr>cookie_value = ''bad'', httpOnly = True, secure = True, cookie_maxAge = 1\<rparr>)) \<noteq> Some ''bad''"
proof -
  let ?c = "\<lparr>cookie_value = ''bad'', httpOnly = True, secure = True, cookie_maxAge = 1\<rparr>"
  have "cookie_value ?c \<noteq> []" by simp
  from token_GET_serves_checked [OF refl this, of "\<lambda>_ _. False" "Some ''k''" 0]
  show ?thesis by (simp add: falsy_string_def)
qed

subsection \<open>middleware.ts\<close>

definition publicPaths :: "string list" where
  "publicPaths = [''/login'', ''/register'', ''/'', ''/forgot-password'', ''/reset-password'']"

definition middleware_isTokenExpired :: "(string \<Rightarrow> jsv option) \<Rightarrow> int \<Rightarrow> string \<Rightarrow> bool" where
  "middleware_isTokenExpired decode_jwt now token =
     (case decode_jwt token of Some payload \<Rightarrow> expired_at now payload | None \<Rightarrow> True)"

datatype mw_response =
    NextResponse
  | RedirectLogin string bool \<comment> \<open>the \<open>redirect\<close> parameter; whether the cookie is deleted\<close>

definition isPublic :: "string \<Rightarrow> bool" where
  "isPublic pathname = list_ex (\<lambda>p. pathname = p \<or> starts_with pathname (p @ ''/'')) publicPaths"

definition isStatic :: "string \<Rightarrow> bool" where
  "isStatic pathname \<longleftrightarrow>
     starts_with pathname ''/_next'' \<or> starts_with pathname ''/static'' \<or>
     pathname = ''/favicon.ico'' \<or> pathname = ''/manifest.json''"

definition middleware ::
  "(string \<Rightarrow> string \<Rightarrow> bool) \<Rightarrow> (string \<Rightarrow> jsv option) \<Rightarrow> string option \<Rightarrow> int \<Rightarrow>
   string \<Rightarrow> jar \<Rightarrow> mw_response"
where
  "middleware verify decode_jwt secret now pathname j =
     (if isPublic pathname \<or> isStatic pathname then NextResponse
      else
        (let token = map_option cookie_value j
         in if falsy_string token then RedirectLogin pathname False
            else if \<not> falsy_string secret then
              (if verify (the secret) (the token) then NextResponse
               else RedirectLogin pathname True)
            else
              (if middleware_isTokenExpired decode_jwt now (the token)
               then RedirectLogin pathname True else NextResponse)))"

text \<open>
  The matcher: \<open>/((?!api|_next/static|_next/image|favicon.ico|manifest.json).*)\<close>; a dot of the
  two file names stands for any character.
\<close>

definition matcher_excludes :: "string \<Rightarrow> bool" where
  "matcher_excludes rest \<longleftrightarrow>
     starts_with rest ''api'' \<or> starts_with rest ''_next/static'' \<or> starts_with rest ''_next/image'' \<or>
     (starts_with rest ''favicon'' \<and> starts_with (drop 8 rest) ''ico'') \<or>
     (starts_with rest ''manifest'' \<and> starts_with (drop 9 rest) ''json'')"

definition middleware_runs :: "string \<Rightarrow> bool" where
  "middleware_runs pathname \<longleftrightarrow> (case pathname of
     c # rest \<Rightarrow> c = CHR ''/'' \<and> \<not> matcher_excludes rest | [] \<Rightarrow> False)"

lemma dashboard_guarded_path:
  assumes "pathname = ''/dashboard'' @ rest"
  shows "\<not> isPublic pathname" and "\<not> isStatic pathname" and "middleware_runs pathname"
  using assms
  by (auto simp: isPublic_def publicPaths_def isStatic_def middleware_runs_def matcher_excludes_def
      starts_with_def)

text \<open>
  Every dashboard page is behind the guard: the middleware runs on it, and lets the request through
  exactly when the cookie holds a token that verifies under the secret (that is unexpired, where
  no secret is configured); otherwise the visitor is sent to the login page with the page asked
  for as the redirect parameter, and a token that was there is deleted.
\<close>

lemma middleware_guards_dashboard:
  assumes "pathname = ''/dashboard'' @ rest"
  shows "middleware_runs pathname \<and>
    middleware verify decode_jwt secret now pathname j =
      (if \<exists>c. j = Some c \<and> cookie_value c \<noteq> [] \<and>
          (if falsy_string secret then \<not> middleware_isTokenExpired decode_jwt now (cookie_value c)
           else verify (the secret) (cookie_value c))
       then NextResponse
       else RedirectLogin pathname (\<exists>c. j = Some c \<and> cookie_value c \<noteq> []))"
  using dashboard_guarded_path [OF assms]
  by (cases j) (auto simp: middleware_def falsy_string_def Let_def)

lemma middleware_guards_dashboard_witness:
  "middleware (\<lambda>_ _. False) (\<lambda>_. None) (Some ''k'') 0 ''/dashboard/payroll''
     (Some \<lparr>cookie_value = ''stolen'', httpOnly = True, secure = True, cookie_maxAge = 9\<rparr>) =
   RedirectLogin ''/dashboard/payroll'' True"
proof -
  have "''/dashboard/payroll'' = ''/dashboard'' @ ''/payroll''" by simp
  from middleware_guards_dashboard [OF this, of "\<lambda>_ _. False" "\<lambda>_. None" "Some ''k''" 0]
  show ?thesis by (simp add: falsy_string_def)
qed

subsection \<open>components/auth/auth-guard.tsx\<close>

record guard_view =
  shows_children :: bool
  redirects_to :: "string option"

text \<open>One render after its effects, in state \<open>s\<close>.\<close>

definition AuthGuard ::
  "runtime \<Rightarrow> int \<Rightarrow> bool \<Rightarrow> string \<Rightarrow> string \<Rightarrow> auth_state \<Rightarrow> guard_view"
where
  "AuthGuard rt now ready pathname search s =
     (let authenticated = ready \<and> isAuthenticated rt now s
      in \<lparr>shows_children = \<not> (\<not> ready \<or> \<not> authenticated),
          redirects_to =
            (if ready \<and> \<not> authenticated \<and> pathname \<noteq> ''/login''
             then Some (''/login?redirect='' @ encode_uri_component (pathname @ search)) else None)\<rparr>)"

lemma AuthGuard_iff:
  "shows_children (AuthGuard rt now ready pathname search s) \<longleftrightarrow> ready \<and> isAuthenticated rt now s"
  by (auto simp: AuthGuard_def)

lemma AuthGuard_expired:
  assumes "isTokenExpired rt now (the (inMemoryToken s))" and "pathname \<noteq> ''/login''"
  shows "\<not> shows_children (AuthGuard rt now True pathname search s) \<and>
    redirects_to (AuthGuard rt now True pathname search s) =
      Some (''/login?redirect='' @ encode_uri_component (pathname @ search))"
  using assms by (auto simp: AuthGuard_def isAuthenticated_def getAccessToken_def)

end
