(* ===== verification/Realtime.thy ===== *)
theory Realtime
  imports Api_Errors Client_Support Auth_Session
begin

section \<open>Live connections: notification socket, event stream, web socket\<close>

text \<open>
  The three hooks that keep a connection open and collect what arrives:
  \<open>frontend/src/hooks/use-notification-socket.ts\<close>, \<open>use-realtime.ts\<close> (server-sent events)
  and \<open>use-websocket.ts\<close>. The host (socket, event source, timers) is a sequence of events; a
  hook's state holds what React state, its refs and the pending timer hold. Each keeps its items
  in a capped feed and reconnects after a capped exponential delay.
\<close>

subsection \<open>use-notification-socket.ts\<close>

record LiveNotification =
  n_id :: string
  n_title :: string
  n_message :: string
  n_read :: bool
  n_createdAt :: string

text \<open>
  \<open>now\<close> is \<open>new Date().toISOString()\<close>. A frame may wrap the notification in a \<open>data\<close> string; a
  falsy frame is dropped, and so is one without an id.
\<close>

definition parseNotification :: "string \<Rightarrow> string \<Rightarrow> LiveNotification option" where
  "parseNotification now raw =
     Option.bind (json_parse raw) (\<lambda>parsed.
     Option.bind
       (if truthy parsed then
          (case get_field parsed ''data'' of
             JStr inner \<Rightarrow> json_parse inner
           | _ \<Rightarrow> Some parsed)
        else Some parsed) (\<lambda>notif.
       if \<not> truthy notif \<or> nullish (get_field notif ''id'') then None
       else Some
         \<lparr>n_id = js_string (get_field notif ''id''),
          n_title = js_string (coalesce (get_field notif ''title'') (JStr ''Notification'')),
          n_message = js_string (coalesce (get_field notif ''message'') (JStr [])),
          n_read = False,
          n_createdAt = js_string (coalesce (get_field notif ''createdAt'') (JStr now))\<rparr>))"

subsection \<open>The contract of a reconnecting client\<close>

text \<open>
  A socket as the host shows it to the page. A hook's sockets are listed newest first; events
  name a socket by its position.
\<close>

datatype phase = Connecting | Open | Closing | Closed

definition live :: "phase \<Rightarrow> bool" where
  "live p \<longleftrightarrow> p = Connecting \<or> p = Open"

lemma live_simps [simp]: "live Connecting" "live Open" "\<not> live Closing" "\<not> live Closed"
  by (simp_all add: live_def)

text \<open>
  The contract: while the hook is active it has either one live connection or one pending
  reconnect timer, never both and never neither; an inactive hook has none.
\<close>

locale reconnecting = event_invariant start enabled step wf
  for start :: "'s \<Rightarrow> bool" and enabled :: "'e \<Rightarrow> 's \<Rightarrow> bool" and step :: "'e \<Rightarrow> 's \<Rightarrow> 's"
    and wf :: "'s \<Rightarrow> bool" +
  fixes connections :: "'s \<Rightarrow> nat" and timers :: "'s \<Rightarrow> nat" and active :: "'s \<Rightarrow> bool"
  assumes one_token: "wf s \<Longrightarrow> connections s + timers s = (if active s then 1 else 0)"
begin

lemma exactly_one:
  "reachable start enabled step s \<Longrightarrow> connections s + timers s = (if active s then 1 else 0)"
  by (intro one_token reachable_inv)

lemma one_connection: "reachable start enabled step s \<Longrightarrow> connections s \<le> 1"
  using exactly_one [of s] by (auto split: if_splits)

lemma never_stuck: "reachable start enabled step s \<Longrightarrow> active s \<Longrightarrow> 0 < connections s \<or> 0 < timers s"
  using exactly_one [of s] by auto

end

definition count_live :: "phase list \<Rightarrow> nat" where
  "count_live ps = length (filter live ps)"

lemma count_live_simps [simp]:
  "count_live [] = 0" "count_live (p # ps) = (if live p then 1 else 0) + count_live ps"
  by (simp_all add: count_live_def)

lemma count_live_0 [simp]: "\<forall>p \<in> set ps. \<not> live p \<Longrightarrow> count_live ps = 0"
  by (simp add: count_live_def filter_empty_conv)

text \<open>At most the newest socket is live.\<close>

definition only_newest :: "phase list \<Rightarrow> bool" where
  "only_newest ps \<longleftrightarrow> (\<forall>p \<in> set (tl ps). \<not> live p)"

lemma only_newest_Cons: "\<forall>p \<in> set ps. \<not> live p \<Longrightarrow> only_newest (p # ps)"
  by (simp add: only_newest_def)

lemma only_newest_update:
  assumes "only_newest ps" and "k = 0 \<or> \<not> live q"
  shows "only_newest (ps[k := q])"
  using assms by (cases ps; cases k) (auto simp: only_newest_def dest: set_update_subset_insert [THEN subsetD])

lemma only_newest_live:
  assumes "only_newest ps" and "k < length ps" and "live (ps ! k)"
  shows "k = 0" "count_live ps = 1"
  using assms by (cases ps; cases k; auto simp: only_newest_def)+

lemma count_live_only_newest:
  "only_newest ps \<Longrightarrow> count_live ps = (if ps \<noteq> [] \<and> live (hd ps) then 1 else 0)"
  by (cases ps) (auto simp: only_newest_def)

subsection \<open>The notification hook\<close>

text \<open>
  \<open>attempt\<close> is \<open>reconnectRef\<close>, \<open>timer\<close> the delay of the pending timer of \<open>timeoutRef\<close>;
  \<open>wsRef\<close> holds the newest socket or null.
\<close>

record notif_state =
  notifications :: "LiveNotification list"
  connected :: bool
  sockets :: "phase list"
  wsRef_set :: bool
  attempt :: nat
  timer :: "int option"
  mounted :: bool

definition scheduleReconnect :: "notif_state \<Rightarrow> notif_state" where
  "scheduleReconnect s =
     s\<lparr>timer := Some (getReconnectDelay (of_nat (attempt s))), attempt := attempt s + 1\<rparr>"

text \<open>\<open>new WebSocket\<close> throws on a bad URL (\<open>ok = False\<close>); the catch branch schedules a retry.\<close>

definition notif_connect :: "bool \<Rightarrow> notif_state \<Rightarrow> notif_state" where
  "notif_connect ok s =
     (if ok then s\<lparr>sockets := Connecting # sockets s, wsRef_set := True\<rparr> else scheduleReconnect s)"

definition receive :: "LiveNotification \<Rightarrow> notif_state \<Rightarrow> notif_state" where
  "receive n s =
     s\<lparr>notifications :=
         (if list_ex (\<lambda>m. n_id m = n_id n) (notifications s) then notifications s
          else take 50 (n # notifications s))\<rparr>"

datatype notif_event =
    OnOpen nat
  | OnMessage nat string string \<comment> \<open>the clock as a string, the frame\<close>
  | OnClose nat
  | TimerFires bool
  | MarkAllRead
  | MarkOneRead string
  | Unmount

text \<open>\<open>onerror\<close> only closes the socket, which the host then reports as \<open>OnClose\<close>.\<close>

definition notif_step :: "notif_event \<Rightarrow> notif_state \<Rightarrow> notif_state" where
  "notif_step e s =
     (case e of
        OnOpen k \<Rightarrow>
          s\<lparr>sockets := (sockets s)[k := Open], connected := True, attempt := 0, timer := None\<rparr>
      | OnMessage k now raw \<Rightarrow>
          (case parseNotification now raw of None \<Rightarrow> s | Some n \<Rightarrow> receive n s)
      | OnClose k \<Rightarrow>
          scheduleReconnect
            (s\<lparr>sockets := (sockets s)[k := Closed], connected := False, wsRef_set := False\<rparr>)
      | TimerFires ok \<Rightarrow> notif_connect ok (s\<lparr>timer := None\<rparr>)
      | MarkAllRead \<Rightarrow> s\<lparr>notifications := map (\<lambda>n. n\<lparr>n_read := True\<rparr>) (notifications s)\<rparr>
      | MarkOneRead i \<Rightarrow>
          s\<lparr>notifications :=
              map (\<lambda>n. if n_id n = i then n\<lparr>n_read := True\<rparr> else n) (notifications s)\<rparr>
      | Unmount \<Rightarrow>
          s\<lparr>timer := None, mounted := False,
            sockets := (if wsRef_set s then (sockets s)[0 := Closed] else sockets s)\<rparr>)"

text \<open>What the host can deliver: a cleaned-up socket has no \<open>onclose\<close> and reports nothing.\<close>

definition notif_enabled :: "notif_event \<Rightarrow> notif_state \<Rightarrow> bool" where
  "notif_enabled e s =
     (case e of
        OnOpen k \<Rightarrow> k < length (sockets s) \<and> sockets s ! k = Connecting
      | OnMessage k _ _ \<Rightarrow> k < length (sockets s) \<and> sockets s ! k = Open
      | OnClose k \<Rightarrow> k < length (sockets s) \<and> live (sockets s ! k)
      | TimerFires _ \<Rightarrow> timer s \<noteq> None
      | MarkAllRead \<Rightarrow> True
      | MarkOneRead _ \<Rightarrow> True
      | Unmount \<Rightarrow> mounted s)"

text \<open>The state after the mount effect has called \<open>connect\<close>.\<close>

definition notif_start :: "bool \<Rightarrow> notif_state" where
  "notif_start ok = notif_connect ok
     \<lparr>notifications = [], connected = False, sockets = [], wsRef_set = False, attempt = 0,
      timer = None, mounted = True\<rparr>"

definition pending :: "int option \<Rightarrow> nat" where
  "pending t = (case t of Some _ \<Rightarrow> 1 | None \<Rightarrow> 0)"

lemma pending_simps [simp]: "pending None = 0" "pending (Some d) = 1"
  by (simp_all add: pending_def)

definition delay_ok :: "int option \<Rightarrow> bool" where
  "delay_ok t \<longleftrightarrow> (case t of Some d \<Rightarrow> 1000 \<le> d \<and> d \<le> 30000 | None \<Rightarrow> True)"

lemma delay_ok_simps [simp]: "delay_ok None" "delay_ok (Some (getReconnectDelay (of_nat n)))"
proof -
  show "delay_ok (Some (getReconnectDelay (of_nat n)))"
    using reconnect.delay_mono [of 0 n] reconnect.delay_limit [of n]
    by (simp add: delay_ok_def getReconnectDelay_nat [of 0, simplified])
qed (simp add: delay_ok_def)

definition notif_wf :: "notif_state \<Rightarrow> bool" where
  "notif_wf s \<longleftrightarrow>
     only_newest (sockets s) \<and>
     count_live (sockets s) + pending (timer s) = (if mounted s then 1 else 0) \<and>
     (0 < count_live (sockets s) \<longrightarrow> wsRef_set s) \<and>
     (mounted s \<longrightarrow> connected s = (sockets s \<noteq> [] \<and> hd (sockets s) = Open)) \<and>
     delay_ok (timer s)"

lemma notif_wf_schedule:
  assumes "only_newest (sockets s)" "count_live (sockets s) = 0" "mounted s" "\<not> connected s"
  shows "notif_wf (scheduleReconnect s)"
  using assms by (cases "sockets s") (auto simp: notif_wf_def scheduleReconnect_def)

lemma notif_wf_connect:
  assumes "only_newest (sockets s)" "count_live (sockets s) = 0" "mounted s" "\<not> connected s"
    "timer s = None"
  shows "notif_wf (notif_connect ok s)"
proof (cases ok)
  case True
  have "\<forall>p \<in> set (sockets s). \<not> live p"
    using assms(2) by (simp add: count_live_def filter_empty_conv)
  with True assms show ?thesis by (simp add: notif_wf_def notif_connect_def only_newest_def)
qed (simp add: notif_connect_def notif_wf_schedule assms)

lemma notif_wf_step:
  assumes "notif_wf s" and "notif_enabled e s"
  shows "notif_wf (notif_step e s)"
proof (cases e)
  case (OnOpen k)
  with assms have k: "k < length (sockets s)" "live (sockets s ! k)"
    by (auto simp: notif_enabled_def live_def)
  then have "k = 0" using assms only_newest_live(1) by (auto simp: notif_wf_def)
  with k OnOpen assms show ?thesis
    by (cases "sockets s") (auto simp: notif_step_def notif_wf_def only_newest_def split: if_splits)
next
  case (OnMessage k now raw)
  with assms show ?thesis
    by (auto simp: notif_step_def notif_wf_def receive_def split: option.splits)
next
  case (OnClose k)
  with assms have k: "k < length (sockets s)" "live (sockets s ! k)"
    by (auto simp: notif_enabled_def)
  then have k0: "k = 0" and one: "count_live (sockets s) = 1"
    using assms only_newest_live by (auto simp: notif_wf_def)
  obtain p ps where ps: "sockets s = p # ps" using k by (cases "sockets s") auto
  have old: "\<forall>q \<in> set ps. \<not> live q"
    using assms(1) ps by (simp add: notif_wf_def only_newest_def)
  have "mounted s" using assms(1) one by (auto simp: notif_wf_def split: if_splits)
  with old ps k0 show ?thesis
    by (simp add: OnClose notif_step_def notif_wf_schedule only_newest_def)
next
  case (TimerFires ok)
  then have "timer s \<noteq> None" using assms(2) by (simp add: notif_enabled_def)
  then have "mounted s" "count_live (sockets s) = 0" "only_newest (sockets s)" "\<not> connected s"
    using assms(1) by (cases "sockets s"; auto simp: notif_wf_def pending_def split: if_splits)+
  then show ?thesis
    by (simp add: TimerFires notif_step_def notif_wf_connect)
next
  case Unmount
  then show ?thesis
    using assms by (cases "sockets s")
      (auto simp: notif_step_def notif_wf_def notif_enabled_def only_newest_def split: if_splits)
qed (use assms in \<open>simp_all add: notif_step_def notif_wf_def\<close>)

lemma notif_wf_start: "notif_wf (notif_start ok)"
  by (simp add: notif_start_def notif_wf_connect only_newest_def)

interpretation notif: reconnecting "\<lambda>s. \<exists>ok. s = notif_start ok" notif_enabled notif_step
  notif_wf "\<lambda>s. count_live (sockets s)" "\<lambda>s. pending (timer s)" mounted
  by unfold_locales (auto simp: notif_wf_start notif_wf_step, simp_all add: notif_wf_def)

interpretation notif_feed: capped_feed receive notifications 50
  "\<lambda>n ns. \<not> list_ex (\<lambda>m. n_id m = n_id n) ns"
  by unfold_locales (auto simp: receive_def)

definition notif_reachable :: "notif_state \<Rightarrow> bool" where
  "notif_reachable s \<longleftrightarrow> reachable (\<lambda>s. \<exists>ok. s = notif_start ok) notif_enabled notif_step s"

lemma notif_ids:
  assumes "notif_reachable s"
  shows "length (notifications s) \<le> 50 \<and> distinct (map n_id (notifications s))"
  using assms unfolding notif_reachable_def
proof (induction rule: reachable.induct)
  case (reach_start s)
  then show ?case by (auto simp: notif_start_def notif_connect_def scheduleReconnect_def)
next
  case (reach_step s e)
  show ?case
  proof (cases e)
    case (OnMessage k now raw)
    have "distinct (map n_id (notifications (receive n s)))" for n
    proof (cases "list_ex (\<lambda>m. n_id m = n_id n) (notifications s)")
      case False
      with reach_step.IH have "distinct (map n_id (n # notifications s))"
        by (auto simp: list_ex_iff)
      then have "distinct (take 50 (map n_id (n # notifications s)))" by (rule distinct_take)
      with False show ?thesis by (simp only: receive_def) (simp add: take_map)
    qed (use reach_step.IH in \<open>simp add: receive_def\<close>)
    with OnMessage reach_step.IH notif_feed.push_bound show ?thesis
      by (auto simp: notif_step_def split: option.splits)
  qed (use reach_step.IH in \<open>auto simp: notif_step_def notif_connect_def scheduleReconnect_def
      o_def if_distrib [of n_id] cong: if_cong\<close>)
qed

text \<open>
  The notification hook keeps exactly one line open: in every state it can reach, a
  mounted hook has either one live socket or one pending reconnect, never two sockets and never
  neither; it says connected exactly when its socket is open; the pending delay lies between 1
  and 30 seconds; the list holds at most 50 notifications with pairwise distinct ids; and an
  unmounted hook has neither socket nor timer.
\<close>

lemma notification_hook_invariant:
  assumes "notif_reachable s"
  shows "count_live (sockets s) + pending (timer s) = (if mounted s then 1 else 0) \<and>
    (mounted s \<longrightarrow> connected s = (sockets s \<noteq> [] \<and> hd (sockets s) = Open)) \<and>
    (\<forall>d. timer s = Some d \<longrightarrow> 1000 \<le> d \<and> d \<le> 30000) \<and>
    length (notifications s) \<le> 50 \<and> distinct (map n_id (notifications s))"
proof -
  have "notif_wf s"
    using assms by (intro notif.reachable_inv) (simp add: notif_reachable_def)
  then show ?thesis
    using notif_ids [OF assms] by (simp add: notif_wf_def delay_ok_def split: option.splits)
qed

lemma notification_hook_invariant_witness:
  "count_live (sockets (notif_step (OnClose 0) (notif_step (OnOpen 0) (notif_start True)))) +
   pending (timer (notif_step (OnClose 0) (notif_step (OnOpen 0) (notif_start True)))) = 1"
proof -
  have "notif_reachable (notif_step (OnClose 0) (notif_step (OnOpen 0) (notif_start True)))"
    unfolding notif_reachable_def
    by (intro reach_step reach_start)
      (auto simp: notif_enabled_def notif_start_def notif_connect_def notif_step_def)
  from notification_hook_invariant [OF this] show ?thesis
    by (simp add: notif_step_def notif_start_def notif_connect_def scheduleReconnect_def)
qed

subsection \<open>use-websocket.ts\<close>

text \<open>
  The effect runs anew when the channel or \<open>enabled\<close> changes. Each run has its own \<open>mounted\<close>
  flag, kept here as the number of the run: a socket and a timer remember the run that made
  them, and \<open>mounted\<close> of a run holds while it is the current one and not cleaned up. The refs
  are shared by all runs. Sockets are listed newest first; \<open>wsRef\<close> is the newest one.
\<close>

record ws_state =
  messages :: "jsv list"
  ws_connected :: bool
  retries :: nat
  ws_timer :: "(nat \<times> int) option"
  ws_sockets :: "(nat \<times> phase) list"
  run :: nat
  effect_on :: bool

definition ws_start :: ws_state where
  "ws_start = \<lparr>messages = [], ws_connected = False, retries = 0, ws_timer = None, ws_sockets = [],
     run = 0, effect_on = False\<rparr>"

definition run_mounted :: "nat \<Rightarrow> ws_state \<Rightarrow> bool" where
  "run_mounted g s \<longleftrightarrow> g = run s \<and> effect_on s"

definition ws_connect :: "nat \<Rightarrow> ws_state \<Rightarrow> ws_state" where
  "ws_connect g s =
     (if \<not> run_mounted g s then s else s\<lparr>ws_sockets := (g, Connecting) # ws_sockets s\<rparr>)"

definition close_newest :: "(nat \<times> phase) list \<Rightarrow> (nat \<times> phase) list" where
  "close_newest ss = (case ss of [] \<Rightarrow> [] | (g, p) # r \<Rightarrow> (g, if live p then Closing else p) # r)"

definition ws_cleanup :: "ws_state \<Rightarrow> ws_state" where
  "ws_cleanup s =
     (if effect_on s
      then s\<lparr>effect_on := False, ws_timer := None, ws_sockets := close_newest (ws_sockets s)\<rparr>
      else s)"

definition ws_effect :: "bool \<Rightarrow> ws_state \<Rightarrow> ws_state" where
  "ws_effect on s =
     (let s' = ws_cleanup s; s1 = s'\<lparr>run := run s' + 1\<rparr>
      in if \<not> on then s1 else ws_connect (run s1) (s1\<lparr>effect_on := True\<rparr>))"

definition set_phase :: "nat \<Rightarrow> phase \<Rightarrow> (nat \<times> phase) list \<Rightarrow> (nat \<times> phase) list" where
  "set_phase k p ss = ss[k := (fst (ss ! k), p)]"

definition ws_onopen :: "nat \<Rightarrow> ws_state \<Rightarrow> ws_state" where
  "ws_onopen k s =
     s\<lparr>ws_sockets := set_phase k Open (ws_sockets s), ws_connected := True, retries := 0,
       ws_timer := None\<rparr>"

definition ws_push :: "jsv \<Rightarrow> ws_state \<Rightarrow> ws_state" where
  "ws_push v s = s\<lparr>messages := take 200 (v # messages s)\<rparr>"

definition ws_onmessage :: "nat \<Rightarrow> string \<Rightarrow> ws_state \<Rightarrow> ws_state" where
  "ws_onmessage k data s =
     (if \<not> run_mounted (fst (ws_sockets s ! k)) s \<or> data = [] then s
      else case json_parse data of None \<Rightarrow> s | Some v \<Rightarrow> ws_push v s)"

definition ws_onclose :: "nat \<Rightarrow> ws_state \<Rightarrow> ws_state" where
  "ws_onclose k s =
     (let g = fst (ws_sockets s ! k);
          s1 = s\<lparr>ws_sockets := set_phase k Closed (ws_sockets s), ws_connected := False\<rparr>
      in if \<not> run_mounted g s then s1
         else s1\<lparr>retries := retries s + 1,
                 ws_timer := Some (g, getReconnectDelay (of_nat (retries s + 1)))\<rparr>)"

text \<open>\<open>send\<close> hands the value on only while the newest socket is open.\<close>

definition ws_send :: "jsv \<Rightarrow> ws_state \<Rightarrow> jsv option" where
  "ws_send v s = (case ws_sockets s of (_, Open) # _ \<Rightarrow> Some v | _ \<Rightarrow> None)"

datatype ws_event =
    Effect bool | WsOpen nat | WsMessage nat string | WsClose nat | WsTimer | Clear

definition ws_step :: "ws_event \<Rightarrow> ws_state \<Rightarrow> ws_state" where
  "ws_step e s =
     (case e of
        Effect on \<Rightarrow> ws_effect on s
      | WsOpen k \<Rightarrow> ws_onopen k s
      | WsMessage k data \<Rightarrow> ws_onmessage k data s
      | WsClose k \<Rightarrow> ws_onclose k s
      | WsTimer \<Rightarrow>
          (case ws_timer s of None \<Rightarrow> s | Some (g, _) \<Rightarrow> ws_connect g (s\<lparr>ws_timer := None\<rparr>))
      | Clear \<Rightarrow> s\<lparr>messages := []\<rparr>)"

text \<open>A socket being closed delivers no more messages but does report its close, later.\<close>

definition ws_enabled :: "ws_event \<Rightarrow> ws_state \<Rightarrow> bool" where
  "ws_enabled e s =
     (case e of
        Effect _ \<Rightarrow> True
      | WsOpen k \<Rightarrow> k < length (ws_sockets s) \<and> snd (ws_sockets s ! k) = Connecting
      | WsMessage k _ \<Rightarrow> k < length (ws_sockets s) \<and> snd (ws_sockets s ! k) = Open
      | WsClose k \<Rightarrow> k < length (ws_sockets s) \<and> snd (ws_sockets s ! k) \<noteq> Closed
      | WsTimer \<Rightarrow> ws_timer s \<noteq> None
      | Clear \<Rightarrow> True)"

definition ws_reachable :: "ws_state \<Rightarrow> bool" where
  "ws_reachable s \<longleftrightarrow> reachable (\<lambda>s. s = ws_start) ws_enabled ws_step s"

definition ws_pending :: "ws_state \<Rightarrow> nat" where
  "ws_pending s = (case ws_timer s of Some _ \<Rightarrow> 1 | None \<Rightarrow> 0)"

definition ws_live :: "ws_state \<Rightarrow> nat" where
  "ws_live s = count_live (map snd (ws_sockets s))"

text \<open>The newest socket alone may be live, and then it belongs to the current run.\<close>

definition ws_wf :: "ws_state \<Rightarrow> bool" where
  "ws_wf s \<longleftrightarrow>
     only_newest (map snd (ws_sockets s)) \<and>
     ws_live s + ws_pending s = (if effect_on s then 1 else 0) \<and>
     (\<forall>(g, p) \<in> set (ws_sockets s).
        g \<le> run s \<and> (live p \<longrightarrow> g = run s) \<and> (p = Closing \<longrightarrow> \<not> run_mounted g s)) \<and>
     (\<forall>g d. ws_timer s = Some (g, d) \<longrightarrow> g = run s \<and> 1000 \<le> d \<and> d \<le> 30000)"

interpretation ws_feed: capped_feed ws_push messages 200 "\<lambda>_ _. True"
  by unfold_locales (simp_all add: ws_push_def)

definition past_ok :: "ws_state \<Rightarrow> bool" where
  "past_ok s \<longleftrightarrow>
     (\<forall>(g, p) \<in> set (ws_sockets s). g \<le> run s \<and> (p = Closing \<longrightarrow> \<not> run_mounted g s))"

lemma ws_wf_iff:
  "ws_wf s \<longleftrightarrow>
     (case ws_sockets s of
        [] \<Rightarrow> ws_pending s = (if effect_on s then 1 else 0)
      | (g, p) # r \<Rightarrow>
          (\<forall>q \<in> snd ` set r. \<not> live q) \<and> (live p \<longrightarrow> g = run s) \<and>
          (if live p then 1 else 0) + ws_pending s = (if effect_on s then 1 else (0 :: nat))) \<and>
     past_ok s \<and>
     (\<forall>g d. ws_timer s = Some (g, d) \<longrightarrow> g = run s \<and> 1000 \<le> d \<and> d \<le> 30000)"
  by (cases "ws_sockets s")
    (auto simp: ws_wf_def past_ok_def only_newest_def ws_live_def split: if_splits)

lemma ws_wf_quiet:
  assumes "\<forall>q \<in> snd ` set (ws_sockets s). \<not> live q" and "ws_timer s = None" and "\<not> effect_on s"
    and "past_ok s"
  shows "ws_wf s"
  using assms by (cases "ws_sockets s") (auto simp: ws_wf_iff ws_pending_def)

lemma ws_wf_connect:
  assumes "\<forall>q \<in> snd ` set (ws_sockets s). \<not> live q" and "ws_timer s = None" and "effect_on s"
    and "past_ok s"
  shows "ws_wf (ws_connect (run s) s)"
  using assms
  by (auto simp: ws_wf_iff ws_connect_def run_mounted_def ws_pending_def past_ok_def)

lemma ws_cleanup_quiet:
  assumes "ws_wf s"
  shows "\<forall>q \<in> snd ` set (ws_sockets (ws_cleanup s)). \<not> live q" "ws_timer (ws_cleanup s) = None"
    "\<not> effect_on (ws_cleanup s)" "past_ok (ws_cleanup s)" "run (ws_cleanup s) = run s"
  using assms
  by (cases "ws_sockets s"; cases "ws_timer s";
      auto simp: ws_cleanup_def ws_wf_iff close_newest_def ws_pending_def past_ok_def
        run_mounted_def split: if_splits)+

lemma ws_wf_effect:
  assumes "ws_wf s"
  shows "ws_wf (ws_effect on s)"
proof -
  let ?c = "ws_cleanup s"
  note q = ws_cleanup_quiet [OF assms]
  have past: "past_ok (?c\<lparr>run := run ?c + 1, effect_on := b\<rparr>)" for b
    using q(4) by (fastforce simp: past_ok_def run_mounted_def)
  show ?thesis
  proof (cases on)
    case True
    have "ws_wf (ws_connect (run (?c\<lparr>run := run ?c + 1, effect_on := True\<rparr>))
        (?c\<lparr>run := run ?c + 1, effect_on := True\<rparr>))"
      by (rule ws_wf_connect) (use q past in simp_all)
    with True show ?thesis by (simp add: ws_effect_def Let_def)
  next
    case False
    have "past_ok (?c\<lparr>run := run ?c + 1\<rparr>)"
      using q(4) by (fastforce simp: past_ok_def run_mounted_def)
    with False show ?thesis
      using q by (simp add: ws_effect_def ws_wf_quiet Let_def)
  qed
qed

lemma set_phase_0 [simp]: "set_phase 0 p (x # r) = (fst x, p) # r"
  by (simp add: set_phase_def)

lemma set_phase_Suc [simp]: "set_phase (Suc k) p (x # r) = x # set_phase k p r"
  by (simp add: set_phase_def)

lemma set_phase_members:
  "k < length r \<Longrightarrow> set (set_phase k p r) \<subseteq> insert (fst (r ! k), p) (set r)"
  by (simp add: set_phase_def set_update_subset_insert)

lemma past_ok_set_phase:
  assumes "past_ok s" and "k < length (ws_sockets s)" and "p \<noteq> Closing"
    and "ws_sockets s' = set_phase k p (ws_sockets s)" "run s' = run s" "effect_on s' = effect_on s"
  shows "past_ok s'"
proof -
  have "fst (ws_sockets s ! k) \<le> run s"
    using assms(1,2) by (auto simp: past_ok_def dest!: nth_mem)
  with assms set_phase_members [OF assms(2), of p] show ?thesis
    unfolding past_ok_def run_mounted_def by fastforce
qed

lemma past_ok_closing:
  "past_ok s \<Longrightarrow> x \<in> set (ws_sockets s) \<Longrightarrow> snd x = Closing \<Longrightarrow> \<not> run_mounted (fst x) s"
  by (auto simp: past_ok_def)

lemma older_not_live:
  "ws_wf s \<Longrightarrow> ws_sockets s = x # r \<Longrightarrow> y \<in> set r \<Longrightarrow> \<not> live (snd y)"
  by (cases x) (auto simp: ws_wf_iff)

lemma ws_wf_onclose:
  assumes wf: "ws_wf s" and k: "k < length (ws_sockets s)" "snd (ws_sockets s ! k) \<noteq> Closed"
  shows "ws_wf (ws_onclose k s)"
proof -
  obtain g p r where s: "ws_sockets s = (g, p) # r" using k by (cases "ws_sockets s") auto
  have past: "past_ok (ws_onclose k s)"
    by (rule past_ok_set_phase [of s k Closed])
      (use wf k in \<open>auto simp: ws_wf_iff ws_onclose_def Let_def\<close>)
  have "delay_ok (Some (getReconnectDelay (of_nat (retries s + 1))))"
    by (rule delay_ok_simps)
  then have d: "1000 \<le> getReconnectDelay (of_nat (retries s + 1))"
    "getReconnectDelay (of_nat (retries s + 1)) \<le> 30000"
    by (simp_all only: delay_ok_def option.case)
  show ?thesis
  proof (cases k)
    case 0
    show ?thesis
    proof (cases "live p")
      case True
      with wf s have m: "g = run s" "effect_on s" "\<forall>q \<in> snd ` set r. \<not> live q"
        by (simp_all add: ws_wf_iff split: if_splits)
      with s 0 have "ws_onclose k s =
          s\<lparr>ws_sockets := (g, Closed) # r, ws_connected := False, retries := retries s + 1,
            ws_timer := Some (g, getReconnectDelay (of_nat (retries s + 1)))\<rparr>"
        by (simp add: ws_onclose_def Let_def run_mounted_def)
      with past d m show ?thesis
        by (simp add: ws_wf_iff ws_pending_def)
    next
      case False
      with k s 0 have "p = Closing" by (cases p) auto
      with wf s have "\<not> run_mounted g s" by (auto simp: ws_wf_iff past_ok_def)
      with s 0 have "ws_onclose k s = s\<lparr>ws_sockets := (g, Closed) # r, ws_connected := False\<rparr>"
        by (simp add: ws_onclose_def Let_def run_mounted_def)
      with wf s past False show ?thesis by (simp add: ws_wf_iff ws_pending_def)
    qed
  next
    case (Suc j)
    then have j: "j < length r" "snd (r ! j) \<noteq> Closed" using k s by auto
    have mem: "r ! j \<in> set r" using j by simp
    with wf s have "\<not> live (snd (r ! j))" by (rule older_not_live)
    with j have "snd (r ! j) = Closing" by (cases "snd (r ! j)") auto
    then have nm: "\<not> run_mounted (fst (r ! j)) s"
      using past_ok_closing [of s "r ! j"] wf s mem by (simp add: ws_wf_iff)
    have old: "\<forall>q \<in> snd ` set (set_phase j Closed r). \<not> live q"
    proof
      fix q assume "q \<in> snd ` set (set_phase j Closed r)"
      then obtain x where x: "x \<in> set (set_phase j Closed r)" "q = snd x" by blast
      then have "x = (fst (r ! j), Closed) \<or> x \<in> set r"
        using set_phase_members [OF j(1), of Closed] by blast
      with x older_not_live [OF wf s] show "\<not> live q" by fastforce
    qed
    have "ws_onclose k s =
        s\<lparr>ws_sockets := (g, p) # set_phase j Closed r, ws_connected := False\<rparr>"
      using Suc s nm by (simp add: ws_onclose_def Let_def run_mounted_def)
    with wf s old past show ?thesis
      by (simp add: ws_wf_iff ws_pending_def)
  qed
qed

lemma ws_wf_onopen:
  assumes wf: "ws_wf s" and k: "k < length (ws_sockets s)" "snd (ws_sockets s ! k) = Connecting"
  shows "ws_wf (ws_onopen k s)"
proof -
  obtain g p r where s: "ws_sockets s = (g, p) # r" using k by (cases "ws_sockets s") auto
  have "k = 0"
  proof (cases k)
    case (Suc j)
    with k s have "r ! j \<in> set r" "live (snd (r ! j))" by auto
    with older_not_live [OF wf s] show ?thesis by blast
  qed
  moreover have "past_ok (ws_onopen k s)"
    by (rule past_ok_set_phase [of s k Open]) (use wf k in \<open>auto simp: ws_wf_iff ws_onopen_def\<close>)
  ultimately show ?thesis
    using wf s k by (auto simp: ws_wf_iff ws_onopen_def ws_pending_def split: option.splits if_splits)
qed

lemma ws_wf_step:
  assumes "ws_wf s" and "ws_enabled e s"
  shows "ws_wf (ws_step e s)"
proof (cases e)
  case (WsMessage k data)
  have "ws_wf (ws_push v s)" for v
    using assms(1) by (simp add: ws_wf_def ws_push_def ws_live_def ws_pending_def run_mounted_def)
  with WsMessage assms(1) show ?thesis
    by (simp add: ws_step_def ws_onmessage_def split: option.splits)
next
  case WsTimer
  with assms(2) obtain g d where t: "ws_timer s = Some (g, d)" by (auto simp: ws_enabled_def)
  with assms(1) have g: "g = run s" by (simp add: ws_wf_def)
  have past: "past_ok s" using assms(1) by (simp add: ws_wf_iff)
  have one: "ws_pending s = 1" using t by (simp add: ws_pending_def)
  have "ws_live s + ws_pending s = (if effect_on s then 1 else 0)"
    using assms(1) by (simp only: ws_wf_def)
  with one have on: "effect_on s" and "ws_live s = 0" by (simp_all split: if_splits)
  then have old: "\<forall>q \<in> snd ` set (ws_sockets s). \<not> live q"
    by (simp add: ws_live_def count_live_def filter_empty_conv)
  have "ws_wf (ws_connect (run (s\<lparr>ws_timer := None\<rparr>)) (s\<lparr>ws_timer := None\<rparr>))"
    using past on old by (intro ws_wf_connect) (simp_all add: past_ok_def run_mounted_def)
  with WsTimer t g show ?thesis by (simp add: ws_step_def)
next
  case Clear
  then show ?thesis
    using assms(1)
    by (simp add: ws_step_def ws_wf_def ws_live_def ws_pending_def run_mounted_def)
qed (use assms in \<open>simp_all add: ws_step_def ws_enabled_def ws_wf_effect ws_wf_onopen
      ws_wf_onclose\<close>)

lemma ws_wf_start: "ws_wf ws_start"
  by (simp add: ws_start_def ws_wf_quiet past_ok_def)

interpretation ws: reconnecting "\<lambda>s. s = ws_start" ws_enabled ws_step ws_wf ws_live ws_pending effect_on
  by unfold_locales (auto simp: ws_wf_start ws_wf_step, simp_all add: ws_wf_def)

lemma ws_messages_bound:
  assumes "ws_reachable s"
  shows "length (messages s) \<le> 200"
  using assms unfolding ws_reachable_def
proof (induction rule: reachable.induct)
  case (reach_step s e)
  have "length (messages (ws_push v s)) \<le> 200" for v
    by (simp add: ws_push_def)
  with reach_step.IH show ?case
    by (cases e)
      (auto simp: ws_step_def ws_effect_def ws_cleanup_def ws_connect_def ws_onopen_def
        ws_onmessage_def ws_onclose_def Let_def split: option.splits)
qed (simp add: ws_start_def)

lemma ws_send_open:
  assumes "ws_send v s \<noteq> None"
  shows "\<exists>g r. ws_sockets s = (g, Open) # r"
proof (cases "ws_sockets s")
  case (Cons x r)
  with assms show ?thesis by (cases x; cases "snd x") (auto simp: ws_send_def)
qed (use assms in \<open>simp add: ws_send_def\<close>)

text \<open>
  The web socket hook holds one connection through any sequence of channel changes,
  openings, closings and timers: while enabled it has exactly one live socket, of the current
  effect run, or exactly one pending reconnect; disabled it has none; the pending delay lies
  between 1 and 30 seconds; at most 200 messages are kept; and what \<open>send\<close> hands on goes to an
  open socket of the current run.
\<close>

lemma websocket_hook_invariant:
  assumes "ws_reachable s"
  shows "ws_live s + ws_pending s = (if effect_on s then 1 else 0) \<and>
    (\<forall>g p. (g, p) \<in> set (ws_sockets s) \<and> live p \<longrightarrow> g = run s) \<and>
    (\<forall>g d. ws_timer s = Some (g, d) \<longrightarrow> g = run s \<and> 1000 \<le> d \<and> d \<le> 30000) \<and>
    length (messages s) \<le> 200 \<and>
    (\<forall>v. ws_send v s \<noteq> None \<longrightarrow> effect_on s \<and> ws_sockets s \<noteq> [] \<and> hd (ws_sockets s) = (run s, Open))"
proof -
  have wf: "ws_wf s"
    using assms by (intro ws.reachable_inv) (simp add: ws_reachable_def)
  moreover have "\<forall>v. ws_send v s \<noteq> None \<longrightarrow>
      effect_on s \<and> ws_sockets s \<noteq> [] \<and> hd (ws_sockets s) = (run s, Open)"
  proof (intro allI impI)
    fix v assume "ws_send v s \<noteq> None"
    then obtain g r where "ws_sockets s = (g, Open) # r" using ws_send_open by blast
    with wf show "effect_on s \<and> ws_sockets s \<noteq> [] \<and> hd (ws_sockets s) = (run s, Open)"
      by (simp add: ws_wf_iff split: if_splits)
  qed
  ultimately show ?thesis
    using ws_messages_bound [OF assms] by (auto simp: ws_wf_def)
qed

definition switched_channel :: ws_state where
  "switched_channel =
     ws_step (WsOpen 0) (ws_step (Effect True) (ws_step (WsOpen 0) (ws_step (Effect True) ws_start)))"

lemma switched_channel_state:
  "switched_channel = \<lparr>messages = [], ws_connected = True, retries = 0, ws_timer = None,
     ws_sockets = [(2, Open), (1, Closing)], run = 2, effect_on = True\<rparr>"
  by (simp add: switched_channel_def ws_step_def ws_start_def ws_effect_def ws_cleanup_def
      ws_connect_def run_mounted_def ws_onopen_def close_newest_def Let_def)

lemma switched_channel_reachable: "ws_reachable switched_channel"
  unfolding ws_reachable_def switched_channel_def
  by (intro reach_step reach_start)
    (simp_all add: ws_enabled_def ws_step_def ws_start_def ws_effect_def ws_cleanup_def
      ws_connect_def run_mounted_def ws_onopen_def close_newest_def Let_def)

lemma websocket_hook_invariant_witness:
  "ws_live switched_channel + ws_pending switched_channel = 1"
  using websocket_hook_invariant [OF switched_channel_reachable]
  by (simp add: switched_channel_state)

text \<open>
  A late close of the old channel's socket makes the hook report a lost connection it
  still has: there is a reachable state in which the socket of the current channel is open, no
  reconnect is pending, and yet \<open>connected\<close> is false, because \<open>onclose\<close> clears the flag before
  it looks whether its own effect run is still mounted.
\<close>

lemma websocket_stale_close:
  "\<exists>s. ws_reachable s \<and> effect_on s \<and> ws_sockets s \<noteq> [] \<and> hd (ws_sockets s) = (run s, Open) \<and>
    ws_pending s = 0 \<and> \<not> ws_connected s"
proof (intro exI conjI)
  let ?s = "ws_step (WsClose 1) switched_channel"
  show "ws_reachable ?s"
    unfolding ws_reachable_def
  proof (rule reach_step)
    show "reachable (\<lambda>s. s = ws_start) ws_enabled ws_step switched_channel"
      using switched_channel_reachable by (simp add: ws_reachable_def)
    show "ws_enabled (WsClose 1) switched_channel"
      by (simp add: ws_enabled_def switched_channel_state)
  qed
qed (simp_all add: switched_channel_state ws_step_def ws_onclose_def run_mounted_def Let_def
    ws_pending_def)

subsection \<open>use-realtime.ts\<close>

text \<open>
  The event stream hook. Unlike the web socket hook it never clears a reconnect timer: a timer
  of an earlier effect run still fires and finds its run unmounted. Closing an event source is
  immediate and reports nothing.
\<close>

record sse_state =
  events :: "jsv list"
  sse_connected :: bool
  sse_retries :: nat
  sse_timers :: "(nat \<times> int) list"
  sources :: "(nat \<times> phase) list"
  sse_run :: nat
  sse_on :: bool

definition sse_start :: sse_state where
  "sse_start = \<lparr>events = [], sse_connected = False, sse_retries = 0, sse_timers = [],
     sources = [], sse_run = 0, sse_on = False\<rparr>"

definition sse_mounted :: "nat \<Rightarrow> sse_state \<Rightarrow> bool" where
  "sse_mounted g s \<longleftrightarrow> g = sse_run s \<and> sse_on s"

definition sse_connect :: "nat \<Rightarrow> sse_state \<Rightarrow> sse_state" where
  "sse_connect g s = (if \<not> sse_mounted g s then s else s\<lparr>sources := (g, Connecting) # sources s\<rparr>)"

definition sse_cleanup :: "sse_state \<Rightarrow> sse_state" where
  "sse_cleanup s =
     (if sse_on s
      then s\<lparr>sse_on := False,
             sources := (case sources s of [] \<Rightarrow> [] | (g, p) # r \<Rightarrow> (g, Closed) # r)\<rparr>
      else s)"

definition sse_effect :: "bool \<Rightarrow> sse_state \<Rightarrow> sse_state" where
  "sse_effect on s =
     (let s' = sse_cleanup s; s1 = s'\<lparr>sse_run := sse_run s' + 1\<rparr>
      in if \<not> on then s1 else sse_connect (sse_run s1) (s1\<lparr>sse_on := True\<rparr>))"

definition sse_delay :: "nat \<Rightarrow> int" where
  "sse_delay n = min (1000 * 2 ^ min n 5) 30000"

definition sse_push :: "jsv \<Rightarrow> sse_state \<Rightarrow> sse_state" where
  "sse_push v s = s\<lparr>events := take 200 (v # events s)\<rparr>"

datatype sse_event =
    SseEffect bool | SseOpen nat | SseMessage nat string | SseError nat | SseTimer nat | SseClear

definition sse_step :: "sse_event \<Rightarrow> sse_state \<Rightarrow> sse_state" where
  "sse_step e s =
     (case e of
        SseEffect on \<Rightarrow> sse_effect on s
      | SseOpen k \<Rightarrow>
          s\<lparr>sources := set_phase k Open (sources s), sse_connected := True, sse_retries := 0\<rparr>
      | SseMessage k data \<Rightarrow>
          (if \<not> sse_mounted (fst (sources s ! k)) s \<or> data = [] then s
           else case json_parse data of None \<Rightarrow> s | Some v \<Rightarrow> sse_push v s)
      | SseError k \<Rightarrow>
          (let g = fst (sources s ! k);
               s1 = s\<lparr>sse_connected := False, sources := set_phase k Closed (sources s)\<rparr>
           in if \<not> sse_mounted g s then s1
              else s1\<lparr>sse_retries := sse_retries s + 1,
                      sse_timers := sse_timers s @ [(g, sse_delay (sse_retries s + 1))]\<rparr>)
      | SseTimer i \<Rightarrow>
          sse_connect (fst (sse_timers s ! i))
            (s\<lparr>sse_timers := take i (sse_timers s) @ drop (Suc i) (sse_timers s)\<rparr>)
      | SseClear \<Rightarrow> s\<lparr>events := []\<rparr>)"

definition sse_enabled :: "sse_event \<Rightarrow> sse_state \<Rightarrow> bool" where
  "sse_enabled e s =
     (case e of
        SseEffect _ \<Rightarrow> True
      | SseOpen k \<Rightarrow> k < length (sources s) \<and> snd (sources s ! k) = Connecting
      | SseMessage k _ \<Rightarrow> k < length (sources s) \<and> snd (sources s ! k) = Open
      | SseError k \<Rightarrow> k < length (sources s) \<and> live (snd (sources s ! k))
      | SseTimer i \<Rightarrow> i < length (sse_timers s)
      | SseClear \<Rightarrow> True)"

definition useSSEChannel_latest :: "sse_state \<Rightarrow> jsv" where
  "useSSEChannel_latest s = (case events s of e # _ \<Rightarrow> get_field e ''data'' | [] \<Rightarrow> JUndef)"

definition sse_live :: "sse_state \<Rightarrow> nat" where
  "sse_live s = count_live (map snd (sources s))"

text \<open>The timers that will connect: those of the current, mounted run.\<close>

definition timers_of :: "nat \<Rightarrow> (nat \<times> int) list \<Rightarrow> nat" where
  "timers_of g ts = length (filter (\<lambda>(h, _). h = g) ts)"

definition sse_pending :: "sse_state \<Rightarrow> nat" where
  "sse_pending s = (if sse_on s then timers_of (sse_run s) (sse_timers s) else 0)"

definition sse_wf :: "sse_state \<Rightarrow> bool" where
  "sse_wf s \<longleftrightarrow>
     only_newest (map snd (sources s)) \<and>
     (\<forall>x \<in> set (sources s). live (snd x) \<longrightarrow> fst x = sse_run s) \<and>
     (\<forall>x \<in> set (sse_timers s). fst x \<le> sse_run s \<and> 1000 \<le> snd x \<and> snd x \<le> 30000) \<and>
     sse_live s + sse_pending s = (if sse_on s then 1 else 0)"

interpretation sse_feed: capped_feed sse_push events 200 "\<lambda>_ _. True"
  by unfold_locales (simp_all add: sse_push_def)

interpretation sse_backoff: backoff sse_delay 30000
proof
  fix n
  show "sse_delay n \<le> sse_delay (Suc n)"
    unfolding sse_delay_def by (intro min.mono mult_left_mono power_increasing) auto
qed (simp_all add: sse_delay_def)

lemma timers_of_append [simp]: "timers_of g (xs @ ys) = timers_of g xs + timers_of g ys"
  by (simp add: timers_of_def)

lemma timers_of_simps [simp]:
  "timers_of g [] = 0" "timers_of g (x # xs) = (if fst x = g then 1 else 0) + timers_of g xs"
  by (auto simp: timers_of_def)

lemma timers_of_none: "\<forall>x \<in> set ts. fst x \<noteq> g \<Longrightarrow> timers_of g ts = 0"
  by (auto simp: timers_of_def filter_empty_conv)

lemma timers_of_remove:
  assumes "i < length ts"
  shows "timers_of g (take i ts @ drop (Suc i) ts) + (if fst (ts ! i) = g then 1 else 0) =
    timers_of g ts"
  by (subst (3) id_take_nth_drop [OF assms]) simp

lemma sse_wf_connect:
  assumes "\<forall>x \<in> set (sources s). \<not> live (snd x)" and "sse_on s"
    and "\<forall>x \<in> set (sse_timers s). fst x \<le> sse_run s \<and> 1000 \<le> snd x \<and> snd x \<le> 30000"
    and "timers_of (sse_run s) (sse_timers s) = 0"
  shows "sse_wf (sse_connect (sse_run s) s)"
  using assms
  by (auto simp: sse_wf_def sse_connect_def sse_mounted_def only_newest_def sse_live_def
      sse_pending_def count_live_def filter_empty_conv)

lemma sse_dead:
  "sse_live s = 0 \<Longrightarrow> \<forall>x \<in> set (sources s). \<not> live (snd x)"
  by (simp add: sse_live_def count_live_def filter_empty_conv)

lemma sse_newest:
  assumes "sse_wf s" and "k < length (sources s)" and "live (snd (sources s ! k))"
  obtains p r where "k = 0" "sources s = (sse_run s, p) # r" "live p" "sse_on s"
    "timers_of (sse_run s) (sse_timers s) = 0" "\<forall>x \<in> set r. \<not> live (snd x)"
proof -
  have k0: "k = 0" and one: "sse_live s = 1"
    using only_newest_live [of "map snd (sources s)" k] assms by (simp_all add: sse_wf_def sse_live_def)
  obtain g p r where s: "sources s = (g, p) # r" using assms(2) by (cases "sources s") auto
  with k0 assms(3) have "live p" by simp
  moreover from assms(1) s \<open>live p\<close> have "g = sse_run s" by (simp add: sse_wf_def)
  moreover have tok: "sse_live s + sse_pending s = (if sse_on s then 1 else 0)"
    using assms(1) by (simp only: sse_wf_def)
  with one have "sse_on s" "sse_pending s = 0" by (simp_all split: if_splits)
  moreover have "\<forall>x \<in> set r. \<not> live (snd x)"
    using assms(1) s by (simp add: sse_wf_def only_newest_def)
  ultimately show thesis using that k0 s by (simp add: sse_pending_def)
qed

lemma sse_wf_effect:
  assumes "sse_wf s"
  shows "sse_wf (sse_effect on s)"
proof -
  let ?c = "sse_cleanup s" let ?n = "?c\<lparr>sse_run := sse_run ?c + 1\<rparr>"
  have old: "\<forall>x \<in> set (sources ?c). \<not> live (snd x)"
  proof (cases "sse_on s")
    case True
    then show ?thesis
      using assms by (cases "sources s") (auto simp: sse_cleanup_def sse_wf_def only_newest_def)
  next
    case False
    then have "sse_live s = 0" using assms by (simp add: sse_wf_def)
    with False show ?thesis by (simp add: sse_cleanup_def sse_dead)
  qed
  have c: "sse_run ?c = sse_run s" "sse_timers ?c = sse_timers s" "\<not> sse_on ?c"
    by (simp_all add: sse_cleanup_def)
  have t: "\<forall>x \<in> set (sse_timers s). fst x \<le> sse_run s \<and> 1000 \<le> snd x \<and> snd x \<le> 30000"
    using assms unfolding sse_wf_def by blast
  then have t': "\<forall>x \<in> set (sse_timers s). fst x \<le> Suc (sse_run s) \<and> 1000 \<le> snd x \<and> snd x \<le> 30000"
    by (auto intro: le_SucI)
  have none: "timers_of (Suc (sse_run s)) (sse_timers s) = 0"
    by (rule timers_of_none) (use t in fastforce)
  show ?thesis
  proof (cases on)
    case True
    have "sse_wf (sse_connect (sse_run (?n\<lparr>sse_on := True\<rparr>)) (?n\<lparr>sse_on := True\<rparr>))"
      by (rule sse_wf_connect) (use old c t' none in simp_all)
    with True show ?thesis by (simp add: sse_effect_def Let_def)
  next
    case False
    have "only_newest (map snd (sources ?c))"
      using old by (cases "sources ?c") (auto simp: only_newest_def)
    with False old c t' show ?thesis
      by (simp add: sse_effect_def Let_def sse_wf_def sse_live_def sse_pending_def)
  qed
qed

lemma sse_wf_step:
  assumes "sse_wf s" and "sse_enabled e s"
  shows "sse_wf (sse_step e s)"
proof (cases e)
  case (SseEffect on)
  with assms show ?thesis by (simp add: sse_step_def sse_wf_effect)
next
  case (SseOpen k)
  with assms have "k < length (sources s)" "live (snd (sources s ! k))"
    by (auto simp: sse_enabled_def)
  from sse_newest [OF assms(1) this] obtain p r where r: "k = 0" "sources s = (sse_run s, p) # r"
    "live p" "sse_on s" "timers_of (sse_run s) (sse_timers s) = 0" "\<forall>x \<in> set r. \<not> live (snd x)" .
  with SseOpen assms(1) show ?thesis
    by (simp add: sse_step_def sse_wf_def only_newest_def sse_live_def sse_pending_def)
next
  case (SseMessage k data)
  have "sse_wf (sse_push v s)" for v
    using assms(1)
    by (cases "sse_on s") (simp_all add: sse_wf_def sse_push_def sse_live_def sse_pending_def)
  with SseMessage assms(1) show ?thesis by (simp add: sse_step_def split: option.splits)
next
  case (SseError k)
  with assms have "k < length (sources s)" "live (snd (sources s ! k))"
    by (auto simp: sse_enabled_def)
  from sse_newest [OF assms(1) this] obtain p r where r: "k = 0" "sources s = (sse_run s, p) # r"
    "live p" "sse_on s" "timers_of (sse_run s) (sse_timers s) = 0" "\<forall>x \<in> set r. \<not> live (snd x)" .
  have "1000 \<le> sse_delay (sse_retries s + 1)" "sse_delay (sse_retries s + 1) \<le> 30000"
    using sse_backoff.delay_mono [of 0 "sse_retries s + 1"] sse_backoff.delay_limit
    by (simp_all add: sse_delay_def)
  with SseError r assms(1) show ?thesis
    by (auto simp: sse_step_def sse_wf_def sse_mounted_def only_newest_def sse_live_def
        sse_pending_def Let_def)
next
  case (SseTimer i)
  with assms(2) have i: "i < length (sse_timers s)" by (simp add: sse_enabled_def)
  let ?ts = "take i (sse_timers s) @ drop (Suc i) (sse_timers s)"
  let ?g = "fst (sse_timers s ! i)"
  note rem = timers_of_remove [OF i, of "sse_run s"]
  have sub: "set ?ts \<subseteq> set (sse_timers s)" by (auto dest: in_set_takeD in_set_dropD)
  have tok: "sse_live s + sse_pending s = (if sse_on s then 1 else 0)"
    and times: "\<forall>x \<in> set (sse_timers s). fst x \<le> sse_run s \<and> 1000 \<le> snd x \<and> snd x \<le> 30000"
    using assms(1) unfolding sse_wf_def by blast+
  with sub have times': "\<forall>x \<in> set ?ts. fst x \<le> sse_run s \<and> 1000 \<le> snd x \<and> snd x \<le> 30000"
    by (meson subsetD)
  show ?thesis
  proof (cases "sse_mounted ?g s")
    case True
    then have g: "?g = sse_run s" "sse_on s" by (simp_all add: sse_mounted_def)
    with tok rem have "sse_live s = 0" "timers_of (sse_run s) ?ts = 0"
      by (simp_all add: sse_pending_def)
    then have "sse_wf (sse_connect (sse_run (s\<lparr>sse_timers := ?ts\<rparr>)) (s\<lparr>sse_timers := ?ts\<rparr>))"
      using g(2) times' by (intro sse_wf_connect) (simp_all add: sse_dead)
    with SseTimer g show ?thesis by (simp add: sse_step_def)
  next
    case False
    then have "sse_step e s = s\<lparr>sse_timers := ?ts\<rparr>"
      by (simp add: SseTimer sse_step_def sse_connect_def sse_mounted_def)
    moreover have "sse_pending (s\<lparr>sse_timers := ?ts\<rparr>) = sse_pending s"
      using False rem by (auto simp: sse_pending_def sse_mounted_def)
    ultimately show ?thesis using assms(1) times' tok by (simp add: sse_wf_def sse_live_def)
  qed
next
  case SseClear
  with assms(1) show ?thesis
    by (auto simp: sse_step_def sse_wf_def sse_live_def sse_pending_def split: if_splits)
qed

lemma sse_wf_start: "sse_wf sse_start"
  by (simp add: sse_start_def sse_wf_def only_newest_def sse_live_def sse_pending_def)

interpretation sse: reconnecting "\<lambda>s. s = sse_start" sse_enabled sse_step sse_wf sse_live sse_pending
  sse_on
  by unfold_locales (auto simp: sse_wf_start sse_wf_step, simp_all add: sse_wf_def)

text \<open>
  The event stream hook never opens two streams and never gives up: although it leaves
  old timers running, in every reachable state an enabled hook has exactly one live stream or
  exactly one timer of its own run, and a disabled one none; every pending delay lies between 1
  and 30 seconds.
\<close>

lemma sse_hook_invariant:
  assumes "reachable (\<lambda>s. s = sse_start) sse_enabled sse_step s"
  shows "sse_live s + sse_pending s = (if sse_on s then 1 else 0) \<and>
    (\<forall>x \<in> set (sources s). live (snd x) \<longrightarrow> fst x = sse_run s) \<and>
    (\<forall>x \<in> set (sse_timers s). 1000 \<le> snd x \<and> snd x \<le> 30000)"
  using sse.reachable_inv [OF assms] by (simp add: sse_wf_def)

lemma sse_hook_invariant_witness:
  "sse_live (sse_step (SseEffect True) (sse_step (SseError 0) (sse_step (SseEffect True) sse_start))) = 1"
proof -
  let ?s = "sse_step (SseEffect True) (sse_step (SseError 0) (sse_step (SseEffect True) sse_start))"
  have "reachable (\<lambda>s. s = sse_start) sse_enabled sse_step ?s"
    by (intro reach_step reach_start)
      (simp_all add: sse_enabled_def sse_step_def sse_start_def sse_effect_def sse_cleanup_def
        sse_connect_def sse_mounted_def Let_def)
  from sse_hook_invariant [OF this] show ?thesis
    by (simp add: sse_pending_def sse_step_def sse_start_def sse_effect_def sse_cleanup_def
        sse_connect_def sse_mounted_def Let_def)
qed

end
