(* ===== verification/Api_Client.thy ===== *)
theory Api_Client
  imports Auth_Session Api_Errors
begin

section \<open>The API client: headers, the shared token refresh, the auth calls\<close>

text \<open>
  \<open>frontend/src/lib/api.ts\<close>, up to its endpoint catalogue. axios sends the requests: it calls
  the request interceptor before each send, the response interceptor with each answer whose
  status is not 2xx and with each transport failure, and keeps the additional fields of a
  configuration when it is sent again. Those calls are the events of a step relation; what the
  interceptors do is the model.
\<close>

subsection \<open>The CSRF cookie\<close>

definition csrf_value :: "string \<Rightarrow> string" where
  "csrf_value s = takeWhile (\<lambda>c. c \<noteq> CHR '';'') s"

text \<open>The first match of \<open>(?:^|; )csrf_token=([^;]*)\<close>: at the start, else after a separator.\<close>

fun csrf_after_separator :: "string \<Rightarrow> string option" where
  "csrf_after_separator [] = None"
| "csrf_after_separator (c # cs) =
     (if starts_with (c # cs) ''; csrf_token='' then Some (csrf_value (drop 13 (c # cs)))
      else csrf_after_separator cs)"

definition csrf_match :: "string \<Rightarrow> string option" where
  "csrf_match s =
     (if starts_with s ''csrf_token='' then Some (csrf_value (drop 11 s))
      else csrf_after_separator s)"

text \<open>\<open>None\<close>: no document. \<open>decodeURIComponent\<close> throws on a malformed escape (\<open>Inl\<close>).\<close>

definition getCsrfToken :: "string option \<Rightarrow> unit + string option" where
  "getCsrfToken document =
     (case document of
        None \<Rightarrow> Inr None
      | Some cookie \<Rightarrow>
          (case csrf_match cookie of
             None \<Rightarrow> Inr None
           | Some v \<Rightarrow>
               (case decode_uri_component v of Some d \<Rightarrow> Inr (Some d) | None \<Rightarrow> Inl ())))"

type_synonym headers = "(string, string) js_map"

definition csrfHeaders :: "string option \<Rightarrow> unit + headers" where
  "csrfHeaders document =
     (case getCsrfToken document of
        Inl e \<Rightarrow> Inl e
      | Inr csrf \<Rightarrow> Inr (if falsy_string csrf then [] else [(''x-csrf-token'', the csrf)]))"

definition bearer_header :: "string \<Rightarrow> string" where
  "bearer_header token = ''Bearer '' @ token"

text \<open>The request interceptor.\<close>

definition writes :: "string option \<Rightarrow> bool" where
  "writes meth \<longleftrightarrow> (case meth of None \<Rightarrow> False
     | Some m \<Rightarrow> m \<noteq> [] \<and> to_lower m \<notin> {''get'', ''head'', ''options''})"

definition request_interceptor ::
  "auth_state \<Rightarrow> string option \<Rightarrow> string option \<Rightarrow> headers \<Rightarrow> unit + headers"
where
  "request_interceptor session document meth hs =
     (let hs1 = (if falsy_string (getAccessToken session) then hs
                 else map_set ''Authorization'' (bearer_header (the (getAccessToken session))) hs)
      in if writes meth then
           (case getCsrfToken document of
              Inl e \<Rightarrow> Inl e
            | Inr csrf \<Rightarrow>
                Inr (if falsy_string csrf then hs1 else map_set ''x-csrf-token'' (the csrf) hs1))
         else Inr hs1)"

text \<open>A cookie jar as the browser prints it.\<close>

definition cookie_string :: "(string \<times> string) list \<Rightarrow> string" where
  "cookie_string cs = join_with ''; '' (map (\<lambda>(n, v). n @ ''='' @ v) cs)"

definition cookie_ok :: "string \<times> string \<Rightarrow> bool" where
  "cookie_ok c \<longleftrightarrow> CHR '';'' \<notin> set (fst c) \<and> CHR ''='' \<notin> set (fst c) \<and> CHR '';'' \<notin> set (snd c)"

lemma csrf_value_stops: "CHR '';'' \<notin> set v \<Longrightarrow> csrf_value (v @ CHR '';'' # r) = v"
  by (induction v) (auto simp: csrf_value_def)

lemma csrf_value_all: "CHR '';'' \<notin> set v \<Longrightarrow> csrf_value v = v"
  by (induction v) (auto simp: csrf_value_def)

lemma starts_with_append_cases:
  "starts_with (u @ v) p \<Longrightarrow> length u < length p \<Longrightarrow> starts_with p u"
  by (auto simp: starts_with_def) (metis append_eq_conv_conj take_take min.absorb4)

lemma csrf_after_skip:
  assumes "CHR '';'' \<notin> set u"
  shows "csrf_after_separator (u @ v) = csrf_after_separator v"
  using assms by (induction u) (auto simp: starts_with_def)

lemma name_starts_csrf:
  assumes "CHR ''='' \<notin> set n"
  shows "starts_with (n @ CHR ''='' # v) ''csrf_token='' \<longleftrightarrow> n = ''csrf_token''"
proof
  assume s: "starts_with (n @ CHR ''='' # v) ''csrf_token=''"
  let ?k = "''csrf_token=''"
  have pre: "prefix ?k (n @ CHR ''='' # v)" using s by (simp add: starts_with_iff_prefix)
  then obtain w where w: "n @ CHR ''='' # v = ''csrf_token'' @ CHR ''='' # w"
    by (auto elim: prefixE)
  have "takeWhile (\<lambda>c. c \<noteq> CHR ''='') (n @ CHR ''='' # v) = n"
    using assms by (simp add: takeWhile_append)
  moreover have "takeWhile (\<lambda>c. c \<noteq> CHR ''='') (''csrf_token'' @ CHR ''='' # w) = ''csrf_token''"
    by simp
  ultimately show "n = ''csrf_token''" using w by metis
qed (simp add: starts_with_def)

lemma cookie_string_Cons:
  "cookie_string ((n, v) # cs) =
     n @ CHR ''='' # v @ (if cs = [] then [] else ''; '' @ cookie_string cs)"
  by (cases cs) (auto simp: cookie_string_def)

lemma cookie_tail_value:
  assumes "CHR '';'' \<notin> set v"
  shows "csrf_value (v @ (if cs = [] then [] else ''; '' @ cookie_string cs)) = v"
  using assms by (simp add: csrf_value_stops csrf_value_all)

lemma csrf_match_first:
  assumes "cookie_ok (n, v)"
  shows "csrf_match (n @ CHR ''='' # v @ (if cs = [] then [] else ''; '' @ cookie_string cs)) =
    (if n = ''csrf_token'' then Some v
     else csrf_after_separator (if cs = [] then [] else ''; '' @ cookie_string cs))"
proof -
  have n: "CHR ''='' \<notin> set n" and semi: "CHR '';'' \<notin> set (n @ CHR ''='' # v)" "CHR '';'' \<notin> set v"
    using assms by (auto simp: cookie_ok_def)
  show ?thesis
    using name_starts_csrf [OF n] csrf_after_skip [OF semi(1)] cookie_tail_value [OF semi(2)]
    by (auto simp: csrf_match_def)
qed

lemma csrf_after_cookies:
  assumes "\<forall>c \<in> set cs. cookie_ok c" and "cs \<noteq> []"
  shows "csrf_after_separator (''; '' @ cookie_string cs) = map_of cs ''csrf_token''"
  using assms
proof (induction cs)
  case (Cons c cs)
  obtain n v where c: "c = (n, v)" by (cases c)
  let ?t = "if cs = [] then [] else ''; '' @ cookie_string cs"
  have ok: "CHR ''='' \<notin> set n" "CHR '';'' \<notin> set (n @ CHR ''='' # v)" "CHR '';'' \<notin> set v"
    using Cons.prems c by (auto simp: cookie_ok_def)
  have step: "csrf_after_separator (''; '' @ x) =
      (if starts_with x ''csrf_token='' then Some (csrf_value (drop 11 x)) else csrf_after_separator x)"
    for x by (auto simp: starts_with_def)
  have "csrf_after_separator ?t = map_of cs ''csrf_token''"
    using Cons by (cases "cs = []") auto
  moreover have "starts_with (n @ CHR ''='' # (v @ ?t)) ''csrf_token='' \<longleftrightarrow> n = ''csrf_token''"
    by (rule name_starts_csrf [OF ok(1)])
  ultimately have "csrf_after_separator (''; '' @ (n @ CHR ''='' # (v @ ?t))) =
      (if n = ''csrf_token'' then Some v else map_of cs ''csrf_token'')"
    using step [of "n @ CHR ''='' # (v @ ?t)"] csrf_after_skip [OF ok(2)] cookie_tail_value [OF ok(3)]
    by auto
  then show ?case by (simp only: c cookie_string_Cons) auto
qed simp

lemma csrf_match_cookies:
  assumes "\<forall>c \<in> set cs. cookie_ok c"
  shows "csrf_match (cookie_string cs) = map_of cs ''csrf_token''"
proof (cases cs)
  case Nil
  then show ?thesis by (simp add: cookie_string_def csrf_match_def starts_with_def)
next
  case (Cons c cs')
  obtain n v where c: "c = (n, v)" by (cases c)
  then have "csrf_match (cookie_string cs) = (if n = ''csrf_token'' then Some v
     else csrf_after_separator (if cs' = [] then [] else ''; '' @ cookie_string cs'))"
    using csrf_match_first [of n v cs'] assms Cons by (simp add: cookie_string_Cons)
  with assms Cons c csrf_after_cookies [of cs'] show ?thesis by auto
qed

subsection \<open>The shared refresh\<close>

text \<open>
  A request in flight. \<open>Waiting leader tok\<close>: its handler awaits \<open>refreshPromise\<close>, as the one that
  started it or as one that joined; \<open>tok\<close> is what the promise resolved to (\<open>Some None\<close>: null).
  \<open>Backoff\<close>: the retry interceptor waits before it sends the configuration again. A request that
  is sent again from an interceptor runs the whole chain of its own; the interceptors its answer
  meets afterwards, in the outer chain, see the same error and configuration and pass it on.
\<close>

datatype verdict = Resolved | Rejected

datatype flight_phase = Sent | Waiting bool "string option option" | Backoff | Settled verdict

record flight =
  fl_config :: request_config
  fl_headers :: headers
  fl_retry :: bool \<comment> \<open>\<open>_retry\<close>\<close>
  fl_sends :: nat
  fl_phase :: flight_phase

record client =
  session :: auth_state
  document :: "string option"
  page :: "string option" \<comment> \<open>path and query of the window, if there is one\<close>
  flights :: "flight list"
  refresh_on :: bool \<comment> \<open>\<open>refreshPromise\<close> is not null\<close>
  refreshes :: nat
  redirected :: "string option" \<comment> \<open>\<open>window.location.href\<close>\<close>

text \<open>A send runs the request interceptor; when that throws, the request is rejected unsent.\<close>

definition send_flight :: "client \<Rightarrow> flight \<Rightarrow> flight" where
  "send_flight c f =
     (case request_interceptor (session c) (document c) (cfg_method (fl_config f)) (fl_headers f) of
        Inl e \<Rightarrow> f\<lparr>fl_phase := Settled Rejected\<rparr>
      | Inr hs \<Rightarrow> f\<lparr>fl_headers := hs, fl_sends := fl_sends f + 1, fl_phase := Sent\<rparr>)"

definition new_flight :: "string option \<Rightarrow> string \<Rightarrow> flight" where
  "new_flight meth url =
     \<lparr>fl_config = \<lparr>cfg_method = meth, cfg_url = url, retryCount = None\<rparr>, fl_headers = [],
      fl_retry = False, fl_sends = 0, fl_phase = Sent\<rparr>"

definition api_call :: "string option \<Rightarrow> string \<Rightarrow> client \<Rightarrow> client" where
  "api_call meth url c = c\<lparr>flights := flights c @ [send_flight c (new_flight meth url)]\<rparr>"

definition put_flight :: "nat \<Rightarrow> flight \<Rightarrow> client \<Rightarrow> client" where
  "put_flight k f c = c\<lparr>flights := (flights c)[k := f]\<rparr>"

text \<open>
  The answer to a sent request, \<open>None\<close> for a 2xx. A rejection of the refresh interceptor meets
  the retry interceptor, which reads the configuration of the failed request. The refresh call of
  the leader is sent when its handler first suspends, with \<open>csrfHeaders()\<close>; when those throw, the
  handler rejects before \<open>refreshPromise\<close> is set, with an error that has no configuration.
\<close>

definition on_rejected :: "nat \<Rightarrow> api_error \<Rightarrow> client \<Rightarrow> client" where
  "on_rejected k e c =
     (let f = flights c ! k
      in case retry_interceptor (e\<lparr>err_config := Some (fl_config f)\<rparr>) of
           Reject \<Rightarrow> put_flight k (f\<lparr>fl_phase := Settled Rejected\<rparr>) c
         | Resend cfg attempt \<Rightarrow> put_flight k (f\<lparr>fl_config := cfg, fl_phase := Backoff\<rparr>) c)"

definition on_answer :: "nat \<Rightarrow> api_error option \<Rightarrow> client \<Rightarrow> client" where
  "on_answer k failure c =
     (let f = flights c ! k
      in case failure of
           None \<Rightarrow> put_flight k (f\<lparr>fl_phase := Settled Resolved\<rparr>) c
         | Some e \<Rightarrow>
             if err_status e \<noteq> Some 401 \<or> fl_retry f then on_rejected k e c
             else if refresh_on c then
               put_flight k (f\<lparr>fl_retry := True, fl_phase := Waiting False None\<rparr>) c
             else
               (case csrfHeaders (document c) of
                  Inl _ \<Rightarrow> put_flight k (f\<lparr>fl_retry := True, fl_phase := Settled Rejected\<rparr>) c
                | Inr hs \<Rightarrow>
                    (put_flight k (f\<lparr>fl_retry := True, fl_phase := Waiting True None\<rparr>) c)
                      \<lparr>refresh_on := True, refreshes := refreshes c + 1\<rparr>))"

text \<open>The refresh call ends: \<open>None\<close> when it failed, else its body.\<close>

definition refreshed_token :: "jsv option \<Rightarrow> string option" where
  "refreshed_token body =
     (case body of
        None \<Rightarrow> None
      | Some data \<Rightarrow>
          (case get_field data ''token'' of JStr s \<Rightarrow> if s = [] then None else Some s | _ \<Rightarrow> None))"

definition resolve_wait :: "string option \<Rightarrow> flight \<Rightarrow> flight" where
  "resolve_wait tok f =
     (case fl_phase f of
        Waiting l None \<Rightarrow> f\<lparr>fl_phase := Waiting l (Some tok)\<rparr>
      | _ \<Rightarrow> f)"

definition on_refreshed :: "jsv option \<Rightarrow> client \<Rightarrow> client" where
  "on_refreshed body c =
     (let tok = refreshed_token body
      in c\<lparr>session := (case tok of Some t \<Rightarrow> setTokens t (session c) | None \<Rightarrow> session c),
           refresh_on := False, flights := map (resolve_wait tok) (flights c)\<rparr>)"

text \<open>
  The handler that awaited the promise goes on; without a token it rejects with the 401, which
  the retry interceptor passes on (401 is not among \<open>RETRYABLE_STATUSES\<close>).
\<close>

definition on_resume :: "nat \<Rightarrow> client \<Rightarrow> client" where
  "on_resume k c =
     (let f = flights c ! k
      in case fl_phase f of
           Waiting leader (Some (Some t)) \<Rightarrow>
             put_flight k
               (send_flight c
                 (f\<lparr>fl_headers := map_set ''Authorization'' (bearer_header t) (fl_headers f)\<rparr>)) c
         | Waiting leader (Some None) \<Rightarrow>
             (if leader then
                (put_flight k (f\<lparr>fl_phase := Settled Rejected\<rparr>) c)
                  \<lparr>session := clearAuth (session c),
                   redirected := (case page c of
                       Some p \<Rightarrow> Some (''/login?redirect='' @ encode_uri_component p)
                     | None \<Rightarrow> redirected c)\<rparr>
              else put_flight k (f\<lparr>fl_phase := Settled Rejected\<rparr>) c)
         | _ \<Rightarrow> c)"

text \<open>The retry interceptor has waited.\<close>

definition on_wake :: "nat \<Rightarrow> client \<Rightarrow> client" where
  "on_wake k c = put_flight k (send_flight c (flights c ! k)) c"

datatype client_event =
    Call "string option" string
  | Answer nat "api_error option"
  | RefreshAnswer "jsv option"
  | Resume nat
  | Wake nat

fun client_step :: "client_event \<Rightarrow> client \<Rightarrow> client" where
  "client_step (Call meth url) c = api_call meth url c"
| "client_step (Answer k failure) c = on_answer k failure c"
| "client_step (RefreshAnswer body) c = on_refreshed body c"
| "client_step (Resume k) c = on_resume k c"
| "client_step (Wake k) c = on_wake k c"

fun client_enabled :: "client_event \<Rightarrow> client \<Rightarrow> bool" where
  "client_enabled (Call meth url) c = True"
| "client_enabled (Answer k failure) c = (k < length (flights c) \<and> fl_phase (flights c ! k) = Sent)"
| "client_enabled (RefreshAnswer body) c = refresh_on c"
| "client_enabled (Resume k) c =
     (k < length (flights c) \<and> (\<exists>l t. fl_phase (flights c ! k) = Waiting l (Some t)))"
| "client_enabled (Wake k) c = (k < length (flights c) \<and> fl_phase (flights c ! k) = Backoff)"

definition client_start :: "client \<Rightarrow> bool" where
  "client_start c \<longleftrightarrow> flights c = [] \<and> \<not> refresh_on c \<and> refreshes c = 0 \<and> redirected c = None"

definition client_reachable :: "client \<Rightarrow> bool" where
  "client_reachable c \<longleftrightarrow> reachable client_start client_enabled client_step c"

definition leads :: "flight \<Rightarrow> bool" where
  "leads f \<longleftrightarrow> fl_phase f = Waiting True None"

definition unresolved :: "flight \<Rightarrow> bool" where
  "unresolved f \<longleftrightarrow> (\<exists>l. fl_phase f = Waiting l None)"

definition how_many :: "(flight \<Rightarrow> bool) \<Rightarrow> client \<Rightarrow> nat" where
  "how_many P c = length (filter P (flights c))"

definition retried :: "flight \<Rightarrow> nat" where
  "retried f = (case retryCount (fl_config f) of Some n \<Rightarrow> n | None \<Rightarrow> 0)"

text \<open>Sends a flight may have behind it; \<open>owed\<close> counts one it is about to make.\<close>

definition send_budget :: "flight \<Rightarrow> nat" where
  "send_budget f = 1 + retried f + (if fl_retry f then 1 else 0)"

definition owed :: "flight \<Rightarrow> nat" where
  "owed f = (case fl_phase f of Waiting l t \<Rightarrow> 1 | Backoff \<Rightarrow> 1 | _ \<Rightarrow> 0)"

definition flight_ok :: "flight \<Rightarrow> bool" where
  "flight_ok f \<longleftrightarrow>
     fl_sends f + owed f \<le> send_budget f \<and> retried f \<le> RETRY_MAX_ATTEMPTS \<and>
     (0 < retried f \<longrightarrow> isIdempotentMethod (cfg_method (fl_config f))) \<and>
     ((\<exists>l t. fl_phase f = Waiting l t) \<longrightarrow> fl_retry f) \<and> (fl_phase f = Backoff \<longrightarrow> 0 < retried f)"

lemmas flight_ok_defs = flight_ok_def send_budget_def owed_def retried_def

definition client_inv :: "client \<Rightarrow> bool" where
  "client_inv c \<longleftrightarrow>
     (\<forall>f \<in> set (flights c). flight_ok f) \<and>
     how_many leads c = (if refresh_on c then 1 else 0) \<and>
     (\<not> refresh_on c \<longrightarrow> how_many unresolved c = 0) \<and>
     refreshes c \<le> how_many fl_retry c"

lemma how_many_put:
  assumes "k < length (flights c)"
  shows "how_many P (put_flight k f c) + (if P (flights c ! k) then 1 else 0) =
    how_many P c + (if P f then 1 else 0)"
  using length_filter_update [OF assms, of P f] by (simp add: how_many_def put_flight_def)

lemma put_flight_simps [simp]:
  "refresh_on (put_flight k f c) = refresh_on c" "refreshes (put_flight k f c) = refreshes c"
  "session (put_flight k f c) = session c" "flights (put_flight k f c) = (flights c)[k := f]"
  by (simp_all add: put_flight_def)

lemma how_many_fields [simp]:
  "how_many P (c\<lparr>refresh_on := b\<rparr>) = how_many P c"
  "how_many P (c\<lparr>refreshes := n\<rparr>) = how_many P c"
  "how_many P (c\<lparr>session := s\<rparr>) = how_many P c"
  "how_many P (c\<lparr>redirected := r\<rparr>) = how_many P c"
  by (simp_all add: how_many_def)

lemma send_flight_simps [simp]:
  "fl_retry (send_flight c f) = fl_retry f" "\<not> leads (send_flight c f)" "\<not> unresolved (send_flight c f)"
  by (auto simp: send_flight_def leads_def unresolved_def split: sum.splits)

lemma send_flight_ok:
  assumes "fl_sends f < send_budget f" and "retried f \<le> RETRY_MAX_ATTEMPTS"
    and "0 < retried f \<longrightarrow> isIdempotentMethod (cfg_method (fl_config f))"
  shows "flight_ok (send_flight c f)"
  using assms by (auto simp: send_flight_def flight_ok_defs split: sum.splits)

lemma owed_send_ok:
  assumes "flight_ok f" and "owed f = 1"
  shows "flight_ok (send_flight c f)"
  using assms by (intro send_flight_ok) (auto simp: flight_ok_def)

lemma settled_simps [simp]:
  "\<not> leads (f\<lparr>fl_phase := Settled v\<rparr>)" "\<not> unresolved (f\<lparr>fl_phase := Settled v\<rparr>)"
  "leads (f\<lparr>fl_phase := Waiting l None\<rparr>) = l" "unresolved (f\<lparr>fl_phase := Waiting l None\<rparr>)"
  by (simp_all add: leads_def unresolved_def)

lemma settled_ok: "flight_ok f \<Longrightarrow> flight_ok (f\<lparr>fl_phase := Settled v\<rparr>)"
  by (auto simp: flight_ok_defs)

text \<open>Replacing one flight: what has to hold of the new one.\<close>

lemma client_inv_put:
  assumes "client_inv c" and k: "k < length (flights c)" and "flight_ok f"
    and "\<not> leads (flights c ! k)" "\<not> leads f"
    and "unresolved f \<longrightarrow> refresh_on c" and "fl_retry (flights c ! k) \<longrightarrow> fl_retry f"
  shows "client_inv (put_flight k f c)"
proof -
  have "flight_ok g" if "g \<in> set ((flights c)[k := f])" for g
    using that assms(1,3) set_update_subset_insert [of "flights c" k f] by (auto simp: client_inv_def)
  then show ?thesis
    using assms how_many_put [OF k, of leads f] how_many_put [OF k, of unresolved f]
      how_many_put [OF k, of fl_retry f]
    by (auto simp: client_inv_def split: if_splits)
qed

lemma client_inv_settle:
  assumes "client_inv c" "k < length (flights c)" "\<not> leads (flights c ! k)"
  shows "client_inv (put_flight k ((flights c ! k)\<lparr>fl_phase := Settled v\<rparr>) c)"
proof -
  have "flight_ok (flights c ! k)" using assms by (simp add: client_inv_def)
  with assms show ?thesis by (intro client_inv_put) (simp_all add: settled_ok)
qed

lemma retried_Resend:
  assumes "retry_interceptor (e\<lparr>err_config := Some (fl_config f)\<rparr>) = Resend cfg attempt"
  shows "retried (f\<lparr>fl_config := cfg, fl_phase := p\<rparr>) = retried f + 1"
    and "retried f < RETRY_MAX_ATTEMPTS" and "cfg_method cfg = cfg_method (fl_config f)"
    and "isIdempotentMethod (cfg_method (fl_config f))"
  using assms by (auto simp: retry_interceptor_Resend retried_def tries_left_def)

lemma client_inv_rejected:
  assumes inv: "client_inv c" and k: "k < length (flights c)" "fl_phase (flights c ! k) = Sent"
  shows "client_inv (on_rejected k e c)"
proof -
  let ?f = "flights c ! k"
  have ok: "flight_ok ?f" using inv k by (simp add: client_inv_def)
  have f: "\<not> leads ?f" using k(2) by (simp add: leads_def)
  show ?thesis
  proof (cases "retry_interceptor (e\<lparr>err_config := Some (fl_config ?f)\<rparr>)")
    case Reject
    with client_inv_settle [OF inv k(1) f] show ?thesis by (simp add: on_rejected_def Let_def)
  next
    case (Resend cfg attempt)
    let ?g = "?f\<lparr>fl_config := cfg, fl_phase := Backoff\<rparr>"
    note r = retried_Resend [OF Resend]
    have "flight_ok ?g"
      using ok k(2) r by (simp add: flight_ok_def send_budget_def owed_def)
    moreover have "\<not> leads ?g" "\<not> unresolved ?g" by (simp_all add: leads_def unresolved_def)
    ultimately have "client_inv (put_flight k ?g c)"
      using f by (intro client_inv_put [OF inv k(1)]) simp_all
    with Resend show ?thesis by (simp add: on_rejected_def Let_def)
  qed
qed

lemma client_inv_answer:
  assumes inv: "client_inv c" and k: "k < length (flights c)" "fl_phase (flights c ! k) = Sent"
  shows "client_inv (on_answer k failure c)"
proof (cases failure)
  case None
  with client_inv_settle [OF inv k(1)] k(2) show ?thesis by (simp add: on_answer_def Let_def leads_def)
next
  case (Some e)
  let ?f = "flights c ! k"
  have ok: "flight_ok ?f" using inv k by (simp add: client_inv_def)
  have f: "\<not> leads ?f" "\<not> unresolved ?f" using k(2) by (simp_all add: leads_def unresolved_def)
  have waits: "flight_ok (?f\<lparr>fl_retry := True, fl_phase := Waiting l None\<rparr>)"
    "flight_ok (?f\<lparr>fl_retry := True, fl_phase := Settled v\<rparr>)" if "\<not> fl_retry ?f" for l v
    using that ok k(2) by (auto simp: flight_ok_defs)
  show ?thesis
  proof (cases "err_status e \<noteq> Some 401 \<or> fl_retry ?f")
    case True
    with Some client_inv_rejected [OF inv k] show ?thesis by (auto simp: on_answer_def Let_def)
  next
    case False
    then have nr: "\<not> fl_retry ?f" by blast
    show ?thesis
    proof (cases "refresh_on c")
      case True
      have "client_inv (put_flight k (?f\<lparr>fl_retry := True, fl_phase := Waiting False None\<rparr>) c)"
        using waits(1) [OF nr] f True by (intro client_inv_put [OF inv k(1)]) simp_all
      with True False Some show ?thesis by (simp add: on_answer_def Let_def)
    next
      case off: False
      show ?thesis
      proof (cases "csrfHeaders (document c)")
        case (Inl e')
        have "client_inv (put_flight k (?f\<lparr>fl_retry := True, fl_phase := Settled Rejected\<rparr>) c)"
          using waits(2) [OF nr] f by (intro client_inv_put [OF inv k(1)]) simp_all
        with Inl off False Some show ?thesis by (simp add: on_answer_def Let_def)
      next
        case (Inr hs)
        let ?g = "?f\<lparr>fl_retry := True, fl_phase := Waiting True None\<rparr>"
        have "flight_ok g" if "g \<in> set ((flights c)[k := ?g])" for g
          using that inv waits(1) [OF nr] set_update_subset_insert [of "flights c" k ?g]
          by (auto simp: client_inv_def)
        moreover have "how_many leads (put_flight k ?g c) = 1"
          "how_many fl_retry (put_flight k ?g c) = how_many fl_retry c + 1"
          using how_many_put [OF k(1), of leads ?g] how_many_put [OF k(1), of fl_retry ?g] f off inv nr
          by (simp_all add: client_inv_def)
        ultimately show ?thesis
          using Inr off False inv Some by (simp add: on_answer_def Let_def client_inv_def)
      qed
    qed
  qed
qed

lemma resolve_wait_simps [simp]:
  "fl_retry (resolve_wait tok f) = fl_retry f" "\<not> leads (resolve_wait tok f)"
  "\<not> unresolved (resolve_wait tok f)"
  by (auto simp: resolve_wait_def leads_def unresolved_def split: flight_phase.splits option.splits)

lemma resolve_wait_ok: "flight_ok f \<Longrightarrow> flight_ok (resolve_wait tok f)"
  by (auto simp: resolve_wait_def flight_ok_defs split: flight_phase.splits option.splits)

lemma client_inv_refreshed:
  assumes "client_inv c"
  shows "client_inv (on_refreshed body c)"
  using assms
  by (auto simp: client_inv_def on_refreshed_def Let_def how_many_def filter_map o_def resolve_wait_ok)

lemma client_inv_resume:
  assumes inv: "client_inv c" and k: "k < length (flights c)"
    and w: "fl_phase (flights c ! k) = Waiting l (Some t)"
  shows "client_inv (on_resume k c)"
proof -
  let ?f = "flights c ! k"
  have ok: "flight_ok ?f" using inv k by (simp add: client_inv_def)
  have f: "\<not> leads ?f" "\<not> unresolved ?f" using w by (simp_all add: leads_def unresolved_def)
  have settle: "client_inv (put_flight k (?f\<lparr>fl_phase := Settled Rejected\<rparr>) c)"
    by (rule client_inv_settle [OF inv k f(1)])
  then have gone: "client_inv ((put_flight k (?f\<lparr>fl_phase := Settled Rejected\<rparr>) c)
      \<lparr>session := s, redirected := d\<rparr>)" for s d
    by (simp add: client_inv_def)
  show ?thesis
  proof (cases t)
    case None
    with w settle gone show ?thesis by (simp add: on_resume_def Let_def)
  next
    case (Some tok)
    let ?g = "send_flight c
      (?f\<lparr>fl_headers := map_set ''Authorization'' (bearer_header tok) (fl_headers ?f)\<rparr>)"
    have "flight_ok ?g"
      using ok w by (intro owed_send_ok) (auto simp: flight_ok_defs)
    then have "client_inv (put_flight k ?g c)"
      using f by (intro client_inv_put [OF inv k]) simp_all
    with Some w show ?thesis by (simp add: on_resume_def Let_def)
  qed
qed

lemma client_inv_wake:
  assumes inv: "client_inv c" and k: "k < length (flights c)" "fl_phase (flights c ! k) = Backoff"
  shows "client_inv (on_wake k c)"
proof -
  have "flight_ok (flights c ! k)" using inv k by (simp add: client_inv_def)
  then have "flight_ok (send_flight c (flights c ! k))" by (rule owed_send_ok) (simp add: owed_def k)
  then show ?thesis
    unfolding on_wake_def using k(2)
      by (intro client_inv_put [OF inv k(1)]) (simp_all add: leads_def [of "flights c ! k"])
qed

lemma client_inv_call:
  assumes "client_inv c"
  shows "client_inv (api_call meth url c)"
proof -
  have "flight_ok (send_flight c (new_flight meth url))"
    by (rule send_flight_ok) (simp_all add: new_flight_def send_budget_def retried_def)
  with assms show ?thesis by (auto simp: client_inv_def api_call_def how_many_def new_flight_def)
qed

interpretation api: event_invariant client_start client_enabled client_step client_inv
proof
  fix c assume "client_start c"
  then show "client_inv c" by (simp add: client_start_def client_inv_def how_many_def)
next
  fix c e assume "client_inv c" "client_enabled e c"
  then show "client_inv (client_step e c)"
    by (cases e) (auto simp: client_inv_answer client_inv_refreshed client_inv_resume client_inv_wake client_inv_call)
qed

text \<open>
  Claim C26. However many requests meet an expired token at once, the client refreshes one at a
  time and loses none of them: in every reachable state exactly one waiting request leads while
  a refresh is under way and none otherwise; a request waits without an answer only while a
  refresh is under way, so that every refresh answer wakes every waiter; with the retries of the
  retry interceptor in between, no request is sent more than four times, no request that is not
  GET, HEAD or OPTIONS more than twice, and there were at most as many refreshes as requests that
  met a 401.
\<close>

theorem refresh_single_flight:
  assumes "client_reachable c"
  shows "how_many leads c = (if refresh_on c then 1 else 0) \<and>
    (\<forall>f \<in> set (flights c). unresolved f \<longrightarrow> refresh_on c) \<and>
    (\<forall>f \<in> set (flights c). fl_sends f \<le> 4 \<and>
      (\<not> isIdempotentMethod (cfg_method (fl_config f)) \<longrightarrow> fl_sends f \<le> 2)) \<and>
    refreshes c \<le> how_many fl_retry c \<and>
    how_many unresolved (on_refreshed body c) = 0"
proof -
  have inv: "client_inv c"
    using assms by (intro api.reachable_inv) (simp add: client_reachable_def)
  moreover have "how_many unresolved (on_refreshed body c) = 0"
    by (auto simp: on_refreshed_def Let_def how_many_def filter_empty_conv)
  moreover have "fl_sends f \<le> 4 \<and>
      (\<not> isIdempotentMethod (cfg_method (fl_config f)) \<longrightarrow> fl_sends f \<le> 2)"
    if "f \<in> set (flights c)" for f
  proof -
    have "flight_ok f" using that inv by (simp add: client_inv_def)
    then show ?thesis
      by (auto simp: flight_ok_def send_budget_def RETRY_MAX_ATTEMPTS_def split: if_splits)
  qed
  moreover have "refresh_on c" if "f \<in> set (flights c)" "unresolved f" for f
    using that inv by (auto simp: client_inv_def how_many_def filter_empty_conv)
  ultimately show ?thesis by (simp add: client_inv_def)
qed

definition unauthorized :: api_error where
  "unauthorized = \<lparr>is_axios = True, is_error = True, is_cancel = False,
     err_code = Some ''ERR_BAD_REQUEST'', err_message = ''Request failed with status code 401'',
     err_status = Some 401, err_config = None\<rparr>"

definition sample_client :: client where
  "sample_client = \<lparr>session = auth_start\<lparr>inMemoryToken := Some ''old''\<rparr>, document = None,
     page = Some ''/dashboard'', flights = [], refresh_on = False, refreshes = 0, redirected = None\<rparr>"

lemmas client_defs = api_call_def on_answer_def on_refreshed_def on_resume_def put_flight_def
  send_flight_def new_flight_def on_rejected_def on_wake_def request_interceptor_def unauthorized_def
  csrfHeaders_def getCsrfToken_def
  refreshed_token_def resolve_wait_def

theorem refresh_single_flight_witness:
  "how_many leads (fold client_step [Call (Some ''get'') ''/leave'', Call (Some ''get'') ''/payroll'',
     Answer 0 (Some unauthorized), Answer 1 (Some unauthorized)] sample_client) = 1"
proof -
  let ?c = "fold client_step [Call (Some ''get'') ''/leave'', Call (Some ''get'') ''/payroll'',
     Answer 0 (Some unauthorized), Answer 1 (Some unauthorized)] sample_client"
  have "client_reachable ?c"
    unfolding client_reachable_def fold.simps o_apply id_apply
    by (intro reach_step reach_start)
      (simp_all add: client_start_def sample_client_def client_defs writes_def Let_def to_lower_def
        lower_char_def falsy_string_def)
  from refresh_single_flight [OF this] show ?thesis
    by (simp add: sample_client_def client_defs writes_def Let_def to_lower_def
        lower_char_def falsy_string_def)
qed

text \<open>How many more events a request can take before it is settled.\<close>

definition potential :: "flight \<Rightarrow> nat" where
  "potential f =
     (case fl_phase f of
        Settled v \<Rightarrow> 0
      | Sent \<Rightarrow> 2 * (RETRY_MAX_ATTEMPTS - retried f) + (if fl_retry f then 1 else 4)
      | Backoff \<Rightarrow> 2 * (RETRY_MAX_ATTEMPTS - retried f) + (if fl_retry f then 2 else 5)
      | Waiting l t \<Rightarrow> 2 * (RETRY_MAX_ATTEMPTS - retried f) + (if t = None then 3 else 2))"

definition remaining :: "client \<Rightarrow> nat" where
  "remaining c = sum_list (map potential (flights c))"

lemma remaining_put:
  assumes "k < length (flights c)" and "potential f < potential (flights c ! k)"
  shows "remaining (put_flight k f c) < remaining c"
proof -
  have k: "k < length (map potential (flights c))" using assms(1) by simp
  from elem_le_sum_list [OF k] assms show ?thesis
    by (simp add: remaining_def map_update sum_list_update [OF k])
qed

lemma remaining_fields [simp]:
  "remaining (c\<lparr>refresh_on := b\<rparr>) = remaining c" "remaining (c\<lparr>refreshes := n\<rparr>) = remaining c"
  "remaining (c\<lparr>session := s\<rparr>) = remaining c" "remaining (c\<lparr>redirected := r\<rparr>) = remaining c"
  by (simp_all add: remaining_def)

lemma rejected_decreases:
  assumes "k < length (flights c)" "fl_phase (flights c ! k) = Sent"
  shows "remaining (on_rejected k e c) < remaining c"
proof (cases "retry_interceptor (e\<lparr>err_config := Some (fl_config (flights c ! k))\<rparr>)")
  case Reject
  have "potential ((flights c ! k)\<lparr>fl_phase := Settled Rejected\<rparr>) < potential (flights c ! k)"
    using assms(2) by (simp add: potential_def)
  with Reject remaining_put [OF assms(1)] show ?thesis by (simp add: on_rejected_def Let_def)
next
  case (Resend cfg attempt)
  let ?g = "(flights c ! k)\<lparr>fl_config := cfg, fl_phase := Backoff\<rparr>"
  have "potential ?g < potential (flights c ! k)"
    using retried_Resend(1,2) [OF Resend] assms(2) by (simp add: potential_def)
  with Resend remaining_put [OF assms(1)] show ?thesis by (simp add: on_rejected_def Let_def)
qed

lemma answer_decreases:
  assumes "k < length (flights c)" "fl_phase (flights c ! k) = Sent"
  shows "remaining (on_answer k failure c) < remaining c"
proof -
  have put: "potential f < potential (flights c ! k) \<Longrightarrow> remaining (put_flight k f c) < remaining c" for f
    by (rule remaining_put [OF assms(1)])
  show ?thesis
    using assms(2) rejected_decreases [OF assms]
    by (auto simp: on_answer_def Let_def potential_def retried_def intro!: put
        split: sum.splits option.splits)
qed

lemma send_potential:
  "potential (send_flight c f) \<le> 2 * (RETRY_MAX_ATTEMPTS - retried f) + (if fl_retry f then 1 else 4)"
  by (simp add: send_flight_def potential_def retried_def split: sum.splits)

lemma wake_decreases:
  assumes "k < length (flights c)" "fl_phase (flights c ! k) = Backoff"
  shows "remaining (on_wake k c) < remaining c"
  using send_potential [of c "flights c ! k"] assms
  by (auto simp: on_wake_def potential_def intro!: remaining_put split: if_splits)

lemma resume_decreases:
  assumes "k < length (flights c)" "fl_phase (flights c ! k) = Waiting l (Some t)"
    and "fl_retry (flights c ! k)"
  shows "remaining (on_resume k c) < remaining c"
proof -
  let ?f = "flights c ! k"
  show ?thesis
  proof (cases t)
    case None
    have "potential (?f\<lparr>fl_phase := Settled Rejected\<rparr>) < potential ?f"
      using assms(2) by (simp add: potential_def)
    with None assms(2) remaining_put [OF assms(1)] show ?thesis by (simp add: on_resume_def Let_def)
  next
    case (Some tok)
    let ?g = "?f\<lparr>fl_headers := map_set ''Authorization'' (bearer_header tok) (fl_headers ?f)\<rparr>"
    have "potential (send_flight c ?g) < potential ?f"
      using send_potential [of c ?g] assms(2,3) by (simp add: potential_def retried_def)
    with Some assms(2) remaining_put [OF assms(1)] show ?thesis by (simp add: on_resume_def Let_def)
  qed
qed

lemma resolve_wait_potential:
  "potential (resolve_wait tok f) \<le> potential f"
  "leads f \<Longrightarrow> potential (resolve_wait tok f) < potential f"
  by (auto simp: resolve_wait_def potential_def retried_def leads_def
      split: flight_phase.splits option.splits)

lemma sum_list_less:
  assumes "\<And>x. g x \<le> (h x :: nat)" and "x \<in> set xs" and "g x < h x"
  shows "sum_list (map g xs) < sum_list (map h xs)"
  using assms(2)
proof (induction xs)
  case (Cons y ys)
  have "sum_list (map g ys) \<le> sum_list (map h ys)" by (rule sum_list_mono) (rule assms(1))
  with Cons assms show ?case by (auto intro: add_less_le_mono add_le_less_mono)
qed simp

lemma refreshed_decreases:
  assumes "f \<in> set (flights c)" and "leads f"
  shows "remaining (on_refreshed body c) < remaining c"
  using sum_list_less [of "\<lambda>f. potential (resolve_wait (refreshed_token body) f)" potential f "flights c"]
    resolve_wait_potential assms
  by (simp add: remaining_def on_refreshed_def Let_def o_def)

text \<open>
  Claim C27. No request hangs in the client: in every reachable state, as long as some request is
  not settled there is something the network or the event loop owes it (an answer, the refresh's
  answer, the continuation of a waiter, the end of a backoff), and each of these deliveries brings the client strictly
  closer to having settled every request, so that without new calls at most eight of them per
  request are possible.
\<close>

theorem client_settles:
  assumes "client_reachable c"
  shows "((\<exists>f \<in> set (flights c). \<forall>v. fl_phase f \<noteq> Settled v) \<longrightarrow>
      (\<exists>e. (\<forall>m u. e \<noteq> Call m u) \<and> client_enabled e c)) \<and>
    (\<forall>e. (\<forall>m u. e \<noteq> Call m u) \<and> client_enabled e c \<longrightarrow> remaining (client_step e c) < remaining c) \<and>
    remaining c \<le> 8 * length (flights c)"
proof (intro conjI allI impI)
  have inv: "client_inv c"
    using assms by (intro api.reachable_inv) (simp add: client_reachable_def)
  have owes: "\<exists>e. (\<forall>m u. e \<noteq> Call m u) \<and> client_enabled e c"
    if f: "f \<in> set (flights c)" "\<forall>v. fl_phase f \<noteq> Settled v" for f
  proof -
    obtain k where k: "k < length (flights c)" "flights c ! k = f"
      using f(1) by (auto simp: in_set_conv_nth)
    show ?thesis
    proof (cases "fl_phase f")
      case Sent
      with k show ?thesis by (intro exI [of _ "Answer k None"]) simp
    next
      case (Waiting l t)
      show ?thesis
      proof (cases t)
        case None
        with Waiting f(1) inv have "refresh_on c"
          by (auto simp: client_inv_def how_many_def filter_empty_conv unresolved_def)
        then show ?thesis by (intro exI [of _ "RefreshAnswer None"]) simp
      next
        case (Some x)
        with Waiting k show ?thesis by (intro exI [of _ "Resume k"]) simp
      qed
    next
      case Backoff
      with k show ?thesis by (intro exI [of _ "Wake k"]) simp
    qed (use f(2) in blast)
  qed
  then show "\<exists>e. (\<forall>m u. e \<noteq> Call m u) \<and> client_enabled e c"
    if "\<exists>f \<in> set (flights c). \<forall>v. fl_phase f \<noteq> Settled v" using that by blast
  fix e assume e: "(\<forall>m u. e \<noteq> Call m u) \<and> client_enabled e c"
  show "remaining (client_step e c) < remaining c"
  proof (cases e)
    case (RefreshAnswer body)
    with e have "how_many leads c = 1" using inv by (simp add: client_inv_def)
    then obtain f where "f \<in> set (flights c)" "leads f"
      by (metis filter_empty_conv how_many_def list.size(3) zero_neq_one)
    with RefreshAnswer show ?thesis by (simp add: refreshed_decreases)
  next
    case (Resume k)
    with e obtain l t where w: "k < length (flights c)" "fl_phase (flights c ! k) = Waiting l (Some t)"
      by auto
    then have "fl_retry (flights c ! k)" using inv by (auto simp: client_inv_def flight_ok_def)
    with w Resume show ?thesis by (simp add: resume_decreases)
  qed (use e in \<open>auto simp: answer_decreases wake_decreases\<close>)
next
  have "client_inv c"
    using assms by (intro api.reachable_inv) (simp add: client_reachable_def)
  then have "\<forall>f \<in> set (flights c). potential f \<le> 8"
    by (auto simp: client_inv_def flight_ok_def potential_def RETRY_MAX_ATTEMPTS_def
        split: flight_phase.splits)
  moreover have "\<forall>f \<in> set fs. potential f \<le> 8 \<Longrightarrow> sum_list (map potential fs) \<le> 8 * length fs" for fs
    by (induction fs) auto
  ultimately have "sum_list (map potential (flights c)) \<le> 8 * length (flights c)" by blast
  then show "remaining c \<le> 8 * length (flights c)" by (simp add: remaining_def)
qed

lemma sample_start: "client_start sample_client"
  by (simp add: client_start_def sample_client_def)

theorem client_settles_witness:
  "remaining (client_step (Answer 0 (Some unauthorized)) (client_step (Call (Some ''get'') ''/leave'') sample_client))
   < remaining (client_step (Call (Some ''get'') ''/leave'') sample_client)"
proof -
  let ?c = "client_step (Call (Some ''get'') ''/leave'') sample_client"
  have "client_reachable ?c"
    unfolding client_reachable_def
    by (intro reach_step reach_start sample_start) simp
  moreover have "client_enabled (Answer 0 (Some unauthorized)) ?c"
    by (simp add: sample_client_def client_defs writes_def Let_def to_lower_def lower_char_def
        falsy_string_def)
  ultimately show ?thesis using client_settles [of ?c] by blast
qed

text \<open>
  A wrong password reloads the login page: the interceptor treats the 401 of the login
  call itself like an expired session, so that after the refresh call is refused the client
  sends the browser from the login page to the login page, with the login page as the place to
  return to; the error the caller would show belongs to a page that is being unloaded.
\<close>

lemma failed_login_reloads_page:
  assumes "client_start c" and "page c = Some ''/login''"
    and "getCsrfToken (document c) = Inr csrf"
  shows "redirected (fold client_step [Call (Some ''post'') ''/auth/login'', Answer 0 (Some unauthorized),
        RefreshAnswer None, Resume 0] c) = Some ''/login?redirect=%2Flogin'' \<and>
    map fl_phase (flights (fold client_step [Call (Some ''post'') ''/auth/login'',
        Answer 0 (Some unauthorized), RefreshAnswer None, Resume 0] c)) = [Settled Rejected]"
proof -
  have enc: "encode_uri_component ''/login'' = ''%2Flogin''" by code_simp
  have sent: "send_flight c (new_flight (Some ''post'') ''/auth/login'') =
    \<lparr>fl_config = \<lparr>cfg_method = Some ''post'', cfg_url = ''/auth/login'', retryCount = None\<rparr>,
     fl_headers = (case request_interceptor (session c) (document c) (Some ''post'') [] of Inr h \<Rightarrow> h),
     fl_retry = False, fl_sends = 1, fl_phase = Sent\<rparr>"
    using assms(3) by (auto simp: send_flight_def new_flight_def request_interceptor_def Let_def)
  show ?thesis
    using assms sent enc
    by (simp add: client_start_def api_call_def on_answer_def csrfHeaders_def unauthorized_def
        on_refreshed_def on_resume_def put_flight_def resolve_wait_def refreshed_token_def Let_def)
qed

lemma failed_login_reloads_page_witness:
  "redirected (fold client_step [Call (Some ''post'') ''/auth/login'', Answer 0 (Some unauthorized),
     RefreshAnswer None, Resume 0] (sample_client\<lparr>page := Some ''/login''\<rparr>)) =
   Some ''/login?redirect=%2Flogin''"
proof -
  have "client_start (sample_client\<lparr>page := Some ''/login''\<rparr>)"
    "getCsrfToken (document (sample_client\<lparr>page := Some ''/login''\<rparr>)) = Inr None"
    by (simp_all add: client_start_def sample_client_def getCsrfToken_def)
  from failed_login_reloads_page [OF this(1) _ this(2)] show ?thesis by simp
qed

text \<open>
  The double-submit header carries exactly the CSRF cookie: for every cookie jar
  without stray separators, a write request gets the header \<open>x-csrf-token\<close> with the value the
  server stored under \<open>csrf_token\<close> (which the server percent-encodes), and a request without
  that cookie, or a read, gets none; the bearer header is the current access token.
\<close>

lemma csrf_double_submit:
  assumes "\<forall>c \<in> set jar. cookie_ok c"
    and "map_of jar ''csrf_token'' = map_option encode_uri_component v"
    and "v \<noteq> Some []" and "getAccessToken s = Some tok" and "tok \<noteq> []"
  shows "\<exists>hs. request_interceptor s (Some (cookie_string jar)) meth [] = Inr hs \<and>
    map_get hs ''x-csrf-token'' = (if writes meth then v else None) \<and>
    map_get hs ''Authorization'' = Some (''Bearer '' @ tok)"
  using assms csrf_match_cookies [OF assms(1)]
  by (cases v) (auto simp: request_interceptor_def getCsrfToken_def decode_encode_uri Let_def
      falsy_string_def bearer_header_def)

lemma csrf_double_submit_witness:
  "map_get (case request_interceptor (auth_start\<lparr>inMemoryToken := Some ''t''\<rparr>)
      (Some (cookie_string [(''theme'', ''dark''), (''csrf_token'', ''ab12'')])) (Some ''POST'') [] of
      Inr hs \<Rightarrow> hs) ''x-csrf-token'' = Some ''ab12''"
proof -
  have "encode_uri_component ''ab12'' = ''ab12''" by code_simp
  moreover have "writes (Some ''POST'')" by code_simp
  ultimately show ?thesis
    using csrf_double_submit [of "[(''theme'', ''dark''), (''csrf_token'', ''ab12'')]" "Some ''ab12''"
        "auth_start\<lparr>inMemoryToken := Some ''t''\<rparr>" "''t''" "Some ''POST''"]
    by (auto simp: cookie_ok_def getAccessToken_def)
qed

end
