(* ===== verification/Dashboard_Data.thy ===== *)
theory Dashboard_Data
  imports Js_Value
begin

section \<open>Dashboard data: from API payloads to charts\<close>

text \<open>
  \<open>frontend/src/lib/dashboard-data.ts\<close>. The payloads are untyped values; numbers are exact
  rationals (the shared model of \<open>Js_Value\<close>). A date with a day up to 31 that its month lacks
  rolls over, as the V8 engine has it.
\<close>

record WeeklyAttendancePoint =
  wp_day :: string
  rate :: rat

record PipelineStage =
  stage :: string
  stage_count :: rat

datatype ActivityType = Hire | Promotion | Departure | Training | Achievement | Leave

record ActivityItem =
  act_id :: string
  act_type :: ActivityType
  actor :: string
  act_description :: string
  timestamp :: string

definition KNOWN_ACTIVITY_TYPES :: "(string, ActivityType) js_map" where
  "KNOWN_ACTIVITY_TYPES = [(''hire'', Hire), (''promotion'', Promotion), (''departure'', Departure),
     (''training'', Training), (''achievement'', Achievement), (''leave'', Leave)]"

definition WEEKDAYS :: "string list" where
  "WEEKDAYS = [''Mon'', ''Tue'', ''Wed'', ''Thu'', ''Fri'']"

subsection \<open>Dates\<close>

text \<open>\<open>^\d{4}-\d{2}-\d{2}$\<close>\<close>

definition iso_date :: "string \<Rightarrow> (int \<times> int \<times> int) option" where
  "iso_date s =
     (if length s = 10 \<and> s ! 4 = CHR ''-'' \<and> s ! 7 = CHR ''-'' \<and>
         list_all is_digit (take 4 s @ take 2 (drop 5 s) @ drop 8 s)
      then Some (int (digits_val (take 4 s)), int (digits_val (take 2 (drop 5 s))),
                 int (digits_val (drop 8 s)))
      else None)"

text \<open>Days since 1970-01-01 in the proleptic Gregorian calendar.\<close>

definition epoch_days :: "int \<Rightarrow> int \<Rightarrow> int \<Rightarrow> int" where
  "epoch_days y m d =
     (let y' = (if m \<le> 2 then y - 1 else y);
          doy = (153 * (if m > 2 then m - 3 else m + 9) + 2) div 5 + d - 1;
          yoe = y' mod 400
      in (y' div 400) * 146097 + (yoe * 365 + yoe div 4 - yoe div 100 + doy) - 719468)"

definition utc_weekday :: "int \<Rightarrow> int \<Rightarrow> int \<Rightarrow> nat" where
  "utc_weekday y m d = nat ((epoch_days y m d + 4) mod 7)"

definition weekdayLabel :: "string \<Rightarrow> string option" where
  "weekdayLabel dateStr =
     (case iso_date dateStr of
        None \<Rightarrow> None
      | Some (y, m, d) \<Rightarrow>
          if \<not> (1 \<le> m \<and> m \<le> 12 \<and> 1 \<le> d \<and> d \<le> 31) then None
          else
            (let dow = utc_weekday y m d
             in if dow < 1 \<or> 5 < dow then None else Some (WEEKDAYS ! (dow - 1))))"

lemma weekdayLabel_member: "weekdayLabel s = Some l \<Longrightarrow> l \<in> set WEEKDAYS"
  by (auto simp: weekdayLabel_def Let_def WEEKDAYS_def nth_Cons' split: option.splits if_splits)

subsection \<open>The attendance trend\<close>

text \<open>The rows of a payload: the array itself, or its field.\<close>

definition payload_rows :: "string \<Rightarrow> jsv \<Rightarrow> jsv list option" where
  "payload_rows field payload =
     (case payload of
        JArr rows \<Rightarrow> Some rows
      | _ \<Rightarrow> (case get_field payload field of JArr rows \<Rightarrow> Some rows | _ \<Rightarrow> None))"

text \<open>A row that counts: its weekday, its present and its total number.\<close>

definition attendance_row :: "jsv \<Rightarrow> (string \<times> rat \<times> rat) option" where
  "attendance_row row =
     (if \<not> is_object row then None
      else
        (let whole = number_or_zero (get_field row ''total'')
         in if whole \<le> 0 then None
            else
              (case get_field row ''date'' of
                 JStr s \<Rightarrow>
                   (case weekdayLabel s of
                      None \<Rightarrow> None
                    | Some label \<Rightarrow>
                        (let statuses = coalesce (get_field row ''statuses'') (JObj []);
                             present = number_or_zero
                               (coalesce (get_field statuses ''PRESENT'')
                                 (coalesce (get_field statuses ''present'') (JNum 0)))
                         in Some (label, present, whole)))
               | _ \<Rightarrow> None)))"

definition add_row :: "jsv \<Rightarrow> (string, rat \<times> rat) js_map \<Rightarrow> (string, rat \<times> rat) js_map" where
  "add_row row byDay =
     (case attendance_row row of
        None \<Rightarrow> byDay
      | Some (label, present, whole) \<Rightarrow>
          (let (p, t) = (case map_get byDay label of Some agg \<Rightarrow> agg | None \<Rightarrow> (0, 0))
           in map_set label (p + present, t + whole) byDay))"

definition day_rate :: "rat \<Rightarrow> rat \<Rightarrow> rat" where
  "day_rate present whole = of_int (math_round (present / whole * 1000)) / 10"

definition toWeeklyAttendanceTrend :: "jsv \<Rightarrow> WeeklyAttendancePoint list" where
  "toWeeklyAttendanceTrend payload =
     (case payload_rows ''data'' payload of
        None \<Rightarrow> []
      | Some rows \<Rightarrow>
          if rows = [] then []
          else
            (let byDay = fold add_row rows []
             in map (\<lambda>day. (case the (map_get byDay day) of
                              (p, t) \<Rightarrow> \<lparr>wp_day = day, rate = day_rate p t\<rparr>))
                  (filter (\<lambda>day. map_get byDay day \<noteq> None) WEEKDAYS)))"

text \<open>The rows of one weekday.\<close>

definition rows_of :: "string \<Rightarrow> jsv list \<Rightarrow> (rat \<times> rat) list" where
  "rows_of day rows = List.map_filter
     (\<lambda>r. case attendance_row r of Some (l, p, t) \<Rightarrow> if l = day then Some (p, t) else None | None \<Rightarrow> None)
     rows"

definition totals :: "(rat \<times> rat) list \<Rightarrow> rat \<times> rat" where
  "totals xs = (sum_list (map fst xs), sum_list (map snd xs))"

lemma rows_of_simps [simp]:
  "rows_of day [] = []"
  "rows_of day (r # rs) =
     (case attendance_row r of Some (l, p, t) \<Rightarrow> if l = day then [(p, t)] else [] | None \<Rightarrow> []) @ rows_of day rs"
  by (auto simp: rows_of_def List.map_filter_def split: option.splits)

lemma add_row_get:
  "map_get (add_row r m) day =
     (case attendance_row r of
        None \<Rightarrow> map_get m day
      | Some (l, p, t) \<Rightarrow>
          if l = day then Some (case map_get m day of Some (a, b) \<Rightarrow> (a + p, b + t) | None \<Rightarrow> (p, t))
          else map_get m day)"
  by (auto simp: add_row_def Let_def split: option.splits prod.splits)

lemma fold_add_row:
  "map_get (fold add_row rows m) day =
     (if rows_of day rows = [] then map_get m day
      else (let (p', t') = totals (rows_of day rows)
            in Some (case map_get m day of Some (p, t) \<Rightarrow> (p + p', t + t') | None \<Rightarrow> (p', t'))))"
proof (induction rows arbitrary: m)
  case (Cons r rs)
  show ?case
  proof (cases "attendance_row r")
    case None
    then have "add_row r m = m" by (simp add: add_row_def)
    with None show ?thesis by (simp add: Cons.IH)
  next
    case (Some x)
    obtain l p t where x: "x = (l, p, t)" by (cases x)
    show ?thesis
    proof (cases "l = day")
      case True
      with Some x have "rows_of day (r # rs) = (p, t) # rows_of day rs" by simp
      moreover have "map_get (add_row r m) day =
          Some (case map_get m day of Some (a, b) \<Rightarrow> (a + p, b + t) | None \<Rightarrow> (p, t))"
        using Some x True by (simp add: add_row_get)
      ultimately show ?thesis
        unfolding fold_Cons o_apply Cons.IH
        by (cases "map_get m day") (auto simp: totals_def add.assoc split: prod.splits)
    next
      case False
      with Some x have "rows_of day (r # rs) = rows_of day rs" "map_get (add_row r m) day = map_get m day"
        by (simp_all add: add_row_get)
      then show ?thesis by (simp add: Cons.IH)
    qed
  qed
qed simp

lemma byDay_totals:
  "map_get (fold add_row rows []) day =
     (if rows_of day rows = [] then None else Some (totals (rows_of day rows)))"
  by (simp add: fold_add_row Let_def split: prod.splits)

lemma day_rate_range:
  assumes "\<forall>(p, t) \<in> set (rows_of day rows). 0 \<le> p \<and> p \<le> t"
  shows "0 \<le> day_rate (fst (totals (rows_of day rows))) (snd (totals (rows_of day rows)))"
    and "day_rate (fst (totals (rows_of day rows))) (snd (totals (rows_of day rows))) \<le> 100"
proof -
  let ?xs = "rows_of day rows"
  let ?p = "fst (totals ?xs)" and ?t = "snd (totals ?xs)"
  have each: "\<forall>x \<in> set ?xs. 0 \<le> fst x \<and> fst x \<le> snd x" using assms by auto
  have le: "0 \<le> ?p" "?p \<le> ?t"
    using each by (auto simp: totals_def intro!: sum_list_nonneg sum_list_mono)
  then have frac: "0 \<le> ?p / ?t * 1000" "?p / ?t * 1000 \<le> 1000"
    by (auto simp: divide_le_eq)
  from math_round_mono [OF frac(1)] math_round_mono [OF frac(2)]
  have "0 \<le> math_round (?p / ?t * 1000)" "math_round (?p / ?t * 1000) \<le> 1000"
    using math_round_int [of 0] math_round_int [of 1000] by simp_all
  then have r: "(0 :: rat) \<le> of_int (math_round (?p / ?t * 1000))"
    "(of_int (math_round (?p / ?t * 1000)) :: rat) \<le> 1000"
    by linarith+
  then show "0 \<le> day_rate ?p ?t" "day_rate ?p ?t \<le> 100" by (simp_all add: day_rate_def)
qed

text \<open>
  The weekly trend is the attendance of its rows: for a payload with rows it lists, in
  the order Monday to Friday, exactly the weekdays some countable row falls on, each with the
  rounded per mille of all present over all expected on that weekday; when no row reports more
  present than expected (nor a negative number), every rate lies between 0 and 100.
\<close>

lemma weekly_trend_correct:
  assumes "payload_rows ''data'' payload = Some rows"
  shows "map wp_day (toWeeklyAttendanceTrend payload) = filter (\<lambda>d. rows_of d rows \<noteq> []) WEEKDAYS \<and>
    (\<forall>pt \<in> set (toWeeklyAttendanceTrend payload).
       rate pt = day_rate (fst (totals (rows_of (wp_day pt) rows))) (snd (totals (rows_of (wp_day pt) rows))) \<and>
       ((\<forall>(p, t) \<in> set (rows_of (wp_day pt) rows). 0 \<le> p \<and> p \<le> t) \<longrightarrow> 0 \<le> rate pt \<and> rate pt \<le> 100))"
proof -
  let ?pts = "toWeeklyAttendanceTrend payload"
  have trend: "?pts = map (\<lambda>day. \<lparr>wp_day = day, rate = day_rate (fst (totals (rows_of day rows)))
      (snd (totals (rows_of day rows)))\<rparr>) (filter (\<lambda>d. rows_of d rows \<noteq> []) WEEKDAYS)"
    using assms by (cases "rows = []")
      (auto simp: toWeeklyAttendanceTrend_def byDay_totals Let_def split: prod.splits)
  have days: "map wp_day ?pts = filter (\<lambda>d. rows_of d rows \<noteq> []) WEEKDAYS"
    by (simp add: trend o_def)
  have "rate pt = day_rate (fst (totals (rows_of (wp_day pt) rows))) (snd (totals (rows_of (wp_day pt) rows)))"
    if "pt \<in> set ?pts" for pt using that by (auto simp: trend)
  then show ?thesis
    using days by (auto intro!: day_rate_range(1) day_rate_range(2))
qed

definition sample_week :: "jsv list" where
  "sample_week =
     [JObj [(''date'', JStr ''2026-05-15''), (''total'', JNum 8), (''statuses'', JObj [(''PRESENT'', JNum 7)])],
      JObj [(''date'', JStr ''2026-05-16''), (''total'', JNum 8)],
      JObj [(''date'', JStr ''2026-05-11''), (''total'', JStr ''3'')]]"

lemma weekly_trend_correct_witness:
  "map wp_day (toWeeklyAttendanceTrend (JObj [(''data'', JArr sample_week)])) = [''Mon'', ''Fri'']"
proof -
  have "payload_rows ''data'' (JObj [(''data'', JArr sample_week)]) = Some sample_week"
    by (simp add: payload_rows_def)
  moreover have "filter (\<lambda>d. rows_of d sample_week \<noteq> []) WEEKDAYS = [''Mon'', ''Fri'']"
    by code_simp
  ultimately show ?thesis using weekly_trend_correct [of "JObj [(''data'', JArr sample_week)]"] by simp
qed

subsection \<open>The hiring pipeline\<close>

definition pipeline_stage :: "jsv \<Rightarrow> PipelineStage" where
  "pipeline_stage s =
     \<lparr>stage = js_string (coalesce (get_field s ''stage'') (coalesce (get_field s ''name'') (JStr []))),
      stage_count = number_or_zero
        (coalesce (get_field s ''count'') (coalesce (get_field s ''value'') (JNum 0)))\<rparr>"

definition toHiringPipelineStages :: "jsv \<Rightarrow> PipelineStage list" where
  "toHiringPipelineStages payload =
     (case payload_rows ''pipelineStages'' payload of
        None \<Rightarrow> []
      | Some stages \<Rightarrow>
          filter (\<lambda>s. stage s \<noteq> []) (map pipeline_stage (filter is_object stages)))"

subsection \<open>The activity feed\<close>

definition activity_item :: "nat \<Rightarrow> jsv \<Rightarrow> ActivityItem option" where
  "activity_item i item =
     (if \<not> is_object item then None
      else
        (case get_field item ''type'' of
           JStr s \<Rightarrow>
             (case map_get KNOWN_ACTIVITY_TYPES s of
                None \<Rightarrow> None
              | Some ty \<Rightarrow> Some
                  \<lparr>act_id = js_string (coalesce (get_field item ''id'')
                      (JStr (''activity-'' @ string_of_nat i))),
                   act_type = ty,
                   actor = js_string (coalesce (get_field item ''actor'')
                      (coalesce (get_field item ''department'') (JStr []))),
                   act_description = js_string (coalesce (get_field item ''description'')
                      (coalesce (get_field item ''message'') (JStr []))),
                   timestamp = js_string (coalesce (get_field item ''timestamp'') (JStr []))\<rparr>)
         | _ \<Rightarrow> None))"

fun activity_loop :: "nat \<Rightarrow> jsv list \<Rightarrow> ActivityItem list" where
  "activity_loop i [] = []"
| "activity_loop i (x # xs) =
     (case activity_item i x of Some a \<Rightarrow> [a] | None \<Rightarrow> []) @ activity_loop (i + 1) xs"

definition toActivityItems :: "jsv \<Rightarrow> ActivityItem list" where
  "toActivityItems payload =
     (case payload_rows ''activities'' payload of None \<Rightarrow> [] | Some items \<Rightarrow> activity_loop 0 items)"

lemma activity_loop_nth:
  "activity_loop i xs = List.map_filter (\<lambda>(k, x). activity_item k x) (enumerate i xs)"
  by (induction xs arbitrary: i) (auto simp: List.map_filter_def split: option.splits)

lemma pipeline_bound: "length (toHiringPipelineStages p) \<le> (case payload_rows ''pipelineStages'' p of
    Some xs \<Rightarrow> length xs | None \<Rightarrow> 0)"
proof (cases "payload_rows ''pipelineStages'' p")
  case (Some xs)
  have "length (filter (\<lambda>s. stage s \<noteq> []) (map pipeline_stage (filter is_object xs))) \<le> length xs"
    by (rule order_trans [OF length_filter_le]) simp
  with Some show ?thesis by (simp add: toHiringPipelineStages_def)
qed (simp add: toHiringPipelineStages_def)

end
