(* ===== verification/Api_Schemas.thy ===== *)
theory Api_Schemas
  imports Js_Value
begin

section \<open>Response schemas and their validation\<close>

text \<open>
  The zod schemas of \<open>frontend/src/lib/api.ts\<close> as data, one constructor per zod builder the
  file uses, and \<open>validateResponse\<close>. zod itself is a package: what it accepts is the parameter
  \<open>parse\<close>, and \<open>zod_contract\<close> is what its documentation promises about these builders.
  \<open>zod_accepts\<close> is a function that keeps the contract.
\<close>

datatype zod =
    ZString
  | ZStringMin nat
  | ZEmail
  | ZNumber
  | ZBoolean
  | ZEnum "string list"
  | ZOptional zod
  | ZNullable zod
  | ZObject "(string \<times> zod) list"
  | ZLoose "(string \<times> zod) list"
  | ZArray zod
  | ZUnion "zod list"
  | ZLazy string \<comment> \<open>\<open>z.lazy\<close>, by the name of the schema it refers to\<close>

definition opt_string :: zod where "opt_string = ZOptional ZString"
definition opt_number :: zod where "opt_number = ZOptional ZNumber"
definition opt_bool :: zod where "opt_bool = ZOptional ZBoolean"
definition nullish_string :: zod where "nullish_string = ZOptional (ZNullable ZString)"

lemmas zod_shorthands = opt_string_def opt_number_def opt_bool_def nullish_string_def

definition role_schema :: zod where
  "role_schema = ZOptional (ZEnum [''admin'', ''hr'', ''manager'', ''employee''])"

definition user_schema :: zod where
  "user_schema = ZObject
     [(''id'', ZNumber), (''email'', ZEmail), (''name'', ZString), (''role'', role_schema)]"

definition loginResponseSchema :: zod where
  "loginResponseSchema = ZObject
     [(''token'', ZOptional (ZStringMin 1)), (''mfa_required'', opt_bool),
      (''mfa_challenge_token'', opt_string), (''refreshToken'', opt_string),
      (''session_id'', opt_string), (''message'', opt_string), (''user'', ZOptional user_schema)]"

definition mfaValidateResponseSchema :: zod where
  "mfaValidateResponseSchema = ZObject
     [(''token'', ZStringMin 1), (''session_id'', opt_string), (''user'', user_schema),
      (''validated'', opt_bool), (''message'', opt_string)]"

definition sessionSchema :: zod where
  "sessionSchema = ZLoose
     [(''id'', ZString), (''ip_address'', nullish_string), (''user_agent'', nullish_string),
      (''device_id'', nullish_string), (''is_active'', opt_bool), (''created_at'', opt_string),
      (''expires_at'', nullish_string)]"

definition deviceSchema :: zod where
  "deviceSchema = ZLoose
     [(''id'', ZNumber), (''device_id'', ZString), (''device_name'', nullish_string),
      (''device_type'', nullish_string), (''os'', nullish_string), (''browser'', nullish_string),
      (''ip_address'', nullish_string), (''is_trusted'', opt_bool),
      (''last_used_at'', nullish_string), (''created_at'', nullish_string)]"

definition employeeSchema :: zod where
  "employeeSchema = ZLoose
     [(''_id'', opt_string), (''id'', ZOptional (ZUnion [ZString, ZNumber])),
      (''name'', ZStringMin 1), (''email'', ZEmail), (''department'', ZStringMin 1),
      (''position'', ZStringMin 1), (''phone'', opt_string), (''location'', opt_string),
      (''tenant_id'', opt_string)]"

definition paginatedEmployeesSchema :: zod where
  "paginatedEmployeesSchema = ZLoose
     [(''items'', ZArray employeeSchema), (''total'', ZNumber), (''page'', opt_number),
      (''page_size'', opt_number), (''pageSize'', opt_number), (''total_pages'', opt_number),
      (''totalPages'', opt_number)]"

definition employeeListSchema :: zod where
  "employeeListSchema = ZUnion [paginatedEmployeesSchema, ZArray employeeSchema]"

definition orgNodeSchema :: zod where
  "orgNodeSchema = ZLoose
     [(''email'', ZString), (''name'', ZString), (''department'', opt_string),
      (''position'', opt_string), (''manager_id'', nullish_string), (''direct_reports'', ZNumber),
      (''total_reports'', ZNumber), (''children'', ZArray (ZLazy ''orgNodeSchema''))]"

definition orgTreeResponseSchema :: zod where
  "orgTreeResponseSchema = ZLoose
     [(''scope'', ZString), (''viewer_email'', nullish_string), (''total_visible'', ZNumber),
      (''roots'', ZArray (ZLazy ''orgNodeSchema''))]"

definition moneyField :: zod where
  "moneyField = ZOptional (ZUnion [ZNumber, ZString])"

definition payrollRecordSchema :: zod where
  "payrollRecordSchema = ZLoose
     [(''id'', ZOptional (ZUnion [ZNumber, ZString])), (''employeeId'', opt_string),
      (''tenantId'', opt_string), (''period'', opt_string), (''baseSalary'', moneyField),
      (''allowances'', moneyField), (''deductions'', moneyField), (''tax'', moneyField),
      (''netSalary'', moneyField), (''status'', opt_string), (''processedDate'', opt_string)]"

definition payrollListSchema :: zod where
  "payrollListSchema = ZArray payrollRecordSchema"

definition myPayslipSchema :: zod where
  "myPayslipSchema = ZLoose
     [(''id'', ZNumber), (''payrollId'', ZOptional (ZNullable ZNumber)), (''employeeId'', opt_string),
      (''tenantId'', opt_string), (''period'', opt_string), (''pdfContent'', nullish_string),
      (''pdfUrl'', nullish_string), (''generatedAt'', nullish_string)]"

definition myPayslipListSchema :: zod where
  "myPayslipListSchema = ZArray myPayslipSchema"

definition myLeaveRecordSchema :: zod where
  "myLeaveRecordSchema = ZLoose
     [(''id'', ZNumber), (''employeeId'', opt_string), (''tenantId'', opt_string),
      (''startDate'', ZString), (''endDate'', ZString), (''leaveType'', ZString),
      (''reason'', nullish_string), (''status'', ZString)]"

definition myLeavePageSchema :: zod where
  "myLeavePageSchema = ZLoose
     [(''content'', ZArray myLeaveRecordSchema), (''totalElements'', opt_number),
      (''totalPages'', opt_number), (''number'', opt_number), (''size'', opt_number)]"

definition myLeaveBalanceRowSchema :: zod where
  "myLeaveBalanceRowSchema = ZLoose
     [(''leaveType'', ZString), (''entitlementDays'', ZNumber), (''usedDays'', ZNumber),
      (''remainingDays'', ZNumber)]"

definition myLeaveBalancesSchema :: zod where
  "myLeaveBalancesSchema = ZLoose
     [(''employeeId'', ZString), (''balances'', ZArray myLeaveBalanceRowSchema)]"

definition named_schema :: "string \<Rightarrow> zod" where
  "named_schema n = (if n = ''orgNodeSchema'' then orgNodeSchema else ZUnion [])"

text \<open>
  \<open>validateResponse\<close>: the value unchanged, or an error that names the resource only. What goes
  to the console is the path and code of each issue, redacted; it is not modelled.
\<close>

definition validateResponse :: "(zod \<Rightarrow> jsv \<Rightarrow> bool) \<Rightarrow> zod \<Rightarrow> jsv \<Rightarrow> string \<Rightarrow> string + jsv" where
  "validateResponse parse schema data resource =
     (if parse schema data then Inr data
      else Inl (''Invalid '' @ resource @ '' response format''))"

subsection \<open>What zod promises\<close>

locale zod_contract =
  fixes parse :: "zod \<Rightarrow> jsv \<Rightarrow> bool"
  assumes string: "parse ZString v \<Longrightarrow> \<exists>s. v = JStr s"
    and string_min: "parse (ZStringMin n) v \<Longrightarrow> \<exists>s. v = JStr s \<and> n \<le> length s"
    and email: "parse ZEmail v \<Longrightarrow> \<exists>s. v = JStr s"
    and number: "parse ZNumber v \<Longrightarrow> \<exists>q. v = JNum q"
    and boolean: "parse ZBoolean v \<Longrightarrow> \<exists>b. v = JBool b"
    and enum: "parse (ZEnum ss) v \<Longrightarrow> \<exists>s \<in> set ss. v = JStr s"
    and optional: "parse (ZOptional z) v \<Longrightarrow> v = JUndef \<or> parse z v"
    and nullable: "parse (ZNullable z) v \<Longrightarrow> v = JNull \<or> parse z v"
    and strict: "parse (ZObject fs) v \<Longrightarrow> \<exists>ms. v = JObj ms \<and> (\<forall>(k, z) \<in> set fs. parse z (get_field v k))"
    and loose: "parse (ZLoose fs) v \<Longrightarrow> \<exists>ms. v = JObj ms \<and> (\<forall>(k, z) \<in> set fs. parse z (get_field v k))"
    and array: "parse (ZArray z) v \<Longrightarrow> \<exists>vs. v = JArr vs \<and> (\<forall>x \<in> set vs. parse z x)"
    and union: "parse (ZUnion zs) v \<Longrightarrow> \<exists>z \<in> set zs. parse z v"
    and "lazy": "parse (ZLazy m) v \<Longrightarrow> parse (named_schema m) v"
begin

lemma strict_field: "parse (ZObject fs) v \<Longrightarrow> (k, z) \<in> set fs \<Longrightarrow> parse z (get_field v k)"
  using strict by fastforce

lemma loose_field: "parse (ZLoose fs) v \<Longrightarrow> (k, z) \<in> set fs \<Longrightarrow> parse z (get_field v k)"
  using loose by fastforce

lemma user_shape:
  assumes "parse user_schema v"
  shows "\<exists>ms. v = JObj ms" "\<exists>q. get_field v ''id'' = JNum q" "\<exists>s. get_field v ''email'' = JStr s"
    "\<exists>s. get_field v ''name'' = JStr s"
proof -
  show "\<exists>ms. v = JObj ms" using assms strict unfolding user_schema_def by blast
  have "parse ZNumber (get_field v ''id'')" "parse ZEmail (get_field v ''email'')"
    "parse ZString (get_field v ''name'')"
    using assms unfolding user_schema_def by (auto intro!: strict_field)
  then show "\<exists>q. get_field v ''id'' = JNum q" "\<exists>s. get_field v ''email'' = JStr s"
    "\<exists>s. get_field v ''name'' = JStr s"
    by (auto dest: number email string)
qed

lemma login_shape:
  assumes "parse loginResponseSchema v"
  shows "get_field v ''token'' = JUndef \<or> (\<exists>s. get_field v ''token'' = JStr s \<and> s \<noteq> [])"
    and "get_field v ''user'' = JUndef \<or> parse user_schema (get_field v ''user'')"
    and "get_field v ''mfa_challenge_token'' = JUndef \<or> (\<exists>s. get_field v ''mfa_challenge_token'' = JStr s)"
proof -
  have "parse (ZOptional (ZStringMin 1)) (get_field v ''token'')"
    "parse (ZOptional user_schema) (get_field v ''user'')"
    "parse opt_string (get_field v ''mfa_challenge_token'')"
    using assms unfolding loginResponseSchema_def by (auto intro!: strict_field)
  then show "get_field v ''token'' = JUndef \<or> (\<exists>s. get_field v ''token'' = JStr s \<and> s \<noteq> [])"
    "get_field v ''user'' = JUndef \<or> parse user_schema (get_field v ''user'')"
    "get_field v ''mfa_challenge_token'' = JUndef \<or> (\<exists>s. get_field v ''mfa_challenge_token'' = JStr s)"
    using optional string_min string unfolding opt_string_def by fastforce+
qed

end

text \<open>
  What zod accepts of the builders the sign-in schemas use, both ways; \<open>mail\<close> is its test of an
  e-mail address.
\<close>

locale zod_exact = zod_contract +
  fixes mail :: "string \<Rightarrow> bool"
  assumes string_iff: "parse ZString v \<longleftrightarrow> (\<exists>s. v = JStr s)"
    and string_min_iff: "parse (ZStringMin n) v \<longleftrightarrow> (\<exists>s. v = JStr s \<and> n \<le> length s)"
    and email_iff: "parse ZEmail v \<longleftrightarrow> (\<exists>s. v = JStr s \<and> mail s)"
    and number_iff: "parse ZNumber v \<longleftrightarrow> (\<exists>q. v = JNum q)"
    and boolean_iff: "parse ZBoolean v \<longleftrightarrow> (\<exists>b. v = JBool b)"
    and enum_iff: "parse (ZEnum ss) v \<longleftrightarrow> (\<exists>s \<in> set ss. v = JStr s)"
    and optional_iff: "parse (ZOptional z) v \<longleftrightarrow> v = JUndef \<or> parse z v"
    and strict_iff: "parse (ZObject fs) (JObj ms) \<longleftrightarrow> (\<forall>(k, z) \<in> set fs. parse z (get_field (JObj ms) k))"
begin

lemmas zod_iff = string_iff string_min_iff email_iff number_iff boolean_iff enum_iff optional_iff strict_iff

lemma user_accepted:
  "parse user_schema (JObj ms) \<longleftrightarrow>
     (\<exists>q. get_field (JObj ms) ''id'' = JNum q) \<and>
     (\<exists>s. get_field (JObj ms) ''email'' = JStr s \<and> mail s) \<and>
     (\<exists>s. get_field (JObj ms) ''name'' = JStr s) \<and>
     (get_field (JObj ms) ''role'' = JUndef \<or>
      (\<exists>r \<in> {''admin'', ''hr'', ''manager'', ''employee''}. get_field (JObj ms) ''role'' = JStr r))"
  by (simp add: user_schema_def role_schema_def zod_iff)

end

text \<open>A function that keeps the contract; fuel bounds the unfolding of \<open>z.lazy\<close>.\<close>

fun zod_accepts :: "nat \<Rightarrow> (string \<Rightarrow> bool) \<Rightarrow> zod \<Rightarrow> jsv \<Rightarrow> bool" where
  "zod_accepts n mail ZString v = (case v of JStr s \<Rightarrow> True | _ \<Rightarrow> False)"
| "zod_accepts n mail (ZStringMin m) v = (case v of JStr s \<Rightarrow> m \<le> length s | _ \<Rightarrow> False)"
| "zod_accepts n mail ZEmail v = (case v of JStr s \<Rightarrow> mail s | _ \<Rightarrow> False)"
| "zod_accepts n mail ZNumber v = (case v of JNum q \<Rightarrow> True | _ \<Rightarrow> False)"
| "zod_accepts n mail ZBoolean v = (case v of JBool b \<Rightarrow> True | _ \<Rightarrow> False)"
| "zod_accepts n mail (ZEnum ss) v = (case v of JStr s \<Rightarrow> s \<in> set ss | _ \<Rightarrow> False)"
| "zod_accepts n mail (ZOptional z) v = (v = JUndef \<or> zod_accepts n mail z v)"
| "zod_accepts n mail (ZNullable z) v = (v = JNull \<or> zod_accepts n mail z v)"
| "zod_accepts n mail (ZObject fs) v =
     (case v of JObj ms \<Rightarrow> \<forall>(k, z) \<in> set fs. zod_accepts n mail z (get_field v k) | _ \<Rightarrow> False)"
| "zod_accepts n mail (ZLoose fs) v =
     (case v of JObj ms \<Rightarrow> \<forall>(k, z) \<in> set fs. zod_accepts n mail z (get_field v k) | _ \<Rightarrow> False)"
| "zod_accepts n mail (ZArray z) v =
     (case v of JArr vs \<Rightarrow> \<forall>x \<in> set vs. zod_accepts n mail z x | _ \<Rightarrow> False)"
| "zod_accepts n mail (ZUnion zs) v = (\<exists>z \<in> set zs. zod_accepts n mail z v)"
| "zod_accepts 0 mail (ZLazy m) v = False"
| "zod_accepts (Suc n) mail (ZLazy m) v = zod_accepts n mail (named_schema m) v"

lemma zod_accepts_Suc: "zod_accepts n mail z v \<Longrightarrow> zod_accepts (Suc n) mail z v"
proof (induction n mail z v rule: zod_accepts.induct)
  case (9 n mail fs v)
  then show ?case by (cases v) fastforce+
next
  case (10 n mail fs v)
  then show ?case by (cases v) fastforce+
next
  case (11 n mail z v)
  then show ?case by (cases v) auto
qed (auto split: jsv.splits)

interpretation zod: zod_contract "zod_accepts n mail" for n mail
proof
  fix m v
  show "zod_accepts n mail (ZLazy m) v \<Longrightarrow> zod_accepts n mail (named_schema m) v"
    by (cases n) (auto intro: zod_accepts_Suc)
qed (auto split: jsv.splits)

interpretation zod_both: zod_exact "zod_accepts n mail" mail for n mail
  by unfold_locales (auto split: jsv.splits)

end
