(* ===== verification/Auth_Store.thy ===== *)
theory Auth_Store
  imports Auth_Session Api_Schemas
begin

section \<open>Signing in and out\<close>

text \<open>
  \<open>frontend/src/stores/auth-store.ts\<close> with the answers of \<open>authApi\<close> (\<open>lib/api.ts\<close>): the store,
  the in-memory session of \<open>lib/auth.ts\<close> and the cookie jar of the Next server together. An API
  call ends with an error (rejected by axios) or a body, which the schemas check; the call of
  \<open>/api/auth/set-cookie\<close> throws (network) or is served. An action is modelled from its start to
  its end; \<open>isLoading\<close> is true in between.
\<close>

record auth_store =
  user :: "jsv option"
  isLoading :: bool
  mfaRequired :: bool
  mfaChallengeToken :: "string option"

record world =
  store :: auth_store
  mem :: auth_state
  cookies :: jar
  location :: "string option" \<comment> \<open>where the page was sent\<close>

definition store_start :: auth_store where
  "store_start = \<lparr>user = None, isLoading = False, mfaRequired = False, mfaChallengeToken = None\<rparr>"

text \<open>What survives a reload (\<open>partialize\<close>).\<close>

definition partialize :: "auth_store \<Rightarrow> jsv option" where
  "partialize s = user s"

record host =
  parse_schema :: "zod \<Rightarrow> jsv \<Rightarrow> bool" \<comment> \<open>zod\<close>
  stringify :: "jsv \<Rightarrow> string" \<comment> \<open>\<open>JSON.stringify\<close>\<close>
  production :: bool
  window_there :: bool

text \<open>The outcome of a call: rejected with a message, or answered with a body.\<close>

type_synonym answer = "string + jsv"

definition authApi_login :: "host \<Rightarrow> answer \<Rightarrow> answer" where
  "authApi_login h a =
     (case a of Inl e \<Rightarrow> Inl e
      | Inr data \<Rightarrow> validateResponse (parse_schema h) loginResponseSchema data ''API'')"

definition authApi_register :: "host \<Rightarrow> answer \<Rightarrow> answer" where
  "authApi_register h a =
     (case a of Inl e \<Rightarrow> Inl e
      | Inr data \<Rightarrow> validateResponse (parse_schema h) loginResponseSchema data ''API'')"

definition authApi_validateMfa :: "host \<Rightarrow> answer \<Rightarrow> answer" where
  "authApi_validateMfa h a =
     (case a of Inl e \<Rightarrow> Inl e
      | Inr data \<Rightarrow> validateResponse (parse_schema h) mfaValidateResponseSchema data ''API'')"

definition mfa_body :: "string \<Rightarrow> string \<Rightarrow> bool \<Rightarrow> jsv" where
  "mfa_body mfaChallenge code isBackupCode =
     JObj ([(''mfa_challenge_token'', JStr mfaChallenge)] @
       (if isBackupCode then [(''backup_code'', JStr code)] else [(''token'', JStr code)]))"

datatype cookie_call = CookieThrows | CookieServed

definition not_loading :: "world \<Rightarrow> world" where
  "not_loading w = w\<lparr>store := (store w)\<lparr>isLoading := False\<rparr>\<rparr>"

text \<open>
  The common end of \<open>login\<close>, \<open>validateMfa\<close> and \<open>register\<close>: keep the token and the user, have the
  server set the cookie (whatever it answers), then publish the user.
\<close>

definition adopt_session :: "host \<Rightarrow> jsv \<Rightarrow> cookie_call \<Rightarrow> world \<Rightarrow> world \<times> (string + unit)" where
  "adopt_session h result call w =
     (let token = js_string (get_field result ''token''); usr = get_field result ''user'';
          w1 = w\<lparr>mem := setStoredUser (stringify h usr) (setTokens token (mem w))\<rparr>
      in case call of
           CookieThrows \<Rightarrow> (not_loading w1, Inl ''fetch failed'')
         | CookieServed \<Rightarrow>
             (let j = (case set_cookie_POST (production h)
                              (Some (JObj [(''token'', get_field result ''token'')])) (cookies w1) of
                         Inl e \<Rightarrow> cookies w1 | Inr r \<Rightarrow> resp_jar r)
              in (w1\<lparr>cookies := j,
                     store := \<lparr>user = Some usr, isLoading = False, mfaRequired = False,
                               mfaChallengeToken = None\<rparr>\<rparr>, Inr ())))"

definition asks_mfa :: "jsv \<Rightarrow> bool" where
  "asks_mfa result \<longleftrightarrow>
     truthy (get_field result ''mfa_required'') \<and> truthy (get_field result ''mfa_challenge_token'')"

definition start_mfa :: "jsv \<Rightarrow> world \<Rightarrow> world" where
  "start_mfa result w =
     w\<lparr>store := (store w)\<lparr>isLoading := False, mfaRequired := True,
          mfaChallengeToken := Some (js_string (get_field result ''mfa_challenge_token''))\<rparr>\<rparr>"

text \<open>The value \<open>login\<close> returns: the challenge when a second factor is needed.\<close>

definition login ::
  "host \<Rightarrow> answer \<Rightarrow> cookie_call \<Rightarrow> world \<Rightarrow> world \<times> (string + string option)"
where
  "login h a call w =
     (case authApi_login h a of
        Inl e \<Rightarrow> (not_loading w, Inl e)
      | Inr result \<Rightarrow>
          if asks_mfa result then
            (start_mfa result w, Inr (Some (js_string (get_field result ''mfa_challenge_token''))))
          else if \<not> truthy (get_field result ''token'') \<or> \<not> truthy (get_field result ''user'') then
            (not_loading w, Inl ''Invalid login response'')
          else
            (case adopt_session h result call w of
               (w', Inl e) \<Rightarrow> (w', Inl e)
             | (w', Inr u) \<Rightarrow> (w', Inr None)))"

definition validateMfa ::
  "host \<Rightarrow> answer \<Rightarrow> cookie_call \<Rightarrow> world \<Rightarrow> world \<times> (string + unit)"
where
  "validateMfa h a call w =
     (if falsy_string (mfaChallengeToken (store w)) then (w, Inl ''No MFA challenge in progress'')
      else case authApi_validateMfa h a of
             Inl e \<Rightarrow> (not_loading w, Inl e)
           | Inr result \<Rightarrow> adopt_session h result call w)"

text \<open>\<open>a1\<close> answers the registration, \<open>a2\<close> the login that follows it.\<close>

definition register ::
  "host \<Rightarrow> answer \<Rightarrow> answer \<Rightarrow> cookie_call \<Rightarrow> world \<Rightarrow> world \<times> (string + unit)"
where
  "register h a1 a2 call w =
     (case authApi_register h a1 of
        Inl e \<Rightarrow> (not_loading w, Inl e)
      | Inr registered \<Rightarrow>
          (case authApi_login h a2 of
             Inl e \<Rightarrow> (not_loading w, Inl e)
           | Inr result \<Rightarrow>
               if asks_mfa result then (start_mfa result w, Inr ())
               else if \<not> truthy (get_field result ''token'') \<or> \<not> truthy (get_field result ''user'') then
                 (not_loading w, Inl ''Invalid register login response'')
               else adopt_session h result call w))"

text \<open>The answer of the logout call is ignored; the cookie call may fail.\<close>

definition logout :: "host \<Rightarrow> answer \<Rightarrow> cookie_call \<Rightarrow> world \<Rightarrow> world" where
  "logout h a call w =
     w\<lparr>mem := clearAuth (mem w),
       store := (store w)\<lparr>user := None, mfaRequired := False, mfaChallengeToken := None\<rparr>,
       cookies := (case call of CookieThrows \<Rightarrow> cookies w
                   | CookieServed \<Rightarrow> resp_jar (clear_cookie_POST (production h) (cookies w))),
       location := (if window_there h then Some ''/login'' else location w)\<rparr>"

definition setUser :: "jsv option \<Rightarrow> world \<Rightarrow> world" where
  "setUser u w = w\<lparr>store := (store w)\<lparr>user := u\<rparr>\<rparr>"

definition initialize :: "runtime \<Rightarrow> int \<Rightarrow> fetch_outcome \<Rightarrow> world \<Rightarrow> world" where
  "initialize rt now r w = w\<lparr>mem := init_state (initializeAuth rt now r (mem w))\<rparr>"

lemma not_loading_simps [simp]:
  "mem (not_loading w) = mem w" "cookies (not_loading w) = cookies w"
  "store (not_loading w) = (store w)\<lparr>isLoading := False\<rparr>"
  by (simp_all add: not_loading_def)

lemma start_mfa_simps [simp]:
  "mem (start_mfa r w) = mem w" "cookies (start_mfa r w) = cookies w"
  "user (store (start_mfa r w)) = user (store w)" "isLoading (store (start_mfa r w)) = False"
  by (simp_all add: start_mfa_def)

lemma setStoredUser_token [simp]: "inMemoryToken (setStoredUser j s) = inMemoryToken s"
  by (simp add: setStoredUser_def)

lemma authApi_login_Inr:
  "authApi_login h a = Inr r \<Longrightarrow> a = Inr r \<and> parse_schema h loginResponseSchema r"
  by (auto simp: authApi_login_def validateResponse_def split: sum.splits if_splits)

lemma adopt_session_served:
  assumes "get_field r ''token'' = JStr tok" and "tok \<noteq> []"
  shows "adopt_session h r CookieServed w =
    (\<lparr>store = \<lparr>user = Some (get_field r ''user''), isLoading = False, mfaRequired = False,
                mfaChallengeToken = None\<rparr>,
      mem = setStoredUser (stringify h (get_field r ''user'')) (setTokens tok (mem w)),
      cookies = Some \<lparr>cookie_value = tok, httpOnly = True, secure = production h,
                      cookie_maxAge = week_seconds\<rparr>,
      location = location w\<rparr>, Inr ())"
  using assms
  by (simp add: adopt_session_def set_cookie_POST_def nullish_def store_cookie_def
      week_seconds_def Let_def)

text \<open>
  What a sign-in can do. With a zod that keeps its documentation: a login that asks for
  a second factor leaves session, cookie and user untouched and only remembers the challenge; a
  login that reports success has put the answered token, a non-empty string, in memory and in
  the cookie, and published a user of the promised shape; a login that fails changes neither the
  user nor the cookie, and the session only when setting the cookie failed; no login ends in the
  loading state.
\<close>

lemma login_outcomes:
  assumes "zod_contract (parse_schema h)" and "login h a call w = (w', r)"
  shows "\<not> isLoading (store w') \<and>
    (\<forall>ch. r = Inr (Some ch) \<longrightarrow> mem w' = mem w \<and> cookies w' = cookies w \<and>
       user (store w') = user (store w) \<and> mfaChallengeToken (store w') = Some ch) \<and>
    (r = Inr None \<longrightarrow> (\<exists>data tok. a = Inr data \<and> get_field data ''token'' = JStr tok \<and> tok \<noteq> [] \<and>
       inMemoryToken (mem w') = Some tok \<and> map_option cookie_value (cookies w') = Some tok \<and>
       user (store w') = Some (get_field data ''user'') \<and>
       parse_schema h user_schema (get_field data ''user'') \<and>
       mfaChallengeToken (store w') = None)) \<and>
    (\<forall>e. r = Inl e \<longrightarrow> user (store w') = user (store w) \<and> cookies w' = cookies w \<and>
       (mem w' = mem w \<or> call = CookieThrows))"
proof (cases "authApi_login h a")
  case (Inl e)
  with assms(2) show ?thesis by (auto simp: login_def)
next
  case (Inr result)
  then have a: "a = Inr result" "parse_schema h loginResponseSchema result"
    by (simp_all add: authApi_login_Inr)
  note shape = zod_contract.login_shape [OF assms(1) a(2)]
  show ?thesis
  proof (cases "asks_mfa result")
    case True
    with assms(2) Inr show ?thesis by (auto simp: login_def start_mfa_def)
  next
    case no_mfa: False
    show ?thesis
    proof (cases "truthy (get_field result ''token'') \<and> truthy (get_field result ''user'')")
      case False
      with assms(2) Inr no_mfa show ?thesis by (auto simp: login_def)
    next
      case True
      with shape obtain tok where tok: "get_field result ''token'' = JStr tok" "tok \<noteq> []"
        by auto
      have usr: "parse_schema h user_schema (get_field result ''user'')" using shape(2) True by auto
      show ?thesis
      proof (cases call)
        case CookieThrows
        with assms(2) Inr no_mfa True show ?thesis
          by (auto simp: login_def adopt_session_def Let_def)
      next
        case CookieServed
        with assms(2) Inr no_mfa True usr a tok show ?thesis
          by (auto simp: login_def adopt_session_served)
      qed
    qed
  qed
qed

definition sample_host :: host where
  "sample_host = \<lparr>parse_schema = zod_accepts 1 (\<lambda>s. CHR ''@'' \<in> set s), stringify = (\<lambda>v. ''{}''),
     production = True, window_there = True\<rparr>"

definition signed_out :: world where
  "signed_out = \<lparr>store = store_start, mem = auth_start, cookies = None, location = None\<rparr>"

definition sample_login :: jsv where
  "sample_login = JObj [(''token'', JStr ''abc''), (''user'', JObj [(''id'', JNum 7),
     (''email'', JStr ''a@b''), (''name'', JStr ''Ada'')])]"

lemma sample_login_valid: "authApi_login sample_host (Inr sample_login) = Inr sample_login"
  by (simp add: authApi_login_def validateResponse_def sample_host_def sample_login_def
      loginResponseSchema_def user_schema_def role_schema_def zod_shorthands)

lemma sample_contract: "zod_contract (parse_schema sample_host)"
  by (simp add: sample_host_def zod.zod_contract_axioms)

lemma login_outcomes_witness:
  "inMemoryToken (mem (fst (login sample_host (Inr sample_login) CookieServed signed_out))) = Some ''abc''"
proof -
  have "asks_mfa sample_login = False" by (simp add: asks_mfa_def sample_login_def)
  then have r: "snd (login sample_host (Inr sample_login) CookieServed signed_out) = Inr None"
    unfolding login_def sample_login_valid sum.case
    by (subst adopt_session_served [of _ "''abc''"]) (simp_all add: sample_login_def adopt_session_served)
  have "get_field sample_login ''token'' = JStr ''abc''" by (simp add: sample_login_def)
  with login_outcomes [OF sample_contract, of "Inr sample_login" CookieServed signed_out,
      OF prod.collapse [symmetric]] r
  show ?thesis by auto
qed

text \<open>
  A login reported as failed can leave the client signed in: when only the cookie call
  throws, the caller gets an error and the store has no new user, yet the token is in memory and,
  unless it is expired, the client counts as authenticated.
\<close>

lemma login_cookie_failure_half_signed_in:
  assumes "authApi_login h a = Inr result" and "\<not> asks_mfa result"
    and "get_field result ''token'' = JStr tok" and "tok \<noteq> []"
    and "truthy (get_field result ''user'')" and "\<not> isTokenExpired rt now tok"
  shows "snd (login h a CookieThrows w) = Inl ''fetch failed'' \<and>
    user (store (fst (login h a CookieThrows w))) = user (store w) \<and>
    isAuthenticated rt now (mem (fst (login h a CookieThrows w)))"
  using assms
  by (simp add: login_def adopt_session_def Let_def isAuthenticated_def getAccessToken_def
      falsy_string_def)

definition b64_jwt :: string where "b64_jwt = ''x.e30.y''" \<comment> \<open>the payload is \<open>{}\<close>: it never expires\<close>

lemma b64_jwt_valid: "\<not> isTokenExpired \<lparr>has_window = True, has_atob = True\<rparr> 0 b64_jwt"
  by code_simp

lemma login_cookie_failure_half_signed_in_witness:
  "isAuthenticated \<lparr>has_window = True, has_atob = True\<rparr> 0 (mem (fst (login sample_host
     (Inr (JObj [(''token'', JStr b64_jwt), (''user'', get_field sample_login ''user'')]))
     CookieThrows signed_out)))"
proof -
  let ?r = "JObj [(''token'', JStr b64_jwt), (''user'', get_field sample_login ''user'')]"
  have "authApi_login sample_host (Inr ?r) = Inr ?r"
    by (simp add: authApi_login_def validateResponse_def sample_host_def sample_login_def
        b64_jwt_def loginResponseSchema_def user_schema_def role_schema_def zod_shorthands)
  moreover have "\<not> asks_mfa ?r" "get_field ?r ''token'' = JStr b64_jwt"
    "truthy (get_field ?r ''user'')" "b64_jwt \<noteq> []"
    by (simp_all add: asks_mfa_def sample_login_def b64_jwt_def)
  ultimately show ?thesis
    using login_cookie_failure_half_signed_in [of sample_host "Inr ?r" ?r b64_jwt
        "\<lparr>has_window = True, has_atob = True\<rparr>" 0 signed_out] b64_jwt_valid by blast
qed

lemma resp_body_token: "get_field (token_body t) ''token'' = (case t of Some s \<Rightarrow> JStr s | None \<Rightarrow> JNull)"
  by (simp add: token_body_def)

lemma token_GET_body:
  "\<exists>t. resp_body (token_GET verify secret now j) = token_body t \<and>
     served_token (token_GET verify secret now j) = t"
  by (auto simp: token_GET_def refuse_token_def Let_def served_token_def resp_body_token
      split: option.splits)

text \<open>
  Signing out lasts as long as the cookie call does: after \<open>logout\<close> the client is not
  authenticated, has no user and no pending challenge, and is sent to the login page; the reload
  that follows restores the session exactly when the call that clears the cookie failed and the
  cookie's token is still served and unexpired.
\<close>

lemma logout_then_reload:
  assumes "has_window rt" and "cookies w = Some c" and "cookie_value c \<noteq> []" and "window_there h"
  shows "\<not> isAuthenticated rt now (mem (logout h a call w)) \<and>
    user (store (logout h a call w)) = None \<and> mfaChallengeToken (store (logout h a call w)) = None \<and>
    location (logout h a call w) = Some ''/login'' \<and>
    (init_ok (initializeAuth rt now
        (FetchJson (resp_body (token_GET verify secret now (cookies (logout h a call w))))) auth_start) \<longleftrightarrow>
     call = CookieThrows \<and> served_token (token_GET verify secret now (Some c)) = Some (cookie_value c) \<and>
     \<not> isTokenExpired rt now (cookie_value c))"
proof -
  obtain t where t: "resp_body (token_GET verify secret now (Some c)) = token_body t"
    "served_token (token_GET verify secret now (Some c)) = t"
    using token_GET_body by blast
  have "t = None \<or> t = Some (cookie_value c)"
    using t(2) assms(3) by (auto simp: token_GET_def Let_def split: option.splits if_splits)
  then show ?thesis
    using assms t
    by (cases call)
      (auto simp: logout_def initializeAuth_def auth_start_def resp_body_token token_usable_def
        nullish_def token_body_def clear_cookie_POST_def store_cookie_def token_GET_def
        Let_def)
qed

lemma logout_then_reload_witness:
  "init_ok (initializeAuth \<lparr>has_window = True, has_atob = True\<rparr> 0
     (FetchJson (resp_body (token_GET (\<lambda>k t. True) (Some ''k'') 0 (cookies (logout sample_host (Inl [])
        CookieThrows (signed_out\<lparr>cookies := Some \<lparr>cookie_value = b64_jwt, httpOnly = True,
          secure = True, cookie_maxAge = 9\<rparr>\<rparr>)))))) auth_start)"
proof -
  let ?c = "\<lparr>cookie_value = b64_jwt, httpOnly = True, secure = True, cookie_maxAge = 9\<rparr>"
  have "cookie_value ?c \<noteq> []" by (simp add: b64_jwt_def)
  moreover have "served_token (token_GET (\<lambda>k t. True) (Some ''k'') 0 (Some ?c)) = Some b64_jwt"
    by (simp add: token_GET_def falsy_string_def b64_jwt_def Let_def)
  ultimately show ?thesis
    using logout_then_reload [of "\<lparr>has_window = True, has_atob = True\<rparr>"
        "signed_out\<lparr>cookies := Some ?c\<rparr>" ?c sample_host 0 "Inl []" CookieThrows "\<lambda>k t. True" "Some ''k''"]
      b64_jwt_valid by (simp add: sample_host_def)
qed

end
