(* ===== verification/Api_Request.thy ===== *)
theory Api_Request
  imports Auth_Store
begin

section \<open>Calls of the API as data\<close>

text \<open>
  Almost every function of the endpoint objects of \<open>frontend/src/lib/api.ts\<close> is one call of
  \<open>api.get\<close>, \<open>api.post\<close>, \<open>api.put\<close> or \<open>api.delete\<close>, possibly followed by
  \<open>validateResponse\<close>. An \<open>endpoint\<close> is such a function: the arguments of the call as expressions
  over the function's parameters, and the schema of the answer. \<open>build_request\<close> is the call
  it makes for given arguments, \<open>accept_response\<close> what it does with the answer.
\<close>

subsection \<open>Endpoints\<close>

datatype verb = GET | POST | PUT | DELETE

datatype arg_expr =
    Arg string \<comment> \<open>\<open>x\<close>\<close>
  | ArgField string string \<comment> \<open>\<open>x?.f\<close>\<close>
  | ArgOr string jsv \<comment> \<open>\<open>x || v\<close>\<close>

datatype query = NoQuery | Params \<comment> \<open>\<open>{ params }\<close>\<close> | Query "(string \<times> arg_expr) list"

datatype body =
    NoBody
  | Body string
  | Fields "string list" \<comment> \<open>\<open>{ x, y }\<close>\<close>
  | FieldsAnd "string list" string \<comment> \<open>\<open>{ x, y, ...z }\<close>\<close>
  | NullBody
  | BodyOrEmpty string \<comment> \<open>\<open>x || {}\<close>\<close>
  | MfaFields \<comment> \<open>the body \<open>authApi.validateMfa\<close> builds\<close>

text \<open>In \<open>ep_path\<close> a parameter in braces stands for its interpolation \<open>${x}\<close>.\<close>

record endpoint =
  ep_name :: string
  ep_verb :: verb
  ep_path :: string
  ep_query :: query
  ep_body :: body
  ep_headers :: "(string \<times> string) list"
  ep_blob :: bool
  ep_schema :: "(zod \<times> string) option"

definition http_call :: "verb \<Rightarrow> string \<Rightarrow> string \<Rightarrow> body \<Rightarrow> endpoint" where
  "http_call v n p b = \<lparr>ep_name = n, ep_verb = v, ep_path = p, ep_query = NoQuery, ep_body = b,
     ep_headers = [], ep_blob = False, ep_schema = None\<rparr>"

definition http_get :: "string \<Rightarrow> string \<Rightarrow> endpoint" where "http_get n p = http_call GET n p NoBody"
definition http_delete :: "string \<Rightarrow> string \<Rightarrow> endpoint" where
  "http_delete n p = http_call DELETE n p NoBody"
definition http_post :: "string \<Rightarrow> string \<Rightarrow> body \<Rightarrow> endpoint" where
  "http_post n p b = http_call POST n p b"
definition http_put :: "string \<Rightarrow> string \<Rightarrow> body \<Rightarrow> endpoint" where
  "http_put n p b = http_call PUT n p b"

definition with_query :: "query \<Rightarrow> endpoint \<Rightarrow> endpoint" where "with_query q e = e\<lparr>ep_query := q\<rparr>"
definition blob :: "endpoint \<Rightarrow> endpoint" where "blob e = e\<lparr>ep_blob := True\<rparr>"
definition header :: "string \<Rightarrow> string \<Rightarrow> endpoint \<Rightarrow> endpoint" where
  "header n x e = e\<lparr>ep_headers := ep_headers e @ [(n, x)]\<rparr>"
definition checked :: "zod \<Rightarrow> string \<Rightarrow> endpoint \<Rightarrow> endpoint" where
  "checked z resource e = e\<lparr>ep_schema := Some (z, resource)\<rparr>"

lemmas endpoint_builders = http_call_def http_get_def http_delete_def http_post_def http_put_def
  with_query_def blob_def header_def checked_def

subsection \<open>The request of a call\<close>

type_synonym args = "string \<Rightarrow> jsv"

text \<open>Interpolation; the second argument is the name read so far inside braces.\<close>

fun render :: "args \<Rightarrow> string option \<Rightarrow> string \<Rightarrow> string" where
  "render a w [] = []"
| "render a None (c # cs) = (if c = CHR ''{'' then render a (Some []) cs else c # render a None cs)"
| "render a (Some n) (c # cs) =
     (if c = CHR ''}'' then js_string (a n) @ render a None cs else render a (Some (n @ [c])) cs)"

fun arg_value :: "args \<Rightarrow> arg_expr \<Rightarrow> jsv" where
  "arg_value a (Arg x) = a x"
| "arg_value a (ArgField x f) = get_field (a x) f"
| "arg_value a (ArgOr x v) = (if truthy (a x) then a x else v)"

text \<open>axios leaves out the query parameters that are null or undefined.\<close>

definition query_fields :: "args \<Rightarrow> query \<Rightarrow> (string \<times> jsv) list" where
  "query_fields a q =
     filter (\<lambda>(k, v). \<not> nullish v)
       (case q of
          NoQuery \<Rightarrow> []
        | Params \<Rightarrow> (case a ''params'' of JObj fs \<Rightarrow> fs | _ \<Rightarrow> [])
        | Query qs \<Rightarrow> map (\<lambda>(k, e). (k, arg_value a e)) qs)"

definition spread_fields :: "jsv \<Rightarrow> (string \<times> jsv) list \<Rightarrow> (string \<times> jsv) list" where
  "spread_fields v fs =
     (case v of JObj gs \<Rightarrow> fold (\<lambda>(k, x) m. map_set k x m) gs fs | _ \<Rightarrow> fs)"

fun body_value :: "args \<Rightarrow> body \<Rightarrow> jsv" where
  "body_value a NoBody = JUndef"
| "body_value a (Body x) = a x"
| "body_value a (Fields xs) = JObj (map (\<lambda>x. (x, a x)) xs)"
| "body_value a (FieldsAnd xs y) = JObj (spread_fields (a y) (map (\<lambda>x. (x, a x)) xs))"
| "body_value a NullBody = JNull"
| "body_value a (BodyOrEmpty x) = (if truthy (a x) then a x else JObj [])"
| "body_value a MfaFields =
     mfa_body (js_string (a ''mfaChallengeToken'')) (js_string (a ''code'')) (truthy (a ''isBackupCode''))"

record request =
  rq_verb :: verb
  rq_path :: string
  rq_query :: "(string \<times> jsv) list"
  rq_body :: jsv
  rq_headers :: "(string \<times> string) list"
  rq_blob :: bool

definition build_request :: "endpoint \<Rightarrow> args \<Rightarrow> request" where
  "build_request e a =
     \<lparr>rq_verb = ep_verb e, rq_path = render a None (ep_path e), rq_query = query_fields a (ep_query e),
      rq_body = body_value a (ep_body e),
      rq_headers = map (\<lambda>(n, x). (n, js_string (a x))) (ep_headers e), rq_blob = ep_blob e\<rparr>"

definition accept_response :: "(zod \<Rightarrow> jsv \<Rightarrow> bool) \<Rightarrow> endpoint \<Rightarrow> jsv \<Rightarrow> string + jsv" where
  "accept_response parse e data =
     (case ep_schema e of
        None \<Rightarrow> Inr data
      | Some (z, resource) \<Rightarrow> validateResponse parse z data resource)"

text \<open>axios hands the interceptors the method in lower case.\<close>

fun verb_name :: "verb \<Rightarrow> string" where
  "verb_name GET = ''get''"
| "verb_name POST = ''post''"
| "verb_name PUT = ''put''"
| "verb_name DELETE = ''delete''"

subsection \<open>The shape of a rendered path\<close>

text \<open>
  A template in which braces are balanced, not nested and hold no slash, checked by \<open>template_ok\<close>,
  splits into segments before or after its parameters are filled in, as long as no argument
  holds a slash.
\<close>

fun template_ok :: "bool \<Rightarrow> string \<Rightarrow> bool" where
  "template_ok inside [] = (\<not> inside)"
| "template_ok inside (c # cs) =
     (if inside then c \<noteq> CHR ''/'' \<and> c \<noteq> CHR ''{'' \<and> template_ok (c \<noteq> CHR ''}'') cs
      else c \<noteq> CHR ''}'' \<and> template_ok (c = CHR ''{'') cs)"

definition no_slash :: "string \<Rightarrow> bool" where "no_slash s \<longleftrightarrow> CHR ''/'' \<notin> set s"

definition prepend :: "string \<Rightarrow> string list \<Rightarrow> string list" where
  "prepend s ws = (case ws of [] \<Rightarrow> [s] | w # vs \<Rightarrow> (s @ w) # vs)"

lemma prepend_simps [simp]:
  "prepend s (w # ws) = (s @ w) # ws" "ws \<noteq> [] \<Longrightarrow> prepend [] ws = ws"
  by (simp_all add: prepend_def split: list.splits)

lemma split_on_prepend:
  "no_slash s \<Longrightarrow> split_on (CHR ''/'') (s @ t) = prepend s (split_on (CHR ''/'') t)"
proof (induction s)
  case (Cons c s)
  then show ?case
    by (cases "split_on (CHR ''/'') t") (auto simp: no_slash_def)
qed (cases "split_on (CHR ''/'') t"; simp)

lemma render_static:
  "CHR ''{'' \<notin> set s \<Longrightarrow> render a None (s @ t) = s @ render a None t"
  by (induction s) auto

lemma render_starts:
  assumes "starts_with t p" and "CHR ''{'' \<notin> set p"
  shows "starts_with (render a None t) p"
proof -
  obtain r where "t = p @ r" using assms(1) by (auto simp: starts_with_iff_prefix elim: prefixE)
  with assms(2) show ?thesis by (simp add: render_static starts_with_iff_prefix)
qed

lemma render_segments:
  assumes "\<forall>x. no_slash (js_string (a x))" and "template_ok (w \<noteq> None) t"
  shows "split_on (CHR ''/'') (render a w t) =
      (case split_on (CHR ''/'') t of s # ss \<Rightarrow> render a w s # map (render a None) ss)"
  using assms
proof (induction a w t rule: render.induct)
  case (2 a c cs)
  obtain s ss where s: "split_on (CHR ''/'') cs = s # ss"
    by (cases "split_on (CHR ''/'') cs") auto
  show ?case
  proof (cases "c = CHR ''{''")
    case True
    with 2 s show ?thesis by simp
  next
    case False
    with 2 s show ?thesis by (cases "c = CHR ''/''") auto
  qed
next
  case (3 a n c cs)
  obtain s ss where s: "split_on (CHR ''/'') cs = s # ss"
    by (cases "split_on (CHR ''/'') cs") auto
  show ?case
  proof (cases "c = CHR ''}''")
    case True
    with 3 s split_on_prepend [of "js_string (a n)" "render a None cs"] show ?thesis by simp
  next
    case False
    with 3 s show ?thesis by simp
  qed
qed auto

subsection \<open>The path of an address\<close>

text \<open>
  axios appends the path of a call and its query to the base address and hands the text to the browser,
  whose URL parser decides what is sent: it takes off blanks and control characters at the end and
  tabs and line ends anywhere, ends the path at \<open>?\<close> or \<open>#\<close>, reads a backslash as a slash, resolves the
  segments \<open>.\<close> and \<open>..\<close>, also escaped, and escapes some characters (the path state of the URL
  standard). The path of the address begins with a slash.
\<close>

definition char_code :: "char \<Rightarrow> nat" where "char_code c = of_char c"

definition url_trimmed :: "string \<Rightarrow> string" where
  "url_trimmed s =
     filter (\<lambda>c. char_code c \<notin> {9, 10, 13}) (rev (dropWhile (\<lambda>c. char_code c \<le> 32) (rev s)))"

definition single_dot :: "string \<Rightarrow> bool" where
  "single_dot s \<longleftrightarrow> to_lower s \<in> {''.'', ''%2e''}"

definition double_dot :: "string \<Rightarrow> bool" where
  "double_dot s \<longleftrightarrow> to_lower s \<in> {''..'', ''.%2e'', ''%2e.'', ''%2e%2e''}"

definition path_char :: "char \<Rightarrow> string" where
  "path_char c =
     (if char_code c \<le> 32 \<or> 126 < char_code c \<or> char_code c \<in> {34, 35, 60, 62, 63, 94, 96, 123, 125}
      then encode_uri_char c else [c])"

definition url_segment :: "string \<Rightarrow> string" where
  "url_segment s = concat (map path_char s)"

fun walk_path :: "string list \<Rightarrow> string list \<Rightarrow> string list" where
  "walk_path acc [] = acc"
| "walk_path acc (s # ss) =
     (if double_dot s then walk_path (butlast acc @ (if ss = [] then [[]] else [])) ss
      else if single_dot s then walk_path (acc @ (if ss = [] then [[]] else [])) ss
      else walk_path (acc @ [url_segment s]) ss)"

definition path_of :: "string list \<Rightarrow> string" where
  "path_of ss = concat (map ((#) (CHR ''/'')) ss)"

definition url_path :: "string \<Rightarrow> string" where
  "url_path s =
     (let p = takeWhile (\<lambda>c. c \<noteq> CHR ''?'' \<and> c \<noteq> CHR ''#'') (url_trimmed s)
      in path_of (walk_path []
           (tl (split_on (CHR ''/'') (map (\<lambda>c. if c = char_of (92 :: nat) then CHR ''/'' else c) p)))))"

text \<open>An argument that stays one segment of the path.\<close>

definition segment_char :: "char \<Rightarrow> bool" where
  "segment_char c \<longleftrightarrow> char_code c \<notin> {9, 10, 13, 35, 47, 63, 92}"

definition one_segment :: "string \<Rightarrow> bool" where
  "one_segment s \<longleftrightarrow>
     list_all segment_char s \<and> \<not> single_dot s \<and> \<not> double_dot s \<and> (s \<noteq> [] \<longrightarrow> 32 < char_code (last s))"

lemma char_code_simps [simp]:
  "char_code (CHR ''/'') = 47" "char_code (CHR ''?'') = 63" "char_code (CHR ''#'') = 35"
  "char_code (char_of (92 :: nat)) = 92" "char_code (CHR ''.'') = 46"
  "char_code (CHR ''%'') = 37" "char_code (CHR ''{'') = 123" "char_code (CHR ''}'') = 125"
  by (simp_all add: char_code_def)

lemma split_path_of: "\<forall>s \<in> set ss. no_slash s \<Longrightarrow> split_on (CHR ''/'') (path_of ss) = [] # ss"
proof (induction ss)
  case (Cons s ss)
  then have "split_on (CHR ''/'') (s @ path_of ss) = prepend s ([] # ss)"
    using split_on_prepend [of s "path_of ss"] by simp
  then show ?case by (simp add: path_of_def)
qed (simp add: path_of_def)

lemma path_of_split: "path_of (split_on (CHR ''/'') s) = CHR ''/'' # s"
  by (induction s) (auto simp: path_of_def split: list.splits)

lemma path_of_append: "path_of (ss @ ts) = path_of ss @ path_of ts"
  by (simp add: path_of_def)

lemma segment_chars:
  "list_all segment_char s \<Longrightarrow> no_slash s"
  "list_all segment_char s \<Longrightarrow> c \<in> set s \<Longrightarrow> char_code c \<notin> {9, 10, 13} \<and> c \<noteq> CHR ''?'' \<and> c \<noteq> CHR ''#'' \<and> c \<noteq> char_of (92 :: nat)"
proof -
  assume s: "list_all segment_char s"
  have "segment_char c \<Longrightarrow> char_code c \<notin> {9, 10, 13} \<and> c \<noteq> CHR ''?'' \<and> c \<noteq> CHR ''#'' \<and> c \<noteq> char_of (92 :: nat) \<and> c \<noteq> CHR ''/''" for c
    by (auto simp: segment_char_def)
  with s show "no_slash s"
    "c \<in> set s \<Longrightarrow> char_code c \<notin> {9, 10, 13} \<and> c \<noteq> CHR ''?'' \<and> c \<noteq> CHR ''#'' \<and> c \<noteq> char_of (92 :: nat)"
    unfolding list_all_iff no_slash_def by blast+
qed

text \<open>The parser leaves such segments in their places.\<close>

definition ends_visibly :: "string \<Rightarrow> bool" where
  "ends_visibly s \<longleftrightarrow> s = [] \<or> 32 < char_code (last s)"

lemma path_of_chars:
  assumes "\<forall>s \<in> set ss. list_all segment_char s" and "c \<in> set (path_of ss)"
  shows "char_code c \<notin> {9, 10, 13} \<and> c \<noteq> CHR ''?'' \<and> c \<noteq> CHR ''#'' \<and> c \<noteq> char_of (92 :: nat)"
proof (cases "c = CHR ''/''")
  case True
  then show ?thesis by (auto dest: arg_cong [where f = char_code])
next
  case False
  then obtain s where "s \<in> set ss" "c \<in> set s" using assms(2) by (auto simp: path_of_def split: if_splits)
  then show ?thesis using segment_chars(2) assms(1) by blast
qed

lemma url_trimmed_same:
  assumes "\<forall>c \<in> set s. char_code c \<notin> {9, 10, 13}" and "ends_visibly s"
  shows "url_trimmed s = s"
proof -
  have "rev (dropWhile (\<lambda>c. char_code c \<le> 32) (rev s)) = s"
    using assms(2) by (cases s rule: rev_cases) (auto simp: ends_visibly_def)
  then show ?thesis using assms(1) by (auto simp: url_trimmed_def filter_id_conv)
qed

lemma path_of_visible: "ss \<noteq> [] \<Longrightarrow> ends_visibly (last ss) \<Longrightarrow> ends_visibly (path_of ss)"
  by (cases ss rule: rev_cases) (auto simp: ends_visibly_def path_of_append path_of_def)

text \<open>\<open>q\<close> is what axios puts behind the path, nothing or a query.\<close>

lemma url_path_segments:
  assumes "\<forall>s \<in> set ss. list_all segment_char s" and "ss \<noteq> []" and "ends_visibly (last ss)"
    and "q = [] \<or> q = ''?''"
  shows "url_path (path_of ss @ q) = path_of (walk_path [] ss)"
proof -
  let ?p = "path_of ss" and ?keep = "\<lambda>c. c \<noteq> CHR ''?'' \<and> c \<noteq> CHR ''#''"
  note chars = path_of_chars [OF assms(1)]
  have "ends_visibly (?p @ q)" using path_of_visible [OF assms(2,3)] assms(4) by (auto simp: ends_visibly_def)
  then have "url_trimmed (?p @ q) = ?p @ q"
    by (rule url_trimmed_same [rotated]) (use chars assms(4) in auto)
  moreover have "takeWhile ?keep (?p @ q) = ?p" using chars assms(4) by (auto simp: takeWhile_append)
  moreover have "map (\<lambda>c. if c = char_of (92 :: nat) then CHR ''/'' else c) ?p = ?p"
    by (rule map_idI) (use chars in auto)
  moreover have "split_on (CHR ''/'') ?p = [] # ss"
    using split_path_of assms(1) segment_chars(1) by blast
  ultimately show ?thesis by (simp add: url_path_def Let_def)
qed

lemma walk_path_plain:
  "\<forall>s \<in> set ss. \<not> single_dot s \<and> \<not> double_dot s \<Longrightarrow> walk_path acc (ss @ ts) = walk_path (acc @ map url_segment ss) ts"
  by (induction ss arbitrary: acc) auto

lemma url_path_same:
  assumes "\<forall>s \<in> set ss. one_segment s" and "ss \<noteq> []" and "q = [] \<or> q = ''?''"
  shows "url_path (path_of ss @ q) = path_of (map url_segment ss)"
proof -
  have "ends_visibly (last ss)" using assms(1,2) by (auto simp: one_segment_def ends_visibly_def)
  moreover have "walk_path [] ss = map url_segment ss"
    using walk_path_plain [of ss "[]" "[]"] assms(1) by (auto simp: one_segment_def)
  ultimately show ?thesis using url_path_segments [of ss q] assms by (auto simp: one_segment_def)
qed

lemma char_code_less: "char_code c < 256"
  by (simp add: char_code_def)

lemma hex_digit_no_slash: "n < 16 \<Longrightarrow> hex_digit n \<noteq> CHR ''/''"
proof
  assume "n < 16" "hex_digit n = CHR ''/''"
  then have "char_code (hex_digit n) = 47" by simp
  then show False using \<open>n < 16\<close> by (auto simp: hex_digit_def char_code_def split: if_splits)
qed

lemma percent_no_slash: "n < 256 \<Longrightarrow> no_slash (percent_byte n)"
proof -
  assume "n < 256"
  then have "n div 16 < 16" "n mod 16 < 16" by (simp_all add: less_mult_imp_div_less)
  then have "CHR ''/'' \<noteq> hex_digit (n div 16)" "CHR ''/'' \<noteq> hex_digit (n mod 16)"
    using hex_digit_no_slash by metis+
  then show ?thesis by (simp add: no_slash_def percent_byte_def)
qed

lemma path_char_no_slash: "c \<noteq> CHR ''/'' \<Longrightarrow> no_slash (path_char c)"
proof -
  assume c: "c \<noteq> CHR ''/''"
  let ?n = "char_code c"
  have "192 + ?n div 64 < 256" "128 + ?n mod 64 < 256" using char_code_less [of c] by linarith+
  then have "no_slash (percent_byte (192 + ?n div 64) @ percent_byte (128 + ?n mod 64))"
    using percent_no_slash [of "192 + ?n div 64"] percent_no_slash [of "128 + ?n mod 64"] by (simp add: no_slash_def)
  moreover have "no_slash (percent_byte ?n)" by (rule percent_no_slash [OF char_code_less])
  moreover have "no_slash [c]" using c by (simp add: no_slash_def)
  ultimately have "no_slash (encode_uri_char c)" by (auto simp: encode_uri_char_def Let_def char_code_def)
  with \<open>no_slash [c]\<close> show ?thesis by (simp add: path_char_def)
qed

lemma url_segment_no_slash: "no_slash s \<Longrightarrow> no_slash (url_segment s)"
proof -
  assume s: "no_slash s"
  have "CHR ''/'' \<notin> set (path_char c)" if "c \<in> set s" for c
    using path_char_no_slash [of c] s that by (auto simp: no_slash_def)
  then show ?thesis by (simp add: no_slash_def url_segment_def)
qed

text \<open>Small letters and hyphens, as the templates have them, are written as they are.\<close>

definition static_char :: "char \<Rightarrow> bool" where
  "static_char c \<longleftrightarrow> 97 \<le> char_code c \<and> char_code c \<le> 122 \<or> char_code c = 45"

text \<open>The same on the bits of the character, which is faster to evaluate.\<close>

lemma static_char_bits [code]:
  "static_char (Char b0 b1 b2 b3 b4 b5 b6 b7) \<longleftrightarrow>
     \<not> b7 \<and> b5 \<and>
     (if b6 then (b0 \<or> b1 \<or> b2 \<or> b3 \<or> b4) \<and> \<not> (b4 \<and> b3 \<and> (b2 \<or> b1 \<and> b0))
      else b0 \<and> \<not> b1 \<and> b2 \<and> b3 \<and> \<not> b4)"
  by (cases b0; cases b1; cases b2; cases b3; cases b4; cases b5; cases b6; cases b7)
    (simp_all add: static_char_def char_code_def)

definition static_segment :: "string \<Rightarrow> bool" where
  "static_segment s \<longleftrightarrow> s \<noteq> [] \<and> list_all static_char s"

lemma static_chars:
  assumes "static_char c"
  shows "segment_char c" "path_char c = [c]" "32 < char_code c" "c \<notin> {CHR ''.'', CHR ''%'', CHR ''{''}"
proof -
  have n: "97 \<le> char_code c \<and> char_code c \<le> 122 \<or> char_code c = 45"
    using assms by (simp add: static_char_def)
  then show "32 < char_code c" by linarith
  show "segment_char c" using n by (auto simp: segment_char_def)
  show "path_char c = [c]" using n by (auto simp: path_char_def)
  show "c \<notin> {CHR ''.'', CHR ''%'', CHR ''{''}" using n by auto
qed

lemma lower_char_dot: "lower_char c \<in> {CHR ''.'', CHR ''%''} \<Longrightarrow> c \<in> {CHR ''.'', CHR ''%''}"
  by (auto simp: lower_char_def Let_def dest!: arg_cong [where f = "of_char :: char \<Rightarrow> nat"] split: if_splits)

lemma static_segment:
  assumes "static_segment s"
  shows "one_segment s" "url_segment s = s" "CHR ''{'' \<notin> set s" "no_slash s"
proof -
  have c: "\<forall>c \<in> set s. segment_char c \<and> path_char c = [c] \<and> 32 < char_code c \<and> c \<notin> {CHR ''.'', CHR ''%'', CHR ''{''}"
    and "s \<noteq> []"
    using assms static_chars by (fastforce simp: static_segment_def list_all_iff)+
  have "lower_char (hd s) \<notin> {CHR ''.'', CHR ''%''}" using lower_char_dot [of "hd s"] c \<open>s \<noteq> []\<close> by auto
  then have "hd (to_lower s) \<notin> {CHR ''.'', CHR ''%''}" using \<open>s \<noteq> []\<close> by (cases s) (simp_all add: to_lower_def)
  then have "\<not> single_dot s" "\<not> double_dot s" by (auto simp: single_dot_def double_dot_def)
  then show "one_segment s" using c \<open>s \<noteq> []\<close> by (auto simp: one_segment_def list_all_iff)
  show "CHR ''{'' \<notin> set s" using c by blast
  show "no_slash s" using c segment_chars(1) by (auto simp: list_all_iff)
  have "map path_char s = map (\<lambda>c. [c]) s" using c by simp
  then show "url_segment s = s" unfolding url_segment_def by (simp only: concat_map_singleton list.map_ident)
qed

text \<open>What a service reads from such a path when it decodes it.\<close>

lemma decode_url_segment:
  "CHR ''%'' \<notin> set s \<Longrightarrow> decode_uri_component (url_segment s @ r) = map_option ((@) s) (decode_uri_component r)"
proof (induction s)
  case (Cons c s)
  have "decode_uri_component (path_char c @ t) = map_option ((#) c) (decode_uri_component t)" for t
    using Cons.prems decode_encode_char [of c t] by (auto simp: path_char_def)
  with Cons show ?case by (simp add: url_segment_def option.map_comp comp_def)
next
  case Nil
  show ?case by (cases "decode_uri_component r") (simp_all add: url_segment_def)
qed

lemma decode_path_of:
  "\<forall>s \<in> set ss. CHR ''%'' \<notin> set s \<Longrightarrow> decode_uri_component (path_of (map url_segment ss)) = Some (path_of ss)"
  by (induction ss) (simp_all add: path_of_def decode_url_segment)

lemma url_segment_empty: "url_segment s = [] \<longleftrightarrow> s = []"
proof -
  have "path_char c \<noteq> []" for c by (simp add: path_char_def encode_uri_char_def percent_byte_def Let_def)
  then show ?thesis by (cases s) (simp_all add: url_segment_def)
qed

subsection \<open>Templates\<close>

text \<open>A segment of a template is fixed or a parameter in braces.\<close>

definition parameter :: "string \<Rightarrow> string option" where
  "parameter s =
     (if 2 \<le> length s \<and> hd s = CHR ''{'' \<and> last s = CHR ''}'' \<and> list_all (\<lambda>c. c \<noteq> CHR ''/'' \<and> c \<noteq> CHR ''}'') (butlast (tl s))
      then Some (butlast (tl s)) else None)"

definition path_parameters :: "string \<Rightarrow> string list" where
  "path_parameters p = List.map_filter parameter (split_on (CHR ''/'') (tl p))"

definition template_segments_ok :: "string \<Rightarrow> bool" where
  "template_segments_ok p \<longleftrightarrow>
     starts_with p ''/'' \<and> list_all (\<lambda>s. static_segment s \<or> parameter s \<noteq> None) (split_on (CHR ''/'') (tl p))"

definition fill :: "args \<Rightarrow> string \<Rightarrow> string" where
  "fill a s = (case parameter s of Some x \<Rightarrow> js_string (a x) | None \<Rightarrow> s)"

lemma render_parameter:
  "CHR ''}'' \<notin> set x \<Longrightarrow> render a (Some n) (x @ CHR ''}'' # t) = js_string (a (n @ x)) @ render a None t"
  by (induction x arbitrary: n) auto

lemma parameter_Some:
  "parameter s = Some x \<Longrightarrow> s = CHR ''{'' # x @ ''}'' \<and> CHR ''}'' \<notin> set x \<and> no_slash s"
proof -
  assume p: "parameter s = Some x"
  then have c: "2 \<le> length s" "hd s = CHR ''{''" "last s = CHR ''}''" "x = butlast (tl s)"
    "list_all (\<lambda>c. c \<noteq> CHR ''/'' \<and> c \<noteq> CHR ''}'') x"
    by (auto simp: parameter_def split: if_splits)
  have s: "s = CHR ''{'' # x @ ''}''"
    using c(1-4) append_butlast_last_id [of "tl s"]
    by (cases s) (simp_all add: Suc_le_eq del: append_butlast_last_id split: if_splits)
  have "CHR ''}'' \<notin> set x" "CHR ''/'' \<notin> set x" using c(5) by (auto simp: list_all_iff)
  with s show ?thesis by (simp add: no_slash_def)
qed

lemma static_no_parameter: "static_segment s \<Longrightarrow> parameter s = None"
  using static_segment(3) [of s] by (cases s) (auto simp: parameter_def)

lemma render_segment:
  assumes "static_segment s \<or> parameter s \<noteq> None"
  shows "render a None (s @ t) = fill a s @ render a None t"
  using assms
proof
  assume "static_segment s"
  then show ?thesis using static_segment(3) static_no_parameter by (simp add: render_static fill_def)
next
  assume "parameter s \<noteq> None"
  then obtain x where x: "parameter s = Some x" by blast
  then show ?thesis using parameter_Some [OF x] render_parameter [of x a "[]" t] by (simp add: fill_def)
qed

lemma render_path_of:
  "\<forall>s \<in> set ss. static_segment s \<or> parameter s \<noteq> None \<Longrightarrow> render a None (path_of ss) = path_of (map (fill a) ss)"
  by (induction ss) (simp_all add: path_of_def render_segment)

text \<open>The path of a call, with its arguments as they are.\<close>

lemma rendered_path:
  assumes "template_segments_ok p"
  shows "render a None p = path_of (map (fill a) (split_on (CHR ''/'') (tl p)))"
proof -
  have "p = path_of (split_on (CHR ''/'') (tl p))"
    using assms by (cases p) (auto simp: template_segments_ok_def path_of_split starts_with_def)
  then show ?thesis
    using render_path_of [of "split_on (CHR ''/'') (tl p)" a] assms by (simp add: template_segments_ok_def list_all_iff)
qed

lemma filled_segments:
  assumes "template_segments_ok p" and "\<forall>x \<in> set (path_parameters p). one_segment (js_string (a x))"
    and "s \<in> set (split_on (CHR ''/'') (tl p))"
  shows "one_segment (fill a s)"
proof (cases "parameter s")
  case None
  then show ?thesis using assms(1,3) static_segment(1) by (auto simp: fill_def template_segments_ok_def list_all_iff)
next
  case (Some x)
  then have "x \<in> set (path_parameters p)" using assms(3) by (auto simp: path_parameters_def map_filter_def intro!: image_eqI)
  with assms(2) Some show ?thesis by (simp add: fill_def)
qed

end
