(* ===== verification/Api_Catalogue.thy ===== *)
theory Api_Catalogue
  imports Api_Request
begin

section \<open>The endpoint catalogue\<close>

text \<open>
  The endpoint objects of \<open>frontend/src/lib/api.ts\<close>, function by function in the order of the
  source; a dotted name is a nested property. Three functions are not calls of the axios
  instance and are modelled on their own: \<open>copilotApi.chat.stream\<close>, which uses \<open>fetch\<close>, and the
  two addresses \<open>liveApi\<close> builds.
\<close>

definition authApi :: "endpoint list" where
  "authApi = [
     checked loginResponseSchema ''API'' (http_post ''login'' ''/auth/login'' (Fields [''email'',
       ''password''])),
     checked mfaValidateResponseSchema ''API'' (http_post ''validateMfa'' ''/auth/mfa/validate''
       MfaFields),
     checked loginResponseSchema ''API'' (http_post ''register'' ''/auth/register'' (Body
       ''data'')),
     checked loginResponseSchema ''API'' (http_post ''refresh'' ''/auth/refresh'' NoBody),
     http_post ''logout'' ''/auth/logout'' NoBody,
     http_post ''requestPasswordReset'' ''/auth/password/reset-request'' (Fields [''email'']),
     http_post ''resetPassword'' ''/auth/password/reset'' (Fields [''token'', ''password''])]"

definition sessionsApi :: "endpoint list" where
  "sessionsApi = [
     checked (ZArray sessionSchema) ''sessions'' (with_query Params (http_get ''list''
       ''/auth/sessions'')),
     http_delete ''revoke'' ''/auth/sessions/{id}'',
     header ''x-session-id'' ''currentSessionId'' (http_delete ''revokeOthers''
       ''/auth/sessions'')]"

definition devicesApi :: "endpoint list" where
  "devicesApi = [
     checked (ZArray deviceSchema) ''devices'' (with_query Params (http_get ''list'' ''/auth/devices'')),
     checked deviceSchema ''device'' (http_put ''toggleTrust'' ''/auth/devices/{id}/trust'' NoBody),
     http_delete ''remove'' ''/auth/devices/{id}'']"

definition employeeApi :: "endpoint list" where
  "employeeApi = [
     checked employeeListSchema ''employees'' (with_query (Query [(''page'', ArgField ''params''
       ''page''), (''page_size'', ArgField ''params'' ''pageSize''), (''search'', ArgField
       ''params'' ''search'')]) (http_get ''list'' ''/employee/employees'')),
     checked employeeSchema ''employee'' (http_get ''get'' ''/employee/employees/{email}''),
     checked employeeSchema ''employee'' (http_post ''create'' ''/employee/employees'' (Body
       ''employee'')),
     checked employeeSchema ''employee'' (http_put ''update'' ''/employee/employees/{email}'' (Body
       ''employee'')),
     http_delete ''delete'' ''/employee/employees/{email}'',
     checked orgTreeResponseSchema ''org hierarchy'' (http_get ''hierarchy''
       ''/employee/employees/hierarchy'')]"

definition analyticsApi :: "endpoint list" where
  "analyticsApi = [
     http_get ''department'' ''/analytics/department'',
     http_get ''payroll'' ''/analytics/payroll'',
     http_get ''performance'' ''/analytics/performance'',
     http_post ''aiInsights'' ''/analytics/ai-insights'' NoBody]"

definition leaveApi :: "endpoint list" where
  "leaveApi = [
     http_get ''list'' ''/leave'',
     http_get ''getByEmployee'' ''/leave/employee/{employeeId}'',
     http_post ''request'' ''/leave/request'' (Body ''data''),
     http_put ''updateStatus'' ''/leave/{id}/status'' (Fields [''status''])]"

definition payrollApi :: "endpoint list" where
  "payrollApi = [
     checked payrollListSchema ''payroll'' (http_get ''list'' ''/payroll''),
     checked payrollListSchema ''payroll'' (http_get ''getByEmployee''
       ''/payroll/employee/{employeeId}''),
     checked payrollRecordSchema ''payroll'' (http_post ''run'' ''/payroll/run'' (Body ''data'')),
     http_get ''enterprise.dashboard'' ''/payroll/enterprise/dashboard'',
     http_get ''enterprise.payrolls.list'' ''/payroll/enterprise/payrolls'',
     http_get ''enterprise.payrolls.byEmployee''
       ''/payroll/enterprise/payrolls/employee/{employeeId}'',
     http_get ''enterprise.payrolls.byPeriod'' ''/payroll/enterprise/payrolls/period/{period}'',
     http_post ''enterprise.payrolls.run'' ''/payroll/enterprise/payrolls/run'' (Body ''data''),
     http_get ''enterprise.tax.configs.list'' ''/payroll/enterprise/tax-configs'',
     http_post ''enterprise.tax.configs.create'' ''/payroll/enterprise/tax-configs'' (Body
       ''data''),
     http_get ''enterprise.tax.brackets.list'' ''/payroll/enterprise/tax-brackets'',
     http_post ''enterprise.tax.brackets.create'' ''/payroll/enterprise/tax-brackets'' (Body
       ''data''),
     http_post ''enterprise.tax.simulate'' ''/payroll/enterprise/tax/simulate'' (Fields
       [''country'', ''grossSalary'']),
     http_post ''enterprise.tax.compare'' ''/payroll/enterprise/tax/compare'' (Fields
       [''countries'', ''grossSalary'']),
     http_get ''enterprise.forecasts.list'' ''/payroll/enterprise/forecasts'',
     http_post ''enterprise.forecasts.generate'' ''/payroll/enterprise/forecasts/generate'' (Fields
       [''period'']),
     http_get ''enterprise.auditLogs'' ''/payroll/enterprise/audit-logs'',
     http_get ''enterprise.payslips.list'' ''/payroll/enterprise/payslips'',
     http_get ''enterprise.payslips.byEmployee''
       ''/payroll/enterprise/payslips/employee/{employeeId}'',
     http_get ''enterprise.bank.list'' ''/payroll/enterprise/bank/transactions'',
     http_post ''enterprise.bank.create'' ''/payroll/enterprise/bank/transactions'' (Body ''data''),
     http_post ''enterprise.bank.process'' ''/payroll/enterprise/bank/transactions/{id}/process''
       NoBody,
     http_get ''enterprise.expenses.list'' ''/payroll/enterprise/expenses'',
     http_get ''enterprise.expenses.byEmployee''
       ''/payroll/enterprise/expenses/employee/{employeeId}'',
     http_post ''enterprise.expenses.submit'' ''/payroll/enterprise/expenses'' (Body ''data''),
     http_post ''enterprise.expenses.approve'' ''/payroll/enterprise/expenses/{id}/approve''
       (Fields [''approvedBy'']),
     http_post ''enterprise.expenses.reject'' ''/payroll/enterprise/expenses/{id}/reject'' (Fields
       [''reason'']),
     http_get ''enterprise.benefits.plans.list'' ''/payroll/enterprise/benefit-plans'',
     http_post ''enterprise.benefits.plans.create'' ''/payroll/enterprise/benefit-plans'' (Body
       ''data''),
     http_get ''enterprise.benefits.enrollments.list'' ''/payroll/enterprise/benefit-enrollments'',
     http_post ''enterprise.benefits.enrollments.enroll''
       ''/payroll/enterprise/benefit-enrollments'' (Fields [''employeeId'', ''planId'']),
     http_get ''enterprise.compensation.list'' ''/payroll/enterprise/compensation-plans'',
     http_post ''enterprise.compensation.create'' ''/payroll/enterprise/compensation-plans'' (Body
       ''data''),
     http_get ''enterprise.bonuses.list'' ''/payroll/enterprise/bonuses'',
     http_post ''enterprise.bonuses.create'' ''/payroll/enterprise/bonuses'' (Body ''data''),
     http_post ''enterprise.bonuses.approve'' ''/payroll/enterprise/bonuses/{id}/approve'' (Fields
       [''approvedBy'']),
     http_get ''enterprise.equity.list'' ''/payroll/enterprise/equity'',
     http_get ''enterprise.equity.byEmployee'' ''/payroll/enterprise/equity/employee/{employeeId}'',
     http_post ''enterprise.equity.create'' ''/payroll/enterprise/equity'' (Body ''data''),
     http_get ''enterprise.benchmarks.list'' ''/payroll/enterprise/benchmarks'',
     http_post ''enterprise.benchmarks.add'' ''/payroll/enterprise/benchmarks'' (Body ''data''),
     http_post ''enterprise.benchmarks.compare'' ''/payroll/enterprise/benchmarks/compare'' (Fields
       [''role'', ''currentSalary'', ''experience'', ''location'']),
     http_get ''enterprise.compliance.list'' ''/payroll/enterprise/compliance-reports'',
     http_post ''enterprise.compliance.generate''
       ''/payroll/enterprise/compliance-reports/generate'' (Fields [''reportType'', ''period'',
       ''country'']),
     http_get ''enterprise.anomalies.list'' ''/payroll/enterprise/anomalies'',
     http_post ''enterprise.anomalies.resolve'' ''/payroll/enterprise/anomalies/{id}/resolve''
       NoBody]"

definition selfServiceApi :: "endpoint list" where
  "selfServiceApi = [
     checked employeeSchema ''profile'' (http_get ''profile.get'' ''/employee/me''),
     checked employeeSchema ''profile'' (http_put ''profile.update'' ''/employee/me'' (Body
       ''data'')),
     checked myLeavePageSchema ''leave'' (with_query Params (http_get ''leave.list'' ''/leave/me'')),
     checked myLeaveBalancesSchema ''leave balances'' (http_get ''leave.balances''
       ''/leave/me/balances''),
     checked myPayslipListSchema ''payslips'' (http_get ''payslips.list'' ''/payroll/me/payslips''),
     checked myPayslipSchema ''payslip'' (http_get ''payslips.get'' ''/payroll/me/payslips/{id}''),
     blob (http_get ''payslips.download'' ''/payroll/me/payslips/{id}/download'')]"

definition attendanceApi :: "endpoint list" where
  "attendanceApi = [
     with_query Params (http_get ''list'' ''/attendance''),
     http_get ''get'' ''/attendance/{id}'',
     http_get ''getByEmployee'' ''/attendance/employee/{employeeId}'',
     http_post ''clockIn'' ''/attendance/clock-in'' (FieldsAnd [''employeeId'', ''localDate'']
       ''options''),
     http_post ''clockOut'' ''/attendance/clock-out'' (FieldsAnd [''employeeId'', ''localDate'']
       ''options''),
     http_get ''dashboard'' ''/attendance/dashboard/summary'',
     http_get ''geoFences.list'' ''/attendance/geo-fences'',
     http_post ''geoFences.create'' ''/attendance/geo-fences'' (Body ''data''),
     http_put ''geoFences.update'' ''/attendance/geo-fences/{id}'' (Body ''data''),
     http_delete ''geoFences.delete'' ''/attendance/geo-fences/{id}'',
     http_post ''geoFences.verify'' ''/attendance/geo-fences/verify'' (Fields [''latitude'',
       ''longitude'']),
     http_get ''shifts.list'' ''/attendance/shifts'',
     http_post ''shifts.create'' ''/attendance/shifts'' (Body ''data''),
     http_put ''shifts.update'' ''/attendance/shifts/{id}'' (Body ''data''),
     http_delete ''shifts.delete'' ''/attendance/shifts/{id}'',
     http_post ''employeeShifts.assign'' ''/attendance/employee-shifts'' (Body ''data''),
     http_get ''employeeShifts.getByEmployee'' ''/attendance/employee-shifts/{employeeId}'',
     with_query Params (http_get ''rosters.list'' ''/attendance/rosters''),
     http_post ''rosters.create'' ''/attendance/rosters'' (Body ''data''),
     http_post ''rosters.bulk'' ''/attendance/rosters/bulk'' (Fields [''employeeIds'', ''date'',
       ''shiftId'']),
     http_post ''rosters.publish'' ''/attendance/rosters/{id}/publish'' NoBody,
     http_post ''qr.generate'' ''/attendance/qr/generate'' NoBody,
     http_post ''qr.validate'' ''/attendance/qr/validate'' (Fields [''token'']),
     http_post ''qr.use'' ''/attendance/qr/use'' (Fields [''token'']),
     http_post ''nfc.register'' ''/attendance/nfc/register'' (Body ''data''),
     http_get ''nfc.list'' ''/attendance/nfc/list'',
     http_post ''nfc.validate'' ''/attendance/nfc/validate'' (Fields [''nfcUid'']),
     http_post ''face.enroll'' ''/attendance/face/enroll'' (Fields [''employeeId'', ''imageUrl'',
       ''faceVector'']),
     http_get ''face.getEnrollment'' ''/attendance/face/enrollment/{employeeId}'',
     http_post ''face.verify'' ''/attendance/face/verify'' (Fields [''employeeId'', ''faceImage'']),
     http_post ''biometric.register'' ''/attendance/biometric/register'' (Body ''data''),
     http_get ''biometric.devices'' ''/attendance/biometric/devices'',
     http_post ''biometric.verify'' ''/attendance/biometric/verify'' (Fields [''employeeId'',
       ''hash'']),
     with_query Params (http_get ''anomalies.list'' ''/attendance/anomalies''),
     http_post ''anomalies.resolve'' ''/attendance/anomalies/{id}/resolve'' NoBody,
     http_post ''wfh.create'' ''/attendance/wfh'' (Body ''data''),
     with_query Params (http_get ''wfh.list'' ''/attendance/wfh''),
     with_query (Query [(''period'', Arg ''period'')]) (http_get ''heatmap'' ''/attendance/heatmap''),
     http_post ''predictLateArrival'' ''/attendance/predict/late-arrival'' (Fields
       [''employeeId'']),
     http_get ''aiInsights'' ''/attendance/ai/insights'']"

definition atsApi :: "endpoint list" where
  "atsApi = [
     with_query Params (http_get ''getJobs'' ''/ats/jobs''),
     http_get ''getJob'' ''/ats/jobs/{id}'',
     http_post ''createJob'' ''/ats/jobs'' (Body ''data''),
     http_put ''updateJob'' ''/ats/jobs/{id}'' (Body ''data''),
     http_delete ''deleteJob'' ''/ats/jobs/{id}'',
     http_post ''publishJob'' ''/ats/jobs/{id}/publish'' NoBody,
     http_post ''closeJob'' ''/ats/jobs/{id}/close'' NoBody,
     with_query Params (http_get ''getCandidates'' ''/ats/candidates''),
     http_get ''getCandidate'' ''/ats/candidates/{id}'',
     http_post ''createCandidate'' ''/ats/candidates'' (Body ''data''),
     http_put ''updateCandidate'' ''/ats/candidates/{id}'' (Body ''data''),
     http_delete ''deleteCandidate'' ''/ats/candidates/{id}'',
     with_query Params (http_get ''getApplications'' ''/ats/applications''),
     http_get ''getApplication'' ''/ats/applications/{id}'',
     http_post ''submitApplication'' ''/ats/applications'' (Body ''data''),
     http_put ''updateApplicationStatus'' ''/ats/applications/{id}/status'' (Fields [''status'']),
     with_query Params (http_get ''getInterviews'' ''/ats/interviews''),
     http_post ''scheduleInterview'' ''/ats/interviews'' (Body ''data''),
     http_put ''updateInterview'' ''/ats/interviews/{id}'' (Body ''data''),
     http_post ''submitInterviewFeedback'' ''/ats/interviews/{id}/feedback'' (Body ''data''),
     with_query Params (http_get ''getOffers'' ''/ats/offers''),
     http_post ''createOffer'' ''/ats/offers'' (Body ''data''),
     http_put ''updateOffer'' ''/ats/offers/{id}'' (Body ''data''),
     http_post ''sendOffer'' ''/ats/offers/{id}/send'' NoBody,
     http_post ''acceptOffer'' ''/ats/offers/{id}/accept'' NoBody,
     http_post ''declineOffer'' ''/ats/offers/{id}/decline'' NoBody,
     http_get ''getAnalyticsOverview'' ''/ats/analytics/overview'',
     http_get ''getTimeToHire'' ''/ats/analytics/time-to-hire'',
     http_get ''getSourceEffectiveness'' ''/ats/analytics/source-effectiveness'',
     http_get ''getConversionFunnel'' ''/ats/analytics/conversion-funnel'']"

definition billingApi :: "endpoint list" where
  "billingApi = [
     http_post ''createCheckout'' ''/billing/create-checkout-session'' NoBody]"

definition performanceApi :: "endpoint list" where
  "performanceApi = [
     with_query Params (http_get ''goals.list'' ''/performance/goals''),
     http_get ''goals.get'' ''/performance/goals/{id}'',
     http_post ''goals.create'' ''/performance/goals'' (Body ''data''),
     http_put ''goals.update'' ''/performance/goals/{id}'' (Body ''data''),
     http_delete ''goals.delete'' ''/performance/goals/{id}'',
     http_put ''goals.updateProgress'' ''/performance/goals/{id}/progress'' (Fields [''progress'']),
     http_post ''goals.align'' ''/performance/goals/{id}/align'' (Body ''data''),
     with_query Params (http_get ''reviews.list'' ''/performance/reviews''),
     http_get ''reviews.get'' ''/performance/reviews/{id}'',
     http_post ''reviews.create'' ''/performance/reviews'' (Body ''data''),
     http_put ''reviews.update'' ''/performance/reviews/{id}'' (Body ''data''),
     http_post ''reviews.submit'' ''/performance/reviews/{id}/submit'' (Body ''data''),
     http_delete ''reviews.delete'' ''/performance/reviews/{id}'',
     with_query Params (http_get ''feedback.list'' ''/performance/feedback''),
     http_post ''feedback.create'' ''/performance/feedback'' (Body ''data''),
     http_delete ''feedback.delete'' ''/performance/feedback/{id}'',
     http_get ''succession.list'' ''/performance/succession'',
     http_get ''succession.get'' ''/performance/succession/{id}'',
     http_post ''succession.create'' ''/performance/succession'' (Body ''data''),
     http_put ''succession.update'' ''/performance/succession/{id}'' (Body ''data''),
     http_post ''succession.evaluate'' ''/performance/succession/{id}/evaluate'' NoBody,
     with_query Params (http_get ''kpiTargets.list'' ''/performance/kpi-targets''),
     http_get ''kpiTargets.get'' ''/performance/kpi-targets/{id}'',
     http_post ''kpiTargets.create'' ''/performance/kpi-targets'' (Body ''data''),
     http_put ''kpiTargets.update'' ''/performance/kpi-targets/{id}'' (Body ''data''),
     http_delete ''kpiTargets.delete'' ''/performance/kpi-targets/{id}'',
     with_query Params (http_get ''continuousFeedback.list'' ''/performance/continuous-feedback''),
     http_post ''continuousFeedback.create'' ''/performance/continuous-feedback'' (Body ''data''),
     http_post ''continuousFeedback.acknowledge''
       ''/performance/continuous-feedback/{id}/acknowledge'' NoBody,
     http_delete ''continuousFeedback.delete'' ''/performance/continuous-feedback/{id}'',
     with_query Params (http_get ''managerReviews.list'' ''/performance/manager-reviews''),
     http_get ''managerReviews.get'' ''/performance/manager-reviews/{id}'',
     http_post ''managerReviews.create'' ''/performance/manager-reviews'' (Body ''data''),
     http_put ''managerReviews.update'' ''/performance/manager-reviews/{id}'' (Body ''data''),
     http_post ''managerReviews.submit'' ''/performance/manager-reviews/{id}/submit'' NoBody,
     with_query Params (http_get ''peerReviews.list'' ''/performance/peer-reviews''),
     http_get ''peerReviews.get'' ''/performance/peer-reviews/{id}'',
     http_post ''peerReviews.create'' ''/performance/peer-reviews'' (Body ''data''),
     http_put ''peerReviews.update'' ''/performance/peer-reviews/{id}'' (Body ''data''),
     with_query Params (http_get ''calibrations.list'' ''/performance/calibrations''),
     http_get ''calibrations.get'' ''/performance/calibrations/{id}'',
     http_post ''calibrations.create'' ''/performance/calibrations'' (Body ''data''),
     http_put ''calibrations.update'' ''/performance/calibrations/{id}'' (Body ''data''),
     http_post ''calibrations.complete'' ''/performance/calibrations/{id}/complete'' NoBody,
     with_query Params (http_get ''promotionReadiness.list'' ''/performance/promotion-readiness''),
     http_get ''promotionReadiness.get'' ''/performance/promotion-readiness/{id}'',
     http_post ''promotionReadiness.create'' ''/performance/promotion-readiness'' (Body ''data''),
     http_put ''promotionReadiness.update'' ''/performance/promotion-readiness/{id}'' (Body
       ''data''),
     with_query Params (http_get ''talentReviewBoard.list'' ''/performance/talent-review-board''),
     http_get ''talentReviewBoard.get'' ''/performance/talent-review-board/{id}'',
     http_post ''talentReviewBoard.create'' ''/performance/talent-review-board'' (Body ''data''),
     http_put ''talentReviewBoard.update'' ''/performance/talent-review-board/{id}'' (Body
       ''data''),
     http_post ''talentReviewBoard.complete'' ''/performance/talent-review-board/{id}/complete''
       NoBody,
     with_query Params (http_get ''hiPo.list'' ''/performance/hipo''),
     http_get ''hiPo.get'' ''/performance/hipo/{id}'',
     http_post ''hiPo.create'' ''/performance/hipo'' (Body ''data''),
     http_put ''hiPo.update'' ''/performance/hipo/{id}'' (Body ''data''),
     with_query Params (http_get ''leadershipReadiness.list'' ''/performance/leadership-readiness''),
     http_get ''leadershipReadiness.get'' ''/performance/leadership-readiness/{id}'',
     http_post ''leadershipReadiness.create'' ''/performance/leadership-readiness'' (Body ''data''),
     http_put ''leadershipReadiness.update'' ''/performance/leadership-readiness/{id}'' (Body
       ''data''),
     with_query Params (http_get ''aiInsights.list'' ''/performance/ai-insights''),
     http_get ''aiInsights.get'' ''/performance/ai-insights/{id}'',
     http_post ''aiInsights.generate'' ''/performance/ai-insights/generate/{employeeId}'' NoBody,
     with_query Params (http_get ''coachingRecommendations.list''
       ''/performance/coaching-recommendations''),
     http_get ''coachingRecommendations.get'' ''/performance/coaching-recommendations/{id}'',
     http_post ''coachingRecommendations.create'' ''/performance/coaching-recommendations'' (Body
       ''data''),
     http_put ''coachingRecommendations.update'' ''/performance/coaching-recommendations/{id}''
       (Body ''data''),
     with_query Params (http_get ''developmentPlans.list'' ''/performance/development-plans''),
     http_get ''developmentPlans.get'' ''/performance/development-plans/{id}'',
     http_post ''developmentPlans.create'' ''/performance/development-plans'' (Body ''data''),
     http_put ''developmentPlans.update'' ''/performance/development-plans/{id}'' (Body ''data''),
     http_delete ''developmentPlans.delete'' ''/performance/development-plans/{id}'',
     with_query Params (http_get ''goalAlignment.list'' ''/performance/goal-alignment''),
     http_post ''goalAlignment.create'' ''/performance/goal-alignment'' (Body ''data''),
     http_get ''dashboard'' ''/performance/dashboard'']"

definition complianceApi :: "endpoint list" where
  "complianceApi = [
     with_query Params (http_get ''policies.list'' ''/compliance/policies''),
     http_get ''policies.get'' ''/compliance/policies/{id}'',
     http_post ''policies.create'' ''/compliance/policies'' (Body ''data''),
     http_put ''policies.update'' ''/compliance/policies/{id}'' (Body ''data''),
     http_delete ''policies.delete'' ''/compliance/policies/{id}'',
     http_post ''policies.review'' ''/compliance/policies/{id}/review'' NoBody,
     with_query Params (http_get ''violations.list'' ''/compliance/violations''),
     http_get ''violations.get'' ''/compliance/violations/{id}'',
     http_post ''violations.create'' ''/compliance/violations'' (Body ''data''),
     http_put ''violations.updateStatus'' ''/compliance/violations/{id}/status'' (Fields
       [''status'', ''resolution'']),
     with_query Params (http_get ''auditLogs.list'' ''/compliance/audit-logs''),
     blob (with_query Params (http_get ''auditLogs.export'' ''/compliance/audit-logs/export'')),
     http_get ''dashboard'' ''/compliance/dashboard'',
     http_get ''readiness'' ''/compliance/readiness'']"

definition copilotApi :: "endpoint list" where
  "copilotApi = [
     http_post ''chat.send'' ''/copilot/chat'' (Fields [''message'', ''sessionId'']),
     http_get ''sessions.list'' ''/copilot/sessions'',
     http_get ''sessions.get'' ''/copilot/sessions/{id}'',
     http_post ''sessions.create'' ''/copilot/sessions'' (Fields [''title'']),
     http_delete ''sessions.delete'' ''/copilot/sessions/{id}'',
     http_get ''predictions.attrition'' ''/copilot/predictions/attrition'',
     http_get ''predictions.hiring'' ''/copilot/predictions/hiring'',
     http_get ''predictions.performance'' ''/copilot/predictions/performance'',
     http_get ''insights'' ''/copilot/insights'']"

definition commandCenterApi :: "endpoint list" where
  "commandCenterApi = [
     http_get ''overview'' ''/command-center/overview'',
     http_get ''orgHealth'' ''/command-center/org-health'',
     http_get ''departmentHeatmap'' ''/command-center/department-heatmap'',
     http_get ''workforceCost'' ''/command-center/workforce-cost'',
     http_get ''attritionRiskMap'' ''/command-center/attrition-risk-map'',
     http_get ''hiringPipeline'' ''/command-center/hiring-pipeline'',
     http_get ''budgetForecast'' ''/command-center/budget-forecast'',
     http_get ''utilization'' ''/command-center/utilization'',
     http_get ''benchmarking'' ''/command-center/benchmarking'',
     http_get ''aiBriefing'' ''/command-center/ai-briefing'',
     http_get ''riskDashboard'' ''/command-center/risk-dashboard'',
     with_query Params (http_get ''activityFeed'' ''/command-center/activity-feed''),
     http_get ''kpiHistory'' ''/command-center/kpi-history/{kpi}'']"

definition integrationApi :: "endpoint list" where
  "integrationApi = [
     http_get ''dashboard'' ''/integration/dashboard'',
     with_query Params (http_get ''webhooks.list'' ''/integration/webhooks''),
     http_get ''webhooks.get'' ''/integration/webhooks/{id}'',
     http_post ''webhooks.create'' ''/integration/webhooks'' (Body ''data''),
     http_put ''webhooks.update'' ''/integration/webhooks/{id}'' (Body ''data''),
     http_delete ''webhooks.delete'' ''/integration/webhooks/{id}'',
     with_query Params (http_get ''webhooks.deliveries'' ''/integration/webhooks/{id}/deliveries''),
     with_query Params (http_get ''subscriptions.list'' ''/integration/subscriptions''),
     http_post ''subscriptions.create'' ''/integration/subscriptions'' (Body ''data''),
     http_put ''subscriptions.update'' ''/integration/subscriptions/{id}'' (Body ''data''),
     http_delete ''subscriptions.delete'' ''/integration/subscriptions/{id}'',
     with_query Params (http_get ''outbox.list'' ''/integration/outbox''),
     http_get ''config.list'' ''/integration/config'',
     http_get ''config.get'' ''/integration/config/{key}'',
     http_post ''config.create'' ''/integration/config'' (Body ''data''),
     http_put ''config.update'' ''/integration/config/{key}'' (Body ''data''),
     http_delete ''config.delete'' ''/integration/config/{key}'']"

definition lifecycleApi :: "endpoint list" where
  "lifecycleApi = [
     http_get ''dashboard'' ''/lifecycle/dashboard'',
     with_query Params (http_get ''onboarding.templates.list'' ''/lifecycle/onboarding/templates''),
     http_post ''onboarding.templates.create'' ''/lifecycle/onboarding/templates'' (Body ''data''),
     http_get ''onboarding.templates.get'' ''/lifecycle/onboarding/templates/{id}'',
     http_put ''onboarding.templates.update'' ''/lifecycle/onboarding/templates/{id}'' (Body
       ''data''),
     http_delete ''onboarding.templates.delete'' ''/lifecycle/onboarding/templates/{id}'',
     with_query Params (http_get ''onboarding.assignments.list'' ''/lifecycle/onboarding/assignments''),
     http_post ''onboarding.assignments.create'' ''/lifecycle/onboarding/assignments'' (Body
       ''data''),
     http_get ''onboarding.assignments.get'' ''/lifecycle/onboarding/assignments/{id}'',
     http_put ''onboarding.assignments.update'' ''/lifecycle/onboarding/assignments/{id}'' (Body
       ''data''),
     http_delete ''onboarding.assignments.delete'' ''/lifecycle/onboarding/assignments/{id}'',
     with_query Params (http_get ''offboarding.list'' ''/lifecycle/offboarding''),
     http_post ''offboarding.create'' ''/lifecycle/offboarding'' (Body ''data''),
     http_get ''offboarding.get'' ''/lifecycle/offboarding/{id}'',
     http_put ''offboarding.update'' ''/lifecycle/offboarding/{id}'' (Body ''data''),
     with_query Params (http_get ''probation.list'' ''/lifecycle/probation''),
     http_post ''probation.create'' ''/lifecycle/probation'' (Body ''data''),
     http_get ''probation.getByEmployee'' ''/lifecycle/probation/employee/{employeeId}'',
     http_get ''probation.get'' ''/lifecycle/probation/{id}'',
     http_put ''probation.update'' ''/lifecycle/probation/{id}'' (Body ''data''),
     http_get ''probation.assessments.list'' ''/lifecycle/probation/{probationId}/assessments'',
     http_post ''probation.assessments.create'' ''/lifecycle/probation/{probationId}/assessments''
       (Body ''data''),
     http_put ''probation.assessments.update'' ''/lifecycle/probation/assessments/{id}'' (Body
       ''data''),
     http_get ''career.frameworks.list'' ''/lifecycle/career/frameworks'',
     http_post ''career.frameworks.create'' ''/lifecycle/career/frameworks'' (Body ''data''),
     with_query (Query [(''framework_id'', Arg ''frameworkId'')]) (http_get ''career.jobFamilies.list''
       ''/lifecycle/career/job-families''),
     http_post ''career.jobFamilies.create'' ''/lifecycle/career/job-families'' (Body ''data''),
     with_query (Query [(''job_family_id'', Arg ''jobFamilyId'')]) (http_get ''career.paths.list''
       ''/lifecycle/career/paths''),
     http_post ''career.paths.create'' ''/lifecycle/career/paths'' (Body ''data''),
     with_query (Query [(''employee_id'', Arg ''employeeId'')]) (http_get ''career.roadmaps.list''
       ''/lifecycle/career/roadmaps''),
     http_post ''career.roadmaps.create'' ''/lifecycle/career/roadmaps'' (Body ''data''),
     http_get ''career.roadmaps.get'' ''/lifecycle/career/roadmaps/{id}'',
     http_put ''career.roadmaps.update'' ''/lifecycle/career/roadmaps/{id}'' (Body ''data''),
     with_query Params (http_get ''mobility.jobs.list'' ''/lifecycle/mobility/jobs''),
     http_post ''mobility.jobs.create'' ''/lifecycle/mobility/jobs'' (Body ''data''),
     http_get ''mobility.jobs.get'' ''/lifecycle/mobility/jobs/{id}'',
     http_put ''mobility.jobs.update'' ''/lifecycle/mobility/jobs/{id}'' (Body ''data''),
     http_delete ''mobility.jobs.delete'' ''/lifecycle/mobility/jobs/{id}'',
     with_query Params (http_get ''mobility.applications.list'' ''/lifecycle/mobility/applications''),
     http_post ''mobility.applications.create'' ''/lifecycle/mobility/applications'' (Body
       ''data''),
     http_put ''mobility.applications.update'' ''/lifecycle/mobility/applications/{id}'' (Body
       ''data''),
     with_query Params (http_get ''mobility.transfers.list'' ''/lifecycle/mobility/transfers''),
     http_post ''mobility.transfers.create'' ''/lifecycle/mobility/transfers'' (Body ''data''),
     http_get ''mobility.transfers.get'' ''/lifecycle/mobility/transfers/{id}'',
     http_put ''mobility.transfers.update'' ''/lifecycle/mobility/transfers/{id}'' (Body ''data''),
     with_query Params (http_get ''promotions.list'' ''/lifecycle/promotions''),
     http_post ''promotions.create'' ''/lifecycle/promotions'' (Body ''data''),
     http_get ''promotions.get'' ''/lifecycle/promotions/{id}'',
     http_put ''promotions.update'' ''/lifecycle/promotions/{id}'' (Body ''data''),
     http_get ''timeline.list'' ''/lifecycle/timeline/{employeeId}'',
     http_post ''timeline.create'' ''/lifecycle/timeline'' (Body ''data''),
     with_query (Query [(''category'', Arg ''category'')]) (http_get ''documents.list''
       ''/lifecycle/documents/{employeeId}''),
     http_post ''documents.create'' ''/lifecycle/documents'' (Body ''data''),
     http_get ''documents.get'' ''/lifecycle/documents/doc/{id}'',
     http_put ''documents.update'' ''/lifecycle/documents/doc/{id}'' (Body ''data''),
     http_delete ''documents.delete'' ''/lifecycle/documents/doc/{id}'',
     http_get ''profile.get'' ''/lifecycle/profile/{employeeId}'',
     http_put ''profile.upsert'' ''/lifecycle/profile/{employeeId}'' (Body ''data''),
     with_query (Query [(''category'', Arg ''category'')]) (http_get ''achievements.list''
       ''/lifecycle/achievements/{employeeId}''),
     http_post ''achievements.create'' ''/lifecycle/achievements'' (Body ''data''),
     http_put ''achievements.update'' ''/lifecycle/achievements/{id}'' (Body ''data''),
     http_delete ''achievements.delete'' ''/lifecycle/achievements/{id}'']"

definition workforcePlanningApi :: "endpoint list" where
  "workforcePlanningApi = [
     http_get ''dashboard'' ''/workforce/dashboard'',
     with_query Params (http_get ''forecasts.list'' ''/workforce/forecasts''),
     http_get ''forecasts.get'' ''/workforce/forecasts/{id}'',
     http_post ''forecasts.create'' ''/workforce/forecasts'' (Body ''data''),
     http_put ''forecasts.update'' ''/workforce/forecasts/{id}'' (Body ''data''),
     http_delete ''forecasts.delete'' ''/workforce/forecasts/{id}'',
     with_query Params (http_get ''resourceForecasts.list'' ''/workforce/resource-forecasts''),
     http_get ''resourceForecasts.get'' ''/workforce/resource-forecasts/{id}'',
     http_post ''resourceForecasts.create'' ''/workforce/resource-forecasts'' (Body ''data''),
     http_put ''resourceForecasts.update'' ''/workforce/resource-forecasts/{id}'' (Body ''data''),
     http_delete ''resourceForecasts.delete'' ''/workforce/resource-forecasts/{id}'',
     with_query Params (http_get ''talentForecasts.list'' ''/workforce/talent-forecasts''),
     http_get ''talentForecasts.get'' ''/workforce/talent-forecasts/{id}'',
     http_post ''talentForecasts.create'' ''/workforce/talent-forecasts'' (Body ''data''),
     http_put ''talentForecasts.update'' ''/workforce/talent-forecasts/{id}'' (Body ''data''),
     http_delete ''talentForecasts.delete'' ''/workforce/talent-forecasts/{id}'',
     with_query Params (http_get ''attritionForecasts.list'' ''/workforce/attrition-forecasts''),
     http_get ''attritionForecasts.get'' ''/workforce/attrition-forecasts/{id}'',
     http_post ''attritionForecasts.create'' ''/workforce/attrition-forecasts'' (Body ''data''),
     http_put ''attritionForecasts.update'' ''/workforce/attrition-forecasts/{id}'' (Body ''data''),
     http_delete ''attritionForecasts.delete'' ''/workforce/attrition-forecasts/{id}'',
     with_query Params (http_get ''retirementForecasts.list'' ''/workforce/retirement-forecasts''),
     http_get ''retirementForecasts.get'' ''/workforce/retirement-forecasts/{id}'',
     http_post ''retirementForecasts.create'' ''/workforce/retirement-forecasts'' (Body ''data''),
     http_put ''retirementForecasts.update'' ''/workforce/retirement-forecasts/{id}'' (Body
       ''data''),
     http_delete ''retirementForecasts.delete'' ''/workforce/retirement-forecasts/{id}'',
     with_query Params (http_get ''capacityPlans.list'' ''/workforce/capacity-plans''),
     http_get ''capacityPlans.get'' ''/workforce/capacity-plans/{id}'',
     http_post ''capacityPlans.create'' ''/workforce/capacity-plans'' (Body ''data''),
     http_put ''capacityPlans.update'' ''/workforce/capacity-plans/{id}'' (Body ''data''),
     http_delete ''capacityPlans.delete'' ''/workforce/capacity-plans/{id}'',
     with_query Params (http_get ''allocations.list'' ''/workforce/allocations''),
     http_get ''allocations.get'' ''/workforce/allocations/{id}'',
     http_post ''allocations.create'' ''/workforce/allocations'' (Body ''data''),
     http_put ''allocations.update'' ''/workforce/allocations/{id}'' (Body ''data''),
     http_delete ''allocations.delete'' ''/workforce/allocations/{id}'',
     with_query Params (http_get ''projectStaffing.list'' ''/workforce/project-staffing''),
     http_get ''projectStaffing.get'' ''/workforce/project-staffing/{id}'',
     http_post ''projectStaffing.create'' ''/workforce/project-staffing'' (Body ''data''),
     http_put ''projectStaffing.update'' ''/workforce/project-staffing/{id}'' (Body ''data''),
     http_delete ''projectStaffing.delete'' ''/workforce/project-staffing/{id}'',
     with_query Params (http_get ''skillGaps.list'' ''/workforce/skill-gaps''),
     http_get ''skillGaps.get'' ''/workforce/skill-gaps/{id}'',
     http_post ''skillGaps.create'' ''/workforce/skill-gaps'' (Body ''data''),
     http_put ''skillGaps.update'' ''/workforce/skill-gaps/{id}'' (Body ''data''),
     http_delete ''skillGaps.delete'' ''/workforce/skill-gaps/{id}'',
     with_query Params (http_get ''bench.list'' ''/workforce/bench''),
     http_get ''bench.get'' ''/workforce/bench/{id}'',
     http_post ''bench.create'' ''/workforce/bench'' (Body ''data''),
     http_put ''bench.update'' ''/workforce/bench/{id}'' (Body ''data''),
     http_delete ''bench.delete'' ''/workforce/bench/{id}'',
     with_query Params (http_get ''hiringRecommendations.list'' ''/workforce/hiring-recommendations''),
     http_get ''hiringRecommendations.get'' ''/workforce/hiring-recommendations/{id}'',
     http_post ''hiringRecommendations.create'' ''/workforce/hiring-recommendations'' (Body
       ''data''),
     http_put ''hiringRecommendations.update'' ''/workforce/hiring-recommendations/{id}'' (Body
       ''data''),
     http_delete ''hiringRecommendations.delete'' ''/workforce/hiring-recommendations/{id}'',
     with_query Params (http_get ''simulations.list'' ''/workforce/simulations''),
     http_get ''simulations.get'' ''/workforce/simulations/{id}'',
     http_post ''simulations.create'' ''/workforce/simulations'' (Body ''data''),
     http_put ''simulations.update'' ''/workforce/simulations/{id}'' (Body ''data''),
     http_delete ''simulations.delete'' ''/workforce/simulations/{id}'',
     http_post ''simulations.run'' ''/workforce/simulations/run'' (Body ''data''),
     with_query Params (http_get ''whatIfAnalyses.list'' ''/workforce/what-if-analyses''),
     http_get ''whatIfAnalyses.get'' ''/workforce/what-if-analyses/{id}'',
     http_post ''whatIfAnalyses.create'' ''/workforce/what-if-analyses'' (Body ''data''),
     http_put ''whatIfAnalyses.update'' ''/workforce/what-if-analyses/{id}'' (Body ''data''),
     http_delete ''whatIfAnalyses.delete'' ''/workforce/what-if-analyses/{id}'',
     with_query Params (http_get ''orgRedesigns.list'' ''/workforce/org-redesigns''),
     http_get ''orgRedesigns.get'' ''/workforce/org-redesigns/{id}'',
     http_post ''orgRedesigns.create'' ''/workforce/org-redesigns'' (Body ''data''),
     http_put ''orgRedesigns.update'' ''/workforce/org-redesigns/{id}'' (Body ''data''),
     http_delete ''orgRedesigns.delete'' ''/workforce/org-redesigns/{id}'',
     with_query Params (http_get ''strategicPlans.list'' ''/workforce/strategic-plans''),
     http_get ''strategicPlans.get'' ''/workforce/strategic-plans/{id}'',
     http_post ''strategicPlans.create'' ''/workforce/strategic-plans'' (Body ''data''),
     http_put ''strategicPlans.update'' ''/workforce/strategic-plans/{id}'' (Body ''data''),
     http_delete ''strategicPlans.delete'' ''/workforce/strategic-plans/{id}'']"

definition ldApi :: "endpoint list" where
  "ldApi = [
     http_get ''overview'' ''/learning/analytics/overview'',
     http_get ''departments'' ''/learning/analytics/departments'',
     with_query (Query [(''period'', Arg ''period'')]) (http_get ''trends''
       ''/learning/analytics/trends''),
     with_query Params (http_get ''compliance.list'' ''/learning/compliance''),
     http_post ''compliance.create'' ''/learning/compliance'' (Body ''data''),
     http_put ''compliance.update'' ''/learning/compliance/{id}'' (Body ''data''),
     http_delete ''compliance.delete'' ''/learning/compliance/{id}'',
     http_get ''compliance.dashboard'' ''/learning/compliance/dashboard'',
     with_query Params (http_get ''recommendations.list'' ''/learning/recommendations''),
     with_query (Query [(''employee_id'', Arg ''employee_id'')]) (http_post ''recommendations.generate''
       ''/learning/recommendations/generate'' NullBody),
     http_put ''recommendations.acknowledge'' ''/learning/recommendations/{id}/acknowledge'' NoBody,
     with_query (Query [(''employee_id'', Arg ''employee_id'')]) (http_get ''journeys.list''
       ''/learning/journeys''),
     http_post ''journeys.create'' ''/learning/journeys'' (Body ''data''),
     http_put ''journeys.update'' ''/learning/journeys/{id}'' (Body ''data''),
     http_delete ''journeys.delete'' ''/learning/journeys/{id}'',
     with_query Params (http_get ''mentors.list'' ''/learning/mentors''),
     http_post ''mentors.create'' ''/learning/mentors'' (Body ''data''),
     http_put ''mentors.update'' ''/learning/mentors/{id}'' (Body ''data''),
     http_delete ''mentors.delete'' ''/learning/mentors/{id}'',
     with_query (Query [(''employee_id'', Arg ''employee_id''), (''skill'', Arg ''skill'')]) (http_get
       ''mentors.match'' ''/learning/mentors/match''),
     with_query Params (http_get ''mentorSessions.list'' ''/learning/mentor-sessions''),
     http_post ''mentorSessions.create'' ''/learning/mentor-sessions'' (Body ''data''),
     http_put ''mentorSessions.update'' ''/learning/mentor-sessions/{id}'' (Body ''data''),
     with_query Params (http_get ''marketplace.list'' ''/learning/marketplace''),
     http_post ''marketplace.create'' ''/learning/marketplace'' (Body ''data''),
     http_put ''marketplace.update'' ''/learning/marketplace/{id}'' (Body ''data''),
     http_delete ''marketplace.delete'' ''/learning/marketplace/{id}'',
     with_query Params (http_get ''knowledge.list'' ''/learning/knowledge''),
     http_get ''knowledge.get'' ''/learning/knowledge/{id}'',
     http_post ''knowledge.create'' ''/learning/knowledge'' (Body ''data''),
     http_put ''knowledge.update'' ''/learning/knowledge/{id}'' (Body ''data''),
     http_delete ''knowledge.delete'' ''/learning/knowledge/{id}'',
     http_post ''knowledge.markUseful'' ''/learning/knowledge/{id}/useful'' NoBody,
     with_query Params (http_get ''endorsements.list'' ''/learning/endorsements''),
     http_post ''endorsements.create'' ''/learning/endorsements'' (Body ''data''),
     http_delete ''endorsements.delete'' ''/learning/endorsements/{id}'',
     http_get ''competencyMatrix'' ''/learning/analytics/competency-matrix'']"

definition securityApi :: "endpoint list" where
  "securityApi = [
     with_query (Query [(''tenant_id'', ArgOr ''tenant_id'' (JStr ''default''))]) (http_get
       ''dashboard'' ''/security/dashboard''),
     with_query Params (http_get ''zeroTrust.list'' ''/security/zero-trust''),
     http_get ''zeroTrust.get'' ''/security/zero-trust/{id}'',
     http_post ''zeroTrust.create'' ''/security/zero-trust'' (Body ''data''),
     http_put ''zeroTrust.update'' ''/security/zero-trust/{id}'' (Body ''data''),
     http_delete ''zeroTrust.delete'' ''/security/zero-trust/{id}'',
     http_post ''zeroTrust.evaluate'' ''/security/zero-trust/{id}/evaluate'' (Body ''context''),
     with_query Params (http_get ''conditionalAccess.list'' ''/security/conditional-access''),
     http_get ''conditionalAccess.get'' ''/security/conditional-access/{id}'',
     http_post ''conditionalAccess.create'' ''/security/conditional-access'' (Body ''data''),
     http_put ''conditionalAccess.update'' ''/security/conditional-access/{id}'' (Body ''data''),
     http_delete ''conditionalAccess.delete'' ''/security/conditional-access/{id}'',
     with_query (Query [(''tenant_id'', ArgOr ''tenant_id'' (JStr ''default''))]) (http_post
       ''conditionalAccess.evaluate'' ''/security/conditional-access/evaluate'' (Body ''context'')),
     http_post ''risk.assess'' ''/security/risk/assess'' (Body ''data''),
     with_query Params (http_get ''risk.list'' ''/security/risk/assessments''),
     with_query (Query [(''tenant_id'', Arg ''tenant_id'')]) (http_get ''pam.roles.list''
       ''/security/pam/roles''),
     http_get ''pam.roles.get'' ''/security/pam/roles/{id}'',
     http_post ''pam.roles.create'' ''/security/pam/roles'' (Body ''data''),
     with_query Params (http_get ''pam.requests.list'' ''/security/pam/requests''),
     http_post ''pam.requests.create'' ''/security/pam/requests'' (Body ''data''),
     with_query (Query [(''approved_by'', Arg ''approved_by'')]) (http_post ''pam.requests.approve''
       ''/security/pam/requests/{id}/approve'' NullBody),
     http_post ''pam.requests.revoke'' ''/security/pam/requests/{id}/revoke'' NoBody,
     with_query Params (http_get ''dataClassification.list'' ''/security/data-classification''),
     http_get ''dataClassification.get'' ''/security/data-classification/{id}'',
     http_post ''dataClassification.create'' ''/security/data-classification'' (Body ''data''),
     http_post ''dataClassification.classify'' ''/security/data-classification/{id}/classify''
       (Body ''resource_data''),
     with_query Params (http_get ''dlp.policies.list'' ''/security/dlp/policies''),
     http_get ''dlp.policies.get'' ''/security/dlp/policies/{id}'',
     http_post ''dlp.policies.create'' ''/security/dlp/policies'' (Body ''data''),
     with_query Params (http_get ''dlp.incidents.list'' ''/security/dlp/incidents''),
     http_post ''dlp.incidents.report'' ''/security/dlp/incidents'' (Body ''data''),
     with_query (Query [(''status'', Arg ''status'')]) (http_put ''dlp.incidents.updateStatus''
       ''/security/dlp/incidents/{id}/status'' NullBody),
     with_query Params (http_get ''encryptionKeys.list'' ''/security/encryption-keys''),
     http_post ''encryptionKeys.create'' ''/security/encryption-keys'' (Body ''data''),
     http_post ''encryptionKeys.rotate'' ''/security/encryption-keys/{key_id}/rotate'' (BodyOrEmpty
       ''data''),
     with_query (Query [(''tenant_id'', Arg ''tenant_id'')]) (http_get ''dataResidency.list''
       ''/security/data-residency''),
     http_post ''dataResidency.create'' ''/security/data-residency'' (Body ''data''),
     with_query (Query [(''target_region'', Arg ''target_region'')]) (http_post ''dataResidency.check''
       ''/security/data-residency/{policy_id}/check'' NullBody),
     http_post ''sessionRecordings.start'' ''/security/session-recordings/start'' (Body ''data''),
     http_post ''sessionRecordings.stop'' ''/security/session-recordings/{id}/stop'' NoBody,
     http_post ''sessionRecordings.addEvent'' ''/security/session-recordings/{id}/events'' (Body
       ''event''),
     with_query Params (http_get ''sessionRecordings.list'' ''/security/session-recordings'')]"

definition lmsApi :: "endpoint list" where
  "lmsApi = [
     http_get ''dashboard'' ''/lms/dashboard'',
     with_query Params (http_get ''courses.list'' ''/lms/courses''),
     http_get ''courses.get'' ''/lms/courses/{id}'',
     http_post ''courses.create'' ''/lms/courses'' (Body ''data''),
     http_put ''courses.update'' ''/lms/courses/{id}'' (Body ''data''),
     http_delete ''courses.delete'' ''/lms/courses/{id}'',
     http_post ''courses.publish'' ''/lms/courses/{id}/publish'' NoBody,
     http_post ''courses.archive'' ''/lms/courses/{id}/archive'' NoBody,
     with_query Params (http_get ''enrollments.list'' ''/lms/enrollments''),
     http_post ''enrollments.create'' ''/lms/enrollments'' (Body ''data''),
     http_post ''enrollments.bulkCreate'' ''/lms/enrollments/bulk'' (Body ''data''),
     http_put ''enrollments.updateProgress'' ''/lms/enrollments/{id}/progress'' (Fields
       [''progress'']),
     http_post ''enrollments.complete'' ''/lms/enrollments/{id}/complete'' (Fields [''grade'']),
     http_delete ''enrollments.delete'' ''/lms/enrollments/{id}'',
     with_query Params (http_get ''certifications.list'' ''/lms/certifications''),
     http_post ''certifications.create'' ''/lms/certifications'' (Body ''data''),
     http_put ''certifications.update'' ''/lms/certifications/{id}'' (Body ''data''),
     http_post ''certifications.verify'' ''/lms/certifications/{id}/verify'' NoBody,
     http_delete ''certifications.delete'' ''/lms/certifications/{id}'',
     with_query (Query [(''courseId'', Arg ''courseId'')]) (http_get ''assessments.list''
       ''/lms/assessments''),
     http_get ''assessments.get'' ''/lms/assessments/{id}'',
     http_post ''assessments.create'' ''/lms/assessments'' (Body ''data''),
     http_put ''assessments.update'' ''/lms/assessments/{id}'' (Body ''data''),
     http_delete ''assessments.delete'' ''/lms/assessments/{id}'',
     http_get ''assessments.attempts.list'' ''/lms/assessments/{assessmentId}/attempts'',
     http_post ''assessments.attempts.submit'' ''/lms/assessments/{assessmentId}/attempts'' (Fields
       [''answers'']),
     http_get ''learningPaths.list'' ''/lms/learning-paths'',
     http_get ''learningPaths.get'' ''/lms/learning-paths/{id}'',
     http_post ''learningPaths.create'' ''/lms/learning-paths'' (Body ''data''),
     http_put ''learningPaths.update'' ''/lms/learning-paths/{id}'' (Body ''data''),
     http_delete ''learningPaths.delete'' ''/lms/learning-paths/{id}'',
     http_get ''skills.matrix'' ''/lms/skills/matrix'',
     http_get ''skills.employee'' ''/lms/skills/employee/{employeeId}'',
     http_post ''skills.upsert'' ''/lms/skills'' (Body ''data''),
     http_get ''skills.gapAnalysis'' ''/lms/skills/gap-analysis'']"

definition liveApi :: "endpoint list" where
  "liveApi = [
     http_post ''publish.presence'' ''/live/publish/presence'' (Body ''data''),
     http_post ''publish.alert'' ''/live/publish/alert'' (Body ''data''),
     http_post ''publish.announcement'' ''/live/publish/announcement'' (Body ''data''),
     http_post ''publish.activity'' ''/live/publish/activity'' (Body ''data''),
     http_post ''publish.attendance'' ''/live/publish/attendance'' (Body ''data''),
     http_post ''publish.payroll'' ''/live/publish/payroll'' (Body ''data''),
     http_post ''publish.leave'' ''/live/publish/leave'' (Body ''data''),
     http_post ''publish.kpi'' ''/live/publish/kpi'' (Body ''data''),
     http_post ''publish.task'' ''/live/publish/task'' (Body ''data''),
     http_post ''publish.escalation'' ''/live/publish/escalation'' (Body ''data''),
     http_post ''publish.compliance'' ''/live/publish/compliance'' (Body ''data''),
     http_post ''publish.onboarding'' ''/live/publish/onboarding'' (Body ''data''),
     http_post ''publish.recruitment'' ''/live/publish/recruitment'' (Body ''data''),
     http_post ''publish.forecast'' ''/live/publish/forecast'' (Body ''data''),
     http_post ''publish.staffing'' ''/live/publish/staffing'' (Body ''data''),
     http_post ''publish.sla'' ''/live/publish/sla'' (Body ''data''),
     http_post ''publish.poll'' ''/live/publish/poll'' (Body ''data''),
     http_post ''publish.emergency'' ''/live/publish/emergency'' (Body ''data''),
     http_post ''publish.incident'' ''/live/publish/incident'' (Body ''data''),
     http_post ''publish.chat'' ''/live/publish/chat'' (Body ''data'')]"

definition aiApi :: "endpoint list" where
  "aiApi = [
     http_post ''copilot'' ''/ai/{persona}/copilot'' (Fields [''query'', ''context'']),
     http_post ''reporting.generate'' ''/ai/natural-language-reporting'' (Body ''data''),
     http_post ''dashboard.generate'' ''/ai/ai-dashboard'' (Body ''data''),
     http_post ''predictions.attrition'' ''/ai/attrition-prediction'' (Body ''data''),
     http_post ''predictions.burnout'' ''/ai/burnout-prediction'' (Body ''data''),
     http_post ''predictions.promotion'' ''/ai/promotion-prediction'' (Body ''data''),
     http_post ''salary.recommend'' ''/ai/salary-recommendation'' (Body ''data''),
     http_post ''forecasting.workforce'' ''/ai/workforce-forecasting'' (Body ''data''),
     http_post ''forecasting.budget'' ''/ai/budget-forecasting'' (Body ''data''),
     http_post ''assistants.policy'' ''/ai/policy-assistant'' (Body ''data''),
     http_post ''assistants.leave'' ''/ai/leave-assistant'' (Body ''data''),
     http_post ''assistants.recruitment'' ''/ai/recruitment-assistant'' (Body ''data''),
     http_post ''assistants.onboarding'' ''/ai/onboarding-assistant'' (Body ''data''),
     http_post ''assistants.training'' ''/ai/training-assistant'' (Body ''data''),
     http_post ''assistants.compliance'' ''/ai/compliance-assistant'' (Body ''data''),
     http_post ''knowledge.search'' ''/ai/knowledge-search'' (Body ''data''),
     http_post ''advisory.org'' ''/ai/org-advisor'' (Body ''data''),
     http_post ''risk.detect'' ''/ai/risk-detection'' (Body ''data''),
     http_post ''risk.anomalies'' ''/ai/anomaly-detection'' (Body ''data''),
     http_post ''operations.shifts'' ''/ai/shift-optimization'' (Body ''data''),
     http_post ''planning.succession'' ''/ai/succession-planning'' (Body ''data''),
     http_post ''summaries.performance'' ''/ai/performance-summaries'' (Body ''data''),
     http_post ''summaries.meeting'' ''/ai/meeting-summaries'' (Body ''data''),
     http_post ''automation.workflow'' ''/ai/workflow-generation'' (Body ''data''),
     http_post ''automation.build'' ''/ai/automation-builder'' (Body ''data''),
     http_post ''agentic.hr'' ''/ai/agentic-hr'' (Body ''data''),
     http_post ''autonomous.intelligence'' ''/ai/autonomous-intelligence'' (Body ''data'')]"

definition catalogue :: "endpoint list" where
  "catalogue = concat [authApi, sessionsApi, devicesApi, employeeApi, analyticsApi, leaveApi,
     payrollApi, selfServiceApi, attendanceApi, atsApi, billingApi, performanceApi, complianceApi,
     copilotApi, commandCenterApi, integrationApi, lifecycleApi, workforcePlanningApi, ldApi,
     securityApi, lmsApi, liveApi, aiApi]"

subsection \<open>The calls that are not endpoints\<close>

text \<open>\<open>copilotApi.chat.stream\<close>: the interceptors do not see it, so that it carries no CSRF header.\<close>

definition copilot_stream :: "auth_state \<Rightarrow> string \<Rightarrow> args \<Rightarrow> request" where
  "copilot_stream session base a =
     \<lparr>rq_verb = POST, rq_path = base @ ''/copilot/chat/stream'', rq_query = [],
      rq_body = JObj [(''message'', a ''message''), (''sessionId'', a ''sessionId'')],
      rq_headers = [(''Content-Type'', ''application/json'')] @
        (if falsy_string (getAccessToken session) then []
         else [(''Authorization'', ''Bearer '' @ the (getAccessToken session))]),
      rq_blob = False\<rparr>"

definition live_sse_start :: "string \<Rightarrow> string \<Rightarrow> string" where
  "live_sse_start base channel = base @ ''/live/sse/'' @ channel"

text \<open>\<open>replace\<close> with a string replaces the first occurrence.\<close>

definition replace_first :: "string \<Rightarrow> string \<Rightarrow> string \<Rightarrow> string" where
  "replace_first p r s =
     (case index_of p s 0 of
        None \<Rightarrow> s | Some k \<Rightarrow> take k s @ r @ drop (k + length p) s)"

definition live_ws_connect :: "string \<Rightarrow> string \<Rightarrow> string" where
  "live_ws_connect base channel = replace_first ''http'' ''ws'' base @ ''/live/ws/'' @ channel"

subsection \<open>What holds of every endpoint\<close>

text \<open>The first segments of the catalogue: the gateway's names of the services.\<close>

definition SERVICES :: "string list" where
  "SERVICES = [''auth'', ''employee'', ''analytics'', ''leave'', ''payroll'', ''attendance'',
     ''ats'', ''billing'', ''performance'', ''compliance'', ''copilot'', ''command-center'',
     ''integration'', ''lifecycle'', ''workforce'', ''learning'', ''security'', ''lms'', ''live'',
     ''ai'']"

definition first_segment :: "string \<Rightarrow> string" where
  "first_segment p = takeWhile (\<lambda>c. c \<noteq> CHR ''/'') (tl p)"

text \<open>The second segment decides that a path is not one of the public career portal.\<close>

definition not_career :: "string \<Rightarrow> bool" where
  "not_career p =
     (case split_on (CHR ''/'') (tl p) of
        s # t # ss \<Rightarrow> s \<noteq> ''ats'' \<or> static_segment t \<and> t \<noteq> ''career''
      | _ \<Rightarrow> True)"

definition path_wf :: "string \<Rightarrow> bool" where
  "path_wf p \<longleftrightarrow> template_segments_ok p \<and> template_ok False p \<and> first_segment p \<in> set SERVICES \<and>
     not_career p"

lemma ep_path_builders:
  "ep_path (http_get n p) = p" "ep_path (http_delete n p) = p" "ep_path (http_post n p b) = p"
  "ep_path (http_put n p b) = p" "ep_path (with_query q e) = ep_path e" "ep_path (blob e) = ep_path e"
  "ep_path (header u v e) = ep_path e" "ep_path (checked z l e) = ep_path e"
  by (simp_all add: endpoint_builders)

lemma ball_concat: "(\<forall>e \<in> set (concat xss). P e) = (\<forall>xs \<in> set xss. \<forall>e \<in> set xs. P e)"
  by auto

lemma paths_1: "list_all (list_all (\<lambda>e. path_wf (ep_path e))) [authApi, sessionsApi, devicesApi, employeeApi, analyticsApi,
    leaveApi, payrollApi, selfServiceApi, attendanceApi]"
  by code_simp

lemma paths_2: "list_all (list_all (\<lambda>e. path_wf (ep_path e))) [atsApi, billingApi, performanceApi, complianceApi,
    copilotApi, commandCenterApi, integrationApi]"
  by code_simp

lemma paths_3: "list_all (list_all (\<lambda>e. path_wf (ep_path e))) [lifecycleApi, workforcePlanningApi]"
  by code_simp

lemma paths_4: "list_all (list_all (\<lambda>e. path_wf (ep_path e))) [ldApi, securityApi]"
  by code_simp

lemma paths_5: "list_all (list_all (\<lambda>e. path_wf (ep_path e))) [lmsApi, liveApi, aiApi]"
  by code_simp

lemma catalogue_paths: "\<forall>e \<in> set catalogue. path_wf (ep_path e)"
  using paths_1 paths_2 paths_3 paths_4 paths_5 by (simp add: catalogue_def list_all_iff ball_Un)

lemma ep_headers_builders:
  "ep_headers (http_get n p) = []" "ep_headers (http_delete n p) = []"
  "ep_headers (http_post n p b) = []" "ep_headers (http_put n p b) = []"
  "ep_headers (with_query q e) = ep_headers e" "ep_headers (blob e) = ep_headers e"
  "ep_headers (header u v e) = ep_headers e @ [(u, v)]" "ep_headers (checked z l e) = ep_headers e"
  by (simp_all add: endpoint_builders)

lemmas api_objects = authApi_def sessionsApi_def devicesApi_def employeeApi_def analyticsApi_def
  leaveApi_def payrollApi_def selfServiceApi_def attendanceApi_def atsApi_def billingApi_def
  performanceApi_def complianceApi_def copilotApi_def commandCenterApi_def integrationApi_def
  lifecycleApi_def workforcePlanningApi_def ldApi_def securityApi_def lmsApi_def liveApi_def aiApi_def

text \<open>The only header an endpoint sets of its own is the session id.\<close>

lemma catalogue_headers: "\<forall>e \<in> set catalogue. fst ` set (ep_headers e) \<subseteq> {''x-session-id''}"
  unfolding catalogue_def ball_concat list.set ball_simps api_objects ep_headers_builders
  by simp

text \<open>
  Arguments cannot move a call to another endpoint as long as they hold no slash: the
  path of every endpoint of the catalogue then has exactly the segments of its template, each
  with its own parameters filled in, and the segments without a parameter unchanged. (The client
  interpolates its arguments raw, so that for an argument with a slash it does not hold; what the
  browser makes of the address is \<open>url_path\<close>.)
\<close>

lemma catalogue_path_shape:
  assumes "e \<in> set catalogue" and "\<forall>x. no_slash (js_string (a x))"
  shows "split_on (CHR ''/'') (rq_path (build_request e a)) =
      map (render a None) (split_on (CHR ''/'') (ep_path e)) \<and>
    (\<forall>s \<in> set (split_on (CHR ''/'') (ep_path e)). CHR ''{'' \<notin> set s \<longrightarrow> render a None s = s)"
proof -
  have "template_ok False (ep_path e)" using assms(1) catalogue_paths by (auto simp: path_wf_def)
  then have "split_on (CHR ''/'') (render a None (ep_path e)) =
      map (render a None) (split_on (CHR ''/'') (ep_path e))"
    using render_segments [of a None "ep_path e"] assms(2)
    by (cases "split_on (CHR ''/'') (ep_path e)") auto
  moreover have "render a None s = s" if "CHR ''{'' \<notin> set s" for s
    using render_static [OF that, of a "[]"] by simp
  ultimately show ?thesis by (simp add: build_request_def)
qed

lemma in_catalogue:
  "e \<in> set employeeApi \<Longrightarrow> e \<in> set catalogue"
  by (simp add: catalogue_def)

definition get_employee :: endpoint where
  "get_employee = checked employeeSchema ''employee'' (http_get ''get'' ''/employee/employees/{email}'')"

lemma catalogue_path_shape_witness:
  "split_on (CHR ''/'') (rq_path (build_request get_employee (\<lambda>x. JStr ''ann@atlas.io''))) =
     [[], ''employee'', ''employees'', ''ann@atlas.io''] \<and>
   split_on (CHR ''/'') (rq_path (build_request get_employee (\<lambda>x. JStr ''a/b''))) \<noteq>
     [[], ''employee'', ''employees'', ''a/b'']"
proof -
  have "get_employee \<in> set catalogue"
    by (rule in_catalogue) (simp add: employeeApi_def get_employee_def)
  from catalogue_path_shape [OF this, of "\<lambda>x. JStr ''ann@atlas.io''"] show ?thesis
    by (simp add: no_slash_def get_employee_def build_request_def endpoint_builders)
qed

subsection \<open>The validated organisation chart\<close>

text \<open>What the page relies on at every depth of the answer of \<open>employeeApi.hierarchy\<close>.\<close>

inductive org_node_shape :: "jsv \<Rightarrow> bool" where
  org_node_shapeI: "get_field v ''email'' = JStr e \<Longrightarrow> get_field v ''name'' = JStr n \<Longrightarrow>
    get_field v ''direct_reports'' = JNum d \<Longrightarrow> get_field v ''total_reports'' = JNum t \<Longrightarrow>
    get_field v ''children'' = JArr vs \<Longrightarrow> \<forall>c \<in> set vs. org_node_shape c \<Longrightarrow> org_node_shape v"

lemma get_field_smaller: "get_field v k = JArr vs \<Longrightarrow> c \<in> set vs \<Longrightarrow> size c < size v"
proof (cases v)
  case (JObj fs)
  assume "get_field v k = JArr vs" and c: "c \<in> set vs"
  with JObj have "(k, JArr vs) \<in> set fs" by (auto split: option.splits dest: map_of_SomeD)
  then have "size (JArr vs) \<le> size_list (size_prod (\<lambda>x. 0) size) fs"
    by (rule size_list_estimation') simp
  moreover have "size c \<le> size_list size vs" by (rule size_list_estimation' [OF c order_refl])
  ultimately show ?thesis using JObj by simp
qed (simp_all add: get_field_def)

context zod_contract
begin

lemma org_node_parsed:
  assumes "parse (ZLazy ''orgNodeSchema'') v"
  shows "org_node_shape v"
  using assms
proof (induction "size v" arbitrary: v rule: less_induct)
  case less
  have "parse orgNodeSchema v" using "lazy" [OF less.prems] by (simp add: named_schema_def)
  then have f: "parse z (get_field v k)" if "(k, z) \<in> set [(''email'', ZString), (''name'', ZString),
      (''direct_reports'', ZNumber), (''total_reports'', ZNumber),
      (''children'', ZArray (ZLazy ''orgNodeSchema''))]" for k z
    using that unfolding orgNodeSchema_def by (auto intro: loose_field)
  obtain vs where vs: "get_field v ''children'' = JArr vs"
    "\<forall>c \<in> set vs. parse (ZLazy ''orgNodeSchema'') c"
    using array [OF f [of "''children''" "ZArray (ZLazy ''orgNodeSchema'')"]] by auto
  have "\<forall>c \<in> set vs. org_node_shape c" using less.hyps get_field_smaller [OF vs(1)] vs(2) by blast
  moreover obtain e n where "get_field v ''email'' = JStr e" "get_field v ''name'' = JStr n"
    using string [OF f [of "''email''" ZString]] string [OF f [of "''name''" ZString]] by auto
  moreover obtain d t where "get_field v ''direct_reports'' = JNum d" "get_field v ''total_reports'' = JNum t"
    using number [OF f [of "''direct_reports''" ZNumber]] number [OF f [of "''total_reports''" ZNumber]]
    by auto
  ultimately show ?case using vs(1) by (blast intro: org_node_shapeI)
qed

end

text \<open>
  The organisation chart is validated to its leaves: whatever zod does within its
  documentation, when the hierarchy call returns, the data is the answer unchanged, its roots
  are an array, and every node at every depth has a string e-mail and name, numeric report
  counts and an array of children; otherwise the call fails with an error that names the
  resource and nothing of the data.
\<close>

lemma hierarchy_validated:
  assumes "zod_contract parse" and "e \<in> set employeeApi" and "ep_name e = ''hierarchy''"
  shows "case accept_response parse e data of
    Inl err \<Rightarrow> err = ''Invalid org hierarchy response format''
  | Inr out \<Rightarrow> out = data \<and> (\<exists>rs. get_field data ''roots'' = JArr rs \<and> (\<forall>r \<in> set rs. org_node_shape r))"
proof -
  have schema: "ep_schema e = Some (orgTreeResponseSchema, ''org hierarchy'')"
    using assms(2,3) by (auto simp: employeeApi_def endpoint_builders)
  show ?thesis
  proof (cases "parse orgTreeResponseSchema data")
    case True
    then have "parse (ZArray (ZLazy ''orgNodeSchema'')) (get_field data ''roots'')"
      unfolding orgTreeResponseSchema_def by (auto intro: zod_contract.loose_field [OF assms(1)])
    from zod_contract.array [OF assms(1) this]
    have "\<exists>rs. get_field data ''roots'' = JArr rs \<and> (\<forall>r \<in> set rs. org_node_shape r)"
      by (auto intro: zod_contract.org_node_parsed [OF assms(1)])
    with True schema show ?thesis by (simp add: accept_response_def validateResponse_def)
  qed (simp add: schema accept_response_def validateResponse_def)
qed

lemma hierarchy_validated_witness:
  "case accept_response (zod_accepts 1 (\<lambda>s. True)) (employeeApi ! 5) (JObj [(''roots'', JArr [])]) of
    Inl err \<Rightarrow> err = ''Invalid org hierarchy response format''
  | Inr out \<Rightarrow> False"
proof -
  have "employeeApi ! 5 \<in> set employeeApi" "ep_name (employeeApi ! 5) = ''hierarchy''"
    by (simp_all add: employeeApi_def endpoint_builders)
  from hierarchy_validated [OF zod.zod_contract_axioms this]
  show ?thesis
    by (auto simp: accept_response_def validateResponse_def orgTreeResponseSchema_def employeeApi_def
        endpoint_builders split: sum.splits)
qed

end
