(* ===== verification/Service_Base.thy ===== *)
theory Service_Base
  imports Js_Value
begin

section \<open>What the services share\<close>

text \<open>
  What the gateway and the auth service use of redis: string values with a time of expiry in
  milliseconds. The client may be closed (\<open>isOpen\<close>), and its calls may throw while it is open;
  neither changes in the course of a request. \<open>jwt.verify\<close> (jsonwebtoken) answers with the payload
  or fails with an error whose name the code reads.
\<close>

datatype jwt_answer = Verified jsv | VerifyFails string \<comment> \<open>the name of the error\<close>

text \<open>\<open>a || b\<close>\<close>

definition js_or :: "jsv \<Rightarrow> jsv \<Rightarrow> jsv" where
  "js_or a b = (if truthy a then a else b)"

record redis =
  redis_open :: bool
  redis_throws :: bool
  redis_keys :: "(string, string \<times> rat) js_map" \<comment> \<open>value and time of expiry\<close>

definition redis_get :: "rat \<Rightarrow> redis \<Rightarrow> string \<Rightarrow> string option" where
  "redis_get now r k =
     (case map_get (redis_keys r) k of
        Some (v, expires) \<Rightarrow> if now < expires then Some v else None
      | None \<Rightarrow> None)"

definition redis_set :: "string \<Rightarrow> string \<Rightarrow> rat \<Rightarrow> redis \<Rightarrow> redis" where
  "redis_set k v expires r = r\<lparr>redis_keys := map_set k (v, expires) (redis_keys r)\<rparr>"

definition redis_del :: "string \<Rightarrow> redis \<Rightarrow> redis" where
  "redis_del k r = r\<lparr>redis_keys := AList.delete k (redis_keys r)\<rparr>"

text \<open>\<open>SET ... NX\<close>: only when the key is not there.\<close>

definition redis_setnx :: "rat \<Rightarrow> string \<Rightarrow> string \<Rightarrow> rat \<Rightarrow> redis \<Rightarrow> redis" where
  "redis_setnx now k v expires r = (if redis_get now r k = None then redis_set k v expires r else r)"

definition redis_answers :: "redis \<Rightarrow> bool" where
  "redis_answers r \<longleftrightarrow> redis_open r \<and> \<not> redis_throws r"

lemma redis_get_set:
  "redis_get now (redis_set k v e r) k' = (if k' = k then if now < e then Some v else None else redis_get now r k')"
  by (simp add: redis_get_def redis_set_def)

lemma redis_get_del: "redis_get now (redis_del k r) k' = (if k' = k then None else redis_get now r k')"
  by (auto simp: redis_get_def redis_del_def delete_conv')

lemma redis_state_set [simp]:
  "redis_open (redis_set k v e r) = redis_open r" "redis_throws (redis_set k v e r) = redis_throws r"
  "redis_open (redis_del k r) = redis_open r" "redis_throws (redis_del k r) = redis_throws r"
  by (simp_all add: redis_set_def redis_del_def)

lemma redis_state_setnx [simp]:
  "redis_open (redis_setnx now k v e r) = redis_open r"
  "redis_throws (redis_setnx now k v e r) = redis_throws r"
  by (simp_all add: redis_setnx_def)

lemma redis_answers_set [simp]:
  "redis_answers (redis_set k v e r) = redis_answers r" "redis_answers (redis_del k r) = redis_answers r"
  "redis_answers (redis_setnx now k v e r) = redis_answers r"
  by (simp_all add: redis_answers_def)

end
