(* ===== verification/Gateway.thy ===== *)
theory Gateway
  imports Service_Base
begin

section \<open>The API gateway: guards and routing\<close>

text \<open>
  \<open>services/api-gateway-node/index.js\<close>: the middlewares that decide whether a request passes, in
  the order the application installs them (authentication, roles, MFA step-up, CSRF), the
  billing checkout and the proxy table. \<open>jwt.verify\<close> (jsonwebtoken) and the clock are
  parameters; redis is the key store of \<open>Service_Base\<close>. Express
  matches the mount of a proxy without regard to case (its default), the guards compare
  \<open>req.path\<close> as it is. Header names are in lower case, as Node delivers them.
\<close>

subsection \<open>Requests and refusals\<close>

record gateway_request =
  g_method :: string
  g_path :: string \<comment> \<open>\<open>req.path\<close>\<close>
  g_headers :: "(string, string) js_map"
  g_csrf_cookie :: "string option"
  g_query_token :: "string option" \<comment> \<open>the \<open>token\<close> parameter of the URL\<close>
  g_body :: jsv

record refusal =
  re_status :: nat
  re_message :: string

definition refusal_of :: "nat \<Rightarrow> string \<Rightarrow> refusal" where
  "refusal_of st m = \<lparr>re_status = st, re_message = m\<rparr>"

record gateway_env =
  verify_session :: "string \<Rightarrow> jwt_answer"
  verify_step_up :: "string \<Rightarrow> jwt_answer"
  now_ms :: int

definition user_value :: "jsv option \<Rightarrow> jsv" where
  "user_value u = (case u of Some p \<Rightarrow> p | None \<Rightarrow> JUndef)"

definition safe_method :: "string \<Rightarrow> bool" where
  "safe_method m \<longleftrightarrow> m \<in> {''GET'', ''HEAD'', ''OPTIONS''}"

subsection \<open>Prefixes\<close>

definition pathMatchesPrefix :: "string \<Rightarrow> string \<Rightarrow> bool" where
  "pathMatchesPrefix path p \<longleftrightarrow> path = p \<or> starts_with path (p @ ''/'')"

record sensitive_route =
  sr_prefix :: string
  sr_roles :: "string list"
  sr_message :: string

definition SENSITIVE_ROUTE_REGISTRY :: "sensitive_route list" where
  "SENSITIVE_ROUTE_REGISTRY =
     [\<lparr>sr_prefix = ''/api/payroll'', sr_roles = [''admin'', ''hr''],
       sr_message = ''Forbidden: Insufficient privileges for payroll''\<rparr>,
      \<lparr>sr_prefix = ''/api/compliance'', sr_roles = [''admin'', ''compliance'', ''hr''],
       sr_message = ''Forbidden: Insufficient privileges for compliance''\<rparr>,
      \<lparr>sr_prefix = ''/api/audit'', sr_roles = [''admin'', ''auditor''],
       sr_message = ''Forbidden: Insufficient privileges for audit''\<rparr>,
      \<lparr>sr_prefix = ''/api/billing'', sr_roles = [''admin'', ''hr'', ''manager''],
       sr_message = ''Forbidden: Insufficient privileges for billing''\<rparr>]"

definition isSensitiveRoute :: "string \<Rightarrow> bool" where
  "isSensitiveRoute path \<longleftrightarrow> (\<exists>e \<in> set SENSITIVE_ROUTE_REGISTRY. pathMatchesPrefix path (sr_prefix e))"

definition PUBLIC_PREFIXES :: "string list" where
  "PUBLIC_PREFIXES =
     [''/health'', ''/api/auth/login'', ''/api/auth/register'', ''/api/auth/password/reset-request'',
      ''/api/auth/password/reset'', ''/api/auth/passwordless/request'',
      ''/api/auth/passwordless/verify'', ''/api/auth/saml/acs'', ''/api/auth/saml/login'',
      ''/api/auth/saml/metadata'', ''/saml/acs'', ''/saml/login'', ''/saml/metadata'',
      ''/api/webhooks/slack'', ''/api/auth/webauthn/authenticate/begin'',
      ''/api/auth/webauthn/authenticate/complete'', ''/api/auth/oauth/login'',
      ''/api/auth/oauth/callback'', ''/api/ats/career'', ''/api/notification/unsubscribe'']"

definition isPublicOrAuthPath :: "string \<Rightarrow> bool" where
  "isPublicOrAuthPath path \<longleftrightarrow> (\<exists>p \<in> set PUBLIC_PREFIXES. pathMatchesPrefix path p)"

definition protectedPrefixes :: "string list" where
  "protectedPrefixes =
     [''/api/employee'', ''/api/payroll'', ''/api/analytics'', ''/api/notification'',
      ''/api/attendance'', ''/api/leave'', ''/api/ats'', ''/api/lms'', ''/api/performance'',
      ''/api/copilot'', ''/api/audit'', ''/api/compliance'', ''/api/integration'',
      ''/api/lifecycle'', ''/api/security'', ''/api/ai'', ''/api/billing'', ''/api/live'',
      ''/api/command-center'', ''/api/learning'', ''/api/workforce'']"

definition needsAuth :: "string \<Rightarrow> bool" where
  "needsAuth path \<longleftrightarrow> (\<exists>p \<in> set protectedPrefixes. pathMatchesPrefix path p)"

definition isSelfServicePath :: "string \<Rightarrow> bool" where
  "isSelfServicePath path \<longleftrightarrow>
     path = ''/api/payroll/me'' \<or> starts_with path ''/api/payroll/me/'' \<or>
     path = ''/api/employee/me'' \<or> starts_with path ''/api/employee/me/''"

subsection \<open>Authentication\<close>

definition authStoreUnavailable :: refusal where
  "authStoreUnavailable =
     refusal_of 503 ''Authentication temporarily unavailable, please retry shortly''"

definition denylist_keys :: "jsv \<Rightarrow> string list" where
  "denylist_keys payload =
     (if truthy (get_field payload ''jti'')
      then [''denylist:jti:'' @ js_string (get_field payload ''jti'')] else []) @
     (if truthy (get_field payload ''sid'')
      then [''denylist:sid:'' @ js_string (get_field payload ''sid'')] else [])"

definition revokeCheck :: "rat \<Rightarrow> redis \<Rightarrow> jsv \<Rightarrow> refusal option" where
  "revokeCheck now r payload =
     (if denylist_keys payload = [] then None
      else if \<not> redis_open r \<or> redis_throws r then Some authStoreUnavailable
      else if \<exists>k \<in> set (denylist_keys payload). \<not> falsy_string (redis_get now r k)
      then Some (refusal_of 401 ''Session revoked'')
      else None)"

text \<open>The token of a request and the way it came.\<close>

definition session_token :: "gateway_request \<Rightarrow> string option \<times> string" where
  "session_token g =
     (case map_get (g_headers g) ''authorization'' of
        Some h \<Rightarrow>
          if starts_with h ''Bearer '' then (Some (drop 7 h), ''bearer'')
          else if starts_with (g_path g) ''/api/live'' then (g_query_token g, ''query'')
          else (None, [])
      | None \<Rightarrow>
          if starts_with (g_path g) ''/api/live'' then (g_query_token g, ''query'') else (None, []))"

definition is_challenge :: "jsv \<Rightarrow> bool" where
  "is_challenge payload \<longleftrightarrow>
     get_field payload ''purpose'' = JStr ''mfa_challenge'' \<or>
     get_field payload ''aud'' = JStr ''mfa-challenge''"

definition verify_message :: "string \<Rightarrow> string" where
  "verify_message name =
     (if name = ''TokenExpiredError'' then ''Token expired''
      else if name = ''JsonWebTokenError'' then ''Invalid token''
      else if name = ''NotBeforeError'' then ''Token not yet active''
      else ''Invalid or expired token'')"

text \<open>The user and the scheme of a request that passes.\<close>

definition authMiddleware ::
  "gateway_env \<Rightarrow> redis \<Rightarrow> gateway_request \<Rightarrow> refusal + (jsv option \<times> string)"
where
  "authMiddleware env r g =
     (if isPublicOrAuthPath (g_path g) \<or> \<not> needsAuth (g_path g) then Inr (None, [])
      else
        (case session_token g of
           (token, scheme) \<Rightarrow>
             if falsy_string token then Inl (refusal_of 401 ''Authentication required'')
             else
               (case verify_session env (the token) of
                  VerifyFails name \<Rightarrow> Inl (refusal_of 401 (verify_message name))
                | Verified payload \<Rightarrow>
                    if is_challenge payload then
                      Inl (refusal_of 401 ''MFA challenge token not valid for this endpoint'')
                    else
                      (case revokeCheck (of_int (now_ms env)) r payload of
                         Some e \<Rightarrow> Inl e
                       | None \<Rightarrow> Inr (Some payload, scheme)))))"

subsection \<open>Roles\<close>

definition role_of :: "jsv option \<Rightarrow> jsv" where
  "role_of u = js_or (get_field (user_value u) ''role'') (JStr ''employee'')"

definition role_in :: "jsv \<Rightarrow> string list \<Rightarrow> bool" where
  "role_in role rs \<longleftrightarrow> role \<in> JStr ` set rs"

definition registry_refuses :: "string \<Rightarrow> jsv \<Rightarrow> sensitive_route \<Rightarrow> bool" where
  "registry_refuses path role e \<longleftrightarrow>
     pathMatchesPrefix path (sr_prefix e) \<and> \<not> role_in role (sr_roles e) \<and>
     \<not> (role = JStr ''employee'' \<and> isSelfServicePath path)"

definition rbacMiddleware :: "gateway_request \<Rightarrow> jsv option \<Rightarrow> refusal option" where
  "rbacMiddleware g u =
     (let path = g_path g; role = role_of u
      in if isPublicOrAuthPath path then None
         else
           (case find (registry_refuses path role) SENSITIVE_ROUTE_REGISTRY of
              Some e \<Rightarrow> Some (refusal_of 403 (sr_message e))
            | None \<Rightarrow>
                if starts_with path ''/api/analytics'' \<and> \<not> role_in role [''admin'', ''manager'', ''hr'']
                then Some (refusal_of 403 ''Forbidden: Insufficient privileges for analytics'')
                else if starts_with path ''/api/employee'' \<and> \<not> isSelfServicePath path \<and>
                  g_method g \<noteq> ''GET'' \<and> \<not> role_in role [''admin'', ''hr'']
                then Some (refusal_of 403 ''Forbidden: Insufficient privileges to modify employees'')
                else if starts_with path ''/api/security'' \<and>
                  \<not> role_in role [''admin'', ''compliance'', ''auditor'']
                then Some (refusal_of 403 ''Forbidden: Insufficient privileges for security'')
                else if starts_with path ''/api/command-center'' \<and>
                  \<not> role_in role [''admin'', ''manager'', ''hr'']
                then Some (refusal_of 403 ''Forbidden: Insufficient privileges for command center'')
                else if starts_with path ''/api/workforce'' \<and>
                  \<not> role_in role [''admin'', ''hr'', ''manager'']
                then Some (refusal_of 403 ''Forbidden: Insufficient privileges for workforce planning'')
                else None))"

subsection \<open>The MFA step-up\<close>

definition MFA_STAMP_MAX_AGE_MS :: rat where "MFA_STAMP_MAX_AGE_MS = 15 * 60 * 1000"
definition MFA_STAMP_CLOCK_SKEW_MS :: rat where "MFA_STAMP_CLOCK_SKEW_MS = 60 * 1000"

definition stamp_is_fresh :: "int \<Rightarrow> jsv \<Rightarrow> bool" where
  "stamp_is_fresh now v =
     (case js_number v of
        None \<Rightarrow> False
      | Some s \<Rightarrow>
          if s \<le> 0 then False
          else
            (let ageMs = of_int now - s * 1000
             in - MFA_STAMP_CLOCK_SKEW_MS \<le> ageMs \<and> ageMs \<le> MFA_STAMP_MAX_AGE_MS))"

definition sessionMfaStampIsFresh :: "int \<Rightarrow> jsv option \<Rightarrow> bool" where
  "sessionMfaStampIsFresh now u = stamp_is_fresh now (get_field (user_value u) ''mfa_validated_at'')"

definition stepUpPayloadIsFresh :: "int \<Rightarrow> jsv \<Rightarrow> bool" where
  "stepUpPayloadIsFresh now payload = stamp_is_fresh now (get_field payload ''iat'')"

definition consumeMfaJti :: "rat \<Rightarrow> redis \<Rightarrow> string \<Rightarrow> rat \<Rightarrow> refusal option \<times> redis" where
  "consumeMfaJti now r jti expMs =
     (if \<not> redis_open r then (Some authStoreUnavailable, r)
      else
        (let ttlSec = max 1 (of_int \<lceil>(expMs - now) / 1000\<rceil>)
         in if redis_throws r then (Some authStoreUnavailable, r)
            else if redis_get now r (''mfa_jti:'' @ jti) \<noteq> None then
              (Some (refusal_of 403 ''MFA token already used''), r)
            else (None, redis_set (''mfa_jti:'' @ jti) ''1'' (now + ttlSec * 1000) r)))"

definition token_user :: "jsv \<Rightarrow> string" where
  "token_user payload =
     js_string (js_or (get_field payload ''sub'')
       (js_or (get_field payload ''user_id'') (js_or (get_field payload ''id'') (JStr []))))"

definition token_tenant :: "jsv \<Rightarrow> string" where
  "token_tenant payload =
     js_string (js_or (get_field payload ''tenant_id'')
       (js_or (get_field payload ''tenantId'') (JStr ''default'')))"

definition authed_user :: "jsv option \<Rightarrow> string" where
  "authed_user u = js_string (js_or (get_field (user_value u) ''id'') (JStr []))"

definition authed_tenant :: "jsv option \<Rightarrow> string" where
  "authed_tenant u = js_string (js_or (get_field (user_value u) ''tenant_id'') (JStr ''default''))"

text \<open>The claims of a verified step-up token, checked in the order of the source.\<close>

definition step_up_claims :: "jsv option \<Rightarrow> jsv \<Rightarrow> refusal option" where
  "step_up_claims u payload =
     (if \<not> truthy (get_field payload ''mfa_validated'') \<or>
         get_field payload ''purpose'' \<noteq> JStr ''mfa_step_up''
      then Some (refusal_of 403 ''Invalid MFA token'')
      else if authed_user u = [] then Some (refusal_of 401 ''Authentication required'')
      else if token_user payload = [] \<or> token_user payload \<noteq> authed_user u
      then Some (refusal_of 403 ''MFA token does not belong to authenticated user'')
      else if token_tenant payload \<noteq> authed_tenant u
      then Some (refusal_of 403 ''MFA token tenant mismatch'')
      else if \<not> truthy (get_field payload ''jti'')
      then Some (refusal_of 403 ''MFA token missing jti'')
      else None)"

definition step_up_expiry :: "int \<Rightarrow> jsv \<Rightarrow> rat" where
  "step_up_expiry now payload =
     (if truthy (get_field payload ''exp'') then number_or_zero (get_field payload ''exp'') * 1000
      else of_int now + 5 * 60 * 1000)"

definition mfaStepUpMiddleware ::
  "gateway_env \<Rightarrow> redis \<Rightarrow> gateway_request \<Rightarrow> jsv option \<Rightarrow> refusal option \<times> redis"
where
  "mfaStepUpMiddleware env r g u =
     (if \<not> isSensitiveRoute (g_path g) then (None, r)
      else if safe_method (g_method g) \<and> sessionMfaStampIsFresh (now_ms env) u then (None, r)
      else if falsy_string (map_get (g_headers g) ''x-mfa-token'') then
        (Some (refusal_of 403 ''MFA validation required for this resource''), r)
      else
        (case verify_step_up env (the (map_get (g_headers g) ''x-mfa-token'')) of
           VerifyFails name \<Rightarrow>
             (Some (refusal_of 403
                (if name = ''TokenExpiredError'' then ''MFA token expired''
                 else if name = ''JsonWebTokenError'' \<or> name = ''NotBeforeError''
                 then ''Invalid MFA token''
                 else ''MFA validation failed'')), r)
         | Verified payload \<Rightarrow>
             (case step_up_claims u payload of
                Some e \<Rightarrow> (Some e, r)
              | None \<Rightarrow>
                  if safe_method (g_method g) then
                    (if stepUpPayloadIsFresh (now_ms env) payload then (None, r)
                     else (Some (refusal_of 403 ''MFA step-up is stale''), r))
                  else
                    consumeMfaJti (of_int (now_ms env)) r (js_string (get_field payload ''jti''))
                      (step_up_expiry (now_ms env) payload))))"

subsection \<open>CSRF\<close>

definition CSRF_COOKIE_AUTHENTICATED_ROUTES :: "string list" where
  "CSRF_COOKIE_AUTHENTICATED_ROUTES = [''/api/auth/refresh'', ''/api/auth/logout'']"

definition CSRF_BODY_CREDENTIAL_ROUTES :: "string list" where
  "CSRF_BODY_CREDENTIAL_ROUTES = [''/api/auth/mfa/validate'']"

definition hasHeaderCredential :: "gateway_request \<Rightarrow> string \<Rightarrow> bool" where
  "hasHeaderCredential g scheme \<longleftrightarrow>
     scheme = ''bearer'' \<or> scheme = ''query'' \<or>
     (case map_get (g_headers g) ''authorization'' of
        Some h \<Rightarrow> starts_with h ''Bearer '' | None \<Rightarrow> False) \<or>
     (case map_get (g_headers g) ''x-api-key'' of Some k \<Rightarrow> trim k \<noteq> [] | None \<Rightarrow> False)"

text \<open>The refusal, if any, and whether a CSRF cookie is minted into the response.\<close>

definition csrfMiddleware ::
  "gateway_request \<Rightarrow> jsv option \<Rightarrow> string \<Rightarrow> refusal option \<times> bool"
where
  "csrfMiddleware g u scheme =
     (if isPublicOrAuthPath (g_path g) then (None, False)
      else
        (let cookie = g_csrf_cookie g; header = map_get (g_headers g) ''x-csrf-token'';
             mint = (u \<noteq> None \<and> falsy_string cookie)
         in if safe_method (g_method g) then (None, mint)
            else if hasHeaderCredential g scheme then (None, mint)
            else if \<exists>p \<in> set CSRF_BODY_CREDENTIAL_ROUTES. pathMatchesPrefix (g_path g) p
            then (None, mint)
            else if \<not> falsy_string cookie \<and> \<not> falsy_string header \<and> header = cookie
            then (None, mint)
            else
              (let cookieRoute =
                     (\<exists>p \<in> set CSRF_COOKIE_AUTHENTICATED_ROUTES. pathMatchesPrefix (g_path g) p)
               in (Some (refusal_of 403 ''CSRF token validation failed''),
                   mint \<or> cookieRoute \<and> falsy_string cookie))))"

subsection \<open>The checkout\<close>

definition CHECKOUT_PLAN_LIMITS :: "(string, int) js_map" where
  "CHECKOUT_PLAN_LIMITS = [(''starter'', 50), (''growth'', 500), (''enterprise'', 10000)]"

definition CHECKOUT_BILLING_INTERVALS :: "string list" where
  "CHECKOUT_BILLING_INTERVALS = [''monthly'', ''annual'']"

definition CHECKOUT_PER_SEAT_PRICE :: int where "CHECKOUT_PER_SEAT_PRICE = 10"

definition lower_trimmed :: "jsv \<Rightarrow> string" where
  "lower_trimmed v = (case v of JStr s \<Rightarrow> to_lower (trim s) | _ \<Rightarrow> [])"

definition positive_integer :: "jsv \<Rightarrow> int option" where
  "positive_integer v =
     (case v of
        JNum q \<Rightarrow> if q = of_int \<lfloor>q\<rfloor> \<and> 0 < q then Some \<lfloor>q\<rfloor> else None
      | _ \<Rightarrow> None)"

record checkout_order =
  co_plan :: string
  co_seats :: int
  co_interval :: string

definition normalizeCheckoutRequest :: "jsv \<Rightarrow> refusal + checkout_order" where
  "normalizeCheckoutRequest body =
     (let source = (if is_object body then body else JObj []);
          plan = lower_trimmed (get_field source ''plan'')
      in case map_get CHECKOUT_PLAN_LIMITS plan of
           None \<Rightarrow> Inl (refusal_of 400 (''Invalid plan; expected one of: '' @
             join_with '', '' (map fst CHECKOUT_PLAN_LIMITS)))
         | Some maxSeats \<Rightarrow>
             (case positive_integer (get_field source ''seats'') of
                None \<Rightarrow> Inl (refusal_of 400 ''seats must be a positive integer'')
              | Some seats \<Rightarrow>
                  if maxSeats < seats then
                    Inl (refusal_of 400 (''seats exceeds the '' @ plan @ '' plan limit of '' @
                      string_of_int maxSeats))
                  else
                    (let interval = (if get_field source ''billing_interval'' = JUndef then ''monthly''
                           else lower_trimmed (get_field source ''billing_interval''))
                     in if interval \<notin> set CHECKOUT_BILLING_INTERVALS then
                          Inl (refusal_of 400 (''Invalid billing_interval; expected one of: '' @
                            join_with '', '' CHECKOUT_BILLING_INTERVALS))
                        else Inr \<lparr>co_plan = plan, co_seats = seats, co_interval = interval\<rparr>)))"

definition resolveCheckoutPricing :: "int \<Rightarrow> (int \<times> int) option" where
  "resolveCheckoutPricing seats =
     (if seats \<le> 0 then None
      else
        (let totalAmount = seats * CHECKOUT_PER_SEAT_PRICE
         in if \<bar>totalAmount\<bar> \<le> 2 ^ 53 - 1 then Some (CHECKOUT_PER_SEAT_PRICE, totalAmount) else None))"

text \<open>The headcount call to the employee service: it fails, or answers with a body.\<close>

datatype headcount_call = HeadcountFails bool \<comment> \<open>timed out\<close> | HeadcountAnswer jsv

definition fetchTenantHeadcount :: "jsv \<Rightarrow> rat option" where
  "fetchTenantHeadcount data =
     (case get_field data ''total'' of JNum q \<Rightarrow> if q < 0 then None else Some q | _ \<Rightarrow> None)"

record checkout_session =
  cs_url :: string
  cs_order :: checkout_order
  cs_headcount :: rat
  cs_total :: int

definition create_checkout ::
  "jsv option \<Rightarrow> jsv \<Rightarrow> headcount_call \<Rightarrow> refusal + checkout_session"
where
  "create_checkout u body call =
     (case u of
        None \<Rightarrow> Inl (refusal_of 401 ''Authentication required'')
      | Some p \<Rightarrow>
          let tenantId = get_field p ''tenant_id''
          in if \<not> truthy tenantId then Inl (refusal_of 400 ''Tenant context missing'')
             else
               (case normalizeCheckoutRequest body of
                  Inl e \<Rightarrow> Inl e
                | Inr d \<Rightarrow>
                    (case resolveCheckoutPricing (co_seats d) of
                       None \<Rightarrow> Inl (refusal_of 400 ''Unable to price the requested seat count'')
                     | Some (perSeatPrice, totalAmount) \<Rightarrow>
                         (case call of
                            HeadcountFails t \<Rightarrow> Inl (refusal_of 502
                              ((if t then ''Employee service timed out''
                                else ''Employee service unavailable'') @ ''; checkout not created''))
                          | HeadcountAnswer data \<Rightarrow>
                              (case fetchTenantHeadcount data of
                                 None \<Rightarrow> Inl (refusal_of 502
                                   ''Employee service returned no usable headcount; checkout not created'')
                               | Some headcount \<Rightarrow> Inr
                                   \<lparr>cs_url = ''https://mock-stripe.atlas.io/checkout/'' @
                                      js_string tenantId @ ''?plan='' @ co_plan d @ ''&interval='' @
                                      co_interval d @ ''&seats='' @ string_of_int (co_seats d) @
                                      ''&amount='' @ string_of_int totalAmount,
                                    cs_order = d, cs_headcount = headcount,
                                    cs_total = totalAmount\<rparr>)))))"

subsection \<open>Routing\<close>

text \<open>Mount, service and the replacement of the mount in the upstream path.\<close>

definition proxy_table :: "(string \<times> string \<times> string) list" where
  "proxy_table =
     [(''/api/auth'', ''auth'', []), (''/scim'', ''auth'', []), (''/saml'', ''auth'', []),
      (''/api/employee'', ''employee'', []), (''/api/analytics'', ''analytics'', ''/analytics''),
      (''/api/attendance'', ''attendance'', ''/api/attendance''),
      (''/api/leave'', ''leave'', ''/api/leave''), (''/api/payroll'', ''payroll'', ''/api/payroll''),
      (''/api/notification'', ''notification'', []), (''/api/ats'', ''ats'', ''/api/v1''),
      (''/api/lms'', ''lms'', ''/api/v1''), (''/api/performance'', ''performance'', ''/api/v1''),
      (''/api/copilot'', ''copilot'', []), (''/api/audit'', ''audit'', []),
      (''/api/compliance'', ''compliance'', ''/api/v1''),
      (''/api/integration'', ''integration'', ''/api/v1/integration''),
      (''/api/lifecycle'', ''lifecycle'', ''/api/v1/lifecycle''),
      (''/api/security'', ''security'', ''/api/v1/security''), (''/api/ai'', ''ai'', ''/api/v1/ai''),
      (''/api/live'', ''live'', ''/api/v1/live''),
      (''/api/command-center'', ''analytics'', ''/api/v1/command-center''),
      (''/api/workforce'', ''workforce'', ''/api/v1/workforce''),
      (''/api/learning'', ''lms'', ''/api/v1/learning'')]"

text \<open>Express finds the mount regardless of case and strips it; \<open>proxyService\<close> puts it back.\<close>

definition mount_matches :: "string \<Rightarrow> string \<Rightarrow> bool" where
  "mount_matches path mount \<longleftrightarrow> pathMatchesPrefix (to_lower path) mount"

definition upstream_path :: "string \<Rightarrow> string \<Rightarrow> string \<Rightarrow> string" where
  "upstream_path path mount rewrite =
     (let rest = drop (length mount) path
      in rewrite @ (if rest = [] then ''/'' else rest))"

definition route :: "string \<Rightarrow> (string \<times> string) option" where
  "route path =
     map_option (\<lambda>(mount, service, rewrite). (service, upstream_path path mount rewrite))
       (find (\<lambda>(mount, service, rewrite). mount_matches path mount) proxy_table)"

record forwarded =
  fw_service :: string
  fw_path :: string
  fw_user :: "jsv option" \<comment> \<open>the user of the internal token, if one is minted\<close>
  fw_tenant :: "string option" \<comment> \<open>the header \<open>x-tenant-id\<close>\<close>

datatype gateway_answer =
    Refused refusal
  | CheckoutDone checkout_session
  | Forwarded forwarded
  | NotProxied \<comment> \<open>another handler of the application, or a 404\<close>

definition proxyService :: "gateway_request \<Rightarrow> jsv option \<Rightarrow> gateway_answer" where
  "proxyService g u =
     (case route (g_path g) of
        None \<Rightarrow> NotProxied
      | Some (service, path) \<Rightarrow> Forwarded
          \<lparr>fw_service = service, fw_path = path, fw_user = u,
           fw_tenant = (case u of Some p \<Rightarrow> Some (authed_tenant u)
                        | None \<Rightarrow> map_get (g_headers g) ''x-tenant-id'')\<rparr>)"

definition is_checkout :: "gateway_request \<Rightarrow> bool" where
  "is_checkout g \<longleftrightarrow> g_method g = ''POST'' \<and>
     to_lower (g_path g) \<in> {''/api/billing/create-checkout-session'', ''/api/billing/create-checkout-session/''}"

text \<open>A request through the chain.\<close>

definition gateway ::
  "gateway_env \<Rightarrow> redis \<Rightarrow> headcount_call \<Rightarrow> gateway_request \<Rightarrow> gateway_answer \<times> redis"
where
  "gateway env r call g =
     (case authMiddleware env r g of
        Inl e \<Rightarrow> (Refused e, r)
      | Inr (u, scheme) \<Rightarrow>
          (case rbacMiddleware g u of
             Some e \<Rightarrow> (Refused e, r)
           | None \<Rightarrow>
               (case mfaStepUpMiddleware env r g u of
                  (Some e, r') \<Rightarrow> (Refused e, r')
                | (None, r') \<Rightarrow>
                    (case csrfMiddleware g u scheme of
                       (Some e, mint) \<Rightarrow> (Refused e, r')
                     | (None, mint) \<Rightarrow>
                         if is_checkout g then
                           (case create_checkout u (g_body g) call of
                              Inl e \<Rightarrow> (Refused e, r')
                            | Inr s \<Rightarrow> (CheckoutDone s, r'))
                         else (proxyService g u, r')))))"

subsection \<open>Lemmas on prefixes\<close>

lemma split_on_append_sep:
  "split_on d (s @ d # t) = split_on d s @ split_on d t"
  by (induction s) (auto split: list.splits)

lemma join_with_append:
  "xs \<noteq> [] \<Longrightarrow> ys \<noteq> [] \<Longrightarrow> join_with d (xs @ ys) = join_with d xs @ d @ join_with d ys"
  by (induction d xs rule: join_with.induct) (cases ys; simp)+

text \<open>A path lies under a prefix when the segments of the prefix come first.\<close>

definition segments :: "string \<Rightarrow> string list" where
  "segments path = split_on (CHR ''/'') path"

lemma pathMatchesPrefix_segments:
  "pathMatchesPrefix path p \<longleftrightarrow> prefix (segments p) (segments path)"
proof
  assume "pathMatchesPrefix path p"
  then consider "path = p" | r where "path = p @ CHR ''/'' # r"
    by (auto simp: pathMatchesPrefix_def starts_with_iff_prefix elim: prefixE)
  then show "prefix (segments p) (segments path)"
    by cases (auto simp: segments_def split_on_append_sep)
next
  assume "prefix (segments p) (segments path)"
  then obtain ws where ws: "segments path = segments p @ ws" by (auto elim: prefixE)
  then have "path = join_with ''/'' (segments p @ ws)"
    using join_split [of "CHR ''/''" path] by (simp add: segments_def)
  then have "path = (if ws = [] then p else p @ ''/'' @ join_with ''/'' ws)"
    using join_split [of "CHR ''/''" p] by (simp add: segments_def join_with_append)
  then show "pathMatchesPrefix path p"
    by (auto simp: pathMatchesPrefix_def starts_with_iff_prefix split: if_splits)
qed

subsection \<open>What a request that passes has shown\<close>

lemma authMiddleware_passed:
  assumes "authMiddleware env r g = Inr (u, scheme)"
    and "needsAuth (g_path g)" and "\<not> isPublicOrAuthPath (g_path g)"
  obtains tok p where "fst (session_token g) = Some tok" "tok \<noteq> []" "verify_session env tok = Verified p"
    "\<not> is_challenge p" "revokeCheck (of_int (now_ms env)) r p = None" "u = Some p"
  using assms
  by (auto simp: authMiddleware_def falsy_string_def split: prod.splits if_splits jwt_answer.splits option.splits)

lemma revokeCheck_passed:
  assumes "revokeCheck now r p = None" and "k \<in> set (denylist_keys p)"
  shows "redis_open r \<and> falsy_string (redis_get now r k)"
  using assms by (auto simp: revokeCheck_def split: if_splits)

lemma rbacMiddleware_passed:
  assumes "rbacMiddleware g u = None" and "\<not> isPublicOrAuthPath (g_path g)"
    and "e \<in> set SENSITIVE_ROUTE_REGISTRY"
  shows "\<not> registry_refuses (g_path g) (role_of u) e"
  using assms by (auto simp: rbacMiddleware_def Let_def find_None_iff split: option.splits)

lemma consumeMfaJti_passed:
  assumes "consumeMfaJti now r jti expMs = (None, r')"
  shows "redis_get now r (''mfa_jti:'' @ jti) = None"
    and "t < expMs \<Longrightarrow> redis_get t r' (''mfa_jti:'' @ jti) = Some ''1''"
proof -
  let ?ttl = "max 1 (of_int \<lceil>(expMs - now) / 1000\<rceil>) :: rat"
  have r: "redis_get now r (''mfa_jti:'' @ jti) = None"
    "r' = redis_set (''mfa_jti:'' @ jti) ''1'' (now + ?ttl * 1000) r"
    using assms by (auto simp: consumeMfaJti_def Let_def split: if_splits)
  then show "redis_get now r (''mfa_jti:'' @ jti) = None" by simp
  have "(expMs - now) / 1000 \<le> ?ttl" by (rule max.coboundedI2) simp
  then have "expMs \<le> now + ?ttl * 1000" by (simp add: divide_le_eq)
  then show "redis_get t r' (''mfa_jti:'' @ jti) = Some ''1''" if "t < expMs"
    using that r(2) by (simp add: redis_get_def redis_set_def)
qed

lemma consumeMfaJti_replay:
  "redis_get now r (''mfa_jti:'' @ jti) = Some v \<Longrightarrow> \<exists>e. consumeMfaJti now r jti expMs = (Some e, r)"
  by (simp add: consumeMfaJti_def Let_def)

text \<open>How a sensitive request showed its second factor.\<close>

definition step_up_shown ::
  "gateway_env \<Rightarrow> redis \<Rightarrow> redis \<Rightarrow> gateway_request \<Rightarrow> jsv \<Rightarrow> jsv \<Rightarrow> bool"
where
  "step_up_shown env r r' g p q \<longleftrightarrow>
     (\<exists>tok. map_get (g_headers g) ''x-mfa-token'' = Some tok \<and> verify_step_up env tok = Verified q) \<and>
     truthy (get_field q ''mfa_validated'') \<and> get_field q ''purpose'' = JStr ''mfa_step_up'' \<and>
     token_user q = authed_user (Some p) \<and> token_user q \<noteq> [] \<and> token_tenant q = authed_tenant (Some p) \<and>
     (if safe_method (g_method g) then r' = r \<and> stepUpPayloadIsFresh (now_ms env) q
      else redis_get (of_int (now_ms env)) r (''mfa_jti:'' @ js_string (get_field q ''jti'')) = None \<and>
        (\<forall>t < step_up_expiry (now_ms env) q.
           redis_get t r' (''mfa_jti:'' @ js_string (get_field q ''jti'')) = Some ''1''))"

lemma step_up_claims_passed:
  "step_up_claims u q = None \<Longrightarrow> truthy (get_field q ''mfa_validated'') \<and>
     get_field q ''purpose'' = JStr ''mfa_step_up'' \<and> token_user q = authed_user u \<and> token_user q \<noteq> [] \<and>
     token_tenant q = authed_tenant u"
  by (auto simp: step_up_claims_def split: if_splits)

lemma mfaStepUpMiddleware_passed:
  assumes m: "mfaStepUpMiddleware env r g (Some p) = (None, r')" and s: "isSensitiveRoute (g_path g)"
  shows "(safe_method (g_method g) \<and> sessionMfaStampIsFresh (now_ms env) (Some p) \<and> r' = r) \<or>
    (\<exists>q. step_up_shown env r r' g p q)"
proof (cases "safe_method (g_method g) \<and> sessionMfaStampIsFresh (now_ms env) (Some p)")
  case True
  with m s show ?thesis by (simp add: mfaStepUpMiddleware_def)
next
  case False
  then obtain tok q where tok: "map_get (g_headers g) ''x-mfa-token'' = Some tok"
    and q: "verify_step_up env tok = Verified q" and claims: "step_up_claims (Some p) q = None"
    using m s by (auto simp: mfaStepUpMiddleware_def falsy_string_def
        split: if_splits jwt_answer.splits option.splits)
  show ?thesis
  proof (cases "safe_method (g_method g)")
    case True
    with m s False tok q claims have "r' = r \<and> stepUpPayloadIsFresh (now_ms env) q"
      by (auto simp: mfaStepUpMiddleware_def split: if_splits)
    with True tok q step_up_claims_passed [OF claims] show ?thesis
      by (auto simp: step_up_shown_def)
  next
    case unsafe: False
    with m s tok q claims have "consumeMfaJti (of_int (now_ms env)) r
        (js_string (get_field q ''jti'')) (step_up_expiry (now_ms env) q) = (None, r')"
      by (auto simp: mfaStepUpMiddleware_def split: if_splits)
    from consumeMfaJti_passed [OF this] unsafe tok q step_up_claims_passed [OF claims]
    show ?thesis by (auto simp: step_up_shown_def)
  qed
qed

lemma gateway_forwarded:
  assumes "gateway env r call g = (Forwarded fw, r')"
  obtains u scheme mint where "authMiddleware env r g = Inr (u, scheme)" "rbacMiddleware g u = None"
    "mfaStepUpMiddleware env r g u = (None, r')" "csrfMiddleware g u scheme = (None, mint)"
    "proxyService g u = Forwarded fw"
  using assms
  by (auto simp: gateway_def split: sum.splits prod.splits option.splits if_splits)

text \<open>
  Claim C8. What a request that reaches a service under a protected prefix has shown: a token
  the session key verifies, that is no MFA challenge and whose session is not revoked (and redis
  was there to say so); the identity and tenant it is forwarded with are those of that token,
  whatever headers it carried; for the sensitive prefixes its role is on the allowlist, or it is
  an employee on a self-service path, and it has a fresh MFA stamp (reads only) or a step-up
  token of the same user and tenant, which a read may reuse while fresh and which a write uses
  up until the token expires.
\<close>

theorem gateway_guards:
  assumes "gateway env r call g = (Forwarded fw, r')"
    and "needsAuth (g_path g)" and "\<not> isPublicOrAuthPath (g_path g)"
  shows "\<exists>tok p. fst (session_token g) = Some tok \<and> tok \<noteq> [] \<and> verify_session env tok = Verified p \<and>
    \<not> is_challenge p \<and>
    (\<forall>k \<in> set (denylist_keys p). redis_open r \<and> falsy_string (redis_get (of_int (now_ms env)) r k)) \<and>
    fw_user fw = Some p \<and> fw_tenant fw = Some (authed_tenant (Some p)) \<and>
    (\<forall>e \<in> set SENSITIVE_ROUTE_REGISTRY. pathMatchesPrefix (g_path g) (sr_prefix e) \<longrightarrow>
       role_in (role_of (Some p)) (sr_roles e) \<or>
       role_of (Some p) = JStr ''employee'' \<and> isSelfServicePath (g_path g)) \<and>
    (isSensitiveRoute (g_path g) \<longrightarrow>
       (safe_method (g_method g) \<and> sessionMfaStampIsFresh (now_ms env) (Some p) \<and> r' = r) \<or>
       (\<exists>q. step_up_shown env r r' g p q))"
proof -
  obtain u scheme mint where passed: "authMiddleware env r g = Inr (u, scheme)"
    "rbacMiddleware g u = None" "mfaStepUpMiddleware env r g u = (None, r')"
    "proxyService g u = Forwarded fw"
    using assms(1) by (rule gateway_forwarded)
  obtain tok p where p: "fst (session_token g) = Some tok" "tok \<noteq> []"
    "verify_session env tok = Verified p" "\<not> is_challenge p"
    "revokeCheck (of_int (now_ms env)) r p = None" "u = Some p"
    using passed(1) assms(2,3) by (rule authMiddleware_passed)
  have fw: "fw_user fw = Some p" "fw_tenant fw = Some (authed_tenant (Some p))"
    using passed(4) p(6) by (auto simp: proxyService_def split: option.splits)
  have roles: "role_in (role_of (Some p)) (sr_roles e) \<or>
       role_of (Some p) = JStr ''employee'' \<and> isSelfServicePath (g_path g)"
    if "e \<in> set SENSITIVE_ROUTE_REGISTRY" "pathMatchesPrefix (g_path g) (sr_prefix e)" for e
    using rbacMiddleware_passed [OF passed(2) assms(3) that(1)] that(2) p(6)
    by (auto simp: registry_refuses_def)
  show ?thesis
    using p(1-4) revokeCheck_passed [OF p(5)] fw roles
      mfaStepUpMiddleware_passed [OF passed(3) [unfolded p(6)]]
    by blast
qed

definition sample_env :: gateway_env where
  "sample_env = \<lparr>verify_session = (\<lambda>t. if t = ''good'' then Verified (JObj [(''id'', JNum 7),
       (''role'', JStr ''hr''), (''tenant_id'', JStr ''acme'')]) else VerifyFails ''JsonWebTokenError''),
     verify_step_up = (\<lambda>t. VerifyFails ''JsonWebTokenError''), now_ms = 0\<rparr>"

definition empty_redis :: redis where
  "empty_redis = \<lparr>redis_open = True, redis_throws = False, redis_keys = []\<rparr>"

definition sample_get :: "string \<Rightarrow> string \<Rightarrow> gateway_request" where
  "sample_get path token = \<lparr>g_method = ''GET'', g_path = path,
     g_headers = [(''authorization'', ''Bearer '' @ token)], g_csrf_cookie = None, g_query_token = None,
     g_body = JUndef\<rparr>"

theorem gateway_guards_witness:
  "\<exists>fw. gateway sample_env empty_redis (HeadcountFails True) (sample_get ''/api/leave/7'' ''good'') =
     (Forwarded fw, empty_redis) \<and> fw_tenant fw = Some ''acme'' \<and>
     (\<exists>p. fw_user fw = Some p \<and> verify_session sample_env ''good'' = Verified p)"
proof -
  let ?g = "sample_get ''/api/leave/7'' ''good''"
  have "gateway sample_env empty_redis (HeadcountFails True) ?g =
      (Forwarded \<lparr>fw_service = ''leave'', fw_path = ''/api/leave/7'', fw_user = Some (JObj [(''id'', JNum 7),
         (''role'', JStr ''hr''), (''tenant_id'', JStr ''acme'')]), fw_tenant = Some ''acme''\<rparr>, empty_redis)"
    by code_simp
  then obtain fw where fw: "gateway sample_env empty_redis (HeadcountFails True) ?g =
      (Forwarded fw, empty_redis)" "fw_tenant fw = Some ''acme''" by simp
  have "needsAuth (g_path ?g)" "\<not> isPublicOrAuthPath (g_path ?g)" by code_simp+
  from gateway_guards [OF fw(1) this] obtain tok p where "fst (session_token ?g) = Some tok"
      "verify_session sample_env tok = Verified p" "fw_user fw = Some p" by blast
  moreover have "session_token ?g = (Some ''good'', ''bearer'')" by code_simp
  ultimately show ?thesis using fw by auto
qed

subsection \<open>Where the guards do not look\<close>

lemma upper_api_unguarded:
  assumes "starts_with path ''/API/''"
  shows "\<not> isPublicOrAuthPath path" "\<not> needsAuth path" "\<not> isSensitiveRoute path"
    "\<not> starts_with path (''/api'' @ t)"
proof -
  obtain s where "path = ''/API/'' @ s" using assms by (auto simp: starts_with_iff_prefix elim: prefixE)
  then show "\<not> isPublicOrAuthPath path" "\<not> needsAuth path" "\<not> isSensitiveRoute path"
    "\<not> starts_with path (''/api'' @ t)"
    by (simp_all add: isPublicOrAuthPath_def PUBLIC_PREFIXES_def needsAuth_def protectedPrefixes_def
        isSensitiveRoute_def SENSITIVE_ROUTE_REGISTRY_def pathMatchesPrefix_def starts_with_def)
qed

text \<open>
  Claim C39. The guards compare prefixes exactly, the proxies are mounted without regard to case:
  a read under \<open>/API\<close> is forwarded to the service its lower-case path names, for every service,
  with no token, role or second factor looked at, whatever the request carries, and whatever
  redis says; it is forwarded without an identity and with the tenant header the client chose.
\<close>

theorem gateway_case_bypass:
  assumes "starts_with (g_path g) ''/API/''" and "safe_method (g_method g)"
    and "route (g_path g) = Some (service, path)"
  shows "gateway env r call g =
    (Forwarded \<lparr>fw_service = service, fw_path = path, fw_user = None,
       fw_tenant = map_get (g_headers g) ''x-tenant-id''\<rparr>, r)"
proof -
  note un = upper_api_unguarded [OF assms(1)]
  have "find (registry_refuses (g_path g) role) SENSITIVE_ROUTE_REGISTRY = None" for role
    using un(3) by (auto simp: find_None_iff registry_refuses_def isSensitiveRoute_def)
  then have "rbacMiddleware g None = None"
    using un(1) un(4) [of "''/analytics''"] un(4) [of "''/employee''"] un(4) [of "''/security''"]
      un(4) [of "''/command-center''"] un(4) [of "''/workforce''"]
    by (simp add: rbacMiddleware_def Let_def)
  moreover have "authMiddleware env r g = Inr (None, [])" by (simp add: authMiddleware_def un)
  moreover have "mfaStepUpMiddleware env r g None = (None, r)" by (simp add: mfaStepUpMiddleware_def un)
  moreover have "csrfMiddleware g None [] = (None, False)"
    using assms(2) by (simp add: csrfMiddleware_def un)
  moreover have "\<not> is_checkout g"
    using assms(2) by (auto simp: is_checkout_def safe_method_def)
  ultimately show ?thesis
    using assms(3) by (simp add: gateway_def proxyService_def)
qed

theorem gateway_case_bypass_witness:
  "\<exists>fw r. gateway sample_env empty_redis (HeadcountFails True)
     ((sample_get ''/API/payroll/enterprise/dashboard'' ''bad'')\<lparr>g_headers := [(''x-tenant-id'', ''acme'')]\<rparr>) =
     (Forwarded fw, r) \<and> fw_service fw = ''payroll'' \<and>
     fw_path fw = ''/api/payroll/enterprise/dashboard'' \<and> fw_tenant fw = Some ''acme''"
proof -
  have "route ''/API/payroll/enterprise/dashboard'' =
      Some (''payroll'', ''/api/payroll/enterprise/dashboard'')" by code_simp
  then show ?thesis
    using gateway_case_bypass [of "(sample_get ''/API/payroll/enterprise/dashboard'' ''bad'')
        \<lparr>g_headers := [(''x-tenant-id'', ''acme'')]\<rparr>" "''payroll''"
        "''/api/payroll/enterprise/dashboard''"]
    by (simp add: sample_get_def safe_method_def starts_with_def)
qed

end
