(* ===== verification/Auth_Policy.thy ===== *)
theory Auth_Policy
  imports Js_Value
begin

section \<open>The auth service: policies and credentials\<close>

text \<open>
  \<open>services/auth-service/index.js\<close>, the pure decisions: what is logged, which passwords and
  e-mail addresses are accepted, what a tenant's password policy may be, the password history,
  and the provisioning keys with their scopes. A row of the database reaches these functions as a
  \<open>jsv\<close>; \<open>bcrypt\<close> is a parameter.
\<close>

subsection \<open>What is logged\<close>

definition sensitiveKeys :: "string list" where
  "sensitiveKeys =
     [''password'', ''token'', ''secret'', ''authorization'', ''cookie'', ''mfa_secret'',
      ''backup_codes'', ''client_secret'', ''access_token'', ''refresh_token'']"

fun sanitizeForLogs :: "jsv \<Rightarrow> jsv" where
  "sanitizeForLogs (JArr vs) = JArr (map sanitizeForLogs vs)"
| "sanitizeForLogs (JObj fs) =
     JObj (map (\<lambda>(k, v). (k, if to_lower k \<in> set sensitiveKeys then JStr ''[REDACTED]''
                              else sanitizeForLogs v)) fs)"
| "sanitizeForLogs v = v"

subsection \<open>Password policy\<close>

definition PASSWORD_HARD_FLOOR :: int where "PASSWORD_HARD_FLOOR = 8"
definition PASSWORD_MIN_LENGTH_CAP :: int where "PASSWORD_MIN_LENGTH_CAP = 128"
definition PASSWORD_HISTORY_MAX_RETENTION :: int where "PASSWORD_HISTORY_MAX_RETENTION = 24"
definition PASSWORD_MAX_AGE_DAYS_CAP :: int where "PASSWORD_MAX_AGE_DAYS_CAP = 730"

definition COMMON_PASSWORD_LIST_VERSION :: string where
  "COMMON_PASSWORD_LIST_VERSION = ''2026.10''"

definition COMMON_PASSWORDS :: "string list" where
  "COMMON_PASSWORDS =
     [''1234'', ''12345'', ''123456'', ''1234567'', ''12345678'', ''123456789'', ''1234567890'',
      ''111111'', ''000000'', ''1q2w3e4r'', ''qazwsx'', ''asdfghjkl'', ''zaq12wsx'', ''qwerty'',
      ''qwerty1'', ''qwerty12'', ''qwerty123'', ''abc123'', ''abcd1234'', ''1234abcd'',
      ''password'', ''password1'', ''password12'', ''password123'', ''password1234'',
      ''passw0rd'', ''p@ssw0rd'', ''p@ssword'', ''letmein'', ''letmein1'', ''welcome'',
      ''welcome1'', ''welcome123'', ''admin'', ''admin1'', ''admin123'', ''administrator'',
      ''root'', ''toor'', ''guest'', ''changeme'', ''changeit'', ''secret'', ''secret1'',
      ''secret123'', ''default'', ''iloveyou'', ''monkey'', ''monkey1'', ''dragon'', ''dragon1'',
      ''football'', ''baseball'', ''basketball'', ''soccer'', ''sunshine'', ''princess'',
      ''superman'', ''batman'', ''starwars'', ''trustno1'', ''master'', ''shadow'', ''michael'',
      ''jennifer'', ''jessica'', ''michelle'', ''mustang'', ''access'', ''flower'', ''whatever'',
      ''computer'', ''charlie'', ''daniel'', ''thomas'', ''hunter'', ''harley'', ''ranger'',
      ''buster'', ''test123'', ''test1234'']"

record password_policy =
  min_length :: int
  require_upper :: bool
  require_lower :: bool
  require_digit :: bool
  require_symbol :: bool
  history_count :: int
  max_age_days :: "int option"

definition DEFAULT_PASSWORD_POLICY :: password_policy where
  "DEFAULT_PASSWORD_POLICY =
     \<lparr>min_length = PASSWORD_HARD_FLOOR, require_upper = True, require_lower = False,
      require_digit = True, require_symbol = False, history_count = 0, max_age_days = None\<rparr>"

text \<open>A policy as the value it is in the source.\<close>

definition policy_value :: "password_policy \<Rightarrow> jsv" where
  "policy_value p =
     JObj [(''min_length'', JNum (of_int (min_length p))), (''require_upper'', JBool (require_upper p)),
       (''require_lower'', JBool (require_lower p)), (''require_digit'', JBool (require_digit p)),
       (''require_symbol'', JBool (require_symbol p)),
       (''history_count'', JNum (of_int (history_count p))),
       (''max_age_days'', case max_age_days p of None \<Rightarrow> JNull | Some d \<Rightarrow> JNum (of_int d))]"

definition trailing_char :: "char \<Rightarrow> bool" where
  "trailing_char c \<longleftrightarrow> is_digit c \<or> c \<in> set ''!@#$%^&*._-''"

definition strip_trailing :: "string \<Rightarrow> string" where
  "strip_trailing s = rev (dropWhile trailing_char (rev s))"

definition isCommonPassword :: "jsv \<Rightarrow> bool" where
  "isCommonPassword password =
     (case password of
        JStr p \<Rightarrow>
          if p = [] then False
          else
            (let candidate = to_lower (trim p); stripped = strip_trailing candidate
             in candidate \<in> set COMMON_PASSWORDS \<or>
                6 \<le> length stripped \<and> stripped \<in> set COMMON_PASSWORDS)
      | _ \<Rightarrow> False)"

text \<open>\<open>Math.trunc\<close> of a number, or the integer a string spells.\<close>

definition js_trunc :: "rat \<Rightarrow> int" where
  "js_trunc q = (if q < 0 then \<lceil>q\<rceil> else \<lfloor>q\<rfloor>)"

definition integer_literal :: "string \<Rightarrow> int option" where
  "integer_literal s =
     (case s of
        c # r \<Rightarrow>
          if c = CHR ''-'' then
            (if r \<noteq> [] \<and> list_all is_digit r then Some (- int (digits_val r)) else None)
          else if list_all is_digit s then Some (int (digits_val s)) else None
      | [] \<Rightarrow> None)"

definition toInt :: "jsv \<Rightarrow> int option" where
  "toInt v =
     (case v of
        JNum q \<Rightarrow> Some (js_trunc q)
      | JStr s \<Rightarrow> integer_literal (trim s)
      | _ \<Rightarrow> None)"

definition clamp_between :: "int \<Rightarrow> int \<Rightarrow> int \<Rightarrow> int" where
  "clamp_between lo hi n = min (max n lo) hi"

definition flag_of :: "jsv \<Rightarrow> bool \<Rightarrow> bool" where
  "flag_of v d = (case v of JBool b \<Rightarrow> b | _ \<Rightarrow> d)"

definition clampPasswordPolicy :: "jsv \<Rightarrow> password_policy" where
  "clampPasswordPolicy raw =
     (let d = DEFAULT_PASSWORD_POLICY
      in if \<not> is_object raw then d
         else
           \<lparr>min_length = (case toInt (get_field raw ''min_length'') of
                None \<Rightarrow> min_length d
              | Some n \<Rightarrow> clamp_between PASSWORD_HARD_FLOOR PASSWORD_MIN_LENGTH_CAP n),
            require_upper = flag_of (get_field raw ''require_upper'') (require_upper d),
            require_lower = flag_of (get_field raw ''require_lower'') (require_lower d),
            require_digit = flag_of (get_field raw ''require_digit'') (require_digit d),
            require_symbol = flag_of (get_field raw ''require_symbol'') (require_symbol d),
            history_count = (case toInt (get_field raw ''history_count'') of
                None \<Rightarrow> history_count d
              | Some n \<Rightarrow> clamp_between 0 PASSWORD_HISTORY_MAX_RETENTION n),
            max_age_days =
              (if get_field raw ''max_age_days'' = JNull then None
               else case toInt (get_field raw ''max_age_days'') of
                      None \<Rightarrow> max_age_days d
                    | Some n \<Rightarrow> if n \<le> 0 then None else Some (min n PASSWORD_MAX_AGE_DAYS_CAP))\<rparr>)"

text \<open>The admin's input: a field that is there must be in range.\<close>

definition has_field :: "jsv \<Rightarrow> string \<Rightarrow> bool" where
  "has_field v k = (case v of JObj fs \<Rightarrow> k \<in> fst ` set fs | _ \<Rightarrow> False)"

definition integer_between :: "int \<Rightarrow> int \<Rightarrow> jsv \<Rightarrow> bool" where
  "integer_between lo hi v =
     (case v of JNum q \<Rightarrow> q = of_int \<lfloor>q\<rfloor> \<and> lo \<le> \<lfloor>q\<rfloor> \<and> \<lfloor>q\<rfloor> \<le> hi | _ \<Rightarrow> False)"

definition is_boolean :: "jsv \<Rightarrow> bool" where
  "is_boolean v = (case v of JBool _ \<Rightarrow> True | _ \<Rightarrow> False)"

definition range_error :: "string \<Rightarrow> string \<Rightarrow> int \<Rightarrow> int \<Rightarrow> string" where
  "range_error key must lo hi =
     key @ must @ ''an integer between '' @ string_of_int lo @ '' and '' @ string_of_int hi"

definition validatePasswordPolicyInput :: "jsv \<Rightarrow> (string, string) js_map option" where
  "validatePasswordPolicyInput body =
     (let errors =
        (if has_field body ''min_length'' \<and>
            \<not> integer_between PASSWORD_HARD_FLOOR PASSWORD_MIN_LENGTH_CAP (get_field body ''min_length'')
         then [(''min_length'', range_error ''min_length'' '' must be ''
                  PASSWORD_HARD_FLOOR PASSWORD_MIN_LENGTH_CAP)] else []) @
        map (\<lambda>key. (key, key @ '' must be a boolean''))
          (filter (\<lambda>key. has_field body key \<and> \<not> is_boolean (get_field body key))
             [''require_upper'', ''require_lower'', ''require_digit'', ''require_symbol'']) @
        (if has_field body ''history_count'' \<and>
            \<not> integer_between 0 PASSWORD_HISTORY_MAX_RETENTION (get_field body ''history_count'')
         then [(''history_count'', range_error ''history_count'' '' must be ''
                  0 PASSWORD_HISTORY_MAX_RETENTION)] else []) @
        (if has_field body ''max_age_days'' \<and> get_field body ''max_age_days'' \<noteq> JNull \<and>
            \<not> integer_between 0 PASSWORD_MAX_AGE_DAYS_CAP (get_field body ''max_age_days'')
         then [(''max_age_days'', range_error ''max_age_days'' '' must be null (disabled) or ''
                  1 PASSWORD_MAX_AGE_DAYS_CAP)] else [])
      in if errors = [] then None else Some errors)"

text \<open>\<open>password.length < n\<close>, false where there is no length to compare.\<close>

definition shorter_than :: "jsv \<Rightarrow> int \<Rightarrow> bool" where
  "shorter_than v n =
     (case v of
        JStr s \<Rightarrow> int (length s) < n
      | JArr vs \<Rightarrow> int (length vs) < n
      | _ \<Rightarrow> (case js_number (get_field v ''length'') of None \<Rightarrow> False | Some q \<Rightarrow> q < of_int n))"

definition is_upper :: "char \<Rightarrow> bool" where
  "is_upper c \<longleftrightarrow> 65 \<le> (of_char c :: nat) \<and> (of_char c :: nat) \<le> 90"

definition is_lower :: "char \<Rightarrow> bool" where
  "is_lower c \<longleftrightarrow> 97 \<le> (of_char c :: nat) \<and> (of_char c :: nat) \<le> 122"

definition is_symbol :: "char \<Rightarrow> bool" where
  "is_symbol c \<longleftrightarrow> \<not> is_upper c \<and> \<not> is_lower c \<and> \<not> is_digit c"

definition validatePassword :: "jsv \<Rightarrow> jsv \<Rightarrow> string option" where
  "validatePassword password policy =
     (let effective = clampPasswordPolicy
            (if truthy policy then policy else policy_value DEFAULT_PASSWORD_POLICY);
          txt = js_string password
      in if \<not> truthy password \<or> shorter_than password (min_length effective) then
           Some (''Password must be at least '' @ string_of_int (min_length effective) @ '' characters'')
         else if require_upper effective \<and> \<not> list_ex is_upper txt then
           Some ''Password must contain at least one uppercase letter''
         else if require_lower effective \<and> \<not> list_ex is_lower txt then
           Some ''Password must contain at least one lowercase letter''
         else if require_digit effective \<and> \<not> list_ex is_digit txt then
           Some ''Password must contain at least one number''
         else if require_symbol effective \<and> \<not> list_ex is_symbol txt then
           Some ''Password must contain at least one symbol''
         else if isCommonPassword password then
           Some (''Password is too common; choose a different password (denylist '' @
             COMMON_PASSWORD_LIST_VERSION @ '')'')
         else None)"

text \<open>Times are milliseconds.\<close>

record expiry_status =
  es_max_age_days :: "int option"
  es_expires_at :: "int option"
  es_expired :: bool
  es_days_until_expiry :: "int option"

definition day_ms :: int where "day_ms = 24 * 60 * 60 * 1000"

definition passwordExpiryStatus :: "int option \<Rightarrow> int option \<Rightarrow> int \<Rightarrow> expiry_status" where
  "passwordExpiryStatus changed_at maxAge now =
     (case (maxAge, changed_at) of
        (Some d, Some t) \<Rightarrow>
          if d = 0 then
            \<lparr>es_max_age_days = None, es_expires_at = None, es_expired = False, es_days_until_expiry = None\<rparr>
          else
            (let expiresAtMs = t + d * day_ms
             in \<lparr>es_max_age_days = Some d, es_expires_at = Some expiresAtMs,
                 es_expired = (expiresAtMs \<le> now),
                 es_days_until_expiry = Some (max 0 \<lceil>of_int (expiresAtMs - now) / (of_int day_ms :: rat)\<rceil>)\<rparr>)
      | _ \<Rightarrow>
          \<lparr>es_max_age_days = None, es_expires_at = None, es_expired = False, es_days_until_expiry = None\<rparr>)"

subsection \<open>Password history\<close>

text \<open>The rows (user, hash) of \<open>password_history\<close>, newest first.\<close>

type_synonym history = "(string \<times> string) list"

definition hashes_of :: "string \<Rightarrow> history \<Rightarrow> string list" where
  "hashes_of u h = map snd (filter (\<lambda>r. fst r = u) h)"

definition isPasswordReused :: "(string \<Rightarrow> string \<Rightarrow> bool) \<Rightarrow> string \<Rightarrow> string list \<Rightarrow> bool" where
  "isPasswordReused compare password hashes \<longleftrightarrow> (\<exists>h \<in> set hashes. h \<noteq> [] \<and> compare password h)"

definition enforcePasswordHistory ::
  "(string \<Rightarrow> string \<Rightarrow> bool) \<Rightarrow> history \<Rightarrow> string \<Rightarrow> string \<Rightarrow> int \<Rightarrow> string option"
where
  "enforcePasswordHistory compare h u newPassword historyCount =
     (let limit = clamp_between 0 PASSWORD_HISTORY_MAX_RETENTION historyCount
      in if limit = 0 then None
         else if isPasswordReused compare newPassword (take (nat limit) (hashes_of u h)) then
           Some (''Password was used recently; choose a password you have not used in your last '' @
             string_of_int limit @ '' changes'')
         else None)"

fun keep_newest :: "string \<Rightarrow> nat \<Rightarrow> history \<Rightarrow> history" where
  "keep_newest u n [] = []"
| "keep_newest u n ((v, x) # r) =
     (if v = u then (case n of 0 \<Rightarrow> keep_newest u 0 r | Suc m \<Rightarrow> (v, x) # keep_newest u m r)
      else (v, x) # keep_newest u n r)"

datatype history_write = HistoryStored | InsertFails | TrimFails

definition recordPasswordHistory :: "history_write \<Rightarrow> string \<Rightarrow> string \<Rightarrow> history \<Rightarrow> history" where
  "recordPasswordHistory w u x h =
     (case w of
        HistoryStored \<Rightarrow> keep_newest u (nat PASSWORD_HISTORY_MAX_RETENTION) ((u, x) # h)
      | InsertFails \<Rightarrow> h
      | TrimFails \<Rightarrow> (u, x) # h)"

subsection \<open>E-mail addresses\<close>

definition normalizeEmail :: "jsv \<Rightarrow> string" where
  "normalizeEmail email = to_lower (trim (js_string (if truthy email then email else JStr [])))"

text \<open>One \<open>@\<close> with something before it, a domain with a dot that is neither first nor last.\<close>

definition email_shape :: "string \<Rightarrow> bool" where
  "email_shape s \<longleftrightarrow>
     (case split_on (CHR ''@'') s of
        [loc, site] \<Rightarrow> loc \<noteq> [] \<and> \<not> list_ex is_ws s \<and>
          list_ex (\<lambda>i. site ! i = CHR ''.'') [1 ..< length site - 1]
      | _ \<Rightarrow> False)"

definition validateEmail :: "jsv \<Rightarrow> string option" where
  "validateEmail email =
     (case email of
        JStr s \<Rightarrow>
          if s = [] then Some ''Email is required''
          else if 254 < length (normalizeEmail email) then Some ''Email is too long''
          else if \<not> email_shape (normalizeEmail email) then Some ''Email format is invalid''
          else None
      | _ \<Rightarrow> Some ''Email is required'')"

subsection \<open>Provisioning keys\<close>

text \<open>
  \<open>SCIM_API_KEYS\<close> is JSON or a list of \<open>tenant:key\<close>. Entries of a JSON object are taken in the
  order they are written (JavaScript moves integer names to the front, which matters only for
  two tenants with one key).
\<close>

definition scim_json_entry :: "(string \<times> jsv) \<Rightarrow> (string, string) js_map \<Rightarrow> (string, string) js_map" where
  "scim_json_entry e m =
     (case e of
        (tenant, JStr key) \<Rightarrow> if trim tenant \<noteq> [] \<and> key \<noteq> [] then map_set (trim tenant) key m else m
      | _ \<Rightarrow> m)"

definition is_separator :: "char \<Rightarrow> bool" where
  "is_separator c \<longleftrightarrow> c = CHR '':'' \<or> c = CHR ''=''"

definition scim_list_entry :: "string \<Rightarrow> (string, string) js_map \<Rightarrow> (string, string) js_map" where
  "scim_list_entry entry m =
     (let part = trim entry; rest = dropWhile (\<lambda>c. \<not> is_separator c) part
      in if rest = [] then m
         else
           (let tenant = trim (takeWhile (\<lambda>c. \<not> is_separator c) part); key = trim (tl rest)
            in if tenant \<noteq> [] \<and> key \<noteq> [] then map_set tenant key m else m))"

definition parseScimApiKeys :: "string \<Rightarrow> (string, string) js_map" where
  "parseScimApiKeys raw =
     (let trimmed = trim raw;
          listed = fold scim_list_entry (split_on (CHR '','') trimmed) []
      in if trimmed = [] then []
         else if starts_with trimmed ''{'' then
           (case json_parse trimmed of
              Some (JObj fs) \<Rightarrow> fold scim_json_entry fs []
            | _ \<Rightarrow> listed)
         else listed)"

definition resolveScimTenant :: "(string, string) js_map \<Rightarrow> string \<Rightarrow> string \<Rightarrow> string option" where
  "resolveScimTenant keys legacy provided =
     (if provided = [] then None
      else
        (case find (\<lambda>(tenant, key). provided = key) keys of
           Some (tenant, key) \<Rightarrow> Some tenant
         | None \<Rightarrow> if legacy \<noteq> [] \<and> provided = legacy then Some ''default'' else None))"

definition SCIM_ALLOWED_ROLES :: "string list" where "SCIM_ALLOWED_ROLES = [''employee'']"

definition isAllowedScimRole :: "jsv \<Rightarrow> bool" where
  "isAllowedScimRole role = (case role of JStr r \<Rightarrow> r \<in> set SCIM_ALLOWED_ROLES | _ \<Rightarrow> False)"

definition API_KEY_SCOPES :: "string list" where "API_KEY_SCOPES = [''scim:read'', ''scim:write'']"

definition lower_hex :: "char \<Rightarrow> bool" where
  "lower_hex c \<longleftrightarrow> is_digit c \<or> 97 \<le> (of_char c :: nat) \<and> (of_char c :: nat) \<le> 102"

definition format_key :: "string \<Rightarrow> string \<Rightarrow> string" where
  "format_key keyId secret = ''atlas_'' @ keyId @ ''_'' @ secret"

definition parseApiKeyFormat :: "string \<Rightarrow> (string \<times> string) option" where
  "parseApiKeyFormat apiKey =
     (let keyId = take 16 (drop 6 apiKey); secret = drop 23 apiKey
      in if apiKey = format_key keyId secret \<and> length keyId = 16 \<and> length secret = 64 \<and>
            list_all lower_hex keyId \<and> list_all lower_hex secret
         then Some (keyId, secret) else None)"

definition validateApiKeyScopes :: "jsv \<Rightarrow> string option" where
  "validateApiKeyScopes scopes =
     (case scopes of
        JArr (v # vs) \<Rightarrow>
          (case find (\<lambda>s. s \<notin> JStr ` set API_KEY_SCOPES) (v # vs) of
             Some s \<Rightarrow> Some (''Unsupported scope: '' @ js_string s)
           | None \<Rightarrow> None)
      | _ \<Rightarrow> Some ''scopes must be a non-empty array'')"

definition scimScopeForRequest :: "string \<Rightarrow> string" where
  "scimScopeForRequest verb =
     (let upper = map upper_char verb
      in if upper = ''GET'' \<or> upper = ''HEAD'' then ''scim:read'' else ''scim:write'')"

definition apiKeyHasScope :: "jsv list \<Rightarrow> string \<Rightarrow> bool" where
  "apiKeyHasScope scopes required \<longleftrightarrow>
     JStr required \<in> set scopes \<or> required = ''scim:read'' \<and> JStr ''scim:write'' \<in> set scopes"

definition normalizeApiKeyScopes :: "jsv \<Rightarrow> jsv list" where
  "normalizeApiKeyScopes scopes =
     (case scopes of
        JArr vs \<Rightarrow> vs
      | JStr s \<Rightarrow> (case json_parse s of Some (JArr vs) \<Rightarrow> vs | _ \<Rightarrow> [])
      | _ \<Rightarrow> [])"

record api_key_row =
  ak_key_id :: string
  ak_key_hash :: string
  ak_tenant :: "string option"
  ak_scopes :: jsv
  ak_revoked_at :: "int option"
  ak_expires_at :: "int option"
  ak_label :: string
  ak_created_by :: jsv
  ak_created :: int

definition apiKeyStateError :: "api_key_row option \<Rightarrow> int \<Rightarrow> string option" where
  "apiKeyStateError keyRow now =
     (case keyRow of
        None \<Rightarrow> Some ''Invalid API key''
      | Some k \<Rightarrow>
          if ak_revoked_at k \<noteq> None then Some ''API key has been revoked''
          else
            (case ak_expires_at k of
               Some e \<Rightarrow> if e \<le> now then Some ''API key has expired'' else None
             | None \<Rightarrow> None))"

text \<open>Who a SCIM request comes from, with the status of a refusal.\<close>

record scim_identity =
  si_tenant :: string
  si_scopes :: "jsv list"

definition requireScimAuth ::
  "(string, string) js_map \<Rightarrow> string \<Rightarrow> (string \<Rightarrow> string \<Rightarrow> bool) \<Rightarrow> (api_key_row list) option \<Rightarrow>
   int \<Rightarrow> string \<Rightarrow> string option \<Rightarrow> (nat \<times> string) + scim_identity"
where
  "requireScimAuth keys legacy compare db now verb header =
     (let refused = Inl (401, ''Authentication required'')
      in if falsy_string header then refused
         else
           (case resolveScimTenant keys legacy (the header) of
              Some tenant \<Rightarrow> Inr \<lparr>si_tenant = tenant, si_scopes = map JStr API_KEY_SCOPES\<rparr>
            | None \<Rightarrow>
                (case parseApiKeyFormat (the header) of
                   None \<Rightarrow> refused
                 | Some (keyId, secret) \<Rightarrow>
                     (case db of
                        None \<Rightarrow> Inl (503, ''Authentication temporarily unavailable'')
                      | Some rows \<Rightarrow>
                          (case find (\<lambda>k. ak_key_id k = keyId) rows of
                             None \<Rightarrow> refused
                           | Some k \<Rightarrow>
                               if \<not> compare secret (ak_key_hash k) then refused
                               else
                                 (case apiKeyStateError (Some k) now of
                                    Some e \<Rightarrow> Inl (401, e)
                                  | None \<Rightarrow>
                                      let scopes = normalizeApiKeyScopes (ak_scopes k);
                                          required = scimScopeForRequest verb
                                      in if \<not> apiKeyHasScope scopes required then
                                           Inl (403, ''API key is missing the required scope: '' @ required)
                                         else Inr
                                           \<lparr>si_tenant = (if falsy_string (ak_tenant k) then ''default''
                                              else the (ak_tenant k)),
                                            si_scopes = scopes\<rparr>))))))"

definition uuid_shape :: "string \<Rightarrow> bool" where
  "uuid_shape s \<longleftrightarrow>
     (let parts = split_on (CHR ''-'') s
      in map length parts = [8, 4, 4, 4, 12] \<and> list_all (list_all (\<lambda>c. hex_val c \<noteq> None)) parts)"

definition isValidScimUserId :: "string \<Rightarrow> bool" where
  "isValidScimUserId s \<longleftrightarrow> s \<noteq> [] \<and> list_all is_digit s \<or> uuid_shape s"

subsection \<open>What reaches the log\<close>

text \<open>No sensitive key, at any depth, carries anything but the mark.\<close>

fun clean :: "jsv \<Rightarrow> bool" where
  "clean (JArr vs) \<longleftrightarrow> (\<forall>v \<in> set vs. clean v)"
| "clean (JObj fs) \<longleftrightarrow>
     (\<forall>(k, v) \<in> set fs. if to_lower k \<in> set sensitiveKeys then v = JStr ''[REDACTED]'' else clean v)"
| "clean v \<longleftrightarrow> True"

lemma sanitize_clean: "clean (sanitizeForLogs v)"
  by (induction v rule: sanitizeForLogs.induct) auto

lemma clean_sanitize: "clean v \<Longrightarrow> sanitizeForLogs v = v"
  by (induction v rule: sanitizeForLogs.induct) (force intro!: map_idI split: if_splits)+

text \<open>
  Whatever value is logged, at every depth of objects and arrays and in any case of
  the letters, a sensitive key carries only the mark; a value without such keys is logged
  unchanged, and sanitising twice is sanitising once.
\<close>

lemma sanitizeForLogs_clean:
  "clean (sanitizeForLogs v) \<and> (clean v \<longleftrightarrow> sanitizeForLogs v = v) \<and>
   sanitizeForLogs (sanitizeForLogs v) = sanitizeForLogs v"
  using sanitize_clean clean_sanitize by metis

subsection \<open>Policies in bounds\<close>

definition policy_ok :: "password_policy \<Rightarrow> bool" where
  "policy_ok p \<longleftrightarrow>
     PASSWORD_HARD_FLOOR \<le> min_length p \<and> min_length p \<le> PASSWORD_MIN_LENGTH_CAP \<and>
     0 \<le> history_count p \<and> history_count p \<le> PASSWORD_HISTORY_MAX_RETENTION \<and>
     (case max_age_days p of None \<Rightarrow> True | Some d \<Rightarrow> 1 \<le> d \<and> d \<le> PASSWORD_MAX_AGE_DAYS_CAP)"

lemmas policy_bounds = PASSWORD_HARD_FLOOR_def PASSWORD_MIN_LENGTH_CAP_def
  PASSWORD_HISTORY_MAX_RETENTION_def PASSWORD_MAX_AGE_DAYS_CAP_def

lemma js_trunc_int [simp]: "js_trunc (of_int n) = n"
  by (simp add: js_trunc_def)

lemma clamp_between_range: "lo \<le> hi \<Longrightarrow> lo \<le> clamp_between lo hi n \<and> clamp_between lo hi n \<le> hi"
  by (simp add: clamp_between_def)

lemma clamp_between_id: "lo \<le> n \<Longrightarrow> n \<le> hi \<Longrightarrow> clamp_between lo hi n = n"
  by (simp add: clamp_between_def)

lemma clamp_policy_ok: "policy_ok (clampPasswordPolicy raw)"
  by (auto simp: policy_ok_def clampPasswordPolicy_def DEFAULT_PASSWORD_POLICY_def Let_def
      clamp_between_def policy_bounds split: option.splits)

lemma clamp_policy_value:
  assumes "policy_ok p"
  shows "clampPasswordPolicy (policy_value p) = p"
proof -
  have "is_object (policy_value p)" by (simp add: policy_value_def is_object_def typeof_object_def)
  with assms show ?thesis
    by (cases p; cases "max_age_days p")
      (auto simp: clampPasswordPolicy_def policy_value_def policy_ok_def toInt_def flag_of_def
        clamp_between_id)
qed

text \<open>
  Whatever a row of the policy table or an admin's input holds, the policy in force
  has a minimum length between the hard floor of 8 and 128, a history of at most 24, and a
  maximum age that is none or between 1 and 730 days; a policy within these bounds is its own
  clamp, so that storing and reading it changes nothing.
\<close>

lemma policy_in_bounds:
  "policy_ok (clampPasswordPolicy raw) \<and>
   clampPasswordPolicy (policy_value (clampPasswordPolicy raw)) = clampPasswordPolicy raw"
  using clamp_policy_ok clamp_policy_value by blast

text \<open>An input the admin API accepts reaches the policy as it is.\<close>

lemma validated_input_kept:
  assumes "validatePasswordPolicyInput body = None"
  shows "has_field body ''min_length'' \<Longrightarrow>
      get_field body ''min_length'' = JNum (of_int (min_length (clampPasswordPolicy body)))"
    and "has_field body ''history_count'' \<Longrightarrow>
      get_field body ''history_count'' = JNum (of_int (history_count (clampPasswordPolicy body)))"
proof -
  have obj: "has_field body k \<Longrightarrow> is_object body" for k
    by (auto simp: has_field_def is_object_def typeof_object_def split: jsv.splits)
  have ints: "integer_between lo hi v \<Longrightarrow> \<exists>n. v = JNum (of_int n) \<and> lo \<le> n \<and> n \<le> hi" for lo hi v
    by (auto simp: integer_between_def split: jsv.splits)
  show "get_field body ''min_length'' = JNum (of_int (min_length (clampPasswordPolicy body)))"
    if "has_field body ''min_length''"
    using assms that obj ints [of PASSWORD_HARD_FLOOR PASSWORD_MIN_LENGTH_CAP "get_field body ''min_length''"]
    by (auto simp: validatePasswordPolicyInput_def clampPasswordPolicy_def Let_def toInt_def
        clamp_between_id split: if_splits)
  show "get_field body ''history_count'' = JNum (of_int (history_count (clampPasswordPolicy body)))"
    if "has_field body ''history_count''"
    using assms that obj ints [of 0 PASSWORD_HISTORY_MAX_RETENTION "get_field body ''history_count''"]
    by (auto simp: validatePasswordPolicyInput_def clampPasswordPolicy_def Let_def toInt_def
        clamp_between_id split: if_splits)
qed

subsection \<open>Accepted passwords\<close>

lemma strip_trailing_suffix:
  assumes "w \<noteq> []" and "\<not> trailing_char (last w)" and "list_all trailing_char sfx"
  shows "strip_trailing (w @ sfx) = w"
proof -
  obtain v c where w: "w = v @ [c]" using assms(1) by (cases w rule: rev_cases) auto
  have "dropWhile trailing_char (rev sfx @ rev w) = rev w"
    using assms(2,3) by (subst dropWhile_append2) (auto simp: w list_all_iff)
  then show ?thesis by (simp add: strip_trailing_def)
qed

text \<open>
  A password that is accepted under a tenant's policy, whatever row that policy came
  from, has at least 8 characters and the length and character classes the policy asks for, is
  no entry of the denylist in any case and between any blanks, and is no entry of six or more
  characters that ends in a letter followed by digits and punctuation.
\<close>

lemma accepted_password:
  assumes "validatePassword (JStr s) (policy_value p) = None" and "p = clampPasswordPolicy row"
  shows "8 \<le> length s \<and> min_length p \<le> int (length s) \<and>
    (require_upper p \<longrightarrow> list_ex is_upper s) \<and> (require_lower p \<longrightarrow> list_ex is_lower s) \<and>
    (require_digit p \<longrightarrow> list_ex is_digit s) \<and> (require_symbol p \<longrightarrow> list_ex is_symbol s) \<and>
    to_lower (trim s) \<notin> set COMMON_PASSWORDS \<and>
    (\<forall>w \<in> set COMMON_PASSWORDS. \<forall>sfx. 6 \<le> length w \<longrightarrow> \<not> trailing_char (last w) \<longrightarrow>
       list_all trailing_char sfx \<longrightarrow> to_lower (trim s) \<noteq> w @ sfx)"
proof -
  have p: "policy_ok p" "clampPasswordPolicy (policy_value p) = p" "truthy (policy_value p)"
    using assms(2) clamp_policy_ok clamp_policy_value by (simp_all add: policy_value_def)
  have ok: "s \<noteq> []" "min_length p \<le> int (length s)" "\<not> isCommonPassword (JStr s)"
    "require_upper p \<longrightarrow> list_ex is_upper s" "require_lower p \<longrightarrow> list_ex is_lower s"
    "require_digit p \<longrightarrow> list_ex is_digit s" "require_symbol p \<longrightarrow> list_ex is_symbol s"
    using assms(1) p by (auto simp: validatePassword_def Let_def shorter_than_def split: if_splits)
  moreover have "8 \<le> length s" using ok(2) p(1) by (simp add: policy_ok_def PASSWORD_HARD_FLOOR_def)
  moreover have "to_lower (trim s) \<notin> set COMMON_PASSWORDS"
    using ok(1,3) by (simp add: isCommonPassword_def Let_def)
  moreover have "to_lower (trim s) \<noteq> w @ sfx"
    if "w \<in> set COMMON_PASSWORDS" "6 \<le> length w" "\<not> trailing_char (last w)" "list_all trailing_char sfx"
    for w sfx
  proof
    assume "to_lower (trim s) = w @ sfx"
    moreover have "strip_trailing (w @ sfx) = w" using that by (intro strip_trailing_suffix) auto
    ultimately show False using ok(1,3) that(1,2) by (simp add: isCommonPassword_def Let_def)
  qed
  ultimately show ?thesis by blast
qed

lemma accepted_password_witness:
  "8 \<le> length ''Harbour7x'' \<and> to_lower (trim ''Harbour7x'') \<noteq> ''password'' @ ''2026!''"
proof -
  have ok: "validatePassword (JStr ''Harbour7x'') (policy_value (clampPasswordPolicy JNull)) = None"
    by code_simp
  have w: "''password'' \<in> set COMMON_PASSWORDS" "6 \<le> length ''password''"
    "\<not> trailing_char (last ''password'')" "list_all trailing_char ''2026!''"
    by code_simp+
  note acc = accepted_password [OF ok refl]
  from acc have "8 \<le> length ''Harbour7x''" by (rule conjunct1)
  moreover from acc have "\<forall>w \<in> set COMMON_PASSWORDS. \<forall>sfx. 6 \<le> length w \<longrightarrow> \<not> trailing_char (last w) \<longrightarrow>
      list_all trailing_char sfx \<longrightarrow> to_lower (trim ''Harbour7x'') \<noteq> w @ sfx"
    by (elim conjE)
  ultimately show ?thesis using w by blast
qed

text \<open>The denylist does not see a listed word that itself ends in a digit.\<close>

lemma digit_words_slip_through:
  "''trustno1'' \<in> set COMMON_PASSWORDS" "validatePassword (JStr ''Trustno1!'') JUndef = None"
  by code_simp+

subsection \<open>The history holds the last passwords\<close>

lemma hashes_keep_newest:
  "hashes_of v (keep_newest u n h) = (if v = u then take n (hashes_of u h) else hashes_of v h)"
  by (induction u n h rule: keep_newest.induct) (auto simp: hashes_of_def split: nat.splits)

lemma hashes_of_Cons: "hashes_of v ((u, x) # h) = (if v = u then [x] else []) @ hashes_of v h"
  by (simp add: hashes_of_def)

lemma hashes_record:
  "hashes_of v (recordPasswordHistory HistoryStored u x h) =
     (if v = u then take 24 (x # hashes_of u h) else hashes_of v h)"
  by (simp add: recordPasswordHistory_def hashes_keep_newest hashes_of_Cons
      PASSWORD_HISTORY_MAX_RETENTION_def)

text \<open>A run of password changes: the user and the hash stored.\<close>

definition record_all :: "(string \<times> string) list \<Rightarrow> history" where
  "record_all cs = fold (\<lambda>(u, x). recordPasswordHistory HistoryStored u x) cs []"

definition changes_of :: "string \<Rightarrow> (string \<times> string) list \<Rightarrow> string list" where
  "changes_of u cs = map snd (filter (\<lambda>c. fst c = u) cs)"

lemma take_Cons_take: "take n (x # take n xs) = take n (x # xs)"
  by (cases n) (simp_all add: min_def)

lemma hashes_record_all: "hashes_of u (record_all cs) = take 24 (rev (changes_of u cs))"
proof (induction cs rule: rev_induct)
  case Nil
  then show ?case by (simp add: record_all_def hashes_of_def changes_of_def)
next
  case (snoc c cs)
  obtain v x where "c = (v, x)" by (cases c)
  then show ?case
    using snoc by (auto simp: record_all_def changes_of_def hashes_record take_Cons_take)
qed

text \<open>
  Claim C30. The history table refines the sequence of all changes: after any changes by any
  users it holds, for each user, the hashes of that user's last 24 passwords, newest first, and
  a new password is refused exactly when it compares to one of the last n of them, n being the
  policy's count cut to 24 (none at zero or below).
\<close>

theorem history_refines_changes:
  assumes "\<forall>(u, x) \<in> set cs. x \<noteq> []"
  shows "hashes_of u (record_all cs) = take 24 (rev (changes_of u cs)) \<and>
    (enforcePasswordHistory compare (record_all cs) u newPassword n = None \<longleftrightarrow>
       (\<forall>x \<in> set (take (nat (min n 24)) (rev (changes_of u cs))). \<not> compare newPassword x))"
proof -
  have "x \<noteq> []" if "x \<in> set (changes_of u cs)" for x
    using assms that by (auto simp: changes_of_def)
  then have ne: "x \<noteq> []" if "x \<in> set (take m (rev (changes_of u cs)))" for x m
    using that in_set_takeD by fastforce
  have "nat (clamp_between 0 24 n) = nat (min n 24)" "clamp_between 0 24 n = 0 \<Longrightarrow> nat (min n 24) = 0"
    by (auto simp: clamp_between_def)
  then show ?thesis
    using ne by (auto simp: enforcePasswordHistory_def isPasswordReused_def Let_def hashes_record_all
        PASSWORD_HISTORY_MAX_RETENTION_def min_def)
qed

theorem history_refines_changes_witness:
  "hashes_of ''u'' (record_all [(''u'', ''h1''), (''v'', ''h2''), (''u'', ''h3'')]) = [''h3'', ''h1''] \<and>
   enforcePasswordHistory (\<lambda>p h. h = ''h'' @ p)
     (record_all [(''u'', ''h1''), (''v'', ''h2''), (''u'', ''h3'')]) ''u'' ''2'' 5 = None"
  using history_refines_changes [of "[(''u'', ''h1''), (''v'', ''h2''), (''u'', ''h3'')]" "''u''"
      "\<lambda>p h. h = ''h'' @ p" "''2''" 5]
  by (simp add: changes_of_def)

subsection \<open>Keys and scopes\<close>

lemma format_parse_key:
  assumes "length keyId = 16" "length secret = 64" "list_all lower_hex keyId" "list_all lower_hex secret"
  shows "parseApiKeyFormat (format_key keyId secret) = Some (keyId, secret)"
  using assms by (simp add: parseApiKeyFormat_def format_key_def Let_def)

lemma parse_format_key: "parseApiKeyFormat s = Some (keyId, secret) \<Longrightarrow> s = format_key keyId secret"
  by (simp add: parseApiKeyFormat_def Let_def split: if_splits)

lemma find_Some_in: "find P xs = Some x \<Longrightarrow> x \<in> set xs \<and> P x"
  by (auto simp: find_Some_iff)

lemma resolveScimTenant_Some:
  "resolveScimTenant keys legacy provided = Some t \<Longrightarrow>
     provided \<noteq> [] \<and> ((t, provided) \<in> set keys \<or> t = ''default'' \<and> provided = legacy)"
  by (auto simp: resolveScimTenant_def dest!: find_Some_in split: if_splits option.splits)

lemma scim_scope_write:
  "apiKeyHasScope scopes (scimScopeForRequest verb) \<Longrightarrow> map upper_char verb \<notin> {''GET'', ''HEAD''} \<Longrightarrow>
     JStr ''scim:write'' \<in> set scopes"
  by (auto simp: apiKeyHasScope_def scimScopeForRequest_def Let_def split: if_splits)

text \<open>
  Who passes the SCIM guard: the holder of a configured tenant key (for that tenant) or
  of the shared key (for the default tenant), with both scopes, or the holder of a well-formed
  API key whose row is stored, whose secret compares to the row's hash, that is neither revoked
  nor expired, for the row's tenant and with the row's scopes; and whatever is not a GET or HEAD
  needs \<open>scim:write\<close>.
\<close>

lemma scim_auth_scoped:
  assumes "requireScimAuth keys legacy compare db now verb header = Inr i"
  shows "\<exists>h. header = Some h \<and>
    (((si_tenant i, h) \<in> set keys \<or> si_tenant i = ''default'' \<and> h = legacy) \<or>
     (\<exists>rows k secret. db = Some rows \<and> k \<in> set rows \<and> h = format_key (ak_key_id k) secret \<and>
        compare secret (ak_key_hash k) \<and> ak_revoked_at k = None \<and>
        (\<forall>e. ak_expires_at k = Some e \<longrightarrow> now < e) \<and> si_scopes i = normalizeApiKeyScopes (ak_scopes k) \<and>
        si_tenant i = (if falsy_string (ak_tenant k) then ''default'' else the (ak_tenant k)))) \<and>
    (map upper_char verb \<notin> {''GET'', ''HEAD''} \<longrightarrow> JStr ''scim:write'' \<in> set (si_scopes i))"
proof -
  obtain h where h: "header = Some h" "\<not> falsy_string header"
    using assms by (cases header) (auto simp: requireScimAuth_def falsy_string_def Let_def split: if_splits)
  show ?thesis
  proof (cases "resolveScimTenant keys legacy h")
    case (Some t)
    then have "i = \<lparr>si_tenant = t, si_scopes = map JStr API_KEY_SCOPES\<rparr>"
      using assms h by (simp add: requireScimAuth_def)
    then show ?thesis
      using resolveScimTenant_Some [OF Some] h by (auto simp: API_KEY_SCOPES_def)
  next
    case None
    then obtain keyId secret where p: "parseApiKeyFormat h = Some (keyId, secret)"
      using assms h by (auto simp: requireScimAuth_def Let_def split: option.splits)
    obtain rows k where k: "db = Some rows" "find (\<lambda>k. ak_key_id k = keyId) rows = Some k"
        "compare secret (ak_key_hash k)" "apiKeyStateError (Some k) now = None"
      using assms h None p
      by (auto simp: requireScimAuth_def Let_def split: option.splits if_splits)
    have sc: "apiKeyHasScope (normalizeApiKeyScopes (ak_scopes k)) (scimScopeForRequest verb)"
      "si_scopes i = normalizeApiKeyScopes (ak_scopes k)"
      "si_tenant i = (if falsy_string (ak_tenant k) then ''default'' else the (ak_tenant k))"
      using assms h None p k by (auto simp: requireScimAuth_def Let_def split: if_splits)
    have "k \<in> set rows" "h = format_key (ak_key_id k) secret"
      using find_Some_in [OF k(2)] parse_format_key [OF p] by auto
    moreover have "ak_revoked_at k = None" "\<forall>e. ak_expires_at k = Some e \<longrightarrow> now < e"
      using k(4) by (auto simp: apiKeyStateError_def split: if_splits option.splits)
    ultimately show ?thesis using h(1) k sc scim_scope_write [OF sc(1)] by auto
  qed
qed

definition sample_key :: api_key_row where
  "sample_key = \<lparr>ak_key_id = replicate 16 (CHR ''a''), ak_key_hash = ''hash'', ak_tenant = Some ''acme'',
     ak_scopes = JArr [JStr ''scim:read''], ak_revoked_at = None, ak_expires_at = Some 9,
     ak_label = ''hr sync'', ak_created_by = JNum 1, ak_created = 0\<rparr>"

definition sample_api_key :: string where
  "sample_api_key = format_key (replicate 16 (CHR ''a'')) (replicate 64 (CHR ''0''))"

lemma scim_auth_scoped_witness:
  "\<exists>i. requireScimAuth [] ''shared'' (\<lambda>p h. h = ''hash'') (Some [sample_key]) 5 ''GET'' (Some sample_api_key) = Inr i \<and>
     si_tenant i = ''acme''"
proof -
  have "requireScimAuth [] ''shared'' (\<lambda>p h. h = ''hash'') (Some [sample_key]) 5 ''GET''
      (Some sample_api_key) = Inr \<lparr>si_tenant = ''acme'', si_scopes = [JStr ''scim:read'']\<rparr>"
    by code_simp
  from scim_auth_scoped [OF this] this show ?thesis by auto
qed

end
