(* ===== verification/Auth_Tokens.thy ===== *)
theory Auth_Tokens
  imports Auth_Policy
begin

section \<open>The auth service: refresh tokens and sessions\<close>

text \<open>
  \<open>services/auth-service/index.js\<close>: the tables \<open>refresh_tokens\<close>, \<open>rotated_tokens\<close> and
  \<open>sessions\<close>, and what is done to them. First the operations as functions; then the same
  operations as sequences of SQL statements, any number of requests interleaved. The unit of
  interleaving is that of PostgreSQL at READ COMMITTED: a transaction that holds row locks
  (\<open>DELETE ... RETURNING\<close>, \<open>SELECT ... FOR UPDATE\<close>) takes effect at its commit; a single
  \<open>UPDATE\<close> or \<open>DELETE\<close> over the rows of a user first sees the rows of its snapshot and then
  changes those of them that are left. \<open>hashToken\<close> (SHA-256) is a parameter; random tokens are
  arguments; times are milliseconds.
\<close>

subsection \<open>Tables\<close>

record user_row =
  u_id :: int
  u_email :: string
  u_password :: string
  u_name :: string
  u_role :: string
  u_department :: "string option"
  u_position :: "string option"
  u_tenant :: "string option"
  u_enabled :: "bool option" \<comment> \<open>the column \<open>active\<close>, which may be null\<close>
  u_password_changed_at :: "int option"
  u_created :: int
  u_updated :: int

abbreviation u_active :: "user_row \<Rightarrow> bool" where "u_active u \<equiv> u_enabled u = Some True"

record refresh_row =
  rf_user :: int
  rf_hash :: string
  rf_expires :: int

record rotated_row =
  ro_hash :: string
  ro_user :: int
  ro_created :: int

record session_row =
  se_id :: string
  se_user :: int
  se_hash :: string
  se_active :: bool

record token_db =
  users :: "user_row list"
  refresh_tokens :: "refresh_row list"
  rotated_tokens :: "rotated_row list"
  sessions :: "session_row list"

definition REFRESH_EXPIRY_DAYS :: int where "REFRESH_EXPIRY_DAYS = 7"

subsection \<open>Operations\<close>

definition createRefreshToken :: "int \<Rightarrow> int \<Rightarrow> string \<Rightarrow> token_db \<Rightarrow> token_db" where
  "createRefreshToken now u tokenHash db =
     db\<lparr>refresh_tokens := \<lparr>rf_user = u, rf_hash = tokenHash,
          rf_expires = now + REFRESH_EXPIRY_DAYS * day_ms\<rparr> # refresh_tokens db\<rparr>"

definition deactivate :: "(session_row \<Rightarrow> bool) \<Rightarrow> token_db \<Rightarrow> token_db" where
  "deactivate P db = db\<lparr>sessions := map (\<lambda>s. if P s then s\<lparr>se_active := False\<rparr> else s) (sessions db)\<rparr>"

definition drop_tokens :: "(refresh_row \<Rightarrow> bool) \<Rightarrow> token_db \<Rightarrow> token_db" where
  "drop_tokens P db = db\<lparr>refresh_tokens := filter (\<lambda>r. \<not> P r) (refresh_tokens db)\<rparr>"

definition drop_rotated :: "(rotated_row \<Rightarrow> bool) \<Rightarrow> token_db \<Rightarrow> token_db" where
  "drop_rotated P db = db\<lparr>rotated_tokens := filter (\<lambda>r. \<not> P r) (rotated_tokens db)\<rparr>"

definition revokeAllUserSessions :: "int \<Rightarrow> token_db \<Rightarrow> token_db" where
  "revokeAllUserSessions u db =
     drop_tokens (\<lambda>r. rf_user r = u) (deactivate (\<lambda>s. se_user s = u) db)"

text \<open>The claim of a rotation record.\<close>

definition claim_rotated :: "string \<Rightarrow> token_db \<Rightarrow> int option \<times> token_db" where
  "claim_rotated tokenHash db =
     (map_option ro_user (find (\<lambda>r. ro_hash r = tokenHash) (rotated_tokens db)),
      drop_rotated (\<lambda>r. ro_hash r = tokenHash) db)"

definition revokeOnRotatedTokenReuse :: "string \<Rightarrow> token_db \<Rightarrow> int option \<times> token_db" where
  "revokeOnRotatedTokenReuse tokenHash db =
     (case claim_rotated tokenHash db of
        (None, db') \<Rightarrow> (None, db')
      | (Some u, db') \<Rightarrow> (Some u, revokeAllUserSessions u db'))"

record rotation =
  rt_user :: user_row
  rt_session :: "string option"
  rt_hash :: string \<comment> \<open>of the new token\<close>

text \<open>The transaction of a rotation; without a result it is rolled back.\<close>

definition rotate_tx :: "int \<Rightarrow> string \<Rightarrow> string \<Rightarrow> token_db \<Rightarrow> rotation option \<times> token_db" where
  "rotate_tx now newHash oldHash db =
     (case find (\<lambda>r. rf_hash r = oldHash \<and> now < rf_expires r) (refresh_tokens db) of
        None \<Rightarrow> (None, db)
      | Some r \<Rightarrow>
          (let session = find (\<lambda>s. se_hash s = oldHash \<and> se_user s = rf_user r) (sessions db)
           in case find (\<lambda>u. u_id u = rf_user r) (users db) of
                None \<Rightarrow> (None, db)
              | Some user \<Rightarrow>
                  if (case session of Some s \<Rightarrow> \<not> se_active s | None \<Rightarrow> False) then (None, db)
                  else
                    (let claimed = drop_tokens (\<lambda>r. rf_hash r = oldHash) db;
                         rotated = claimed\<lparr>rotated_tokens :=
                           \<lparr>ro_hash = oldHash, ro_user = rf_user r, ro_created = now\<rparr> # rotated_tokens claimed\<rparr>;
                         renewed = createRefreshToken now (rf_user r) newHash rotated
                     in (Some \<lparr>rt_user = user, rt_session = map_option se_id session, rt_hash = newHash\<rparr>,
                         (case session of
                            None \<Rightarrow> renewed
                          | Some s \<Rightarrow> renewed\<lparr>sessions :=
                              map (\<lambda>x. if se_id x = se_id s then x\<lparr>se_hash := newHash\<rparr> else x)
                                (sessions renewed)\<rparr>)))))"

definition purge_rotated :: "int \<Rightarrow> token_db \<Rightarrow> token_db" where
  "purge_rotated now = drop_rotated (\<lambda>r. ro_created r < now - 60 * 60 * 1000)"

datatype rotation_status = RotationOk rotation | RotationInvalid | RotationReused int

definition rotateRefreshToken :: "int \<Rightarrow> string \<Rightarrow> string \<Rightarrow> token_db \<Rightarrow> rotation_status \<times> token_db" where
  "rotateRefreshToken now newHash oldHash db =
     (case rotate_tx now newHash oldHash db of
        (Some r, db') \<Rightarrow> (RotationOk r, purge_rotated now db')
      | (None, db') \<Rightarrow>
          (case revokeOnRotatedTokenReuse oldHash db' of
             (None, db'') \<Rightarrow> (RotationInvalid, db'')
           | (Some u, db'') \<Rightarrow> (RotationReused u, db'')))"

text \<open>The transaction of a logout.\<close>

definition logout_tx :: "string \<Rightarrow> token_db \<Rightarrow> int option \<times> token_db" where
  "logout_tx tokenHash db =
     (case find (\<lambda>r. rf_hash r = tokenHash) (refresh_tokens db) of
        None \<Rightarrow> (None, db)
      | Some r \<Rightarrow>
          (Some (rf_user r),
           deactivate (\<lambda>s. se_hash s = tokenHash \<and> se_user s = rf_user r)
             (drop_tokens (\<lambda>r. rf_hash r = tokenHash) db)))"

datatype logout_status = LogoutRevoked int | LogoutReused int | LogoutNone

definition revokeRefreshTokenForLogout :: "string \<Rightarrow> token_db \<Rightarrow> logout_status \<times> token_db" where
  "revokeRefreshTokenForLogout tokenHash db =
     (case logout_tx tokenHash db of
        (Some u, db') \<Rightarrow> (LogoutRevoked u, db')
      | (None, db') \<Rightarrow>
          (case revokeOnRotatedTokenReuse tokenHash db' of
             (None, db'') \<Rightarrow> (LogoutNone, db'')
           | (Some u, db'') \<Rightarrow> (LogoutReused u, db'')))"

definition insert_session :: "string \<Rightarrow> int \<Rightarrow> string \<Rightarrow> token_db \<Rightarrow> token_db" where
  "insert_session sid u tokenHash db =
     db\<lparr>sessions := \<lparr>se_id = sid, se_user = u, se_hash = tokenHash, se_active = True\<rparr> # sessions db\<rparr>"

text \<open>The tables after a login; the cookies and the access token are in \<open>Auth_Service\<close>.\<close>

definition issue_session :: "int \<Rightarrow> string \<Rightarrow> int \<Rightarrow> string \<Rightarrow> token_db \<Rightarrow> token_db" where
  "issue_session now sid u tokenHash db = insert_session sid u tokenHash (createRefreshToken now u tokenHash db)"

text \<open>\<open>DELETE /sessions/:id\<close> and \<open>DELETE /sessions\<close>: the sessions of a user that are turned off.\<close>

definition revoke_sessions :: "(session_row \<Rightarrow> bool) \<Rightarrow> token_db \<Rightarrow> string list \<times> token_db" where
  "revoke_sessions P db =
     (let hashes = map se_hash (filter P (sessions db))
      in (hashes,
          fold (\<lambda>h. drop_rotated (\<lambda>r. ro_hash r = h) \<circ> drop_tokens (\<lambda>r. rf_hash r = h)) hashes
            (deactivate P db)))"

subsection \<open>Requests as sequences of statements\<close>

datatype purpose =
    ForRefresh string \<comment> \<open>the hash of the token presented\<close>
  | ForLogout string
  | ForLogin int string string \<comment> \<open>user, session id, hash of the new token\<close>
  | ForRevokeAll int
  | ForRevokeSession int string

datatype svc_outcome =
    Rotated rotation
  | NothingFound
  | Revoked int "string list" \<comment> \<open>every session of the user that was there; a refresh calls this reuse\<close>
  | LoggedOut int
  | LoggedIn
  | SessionUnknown
  | SessionRevoked

datatype request_phase =
    Arrived
  | Purging rotation
  | Lost \<comment> \<open>the token was not live\<close>
  | Issuing
  | Revoking int
  | SessionsSeen int "string list" \<comment> \<open>the snapshot of the \<open>UPDATE\<close>\<close>
  | SessionsOff int "string list"
  | TokensSeen int "string list" "string list" \<comment> \<open>the snapshot of the \<open>DELETE\<close>\<close>
  | SessionOff string
  | TokenGone string
  | Answered svc_outcome

record auth_request =
  rq_for :: purpose
  rq_phase :: request_phase

definition session_ids :: "int \<Rightarrow> token_db \<Rightarrow> string list" where
  "session_ids u db = map se_id (filter (\<lambda>s. se_user s = u) (sessions db))"

definition token_hashes :: "int \<Rightarrow> token_db \<Rightarrow> string list" where
  "token_hashes u db = map rf_hash (filter (\<lambda>r. rf_user r = u) (refresh_tokens db))"

text \<open>The first statement of a request.\<close>

fun first_statement :: "int \<Rightarrow> string \<Rightarrow> purpose \<Rightarrow> token_db \<Rightarrow> request_phase \<times> token_db" where
  "first_statement now newHash (ForRefresh h) db =
     (case rotate_tx now newHash h db of (Some r, db') \<Rightarrow> (Purging r, db') | (None, db') \<Rightarrow> (Lost, db'))"
| "first_statement now newHash (ForLogout h) db =
     (case logout_tx h db of (Some u, db') \<Rightarrow> (Answered (LoggedOut u), db') | (None, db') \<Rightarrow> (Lost, db'))"
| "first_statement now newHash (ForLogin u sid h) db = (Issuing, createRefreshToken now u h db)"
| "first_statement now newHash (ForRevokeAll u) db = (SessionsSeen u (session_ids u db), db)"
| "first_statement now newHash (ForRevokeSession u sid) db =
     (case find (\<lambda>s. se_id s = sid \<and> se_user s = u) (sessions db) of
        None \<Rightarrow> (Answered SessionUnknown, db)
      | Some s \<Rightarrow> (SessionOff (se_hash s), deactivate (\<lambda>s. se_id s = sid \<and> se_user s = u) db))"

definition presented :: "purpose \<Rightarrow> string option" where
  "presented p = (case p of ForRefresh h \<Rightarrow> Some h | ForLogout h \<Rightarrow> Some h | _ \<Rightarrow> None)"

fun statement :: "int \<Rightarrow> string \<Rightarrow> purpose \<Rightarrow> request_phase \<Rightarrow> token_db \<Rightarrow> request_phase \<times> token_db" where
  "statement now newHash p Arrived db = first_statement now newHash p db"
| "statement now newHash p (Purging r) db = (Answered (Rotated r), purge_rotated now db)"
| "statement now newHash p Lost db =
     (case presented p of
        None \<Rightarrow> (Answered NothingFound, db)
      | Some h \<Rightarrow>
          (case claim_rotated h db of
             (None, db') \<Rightarrow> (Answered NothingFound, db')
           | (Some u, db') \<Rightarrow> (Revoking u, db')))"
| "statement now newHash p Issuing db =
     (case p of
        ForLogin u sid h \<Rightarrow> (Answered LoggedIn, insert_session sid u h db)
      | _ \<Rightarrow> (Answered NothingFound, db))"
| "statement now newHash p (Revoking u) db = (SessionsSeen u (session_ids u db), db)"
| "statement now newHash p (SessionsSeen u ids) db =
     (SessionsOff u ids, deactivate (\<lambda>s. se_id s \<in> set ids) db)"
| "statement now newHash p (SessionsOff u ids) db = (TokensSeen u ids (token_hashes u db), db)"
| "statement now newHash p (TokensSeen u ids hs) db =
     (Answered (Revoked u ids), drop_tokens (\<lambda>r. rf_hash r \<in> set hs) db)"
| "statement now newHash p (SessionOff h) db = (TokenGone h, drop_tokens (\<lambda>r. rf_hash r = h) db)"
| "statement now newHash p (TokenGone h) db =
     (Answered SessionRevoked, drop_rotated (\<lambda>r. ro_hash r = h) db)"
| "statement now newHash p (Answered x) db = (Answered x, db)"

end
