(* ===== verification/Auth_Interleaving.thy ===== *)
theory Auth_Interleaving
  imports Auth_Tokens
begin

section \<open>Refresh tokens under concurrency\<close>

text \<open>
  Any number of refreshes, logouts, logins and revocations, their statements interleaved in any
  order. Random tokens and session ids are fresh: \<open>as_used\<close> and \<open>as_sids\<close> record what was issued or
  presented before. A token that no answer has delivered yet is not presented by anyone.
\<close>

record svc_state =
  as_db :: token_db
  as_requests :: "auth_request list"
  as_now :: int
  as_used :: "string list"
  as_sids :: "string list"

definition svc_start :: "user_row list \<Rightarrow> int \<Rightarrow> svc_state" where
  "svc_start us t =
     \<lparr>as_db = \<lparr>users = us, refresh_tokens = [], rotated_tokens = [], sessions = []\<rparr>,
      as_requests = [], as_now = t, as_used = [], as_sids = []\<rparr>"

text \<open>A login that has not stored its session yet.\<close>

definition pending_login :: "auth_request \<Rightarrow> (string \<times> string) option" where
  "pending_login q =
     (case rq_for q of
        ForLogin u sid h \<Rightarrow> if rq_phase q \<in> {Arrived, Issuing} then Some (sid, h) else None
      | _ \<Rightarrow> None)"

definition pending_sids :: "auth_request list \<Rightarrow> string list" where
  "pending_sids qs = map fst (List.map_filter pending_login qs)"

definition pending_hashes :: "auth_request list \<Rightarrow> string list" where
  "pending_hashes qs = map snd (List.map_filter pending_login qs)"

definition arrive :: "purpose \<Rightarrow> svc_state \<Rightarrow> svc_state" where
  "arrive p s = s\<lparr>as_requests := \<lparr>rq_for = p, rq_phase = Arrived\<rparr> # as_requests s\<rparr>"

inductive svc_step :: "svc_state \<Rightarrow> svc_state \<Rightarrow> bool" where
  present: "presented p = Some h \<Longrightarrow> h \<notin> set (pending_hashes (as_requests s)) \<Longrightarrow>
    svc_step s ((arrive p s)\<lparr>as_used := h # as_used s\<rparr>)"
| login: "h \<notin> set (as_used s) \<Longrightarrow> sid \<notin> set (as_sids s) \<Longrightarrow>
    svc_step s ((arrive (ForLogin u sid h) s)\<lparr>as_used := h # as_used s, as_sids := sid # as_sids s\<rparr>)"
| revoke: "p = ForRevokeAll u \<or> p = ForRevokeSession u sid \<Longrightarrow> svc_step s (arrive p s)"
| tick: "as_now s \<le> t \<Longrightarrow> svc_step s (s\<lparr>as_now := t\<rparr>)"
| run: "as_requests s = xs @ q # ys \<Longrightarrow> newHash \<notin> set (as_used s) \<Longrightarrow>
    statement (as_now s) newHash (rq_for q) (rq_phase q) (as_db s) = (ph, db) \<Longrightarrow>
    svc_step s (s\<lparr>as_db := db, as_requests := xs @ q\<lparr>rq_phase := ph\<rparr> # ys, as_used := newHash # as_used s\<rparr>)"

inductive svc_reachable :: "svc_state \<Rightarrow> bool" where
  start: "svc_reachable (svc_start us t)"
| step: "svc_reachable s \<Longrightarrow> svc_step s s' \<Longrightarrow> svc_reachable s'"

subsection \<open>Invariants\<close>

text \<open>A session without its state, which is all the keys of the tables depend on.\<close>

definition keys :: "token_db \<Rightarrow> (string \<times> int \<times> string) list" where
  "keys db = map (\<lambda>s. (se_id s, se_user s, se_hash s)) (sessions db)"

text \<open>
  What the tables hold: live tokens, session ids and session tokens are distinct, also from those
  of logins under way; all were issued before; a live token belongs to a session of its user or
  to a login that is about to store it.
\<close>

definition keys_distinct :: "token_db \<Rightarrow> auth_request list \<Rightarrow> bool" where
  "keys_distinct db qs \<longleftrightarrow>
     distinct (map rf_hash (refresh_tokens db)) \<and>
     distinct (map fst (keys db) @ pending_sids qs) \<and>
     distinct (map (snd \<circ> snd) (keys db) @ pending_hashes qs)"

definition keys_known :: "string set \<Rightarrow> string set \<Rightarrow> token_db \<Rightarrow> auth_request list \<Rightarrow> bool" where
  "keys_known U I db qs \<longleftrightarrow>
     rf_hash ` set (refresh_tokens db) \<subseteq> U \<and>
     set (map (snd \<circ> snd) (keys db) @ pending_hashes qs) \<subseteq> U \<and>
     set (map fst (keys db) @ pending_sids qs) \<subseteq> I \<and>
     (\<forall>q \<in> set qs. \<forall>h. presented (rq_for q) = Some h \<longrightarrow> h \<in> U \<and> h \<notin> set (pending_hashes qs))"

definition tokens_owned :: "token_db \<Rightarrow> auth_request list \<Rightarrow> bool" where
  "tokens_owned db qs \<longleftrightarrow>
     (\<forall>r \<in> set (refresh_tokens db).
        (\<exists>i. (i, rf_user r, rf_hash r) \<in> set (keys db)) \<or>
        (\<exists>i. \<lparr>rq_for = ForLogin (rf_user r) i (rf_hash r), rq_phase = Issuing\<rparr> \<in> set qs)) \<and>
     (\<forall>u i h. \<lparr>rq_for = ForLogin u i h, rq_phase = Arrived\<rparr> \<in> set qs \<longrightarrow>
        h \<notin> rf_hash ` set (refresh_tokens db))"

lemma tokens_ownedI:
  assumes "\<And>r. r \<in> set (refresh_tokens db) \<Longrightarrow> (\<exists>i. (i, rf_user r, rf_hash r) \<in> set (keys db)) \<or>
      (\<exists>i. \<lparr>rq_for = ForLogin (rf_user r) i (rf_hash r), rq_phase = Issuing\<rparr> \<in> set qs)"
    and "\<And>u i h. \<lparr>rq_for = ForLogin u i h, rq_phase = Arrived\<rparr> \<in> set qs \<Longrightarrow>
      h \<notin> rf_hash ` set (refresh_tokens db)"
  shows "tokens_owned db qs"
  using assms unfolding tokens_owned_def by blast

lemma tokens_ownedD:
  assumes "tokens_owned db qs"
  shows "r \<in> set (refresh_tokens db) \<Longrightarrow> (\<exists>i. (i, rf_user r, rf_hash r) \<in> set (keys db)) \<or>
      (\<exists>i. \<lparr>rq_for = ForLogin (rf_user r) i (rf_hash r), rq_phase = Issuing\<rparr> \<in> set qs)"
    and "\<lparr>rq_for = ForLogin u i h, rq_phase = Arrived\<rparr> \<in> set qs \<Longrightarrow>
      h \<notin> rf_hash ` set (refresh_tokens db)"
  using assms unfolding tokens_owned_def by blast+

definition tables_ok :: "string set \<Rightarrow> string set \<Rightarrow> token_db \<Rightarrow> auth_request list \<Rightarrow> bool" where
  "tables_ok U I db qs \<longleftrightarrow> keys_distinct db qs \<and> keys_known U I db qs \<and> tokens_owned db qs"

text \<open>
  Of a set of session ids: they are sessions of a user, these are off, their tokens are among
  those marked for deletion (none of them is live, if none is marked).
\<close>

definition owned :: "token_db \<Rightarrow> int \<Rightarrow> string list \<Rightarrow> bool" where
  "owned db u ids \<longleftrightarrow> set ids \<subseteq> se_id ` set (sessions db) \<and>
     (\<forall>s \<in> set (sessions db). se_id s \<in> set ids \<longrightarrow> se_user s = u)"

definition all_off :: "token_db \<Rightarrow> string list \<Rightarrow> bool" where
  "all_off db ids \<longleftrightarrow> (\<forall>s \<in> set (sessions db). se_id s \<in> set ids \<longrightarrow> \<not> se_active s)"

definition marked :: "token_db \<Rightarrow> string list \<Rightarrow> string set \<Rightarrow> bool" where
  "marked db ids hs \<longleftrightarrow> (\<forall>s \<in> set (sessions db). se_id s \<in> set ids \<longrightarrow>
     se_hash s \<in> rf_hash ` set (refresh_tokens db) \<longrightarrow> se_hash s \<in> hs)"

definition phase_ok :: "token_db \<Rightarrow> request_phase \<Rightarrow> bool" where
  "phase_ok db ph \<longleftrightarrow>
     (case ph of
        SessionsSeen u ids \<Rightarrow> owned db u ids
      | SessionsOff u ids \<Rightarrow> owned db u ids \<and> all_off db ids
      | TokensSeen u ids hs \<Rightarrow> owned db u ids \<and> all_off db ids \<and> marked db ids (set hs)
      | Answered (Revoked u ids) \<Rightarrow> owned db u ids \<and> all_off db ids \<and> marked db ids {}
      | _ \<Rightarrow> True)"

text \<open>Every statement moves the tables like this.\<close>

definition evolves :: "token_db \<Rightarrow> token_db \<Rightarrow> bool" where
  "evolves db db' \<longleftrightarrow>
     se_id ` set (sessions db) \<subseteq> se_id ` set (sessions db') \<and>
     (\<forall>s' \<in> set (sessions db').
        se_id s' \<in> se_id ` set (sessions db) \<longrightarrow>
        (\<exists>s \<in> set (sessions db). se_id s = se_id s' \<and> se_user s = se_user s' \<and> (se_active s \<or> s' = s))) \<and>
     (\<forall>r \<in> set (refresh_tokens db').
        r \<in> set (refresh_tokens db) \<or> rf_hash r \<notin> se_hash ` set (sessions db))"

lemma evolves_refl: "evolves db db"
  by (auto simp: evolves_def)

lemma evolves_session:
  assumes "evolves db db'" and "owned db u ids" and "s' \<in> set (sessions db')" "se_id s' \<in> set ids"
  obtains s where "s \<in> set (sessions db)" "se_id s = se_id s'" "se_user s = se_user s'"
    "se_active s \<or> s' = s"
proof -
  have "se_id s' \<in> se_id ` set (sessions db)" using assms(2,4) unfolding owned_def by blast
  with assms(1,3) show ?thesis using that unfolding evolves_def by blast
qed

lemma owned_evolves:
  assumes "evolves db db'" and "owned db u ids"
  shows "owned db' u ids"
proof -
  have "se_user s' = u" if "s' \<in> set (sessions db')" "se_id s' \<in> set ids" for s'
    using assms(2) evolves_session [OF assms that] that(2) unfolding owned_def by metis
  then show ?thesis using assms unfolding owned_def evolves_def by blast
qed

lemma off_kept:
  assumes "evolves db db'" and "owned db u ids" and "all_off db ids"
    and "s' \<in> set (sessions db')" "se_id s' \<in> set ids"
  shows "s' \<in> set (sessions db)"
  using evolves_session [OF assms(1,2,4,5)] assms(3,5) unfolding all_off_def by metis

lemma all_off_evolves:
  assumes "evolves db db'" and "owned db u ids" and "all_off db ids"
  shows "all_off db' ids"
  using off_kept [OF assms] assms(3) unfolding all_off_def by blast

lemma marked_evolves:
  assumes e: "evolves db db'" and "owned db u ids" and "all_off db ids" and m: "marked db ids hs"
  shows "marked db' ids hs"
  unfolding marked_def
proof (intro ballI impI)
  fix s' assume s': "s' \<in> set (sessions db')" "se_id s' \<in> set ids"
    and live: "se_hash s' \<in> rf_hash ` set (refresh_tokens db')"
  have s: "s' \<in> set (sessions db)" by (rule off_kept [OF e assms(2,3) s'])
  obtain r where r: "r \<in> set (refresh_tokens db')" "rf_hash r = se_hash s'"
    using live by (auto simp: eq_commute)
  have "r \<in> set (refresh_tokens db)" using e r s unfolding evolves_def by (metis image_eqI)
  then have "se_hash s' \<in> rf_hash ` set (refresh_tokens db)" using r(2) by force
  with m s s'(2) show "se_hash s' \<in> hs" unfolding marked_def by blast
qed

lemma phase_ok_evolves:
  assumes e: "evolves db db'" and ok: "phase_ok db ph"
  shows "phase_ok db' ph"
proof -
  note keep = owned_evolves [OF e] all_off_evolves [OF e] marked_evolves [OF e]
  show ?thesis
  proof (cases ph)
    case (Answered x)
    with ok keep show ?thesis by (cases x) (auto simp: phase_ok_def)
  qed (use ok keep in \<open>auto simp: phase_ok_def\<close>)
qed

subsection \<open>The tables under one statement\<close>

lemma table_simps [simp]:
  "refresh_tokens (deactivate P db) = refresh_tokens db" "keys (deactivate P db) = keys db"
  "refresh_tokens (drop_rotated Q db) = refresh_tokens db" "sessions (drop_rotated Q db) = sessions db"
  "keys (drop_rotated Q db) = keys db"
  "refresh_tokens (drop_tokens R db) = filter (\<lambda>r. \<not> R r) (refresh_tokens db)"
  "sessions (drop_tokens R db) = sessions db" "keys (drop_tokens R db) = keys db"
  "refresh_tokens (purge_rotated t db) = refresh_tokens db" "sessions (purge_rotated t db) = sessions db"
  "keys (purge_rotated t db) = keys db"
  "refresh_tokens (insert_session i u h db) = refresh_tokens db"
  "keys (insert_session i u h db) = (i, u, h) # keys db"
  "sessions (createRefreshToken t u h db) = sessions db" "keys (createRefreshToken t u h db) = keys db"
  "refresh_tokens (createRefreshToken t u h db) =
     \<lparr>rf_user = u, rf_hash = h, rf_expires = t + REFRESH_EXPIRY_DAYS * day_ms\<rparr> # refresh_tokens db"
  by (auto simp: deactivate_def drop_rotated_def drop_tokens_def purge_rotated_def insert_session_def
      createRefreshToken_def keys_def)

lemma pending_append:
  "pending_hashes (xs @ q # ys) = pending_hashes xs @
     (case pending_login q of None \<Rightarrow> [] | Some (i, h) \<Rightarrow> [h]) @ pending_hashes ys"
  "pending_sids (xs @ q # ys) = pending_sids xs @
     (case pending_login q of None \<Rightarrow> [] | Some (i, h) \<Rightarrow> [i]) @ pending_sids ys"
  by (auto simp: pending_hashes_def pending_sids_def List.map_filter_def split: option.splits)

lemma ball_purpose:
  "(\<forall>q' \<in> set (xs @ q\<lparr>rq_phase := ph\<rparr> # ys). \<forall>h. presented (rq_for q') = Some h \<longrightarrow> T h) \<longleftrightarrow>
   (\<forall>q' \<in> set (xs @ q # ys). \<forall>h. presented (rq_for q') = Some h \<longrightarrow> T h)"
  by simp

lemma pending_login_Some:
  "pending_login q = Some (i, h) \<longleftrightarrow>
     (\<exists>u. rq_for q = ForLogin u i h \<and> (rq_phase q = Arrived \<or> rq_phase q = Issuing))"
  by (auto simp: pending_login_def split: purpose.splits)

lemma evolves_map:
  assumes "sessions db' = map f (sessions db)"
    and "\<forall>s \<in> set (sessions db). se_id (f s) = se_id s \<and> se_user (f s) = se_user s \<and> (se_active s \<or> f s = s)"
    and "\<forall>r \<in> set (refresh_tokens db'). r \<in> set (refresh_tokens db) \<or>
      rf_hash r \<notin> se_hash ` set (sessions db)"
  shows "evolves db db'"
proof -
  have "se_id ` set (sessions db') = se_id ` set (sessions db)"
    using assms(1,2) by (force simp: image_image)
  moreover have "\<forall>s' \<in> set (sessions db'). \<exists>s \<in> set (sessions db).
      se_id s = se_id s' \<and> se_user s = se_user s' \<and> (se_active s \<or> s' = s)"
  proof
    fix s' assume "s' \<in> set (sessions db')"
    then obtain s where "s \<in> set (sessions db)" "s' = f s" using assms(1) by auto
    with assms(2) show "\<exists>s \<in> set (sessions db).
        se_id s = se_id s' \<and> se_user s = se_user s' \<and> (se_active s \<or> s' = s)"
      by (intro bexI [of _ s]) auto
  qed
  ultimately show ?thesis using assms(3) unfolding evolves_def by blast
qed

lemma off_already [simp]: "\<not> se_active s \<Longrightarrow> s\<lparr>se_active := False\<rparr> = s"
  by (cases s) simp

lemma evolves_deactivate:
  assumes "set (refresh_tokens db') \<subseteq> set (refresh_tokens db)" and "sessions db' = sessions db"
  shows "evolves db (deactivate P db')"
proof (rule evolves_map)
  let ?f = "\<lambda>s. if P s then s\<lparr>se_active := False\<rparr> else s"
  show "sessions (deactivate P db') = map ?f (sessions db)" using assms(2) by (simp add: deactivate_def)
  have "se_active s \<or> ?f s = s" for s by (cases "se_active s") simp_all
  then show "\<forall>s \<in> set (sessions db). se_id (?f s) = se_id s \<and> se_user (?f s) = se_user s \<and>
      (se_active s \<or> ?f s = s)" by simp
qed (use assms(1) in auto)

lemma evolves_fewer_tokens:
  "sessions db' = sessions db \<Longrightarrow> set (refresh_tokens db') \<subseteq> set (refresh_tokens db) \<Longrightarrow> evolves db db'"
  by (rule evolves_map [where f = "\<lambda>s. s"]) auto

text \<open>A statement that adds no key and is not one of a login under way.\<close>

lemma tables_ok_quiet:
  assumes ok: "tables_ok U I db (xs @ q # ys)" and q: "pending_login q = None"
    and keys: "keys db' = keys db" and toks: "refresh_tokens db' = filter P (refresh_tokens db)"
    and q': "pending_login (q\<lparr>rq_phase := ph\<rparr>) = None" and U: "U \<subseteq> U'"
  shows "tables_ok U' I db' (xs @ q\<lparr>rq_phase := ph\<rparr> # ys)"
proof -
  have pend: "pending_hashes (xs @ q\<lparr>rq_phase := ph\<rparr> # ys) = pending_hashes (xs @ q # ys)"
    "pending_sids (xs @ q\<lparr>rq_phase := ph\<rparr> # ys) = pending_sids (xs @ q # ys)"
    using q q' by (simp_all add: pending_append)
  have mem: "\<lparr>rq_for = ForLogin u i h, rq_phase = p\<rparr> \<in> set (xs @ q\<lparr>rq_phase := ph\<rparr> # ys) \<longleftrightarrow>
      \<lparr>rq_for = ForLogin u i h, rq_phase = p\<rparr> \<in> set (xs @ q # ys)" if "p = Arrived \<or> p = Issuing" for u i h p
    using q q' that by (cases q) (auto simp: pending_login_def)
  have fewer: "set (refresh_tokens db') \<subseteq> set (refresh_tokens db)"
    "rf_hash ` set (refresh_tokens db') \<subseteq> rf_hash ` set (refresh_tokens db)"
    using toks by auto
  have "keys_distinct db' (xs @ q\<lparr>rq_phase := ph\<rparr> # ys)"
    using ok unfolding tables_ok_def keys_distinct_def pend keys toks
    by (simp add: distinct_map_filter)
  moreover have "keys_known U' I db' (xs @ q\<lparr>rq_phase := ph\<rparr> # ys)"
    using ok U unfolding tables_ok_def keys_known_def pend keys toks ball_purpose
    by (auto simp del: map_append set_append set_map)
  moreover have "tokens_owned db' (xs @ q\<lparr>rq_phase := ph\<rparr> # ys)"
    unfolding tokens_owned_def keys mem [OF disjI1 [OF refl]] mem [OF disjI2 [OF refl]]
    using ok fewer unfolding tables_ok_def tokens_owned_def by blast
  ultimately show ?thesis by (simp add: tables_ok_def)
qed

subsection \<open>A rotation\<close>

lemma rotate_tx_Some:
  assumes "rotate_tx now nh h db = (Some rt, db')"
  obtains r so where "r \<in> set (refresh_tokens db)" "rf_hash r = h"
    "so = find (\<lambda>s. se_hash s = h \<and> se_user s = rf_user r) (sessions db)"
    "\<forall>s. so = Some s \<longrightarrow> se_active s"
    "refresh_tokens db' = \<lparr>rf_user = rf_user r, rf_hash = nh, rf_expires = now + REFRESH_EXPIRY_DAYS * day_ms\<rparr> #
       filter (\<lambda>x. rf_hash x \<noteq> h) (refresh_tokens db)"
    "sessions db' = (case so of None \<Rightarrow> sessions db
       | Some s \<Rightarrow> map (\<lambda>x. if se_id x = se_id s then x\<lparr>se_hash := nh\<rparr> else x) (sessions db))"
    "rt_hash rt = nh" "rt_session rt = map_option se_id so"
proof -
  obtain r where r: "find (\<lambda>r. rf_hash r = h \<and> now < rf_expires r) (refresh_tokens db) = Some r"
    using assms by (auto simp: rotate_tx_def split: option.splits)
  define so where "so = find (\<lambda>s. se_hash s = h \<and> se_user s = rf_user r) (sessions db)"
  have "r \<in> set (refresh_tokens db)" "rf_hash r = h" using find_Some_in [OF r] by simp_all
  moreover have "\<forall>s. so = Some s \<longrightarrow> se_active s"
    using assms r by (auto simp: rotate_tx_def Let_def so_def split: option.splits if_splits)
  moreover have "refresh_tokens db' = \<lparr>rf_user = rf_user r, rf_hash = nh,
        rf_expires = now + REFRESH_EXPIRY_DAYS * day_ms\<rparr> # filter (\<lambda>x. rf_hash x \<noteq> h) (refresh_tokens db)"
    "sessions db' = (case so of None \<Rightarrow> sessions db
       | Some s \<Rightarrow> map (\<lambda>x. if se_id x = se_id s then x\<lparr>se_hash := nh\<rparr> else x) (sessions db))"
    "rt_hash rt = nh" "rt_session rt = map_option se_id so"
    using assms r unfolding rotate_tx_def Let_def so_def
    by (auto simp: createRefreshToken_def drop_tokens_def split: option.splits if_splits)
  ultimately show ?thesis using so_def that by blast
qed

lemma rotate_tx_None: "rotate_tx now nh h db = (None, db') \<Longrightarrow> db' = db"
  by (auto simp: rotate_tx_def Let_def split: option.splits if_splits)

lemma pending_member:
  "\<lparr>rq_for = ForLogin u i h, rq_phase = Arrived\<rparr> \<in> set qs \<or>
   \<lparr>rq_for = ForLogin u i h, rq_phase = Issuing\<rparr> \<in> set qs \<Longrightarrow>
   h \<in> set (pending_hashes qs) \<and> i \<in> set (pending_sids qs)"
  by (force simp: pending_hashes_def pending_sids_def List.map_filter_def pending_login_def)

definition renamed :: "string \<Rightarrow> string \<Rightarrow> string \<times> int \<times> string \<Rightarrow> string \<times> int \<times> string" where
  "renamed h nh k = (fst k, fst (snd k), if snd (snd k) = h then nh else snd (snd k))"

lemma distinct_renamed:
  assumes "distinct (map (snd \<circ> snd) ks @ hs)" and "nh \<notin> set (map (snd \<circ> snd) ks @ hs)"
  shows "distinct (map (snd \<circ> snd) (map (renamed h nh) ks) @ hs)"
proof -
  let ?f = "\<lambda>x. if x = h then nh else x" and ?xs = "map (snd \<circ> snd) ks"
  have "map (snd \<circ> snd) (map (renamed h nh) ks) = map ?f ?xs" by (simp add: renamed_def)
  moreover have "inj_on ?f (set ?xs)" using assms(2) by (auto simp: inj_on_def)
  then have "distinct (map ?f ?xs)" using assms(1) unfolding distinct_map distinct_append by blast
  moreover have "set (map ?f ?xs) \<inter> set hs = {}" using assms by auto
  ultimately show ?thesis using assms(1) by (simp only: distinct_append)
qed

lemma rotate_tables:
  assumes ok: "tables_ok U I db (xs @ q # ys)" and q: "presented (rq_for q) = Some h"
    and rot: "rotate_tx now nh h db = (Some rt, db')" and fresh: "nh \<notin> U"
  shows "evolves db db' \<and> tables_ok (insert nh U) I db' (xs @ q\<lparr>rq_phase := ph\<rparr> # ys)"
proof -
  let ?qs = "xs @ q # ys" and ?qs' = "xs @ q\<lparr>rq_phase := ph\<rparr> # ys"
  note parts = ok [unfolded tables_ok_def keys_distinct_def keys_known_def tokens_owned_def]
  obtain r so where r: "r \<in> set (refresh_tokens db)" "rf_hash r = h"
    and so: "so = find (\<lambda>s. se_hash s = h \<and> se_user s = rf_user r) (sessions db)"
    and act: "\<forall>s. so = Some s \<longrightarrow> se_active s"
    and toks: "refresh_tokens db' = \<lparr>rf_user = rf_user r, rf_hash = nh,
        rf_expires = now + REFRESH_EXPIRY_DAYS * day_ms\<rparr> # filter (\<lambda>x. rf_hash x \<noteq> h) (refresh_tokens db)"
    and sess: "sessions db' = (case so of None \<Rightarrow> sessions db
       | Some s \<Rightarrow> map (\<lambda>x. if se_id x = se_id s then x\<lparr>se_hash := nh\<rparr> else x) (sessions db))"
      "rt_hash rt = nh" "rt_session rt = map_option se_id so"
    using rot by (rule rotate_tx_Some)
  have hU: "h \<in> U" "h \<notin> set (pending_hashes ?qs)" using parts q in_set_conv_decomp by metis+
  obtain i where i: "(i, rf_user r, h) \<in> set (keys db)"
    using parts r pending_member [of _ _ h ?qs] hU(2) by blast
  then obtain s1 where "s1 \<in> set (sessions db)" "se_hash s1 = h" "se_user s1 = rf_user r"
    by (auto simp: keys_def)
  then have "so \<noteq> None" unfolding so find_None_iff by blast
  then obtain s where s: "so = Some s" by blast
  then have sin: "s \<in> set (sessions db)" "se_hash s = h" "se_user s = rf_user r"
    using find_Some_in [of _ "sessions db" s] so by force+
  have dist: "distinct (map se_id (sessions db))" "distinct (map se_hash (sessions db))"
    using parts by (auto simp: keys_def o_def)
  have same: "se_id x = se_id s \<longleftrightarrow> se_hash x = h" if "x \<in> set (sessions db)" for x
    using dist sin that by (metis (no_types) eq_key_imp_eq_value distinct_map inj_onD)
  have sess': "sessions db' = map (\<lambda>x. if se_id x = se_id s then x\<lparr>se_hash := nh\<rparr> else x) (sessions db)"
    using sess s by simp
  have keys: "keys db' = map (renamed h nh) (keys db)"
    using same by (auto simp: keys_def sess' renamed_def)
  have ev: "evolves db db'"
  proof (rule evolves_map [OF sess'])
    have "se_active x" if "x \<in> set (sessions db)" "se_id x = se_id s" for x
      using dist(1) sin(1) that act s by (metis distinct_map inj_onD)
    then show "\<forall>x \<in> set (sessions db). se_id (if se_id x = se_id s then x\<lparr>se_hash := nh\<rparr> else x) = se_id x \<and>
        se_user (if se_id x = se_id s then x\<lparr>se_hash := nh\<rparr> else x) = se_user x \<and>
        (se_active x \<or> (if se_id x = se_id s then x\<lparr>se_hash := nh\<rparr> else x) = x)" by auto
  next
    have "nh \<notin> se_hash ` set (sessions db)" using parts fresh by (auto simp: keys_def)
    then show "\<forall>x \<in> set (refresh_tokens db'). x \<in> set (refresh_tokens db) \<or>
        rf_hash x \<notin> se_hash ` set (sessions db)" by (auto simp: toks)
  qed
  have pl: "pending_login q = None" "pending_login (q\<lparr>rq_phase := ph\<rparr>) = None"
    using q by (auto simp: pending_login_def presented_def split: purpose.splits)
  have pend: "pending_hashes ?qs' = pending_hashes ?qs" "pending_sids ?qs' = pending_sids ?qs"
    using pl by (simp_all add: pending_append)
  have mem: "\<lparr>rq_for = ForLogin u i h, rq_phase = p\<rparr> \<in> set ?qs' \<longleftrightarrow>
      \<lparr>rq_for = ForLogin u i h, rq_phase = p\<rparr> \<in> set ?qs" for u i h p
    using q by (cases q) (auto simp: presented_def)
  have "keys_distinct db' ?qs'"
  proof -
    have "map fst (keys db') = map fst (keys db)" by (simp add: keys renamed_def)
    moreover have "nh \<notin> set (map (snd \<circ> snd) (keys db) @ pending_hashes ?qs)" using parts fresh by blast
    then have "distinct (map (snd \<circ> snd) (keys db') @ pending_hashes ?qs)"
      unfolding keys using parts by (intro distinct_renamed) blast+
    moreover have "nh \<notin> rf_hash ` set (refresh_tokens db)" using parts fresh by blast
    then have "distinct (map rf_hash (refresh_tokens db'))"
      using parts by (auto simp: toks distinct_map_filter)
    ultimately show ?thesis using parts unfolding keys_distinct_def pend by simp
  qed
  moreover have "keys_known (insert nh U) I db' ?qs'"
    unfolding keys_known_def pend ball_purpose
  proof (intro conjI)
    note kk = ok [unfolded tables_ok_def keys_known_def]
    from kk show "rf_hash ` set (refresh_tokens db') \<subseteq> insert nh U" by (auto simp: toks)
    have "set (map (snd \<circ> snd) (keys db')) \<subseteq> insert nh (set (map (snd \<circ> snd) (keys db)))"
      by (auto simp: keys renamed_def)
    moreover from kk have "set (map (snd \<circ> snd) (keys db)) \<subseteq> U" "set (pending_hashes ?qs) \<subseteq> U"
      by simp_all
    ultimately show "set (map (snd \<circ> snd) (keys db') @ pending_hashes ?qs) \<subseteq> insert nh U"
      unfolding set_append by blast
    have "map fst (keys db') = map fst (keys db)" by (simp add: keys renamed_def)
    with kk show "set (map fst (keys db') @ pending_sids ?qs) \<subseteq> I" by simp
    from kk have "\<forall>q' \<in> set ?qs. \<forall>h. presented (rq_for q') = Some h \<longrightarrow> h \<in> U \<and> h \<notin> set (pending_hashes ?qs)"
      by (elim conjE)
    then show "\<forall>q' \<in> set ?qs. \<forall>h. presented (rq_for q') = Some h \<longrightarrow>
        h \<in> insert nh U \<and> h \<notin> set (pending_hashes ?qs)"
      by blast
  qed
  moreover have "tokens_owned db' ?qs'"
  proof -
    have old: "(\<exists>i. (i, rf_user x, rf_hash x) \<in> set (keys db')) \<or>
        (\<exists>i. \<lparr>rq_for = ForLogin (rf_user x) i (rf_hash x), rq_phase = Issuing\<rparr> \<in> set ?qs)"
      if x: "x \<in> set (refresh_tokens db)" "rf_hash x \<noteq> h" for x
    proof -
      have "renamed h nh (i, rf_user x, rf_hash x) = (i, rf_user x, rf_hash x)" for i
        using x(2) by (simp add: renamed_def)
      then have "(i, rf_user x, rf_hash x) \<in> set (keys db')" if "(i, rf_user x, rf_hash x) \<in> set (keys db)" for i
        using that unfolding keys by (metis image_eqI set_map)
      then show ?thesis using parts x(1) by blast
    qed
    have "renamed h nh (i, rf_user r, h) = (i, rf_user r, nh)" by (simp add: renamed_def)
    then have new: "(i, rf_user r, nh) \<in> set (keys db')" using i unfolding keys by (metis image_eqI set_map)
    have arr: "x \<notin> rf_hash ` set (refresh_tokens db')"
      if "\<lparr>rq_for = ForLogin u i x, rq_phase = Arrived\<rparr> \<in> set ?qs" for u i x
    proof -
      have "x \<in> U" using pending_member [of u i x ?qs] parts that by auto
      then have "x \<noteq> nh" using fresh by blast
      moreover have "x \<notin> rf_hash ` set (refresh_tokens db)" using parts that by blast
      ultimately show ?thesis by (auto simp: toks)
    qed
    have "(\<exists>i. (i, rf_user x, rf_hash x) \<in> set (keys db')) \<or>
        (\<exists>i. \<lparr>rq_for = ForLogin (rf_user x) i (rf_hash x), rq_phase = Issuing\<rparr> \<in> set ?qs)"
      if "x \<in> set (refresh_tokens db')" for x
    proof -
      consider "x = \<lparr>rf_user = rf_user r, rf_hash = nh, rf_expires = now + REFRESH_EXPIRY_DAYS * day_ms\<rparr>"
        | "x \<in> set (refresh_tokens db)" "rf_hash x \<noteq> h" using \<open>x \<in> _\<close> by (auto simp: toks)
      then show ?thesis using new old by cases auto
    qed
    then show ?thesis using arr unfolding tokens_owned_def mem by blast
  qed
  ultimately show ?thesis using ev by (simp add: tables_ok_def)
qed

subsection \<open>A login and an arrival\<close>

lemma login_first_tables:
  assumes ok: "tables_ok U I db (xs @ q # ys)" and q: "q = \<lparr>rq_for = ForLogin u i h, rq_phase = Arrived\<rparr>"
    and U: "U \<subseteq> U'"
  shows "evolves db (createRefreshToken t u h db) \<and>
    tables_ok U' I (createRefreshToken t u h db) (xs @ q\<lparr>rq_phase := Issuing\<rparr> # ys)"
proof -
  let ?qs = "xs @ q # ys" and ?qs' = "xs @ q\<lparr>rq_phase := Issuing\<rparr> # ys" and ?db' = "createRefreshToken t u h db"
  have kd: "keys_distinct db ?qs" and kk: "keys_known U I db ?qs" and own: "tokens_owned db ?qs"
    using ok by (simp_all add: tables_ok_def)
  have qin: "\<lparr>rq_for = ForLogin u i h, rq_phase = Arrived\<rparr> \<in> set ?qs" using q by simp
  then have h: "h \<in> set (pending_hashes ?qs)" "h \<notin> rf_hash ` set (refresh_tokens db)"
    using pending_member [of u i h ?qs] own unfolding tokens_owned_def by blast+
  have pend: "pending_hashes ?qs' = pending_hashes ?qs" "pending_sids ?qs' = pending_sids ?qs"
    by (simp_all add: pending_append q pending_login_def)
  have "h \<notin> se_hash ` set (sessions db)"
    using kd h(1) unfolding keys_distinct_def keys_def by auto
  then have "evolves db ?db'" by (auto intro!: evolves_map [where f = "\<lambda>s. s"])
  moreover have "keys_distinct ?db' ?qs'"
    using kd h(2) unfolding keys_distinct_def pend by simp
  moreover have "keys_known U' I ?db' ?qs'"
  proof -
    have "h \<in> U" using kk h(1) unfolding keys_known_def by auto
    then show ?thesis
      using kk U unfolding keys_known_def pend ball_purpose by (auto simp del: set_append set_map)
  qed
  moreover have "tokens_owned ?db' ?qs'"
  proof -
    have iss: "\<lparr>rq_for = ForLogin v j x, rq_phase = Issuing\<rparr> \<in> set ?qs'"
      if "\<lparr>rq_for = ForLogin v j x, rq_phase = Issuing\<rparr> \<in> set ?qs" for v j x
      using that q by auto
    have "\<lparr>rq_for = ForLogin u i h, rq_phase = Issuing\<rparr> \<in> set ?qs'" using q by simp
    moreover have "x \<noteq> h" if x: "\<lparr>rq_for = ForLogin v j x, rq_phase = Arrived\<rparr> \<in> set ?qs'" for v j x
    proof
      assume "x = h"
      have "\<lparr>rq_for = ForLogin v j x, rq_phase = Arrived\<rparr> \<in> set (xs @ ys)" using x q by auto
      then have "x \<in> set (pending_hashes (xs @ ys))"
        using pending_member [of v j x "xs @ ys"] by blast
      moreover have "distinct (pending_hashes xs @ h # pending_hashes ys)"
        using kd unfolding keys_distinct_def pending_append by (simp add: q pending_login_def)
      moreover have "pending_hashes (xs @ ys) = pending_hashes xs @ pending_hashes ys"
        by (simp add: pending_hashes_def List.map_filter_def)
      ultimately show False using \<open>x = h\<close> by auto
    qed
    moreover have "\<lparr>rq_for = ForLogin v j x, rq_phase = Arrived\<rparr> \<in> set ?qs"
      if "\<lparr>rq_for = ForLogin v j x, rq_phase = Arrived\<rparr> \<in> set ?qs'" for v j x
      using that q by auto
    ultimately show ?thesis
      using tokens_ownedD [OF own] iss by (intro tokens_ownedI) (fastforce simp del: set_append)+
  qed
  ultimately show ?thesis by (simp add: tables_ok_def)
qed

lemma login_second_tables:
  assumes ok: "tables_ok U I db (xs @ q # ys)" and q: "q = \<lparr>rq_for = ForLogin u i h, rq_phase = Issuing\<rparr>"
    and U: "U \<subseteq> U'"
  shows "evolves db (insert_session i u h db) \<and>
    tables_ok U' I (insert_session i u h db) (xs @ q\<lparr>rq_phase := Answered x\<rparr> # ys)"
proof -
  let ?qs = "xs @ q # ys" and ?qs' = "xs @ q\<lparr>rq_phase := Answered x\<rparr> # ys" and ?db' = "insert_session i u h db"
  have kd: "keys_distinct db ?qs" and kk: "keys_known U I db ?qs" and own: "tokens_owned db ?qs"
    using ok by (simp_all add: tables_ok_def)
  have pend: "pending_hashes ?qs = pending_hashes xs @ h # pending_hashes ys"
    "pending_sids ?qs = pending_sids xs @ i # pending_sids ys"
    "pending_hashes ?qs' = pending_hashes xs @ pending_hashes ys"
    "pending_sids ?qs' = pending_sids xs @ pending_sids ys"
    by (simp_all add: pending_append q pending_login_def)
  have "i \<notin> se_id ` set (sessions db)" using kd unfolding keys_distinct_def pend keys_def by auto
  then have "evolves db ?db'" unfolding evolves_def insert_session_def by auto
  moreover have "keys_distinct ?db' ?qs'" using kd unfolding keys_distinct_def pend by auto
  moreover have "keys_known U' I ?db' ?qs'"
    using kk U unfolding keys_known_def pend ball_purpose by (auto simp del: set_append set_map simp: set_append [of "pending_hashes xs"] set_append [of "pending_sids xs"] set_append [of "map fst _"] set_append [of "map (snd \<circ> snd) _"])
  moreover have "tokens_owned ?db' ?qs'"
  proof (rule tokens_ownedI)
    fix r assume r: "r \<in> set (refresh_tokens ?db')"
    have "\<lparr>rq_for = ForLogin v j z, rq_phase = Issuing\<rparr> \<in> set ?qs' \<or> (j, v, z) = (i, u, h)"
      if "\<lparr>rq_for = ForLogin v j z, rq_phase = Issuing\<rparr> \<in> set ?qs" for v j z
      using that q by auto
    then show "(\<exists>i. (i, rf_user r, rf_hash r) \<in> set (keys ?db')) \<or>
        (\<exists>i. \<lparr>rq_for = ForLogin (rf_user r) i (rf_hash r), rq_phase = Issuing\<rparr> \<in> set ?qs')"
      using tokens_ownedD(1) [OF own, of r] r by fastforce
  next
    fix v j z assume "\<lparr>rq_for = ForLogin v j z, rq_phase = Arrived\<rparr> \<in> set ?qs'"
    then have "\<lparr>rq_for = ForLogin v j z, rq_phase = Arrived\<rparr> \<in> set ?qs" using q by auto
    with tokens_ownedD(2) [OF own] show "z \<notin> rf_hash ` set (refresh_tokens ?db')" by simp
  qed
  ultimately show ?thesis by (simp add: tables_ok_def)
qed

lemma pending_Cons:
  "pending_hashes (q # qs) = (case pending_login q of None \<Rightarrow> [] | Some (i, h) \<Rightarrow> [h]) @ pending_hashes qs"
  "pending_sids (q # qs) = (case pending_login q of None \<Rightarrow> [] | Some (i, h) \<Rightarrow> [i]) @ pending_sids qs"
  using pending_append [of "[]"] by (simp_all add: pending_hashes_def pending_sids_def List.map_filter_def)

lemma arrive_tables:
  assumes ok: "tables_ok U I db qs" and p: "pending_login q = None" and U: "U \<subseteq> U'"
    and pres: "\<forall>h. presented (rq_for q) = Some h \<longrightarrow> h \<in> U' \<and> h \<notin> set (pending_hashes qs)"
  shows "tables_ok U' I db (q # qs)"
proof -
  have pend: "pending_hashes (q # qs) = pending_hashes qs" "pending_sids (q # qs) = pending_sids qs"
    using p by (simp_all add: pending_Cons)
  have "q \<noteq> \<lparr>rq_for = ForLogin u i h, rq_phase = Arrived\<rparr>" for u i h
    using p by (auto simp: pending_login_def)
  then have "tokens_owned db (q # qs)"
    using ok tokens_ownedD [of db qs] unfolding tables_ok_def by (intro tokens_ownedI) fastforce+
  moreover have "keys_distinct db (q # qs)" "keys_known U' I db (q # qs)"
    using ok U pres unfolding tables_ok_def keys_distinct_def keys_known_def pend
    by (auto simp del: set_append set_map)
  ultimately show ?thesis by (simp add: tables_ok_def)
qed

lemma arrive_login_tables:
  assumes ok: "tables_ok U I db qs" and "h \<notin> U" and "i \<notin> I"
  shows "tables_ok (insert h U) (insert i I) db (\<lparr>rq_for = ForLogin u i h, rq_phase = Arrived\<rparr> # qs)"
proof -
  let ?q = "\<lparr>rq_for = ForLogin u i h, rq_phase = Arrived\<rparr>"
  have kd: "keys_distinct db qs" and kk: "keys_known U I db qs" and own: "tokens_owned db qs"
    using ok by (simp_all add: tables_ok_def)
  have pend: "pending_hashes (?q # qs) = h # pending_hashes qs" "pending_sids (?q # qs) = i # pending_sids qs"
    by (simp_all add: pending_Cons pending_login_def)
  have new: "h \<notin> set (map (snd \<circ> snd) (keys db) @ pending_hashes qs)"
    "i \<notin> set (map fst (keys db) @ pending_sids qs)" "h \<notin> rf_hash ` set (refresh_tokens db)"
    using kk assms(2,3) unfolding keys_known_def by blast+
  have "keys_distinct db (?q # qs)" using kd new unfolding keys_distinct_def pend by auto
  moreover have "keys_known (insert h U) (insert i I) db (?q # qs)"
    using kk assms(2) unfolding keys_known_def pend by (auto simp: presented_def)
  moreover have "tokens_owned db (?q # qs)"
    using tokens_ownedD [OF own] new(3) by (intro tokens_ownedI) fastforce+
  ultimately show ?thesis by (simp add: tables_ok_def)
qed

subsection \<open>Every statement keeps the invariant\<close>

lemma own_session:
  assumes ok: "tables_ok U I db qs" and "r \<in> set (refresh_tokens db)" and s: "s \<in> set (sessions db)"
    and "se_hash s = rf_hash r"
  shows "se_user s = rf_user r"
proof -
  have kd: "keys_distinct db qs" and own: "tokens_owned db qs" using ok by (simp_all add: tables_ok_def)
  have "rf_hash r \<notin> set (pending_hashes qs)"
    using kd s assms(4) unfolding keys_distinct_def keys_def by (auto simp: image_iff)
  then obtain i where "(i, rf_user r, rf_hash r) \<in> set (keys db)"
    using tokens_ownedD(1) [OF own assms(2)] pending_member by blast
  then obtain s' where "s' \<in> set (sessions db)" "se_user s' = rf_user r" "se_hash s' = rf_hash r"
    by (auto simp: keys_def)
  moreover have "distinct (map se_hash (sessions db))"
    using kd unfolding keys_distinct_def keys_def by (simp add: o_def)
  ultimately show ?thesis using s assms(4) by (metis distinct_map inj_onD)
qed

lemma owned_session_ids:
  assumes "tables_ok U I db qs"
  shows "owned db u (session_ids u db)"
proof -
  have "distinct (map se_id (sessions db))"
    using assms unfolding tables_ok_def keys_distinct_def keys_def by (simp add: o_def)
  then show ?thesis
    unfolding owned_def session_ids_def by (auto dest: inj_onD simp: distinct_map)
qed

lemma marked_token_hashes:
  assumes "tables_ok U I db qs" and "owned db u ids"
  shows "marked db ids (set (token_hashes u db))"
  unfolding marked_def
proof (intro ballI impI)
  fix s assume s: "s \<in> set (sessions db)" "se_id s \<in> set ids" "se_hash s \<in> rf_hash ` set (refresh_tokens db)"
  then obtain r where r: "r \<in> set (refresh_tokens db)" "se_hash s = rf_hash r" by auto
  have "rf_user r = u"
    using own_session [OF assms(1) r(1) s(1) r(2)] assms(2) s unfolding owned_def by auto
  with r show "se_hash s \<in> set (token_hashes u db)" by (auto simp: token_hashes_def)
qed

lemma marked_dropped: "marked db ids (set hs) \<Longrightarrow> marked (drop_tokens (\<lambda>r. rf_hash r \<in> set hs) db) ids {}"
  by (auto simp: marked_def)

lemma all_off_deactivate: "all_off (deactivate (\<lambda>s. se_id s \<in> set ids) db) ids"
  by (auto simp: all_off_def deactivate_def)

lemma logout_tx_cases:
  assumes "logout_tx h db = (res, db')"
  obtains "res = None" "db' = db"
  | u P where "res = Some u" "db' = deactivate P (drop_tokens (\<lambda>r. rf_hash r = h) db)"
  using assms by (auto simp: logout_tx_def split: option.splits)

lemma drop_nothing: "filter (\<lambda>r. True) xs = xs" by simp

lemma statement_ok:
  assumes ok: "tables_ok U I db (xs @ q # ys)" and ph: "phase_ok db (rq_phase q)" and fresh: "nh \<notin> U"
    and st: "statement now nh (rq_for q) (rq_phase q) db = (ph', db')"
  shows "evolves db db' \<and> tables_ok (insert nh U) I db' (xs @ q\<lparr>rq_phase := ph'\<rparr> # ys) \<and> phase_ok db' ph'"
proof -
  let ?U = "insert nh U"
  have quiet: "tables_ok ?U I d (xs @ q\<lparr>rq_phase := p\<rparr> # ys)"
    if "pending_login q = None" "keys d = keys db" "refresh_tokens d = filter P (refresh_tokens db)"
      "p \<noteq> Arrived" "p \<noteq> Issuing" for d P p
    using that by (intro tables_ok_quiet [OF ok]) (auto simp: pending_login_def split: purpose.splits)
  have still: "refresh_tokens db = filter (\<lambda>r. True) (refresh_tokens db)" by simp
  have same: ?thesis if "db' = db" "pending_login q = None" "phase_ok db ph'" "ph' \<noteq> Arrived" "ph' \<noteq> Issuing"
    using that quiet [OF _ refl still, of ph'] by (simp add: evolves_refl)
  have fewer: ?thesis if "pending_login q = None" "keys db' = keys db" "sessions db' = sessions db"
      "refresh_tokens db' = filter P (refresh_tokens db)" "phase_ok db' ph'" "ph' \<noteq> Arrived" "ph' \<noteq> Issuing" for P
    using that quiet [of db' P ph'] by (auto simp: evolves_fewer_tokens)
  have off: ?thesis if "pending_login q = None" "db' = deactivate P (drop_tokens R db)" "phase_ok db' ph'"
      "ph' \<noteq> Arrived" "ph' \<noteq> Issuing" for P R
    using that quiet [of db' "\<lambda>r. \<not> R r" ph'] by (simp add: evolves_deactivate)
  show ?thesis
  proof (cases "rq_phase q")
    case Arrived
    show ?thesis
    proof (cases "rq_for q")
      case (ForRefresh h)
      show ?thesis
      proof (cases "rotate_tx now nh h db")
        case (Pair res d)
        show ?thesis
        proof (cases res)
          case None
          with Pair st Arrived ForRefresh rotate_tx_None [of now nh h db d] show ?thesis
            by (auto simp: evolves_refl phase_ok_def pending_login_def intro!: quiet [OF _ _ still])
        next
          case (Some rt)
          with Pair st Arrived ForRefresh have "ph' = Purging rt" "d = db'" by auto
          with rotate_tables [OF ok _ _ fresh, of h now rt db' "Purging rt"] Pair Some ForRefresh
          show ?thesis by (simp add: presented_def phase_ok_def)
        qed
      qed
    next
      case (ForLogout h)
      obtain res d where p: "logout_tx h db = (res, d)" by (cases "logout_tx h db")
      then show ?thesis
      proof (cases rule: logout_tx_cases)
        case 1
        with p st Arrived ForLogout have "ph' = Lost" "db' = db" by auto
        with ForLogout quiet [OF _ refl still, of Lost] show ?thesis
          by (simp add: evolves_refl phase_ok_def pending_login_def)
      next
        case (2 u P)
        with p st Arrived ForLogout show ?thesis
          by (auto simp: phase_ok_def pending_login_def intro!: quiet evolves_deactivate)
      qed
    next
      case (ForLogin u i h)
      then have "q = \<lparr>rq_for = ForLogin u i h, rq_phase = Arrived\<rparr>" using Arrived by (cases q) simp
      with login_first_tables [OF ok this, of ?U now] st show ?thesis by (auto simp: phase_ok_def)
    next
      case (ForRevokeAll u)
      with st Arrived have "ph' = SessionsSeen u (session_ids u db)" "db' = db" by auto
      with ForRevokeAll owned_session_ids [OF ok] quiet [OF _ refl still, of ph'] show ?thesis
        by (simp add: evolves_refl phase_ok_def pending_login_def)
    next
      case (ForRevokeSession u i)
      show ?thesis
      proof (cases "find (\<lambda>s. se_id s = i \<and> se_user s = u) (sessions db)")
        case None
        with st Arrived ForRevokeSession have "ph' = Answered SessionUnknown" "db' = db" by auto
        with ForRevokeSession quiet [OF _ refl still, of ph'] show ?thesis
          by (simp add: evolves_refl phase_ok_def pending_login_def)
      next
        case (Some s)
        with st Arrived ForRevokeSession have "ph' = SessionOff (se_hash s)"
          "db' = deactivate (\<lambda>s. se_id s = i \<and> se_user s = u) db" by auto
        with ForRevokeSession quiet [of db' "\<lambda>r. True" ph'] show ?thesis
          by (simp add: phase_ok_def pending_login_def evolves_deactivate)
      qed
    qed
  next
    case Issuing
    show ?thesis
    proof (cases "rq_for q")
      case (ForLogin u i h)
      then have "q = \<lparr>rq_for = ForLogin u i h, rq_phase = Issuing\<rparr>" using Issuing by (cases q) simp
      with login_second_tables [OF ok this, of ?U LoggedIn] st show ?thesis by (auto simp: phase_ok_def)
    qed (rule same; use st Issuing in \<open>auto simp: phase_ok_def pending_login_def\<close>)+
  next
    case (SessionsSeen u ids)
    with st have db': "db' = deactivate (\<lambda>s. se_id s \<in> set ids) (drop_tokens (\<lambda>r. False) db)"
      and "ph' = SessionsOff u ids" by (auto simp: drop_tokens_def)
    moreover have "evolves db db'" unfolding db' by (rule evolves_deactivate) auto
    ultimately show ?thesis
      using SessionsSeen ph owned_evolves [of db db'] all_off_deactivate
      by (intro off [OF _ db']) (auto simp: phase_ok_def pending_login_def split: purpose.splits)
  next
    case (SessionsOff u ids)
    with st ph marked_token_hashes [OF ok] show ?thesis
      by (intro same) (auto simp: phase_ok_def pending_login_def split: purpose.splits)
  next
    case (TokensSeen u ids hs)
    have e: "evolves db (drop_tokens (\<lambda>r. rf_hash r \<in> set hs) db)" by (auto intro!: evolves_fewer_tokens)
    with TokensSeen st ph owned_evolves [OF e] all_off_evolves [OF e] marked_dropped show ?thesis
      by (intro fewer [of "\<lambda>r. rf_hash r \<notin> set hs"])
        (auto simp: phase_ok_def pending_login_def split: purpose.splits)
  next
    case (Purging rt)
    with st show ?thesis
      by (intro fewer [of "\<lambda>r. True"]) (auto simp: phase_ok_def pending_login_def split: purpose.splits)
  next
    case Lost
    with st show ?thesis
      by (intro fewer [of "\<lambda>r. True"])
        (auto simp: phase_ok_def pending_login_def claim_rotated_def split: purpose.splits option.splits)
  next
    case (Revoking u)
    with st owned_session_ids [OF ok] show ?thesis
      by (intro same) (auto simp: phase_ok_def pending_login_def split: purpose.splits)
  next
    case (SessionOff h)
    with st show ?thesis
      by (intro fewer [of "\<lambda>r. rf_hash r \<noteq> h"]) (auto simp: phase_ok_def pending_login_def split: purpose.splits)
  next
    case (TokenGone h)
    with st show ?thesis
      by (intro fewer [of "\<lambda>r. True"]) (auto simp: phase_ok_def pending_login_def split: purpose.splits)
  next
    case (Answered x)
    with st ph show ?thesis
      by (intro same) (auto simp: phase_ok_def pending_login_def split: purpose.splits)
  qed
qed

definition svc_inv :: "svc_state \<Rightarrow> bool" where
  "svc_inv s \<longleftrightarrow>
     tables_ok (set (as_used s)) (set (as_sids s)) (as_db s) (as_requests s) \<and>
     (\<forall>q \<in> set (as_requests s). phase_ok (as_db s) (rq_phase q))"

inductive_cases svc_step_cases: "svc_step s s'"

lemma svc_inv_start: "svc_inv (svc_start us t)"
  by (simp add: svc_inv_def svc_start_def tables_ok_def keys_distinct_def keys_known_def
      tokens_owned_def keys_def pending_hashes_def pending_sids_def List.map_filter_def)

lemma presented_not_pending: "presented p = Some h \<Longrightarrow> pending_login \<lparr>rq_for = p, rq_phase = ph\<rparr> = None"
  by (auto simp: presented_def pending_login_def split: purpose.splits)

text \<open>Between two states of a run: what the statement did.\<close>

lemma svc_step_evolves:
  assumes inv: "svc_inv s" and st: "svc_step s s'"
  shows "evolves (as_db s) (as_db s') \<and> svc_inv s'"
  using st
proof cases
  case (present p h)
  then show ?thesis
    using inv arrive_tables [of "set (as_used s)" "set (as_sids s)" "as_db s" "as_requests s"
        "\<lparr>rq_for = p, rq_phase = Arrived\<rparr>" "insert h (set (as_used s))"]
    by (auto simp: svc_inv_def arrive_def evolves_refl presented_not_pending phase_ok_def)
next
  case (login h sid u)
  then show ?thesis
    using inv arrive_login_tables by (auto simp: svc_inv_def arrive_def evolves_refl phase_ok_def)
next
  case (revoke p u sid)
  then show ?thesis
    using inv arrive_tables [of "set (as_used s)" "set (as_sids s)" "as_db s" "as_requests s"
        "\<lparr>rq_for = p, rq_phase = Arrived\<rparr>" "set (as_used s)"]
    by (auto simp: svc_inv_def arrive_def evolves_refl presented_def pending_login_def phase_ok_def)
next
  case (tick t)
  then show ?thesis using inv by (auto simp: svc_inv_def evolves_refl)
next
  case (run xs q ys nh ph db)
  have "evolves (as_db s) db \<and> tables_ok (insert nh (set (as_used s))) (set (as_sids s)) db
      (xs @ q\<lparr>rq_phase := ph\<rparr> # ys) \<and> phase_ok db ph"
    using inv run by (intro statement_ok) (auto simp: svc_inv_def)
  moreover from this have "phase_ok db (rq_phase x)" if "x \<in> set xs \<union> set ys" for x
    using that inv run(2) phase_ok_evolves by (auto simp: svc_inv_def)
  ultimately show ?thesis using run by (auto simp: svc_inv_def)
qed

lemma svc_reachable_inv: "svc_reachable s \<Longrightarrow> svc_inv s"
  by (induction rule: svc_reachable.induct) (use svc_inv_start svc_step_evolves in blast)+

subsection \<open>What a detected replay closes\<close>

text \<open>The sessions a revocation under way is going to turn off.\<close>

definition covers :: "int \<Rightarrow> string set \<Rightarrow> request_phase \<Rightarrow> bool" where
  "covers u S ph \<longleftrightarrow>
     (case ph of
        Revoking v \<Rightarrow> v = u
      | SessionsSeen v ids \<Rightarrow> v = u \<and> S \<subseteq> set ids
      | SessionsOff v ids \<Rightarrow> v = u \<and> S \<subseteq> set ids
      | TokensSeen v ids hs \<Rightarrow> v = u \<and> S \<subseteq> set ids
      | Answered (Revoked v ids) \<Rightarrow> v = u \<and> S \<subseteq> set ids
      | _ \<Rightarrow> False)"

lemma covers_statement:
  assumes "statement now nh p ph db = (ph', db')" and "covers u S ph" and "S \<subseteq> set (session_ids u db)"
  shows "covers u S ph'"
  using assms by (cases ph) (auto simp: covers_def split: svc_outcome.splits)

lemma session_ids_evolves:
  assumes "evolves db db'" and "distinct (map se_id (sessions db))"
  shows "set (session_ids u db) \<subseteq> set (session_ids u db')"
proof
  fix i assume "i \<in> set (session_ids u db)"
  then obtain s where s: "s \<in> set (sessions db)" "se_id s = i" "se_user s = u"
    by (auto simp: session_ids_def)
  obtain s' where s': "s' \<in> set (sessions db')" "se_id s' = i"
    using assms(1) s unfolding evolves_def by (metis imageE image_eqI subsetD)
  then obtain t where "t \<in> set (sessions db)" "se_id t = i" "se_user t = se_user s'"
    using assms(1) s unfolding evolves_def by (metis image_eqI)
  with s s' assms(2) have "se_user s' = u" by (metis distinct_map inj_onD)
  with s' show "i \<in> set (session_ids u db')" by (auto simp: session_ids_def)
qed

text \<open>A request keeps its place, counted from the first that came.\<close>

definition nth_request :: "svc_state \<Rightarrow> nat \<Rightarrow> auth_request" where
  "nth_request s k = rev (as_requests s) ! k"

lemma nth_request_step:
  assumes "svc_step s s'" and "k < length (as_requests s)"
  shows "k < length (as_requests s') \<and>
    (nth_request s' k = nth_request s k \<or>
     (\<exists>nh ph. statement (as_now s) nh (rq_for (nth_request s k)) (rq_phase (nth_request s k)) (as_db s) =
        (ph, as_db s') \<and> nth_request s' k = (nth_request s k)\<lparr>rq_phase := ph\<rparr>))"
  using assms(1)
proof cases
  case (run xs q ys nh ph db)
  have "nth_request s k = (rev ys @ q # rev xs) ! k" "nth_request s' k = (rev ys @ q\<lparr>rq_phase := ph\<rparr> # rev xs) ! k"
    using run by (simp_all add: nth_request_def)
  then show ?thesis
    using run assms(2) by (cases "k = length ys") (auto simp: nth_append nth_Cons')
qed (use assms(2) in \<open>auto simp: nth_request_def arrive_def nth_append\<close>)

lemma revocation_covers:
  assumes "svc_step\<^sup>*\<^sup>* s0 s1" and "svc_inv s0" and k: "k < length (as_requests s0)"
    and "rq_phase (nth_request s0 k) = Revoking u"
  shows "svc_inv s1 \<and> k < length (as_requests s1) \<and>
    set (session_ids u (as_db s0)) \<subseteq> set (session_ids u (as_db s1)) \<and>
    covers u (set (session_ids u (as_db s0))) (rq_phase (nth_request s1 k))"
  using assms(1)
proof (induction rule: rtranclp_induct)
  case base
  then show ?case using assms by (simp add: covers_def)
next
  case (step s s')
  let ?S = "set (session_ids u (as_db s0))"
  have inv: "evolves (as_db s) (as_db s')" "svc_inv s'"
    using svc_step_evolves [OF _ step(2)] step.IH by blast+
  have "distinct (map se_id (sessions (as_db s)))"
    using step.IH unfolding svc_inv_def tables_ok_def keys_distinct_def keys_def by (simp add: o_def)
  then have "?S \<subseteq> set (session_ids u (as_db s'))"
    using session_ids_evolves [OF inv(1)] step.IH by blast
  moreover have "k < length (as_requests s')" using nth_request_step [OF step(2)] step.IH by blast
  moreover have "covers u ?S (rq_phase (nth_request s' k))"
    using nth_request_step [OF step(2), of k] step.IH covers_statement by fastforce
  ultimately show ?case using inv(2) by blast
qed

text \<open>
  Claim C2. Reuse detection closes everything, under any interleaving: once a replay of a rotated
  token of a user is found (its record is claimed), and whatever other refreshes, logouts, logins
  and revocations run between its statements, when that request is answered every session the
  user had at the moment of detection is off and its refresh token is dead; a live refresh token
  of the user belongs to a session opened since, or to a login about to store its session.
\<close>

theorem reuse_revokes_everything:
  assumes "svc_reachable s0" and "k < length (as_requests s0)"
    and "rq_phase (nth_request s0 k) = Revoking u"
    and "svc_step\<^sup>*\<^sup>* s0 s1" and "rq_phase (nth_request s1 k) = Answered x"
  shows "(\<forall>s \<in> set (sessions (as_db s1)). se_id s \<in> set (session_ids u (as_db s0)) \<longrightarrow>
      \<not> se_active s \<and> se_hash s \<notin> rf_hash ` set (refresh_tokens (as_db s1))) \<and>
    (\<forall>r \<in> set (refresh_tokens (as_db s1)). rf_user r = u \<longrightarrow>
      (\<exists>s \<in> set (sessions (as_db s1)). se_hash s = rf_hash r \<and> se_user s = u \<and>
         se_id s \<notin> set (session_ids u (as_db s0))) \<or>
      (\<exists>i. \<lparr>rq_for = ForLogin u i (rf_hash r), rq_phase = Issuing\<rparr> \<in> set (as_requests s1)))"
proof -
  let ?S = "set (session_ids u (as_db s0))" and ?db = "as_db s1"
  have inv: "svc_inv s1" "k < length (as_requests s1)" "covers u ?S (Answered x)"
    using revocation_covers [OF assms(4) svc_reachable_inv [OF assms(1)] assms(2,3)] assms(5) by auto
  then obtain ids where x: "x = Revoked u ids" "?S \<subseteq> set ids"
    by (cases x) (auto simp: covers_def)
  have "nth_request s1 k \<in> set (as_requests s1)"
    using inv(2) unfolding nth_request_def by (metis length_rev nth_mem set_rev)
  then have "phase_ok ?db (Answered (Revoked u ids))"
    using inv(1) assms(5) x(1) unfolding svc_inv_def by metis
  then have off: "\<forall>s \<in> set (sessions ?db). se_id s \<in> ?S \<longrightarrow>
      \<not> se_active s \<and> se_hash s \<notin> rf_hash ` set (refresh_tokens ?db)"
    using x(2) unfolding phase_ok_def all_off_def marked_def by auto
  have own: "tokens_owned ?db (as_requests s1)"
    using inv(1) unfolding svc_inv_def tables_ok_def by blast
  have "(\<exists>s \<in> set (sessions ?db). se_hash s = rf_hash r \<and> se_user s = u \<and> se_id s \<notin> ?S) \<or>
      (\<exists>i. \<lparr>rq_for = ForLogin u i (rf_hash r), rq_phase = Issuing\<rparr> \<in> set (as_requests s1))"
    if r: "r \<in> set (refresh_tokens ?db)" "rf_user r = u" for r
  proof -
    consider s where "s \<in> set (sessions ?db)" "se_user s = u" "se_hash s = rf_hash r"
      | i where "\<lparr>rq_for = ForLogin u i (rf_hash r), rq_phase = Issuing\<rparr> \<in> set (as_requests s1)"
      using tokens_ownedD(1) [OF own r(1)] r(2) by (auto simp: keys_def)
    then show ?thesis
    proof cases
      case (1 s)
      with off r(1) have "se_id s \<notin> ?S" by auto
      with 1 show ?thesis by blast
    qed blast
  qed
  with off show ?thesis by blast
qed

subsection \<open>A token is exchanged once\<close>

definition exchanged :: "auth_request \<Rightarrow> string option" where
  "exchanged q =
     (case (rq_for q, rq_phase q) of
        (ForRefresh h, Purging r) \<Rightarrow> Some h
      | (ForRefresh h, Answered (Rotated r)) \<Rightarrow> Some h
      | _ \<Rightarrow> None)"

definition exchanges :: "auth_request list \<Rightarrow> string list" where
  "exchanges qs = List.map_filter exchanged qs"

definition live_hashes :: "token_db \<Rightarrow> string set" where
  "live_hashes db = rf_hash ` set (refresh_tokens db)"

lemma exchanged_presented: "exchanged q = Some h \<Longrightarrow> presented (rq_for q) = Some h"
  by (auto simp: exchanged_def presented_def split: purpose.splits request_phase.splits svc_outcome.splits)

lemma statement_live:
  assumes "statement now nh p ph db = (ph', db')"
  shows "live_hashes db' \<subseteq> live_hashes db \<union> {nh} \<union>
    (case p of ForLogin u i h \<Rightarrow> if ph = Arrived then {h} else {} | _ \<Rightarrow> {})"
proof (cases "ph = Arrived \<and> (\<exists>h. p = ForRefresh h)")
  case True
  then obtain h where h: "p = ForRefresh h" "ph = Arrived" by blast
  obtain res d where p: "rotate_tx now nh h db = (res, d)" by (cases "rotate_tx now nh h db")
  show ?thesis
  proof (cases res)
    case None
    with assms h p rotate_tx_None [of now nh h db d] show ?thesis by auto
  next
    case (Some rt)
    from p [unfolded Some] have "live_hashes d \<subseteq> live_hashes db \<union> {nh}"
      by (rule rotate_tx_Some) (auto simp: live_hashes_def)
    with assms h p Some show ?thesis by auto
  qed
next
  case False
  then show ?thesis
    using assms by (cases ph; cases p)
      (auto simp: live_hashes_def claim_rotated_def logout_tx_def presented_def split: option.splits)
qed

lemma statement_exchanged:
  assumes "statement now nh p ph db = (ph', db')"
  obtains "exchanged \<lparr>rq_for = p, rq_phase = ph'\<rparr> = exchanged \<lparr>rq_for = p, rq_phase = ph\<rparr>"
  | h where "exchanged \<lparr>rq_for = p, rq_phase = ph\<rparr> = None" "exchanged \<lparr>rq_for = p, rq_phase = ph'\<rparr> = Some h"
    "h \<in> live_hashes db" "h \<in> live_hashes db' \<longrightarrow> h = nh"
proof (cases "ph = Arrived \<and> (\<exists>h. p = ForRefresh h)")
  case True
  then obtain h where h: "p = ForRefresh h" "ph = Arrived" by blast
  obtain res d where p: "rotate_tx now nh h db = (res, d)" by (cases "rotate_tx now nh h db")
  show ?thesis
  proof (cases res)
    case None
    with assms h p have "exchanged \<lparr>rq_for = p, rq_phase = ph'\<rparr> = exchanged \<lparr>rq_for = p, rq_phase = ph\<rparr>"
      by (auto simp: exchanged_def)
    then show ?thesis by (rule that(1))
  next
    case (Some rt)
    from p [unfolded Some] have "h \<in> live_hashes db \<and> (h \<in> live_hashes d \<longrightarrow> h = nh)"
      by (rule rotate_tx_Some) (auto simp: live_hashes_def)
    with assms h p Some show ?thesis by (intro that(2)) (auto simp: exchanged_def)
  qed
next
  case False
  have "exchanged \<lparr>rq_for = p, rq_phase = ph'\<rparr> = exchanged \<lparr>rq_for = p, rq_phase = ph\<rparr>"
    using False assms by (cases ph; cases p)
      (auto simp: exchanged_def claim_rotated_def logout_tx_def presented_def split: option.splits prod.splits)
  then show ?thesis by (rule that(1))
qed

lemma exchanges_simps [simp]:
  "exchanges [] = []"
  "exchanges (q # qs) = (case exchanged q of None \<Rightarrow> [] | Some h \<Rightarrow> [h]) @ exchanges qs"
  "exchanges (xs @ ys) = exchanges xs @ exchanges ys"
  by (auto simp: exchanges_def List.map_filter_def split: option.splits)

lemma exchanges_member: "h \<in> set (exchanges qs) \<Longrightarrow> \<exists>q \<in> set qs. presented (rq_for q) = Some h"
  using exchanged_presented by (fastforce simp: exchanges_def List.map_filter_def)

definition exchange_inv :: "svc_state \<Rightarrow> bool" where
  "exchange_inv s \<longleftrightarrow>
     distinct (exchanges (as_requests s)) \<and> set (exchanges (as_requests s)) \<inter> live_hashes (as_db s) = {}"

lemma exchange_inv_step:
  assumes inv: "svc_inv s" "exchange_inv s" and st: "svc_step s s'"
  shows "exchange_inv s'"
  using st
proof cases
  case (run xs q ys nh ph db)
  have q: "\<lparr>rq_for = rq_for q, rq_phase = x\<rparr> = q\<lparr>rq_phase := x\<rparr>" "q\<lparr>rq_phase := rq_phase q\<rparr> = q" for x
    by (cases q; simp)+
  have known: "h \<in> set (as_used s) \<and> h \<notin> set (pending_hashes (as_requests s))"
    if "h \<in> set (exchanges (as_requests s))" for h
    using inv(1) exchanges_member [OF that] unfolding svc_inv_def tables_ok_def keys_known_def by blast
  have "h \<in> set (pending_hashes (as_requests s))" if "rq_for q = ForLogin u i h" "rq_phase q = Arrived" for u i h
    using that run(2) by (cases q) (auto intro!: pending_member [THEN conjunct1])
  with statement_live [OF run(4)] have live: "live_hashes db \<subseteq> live_hashes (as_db s) \<union> {nh} \<union>
      set (pending_hashes (as_requests s))"
    by (cases "rq_for q") (auto split: if_splits)
  have old: "set (exchanges (as_requests s)) \<inter> live_hashes db = {}"
    using live known inv(2) run(3) unfolding exchange_inv_def by blast
  from run(4) show ?thesis
  proof (cases rule: statement_exchanged)
    case 1
    then have "exchanges (xs @ q\<lparr>rq_phase := ph\<rparr> # ys) = exchanges (as_requests s)"
      by (simp add: run(2) q)
    with old inv(2) run(1) show ?thesis by (simp add: exchange_inv_def)
  next
    case (2 h)
    then have "h \<notin> set (exchanges (as_requests s))" "exchanged q = None"
      "exchanged (q\<lparr>rq_phase := ph\<rparr>) = Some h"
      using inv(2) by (auto simp: exchange_inv_def q)
    moreover have "h \<in> set (as_used s)"
      using 2(3) inv(1) unfolding svc_inv_def tables_ok_def keys_known_def live_hashes_def by blast
    then have "h \<notin> live_hashes db" using 2(4) run(3) by auto
    ultimately show ?thesis
      using old inv(2) run(1,2) by (auto simp: exchange_inv_def)
  qed
qed (use inv(2) in \<open>auto simp: exchange_inv_def arrive_def exchanged_def split: purpose.splits\<close>)

text \<open>
  Claim C1. Under any interleaving of refreshes, logouts, logins and revocations a refresh token
  is exchanged at most once: no two requests, whenever they present it, are both given a new one,
  and a token that was exchanged is never live again.
\<close>

theorem token_exchanged_once:
  assumes "svc_reachable s"
  shows "distinct (exchanges (as_requests s)) \<and>
    (\<forall>h \<in> set (exchanges (as_requests s)). h \<notin> live_hashes (as_db s))"
proof -
  have "exchange_inv s"
    using assms
  proof (induction rule: svc_reachable.induct)
    case (start us t)
    then show ?case by (simp add: exchange_inv_def svc_start_def)
  qed (use exchange_inv_step svc_reachable_inv in blast)
  then show ?thesis by (auto simp: exchange_inv_def)
qed

subsection \<open>Every request is answered\<close>

fun left :: "request_phase \<Rightarrow> nat" where
  "left Arrived = 7"
| "left Lost = 6"
| "left (Revoking u) = 5"
| "left (SessionsSeen u ids) = 4"
| "left (SessionsOff u ids) = 3"
| "left (TokensSeen u ids hs) = 2"
| "left (SessionOff h) = 2"
| "left (Purging r) = 1"
| "left Issuing = 1"
| "left (TokenGone h) = 1"
| "left (Answered x) = 0"

lemma statement_left:
  assumes "statement now nh p ph db = (ph', db')"
  shows "left ph' < left ph \<or> (\<exists>x. ph = Answered x \<and> ph' = ph)"
  using assms by (cases ph; cases p)
    (auto simp: claim_rotated_def split: option.splits prod.splits purpose.splits)

lemma nth_request_left:
  assumes "svc_step s s'" and "k < length (as_requests s)"
  shows "k < length (as_requests s') \<and>
    left (rq_phase (nth_request s' k)) \<le> left (rq_phase (nth_request s k))"
  using nth_request_step [OF assms] statement_left by (metis auth_request.select_convs(2)
      auth_request.surjective auth_request.update_convs(2) less_imp_le order_refl)

text \<open>The k-th request executes its statement in this step.\<close>

definition executes :: "nat \<Rightarrow> svc_state \<Rightarrow> svc_state \<Rightarrow> bool" where
  "executes k s s' \<longleftrightarrow>
     (\<exists>nh ph. statement (as_now s) nh (rq_for (nth_request s k)) (rq_phase (nth_request s k)) (as_db s) =
        (ph, as_db s') \<and> nth_request s' k = (nth_request s k)\<lparr>rq_phase := ph\<rparr>)"

text \<open>
  Every request is answered: in any infinite run of the service in which the statements
  of a request are executed again and again, whatever the other requests do in between, the
  request reaches an answer, after at most seven statements of its own, and keeps it.
\<close>

lemma requests_answered:
  assumes "\<forall>n. svc_step (run n) (run (Suc n))" and "k < length (as_requests (run 0))"
    and "\<forall>n. \<exists>m \<ge> n. executes k (run m) (run (Suc m))"
  shows "\<exists>n x. \<forall>m \<ge> n. rq_phase (nth_request (run m) k) = Answered x"
proof -
  let ?ph = "\<lambda>n. rq_phase (nth_request (run n) k)"
  have k: "k < length (as_requests (run n))" for n
    by (induction n) (use assms(1,2) nth_request_left in blast)+
  have mono: "left (?ph (n + d)) \<le> left (?ph n)" for n d :: nat
    by (induction d) (use nth_request_left [OF assms(1) [rule_format] k] le_trans in \<open>auto, blast\<close>)
  have "\<exists>j x. ?ph j = Answered x" for n :: nat
  proof (induction "left (?ph n)" arbitrary: n rule: less_induct)
    case less
    obtain m where m: "n \<le> m" "executes k (run m) (run (Suc m))" using assms(3) by blast
    have le: "left (?ph m) \<le> left (?ph n)" using mono [of n "m - n"] m(1) by simp
    from m(2) obtain nh ph where st: "statement (as_now (run m)) nh (rq_for (nth_request (run m) k)) (?ph m)
        (as_db (run m)) = (ph, as_db (run (Suc m)))" and ph: "?ph (Suc m) = ph"
      by (auto simp: executes_def)
    from statement_left [OF st] show ?case
      using less [of "Suc m"] le ph by auto
  qed
  then obtain n x where n: "?ph n = Answered x" by blast
  have "?ph (n + d) = Answered x" for d
  proof (induction d)
    case (Suc d)
    have "nth_request (run (Suc (n + d))) k = nth_request (run (n + d)) k \<or> ?ph (Suc (n + d)) = Answered x"
      using nth_request_step [OF assms(1) [rule_format] k, of "n + d"] Suc by auto
    with Suc show ?case by auto
  qed (simp add: n)
  then show ?thesis by (metis le_add_diff_inverse)
qed

subsection \<open>Alone, a request does what the function does\<close>

fun alone :: "nat \<Rightarrow> int \<Rightarrow> string \<Rightarrow> purpose \<Rightarrow> request_phase \<Rightarrow> token_db \<Rightarrow> request_phase \<times> token_db" where
  "alone 0 now nh p ph db = (ph, db)"
| "alone (Suc n) now nh p ph db = (case statement now nh p ph db of (ph', db') \<Rightarrow> alone n now nh p ph' db')"

lemma revoke_all_snapshots:
  assumes "distinct (map se_id (sessions db))" and "distinct (map rf_hash (refresh_tokens db))"
  shows "drop_tokens (\<lambda>r. rf_hash r \<in> set (token_hashes u db))
      (deactivate (\<lambda>s. se_id s \<in> set (session_ids u db)) db) = revokeAllUserSessions u db"
proof -
  have "se_id s \<in> set (session_ids u db) \<longleftrightarrow> se_user s = u" if "s \<in> set (sessions db)" for s
    using assms(1) that by (auto simp: session_ids_def distinct_map dest: inj_onD)
  moreover have "rf_hash r \<in> set (token_hashes u db) \<longleftrightarrow> rf_user r = u" if "r \<in> set (refresh_tokens db)" for r
    using assms(2) that by (auto simp: token_hashes_def distinct_map dest: inj_onD)
  ultimately show ?thesis
    by (simp add: drop_tokens_def deactivate_def revokeAllUserSessions_def cong: map_cong filter_cong)
qed

lemma token_hashes_cong: "refresh_tokens db' = refresh_tokens db \<Longrightarrow> token_hashes u db' = token_hashes u db"
  by (simp add: token_hashes_def)

lemma session_ids_cong: "sessions db' = sessions db \<Longrightarrow> session_ids u db' = session_ids u db"
  by (simp add: session_ids_def)

text \<open>
  The statements refine the functions: a refresh, a logout or a revocation whose
  statements run without another's in between ends, after at most seven of them, with the answer
  and the tables of \<open>rotateRefreshToken\<close>, \<open>revokeRefreshTokenForLogout\<close> and
  \<open>revokeAllUserSessions\<close>.
\<close>

lemma statements_refine:
  assumes "distinct (map se_id (sessions db))" and "distinct (map rf_hash (refresh_tokens db))"
  shows "alone 7 now nh (ForRefresh h) Arrived db =
      (Answered (case fst (rotateRefreshToken now nh h db) of
          RotationOk r \<Rightarrow> Rotated r | RotationInvalid \<Rightarrow> NothingFound
        | RotationReused u \<Rightarrow> Revoked u (session_ids u db)), snd (rotateRefreshToken now nh h db)) \<and>
    alone 7 now nh (ForLogout h) Arrived db =
      (Answered (case fst (revokeRefreshTokenForLogout h db) of
          LogoutRevoked u \<Rightarrow> LoggedOut u | LogoutNone \<Rightarrow> NothingFound
        | LogoutReused u \<Rightarrow> Revoked u (session_ids u db)), snd (revokeRefreshTokenForLogout h db)) \<and>
    alone 7 now nh (ForRevokeAll u) Arrived db =
      (Answered (Revoked u (session_ids u db)), revokeAllUserSessions u db)"
proof -
  have rev: "drop_tokens (\<lambda>r. rf_hash r \<in> set (token_hashes v d))
      (deactivate (\<lambda>s. se_id s \<in> set (session_ids v db)) d) = revokeAllUserSessions v d"
    if "sessions d = sessions db" "refresh_tokens d = refresh_tokens db" for d v
    using revoke_all_snapshots [of d v] that assms session_ids_cong [OF that(1)] by simp
  have "token_hashes v (deactivate P d) = token_hashes v d" for v P d by (rule token_hashes_cong) simp
  note simps = this rev numeral_eq_Suc presented_def
  have lost: "alone 6 now nh p Lost db = (Answered (case revokeOnRotatedTokenReuse h db of
        (None, d) \<Rightarrow> NothingFound | (Some v, d) \<Rightarrow> Revoked v (session_ids v db)), snd (revokeOnRotatedTokenReuse h db))"
    if "presented p = Some h" for p
    using that by (auto simp: simps revokeOnRotatedTokenReuse_def claim_rotated_def
        session_ids_cong [of "drop_rotated _ db" db] split: option.splits)
  have seven: "(7::nat) = Suc 6" by simp
  have "alone 7 now nh (ForRefresh h) Arrived db =
      (Answered (case fst (rotateRefreshToken now nh h db) of
          RotationOk r \<Rightarrow> Rotated r | RotationInvalid \<Rightarrow> NothingFound
        | RotationReused u \<Rightarrow> Revoked u (session_ids u db)), snd (rotateRefreshToken now nh h db))"
  proof (cases "rotate_tx now nh h db")
    case (Pair res d)
    show ?thesis
    proof (cases res)
      case None
      with Pair rotate_tx_None [of now nh h db d] show ?thesis
        unfolding seven alone.simps statement.simps first_statement.simps rotateRefreshToken_def
        by (simp add: lost presented_def split: prod.splits option.splits)
    next
      case (Some r)
      with Pair show ?thesis by (simp add: numeral_eq_Suc rotateRefreshToken_def)
    qed
  qed
  moreover have "alone 7 now nh (ForLogout h) Arrived db =
      (Answered (case fst (revokeRefreshTokenForLogout h db) of
          LogoutRevoked u \<Rightarrow> LoggedOut u | LogoutNone \<Rightarrow> NothingFound
        | LogoutReused u \<Rightarrow> Revoked u (session_ids u db)), snd (revokeRefreshTokenForLogout h db))"
  proof (cases "logout_tx h db")
    case (Pair res d)
    show ?thesis
    proof (cases res)
      case None
      with Pair have "d = db" by (auto simp: logout_tx_def split: option.splits)
      with Pair None show ?thesis
        unfolding seven alone.simps statement.simps first_statement.simps revokeRefreshTokenForLogout_def
        by (simp add: lost presented_def split: prod.splits option.splits)
    next
      case (Some u)
      with Pair show ?thesis by (simp add: numeral_eq_Suc revokeRefreshTokenForLogout_def)
    qed
  qed
  moreover have "alone 7 now nh (ForRevokeAll u) Arrived db =
      (Answered (Revoked u (session_ids u db)), revokeAllUserSessions u db)"
    by (simp add: simps)
  ultimately show ?thesis by blast
qed

subsection \<open>A run, step by step\<close>

datatype auth_event =
    Presents purpose
  | LogsIn int string string
  | Runs nat string \<comment> \<open>the request at this place of the list, and the random token at hand\<close>

definition run_at :: "nat \<Rightarrow> string \<Rightarrow> svc_state \<Rightarrow> svc_state" where
  "run_at k nh s =
     (let q = as_requests s ! k;
          r = statement (as_now s) nh (rq_for q) (rq_phase q) (as_db s)
      in s\<lparr>as_db := snd r, as_requests := (as_requests s)[k := q\<lparr>rq_phase := fst r\<rparr>],
           as_used := nh # as_used s\<rparr>)"

definition perform :: "auth_event \<Rightarrow> svc_state \<Rightarrow> svc_state option" where
  "perform e s =
     (case e of
        Presents p \<Rightarrow>
          (case presented p of
             Some h \<Rightarrow> if h \<notin> set (pending_hashes (as_requests s))
               then Some ((arrive p s)\<lparr>as_used := h # as_used s\<rparr>) else None
           | None \<Rightarrow> None)
      | LogsIn u sid h \<Rightarrow>
          if h \<notin> set (as_used s) \<and> sid \<notin> set (as_sids s)
          then Some ((arrive (ForLogin u sid h) s)\<lparr>as_used := h # as_used s, as_sids := sid # as_sids s\<rparr>)
          else None
      | Runs k nh \<Rightarrow>
          if k < length (as_requests s) \<and> nh \<notin> set (as_used s) then Some (run_at k nh s) else None)"

fun perform_all :: "auth_event list \<Rightarrow> svc_state \<Rightarrow> svc_state option" where
  "perform_all [] s = Some s"
| "perform_all (e # es) s = (case perform e s of Some s' \<Rightarrow> perform_all es s' | None \<Rightarrow> None)"

lemma run_at_step:
  assumes "k < length (as_requests s)" and "nh \<notin> set (as_used s)"
  shows "svc_step s (run_at k nh s)"
proof -
  let ?q = "as_requests s ! k"
  obtain ph db where st: "statement (as_now s) nh (rq_for ?q) (rq_phase ?q) (as_db s) = (ph, db)"
    by (cases "statement (as_now s) nh (rq_for ?q) (rq_phase ?q) (as_db s)")
  have "svc_step s (s\<lparr>as_db := db,
      as_requests := take k (as_requests s) @ ?q\<lparr>rq_phase := ph\<rparr> # drop (Suc k) (as_requests s),
      as_used := nh # as_used s\<rparr>)"
    using id_take_nth_drop [OF assms(1)] assms(2) st by (rule svc_step.run)
  with st assms(1) show ?thesis by (simp add: run_at_def upd_conv_take_nth_drop)
qed

lemma perform_step: "perform e s = Some s' \<Longrightarrow> svc_step s s'"
  by (auto simp: perform_def intro: run_at_step svc_step.present svc_step.login
      split: auth_event.splits option.splits if_splits)

lemma perform_all_steps: "perform_all es s = Some s' \<Longrightarrow> svc_step\<^sup>*\<^sup>* s s'"
  by (induction es arbitrary: s)
    (auto split: option.splits intro: converse_rtranclp_into_rtranclp dest: perform_step)

lemma svc_reachable_steps: "svc_step\<^sup>*\<^sup>* s s' \<Longrightarrow> svc_reachable s \<Longrightarrow> svc_reachable s'"
  by (induction rule: rtranclp_induct) (auto intro: svc_reachable.step)

text \<open>A login, a refresh, and the old token presented again.\<close>

definition sample_user :: user_row where
  "sample_user = \<lparr>u_id = 7, u_email = ''ann@atlas.io'', u_password = ''hash'', u_name = ''Ann'',
     u_role = ''employee'', u_department = Some ''General'', u_position = Some ''Staff'', u_tenant = Some ''acme'',
     u_enabled = Some True, u_password_changed_at = None, u_created = 0, u_updated = 0\<rparr>"

definition replay_events :: "auth_event list" where
  "replay_events =
     [LogsIn 7 ''s1'' ''h1'', Runs 0 ''r1'', Runs 0 ''r2'', Presents (ForRefresh ''h1''), Runs 0 ''h2'',
      Runs 0 ''r3'', Presents (ForRefresh ''h1''), Runs 0 ''r4'', Runs 0 ''r5'']"

definition revoke_events :: "auth_event list" where
  "revoke_events = [Runs 0 ''r6'', Runs 0 ''r7'', Runs 0 ''r8'', Runs 0 ''r9'']"

definition replay_state :: svc_state where
  "replay_state = the (perform_all replay_events (svc_start [sample_user] 0))"

definition revoked_state :: svc_state where
  "revoked_state = the (perform_all revoke_events replay_state)"

lemma replay_run:
  "perform_all replay_events (svc_start [sample_user] 0) = Some replay_state"
  "perform_all revoke_events replay_state = Some revoked_state"
  by code_simp+

lemma replay_reachable: "svc_reachable replay_state" "svc_step\<^sup>*\<^sup>* replay_state revoked_state"
  using replay_run perform_all_steps svc_reachable_steps svc_reachable.start by blast+

theorem reuse_revokes_everything_witness:
  "session_ids 7 (as_db replay_state) = [''s1''] \<and> live_hashes (as_db replay_state) = {''h2''} \<and>
   list_all (\<lambda>s. \<not> se_active s \<and> se_hash s \<notin> rf_hash ` set (refresh_tokens (as_db revoked_state)))
     (filter (\<lambda>s. se_id s = ''s1'') (sessions (as_db revoked_state)))"
proof -
  have s: "session_ids 7 (as_db replay_state) = [''s1'']" "live_hashes (as_db replay_state) = {''h2''}"
    "2 < length (as_requests replay_state)" "rq_phase (nth_request replay_state 2) = Revoking 7"
    "rq_phase (nth_request revoked_state 2) = Answered (Revoked 7 [''s1''])"
    by code_simp+
  show ?thesis
    using reuse_revokes_everything [OF replay_reachable(1) s(3,4) replay_reachable(2) s(5)] s(1,2)
    by (simp add: list_all_iff)
qed

theorem token_exchanged_once_witness:
  "exchanges (as_requests revoked_state) = [''h1''] \<and> ''h1'' \<notin> live_hashes (as_db revoked_state)"
proof -
  have "exchanges (as_requests revoked_state) = [''h1'']" by code_simp
  moreover have "svc_reachable revoked_state" using svc_reachable_steps replay_reachable by blast
  ultimately show ?thesis using token_exchanged_once [of revoked_state] by simp
qed

lemma statements_refine_witness:
  "alone 7 0 ''h9'' (ForRefresh ''h2'') Arrived (as_db replay_state) =
     (Answered (case fst (rotateRefreshToken 0 ''h9'' ''h2'' (as_db replay_state)) of
        RotationOk r \<Rightarrow> Rotated r | RotationInvalid \<Rightarrow> NothingFound
      | RotationReused u \<Rightarrow> Revoked u (session_ids u (as_db replay_state))),
      snd (rotateRefreshToken 0 ''h9'' ''h2'' (as_db replay_state)))"
proof -
  have "distinct (map se_id (sessions (as_db replay_state)))"
    "distinct (map rf_hash (refresh_tokens (as_db replay_state)))"
    by code_simp+
  from statements_refine [OF this] show ?thesis by blast
qed

text \<open>A run in which one request is served again and again.\<close>

fun lone_run :: "nat \<Rightarrow> svc_state" where
  "lone_run 0 = (arrive (ForRevokeAll 7) (svc_start [] 0))"
| "lone_run (Suc n) = run_at 0 (replicate n (CHR ''x'')) (lone_run n)"

lemma lone_run_state:
  "\<exists>q. as_requests (lone_run n) = [q] \<and> set (as_used (lone_run n)) = (\<lambda>i. replicate i (CHR ''x'')) ` {..<n}"
proof (induction n)
  case 0
  show ?case by (simp add: arrive_def svc_start_def)
next
  case (Suc n)
  then show ?case by (auto simp: run_at_def Let_def lessThan_Suc)
qed

lemma requests_answered_witness:
  "\<exists>n x. \<forall>m \<ge> n. rq_phase (nth_request (lone_run m) 0) = Answered x"
proof (rule requests_answered)
  have one: "length (as_requests (lone_run n)) = 1" "replicate n (CHR ''x'') \<notin> set (as_used (lone_run n))" for n
    using lone_run_state [of n] by auto
  show "\<forall>n. svc_step (lone_run n) (lone_run (Suc n))"
  proof
    fix n
    have "0 < length (as_requests (lone_run n))" using one(1) [of n] by simp
    from run_at_step [OF this one(2)] show "svc_step (lone_run n) (lone_run (Suc n))" by simp
  qed
  show "0 < length (as_requests (lone_run 0))" using one(1) [of 0] by simp
  have "executes 0 (lone_run n) (lone_run (Suc n))" for n
  proof -
    obtain q where "as_requests (lone_run n) = [q]" using lone_run_state by blast
    then show ?thesis
      unfolding executes_def nth_request_def
      by (intro exI [of _ "replicate n (CHR ''x'')"]
          exI [of _ "fst (statement (as_now (lone_run n)) (replicate n (CHR ''x'')) (rq_for q) (rq_phase q)
            (as_db (lone_run n)))"]) (simp add: run_at_def Let_def)
  qed
  then show "\<forall>n. \<exists>m \<ge> n. executes 0 (lone_run m) (lone_run (Suc m))" by blast
qed

end
