(* ===== verification/Auth_World.thy ===== *)
theory Auth_World
  imports Auth_Tokens Service_Base
begin

section \<open>The auth service: requests, replies and what the handlers share\<close>

text \<open>
  \<open>services/auth-service/index.js\<close> as handlers from a request and the state of the service to a
  reply and a new state. The state is the rows of the tables the handlers use, redis and the
  counters of the rate limiter. Parameters, in \<open>auth_env\<close>: bcrypt, SHA-256, jsonwebtoken, the
  TOTP check of otplib, \<open>JSON.stringify\<close> and the clock, which stands still during a request.
  Random values are drawn before a request (\<open>draws\<close>). A failing PostgreSQL is not modelled: the
  handlers answer it with 500; nor are the lengths of its columns. Audit events and metrics do not change the state and are left out.
\<close>

subsection \<open>Parameters\<close>

datatype jwt_key = SessionKey | StepUpKey

record auth_env =
  ae_now :: int
  ae_sha256 :: "string \<Rightarrow> string"
  ae_matches :: "string \<Rightarrow> string \<Rightarrow> bool" \<comment> \<open>\<open>bcrypt.compare\<close> of strings\<close>
  ae_bcrypt :: "string \<Rightarrow> string \<Rightarrow> string" \<comment> \<open>salt and password\<close>
  ae_sign :: "jwt_key \<Rightarrow> jsv \<Rightarrow> string"
  ae_verify :: "string \<Rightarrow> jwt_answer" \<comment> \<open>with the session key\<close>
  ae_verify_challenge :: "string \<Rightarrow> jwt_answer" \<comment> \<open>and audience and issuer of a challenge\<close>
  ae_verify_internal :: "string \<Rightarrow> jwt_answer" \<comment> \<open>with the key of the services\<close>
  ae_decode :: "string \<Rightarrow> jsv option" \<comment> \<open>\<open>jwt.decode\<close>, no signature checked\<close>
  ae_totp :: "jsv \<Rightarrow> string \<Rightarrow> bool" \<comment> \<open>\<open>authenticator.check\<close>\<close>
  ae_stringify :: "jsv \<Rightarrow> string" \<comment> \<open>what the driver of PostgreSQL sends for a value\<close>
  ae_uuid :: "string \<Rightarrow> string option" \<comment> \<open>the UUID PostgreSQL reads from a text\<close>
  ae_iso :: "int \<Rightarrow> string" \<comment> \<open>\<open>toISOString\<close>\<close>

record draws =
  dr_refresh :: string
  dr_session :: string
  dr_jti :: string
  dr_csrf :: string
  dr_salt :: string
  dr_secret :: string
  dr_codes :: "string list"
  dr_key :: "string \<times> string" \<comment> \<open>id and secret of an API key\<close>

subsection \<open>State\<close>

record failed_row =
  fa_attempts :: nat
  fa_locked_until :: "int option"
  fa_updated :: int

record mfa_row =
  mf_secret :: string
  mf_codes :: "jsv list" \<comment> \<open>strings, or objects with a \<open>code\<close>\<close>
  mf_enabled :: bool
  mf_shown :: bool
  mf_expires :: "int option"

record device_row =
  dv_id :: int
  dv_user :: int
  dv_device :: string
  dv_name :: "string option"
  dv_type :: "string option"
  dv_os :: "string option"
  dv_browser :: "string option"
  dv_ip :: string
  dv_fingerprint :: string
  dv_trusted :: bool
  dv_used :: "int option"
  dv_created :: int

text \<open>The columns of \<open>sessions\<close> that are not in the token tables.\<close>

record session_meta =
  sm_ip :: string
  sm_agent :: string
  sm_device :: "string option"
  sm_created :: int
  sm_expires :: int

record reset_token_row =
  rs_user :: int
  rs_hash :: string
  rs_expires :: int
  rs_used :: bool

record magic_row =
  mg_user :: int
  mg_hash :: string
  mg_expires :: int
  mg_used :: bool

text \<open>A counter of the rate limiter: the count, and the start of its window.\<close>

type_synonym counters = "(string, nat \<times> int) js_map"

record auth_world =
  aw_db :: token_db
  aw_next_user :: int
  aw_failed :: "(string, failed_row) js_map"
  aw_history :: history
  aw_policies :: "(string, jsv) js_map"
  aw_mfa :: "(int, mfa_row) js_map"
  aw_devices :: "device_row list"
  aw_next_device :: int
  aw_sessions :: "(string, session_meta) js_map"
  aw_resets :: "reset_token_row list"
  aw_magic :: "magic_row list" \<comment> \<open>newest first\<close>
  aw_keys :: "api_key_row list" \<comment> \<open>newest first\<close>
  aw_redis :: redis
  aw_redis_ready :: bool
  aw_shared_counters :: counters \<comment> \<open>the keys \<open>rl:\<close> of redis\<close>
  aw_local_counters :: counters \<comment> \<open>\<open>rateLimitStore\<close>\<close>

subsection \<open>Requests and replies\<close>

record auth_http =
  hq_body :: jsv
  hq_headers :: "(string, string) js_map"
  hq_cookies :: "(string, string) js_map"
  hq_ip :: string \<comment> \<open>\<open>req.ip\<close>\<close>
  hq_params :: "(string, string) js_map"
  hq_query :: jsv

record auth_reply =
  rp_status :: nat
  rp_body :: jsv
  rp_set :: "(string \<times> string) list" \<comment> \<open>cookies set\<close>
  rp_cleared :: "string list"

definition reply :: "nat \<Rightarrow> jsv \<Rightarrow> auth_reply" where
  "reply st body = \<lparr>rp_status = st, rp_body = body, rp_set = [], rp_cleared = []\<rparr>"

definition message_of :: "string \<Rightarrow> jsv" where
  "message_of m = JObj [(''message'', JStr m)]"

definition failure :: "nat \<Rightarrow> string \<Rightarrow> auth_reply" where
  "failure st m = reply st (message_of m)"

text \<open>What Express answers when a handler throws outside its \<open>try\<close>.\<close>

definition uncaught :: auth_reply where "uncaught = reply 500 JUndef"

text \<open>\<open>req.body\<close> is \<open>undefined\<close> when the request has no JSON body; destructuring it throws.\<close>

definition body_field :: "auth_http \<Rightarrow> string \<Rightarrow> jsv" where
  "body_field q k = get_field (hq_body q) k"

definition header_of :: "auth_http \<Rightarrow> string \<Rightarrow> string option" where
  "header_of q k = map_get (hq_headers q) k"

definition bearer_of :: "auth_http \<Rightarrow> string option" where
  "bearer_of q =
     (case header_of q ''authorization'' of
        Some h \<Rightarrow> if starts_with h ''Bearer '' then Some (drop 7 h) else None
      | None \<Rightarrow> None)"

type_synonym handler = "auth_env \<Rightarrow> draws \<Rightarrow> auth_http \<Rightarrow> auth_world \<Rightarrow> auth_reply \<times> auth_world"

text \<open>A parameter of a statement as PostgreSQL stores it in a text column.\<close>

definition pg_text :: "auth_env \<Rightarrow> jsv \<Rightarrow> string" where
  "pg_text env v = (case v of JStr s \<Rightarrow> s | _ \<Rightarrow> ae_stringify env v)"

text \<open>\<open>bcrypt.compare\<close> rejects when the candidate is not a string.\<close>

definition bcrypt_compare :: "auth_env \<Rightarrow> jsv \<Rightarrow> string \<Rightarrow> bool option" where
  "bcrypt_compare env password h =
     (case password of JStr p \<Rightarrow> Some (ae_matches env p h) | _ \<Rightarrow> None)"

lemma bcrypt_compare_Some:
  "bcrypt_compare env v h = Some b \<longleftrightarrow> (\<exists>p. v = JStr p \<and> b = ae_matches env p h)"
  by (auto simp: bcrypt_compare_def split: jsv.splits)

definition store_unavailable :: auth_reply where
  "store_unavailable =
     reply 503 (JObj [(''code'', JStr ''auth_store_unavailable''), (''retryable'', JBool True),
       (''message'', JStr ''Authentication temporarily unavailable, please retry shortly'')])"

definition getClientIp :: "auth_http \<Rightarrow> string" where
  "getClientIp q =
     (case header_of q ''x-real-client-ip'' of
        Some f \<Rightarrow> if trim f \<noteq> [] then trim (hd (split_on (CHR '','') (trim f))) else hq_ip q
      | None \<Rightarrow> hq_ip q)"

text \<open>\<open>parseInt(v, 10)\<close>: a sign and the digits up to the first other character.\<close>

definition parse_int :: "jsv \<Rightarrow> int option" where
  "parse_int v =
     (let s = dropWhile is_ws (js_string v);
          neg = (s \<noteq> [] \<and> hd s = CHR ''-'');
          digits = takeWhile is_digit (if s \<noteq> [] \<and> (hd s = CHR ''-'' \<or> hd s = CHR ''+'') then tl s else s)
      in if digits = [] then None
         else Some (if neg then - int (digits_val digits) else int (digits_val digits)))"

subsection \<open>Users\<close>

definition user_by_email :: "string \<Rightarrow> auth_world \<Rightarrow> user_row option" where
  "user_by_email e w = find (\<lambda>u. u_email u = e) (users (aw_db w))"

definition user_by_id :: "int \<Rightarrow> auth_world \<Rightarrow> user_row option" where
  "user_by_id i w = find (\<lambda>u. u_id u = i) (users (aw_db w))"

lemma find_Some_set: "find P xs = Some x \<Longrightarrow> x \<in> set xs \<and> P x"
  by (induction xs) (auto split: if_splits)

lemma find_map_keeping:
  assumes "\<And>x. P (f x) = P x"
  shows "find P (map f xs) = map_option f (find P xs)"
  by (induction xs) (auto simp: assms)

lemma user_by_id_Some: "user_by_id i w = Some u \<Longrightarrow> u_id u = i \<and> u \<in> set (users (aw_db w))"
  by (auto simp: user_by_id_def dest: find_Some_set)

definition tenant_or_default :: "string option \<Rightarrow> string" where
  "tenant_or_default t = (if falsy_string t then ''default'' else the t)"

definition null_or :: "string option \<Rightarrow> jsv" where
  "null_or s = (case s of Some x \<Rightarrow> JStr x | None \<Rightarrow> JNull)"

definition sanitizeUser :: "user_row \<Rightarrow> jsv" where
  "sanitizeUser u =
     JObj [(''id'', JNum (of_int (u_id u))), (''email'', JStr (u_email u)), (''name'', JStr (u_name u)),
       (''role'', JStr (u_role u)), (''department'', null_or (u_department u)),
       (''position'', null_or (u_position u)), (''tenant_id'', JStr (tenant_or_default (u_tenant u)))]"

text \<open>A SQL \<open>UPDATE users ... WHERE id = $1\<close>.\<close>

definition update_user :: "int \<Rightarrow> (user_row \<Rightarrow> user_row) \<Rightarrow> auth_world \<Rightarrow> auth_world" where
  "update_user i f w =
     w\<lparr>aw_db := (aw_db w)\<lparr>users := map (\<lambda>u. if u_id u = i then f u else u) (users (aw_db w))\<rparr>\<rparr>"

definition getPasswordPolicyForTenant :: "auth_world \<Rightarrow> string option \<Rightarrow> password_policy" where
  "getPasswordPolicyForTenant w t =
     (let tid = trim (tenant_or_default t); tid = (if tid = [] then ''default'' else tid)
      in case map_get (aw_policies w) tid of
           Some row \<Rightarrow> clampPasswordPolicy row | None \<Rightarrow> DEFAULT_PASSWORD_POLICY)"

definition setUserPassword :: "auth_env \<Rightarrow> draws \<Rightarrow> history_write \<Rightarrow> int \<Rightarrow> string \<Rightarrow> auth_world \<Rightarrow> auth_world" where
  "setUserPassword env d hw i password w =
     (let h = ae_bcrypt env (dr_salt d) password;
          w1 = update_user i (\<lambda>u. u\<lparr>u_password := h, u_password_changed_at := Some (ae_now env), u_updated := ae_now env\<rparr>) w
      in w1\<lparr>aw_history := recordPasswordHistory hw (string_of_int i) h (aw_history w1)\<rparr>)"

subsection \<open>Tokens\<close>

text \<open>\<open>jwt.sign\<close> adds the time of issue and of expiry, in seconds.\<close>

definition signed_claims :: "auth_env \<Rightarrow> int \<Rightarrow> (string \<times> jsv) list \<Rightarrow> jsv" where
  "signed_claims env seconds claims =
     JObj (claims @ [(''iat'', JNum (of_int (ae_now env div 1000))),
       (''exp'', JNum (of_int (ae_now env div 1000 + seconds)))])"

definition access_claims :: "auth_env \<Rightarrow> user_row \<Rightarrow> string option \<Rightarrow> string \<Rightarrow> jsv" where
  "access_claims env u sid jti =
     signed_claims env (15 * 60)
       ([(''id'', JNum (of_int (u_id u))), (''email'', JStr (u_email u)), (''role'', JStr (u_role u)),
         (''tenant_id'', JStr (tenant_or_default (u_tenant u))), (''jti'', JStr jti)] @
        (if falsy_string sid then [] else [(''sid'', JStr (the sid))]))"

definition signAccessToken :: "auth_env \<Rightarrow> draws \<Rightarrow> user_row \<Rightarrow> string option \<Rightarrow> string" where
  "signAccessToken env d u sid = ae_sign env SessionKey (access_claims env u sid (dr_jti d))"

definition subject_claims :: "string \<Rightarrow> string \<Rightarrow> (string \<times> jsv) list" where
  "subject_claims userId tenantId =
     [(''sub'', JStr userId), (''user_id'', JStr userId), (''id'', JStr userId),
      (''tenant_id'', JStr tenantId)]"

text \<open>The step-up token is signed for the payload of a session token.\<close>

definition step_up_token_claims :: "auth_env \<Rightarrow> jsv \<Rightarrow> string \<Rightarrow> jsv" where
  "step_up_token_claims env payload jti =
     signed_claims env (5 * 60)
       (subject_claims
          (js_string (coalesce (get_field payload ''id'')
             (coalesce (get_field payload ''user_id'') (get_field payload ''sub''))))
          (js_string (coalesce (get_field payload ''tenant_id'')
             (coalesce (get_field payload ''tenantId'') (JStr ''default'')))) @
        [(''mfa_validated'', JBool True), (''purpose'', JStr ''mfa_step_up''),
         (''aud'', JStr ''mfa-step-up''), (''iss'', JStr ''atlas-auth''), (''jti'', JStr jti)])"

definition signMfaToken :: "auth_env \<Rightarrow> draws \<Rightarrow> jsv \<Rightarrow> string" where
  "signMfaToken env d payload = ae_sign env StepUpKey (step_up_token_claims env payload (dr_jti d))"

definition challenge_claims :: "auth_env \<Rightarrow> user_row \<Rightarrow> string \<Rightarrow> jsv" where
  "challenge_claims env u jti =
     signed_claims env (5 * 60)
       (subject_claims (string_of_int (u_id u))
          (case u_tenant u of Some t \<Rightarrow> t | None \<Rightarrow> ''default'') @
        [(''email'', JStr (u_email u)), (''purpose'', JStr ''mfa_challenge''),
         (''aud'', JStr ''mfa-challenge''), (''iss'', JStr ''atlas-auth''), (''jti'', JStr jti)])"

definition signMfaChallengeToken :: "auth_env \<Rightarrow> draws \<Rightarrow> user_row \<Rightarrow> string" where
  "signMfaChallengeToken env d u = ae_sign env SessionKey (challenge_claims env u (dr_jti d))"

definition with_cookies :: "(string \<times> string) list \<Rightarrow> auth_reply \<Rightarrow> auth_reply" where
  "with_cookies cs a = a\<lparr>rp_set := cs\<rparr>"

text \<open>The cookies of a session; \<open>mintCsrfCookie\<close> draws the second.\<close>

definition session_cookies :: "draws \<Rightarrow> (string \<times> string) list" where
  "session_cookies d = [(''refreshToken'', dr_refresh d), (''csrf_token'', dr_csrf d)]"

definition session_columns :: "auth_env \<Rightarrow> auth_http \<Rightarrow> session_meta" where
  "session_columns env q =
     \<lparr>sm_ip = hq_ip q,
      sm_agent = (case header_of q ''user-agent'' of Some s \<Rightarrow> s | None \<Rightarrow> []),
      sm_device = (case header_of q ''x-device-id'' of Some s \<Rightarrow> if s = [] then None else Some s | None \<Rightarrow> None),
      sm_created = ae_now env, sm_expires = ae_now env + REFRESH_EXPIRY_DAYS * day_ms\<rparr>"

definition issueLoginSession ::
  "auth_env \<Rightarrow> draws \<Rightarrow> auth_http \<Rightarrow> user_row \<Rightarrow> auth_world \<Rightarrow> string \<times> auth_world"
where
  "issueLoginSession env d q u w =
     (signAccessToken env d u (Some (dr_session d)),
      w\<lparr>aw_db := issue_session (ae_now env) (dr_session d) (u_id u)
          (ae_sha256 env (dr_refresh d)) (aw_db w),
        aw_sessions := map_set (dr_session d) (session_columns env q) (aw_sessions w)\<rparr>)"

subsection \<open>Guards\<close>

definition csrf_refusal :: auth_reply where
  "csrf_refusal =
     reply 403 (JObj [(''message'', JStr ''CSRF token validation failed''),
       (''detail'', JStr (''This endpoint authenticates with cookies and requires the csrf_token '' @
          ''cookie echoed in the x-csrf-token header''))])"

definition is_challenge_payload :: "jsv \<Rightarrow> bool" where
  "is_challenge_payload payload \<longleftrightarrow>
     get_field payload ''purpose'' = JStr ''mfa_challenge'' \<or>
     get_field payload ''aud'' = JStr ''mfa-challenge''"

definition requireRole :: "auth_env \<Rightarrow> string list \<Rightarrow> auth_http \<Rightarrow> auth_reply + jsv" where
  "requireRole env roles q =
     (case bearer_of q of
        None \<Rightarrow> Inl (failure 401 ''Authentication required'')
      | Some token \<Rightarrow>
          (case ae_verify env token of
             VerifyFails _ \<Rightarrow> Inl (failure 401 ''Invalid or expired token'')
           | Verified payload \<Rightarrow>
               if is_challenge_payload payload then
                 Inl (failure 401 ''MFA challenge token not valid for this endpoint'')
               else if roles \<noteq> [] \<and> get_field payload ''role'' \<notin> JStr ` set roles then
                 Inl (failure 403 ''Insufficient permissions'')
               else Inr payload))"

definition requireCsrfDoubleSubmit :: "auth_http \<Rightarrow> auth_reply option" where
  "requireCsrfDoubleSubmit q =
     (if bearer_of q \<noteq> None then None
      else
        (case (map_get (hq_cookies q) ''csrf_token'', header_of q ''x-csrf-token'') of
           (Some c, Some h) \<Rightarrow>
             if c \<noteq> [] \<and> h \<noteq> [] \<and> h = c then None
             else Some csrf_refusal
         | _ \<Rightarrow> Some csrf_refusal))"

subsection \<open>The rate limiter\<close>

text \<open>
  A hit on the counters of a request. In redis the count starts anew when its window has ended (the
  key expires); a script that throws makes the limiter fall back to the counters of the process,
  where a window ends when more than its length has passed.
\<close>

definition hit_shared :: "int \<Rightarrow> int \<Rightarrow> string \<Rightarrow> counters \<Rightarrow> counters" where
  "hit_shared now window key m =
     (case map_get m key of
        Some (n, t) \<Rightarrow> if now < t + window then map_set key (n + 1, t) m else map_set key (1, now) m
      | None \<Rightarrow> map_set key (1, now) m)"

definition hit_local :: "int \<Rightarrow> int \<Rightarrow> string \<Rightarrow> counters \<Rightarrow> counters" where
  "hit_local now window key m =
     (case map_get m key of
        Some (n, t) \<Rightarrow> if now - t > window then map_set key (1, now) m else map_set key (n + 1, t) m
      | None \<Rightarrow> map_set key (1, now) m)"

definition limiter_keys :: "string \<Rightarrow> bool \<Rightarrow> jsv option \<Rightarrow> auth_http \<Rightarrow> string list" where
  "limiter_keys action keyByEmail usr q =
     (let uid = (case usr of Some p \<Rightarrow> get_field p ''id'' | None \<Rightarrow> JUndef);
          identifier = (if truthy uid then js_string uid else getClientIp q)
      in [identifier @ '':'' @ action] @
         (if keyByEmail \<and> truthy (body_field q ''email'')
          then [''email:'' @ trim (to_lower (js_string (body_field q ''email''))) @ '':'' @ action]
          else []))"

text \<open>The highest count, and the start of its window.\<close>

definition top_entry :: "int \<Rightarrow> counters \<Rightarrow> string list \<Rightarrow> nat \<times> int" where
  "top_entry now m keys =
     foldl (\<lambda>(n, t) k. case map_get m k of
                          Some (n', t') \<Rightarrow> if n < n' then (n', t') else (n, t)
                        | None \<Rightarrow> (n, t)) (0, now) keys"

definition too_many :: "int \<Rightarrow> auth_reply" where
  "too_many ms =
     reply 429 (JObj [(''message'', JStr ''Too many requests. Please try again later.''),
       (''retryAfter'', JNum (of_int \<lceil>of_int ms / (1000 :: rat)\<rceil>))])"

text \<open>\<open>None\<close> when the request passes; the headers of the limiter are left out.\<close>

definition userRateLimiter ::
  "string \<Rightarrow> nat \<Rightarrow> bool \<Rightarrow> auth_env \<Rightarrow> jsv option \<Rightarrow> auth_http \<Rightarrow> auth_world \<Rightarrow> auth_reply option \<times> auth_world"
where
  "userRateLimiter action maxRequests keyByEmail env usr q w =
     (let keys = limiter_keys action keyByEmail usr q; window = 15 * 60 * 1000;
          shared = aw_redis_ready w \<and> \<not> redis_throws (aw_redis w);
          w' = (if shared
                then w\<lparr>aw_shared_counters := fold (hit_shared (ae_now env) window) keys (aw_shared_counters w)\<rparr>
                else w\<lparr>aw_local_counters := fold (hit_local (ae_now env) window) keys (aw_local_counters w)\<rparr>);
          (n, start) = top_entry (ae_now env)
            (if shared then aw_shared_counters w' else aw_local_counters w') keys
      in (if maxRequests < n then Some (too_many (start + window - ae_now env)) else None, w'))"

text \<open>The middlewares of a route before its handler.\<close>

definition limited :: "string \<Rightarrow> nat \<Rightarrow> bool \<Rightarrow> handler \<Rightarrow> handler" where
  "limited action maxRequests keyByEmail h env d q w =
     (case userRateLimiter action maxRequests keyByEmail env None q w of
        (Some a, w') \<Rightarrow> (a, w')
      | (None, w') \<Rightarrow> h env d q w')"

definition signed_in ::
  "string list \<Rightarrow> string \<Rightarrow> nat \<Rightarrow> (jsv \<Rightarrow> handler) \<Rightarrow> handler"
where
  "signed_in roles action maxRequests h env d q w =
     (case requireRole env roles q of
        Inl a \<Rightarrow> (a, w)
      | Inr payload \<Rightarrow>
          (case userRateLimiter action maxRequests False env (Some payload) q w of
             (Some a, w') \<Rightarrow> (a, w')
           | (None, w') \<Rightarrow> h payload env d q w'))"

lemma limiter_keeps:
  assumes "userRateLimiter action n k env usr q w = (x, w')"
  shows "w' = w\<lparr>aw_shared_counters := aw_shared_counters w', aw_local_counters := aw_local_counters w'\<rparr>"
  using assms by (auto simp: userRateLimiter_def Let_def split: if_splits prod.splits)

end
