(* ===== verification/Auth_Login.thy ===== *)
theory Auth_Login
  imports Auth_World
begin

section \<open>The auth service: registration, login, refresh and logout\<close>

text \<open>
  The handlers of \<open>POST /register\<close>, \<open>/login\<close>, \<open>/refresh\<close> and \<open>/logout\<close> of
  \<open>services/auth-service/index.js\<close>, with the lock of an account after failed logins.
\<close>

subsection \<open>Failed attempts\<close>

definition MAX_FAILED_ATTEMPTS :: nat where "MAX_FAILED_ATTEMPTS = 5"
definition LOCKOUT_MINUTES :: int where "LOCKOUT_MINUTES = 15"

definition normalizeFailedAttemptEmail :: "string \<Rightarrow> string" where
  "normalizeFailedAttemptEmail email = take 255 (to_lower (trim email))"

definition recordFailedAttempt :: "int \<Rightarrow> string \<Rightarrow> auth_world \<Rightarrow> auth_world" where
  "recordFailedAttempt now email w =
     (let key = normalizeFailedAttemptEmail email
      in if key = [] then w
         else
           w\<lparr>aw_failed := map_set key
               (case map_get (aw_failed w) key of
                  None \<Rightarrow> \<lparr>fa_attempts = 1, fa_locked_until = None, fa_updated = now\<rparr>
                | Some r \<Rightarrow>
                    \<lparr>fa_attempts = fa_attempts r + 1,
                     fa_locked_until =
                       (if MAX_FAILED_ATTEMPTS \<le> fa_attempts r + 1
                        then Some (now + LOCKOUT_MINUTES * 60 * 1000) else fa_locked_until r),
                     fa_updated = now\<rparr>) (aw_failed w)\<rparr>)"

definition clearFailedAttempts :: "string \<Rightarrow> auth_world \<Rightarrow> auth_world" where
  "clearFailedAttempts email w =
     (let key = normalizeFailedAttemptEmail email
      in if key = [] then w else w\<lparr>aw_failed := AList.delete key (aw_failed w)\<rparr>)"

definition isAccountLocked :: "int \<Rightarrow> string \<Rightarrow> auth_world \<Rightarrow> bool \<times> auth_world" where
  "isAccountLocked now email w =
     (let key = normalizeFailedAttemptEmail email; cleared = w\<lparr>aw_failed := AList.delete key (aw_failed w)\<rparr>
      in if key = [] then (False, w)
         else
           (case map_get (aw_failed w) key of
              None \<Rightarrow> (False, w)
            | Some r \<Rightarrow>
                (case fa_locked_until r of
                   Some t \<Rightarrow> if now < t then (True, w) else (False, cleared)
                 | None \<Rightarrow> if 60 * 60 * 1000 < now - fa_updated r then (False, cleared) else (False, w))))"

text \<open>The sweep every ten minutes, and that of the counters every minute.\<close>

definition sweep_failed :: "int \<Rightarrow> auth_world \<Rightarrow> auth_world" where
  "sweep_failed now w =
     w\<lparr>aw_failed := filter (\<lambda>(k, r). case fa_locked_until r of
         None \<Rightarrow> \<not> fa_updated r < now - 60 * 60 * 1000 | Some t \<Rightarrow> \<not> t < now) (aw_failed w)\<rparr>"

definition sweep_counters :: "int \<Rightarrow> auth_world \<Rightarrow> auth_world" where
  "sweep_counters now w =
     w\<lparr>aw_local_counters := filter (\<lambda>(k, n, t). \<not> 30 * 60 * 1000 < now - t) (aw_local_counters w)\<rparr>"

subsection \<open>Registration\<close>

definition register_route :: handler where
  "register_route env d q w =
     (let email = body_field q ''email''; password = body_field q ''password''; name = body_field q ''name''
      in if hq_body q = JUndef then (uncaught, w)
         else if \<not> truthy email \<or> \<not> truthy password \<or> \<not> truthy name then
           (failure 400 ''Email, password, and name are required'', w)
         else
           (case validateEmail email of
              Some e \<Rightarrow> (failure 400 e, w)
            | None \<Rightarrow>
                (case validatePassword password (policy_value (getPasswordPolicyForTenant w (Some ''default''))) of
                   Some e \<Rightarrow> (reply 400 (JObj [(''message'', JStr e), (''field'', JStr ''password'')]), w)
                 | None \<Rightarrow>
                     (case (user_by_email (normalizeEmail email) w, password) of
                        (Some u, _) \<Rightarrow> (failure 400 ''User already exists'', w)
                      | (None, JStr p) \<Rightarrow>
                          (let h = ae_bcrypt env (dr_salt d) p;
                               u = \<lparr>u_id = aw_next_user w, u_email = normalizeEmail email, u_password = h,
                                    u_name = pg_text env name, u_role = ''employee'',
                                    u_department = Some (pg_text env (js_or (body_field q ''department'') (JStr ''General''))),
                                    u_position = Some (pg_text env (js_or (body_field q ''position'') (JStr ''Staff''))),
                                    u_tenant = Some ''default'', u_enabled = Some True,
                                    u_password_changed_at = Some (ae_now env),
                                    u_created = ae_now env, u_updated = ae_now env\<rparr>
                           in (reply 201 (JObj [(''message'', JStr ''User registered successfully''),
                                 (''user'', sanitizeUser u)]),
                               w\<lparr>aw_db := (aw_db w)\<lparr>users := users (aw_db w) @ [u]\<rparr>,
                                 aw_next_user := aw_next_user w + 1,
                                 aw_history := recordPasswordHistory HistoryStored (string_of_int (u_id u)) h
                                   (aw_history w)\<rparr>))
                      | (None, _) \<Rightarrow> (failure 500 ''Server error during registration'', w)))))"

subsection \<open>Login\<close>

definition device_trust :: "auth_env \<Rightarrow> auth_http \<Rightarrow> user_row \<Rightarrow> auth_world \<Rightarrow> bool \<times> auth_world" where
  "device_trust env q u w =
     (let dev = header_of q ''x-device-id''; fpr = header_of q ''x-device-fingerprint''
      in if falsy_string dev \<or> falsy_string fpr then (False, w)
         else
           (case find (\<lambda>r. dv_user r = u_id u \<and> dv_device r = the dev \<and> dv_fingerprint r = the fpr) (aw_devices w) of
              None \<Rightarrow> (False, w)
            | Some r \<Rightarrow>
                (dv_trusted r,
                 w\<lparr>aw_devices := map (\<lambda>x. if dv_user x = u_id u \<and> dv_device x = the dev
                     then x\<lparr>dv_used := Some (ae_now env), dv_ip := hq_ip q\<rparr> else x) (aw_devices w)\<rparr>)))"

definition mfa_required :: "int \<Rightarrow> auth_world \<Rightarrow> bool" where
  "mfa_required i w = (case map_get (aw_mfa w) i of Some r \<Rightarrow> mf_enabled r | None \<Rightarrow> False)"

definition optional_number :: "int option \<Rightarrow> jsv" where
  "optional_number n = (case n of Some i \<Rightarrow> JNum (of_int i) | None \<Rightarrow> JNull)"

definition password_status_fields :: "expiry_status \<Rightarrow> (string \<times> jsv) list" where
  "password_status_fields p =
     [(''password_expired'', JBool (es_expired p)),
      (''days_until_password_expiry'', optional_number (es_days_until_expiry p)),
      (''password_max_age_days'', optional_number (es_max_age_days p))]"

definition mfa_key :: "string \<Rightarrow> string" where "mfa_key jti = ''mfa_challenge:'' @ jti"

definition storeMfaChallengeJti :: "int \<Rightarrow> redis \<Rightarrow> string \<Rightarrow> int \<Rightarrow> bool \<times> redis" where
  "storeMfaChallengeJti now r jti userId =
     (if redis_answers r
      then (True, redis_setnx (of_int now) (mfa_key jti) (string_of_int userId) (of_int now + 300 * 1000) r)
      else (False, r))"

text \<open>The bodies of the two answers of a login.\<close>

definition challenge_body :: "auth_env \<Rightarrow> draws \<Rightarrow> user_row \<Rightarrow> expiry_status \<Rightarrow> jsv" where
  "challenge_body env d u st =
     JObj ([(''message'', JStr ''MFA required''), (''mfa_required'', JBool True),
       (''mfa_challenge_token'', JStr (signMfaChallengeToken env d u))] @ password_status_fields st)"

definition session_body :: "auth_env \<Rightarrow> draws \<Rightarrow> user_row \<Rightarrow> bool \<Rightarrow> expiry_status \<Rightarrow> jsv" where
  "session_body env d u trusted st =
     JObj ([(''message'', JStr ''Logged in successfully''),
       (''token'', JStr (signAccessToken env d u (Some (dr_session d)))),
       (''session_id'', JStr (dr_session d)), (''user'', sanitizeUser u),
       (''device_trusted'', JBool trusted), (''mfa_required'', JBool False)] @ password_status_fields st)"

text \<open>The end of a login whose password was right.\<close>

definition login_accepted :: "user_row \<Rightarrow> handler" where
  "login_accepted u env d q w =
     (let st = passwordExpiryStatus (u_password_changed_at u)
            (max_age_days (getPasswordPolicyForTenant w (Some (tenant_or_default (u_tenant u))))) (ae_now env)
      in case device_trust env q u w of
           (trusted, w1) \<Rightarrow>
             if mfa_required (u_id u) w1 then
               (let challenge = signMfaChallengeToken env d u;
                    jti = (case ae_decode env challenge of Some p \<Rightarrow> get_field p ''jti'' | None \<Rightarrow> JUndef)
                in if \<not> truthy jti then (store_unavailable, w1)
                   else
                     (case storeMfaChallengeJti (ae_now env) (aw_redis w1) (js_string jti) (u_id u) of
                        (False, r) \<Rightarrow> (store_unavailable, w1)
                      | (True, r) \<Rightarrow>
                          (reply 200 (challenge_body env d u st), w1\<lparr>aw_redis := r\<rparr>)))
             else
               (case issueLoginSession env d q u w1 of
                  (_, w2) \<Rightarrow>
                    (with_cookies (session_cookies d) (reply 200 (session_body env d u trusted st)), w2)))"

definition login_route :: handler where
  "login_route env d q w =
     (let email = body_field q ''email''; password = body_field q ''password''
      in if hq_body q = JUndef then (uncaught, w)
         else if \<not> truthy email \<or> \<not> truthy password then (failure 400 ''Email and password are required'', w)
         else
           (case validateEmail email of
              Some e \<Rightarrow> (failure 400 e, w)
            | None \<Rightarrow>
                (case isAccountLocked (ae_now env) (normalizeEmail email) w of
                   (True, w1) \<Rightarrow> (failure 423 ''Account locked. Try again in 15 minutes.'', w1)
                 | (False, w1) \<Rightarrow>
                     (case user_by_email (normalizeEmail email) w1 of
                        None \<Rightarrow> (failure 401 ''Invalid credentials'', w1)
                      | Some u \<Rightarrow>
                          if \<not> u_active u then (failure 403 ''Account is deactivated'', w1)
                          else
                            (case bcrypt_compare env password (u_password u) of
                               None \<Rightarrow> (failure 500 ''Server error during login'', w1)
                             | Some False \<Rightarrow>
                                 (failure 401 ''Invalid credentials'',
                                  recordFailedAttempt (ae_now env) (normalizeEmail email) w1)
                             | Some True \<Rightarrow>
                                 login_accepted u env d q (clearFailedAttempts (normalizeEmail email) w1))))))"

subsection \<open>Refresh and logout\<close>

definition refresh_route :: handler where
  "refresh_route env d q w =
     (if falsy_string (map_get (hq_cookies q) ''refreshToken'') then
        (failure 400 ''Refresh token is required'', w)
      else
        (case rotateRefreshToken (ae_now env) (ae_sha256 env (dr_refresh d))
                (ae_sha256 env (the (map_get (hq_cookies q) ''refreshToken''))) (aw_db w) of
           (RotationReused u, db) \<Rightarrow>
             (failure 401 ''Token reuse detected. All sessions revoked.'', w\<lparr>aw_db := db\<rparr>)
         | (RotationInvalid, db) \<Rightarrow>
             (failure 401 ''Invalid or expired refresh token'', w\<lparr>aw_db := db\<rparr>)
         | (RotationOk r, db) \<Rightarrow>
             (with_cookies (session_cookies d)
                (reply 200 (JObj [(''message'', JStr ''Token refreshed''),
                   (''token'', JStr (signAccessToken env d (rt_user r) (rt_session r))),
                   (''user'', sanitizeUser (rt_user r))])), w\<lparr>aw_db := db\<rparr>)))"

text \<open>The keys a logout puts on the denylist; the token is decoded, not verified.\<close>

definition logout_keys :: "auth_env \<Rightarrow> auth_http \<Rightarrow> string list" where
  "logout_keys env q =
     (let payload = (case bearer_of q of Some t \<Rightarrow> ae_decode env t | None \<Rightarrow> None);
          claim = (\<lambda>k. case payload of Some p \<Rightarrow> get_field p k | None \<Rightarrow> JUndef);
          jti = (if truthy (claim ''jti'') then [''denylist:jti:'' @ js_string (claim ''jti'')] else []);
          sid = (if truthy (claim ''sid'') then [''denylist:sid:'' @ js_string (claim ''sid'')] else []);
          header = header_of q ''x-session-id''
      in fold set_add (jti @ sid @
           (if falsy_string header then [] else [''denylist:sid:'' @ the header])) [])"

definition denylist :: "int \<Rightarrow> string list \<Rightarrow> redis \<Rightarrow> redis" where
  "denylist now keys r = fold (\<lambda>k. redis_set k ''1'' (of_int now + 15 * 60 * 1000)) keys r"

definition logged_out :: auth_reply where
  "logged_out = (reply 200 (message_of ''Logged out successfully''))\<lparr>rp_cleared := [''refreshToken'', ''csrf_token'']\<rparr>"

definition logout_route :: handler where
  "logout_route env d q w =
     (let tok = map_get (hq_cookies q) ''refreshToken''; sid = header_of q ''x-session-id'';
          w1 = (if falsy_string tok then w
                else w\<lparr>aw_db := snd (revokeRefreshTokenForLogout (ae_sha256 env (the tok)) (aw_db w))\<rparr>)
      in if \<not> falsy_string sid \<and> ae_uuid env (the sid) = None then
           (failure 500 ''Server error during logout'', w1)
         else
           (let w2 = (if falsy_string sid then w1
                      else w1\<lparr>aw_db := deactivate (\<lambda>s. Some (se_id s) = ae_uuid env (the sid)) (aw_db w1)\<rparr>);
                keys = logout_keys env q
            in if keys = [] then (logged_out, w2)
               else if \<not> redis_answers (aw_redis w2) then (store_unavailable, w2)
               else (logged_out, w2\<lparr>aw_redis := denylist (ae_now env) keys (aw_redis w2)\<rparr>)))"

text \<open>The routes with their middlewares.\<close>

definition csrf_checked :: "handler \<Rightarrow> handler" where
  "csrf_checked h env d q w =
     (case requireCsrfDoubleSubmit q of Some a \<Rightarrow> (a, w) | None \<Rightarrow> h env d q w)"

definition POST_register :: handler where "POST_register = limited ''register'' 10 True register_route"
definition POST_login :: handler where "POST_login = limited ''login'' 20 True login_route"
definition POST_refresh :: handler where "POST_refresh = limited ''refresh'' 100 False (csrf_checked refresh_route)"
definition POST_logout :: handler where "POST_logout = limited ''logout'' 100 False (csrf_checked logout_route)"


subsection \<open>The lock\<close>

lemma map_of_filter_distinct:
  "distinct (map fst m) \<Longrightarrow> map_of (filter P m) k =
     (case map_of m k of Some v \<Rightarrow> if P (k, v) then Some v else None | None \<Rightarrow> None)"
  by (induction m) (auto simp: map_of_eq_None_iff split: option.splits)

text \<open>The row of an account, and what a handler makes of it.\<close>

definition failed_of :: "string \<Rightarrow> auth_world \<Rightarrow> failed_row option" where
  "failed_of e w = map_get (aw_failed w) (normalizeFailedAttemptEmail e)"

definition reset_row :: "int \<Rightarrow> failed_row option \<Rightarrow> failed_row option" where
  "reset_row now f =
     (case f of
        None \<Rightarrow> None
      | Some r \<Rightarrow>
          (case fa_locked_until r of
             Some t \<Rightarrow> if now < t then f else None
           | None \<Rightarrow> if 60 * 60 * 1000 < now - fa_updated r then None else f))"

definition row_locks :: "int \<Rightarrow> failed_row option \<Rightarrow> bool" where
  "row_locks now f = (case f of Some r \<Rightarrow> (case fa_locked_until r of Some t \<Rightarrow> now < t | None \<Rightarrow> False) | None \<Rightarrow> False)"

lemma isAccountLocked_row:
  assumes "normalizeFailedAttemptEmail e \<noteq> []"
  shows "fst (isAccountLocked now e w) = row_locks now (failed_of e w)"
    and "failed_of e (snd (isAccountLocked now e w)) = reset_row now (failed_of e w)"
  using assms
  by (auto simp: isAccountLocked_def failed_of_def row_locks_def reset_row_def Let_def delete_conv'
      split: option.splits)

lemma recordFailedAttempt_row:
  assumes "normalizeFailedAttemptEmail e \<noteq> []"
  shows "failed_of e (recordFailedAttempt now e w) = Some
     (case failed_of e w of
        None \<Rightarrow> \<lparr>fa_attempts = 1, fa_locked_until = None, fa_updated = now\<rparr>
      | Some r \<Rightarrow> \<lparr>fa_attempts = fa_attempts r + 1,
          fa_locked_until = (if 5 \<le> fa_attempts r + 1 then Some (now + 15 * 60 * 1000) else fa_locked_until r),
          fa_updated = now\<rparr>)"
  using assms
  by (auto simp: recordFailedAttempt_def failed_of_def Let_def MAX_FAILED_ATTEMPTS_def LOCKOUT_MINUTES_def
      split: option.splits)

definition login_email :: "auth_http \<Rightarrow> string" where
  "login_email q = normalizeEmail (body_field q ''email'')"

text \<open>A guess: a known account answered with 401. Accepted: the password was right.\<close>

definition is_guess :: "auth_http \<Rightarrow> auth_world \<Rightarrow> auth_reply \<Rightarrow> bool" where
  "is_guess q w a \<longleftrightarrow> rp_status a = 401 \<and> user_by_email (login_email q) w \<noteq> None"

definition is_accepted :: "auth_reply \<Rightarrow> bool" where
  "is_accepted a \<longleftrightarrow> rp_status a \<in> {200, 503}"

lemma reply_status [simp]:
  "rp_status (reply st b) = st" "rp_status (failure st m) = st" "rp_status (with_cookies cs a) = rp_status a"
  "rp_status uncaught = 500" "rp_status store_unavailable = 503"
  by (simp_all add: reply_def failure_def with_cookies_def uncaught_def store_unavailable_def)

lemma login_accepted_status:
  "rp_status (fst (login_accepted u env d q w)) \<in> {200, 503}"
  by (auto simp: login_accepted_def Let_def split: prod.splits bool.splits)

lemma login_accepted_failed: "aw_failed (snd (login_accepted u env d q w)) = aw_failed w"
proof -
  have "aw_failed (snd (device_trust env q u w)) = aw_failed w"
    by (auto simp: device_trust_def Let_def split: option.splits)
  then show ?thesis
    by (auto simp: login_accepted_def issueLoginSession_def Let_def split: prod.splits bool.splits)
qed

lemma trim_no_ws: "list_all (\<lambda>c. \<not> is_ws c) s \<Longrightarrow> trim s = s"
proof -
  have d: "dropWhile is_ws xs = xs" if "list_all (\<lambda>c. \<not> is_ws c) xs" for xs
    using that by (cases xs) auto
  assume "list_all (\<lambda>c. \<not> is_ws c) s"
  then show ?thesis by (simp add: trim_def d list_all_rev)
qed

lemma email_key:
  assumes "validateEmail v = None"
  shows "normalizeFailedAttemptEmail (normalizeEmail v) \<noteq> []"
proof -
  have shape: "email_shape (normalizeEmail v)"
    using assms by (auto simp: validateEmail_def split: jsv.splits if_splits)
  then have "list_all (\<lambda>c. \<not> is_ws c) (normalizeEmail v)" "normalizeEmail v \<noteq> []"
    by (auto simp: email_shape_def list_ex_iff list_all_iff split: list.splits)
  then show ?thesis by (simp add: normalizeFailedAttemptEmail_def trim_no_ws to_lower_def)
qed

definition judged :: "auth_http \<Rightarrow> auth_world \<Rightarrow> auth_reply \<Rightarrow> int \<Rightarrow> int list \<Rightarrow> int list" where
  "judged q w a t ts = (if is_guess q w a then t # ts else if is_accepted a then [] else ts)"

lemma locked_keeps:
  "aw_db (snd (isAccountLocked now e w)) = aw_db w" "aw_mfa (snd (isAccountLocked now e w)) = aw_mfa w"
  "aw_redis (snd (isAccountLocked now e w)) = aw_redis w"
  by (auto simp: isAccountLocked_def Let_def split: option.splits)

lemma failed_keeps:
  "aw_db (clearFailedAttempts e w) = aw_db w" "aw_mfa (clearFailedAttempts e w) = aw_mfa w"
  "aw_redis (clearFailedAttempts e w) = aw_redis w" "aw_db (recordFailedAttempt now e w) = aw_db w"
  by (simp_all add: clearFailedAttempts_def recordFailedAttempt_def Let_def)

text \<open>A login is refused for its form, or judged by the lock and the password.\<close>

definition login_verdict ::
  "auth_env \<Rightarrow> draws \<Rightarrow> auth_http \<Rightarrow> bool \<Rightarrow> auth_world \<Rightarrow> auth_reply \<times> auth_world"
where
  "login_verdict env d q locked w =
     (if locked then (failure 423 ''Account locked. Try again in 15 minutes.'', w)
      else
        (case user_by_email (login_email q) w of
           None \<Rightarrow> (failure 401 ''Invalid credentials'', w)
         | Some u \<Rightarrow>
             if \<not> u_active u then (failure 403 ''Account is deactivated'', w)
             else
               (case bcrypt_compare env (body_field q ''password'') (u_password u) of
                  None \<Rightarrow> (failure 500 ''Server error during login'', w)
                | Some False \<Rightarrow>
                    (failure 401 ''Invalid credentials'', recordFailedAttempt (ae_now env) (login_email q) w)
                | Some True \<Rightarrow> login_accepted u env d q (clearFailedAttempts (login_email q) w))))"

lemma login_cases:
  assumes "login_route env d q w = (a, w')"
  obtains (refused) "w' = w" "a = uncaught \<or> (\<exists>m. a = failure 400 m)"
  | (judged) l w1 where "normalizeFailedAttemptEmail (login_email q) \<noteq> []"
      "isAccountLocked (ae_now env) (login_email q) w = (l, w1)" "(a, w') = login_verdict env d q l w1"
proof (cases "hq_body q = JUndef \<or> \<not> truthy (body_field q ''email'') \<or>
    \<not> truthy (body_field q ''password'') \<or> validateEmail (body_field q ''email'') \<noteq> None")
  case True
  then show ?thesis
    using assms refused by (auto simp: login_route_def Let_def split: if_splits option.splits)
next
  case False
  obtain l w1 where l: "isAccountLocked (ae_now env) (login_email q) w = (l, w1)" by fastforce
  then have "login_route env d q w = login_verdict env d q l w1"
    using False unfolding login_route_def Let_def login_verdict_def login_email_def
    by (simp split: bool.splits option.splits)
  then show ?thesis
    using judged [OF _ l] assms email_key False by (auto simp: login_email_def)
qed

lemma login_row:
  assumes "login_route env d q w = (a, w')"
  defines "e \<equiv> login_email q" and "now \<equiv> ae_now env"
  shows "failed_of e w' = failed_of e w \<and> \<not> is_guess q w a \<or>
    (\<not> row_locks now (failed_of e w) \<and>
      (failed_of e w' = reset_row now (failed_of e w) \<and> \<not> is_guess q w a \<or>
       failed_of e w' = None \<and> is_accepted a \<and> \<not> is_guess q w a \<or>
       is_guess q w a \<and> failed_of e w' = Some
         (case reset_row now (failed_of e w) of
            None \<Rightarrow> \<lparr>fa_attempts = 1, fa_locked_until = None, fa_updated = now\<rparr>
          | Some r \<Rightarrow> \<lparr>fa_attempts = fa_attempts r + 1,
              fa_locked_until = (if 5 \<le> fa_attempts r + 1 then Some (now + 15 * 60 * 1000) else fa_locked_until r),
              fa_updated = now\<rparr>)))"
  using assms(1)
proof (cases rule: login_cases)
  case refused
  then show ?thesis by (auto simp: is_guess_def)
next
  case (judged l w1)
  note key = judged(1) [folded e_def]
  note lock = isAccountLocked_row(1,2) [OF key, of now w]
  have w1: "isAccountLocked now e w = (l, w1)" using judged(2) by (simp add: e_def now_def)
  have locked: "row_locks now (failed_of e w) = l" and row: "failed_of e w1 = reset_row now (failed_of e w)"
    and db: "user_by_email e w1 = user_by_email e w"
    using lock(1,2) w1 locked_keeps(1) [of now e w] by (simp_all add: user_by_email_def)
  show ?thesis
  proof (cases "l \<or> user_by_email e w = None")
    case True
    then show ?thesis
      using judged(3) locked row db
      by (auto simp: login_verdict_def is_guess_def reset_row_def row_locks_def simp flip: e_def split: option.splits)
  next
    case False
    then obtain u where u: "user_by_email e w = Some u" "\<not> l" by blast
    have res: "(a, w') = (if \<not> u_active u then (failure 403 ''Account is deactivated'', w1)
       else (case bcrypt_compare env (body_field q ''password'') (u_password u) of
           None \<Rightarrow> (failure 500 ''Server error during login'', w1)
         | Some False \<Rightarrow> (failure 401 ''Invalid credentials'', recordFailedAttempt now e w1)
         | Some True \<Rightarrow> login_accepted u env d q (clearFailedAttempts e w1)))"
      using judged(3) u db unfolding login_verdict_def e_def now_def by (simp only: if_False option.case)
    have known: "user_by_email (login_email q) w = Some u" "\<not> row_locks now (failed_of e w)"
      using u locked by (simp_all add: e_def)
    show ?thesis
    proof (cases "bcrypt_compare env (body_field q ''password'') (u_password u)")
      case None
      then show ?thesis using res known row by (auto simp: is_guess_def split: if_splits)
    next
      case (Some ok)
      have "failed_of e (clearFailedAttempts e w1) = None"
        using key by (simp add: failed_of_def clearFailedAttempts_def Let_def delete_conv')
      then have f: "failed_of e w' = None \<and> is_accepted a \<and> \<not> is_guess q w a"
        if "login_accepted u env d q (clearFailedAttempts e w1) = (a, w')"
        using login_accepted_status [of u env d q "clearFailedAttempts e w1"]
          login_accepted_failed [of u env d q "clearFailedAttempts e w1"] that
        by (auto simp: is_accepted_def is_guess_def failed_of_def)
      show ?thesis
        using res known row Some f recordFailedAttempt_row [OF key, of now w1]
        by (cases ok) (auto simp: is_guess_def split: if_splits)
    qed
  qed
qed

text \<open>
  What has happened to an account \<open>e\<close>: the times of the guesses since its password was last given
  right, newest first, and the time now. Between the logins for \<open>e\<close> anything may happen that
  leaves its row alone: other requests, other accounts, a change of the users. A row that is
  gone starts anew (a login with the right password, a password reset).
\<close>

inductive tries :: "string \<Rightarrow> auth_world \<Rightarrow> int list \<Rightarrow> int \<Rightarrow> bool" for e where
  fresh: "failed_of e w = None \<Longrightarrow> tries e w [] now"
| elsewhere: "tries e w ts now \<Longrightarrow> now \<le> now' \<Longrightarrow> failed_of e w' = failed_of e w \<Longrightarrow> tries e w' ts now'"
| swept: "tries e w ts now \<Longrightarrow> now \<le> now' \<Longrightarrow> distinct (map fst (aw_failed w)) \<Longrightarrow>
    tries e (sweep_failed now' w) ts now'"
| attempt: "tries e w ts now \<Longrightarrow> now \<le> ae_now env \<Longrightarrow> login_email q = e \<Longrightarrow>
    login_route env d q w = (a, w') \<Longrightarrow> tries e w' (judged q w a (ae_now env) ts) (ae_now env)"

definition in_window :: "int \<Rightarrow> int list \<Rightarrow> int list" where
  "in_window t0 ts = filter (\<lambda>t. t0 \<le> t \<and> t < t0 + 15 * 60 * 1000) ts"

text \<open>The counted guesses are the newest; those before them are a quarter of an hour older.\<close>

definition row_counts :: "int list \<Rightarrow> int \<Rightarrow> failed_row option \<Rightarrow> bool" where
  "row_counts ts now f \<longleftrightarrow>
     (case f of
        None \<Rightarrow> \<forall>x \<in> set ts. x + 15 * 60 * 1000 \<le> now
      | Some r \<Rightarrow>
          fa_attempts r \<le> 5 \<and> fa_updated r \<le> now \<and>
          (\<forall>y \<in> set (take (fa_attempts r) ts). y \<le> fa_updated r) \<and>
          (\<forall>x \<in> set (drop (fa_attempts r) ts). x + 15 * 60 * 1000 \<le> fa_updated r \<and>
             (\<forall>y \<in> set (take (fa_attempts r) ts). x + 15 * 60 * 1000 \<le> y)) \<and>
          fa_locked_until r = (if fa_attempts r = 5 then Some (fa_updated r + 15 * 60 * 1000) else None))"

definition spaced :: "int list \<Rightarrow> int \<Rightarrow> failed_row option \<Rightarrow> bool" where
  "spaced ts now f \<longleftrightarrow>
     (\<forall>t \<in> set ts. t \<le> now) \<and> (\<forall>t0. length (in_window t0 ts) \<le> 5) \<and> row_counts ts now f"

lemma row_counts_later: "row_counts ts now f \<Longrightarrow> now \<le> now' \<Longrightarrow> row_counts ts now' f"
  by (fastforce simp: row_counts_def split: option.splits)

lemma spaced_later: "spaced ts now f \<Longrightarrow> now \<le> now' \<Longrightarrow> spaced ts now' f"
  using row_counts_later by (fastforce simp: spaced_def)

lemma row_counts_old:
  assumes "row_counts ts now (Some r)" and "fa_updated r + 15 * 60 * 1000 \<le> now"
  shows "row_counts ts now None"
proof -
  have "x + 15 * 60 * 1000 \<le> now" if "x \<in> set ts" for x
  proof -
    have "x \<in> set (take (fa_attempts r) ts) \<or> x \<in> set (drop (fa_attempts r) ts)"
      using that set_append [of "take (fa_attempts r) ts" "drop (fa_attempts r) ts"] by auto
    then show ?thesis using assms by (fastforce simp: row_counts_def)
  qed
  then show ?thesis by (simp add: row_counts_def)
qed

lemma row_counts_reset:
  assumes "row_counts ts now f"
  shows "row_counts ts now (reset_row now f)"
proof (cases f)
  case None
  then show ?thesis using assms by (simp add: reset_row_def)
next
  case (Some r)
  then have "reset_row now f = f \<or> reset_row now f = None \<and> fa_updated r + 15 * 60 * 1000 \<le> now"
    using assms by (auto simp: reset_row_def row_counts_def split: option.splits if_splits)
  then show ?thesis using assms row_counts_old Some by auto
qed

lemma sweep_row:
  assumes "distinct (map fst (aw_failed w))" and "row_counts ts now (failed_of e w)"
  shows "row_counts ts now (failed_of e (sweep_failed now w))"
proof (cases "failed_of e (sweep_failed now w) = failed_of e w")
  case False
  then obtain r where r: "failed_of e w = Some r" "failed_of e (sweep_failed now w) = None"
    and old: "case fa_locked_until r of None \<Rightarrow> fa_updated r < now - 60 * 60 * 1000 | Some t \<Rightarrow> t < now"
    using assms(1)
    by (auto simp: failed_of_def sweep_failed_def map_of_filter_distinct split: option.splits if_splits)
  then have "fa_updated r + 15 * 60 * 1000 \<le> now"
    using assms(2) by (auto simp: row_counts_def split: option.splits if_splits)
  then show ?thesis using assms(2) row_counts_old r by simp
qed (simp add: assms)

lemma in_window_Cons:
  "in_window t0 (t # ts) = (if t0 \<le> t \<and> t < t0 + 15 * 60 * 1000 then [t] else []) @ in_window t0 ts"
  by (simp add: in_window_def)

lemma in_window_append: "in_window t0 (xs @ ys) = in_window t0 xs @ in_window t0 ys"
  by (simp add: in_window_def)

lemma length_in_window: "length (in_window t0 ts) \<le> length ts"
  by (simp add: in_window_def)

text \<open>A guess that is not locked out.\<close>

lemma spaced_guess:
  assumes "spaced ts now f" and "\<not> row_locks now f"
  shows "spaced (now # ts) now (Some
    (case reset_row now f of
       None \<Rightarrow> \<lparr>fa_attempts = 1, fa_locked_until = None, fa_updated = now\<rparr>
     | Some r \<Rightarrow> \<lparr>fa_attempts = fa_attempts r + 1,
         fa_locked_until = (if 5 \<le> fa_attempts r + 1 then Some (now + 15 * 60 * 1000) else fa_locked_until r),
         fa_updated = now\<rparr>))"
proof (cases "reset_row now f")
  case None
  then have old: "\<forall>x \<in> set ts. x + 15 * 60 * 1000 \<le> now"
    using assms(1) row_counts_reset [of ts now f] by (auto simp: spaced_def row_counts_def)
  have "length (in_window t0 (now # ts)) \<le> 5" for t0
  proof (cases "t0 \<le> now \<and> now < t0 + 15 * 60 * 1000")
    case True
    then have "in_window t0 ts = []" using old by (fastforce simp: in_window_def filter_empty_conv)
    then show ?thesis by (simp add: in_window_Cons)
  next
    case False
    then show ?thesis using assms(1) by (auto simp: in_window_Cons spaced_def)
  qed
  then show ?thesis using None old assms(1) by (auto simp: spaced_def row_counts_def)
next
  case (Some r)
  let ?n = "fa_attempts r"
  have f: "f = Some r" using Some by (auto simp: reset_row_def split: option.splits if_splits)
  have row: "row_counts ts now (Some r)" using assms(1) f by (simp add: spaced_def)
  have n: "?n < 5" and unlocked: "fa_locked_until r = None"
    using row assms(2) Some f
    by (auto simp: row_counts_def row_locks_def reset_row_def split: option.splits if_splits)
  have old: "\<forall>x \<in> set (drop ?n ts). x + 15 * 60 * 1000 \<le> now"
    using row by (auto simp: row_counts_def)
  have "length (in_window t0 (now # ts)) \<le> 5" for t0
  proof (cases "t0 \<le> now \<and> now < t0 + 15 * 60 * 1000")
    case True
    then have "in_window t0 (drop ?n ts) = []" using old by (fastforce simp: in_window_def filter_empty_conv)
    moreover have "in_window t0 ts = in_window t0 (take ?n ts) @ in_window t0 (drop ?n ts)"
      using in_window_append [of t0 "take ?n ts" "drop ?n ts"] by simp
    ultimately have "length (in_window t0 ts) \<le> ?n"
      using length_in_window [of t0 "take ?n ts"] by simp
    then show ?thesis using n by (simp add: in_window_Cons)
  next
    case False
    then show ?thesis using assms(1) by (auto simp: in_window_Cons spaced_def)
  qed
  moreover have "\<forall>t \<in> set (now # ts). t \<le> now" using assms(1) by (simp add: spaced_def)
  moreover have "row_counts (now # ts) now (Some \<lparr>fa_attempts = ?n + 1,
      fa_locked_until = (if 5 \<le> ?n + 1 then Some (now + 15 * 60 * 1000) else fa_locked_until r),
      fa_updated = now\<rparr>)"
    using row n unlocked old assms(1) by (auto simp: row_counts_def spaced_def dest: in_set_takeD)
  ultimately show ?thesis using Some by (simp add: spaced_def)
qed

lemma tries_spaced:
  assumes "tries e w ts now"
  shows "spaced ts now (failed_of e w)"
  using assms
proof (induction rule: tries.induct)
  case (fresh w now)
  then show ?case by (simp add: spaced_def row_counts_def in_window_def)
next
  case (elsewhere w ts now now' w')
  then show ?case using spaced_later by metis
next
  case (swept w ts now now')
  then have "spaced ts now' (failed_of e w)" using spaced_later by blast
  then show ?case using sweep_row swept(3) by (auto simp: spaced_def)
next
  case (attempt w ts now env q d a w')
  let ?now = "ae_now env"
  have s: "spaced ts ?now (failed_of e w)" using attempt.IH attempt.hyps(2) spaced_later by blast
  then have reset: "spaced ts ?now (reset_row ?now (failed_of e w))"
    using row_counts_reset by (auto simp: spaced_def)
  have gone: "spaced [] ?now f" if "spaced ts ?now f" for f
    using that by (auto simp: spaced_def row_counts_def in_window_def split: option.splits)
  have kept: "spaced (judged q w a ?now ts) ?now f" if "spaced ts ?now f" "\<not> is_guess q w a" for f
    using that gone by (simp add: judged_def)
  from login_row [OF attempt.hyps(4)] show ?case
    unfolding attempt.hyps(3)
  proof (elim disjE conjE)
    assume "failed_of e w' = None" "is_accepted a" "\<not> is_guess q w a"
    then show ?thesis by (simp add: judged_def spaced_def row_counts_def in_window_def)
  next
    assume g: "is_guess q w a" "\<not> row_locks ?now (failed_of e w)"
      and f: "failed_of e w' = Some
         (case reset_row ?now (failed_of e w) of
            None \<Rightarrow> \<lparr>fa_attempts = 1, fa_locked_until = None, fa_updated = ?now\<rparr>
          | Some r \<Rightarrow> \<lparr>fa_attempts = fa_attempts r + 1,
              fa_locked_until = (if 5 \<le> fa_attempts r + 1 then Some (?now + 15 * 60 * 1000) else fa_locked_until r),
              fa_updated = ?now\<rparr>)"
    show ?thesis unfolding f using spaced_guess [OF s g(2)] g(1) by (simp add: judged_def)
  qed (use kept s reset in auto)
qed


subsection \<open>What a login gives\<close>

lemma device_trust_keeps:
  "aw_db (snd (device_trust env q u w)) = aw_db w" "aw_mfa (snd (device_trust env q u w)) = aw_mfa w"
  "aw_redis (snd (device_trust env q u w)) = aw_redis w"
  by (auto simp: device_trust_def Let_def split: option.splits)

lemma reply_fields [simp]:
  "rp_body (reply st b) = b" "rp_set (reply st b) = []" "rp_cleared (reply st b) = []"
  "rp_body (with_cookies cs a) = rp_body a" "rp_set (with_cookies cs a) = cs"
  "rp_body (failure st m) = message_of m" "rp_set (failure st m) = []"
  "rp_body uncaught = JUndef" "rp_set uncaught = []" "rp_set store_unavailable = []"
  by (simp_all add: reply_def with_cookies_def failure_def uncaught_def store_unavailable_def)

lemma no_token:
  "get_field JUndef ''token'' = JUndef" "get_field (message_of m) ''token'' = JUndef"
  "get_field (rp_body store_unavailable) ''token'' = JUndef"
  "get_field (challenge_body env d u st) ''token'' = JUndef"
  by (simp_all add: get_field_def message_of_def store_unavailable_def challenge_body_def
      password_status_fields_def)

definition nothing_given :: "auth_reply \<Rightarrow> auth_world \<Rightarrow> auth_world \<Rightarrow> bool" where
  "nothing_given a w w' \<longleftrightarrow>
     aw_db w' = aw_db w \<and> rp_set a = [] \<and> get_field (rp_body a) ''token'' = JUndef"

text \<open>The second factor is asked for, and the challenge can be redeemed.\<close>

definition challenged :: "auth_env \<Rightarrow> draws \<Rightarrow> user_row \<Rightarrow> auth_reply \<Rightarrow> auth_world \<Rightarrow> auth_world \<Rightarrow> bool" where
  "challenged env d u a w w' \<longleftrightarrow>
     nothing_given a w w' \<and> (\<exists>st. rp_body a = challenge_body env d u st) \<and>
     (\<exists>p. ae_decode env (signMfaChallengeToken env d u) = Some p \<and>
        redis_get (of_int (ae_now env)) (aw_redis w') (mfa_key (js_string (get_field p ''jti''))) \<noteq> None)"

definition signed_in_as :: "auth_env \<Rightarrow> draws \<Rightarrow> user_row \<Rightarrow> auth_reply \<Rightarrow> auth_world \<Rightarrow> auth_world \<Rightarrow> bool" where
  "signed_in_as env d u a w w' \<longleftrightarrow>
     aw_db w' = issue_session (ae_now env) (dr_session d) (u_id u) (ae_sha256 env (dr_refresh d)) (aw_db w) \<and>
     (\<exists>trusted st. rp_body a = session_body env d u trusted st) \<and> rp_set a = session_cookies d"

lemma redis_get_setnx:
  "now < e \<Longrightarrow> redis_get now (redis_setnx now k v e r) k \<noteq> None"
  by (simp add: redis_setnx_def redis_get_set)

lemma login_accepted_gives:
  assumes "login_accepted u env d q w = (a, w')"
  shows "(rp_status a = 503 \<and> mfa_required (u_id u) w \<and> nothing_given a w w') \<or>
    (rp_status a = 200 \<and>
      (if mfa_required (u_id u) w then challenged env d u a w w' else signed_in_as env d u a w w'))"
proof -
  obtain trusted w1 where t: "device_trust env q u w = (trusted, w1)" by fastforce
  note keeps = device_trust_keeps [of env q u w, unfolded t snd_conv]
  have m: "mfa_required (u_id u) w1 = mfa_required (u_id u) w"
    by (simp add: mfa_required_def keeps)
  show ?thesis
  proof (cases "mfa_required (u_id u) w")
    case True
    let ?c = "signMfaChallengeToken env d u"
    show ?thesis
    proof (cases "ae_decode env ?c")
      case None
      then show ?thesis
        using assms True m keeps
        by (auto simp: login_accepted_def Let_def t nothing_given_def no_token)
    next
      case (Some p)
      show ?thesis
        using assms True m keeps Some redis_get_setnx
        by (auto simp: login_accepted_def Let_def t nothing_given_def no_token storeMfaChallengeJti_def
            challenged_def split: if_splits)
    qed
  next
    case False
    then show ?thesis
      using assms m keeps
      by (auto simp: login_accepted_def Let_def t issueLoginSession_def signed_in_as_def) blast
  qed
qed

lemma login_gives:
  assumes "login_route env d q w = (a, w')"
  shows "(rp_status a = 200 \<and>
      (\<exists>u p. user_by_email (login_email q) w = Some u \<and> u_active u \<and>
         body_field q ''password'' = JStr p \<and> ae_matches env p (u_password u) \<and>
         \<not> fst (isAccountLocked (ae_now env) (login_email q) w) \<and>
         (if mfa_required (u_id u) w then challenged env d u a w w' else signed_in_as env d u a w w'))) \<or>
    (rp_status a \<noteq> 200 \<and> nothing_given a w w')"
  using assms
proof (cases rule: login_cases)
  case refused
  then show ?thesis by (auto simp: nothing_given_def no_token)
next
  case (judged l w1)
  note keeps = locked_keeps [of "ae_now env" "login_email q" w, unfolded judged(2) snd_conv]
  have user: "user_by_email e w1 = user_by_email e w" for e by (simp add: user_by_email_def keeps)
  have no: "nothing_given (failure st m) w w1"
    "nothing_given (failure st m) w (recordFailedAttempt now e w1)" for st m now e
    by (simp_all add: nothing_given_def no_token keeps failed_keeps)
  show ?thesis
  proof (cases "\<exists>u. \<not> l \<and> user_by_email (login_email q) w = Some u \<and> u_active u \<and>
      bcrypt_compare env (body_field q ''password'') (u_password u) = Some True")
    case True
    then obtain u p where u: "\<not> l" "user_by_email (login_email q) w = Some u" "u_active u"
      "body_field q ''password'' = JStr p" "ae_matches env p (u_password u)"
      unfolding bcrypt_compare_Some by auto
    let ?w = "clearFailedAttempts (login_email q) w1"
    have "login_accepted u env d q ?w = (a, w')"
      using judged(3) u user by (simp add: login_verdict_def bcrypt_compare_def)
    from login_accepted_gives [OF this] have "(rp_status a = 503 \<and> nothing_given a w w') \<or>
      (rp_status a = 200 \<and>
        (if mfa_required (u_id u) w then challenged env d u a w w' else signed_in_as env d u a w w'))"
      by (auto simp: nothing_given_def challenged_def signed_in_as_def mfa_required_def keeps failed_keeps
          split: if_splits)
    then show ?thesis using u judged(2) by auto
  next
    case False
    then show ?thesis
      using judged(3) no user by (auto simp: login_verdict_def split: if_splits option.splits bool.splits)
  qed
qed

text \<open>
  Claim C5. A login is answered with 200 only for the right password of an active account that is
  not locked. Then, if the account has a second factor, nothing is given but a challenge that can
  be redeemed; else one session and one refresh token of this account are stored, and the
  access token carries its identity. Any other answer changes no session and carries no token.
\<close>

theorem login_contract:
  assumes "login_route env d q w = (a, w')"
  shows "(rp_status a = 200 \<and>
      (\<exists>u p. user_by_email (login_email q) w = Some u \<and> u_active u \<and>
         body_field q ''password'' = JStr p \<and> ae_matches env p (u_password u) \<and>
         \<not> fst (isAccountLocked (ae_now env) (login_email q) w) \<and>
         (if mfa_required (u_id u) w then challenged env d u a w w' else signed_in_as env d u a w w'))) \<or>
    (rp_status a \<noteq> 200 \<and> nothing_given a w w')"
  using assms by (rule login_gives)

subsection \<open>An account on which the theorems apply\<close>

definition svc_env :: "int \<Rightarrow> auth_env" where
  "svc_env t = \<lparr>ae_now = t, ae_sha256 = (\<lambda>s. CHR ''#'' # s), ae_matches = (\<lambda>p h. p = h),
     ae_bcrypt = (\<lambda>salt p. p), ae_sign = (\<lambda>k c. ''signed''),
     ae_verify = (\<lambda>tok. VerifyFails ''JsonWebTokenError''),
     ae_verify_challenge = (\<lambda>tok. VerifyFails ''JsonWebTokenError''),
     ae_verify_internal = (\<lambda>tok. VerifyFails ''JsonWebTokenError''),
     ae_decode = (\<lambda>tok. Some (JObj [(''jti'', JStr ''j'')])), ae_totp = (\<lambda>code s. code = JStr s),
     ae_stringify = (\<lambda>v. ''{}''), ae_uuid = (\<lambda>s. Some s), ae_iso = (\<lambda>t. ''2026'')\<rparr>"

definition some_draws :: draws where
  "some_draws = \<lparr>dr_refresh = ''r'', dr_session = ''s'', dr_jti = ''j'', dr_csrf = ''c'', dr_salt = [],
     dr_secret = ''k'', dr_codes = [''A1''], dr_key = (''k1'', ''k2'')\<rparr>"

definition ada :: user_row where
  "ada = \<lparr>u_id = 7, u_email = ''ada@atlas.io'', u_password = ''Right1pw'', u_name = ''Ada'', u_role = ''hr'',
     u_department = Some ''People'', u_position = Some ''Lead'', u_tenant = Some ''acme'', u_enabled = Some True,
     u_password_changed_at = None, u_created = 0, u_updated = 0\<rparr>"

definition svc_world :: auth_world where
  "svc_world = \<lparr>aw_db = \<lparr>users = [ada], refresh_tokens = [], rotated_tokens = [], sessions = []\<rparr>,
     aw_next_user = 8, aw_failed = [], aw_history = [], aw_policies = [], aw_mfa = [], aw_devices = [],
     aw_next_device = 1, aw_sessions = [], aw_resets = [], aw_magic = [], aw_keys = [], aw_redis = \<lparr>redis_open = True, redis_throws = False, redis_keys = []\<rparr>,
     aw_redis_ready = True, aw_shared_counters = [], aw_local_counters = []\<rparr>"

definition sign_in_request :: "string \<Rightarrow> auth_http" where
  "sign_in_request p = \<lparr>hq_body = JObj [(''email'', JStr ''Ada@atlas.io''), (''password'', JStr p)],
     hq_headers = [], hq_cookies = [], hq_ip = ''10.0.0.1'', hq_params = [], hq_query = JUndef\<rparr>"

definition wrong_at :: "int \<Rightarrow> auth_world \<Rightarrow> auth_world" where
  "wrong_at t w = snd (login_route (svc_env t) some_draws (sign_in_request ''Guess1'') w)"

definition failing :: "nat \<Rightarrow> int option \<Rightarrow> int \<Rightarrow> auth_world" where
  "failing n lock t = svc_world\<lparr>aw_failed :=
     [(''ada@atlas.io'', \<lparr>fa_attempts = n, fa_locked_until = lock, fa_updated = t\<rparr>)]\<rparr>"

lemma wrong_tries:
  assumes "tries ''ada@atlas.io'' w ts now" and "now \<le> t"
    and "judged (sign_in_request ''Guess1'') w (fst (login_route (svc_env t) some_draws (sign_in_request ''Guess1'') w)) t ts = t # ts"
  shows "tries ''ada@atlas.io'' (wrong_at t w) (t # ts) t"
proof -
  have "login_email (sign_in_request ''Guess1'') = ''ada@atlas.io''" by code_simp
  then show ?thesis
    using attempt [OF assms(1), of "svc_env t" "sign_in_request ''Guess1''" some_draws] assms(2,3)
    by (auto simp: wrong_at_def svc_env_def prod_eq_iff)
qed

definition after_five :: auth_world where
  "after_five = wrong_at 4 (wrong_at 3 (wrong_at 2 (wrong_at 1 (wrong_at 0 svc_world))))"

lemma wrong_steps:
  "wrong_at 0 svc_world = failing 1 None 0" "wrong_at 1 (failing 1 None 0) = failing 2 None 1"
  "wrong_at 2 (failing 2 None 1) = failing 3 None 2" "wrong_at 3 (failing 3 None 2) = failing 4 None 3"
  "wrong_at 4 (failing 4 None 3) = failing 5 (Some 900004) 4"
  by code_simp+

lemma after_five_is: "after_five = failing 5 (Some 900004) 4"
  unfolding after_five_def wrong_steps ..

lemma after_five_tries: "tries ''ada@atlas.io'' after_five [4, 3, 2, 1, 0] 4"
proof -
  have "tries ''ada@atlas.io'' svc_world [] 0" by (rule fresh) code_simp
  from wrong_tries [OF this, of 0] have "tries ''ada@atlas.io'' (failing 1 None 0) [0] 0"
    unfolding wrong_steps by (rule) code_simp+
  from wrong_tries [OF this, of 1] have "tries ''ada@atlas.io'' (failing 2 None 1) [1, 0] 1"
    unfolding wrong_steps by (rule) code_simp+
  from wrong_tries [OF this, of 2] have "tries ''ada@atlas.io'' (failing 3 None 2) [2, 1, 0] 2"
    unfolding wrong_steps by (rule) code_simp+
  from wrong_tries [OF this, of 3] have "tries ''ada@atlas.io'' (failing 4 None 3) [3, 2, 1, 0] 3"
    unfolding wrong_steps by (rule) code_simp+
  from wrong_tries [OF this, of 4] show ?thesis
    unfolding wrong_steps after_five_is by (rule) code_simp+
qed


theorem login_contract_witness:
  "rp_status (fst (login_route (svc_env 5) some_draws (sign_in_request ''Right1pw'') svc_world)) = 200 \<and>
   (\<exists>u. user_by_email ''ada@atlas.io'' svc_world = Some u \<and>
      signed_in_as (svc_env 5) some_draws u
        (fst (login_route (svc_env 5) some_draws (sign_in_request ''Right1pw'') svc_world)) svc_world
        (snd (login_route (svc_env 5) some_draws (sign_in_request ''Right1pw'') svc_world)))"
proof -
  let ?q = "sign_in_request ''Right1pw''"
  have "rp_status (fst (login_route (svc_env 5) some_draws ?q svc_world)) = 200" by code_simp
  moreover have "login_email ?q = ''ada@atlas.io''" by code_simp
  moreover have "\<not> mfa_required i svc_world" for i by (simp add: mfa_required_def svc_world_def)
  ultimately show ?thesis
    using login_contract [of "svc_env 5" some_draws ?q svc_world
      "fst (login_route (svc_env 5) some_draws ?q svc_world)"
      "snd (login_route (svc_env 5) some_draws ?q svc_world)"] by auto
qed

end
