(* ===== verification/Auth_Mfa.thy ===== *)
theory Auth_Mfa
  imports Auth_Login
begin

section \<open>The auth service: the second factor\<close>

text \<open>
  The routes \<open>/mfa/setup\<close>, \<open>/mfa/rotate-backup-codes\<close>, \<open>/mfa/verify\<close>, \<open>/mfa/validate\<close>,
  \<open>/mfa/disable\<close> and \<open>/mfa/status\<close> of \<open>services/auth-service/index.js\<close>. A session token carries
  the numeric id of its user; one with another id matches no row. \<open>/mfa/validate\<close> is split at the
  point where it awaits redis for the second time, so that two of them can be interleaved.
\<close>

definition claim_id :: "jsv \<Rightarrow> int option" where
  "claim_id payload =
     (case get_field payload ''id'' of
        JNum q \<Rightarrow> if q = of_int \<lfloor>q\<rfloor> then Some \<lfloor>q\<rfloor> else None
      | _ \<Rightarrow> None)"

definition user_of :: "jsv \<Rightarrow> auth_world \<Rightarrow> user_row option" where
  "user_of payload w = (case claim_id payload of Some i \<Rightarrow> user_by_id i w | None \<Rightarrow> None)"

definition mfa_of :: "jsv \<Rightarrow> auth_world \<Rightarrow> mfa_row option" where
  "mfa_of payload w = (case claim_id payload of Some i \<Rightarrow> map_get (aw_mfa w) i | None \<Rightarrow> None)"

definition BACKUP_CODE_DAYS :: int where "BACKUP_CODE_DAYS = 90"

definition fresh_codes :: "auth_env \<Rightarrow> draws \<Rightarrow> jsv list" where
  "fresh_codes env d =
     map (\<lambda>c. JObj [(''code'', JStr c), (''issued_at'', JStr (ae_iso env (ae_now env))),
            (''expires_at'', JStr (ae_iso env (ae_now env + BACKUP_CODE_DAYS * day_ms)))]) (dr_codes d)"

definition shown_codes :: "auth_env \<Rightarrow> draws \<Rightarrow> (string \<times> jsv) list" where
  "shown_codes env d =
     [(''backup_codes'', JArr (map JStr (dr_codes d))),
      (''backup_codes_expires_at'', JStr (ae_iso env (ae_now env + BACKUP_CODE_DAYS * day_ms)))]"

subsection \<open>Setup, activation, removal\<close>

text \<open>Proof of an existing factor: \<open>None\<close> when bcrypt throws.\<close>

definition setup_confirmed :: "auth_env \<Rightarrow> jsv \<Rightarrow> jsv \<Rightarrow> user_row \<Rightarrow> mfa_row option \<Rightarrow> bool option" where
  "setup_confirmed env password token u m =
     (case (if truthy password then bcrypt_compare env password (u_password u) else Some False) of
        None \<Rightarrow> None
      | Some True \<Rightarrow> Some True
      | Some False \<Rightarrow>
          Some (case m of
                  Some r \<Rightarrow> truthy token \<and> mf_secret r \<noteq> [] \<and> ae_totp env token (mf_secret r)
                | None \<Rightarrow> False))"

text \<open>The row after \<open>INSERT ... ON CONFLICT DO UPDATE\<close>; a new one is not enabled.\<close>

definition setup_row :: "auth_env \<Rightarrow> draws \<Rightarrow> mfa_row option \<Rightarrow> mfa_row" where
  "setup_row env d m =
     \<lparr>mf_secret = dr_secret d, mf_codes = fresh_codes env d,
      mf_enabled = (case m of Some r \<Rightarrow> mf_enabled r | None \<Rightarrow> False), mf_shown = True,
      mf_expires = Some (ae_now env + BACKUP_CODE_DAYS * day_ms)\<rparr>"

definition mfa_setup_route :: "(string \<Rightarrow> string \<Rightarrow> string) \<Rightarrow> jsv \<Rightarrow> handler" where
  "mfa_setup_route keyuri payload env d q w =
     (case user_of payload w of
        None \<Rightarrow> (failure 404 ''User not found'', w)
      | Some u \<Rightarrow>
          (case setup_confirmed env (body_field q ''password'') (body_field q ''token'') u (mfa_of payload w) of
             None \<Rightarrow> (failure 500 ''MFA setup failed'', w)
           | Some False \<Rightarrow>
               (failure 403 ''Confirm with your password or current MFA code to change MFA settings'', w)
           | Some True \<Rightarrow>
               (let alreadyShown = (case mfa_of payload w of Some r \<Rightarrow> mf_shown r | None \<Rightarrow> False)
                in (reply 200 (JObj
                      ([(''secret'', JStr (dr_secret d)),
                        (''qr_code_uri'', JStr (keyuri (js_string (get_field payload ''email'')) (dr_secret d)))] @
                       (if alreadyShown then
                          [(''message'', JStr (''Backup codes were regenerated. '' @
                              ''Use /mfa/rotate-backup-codes to view new codes with re-authentication.''))]
                        else shown_codes env d @
                          [(''message'', JStr ''Save these backup codes. They will not be shown again.'')]))),
                    w\<lparr>aw_mfa := map_set (u_id u) (setup_row env d (mfa_of payload w)) (aw_mfa w)\<rparr>))))"

definition mfa_rotate_route :: "jsv \<Rightarrow> handler" where
  "mfa_rotate_route payload env d q w =
     (if hq_body q = JUndef then (failure 500 ''Failed to rotate backup codes'', w)
      else if \<not> truthy (body_field q ''token'') then
        (failure 400 ''Current TOTP token is required to rotate backup codes'', w)
      else
        (case (claim_id payload, mfa_of payload w) of
           (Some i, Some r) \<Rightarrow>
             if \<not> ae_totp env (body_field q ''token'') (mf_secret r) then (failure 400 ''Invalid token'', w)
             else
               (reply 200 (JObj ((''message'', JStr (''Backup codes rotated successfully. '' @
                    ''Save these codes as they will not be shown again.'')) # shown_codes env d)),
                w\<lparr>aw_mfa := map_set i (r\<lparr>mf_codes := fresh_codes env d, mf_shown := True,
                    mf_expires := Some (ae_now env + BACKUP_CODE_DAYS * day_ms)\<rparr>) (aw_mfa w)\<rparr>)
         | _ \<Rightarrow> (failure 400 ''MFA not set up'', w)))"

definition mfa_verify_route :: "jsv \<Rightarrow> handler" where
  "mfa_verify_route payload env d q w =
     (if hq_body q = JUndef then (failure 500 ''MFA verification failed'', w)
      else if \<not> truthy (body_field q ''token'') then (failure 400 ''Token is required'', w)
      else
        (case (claim_id payload, mfa_of payload w) of
           (Some i, Some r) \<Rightarrow>
             if mf_secret r = [] then (failure 400 ''MFA not set up. Call /mfa/setup first.'', w)
             else if \<not> ae_totp env (body_field q ''token'') (mf_secret r) then
               (failure 400 ''Invalid token'', w)
             else
               (reply 200 (message_of ''MFA enabled successfully''),
                w\<lparr>aw_mfa := map_set i (r\<lparr>mf_enabled := True\<rparr>) (aw_mfa w)\<rparr>)
         | _ \<Rightarrow> (failure 400 ''MFA not set up. Call /mfa/setup first.'', w)))"

definition mfa_disable_route :: "jsv \<Rightarrow> handler" where
  "mfa_disable_route payload env d q w =
     (if hq_body q = JUndef then (failure 500 ''Failed to disable MFA'', w)
      else if \<not> truthy (body_field q ''password'') then
        (failure 400 ''Password is required to disable MFA'', w)
      else
        (case user_of payload w of
           None \<Rightarrow> (failure 404 ''User not found'', w)
         | Some u \<Rightarrow>
             (case bcrypt_compare env (body_field q ''password'') (u_password u) of
                None \<Rightarrow> (failure 500 ''Failed to disable MFA'', w)
              | Some False \<Rightarrow> (failure 400 ''Invalid password'', w)
              | Some True \<Rightarrow>
                  (reply 200 (message_of ''MFA disabled successfully''),
                   w\<lparr>aw_mfa := AList.delete (u_id u) (aw_mfa w)\<rparr>))))"

definition mfa_status_route :: "jsv \<Rightarrow> handler" where
  "mfa_status_route payload env d q w =
     (reply 200 (JObj
        [(''mfa_enabled'', JBool (case mfa_of payload w of Some r \<Rightarrow> mf_enabled r | None \<Rightarrow> False)),
         (''mfa_setup'', JBool (mfa_of payload w \<noteq> None))]), w)"

subsection \<open>Backup codes\<close>

text \<open>
  One statement matches and removes: the codes that are equal to the one given, blanks around and
  case aside, while the set has not expired.
\<close>

definition btrim :: "string \<Rightarrow> string" where
  "btrim s = rev (dropWhile (\<lambda>c. c = CHR '' '') (rev (dropWhile (\<lambda>c. c = CHR '' '') s)))"

definition code_text :: "auth_env \<Rightarrow> jsv \<Rightarrow> string option" where
  "code_text env v =
     (case v of
        JStr s \<Rightarrow> Some s
      | JObj fs \<Rightarrow> (if nullish (get_field v ''code'') then None else Some (pg_text env (get_field v ''code'')))
      | _ \<Rightarrow> None)"

definition code_matches :: "auth_env \<Rightarrow> string \<Rightarrow> jsv \<Rightarrow> bool" where
  "code_matches env c v =
     (case code_text env v of Some s \<Rightarrow> map upper_char (btrim s) = c | None \<Rightarrow> False)"

definition normalized_code :: "jsv \<Rightarrow> string" where
  "normalized_code v = map upper_char (trim (js_string v))"

definition codes_live :: "int \<Rightarrow> mfa_row \<Rightarrow> bool" where
  "codes_live now r = (case mf_expires r of Some t \<Rightarrow> now < t | None \<Rightarrow> False)"

definition has_code :: "auth_env \<Rightarrow> string \<Rightarrow> mfa_row \<Rightarrow> bool" where
  "has_code env c r \<longleftrightarrow> list_ex (code_matches env c) (mf_codes r)"

text \<open>What \<open>NOT (...)\<close> keeps: an object without a code makes the test \<open>NULL\<close> and is dropped.\<close>

definition code_kept :: "auth_env \<Rightarrow> string \<Rightarrow> jsv \<Rightarrow> bool" where
  "code_kept env c v \<longleftrightarrow>
     \<not> code_matches env c v \<and> \<not> (code_text env v = None \<and> (case v of JObj _ \<Rightarrow> True | _ \<Rightarrow> False))"

definition consume_code :: "auth_env \<Rightarrow> string \<Rightarrow> mfa_row \<Rightarrow> mfa_row option" where
  "consume_code env c r =
     (if codes_live (ae_now env) r \<and> has_code env c r
      then Some (r\<lparr>mf_codes := filter (code_kept env c) (mf_codes r)\<rparr>) else None)"

subsection \<open>Validation\<close>

definition mfaChallengeJtiExists :: "int \<Rightarrow> redis \<Rightarrow> string \<Rightarrow> bool option" where
  "mfaChallengeJtiExists now r jti =
     (if redis_answers r then Some (\<not> falsy_string (redis_get (of_int now) r (mfa_key jti))) else None)"

definition consumeMfaChallengeJti :: "redis \<Rightarrow> string \<Rightarrow> bool \<times> redis" where
  "consumeMfaChallengeJti r jti = (if redis_answers r then (True, redis_del (mfa_key jti) r) else (False, r))"

text \<open>Who asks: in the challenge flow the id of the token, else the payload of the session.\<close>

datatype mfa_claim = ByChallenge string user_row | BySession jsv user_row

definition claimed_user :: "mfa_claim \<Rightarrow> user_row" where
  "claimed_user c = (case c of ByChallenge _ u \<Rightarrow> u | BySession _ u \<Rightarrow> u)"

text \<open>\<open>jwt.verify\<close> takes strings only.\<close>

definition verify_challenge :: "auth_env \<Rightarrow> jsv \<Rightarrow> jwt_answer" where
  "verify_challenge env v =
     (case v of JStr t \<Rightarrow> ae_verify_challenge env t | _ \<Rightarrow> VerifyFails ''JsonWebTokenError'')"

definition challenge_claim :: "auth_env \<Rightarrow> auth_http \<Rightarrow> auth_world \<Rightarrow> auth_reply + mfa_claim" where
  "challenge_claim env q w =
     (case verify_challenge env (body_field q ''mfa_challenge_token'') of
        VerifyFails e \<Rightarrow>
          Inl (failure 401 (if e = ''TokenExpiredError'' then ''MFA challenge token expired''
                            else ''Invalid MFA challenge token''))
      | Verified p \<Rightarrow>
          if get_field p ''purpose'' \<noteq> JStr ''mfa_challenge'' then
            Inl (failure 401 ''Invalid challenge token purpose'')
          else if \<not> truthy (get_field p ''jti'') then Inl (failure 401 ''Challenge token missing jti'')
          else
            (case mfaChallengeJtiExists (ae_now env) (aw_redis w) (js_string (get_field p ''jti'')) of
               None \<Rightarrow> Inl store_unavailable
             | Some False \<Rightarrow> Inl (failure 401 ''MFA challenge token already used or expired'')
             | Some True \<Rightarrow>
                 (case parse_int (js_or (get_field p ''sub'') (js_or (get_field p ''user_id'') (get_field p ''id''))) of
                    None \<Rightarrow> Inl (failure 400 ''Invalid challenge token subject'')
                  | Some i \<Rightarrow>
                      if i = 0 then Inl (failure 400 ''Invalid challenge token subject'')
                      else
                        (case user_by_id i w of
                           None \<Rightarrow> Inl (failure 404 ''User not found'')
                         | Some u \<Rightarrow>
                             if \<not> u_active u then Inl (failure 403 ''Account is deactivated'')
                             else Inr (ByChallenge (js_string (get_field p ''jti'')) u)))))"

definition session_claim :: "auth_env \<Rightarrow> auth_http \<Rightarrow> auth_world \<Rightarrow> auth_reply + mfa_claim" where
  "session_claim env q w =
     (case requireRole env [] q of
        Inl a \<Rightarrow> Inl a
      | Inr payload \<Rightarrow>
          (case user_of payload w of
             None \<Rightarrow> Inl (failure 404 ''User not found'')
           | Some u \<Rightarrow> Inr (BySession payload u)))"

text \<open>The first part: who asks, and the factor; a backup code is used up.\<close>

definition mfa_check :: "auth_env \<Rightarrow> auth_http \<Rightarrow> auth_world \<Rightarrow> (auth_reply + mfa_claim) \<times> auth_world" where
  "mfa_check env q w =
     (let token = body_field q ''token''; code = body_field q ''backup_code''
      in if hq_body q = JUndef then (Inl (failure 500 ''MFA validation failed''), w)
         else if \<not> truthy token \<and> \<not> truthy code then
           (Inl (failure 400 ''Token or backup code is required''), w)
         else
           (case (if truthy (body_field q ''mfa_challenge_token'')
                  then challenge_claim env q w else session_claim env q w) of
              Inl a \<Rightarrow> (Inl a, w)
            | Inr c \<Rightarrow>
                (case map_get (aw_mfa w) (u_id (claimed_user c)) of
                   None \<Rightarrow> (Inl (failure 400 ''MFA is not enabled for this user''), w)
                 | Some r \<Rightarrow>
                     if \<not> mf_enabled r then (Inl (failure 400 ''MFA is not enabled for this user''), w)
                     else if truthy token \<and> ae_totp env token (mf_secret r) then (Inr c, w)
                     else if \<not> truthy code then (Inl (failure 400 ''Invalid token or backup code''), w)
                     else
                       (case consume_code env (normalized_code code) r of
                          Some r' \<Rightarrow> (Inr c, w\<lparr>aw_mfa := map_set (u_id (claimed_user c)) r' (aw_mfa w)\<rparr>)
                        | None \<Rightarrow>
                            (Inl (failure 400
                               (if \<not> codes_live (ae_now env) r \<and> has_code env (normalized_code code) r
                                then ''Backup codes have expired. Rotate them with '' @
                                  ''/mfa/rotate-backup-codes using a TOTP code.''
                                else ''Invalid token or backup code'')), w)))))"

text \<open>The second part: the challenge is used up and the session or the step-up token given.\<close>

definition mfa_finish :: "auth_env \<Rightarrow> draws \<Rightarrow> auth_http \<Rightarrow> mfa_claim \<Rightarrow> auth_world \<Rightarrow> auth_reply \<times> auth_world" where
  "mfa_finish env d q c w =
     (case c of
        ByChallenge jti u \<Rightarrow>
          (case consumeMfaChallengeJti (aw_redis w) jti of
             (False, r) \<Rightarrow> (store_unavailable, w)
           | (True, r) \<Rightarrow>
               (case issueLoginSession env d q u (w\<lparr>aw_redis := r\<rparr>) of
                  (token, w') \<Rightarrow>
                    (with_cookies (session_cookies d)
                       (reply 200 (JObj [(''message'', JStr ''MFA validated, logged in successfully''),
                          (''token'', JStr token), (''session_id'', JStr (dr_session d)),
                          (''user'', sanitizeUser u), (''validated'', JBool True)])), w')))
      | BySession payload u \<Rightarrow>
          (reply 200 (JObj [(''message'', JStr ''Token validated''), (''validated'', JBool True),
             (''mfa_token'', JStr (signMfaToken env d payload))]), w))"

definition mfa_validate_route :: handler where
  "mfa_validate_route env d q w =
     (case mfa_check env q w of
        (Inl a, w') \<Rightarrow> (a, w')
      | (Inr c, w') \<Rightarrow> mfa_finish env d q c w')"

text \<open>The routes with their middlewares; \<open>keyuri\<close> is otplib's.\<close>

definition POST_mfa_setup :: "(string \<Rightarrow> string \<Rightarrow> string) \<Rightarrow> handler" where
  "POST_mfa_setup keyuri = signed_in [] ''mfa_setup'' 5 (mfa_setup_route keyuri)"

definition POST_mfa_rotate :: handler where
  "POST_mfa_rotate = signed_in [] ''mfa_verify'' 5 mfa_rotate_route"

definition POST_mfa_verify :: handler where
  "POST_mfa_verify = signed_in [] ''mfa_verify'' 10 mfa_verify_route"

definition POST_mfa_validate :: handler where
  "POST_mfa_validate = limited ''mfa_validate'' 10 False mfa_validate_route"

definition POST_mfa_disable :: handler where
  "POST_mfa_disable = signed_in [] ''mfa_disable'' 5 mfa_disable_route"

definition GET_mfa_status :: handler where
  "GET_mfa_status = signed_in [] ''mfa_status'' 60 mfa_status_route"

subsection \<open>What a second factor gives\<close>

lemma issueLoginSession_fields:
  "aw_db (snd (issueLoginSession env d q u w)) =
     issue_session (ae_now env) (dr_session d) (u_id u) (ae_sha256 env (dr_refresh d)) (aw_db w)"
  "aw_redis (snd (issueLoginSession env d q u w)) = aw_redis w"
  "aw_mfa (snd (issueLoginSession env d q u w)) = aw_mfa w"
  "fst (issueLoginSession env d q u w) = signAccessToken env d u (Some (dr_session d))"
  by (simp_all add: issueLoginSession_def)

text \<open>The factor shown: a current code of the authenticator, or a backup code that is gone now.\<close>

definition factor_shown :: "auth_env \<Rightarrow> auth_http \<Rightarrow> int \<Rightarrow> auth_world \<Rightarrow> auth_world \<Rightarrow> bool" where
  "factor_shown env q i w w' \<longleftrightarrow>
     (\<exists>r. map_get (aw_mfa w) i = Some r \<and> mf_enabled r \<and>
        (ae_totp env (body_field q ''token'') (mf_secret r) \<and> aw_mfa w' = aw_mfa w \<or>
         codes_live (ae_now env) r \<and> has_code env (normalized_code (body_field q ''backup_code'')) r \<and>
         (\<exists>r'. map_get (aw_mfa w') i = Some r' \<and>
            \<not> has_code env (normalized_code (body_field q ''backup_code'')) r')))"

lemma consume_code_gone:
  "consume_code env c r = Some r' \<Longrightarrow> codes_live (ae_now env) r \<and> has_code env c r \<and> \<not> has_code env c r'"
  by (auto simp: consume_code_def has_code_def list_ex_iff code_kept_def split: if_splits)

lemma mfa_check_passed:
  assumes "mfa_check env q w = (Inr c, w')"
  shows "(if truthy (body_field q ''mfa_challenge_token'')
          then challenge_claim env q w = Inr c else session_claim env q w = Inr c)"
    and "factor_shown env q (u_id (claimed_user c)) w w'"
    and "w' = w\<lparr>aw_mfa := aw_mfa w'\<rparr>"
proof -
  obtain r where c: "(if truthy (body_field q ''mfa_challenge_token'')
      then challenge_claim env q w else session_claim env q w) = Inr c"
    and r: "map_get (aw_mfa w) (u_id (claimed_user c)) = Some r" "mf_enabled r"
    and f: "(truthy (body_field q ''token'') \<and> ae_totp env (body_field q ''token'') (mf_secret r) \<and> w' = w) \<or>
      (\<exists>r'. consume_code env (normalized_code (body_field q ''backup_code'')) r = Some r' \<and>
         w' = w\<lparr>aw_mfa := map_set (u_id (claimed_user c)) r' (aw_mfa w)\<rparr>)"
    using assms unfolding mfa_check_def Let_def
    by (auto split: if_splits sum.splits option.splits)
  show "(if truthy (body_field q ''mfa_challenge_token'')
          then challenge_claim env q w = Inr c else session_claim env q w = Inr c)"
    using c by (simp split: if_splits)
  show "factor_shown env q (u_id (claimed_user c)) w w'"
    using r f consume_code_gone unfolding factor_shown_def by fastforce
  show "w' = w\<lparr>aw_mfa := aw_mfa w'\<rparr>" using f by auto
qed

lemma claim_refused:
  "challenge_claim env q w = Inl a \<Longrightarrow> rp_status a \<noteq> 200 \<and> rp_set a = []"
  "session_claim env q w = Inl a \<Longrightarrow> rp_status a \<noteq> 200 \<and> rp_set a = []"
  by (auto split: if_splits sum.splits option.splits jwt_answer.splits bool.splits
      simp: challenge_claim_def session_claim_def requireRole_def)

lemma mfa_check_refused:
  "mfa_check env q w = (Inl a, w') \<Longrightarrow> w' = w \<and> rp_status a \<noteq> 200 \<and> rp_set a = []"
  unfolding mfa_check_def Let_def
  by (auto split: if_splits sum.splits option.splits dest: claim_refused)

text \<open>The challenge a claim rests on.\<close>

definition redeems :: "auth_env \<Rightarrow> auth_http \<Rightarrow> auth_world \<Rightarrow> string \<Rightarrow> user_row \<Rightarrow> bool" where
  "redeems env q w jti u \<longleftrightarrow>
     (\<exists>tok p i. body_field q ''mfa_challenge_token'' = JStr tok \<and> ae_verify_challenge env tok = Verified p \<and>
        get_field p ''purpose'' = JStr ''mfa_challenge'' \<and> jti = js_string (get_field p ''jti'') \<and>
        redis_get (of_int (ae_now env)) (aw_redis w) (mfa_key jti) \<noteq> None \<and>
        parse_int (js_or (get_field p ''sub'') (js_or (get_field p ''user_id'') (get_field p ''id''))) = Some i \<and>
        user_by_id i w = Some u \<and> u_active u)"

lemma challenge_claim_Inr:
  assumes "challenge_claim env q w = Inr c"
  obtains jti u where "c = ByChallenge jti u" "redeems env q w jti u" "redis_answers (aw_redis w)"
proof -
  obtain tok p where v: "body_field q ''mfa_challenge_token'' = JStr tok" "ae_verify_challenge env tok = Verified p"
    "verify_challenge env (body_field q ''mfa_challenge_token'') = Verified p"
    using assms by (auto simp: challenge_claim_def verify_challenge_def split: jwt_answer.splits jsv.splits)
  let ?jti = "js_string (get_field p ''jti'')"
  have p: "get_field p ''purpose'' = JStr ''mfa_challenge''"
    using assms v(3) by (auto simp: challenge_claim_def split: if_splits)
  have j: "mfaChallengeJtiExists (ae_now env) (aw_redis w) ?jti = Some True"
    using assms v(3) by (auto simp: challenge_claim_def split: if_splits option.splits bool.splits)
  obtain i u where u: "parse_int (js_or (get_field p ''sub'') (js_or (get_field p ''user_id'') (get_field p ''id''))) = Some i"
    "user_by_id i w = Some u" "u_active u" "c = ByChallenge ?jti u"
    using assms v(3) j by (auto simp: challenge_claim_def split: if_splits option.splits)
  have "redis_answers (aw_redis w)" "redis_get (of_int (ae_now env)) (aw_redis w) (mfa_key ?jti) \<noteq> None"
    using j by (auto simp: mfaChallengeJtiExists_def falsy_string_def split: if_splits)
  then show ?thesis using that u v p unfolding redeems_def by blast
qed

lemma finish_challenge:
  assumes "redis_answers (aw_redis w)" and "mfa_finish env d q (ByChallenge jti u) w = (a, w')"
  shows "rp_status a = 200" "aw_redis w' = redis_del (mfa_key jti) (aw_redis w)" "aw_mfa w' = aw_mfa w"
    "aw_db w' = issue_session (ae_now env) (dr_session d) (u_id u) (ae_sha256 env (dr_refresh d)) (aw_db w)"
    "rp_set a = session_cookies d"
    "get_field (rp_body a) ''token'' = JStr (signAccessToken env d u (Some (dr_session d)))"
  using assms by (auto simp: mfa_finish_def consumeMfaChallengeJti_def issueLoginSession_def get_field_def)

lemma mfa_validate_gives:
  assumes "mfa_validate_route env d q w = (a, w')"
  shows "(rp_status a = 200 \<and>
      (\<exists>jti u. redeems env q w jti u \<and> factor_shown env q (u_id u) w w' \<and>
         redis_get t (aw_redis w') (mfa_key jti) = None \<and>
         aw_db w' = issue_session (ae_now env) (dr_session d) (u_id u) (ae_sha256 env (dr_refresh d)) (aw_db w) \<and>
         get_field (rp_body a) ''token'' = JStr (signAccessToken env d u (Some (dr_session d))))) \<or>
    (rp_status a = 200 \<and>
      (\<exists>p u. requireRole env [] q = Inr p \<and> user_of p w = Some u \<and> factor_shown env q (u_id u) w w' \<and>
         aw_db w' = aw_db w \<and> aw_redis w' = aw_redis w \<and> rp_set a = [] \<and>
         get_field (rp_body a) ''mfa_token'' = JStr (signMfaToken env d p))) \<or>
    (rp_status a \<noteq> 200 \<and> aw_db w' = aw_db w \<and> rp_set a = [])"
proof (cases "mfa_check env q w")
  case (Pair x w1)
  show ?thesis
  proof (cases x)
    case (Inl b)
    then show ?thesis
      using assms Pair mfa_check_refused [of env q w b w1] by (auto simp: mfa_validate_route_def)
  next
    case (Inr c)
    have check: "mfa_check env q w = (Inr c, w1)" using Pair Inr by simp
    note passed = mfa_check_passed [OF check]
    have a: "mfa_finish env d q c w1 = (a, w')" using assms check by (simp add: mfa_validate_route_def)
    have keep: "aw_db w1 = aw_db w" "aw_redis w1 = aw_redis w"
      by (subst passed(3), simp)+
    show ?thesis
    proof (cases "truthy (body_field q ''mfa_challenge_token'')")
      case True
      then obtain jti u where c: "c = ByChallenge jti u" "redeems env q w jti u" "redis_answers (aw_redis w1)"
        using passed(1) keep by (auto elim: challenge_claim_Inr)
      note given = finish_challenge [OF c(3) a [unfolded c(1)]]
      have "factor_shown env q (u_id u) w w'"
        using passed(2) given(3) by (simp add: c(1) claimed_user_def factor_shown_def)
      moreover have "redis_get t (aw_redis w') (mfa_key jti) = None"
        using given(2) by (simp add: redis_get_del)
      ultimately show ?thesis using c(2) given keep by metis
    next
      case False
      then obtain p u where c: "requireRole env [] q = Inr p" "user_of p w = Some u" "c = BySession p u"
        using passed(1) by (auto simp: session_claim_def split: sum.splits option.splits)
      then show ?thesis
        using a passed(2) keep by (auto simp: mfa_finish_def claimed_user_def get_field_def)
    qed
  qed
qed

text \<open>
  Claim C6. What \<open>/mfa/validate\<close> gives and for what. A session comes only out of a verified login
  challenge whose id is stored and then gone, for the active account it names, with a code of
  that account's authenticator or a backup code that is gone afterwards. A step-up token comes
  only out of a valid session, with such a factor, and no session with it. Every other answer gives
  neither.
\<close>

theorem second_factor_contract:
  assumes "mfa_validate_route env d q w = (a, w')"
  shows "(rp_status a = 200 \<and>
      (\<exists>jti u. redeems env q w jti u \<and> factor_shown env q (u_id u) w w' \<and>
         redis_get t (aw_redis w') (mfa_key jti) = None \<and>
         aw_db w' = issue_session (ae_now env) (dr_session d) (u_id u) (ae_sha256 env (dr_refresh d)) (aw_db w) \<and>
         get_field (rp_body a) ''token'' = JStr (signAccessToken env d u (Some (dr_session d))))) \<or>
    (rp_status a = 200 \<and>
      (\<exists>p u. requireRole env [] q = Inr p \<and> user_of p w = Some u \<and> factor_shown env q (u_id u) w w' \<and>
         aw_db w' = aw_db w \<and> aw_redis w' = aw_redis w \<and> rp_set a = [] \<and>
         get_field (rp_body a) ''mfa_token'' = JStr (signMfaToken env d p))) \<or>
    (rp_status a \<noteq> 200 \<and> aw_db w' = aw_db w \<and> rp_set a = [])"
  using assms by (rule mfa_validate_gives)

text \<open>
  The challenge is not single-use: its id is looked up before the factor is checked and
  deleted after, and deleting an id that is gone succeeds too. Two requests with the same
  challenge and the same code of the authenticator that both reach the look-up before either
  finishes both get a session.
\<close>

lemma challenge_redeemed_twice:
  assumes "mfa_check env q w = (Inr (ByChallenge jti u), w)"
  shows "\<exists>a1 a2 w1 w2. mfa_check env q w = (Inr (ByChallenge jti u), w) \<and>
    mfa_finish env d q (ByChallenge jti u) w = (a1, w1) \<and> mfa_finish env d' q (ByChallenge jti u) w1 = (a2, w2) \<and>
    rp_status a1 = 200 \<and> rp_status a2 = 200 \<and>
    aw_db w2 = issue_session (ae_now env) (dr_session d') (u_id u) (ae_sha256 env (dr_refresh d'))
      (issue_session (ae_now env) (dr_session d) (u_id u) (ae_sha256 env (dr_refresh d)) (aw_db w))"
proof -
  have "redis_answers (aw_redis w)"
    using mfa_check_passed(1) [OF assms]
    by (auto split: if_splits sum.splits option.splits simp: session_claim_def elim!: challenge_claim_Inr)
  moreover obtain a1 w1 where 1: "mfa_finish env d q (ByChallenge jti u) w = (a1, w1)" by fastforce
  ultimately have given: "rp_status a1 = 200" "redis_answers (aw_redis w1)"
    "aw_db w1 = issue_session (ae_now env) (dr_session d) (u_id u) (ae_sha256 env (dr_refresh d)) (aw_db w)"
    using finish_challenge [of w env d q jti u a1 w1] by simp_all
  obtain a2 w2 where 2: "mfa_finish env d' q (ByChallenge jti u) w1 = (a2, w2)" by fastforce
  show ?thesis using assms 1 2 given finish_challenge [OF given(2) 2] by auto
qed

subsection \<open>A login with a second factor\<close>

definition mfa_env :: "int \<Rightarrow> auth_env" where
  "mfa_env t = (svc_env t)\<lparr>ae_verify_challenge := (\<lambda>tok. Verified (JObj [(''purpose'', JStr ''mfa_challenge''),
     (''jti'', JStr ''j''), (''sub'', JStr ''7'')]))\<rparr>"

definition mfa_world :: auth_world where
  "mfa_world = svc_world\<lparr>aw_mfa := [(7, \<lparr>mf_secret = ''k'', mf_codes = [JStr ''a1b2''], mf_enabled = True,
       mf_shown = True, mf_expires = Some 100\<rparr>)],
     aw_redis := \<lparr>redis_open = True, redis_throws = False, redis_keys = [(mfa_key ''j'', ''7'', 300000)]\<rparr>\<rparr>"

definition validate_request :: "(string \<times> jsv) list \<Rightarrow> auth_http" where
  "validate_request fs = \<lparr>hq_body = JObj ((''mfa_challenge_token'', JStr ''signed'') # fs), hq_headers = [],
     hq_cookies = [], hq_ip = ''10.0.0.1'', hq_params = [], hq_query = JUndef\<rparr>"

abbreviation "with_code \<equiv> validate_request [(''backup_code'', JStr '' A1b2 '')]"
abbreviation "with_totp \<equiv> validate_request [(''token'', JStr ''k'')]"

lemma twice_start: "mfa_check (mfa_env 5) with_totp mfa_world = (Inr (ByChallenge ''j'' ada), mfa_world)"
  by code_simp

theorem second_factor_contract_witness:
  "rp_status (fst (mfa_validate_route (mfa_env 5) some_draws with_code mfa_world)) = 200 \<and>
   redis_get 6 (aw_redis (snd (mfa_validate_route (mfa_env 5) some_draws with_code mfa_world))) (mfa_key ''j'') = None"
proof -
  let ?r = "mfa_validate_route (mfa_env 5) some_draws with_code mfa_world"
  have s: "rp_status (fst ?r) = 200" by code_simp
  have "requireRole (mfa_env 5) [] with_code = Inl (failure 401 ''Authentication required'')" by code_simp
  then obtain jti u where "redeems (mfa_env 5) with_code mfa_world jti u"
    "redis_get 6 (aw_redis (snd ?r)) (mfa_key jti) = None"
    using second_factor_contract [of "mfa_env 5" some_draws with_code mfa_world "fst ?r" "snd ?r" 6] s by auto
  moreover have "jti = ''j''" if "redeems (mfa_env 5) with_code mfa_world jti u" for jti u
    using that by (auto simp: redeems_def mfa_env_def get_field_def)
  ultimately show ?thesis using s by auto
qed

lemma challenge_redeemed_twice_witness:
  "\<exists>a1 a2 w1 w2. mfa_finish (mfa_env 5) some_draws with_totp (ByChallenge ''j'' ada) mfa_world = (a1, w1) \<and>
     mfa_finish (mfa_env 5) some_draws with_totp (ByChallenge ''j'' ada) w1 = (a2, w2) \<and>
     rp_status a1 = 200 \<and> rp_status a2 = 200"
  using challenge_redeemed_twice [OF twice_start, of some_draws some_draws] by blast

end
