(* ===== verification/Auth_Client.thy ===== *)
theory Auth_Client
  imports Auth_Mfa Auth_Store Gateway
begin

section \<open>Signing in and out across client, auth service and gateway\<close>

text \<open>
  The replies of the auth service given to the auth store of the client
  (\<open>frontend/src/stores/auth-store.ts\<close>), and the denylist a logout writes read by the gateway
  (\<open>revokeCheck\<close> in \<open>services/api-gateway-node/index.js\<close>).
\<close>

subsection \<open>The reply of a login as the client reads it\<close>

definition role_known :: "string \<Rightarrow> bool" where
  "role_known r \<longleftrightarrow> r \<in> {''admin'', ''hr'', ''manager'', ''employee''}"

lemma login_body_accepted:
  assumes "zod_exact parse mail"
  shows "parse loginResponseSchema (session_body env d u b st) \<longleftrightarrow>
         signAccessToken env d u (Some (dr_session d)) \<noteq> [] \<and> mail (u_email u) \<and> role_known (u_role u)"
    and "parse loginResponseSchema (challenge_body env d u st)"
proof -
  have u: "parse user_schema (sanitizeUser u) \<longleftrightarrow> mail (u_email u) \<and> role_known (u_role u)"
    unfolding sanitizeUser_def by (auto simp: zod_exact.user_accepted [OF assms(1)] get_field_def role_known_def)
  show "parse loginResponseSchema (session_body env d u b st) \<longleftrightarrow>
         signAccessToken env d u (Some (dr_session d)) \<noteq> [] \<and> mail (u_email u) \<and> role_known (u_role u)"
    using u
    by (auto simp: loginResponseSchema_def zod_shorthands zod_exact.zod_iff [OF assms(1)] get_field_def
        session_body_def password_status_fields_def sanitizeUser_def Suc_le_eq)
  show "parse loginResponseSchema (challenge_body env d u st)"
    by (auto simp: loginResponseSchema_def zod_shorthands zod_exact.zod_iff [OF assms(1)] get_field_def
        challenge_body_def password_status_fields_def)
qed

text \<open>
  Claim C25. From the login form to the client's state. When the auth service answers a login with
  200, the client asks for the second factor with the challenge of that reply, or it holds the
  access token of the session just stored and shows that account, with the cookie set; but an
  account whose role or e-mail address the response schema does not know is told the reply was
  invalid, although the service has stored its session.
\<close>

theorem sign_in_end_to_end:
  assumes "zod_exact (parse_schema h) mail" and "\<And>k c. ae_sign env k c \<noteq> []"
    and "login_route env d q s = (a, s')" and "rp_status a = 200"
    and "login h (Inr (rp_body a)) CookieServed w = (w', r)"
  shows "\<exists>u. user_by_email (login_email q) s = Some u \<and>
    (if mfa_required (u_id u) s then
       aw_db s' = aw_db s \<and> user (store w') = user (store w) \<and> mfaRequired (store w') \<and>
       r = Inr (Some (signMfaChallengeToken env d u)) \<and>
       mfaChallengeToken (store w') = Some (signMfaChallengeToken env d u)
     else
       aw_db s' = issue_session (ae_now env) (dr_session d) (u_id u) (ae_sha256 env (dr_refresh d)) (aw_db s) \<and>
       (if mail (u_email u) \<and> role_known (u_role u) then
          r = Inr None \<and> user (store w') = Some (sanitizeUser u) \<and>
          inMemoryToken (mem w') = Some (signAccessToken env d u (Some (dr_session d))) \<and>
          map_option cookie_value (cookies w') = Some (signAccessToken env d u (Some (dr_session d)))
        else r = Inl ''Invalid API response format'' \<and> mem w' = mem w \<and> cookies w' = cookies w \<and>
          user (store w') = user (store w)))"
proof -
  obtain u where u: "user_by_email (login_email q) s = Some u"
    and given: "if mfa_required (u_id u) s then challenged env d u a s s' else signed_in_as env d u a s s'"
    using login_gives [OF assms(3)] assms(4) by auto
  have tok: "signAccessToken env d u (Some (dr_session d)) \<noteq> []" "signMfaChallengeToken env d u \<noteq> []"
    using assms(2) by (simp_all add: signAccessToken_def signMfaChallengeToken_def)
  note accepted = login_body_accepted [OF assms(1)]
  show ?thesis
  proof (cases "mfa_required (u_id u) s")
    case True
    then obtain st where b: "rp_body a = challenge_body env d u st" and db: "aw_db s' = aw_db s"
      using given by (auto simp: challenged_def nothing_given_def)
    have f: "get_field (challenge_body env d u st) ''mfa_required'' = JBool True"
      "get_field (challenge_body env d u st) ''mfa_challenge_token'' = JStr (signMfaChallengeToken env d u)"
      by (simp_all add: challenge_body_def get_field_def)
    show ?thesis
      using assms(5) u True db tok accepted(2)
      by (auto simp: b login_def authApi_login_def validateResponse_def asks_mfa_def f start_mfa_def)
  next
    case False
    then obtain b st where b: "rp_body a = session_body env d u b st"
      and db: "aw_db s' = issue_session (ae_now env) (dr_session d) (u_id u) (ae_sha256 env (dr_refresh d)) (aw_db s)"
      using given by (auto simp: signed_in_as_def)
    have f: "get_field (session_body env d u b st) ''mfa_required'' = JBool False"
      "get_field (session_body env d u b st) ''token'' = JStr (signAccessToken env d u (Some (dr_session d)))"
      "get_field (session_body env d u b st) ''user'' = sanitizeUser u"
      by (simp_all add: session_body_def get_field_def)
    have "truthy (sanitizeUser u)" by (simp add: sanitizeUser_def)
    then show ?thesis
      using assms(5) u False db tok accepted(1) [of env d u b st]
      by (auto simp: b login_def authApi_login_def validateResponse_def asks_mfa_def f adopt_session_served
          split: if_splits)
  qed
qed

subsection \<open>After a logout\<close>

lemma redis_get_denylist:
  assumes "k \<in> set keys" and "t < of_int now + 15 * 60 * 1000"
  shows "redis_get t (denylist now keys r) k = Some ''1''"
  using assms(1)
proof (induction keys arbitrary: r rule: rev_induct)
  case (snoc x xs)
  then show ?case using assms(2) by (cases "k = x") (auto simp: denylist_def redis_get_set)
qed simp

lemma set_fold_set_add: "set (fold set_add xs ys) = set xs \<union> set ys"
  by (induction xs arbitrary: ys) auto

lemma access_claims_fields:
  "get_field (access_claims env u sid jti) ''jti'' = JStr jti"
  "get_field (access_claims env u sid jti) ''exp'' = JNum (of_int (ae_now env div 1000 + 15 * 60))"
  by (simp_all add: access_claims_def signed_claims_def get_field_def)

text \<open>
  Claim C22. A logout that is answered with 200 ends the access token it came with, for good: for as
  long as the token could still be verified, the gateway turns it away from every protected path,
  because what is left of its quarter of an hour is no longer than its entry on the denylist. Of
  jsonwebtoken this takes that a verified token decodes to the same payload and has not expired;
  of the store, that it keeps the entry.
\<close>

theorem logged_out_token_refused:
  assumes "logout_route env d q s = (a, s')" and "rp_status a = 200"
    and "bearer_of q = Some tok" and "ae_decode env tok = Some (access_claims env0 u sid jti)"
    and "jti \<noteq> []" and "ae_now env0 \<le> ae_now env"
    and "\<And>p e. verify_session genv tok = Verified p \<Longrightarrow> ae_decode env tok = Some p \<and>
      (get_field p ''exp'' = JNum e \<longrightarrow> of_int (now_ms genv div 1000) < e)"
    and "\<And>t. redis_get t r (''denylist:jti:'' @ jti) = redis_get t (aw_redis s') (''denylist:jti:'' @ jti)"
    and "session_token g = (Some tok, scheme)" and "needsAuth (g_path g)" and "\<not> isPublicOrAuthPath (g_path g)"
  shows "\<exists>e. authMiddleware genv r g = Inl e \<and> re_status e \<in> {401, 503}"
proof (cases "verify_session genv tok")
  case (VerifyFails n)
  then show ?thesis using assms(9-11) by (auto simp: authMiddleware_def refusal_of_def)
next
  case (Verified p)
  let ?k = "''denylist:jti:'' @ jti"
  have p: "p = access_claims env0 u sid jti" using assms(4,7) Verified by simp
  have "now_ms genv div 1000 < ae_now env0 div 1000 + 15 * 60"
    using assms(7) [OF Verified] access_claims_fields(2) p by (metis of_int_less_iff)
  then have t: "now_ms genv < ae_now env + 15 * 60 * 1000" using assms(6) by linarith
  have k: "?k \<in> set (logout_keys env q)"
    using assms(3-5) by (simp add: logout_keys_def set_fold_set_add Let_def access_claims_fields)
  then have ne: "logout_keys env q \<noteq> []" by auto
  have "aw_redis s' = denylist (ae_now env) (logout_keys env q) (aw_redis s)"
    using assms(1,2) ne by (auto simp: logout_route_def Let_def logged_out_def split: if_splits)
  then have "redis_get (of_int (now_ms genv)) r ?k = Some ''1''"
    using assms(8) redis_get_denylist [OF k] t by simp
  moreover have "?k \<in> set (denylist_keys p)"
    using assms(5) by (simp add: p denylist_keys_def access_claims_fields)
  ultimately have "\<exists>e. revokeCheck (of_int (now_ms genv)) r p = Some e \<and> re_status e \<in> {401, 503}"
    by (fastforce simp: revokeCheck_def authStoreUnavailable_def refusal_of_def falsy_string_def)
  then show ?thesis
    using assms(9-11) Verified by (auto simp: authMiddleware_def refusal_of_def)
qed

subsection \<open>The step-up token\<close>

lemma string_of_nat_nonempty: "string_of_nat n \<noteq> []"
  by (subst string_of_nat.simps) simp

lemma number_to_string_nat: "0 < i \<Longrightarrow> number_to_string (of_int i) \<noteq> []"
  by (simp add: number_to_string_def Let_def string_of_nat_nonempty)

lemma tenant_nonempty: "tenant_or_default t \<noteq> []"
  by (auto simp: tenant_or_default_def falsy_string_def)

lemma step_up_fields:
  fixes env e0 u sid j0 jti
  defines "c \<equiv> step_up_token_claims env (access_claims e0 u sid j0) jti"
  shows "get_field c ''sub'' = JStr (number_to_string (of_int (u_id u)))"
    "get_field c ''tenant_id'' = JStr (tenant_or_default (u_tenant u))"
    "get_field c ''mfa_validated'' = JBool True" "get_field c ''purpose'' = JStr ''mfa_step_up''"
    "get_field c ''jti'' = JStr jti" "get_field c ''iat'' = JNum (of_int (ae_now env div 1000))"
    "get_field c ''exp'' = JNum (of_int (ae_now env div 1000 + 5 * 60))"
  by (simp_all add: c_def step_up_token_claims_def signed_claims_def subject_claims_def access_claims_def
      get_field_def coalesce_def nullish_def)

lemma step_up_claims_own:
  assumes "0 < u_id u" and "jti \<noteq> []"
  shows "step_up_claims (Some (access_claims e0 u sid j0)) (step_up_token_claims env (access_claims e0 u sid j0) jti) = None"
proof -
  have "authed_user (Some (access_claims e0 u sid j0)) = number_to_string (of_int (u_id u))"
    "authed_tenant (Some (access_claims e0 u sid j0)) = tenant_or_default (u_tenant u)"
    using assms(1) tenant_nonempty
    by (simp_all add: authed_user_def authed_tenant_def user_value_def access_claims_def signed_claims_def
        get_field_def js_or_def)
  moreover have "token_user (step_up_token_claims env (access_claims e0 u sid j0) jti) = number_to_string (of_int (u_id u))"
    using number_to_string_nat [OF assms(1)] by (simp add: token_user_def step_up_fields js_or_def)
  moreover have "token_tenant (step_up_token_claims env (access_claims e0 u sid j0) jti) = tenant_or_default (u_tenant u)"
    using tenant_nonempty by (simp add: token_tenant_def step_up_fields js_or_def)
  ultimately show ?thesis
    using assms(2) number_to_string_nat [OF assms(1)]
    unfolding step_up_claims_def by (simp only: step_up_fields truthy.simps) simp
qed

lemma stamp_in_range:
  "0 < s \<Longrightarrow> s * 1000 \<le> of_int now \<Longrightarrow> of_int now - s * 1000 \<le> 15 * 60 * 1000 \<Longrightarrow> stamp_is_fresh now (JNum s)"
  by (simp add: stamp_is_fresh_def MFA_STAMP_CLOCK_SKEW_MS_def MFA_STAMP_MAX_AGE_MS_def Let_def)

lemma stamp_of_issue:
  assumes "ae_now env \<le> now" and "now < ae_now env + 5 * 60 * 1000" and "1000 \<le> ae_now env"
  shows "stamp_is_fresh now (JNum (of_int (ae_now env div 1000)))"
proof (rule stamp_in_range)
  have "ae_now env div 1000 * 1000 \<le> now" "now - ae_now env div 1000 * 1000 \<le> 15 * 60 * 1000"
    "0 < ae_now env div 1000"
    using assms by linarith+
  then have "(of_int (ae_now env div 1000 * 1000) :: rat) \<le> of_int now"
    "(of_int (now - ae_now env div 1000 * 1000) :: rat) \<le> of_int (15 * 60 * 1000)"
    "(0 :: rat) < of_int (ae_now env div 1000)"
    by (simp_all only: of_int_le_iff of_int_0_less_iff)
  then show "(0 :: rat) < of_int (ae_now env div 1000)"
    "(of_int (ae_now env div 1000) :: rat) * 1000 \<le> of_int now"
    "of_int now - (of_int (ae_now env div 1000) :: rat) * 1000 \<le> 15 * 60 * 1000"
    by (simp_all only: of_int_mult of_int_diff of_int_numeral)
qed

text \<open>
  Claim C31. The step-up token the auth service signs for a session is the one the gateway asks for:
  on a sensitive route, for the user of that session, it is taken while it lives, and a write uses
  it up, so that the same token is refused from then on.
\<close>

theorem step_up_round_trip:
  fixes e0 u sid j0 d p jti
  defines "p \<equiv> access_claims e0 u sid j0" and "jti \<equiv> dr_jti d"
  assumes "isSensitiveRoute (g_path g)" and "0 < u_id u" and "jti \<noteq> []" and "signMfaToken env d p \<noteq> []"
    and "map_get (g_headers g) ''x-mfa-token'' = Some (signMfaToken env d p)"
    and "verify_step_up genv (signMfaToken env d p) = Verified (step_up_token_claims env p jti)"
    and "1000 \<le> ae_now env" and "ae_now env \<le> now_ms genv" and "now_ms genv < ae_now env + 5 * 60 * 1000"
    and "redis_answers r" and "redis_get (of_int (now_ms genv)) r (''mfa_jti:'' @ jti) = None"
  shows "\<exists>r'. mfaStepUpMiddleware genv r g (Some p) = (None, r') \<and>
    (\<not> safe_method (g_method g) \<longrightarrow>
      (\<forall>later. verify_step_up later = verify_step_up genv \<and> now_ms later < (ae_now env div 1000 + 5 * 60) * 1000 \<longrightarrow>
         (\<exists>e. mfaStepUpMiddleware later r' g (Some p) = (Some e, r'))))"
proof -
  let ?c = "step_up_token_claims env p jti" and ?k = "''mfa_jti:'' @ jti"
  have unstamped: "\<not> sessionMfaStampIsFresh t (Some p)" for t
    by (simp add: sessionMfaStampIsFresh_def user_value_def p_def access_claims_def signed_claims_def
        get_field_def stamp_is_fresh_def)
  have claims: "step_up_claims (Some p) ?c = None"
    using step_up_claims_own assms(4,5) by (simp add: p_def)
  have m: "mfaStepUpMiddleware v x g (Some p) =
      (if safe_method (g_method g) then
         (if stepUpPayloadIsFresh (now_ms v) ?c then (None, x)
          else (Some (refusal_of 403 ''MFA step-up is stale''), x))
       else consumeMfaJti (of_int (now_ms v)) x jti (step_up_expiry (now_ms v) ?c))"
    if "verify_step_up v = verify_step_up genv" for v x
    using assms(3,6-8) that unstamped claims
    by (simp add: mfaStepUpMiddleware_def falsy_string_def step_up_fields p_def)
  show ?thesis
  proof (cases "safe_method (g_method g)")
    case True
    have "stepUpPayloadIsFresh (now_ms genv) ?c"
      using stamp_of_issue assms(9-11) by (simp add: stepUpPayloadIsFresh_def step_up_fields p_def)
    then show ?thesis using m [of genv] True by auto
  next
    case False
    let ?exp = "of_int ((ae_now env div 1000 + 5 * 60) * 1000) :: rat"
    have exp: "step_up_expiry t ?c = ?exp" for t
    proof -
      have "ae_now env div 1000 + 5 * 60 \<noteq> 0" using assms(9) by linarith
      then have "(of_int (ae_now env div 1000 + 5 * 60) :: rat) \<noteq> 0" by (metis of_int_eq_0_iff)
      then show ?thesis
        unfolding step_up_expiry_def p_def step_up_fields truthy.simps number_or_zero_def js_number.simps
          of_int_mult by simp
    qed
    obtain r' where r': "consumeMfaJti (of_int (now_ms genv)) r jti ?exp = (None, r')"
      using assms(12,13) by (auto simp: consumeMfaJti_def redis_answers_def Let_def)
    have "\<exists>e. mfaStepUpMiddleware later r' g (Some p) = (Some e, r')"
      if "verify_step_up later = verify_step_up genv" "now_ms later < (ae_now env div 1000 + 5 * 60) * 1000" for later
    proof -
      have "redis_get (of_int (now_ms later)) r' ?k = Some ''1''"
        using consumeMfaJti_passed(2) [OF r'] that(2) by (simp only: of_int_less_iff)
      then show ?thesis
        using m [OF that(1), of r'] False consumeMfaJti_replay exp by auto
    qed
    then show ?thesis using m [of genv r] False exp r' by auto
  qed
qed



lemma zod_accepts_exact: "zod_exact (zod_accepts n mail) mail"
  by unfold_locales

definition browser :: host where
  "browser = \<lparr>parse_schema = zod_accepts 1 (\<lambda>s. CHR ''@'' \<in> set s), stringify = (\<lambda>v. ''{}''),
     production = True, window_there = True\<rparr>"

theorem sign_in_end_to_end_witness:
  "inMemoryToken (mem (fst (login browser
     (Inr (rp_body (fst (login_route (svc_env 5) some_draws (sign_in_request ''Right1pw'') svc_world))))
     CookieServed signed_out))) = Some ''signed''"
proof -
  let ?r = "login_route (svc_env 5) some_draws (sign_in_request ''Right1pw'') svc_world"
  let ?l = "login browser (Inr (rp_body (fst ?r))) CookieServed signed_out"
  have "zod_exact (parse_schema browser) (\<lambda>s. CHR ''@'' \<in> set s)"
    by (simp add: browser_def zod_accepts_exact)
  moreover have "ae_sign (svc_env 5) k c \<noteq> []" for k c by (simp add: svc_env_def)
  moreover have "rp_status (fst ?r) = 200" by code_simp
  moreover have "user_by_email (login_email (sign_in_request ''Right1pw'')) svc_world = Some ada" by code_simp
  moreover have "\<not> mfa_required (u_id ada) svc_world" "CHR ''@'' \<in> set (u_email ada)" "role_known (u_role ada)"
    by code_simp+
  moreover have "signAccessToken (svc_env 5) some_draws ada (Some (dr_session some_draws)) = ''signed''"
    by (simp add: signAccessToken_def svc_env_def)
  ultimately show ?thesis
    using sign_in_end_to_end [of browser "\<lambda>s. CHR ''@'' \<in> set s" "svc_env 5" some_draws
      "sign_in_request ''Right1pw''" svc_world "fst ?r" "snd ?r" signed_out "fst ?l" "snd ?l"] by auto
qed

text \<open>A logout with the access token of the session above, then a read with the same token.\<close>

definition logout_env :: auth_env where
  "logout_env = (svc_env 6000)\<lparr>ae_decode := (\<lambda>tok. Some (access_claims (svc_env 5) ada (Some ''s'') ''j''))\<rparr>"

definition logout_request :: auth_http where
  "logout_request = \<lparr>hq_body = JUndef, hq_headers = [(''authorization'', ''Bearer signed'')], hq_cookies = [],
     hq_ip = ''10.0.0.1'', hq_params = [], hq_query = JUndef\<rparr>"

definition gateway_at :: "int \<Rightarrow> gateway_env" where
  "gateway_at t = \<lparr>verify_session = (\<lambda>tok. if t div 1000 < 15 * 60
       then Verified (access_claims (svc_env 5) ada (Some ''s'') ''j'') else VerifyFails ''TokenExpiredError''),
     verify_step_up = (\<lambda>tok. VerifyFails ''JsonWebTokenError''), now_ms = t\<rparr>"

definition late_read :: gateway_request where
  "late_read = \<lparr>g_method = ''GET'', g_path = ''/api/leave/me'', g_headers = [(''authorization'', ''Bearer signed'')],
     g_csrf_cookie = None, g_query_token = None, g_body = JUndef\<rparr>"

theorem logged_out_token_refused_witness:
  "\<exists>e. authMiddleware (gateway_at 7000) (aw_redis (snd (logout_route logout_env some_draws logout_request svc_world)))
         late_read = Inl e \<and> re_status e \<in> {401, 503}"
proof (rule logged_out_token_refused [of logout_env some_draws logout_request svc_world
      "fst (logout_route logout_env some_draws logout_request svc_world)"
      "snd (logout_route logout_env some_draws logout_request svc_world)" "''signed''" "svc_env 5" ada
      "Some ''s''" "''j''" "gateway_at 7000" _ late_read "''bearer''"])
  show "rp_status (fst (logout_route logout_env some_draws logout_request svc_world)) = 200" by code_simp
  show "ae_decode logout_env ''signed'' = Some p \<and>
      (get_field p ''exp'' = JNum e \<longrightarrow> of_int (now_ms (gateway_at 7000) div 1000) < e)"
    if "verify_session (gateway_at 7000) ''signed'' = Verified p" for p e
    using that by (auto simp: gateway_at_def logout_env_def access_claims_fields svc_env_def)
qed (simp_all add: logout_env_def svc_env_def, code_simp+)

definition payroll_write :: gateway_request where
  "payroll_write = \<lparr>g_method = ''POST'', g_path = ''/api/payroll/run'',
     g_headers = [(''authorization'', ''Bearer signed''), (''x-mfa-token'', ''signed'')],
     g_csrf_cookie = None, g_query_token = None, g_body = JUndef\<rparr>"

definition stepped_up :: "int \<Rightarrow> gateway_env" where
  "stepped_up t = \<lparr>verify_session = (\<lambda>tok. VerifyFails ''JsonWebTokenError''),
     verify_step_up = (\<lambda>tok. Verified (step_up_token_claims (svc_env 2000)
       (access_claims (svc_env 5) ada (Some ''s'') ''i'') ''j'')), now_ms = t\<rparr>"

theorem step_up_round_trip_witness:
  "\<exists>r'. mfaStepUpMiddleware (stepped_up 3000) (aw_redis svc_world) payroll_write
      (Some (access_claims (svc_env 5) ada (Some ''s'') ''i'')) = (None, r')"
proof -
  let ?p = "access_claims (svc_env 5) ada (Some ''s'') ''i''"
  have "isSensitiveRoute (g_path payroll_write)" "0 < u_id ada" "dr_jti some_draws \<noteq> []" by code_simp+
  moreover have "signMfaToken (svc_env 2000) some_draws ?p = ''signed''" by (simp add: signMfaToken_def svc_env_def)
  moreover have "map_get (g_headers payroll_write) ''x-mfa-token'' = Some ''signed''" by code_simp
  moreover have "verify_step_up (stepped_up 3000) ''signed'' =
      Verified (step_up_token_claims (svc_env 2000) ?p (dr_jti some_draws))"
    by (simp add: stepped_up_def some_draws_def)
  moreover have "redis_answers (aw_redis svc_world)" by code_simp
  moreover have "redis_get (of_int (now_ms (stepped_up 3000))) (aw_redis svc_world) (''mfa_jti:'' @ dr_jti some_draws) = None"
    by (simp add: redis_get_def svc_world_def)
  ultimately show ?thesis
    using step_up_round_trip [of payroll_write ada some_draws "svc_env 2000" "svc_env 5" "Some ''s''" "''i''"
      "stepped_up 3000" "aw_redis svc_world"]
    by (auto simp: svc_env_def stepped_up_def)
qed

end
