(* ===== verification/Auth_Devices.thy ===== *)
theory Auth_Devices
  imports Auth_Mfa
begin

section \<open>The auth service: sessions and devices\<close>

text \<open>
  The routes under \<open>/sessions\<close> and \<open>/devices\<close> of \<open>services/auth-service/index.js\<close>. The user is
  that of the verified token. An id in a path or a page in a query is read by \<open>parseInt\<close>; one that
  does not fit the type of its column makes the statement fail.
\<close>

subsection \<open>Pages\<close>

definition page_limit :: "jsv \<Rightarrow> int" where
  "page_limit query =
     (case parse_int (get_field query ''limit'') of
        None \<Rightarrow> 50
      | Some n \<Rightarrow> min (max (if n = 0 then 50 else n) 1) 100)"

definition page_offset :: "jsv \<Rightarrow> int" where
  "page_offset query =
     (case parse_int (get_field query ''offset'') of None \<Rightarrow> 0 | Some n \<Rightarrow> max n 0)"

definition page_of :: "jsv \<Rightarrow> 'a list \<Rightarrow> 'a list" where
  "page_of query rows = take (nat (page_limit query)) (drop (nat (page_offset query)) rows)"

definition bigint_max :: int where "bigint_max = 2 ^ 63 - 1"

definition fits_integer :: "int \<Rightarrow> bool" where
  "fits_integer i \<longleftrightarrow> - (2 ^ 31) \<le> i \<and> i < 2 ^ 31"

definition optional_iso :: "auth_env \<Rightarrow> int option \<Rightarrow> jsv" where
  "optional_iso env t = (case t of Some n \<Rightarrow> JStr (ae_iso env n) | None \<Rightarrow> JNull)"

subsection \<open>Sessions\<close>

definition session_json :: "auth_env \<Rightarrow> session_row \<times> session_meta \<Rightarrow> jsv" where
  "session_json env p =
     (case p of (s, m) \<Rightarrow>
        JObj [(''id'', JStr (se_id s)), (''ip_address'', JStr (sm_ip m)), (''user_agent'', JStr (sm_agent m)),
          (''device_id'', null_or (sm_device m)), (''is_active'', JBool (se_active s)),
          (''created_at'', JStr (ae_iso env (sm_created m))),
          (''expires_at'', JStr (ae_iso env (sm_expires m)))])"

text \<open>The rows of a user with their other columns, newest first.\<close>

definition sessions_of :: "int \<Rightarrow> auth_world \<Rightarrow> (session_row \<times> session_meta) list" where
  "sessions_of i w =
     sort_by (\<lambda>x y. sm_created (snd y) \<le> sm_created (snd x))
       (List.map_filter (\<lambda>s. map_option (Pair s) (map_get (aw_sessions w) (se_id s)))
          (filter (\<lambda>s. se_user s = i) (sessions (aw_db w))))"

definition sessions_route :: "jsv \<Rightarrow> handler" where
  "sessions_route payload env d q w =
     (if bigint_max < page_offset (hq_query q) then (failure 500 ''Failed to list sessions'', w)
      else
        (reply 200 (JArr (map (session_json env)
           (case claim_id payload of Some i \<Rightarrow> page_of (hq_query q) (sessions_of i w) | None \<Rightarrow> []))), w))"

text \<open>The claims of the token of the request as \<open>jwt.decode\<close> reads them.\<close>

definition own_claim :: "auth_env \<Rightarrow> auth_http \<Rightarrow> string \<Rightarrow> string list" where
  "own_claim env q k =
     (case bearer_of q of
        None \<Rightarrow> []
      | Some t \<Rightarrow>
          (case ae_decode env t of
             None \<Rightarrow> []
           | Some p \<Rightarrow>
               if truthy (get_field p k) then [''denylist:'' @ k @ '':'' @ js_string (get_field p k)] else []))"

definition param :: "auth_http \<Rightarrow> string \<Rightarrow> string" where
  "param q k = (case map_get (hq_params q) k of Some v \<Rightarrow> v | None \<Rightarrow> [])"

text \<open>
  The statements on the tables are done when redis throws. The denylist gets the id as it was
  written in the path, and the ids of the caller's own token and session.
\<close>

definition revoke_session_route :: "jsv \<Rightarrow> handler" where
  "revoke_session_route payload env d q w =
     (let sid = param q ''id'';
          mine = (\<lambda>s. se_id s = to_lower sid \<and> Some (se_user s) = claim_id payload)
      in if \<not> uuid_shape sid then (failure 400 ''Invalid session id'', w)
         else if \<not> list_ex mine (sessions (aw_db w)) then (failure 404 ''Session not found'', w)
         else
           (let w1 = w\<lparr>aw_db := snd (revoke_sessions mine (aw_db w))\<rparr>
            in if \<not> redis_open (aw_redis w) then (failure 200 ''Session revoked'', w1)
               else if redis_throws (aw_redis w) then (failure 500 ''Failed to revoke session'', w1)
               else
                 (failure 200 ''Session revoked'',
                  w1\<lparr>aw_redis := denylist (ae_now env)
                       ([''denylist:sid:'' @ sid] @ own_claim env q ''jti'' @ own_claim env q ''sid'')
                       (aw_redis w)\<rparr>)))"

text \<open>
  With \<open>x-session-id\<close> every session but that one. When redis throws, only the tokens of the first
  session revoked are gone.
\<close>

definition revoke_sessions_route :: "jsv \<Rightarrow> handler" where
  "revoke_sessions_route payload env d q w =
     (let sid = header_of q ''x-session-id'';
          mine = (\<lambda>s. Some (se_user s) = claim_id payload \<and>
                    (falsy_string sid \<or> se_id s \<noteq> to_lower (the sid)));
          hashes = map se_hash (filter mine (sessions (aw_db w)));
          gone = (\<lambda>hs db. fold (\<lambda>h. drop_rotated (\<lambda>r. ro_hash r = h) \<circ> drop_tokens (\<lambda>r. rf_hash r = h)) hs db)
      in if \<not> falsy_string sid \<and> \<not> uuid_shape (the sid) then (failure 400 ''Invalid session id'', w)
         else if redis_open (aw_redis w) \<and> redis_throws (aw_redis w) \<and> hashes \<noteq> [] then
           (failure 500 ''Failed to revoke sessions'',
            w\<lparr>aw_db := gone [hd hashes] (deactivate mine (aw_db w))\<rparr>)
         else
           (let db = snd (revoke_sessions mine (aw_db w));
                sids = List.map_filter (\<lambda>h. map_option (\<lambda>s. ''denylist:sid:'' @ se_id s)
                         (find (\<lambda>s. se_hash s = h) (sessions db))) hashes
            in (failure 200 ''Other sessions revoked'',
                if redis_answers (aw_redis w)
                then w\<lparr>aw_db := db,
                       aw_redis := denylist (ae_now env) (sids @ own_claim env q ''jti'') (aw_redis w)\<rparr>
                else w\<lparr>aw_db := db\<rparr>)))"

subsection \<open>Devices\<close>

definition device_columns :: "auth_env \<Rightarrow> device_row \<Rightarrow> (string \<times> jsv) list" where
  "device_columns env r =
     [(''id'', JNum (of_int (dv_id r))), (''device_id'', JStr (dv_device r)),
      (''device_name'', null_or (dv_name r)), (''device_type'', null_or (dv_type r)),
      (''os'', null_or (dv_os r)), (''browser'', null_or (dv_browser r))]"

definition device_json :: "auth_env \<Rightarrow> device_row \<Rightarrow> jsv" where
  "device_json env r =
     JObj (device_columns env r @
       [(''ip_address'', JStr (dv_ip r)), (''is_trusted'', JBool (dv_trusted r)),
        (''last_used_at'', optional_iso env (dv_used r)), (''created_at'', JStr (ae_iso env (dv_created r)))])"

text \<open>A field of the body as a parameter: missing and \<open>null\<close> are \<open>NULL\<close>.\<close>

definition text_param :: "auth_env \<Rightarrow> jsv \<Rightarrow> string option" where
  "text_param env v = (if nullish v then None else Some (pg_text env v))"

definition COALESCE :: "'a option \<Rightarrow> 'a option \<Rightarrow> 'a option" where
  "COALESCE a b = (case a of Some x \<Rightarrow> Some x | None \<Rightarrow> b)"

definition described :: "auth_env \<Rightarrow> auth_http \<Rightarrow> device_row \<Rightarrow> device_row" where
  "described env q r =
     r\<lparr>dv_name := COALESCE (text_param env (body_field q ''device_name'')) (dv_name r),
       dv_type := COALESCE (text_param env (body_field q ''device_type'')) (dv_type r),
       dv_os := COALESCE (text_param env (body_field q ''os'')) (dv_os r),
       dv_browser := COALESCE (text_param env (body_field q ''browser'')) (dv_browser r),
       dv_fingerprint := pg_text env (body_field q ''fingerprint''),
       dv_ip := hq_ip q, dv_used := Some (ae_now env)\<rparr>"

definition new_device :: "auth_env \<Rightarrow> auth_http \<Rightarrow> int \<Rightarrow> int \<Rightarrow> device_row" where
  "new_device env q k i =
     described env q
       \<lparr>dv_id = k, dv_user = i, dv_device = pg_text env (body_field q ''device_id''), dv_name = None,
        dv_type = None, dv_os = None, dv_browser = None, dv_ip = [], dv_fingerprint = [],
        dv_trusted = False, dv_used = None, dv_created = ae_now env\<rparr>"

definition find_device :: "jsv \<Rightarrow> string \<Rightarrow> auth_world \<Rightarrow> device_row option" where
  "find_device payload dev w =
     find (\<lambda>r. Some (dv_user r) = claim_id payload \<and> dv_device r = dev) (aw_devices w)"

definition device_register_route :: "jsv \<Rightarrow> handler" where
  "device_register_route payload env d q w =
     (let dev = body_field q ''device_id''
      in if hq_body q = JUndef then (failure 500 ''Device registration failed'', w)
         else if \<not> truthy dev \<or> \<not> truthy (body_field q ''fingerprint'') then
           (failure 400 ''device_id and fingerprint are required'', w)
         else
           (case find_device payload (pg_text env dev) w of
              Some r \<Rightarrow>
                (reply 200 (device_json env (described env q r)),
                 w\<lparr>aw_devices := map (\<lambda>x. if dv_id x = dv_id r then described env q x else x) (aw_devices w)\<rparr>)
            | None \<Rightarrow>
                (case user_of payload w of
                   None \<Rightarrow> (failure 500 ''Device registration failed'', w)
                 | Some u \<Rightarrow>
                     (let r = new_device env q (aw_next_device w) (u_id u)
                      in (reply 201 (device_json env r),
                          w\<lparr>aw_devices := aw_devices w @ [r], aw_next_device := aw_next_device w + 1\<rparr>)))))"

text \<open>Newest use first, never used last.\<close>

definition device_list_route :: "jsv \<Rightarrow> handler" where
  "device_list_route payload env d q w =
     (if bigint_max < page_offset (hq_query q) then (failure 500 ''Failed to list devices'', w)
      else
        (reply 200 (JArr (map (device_json env) (page_of (hq_query q)
           (sort_by (\<lambda>x y. case (dv_used x, dv_used y) of
                             (Some a, Some b) \<Rightarrow> b \<le> a | (None, Some b) \<Rightarrow> False | _ \<Rightarrow> True)
              (filter (\<lambda>r. Some (dv_user r) = claim_id payload) (aw_devices w)))))), w))"

definition owned_device :: "jsv \<Rightarrow> int \<Rightarrow> device_row \<Rightarrow> bool" where
  "owned_device payload i r \<longleftrightarrow> dv_id r = i \<and> Some (dv_user r) = claim_id payload"

definition device_trust_route :: "jsv \<Rightarrow> handler" where
  "device_trust_route payload env d q w =
     (case parse_int (JStr (param q ''id'')) of
        None \<Rightarrow> (failure 400 ''Invalid device id'', w)
      | Some i \<Rightarrow>
          if \<not> fits_integer i then (failure 500 ''Failed to update device trust'', w)
          else
            (case find (owned_device payload i) (aw_devices w) of
               None \<Rightarrow> (failure 404 ''Device not found'', w)
             | Some r \<Rightarrow>
                 (reply 200 (JObj (device_columns env r @
                    [(''is_trusted'', JBool (\<not> dv_trusted r)), (''last_used_at'', optional_iso env (dv_used r))])),
                  w\<lparr>aw_devices := map (\<lambda>x. if owned_device payload i x then x\<lparr>dv_trusted := \<not> dv_trusted x\<rparr> else x)
                      (aw_devices w)\<rparr>)))"

definition device_remove_route :: "jsv \<Rightarrow> handler" where
  "device_remove_route payload env d q w =
     (case parse_int (JStr (param q ''id'')) of
        None \<Rightarrow> (failure 400 ''Invalid device id'', w)
      | Some i \<Rightarrow>
          if \<not> fits_integer i then (failure 500 ''Failed to remove device'', w)
          else
            (case find (owned_device payload i) (aw_devices w) of
               None \<Rightarrow> (failure 404 ''Device not found'', w)
             | Some _ \<Rightarrow>
                 (failure 200 ''Device removed'',
                  w\<lparr>aw_devices := filter (\<lambda>x. \<not> owned_device payload i x) (aw_devices w)\<rparr>)))"

text \<open>A nonce can be shown once in five minutes; it is taken before the device is looked up.\<close>

definition take_nonce :: "auth_env \<Rightarrow> jsv \<Rightarrow> auth_world \<Rightarrow> auth_reply option \<times> auth_world" where
  "take_nonce env nonce w =
     (let key = ''device_nonce:'' @ js_string nonce; r = aw_redis w
      in if \<not> truthy nonce then (None, w)
         else if \<not> redis_open r then (Some (failure 503 ''Nonce verification unavailable''), w)
         else if redis_throws r then (Some (failure 500 ''Device verification failed''), w)
         else if \<not> falsy_string (redis_get (of_int (ae_now env)) r key) then
           (Some (failure 400 ''Nonce already used''), w)
         else (None, w\<lparr>aw_redis := redis_set key ''1'' (of_int (ae_now env) + 300 * 1000) r\<rparr>))"

definition device_verify_route :: "jsv \<Rightarrow> handler" where
  "device_verify_route payload env d q w =
     (let dev = body_field q ''device_id''; fpr = body_field q ''fingerprint''
      in if hq_body q = JUndef then (failure 500 ''Device verification failed'', w)
         else if \<not> truthy dev \<or> \<not> truthy fpr then
           (failure 400 ''device_id and fingerprint are required'', w)
         else
           (case take_nonce env (body_field q ''nonce'') w of
              (Some a, w1) \<Rightarrow> (a, w1)
            | (None, w1) \<Rightarrow>
                (case find_device payload (pg_text env dev) w1 of
                   None \<Rightarrow> (failure 404 ''Device not found'', w1)
                 | Some r \<Rightarrow>
                     (let same = (fpr = JStr (dv_fingerprint r))
                      in (reply 200 (JObj [(''verified'', JBool same),
                            (''device'', JObj [(''id'', JNum (of_int (dv_id r))),
                               (''is_trusted'', JBool (dv_trusted r))])]),
                          if same
                          then w1\<lparr>aw_devices := map (\<lambda>x. if dv_id x = dv_id r
                                   then x\<lparr>dv_used := Some (ae_now env), dv_ip := hq_ip q\<rparr> else x) (aw_devices w1)\<rparr>
                          else w1)))))"

text \<open>The routes with their middlewares.\<close>

definition GET_sessions :: handler where "GET_sessions = signed_in [] ''sessions_list'' 60 sessions_route"
definition DELETE_session :: handler where "DELETE_session = signed_in [] ''session_revoke'' 20 revoke_session_route"

definition DELETE_sessions :: handler where
  "DELETE_sessions = signed_in [] ''sessions_revoke_all'' 20 revoke_sessions_route"

definition POST_devices :: handler where "POST_devices = signed_in [] ''device_register'' 20 device_register_route"
definition GET_devices :: handler where "GET_devices = signed_in [] ''device_list'' 60 device_list_route"
definition PUT_device_trust :: handler where "PUT_device_trust = signed_in [] ''device_trust'' 20 device_trust_route"
definition DELETE_device :: handler where "DELETE_device = signed_in [] ''device_delete'' 20 device_remove_route"

definition POST_device_verify :: handler where
  "POST_device_verify = signed_in [] ''device_verify'' 30 device_verify_route"

subsection \<open>The tables after a revocation\<close>

lemma drop_hashes:
  "refresh_tokens (fold (\<lambda>h. drop_rotated (\<lambda>r. ro_hash r = h) \<circ> drop_tokens (\<lambda>r. rf_hash r = h)) hs db) =
     filter (\<lambda>r. rf_hash r \<notin> set hs) (refresh_tokens db)"
  "rotated_tokens (fold (\<lambda>h. drop_rotated (\<lambda>r. ro_hash r = h) \<circ> drop_tokens (\<lambda>r. rf_hash r = h)) hs db) =
     filter (\<lambda>r. ro_hash r \<notin> set hs) (rotated_tokens db)"
  "sessions (fold (\<lambda>h. drop_rotated (\<lambda>r. ro_hash r = h) \<circ> drop_tokens (\<lambda>r. rf_hash r = h)) hs db) = sessions db"
  "users (fold (\<lambda>h. drop_rotated (\<lambda>r. ro_hash r = h) \<circ> drop_tokens (\<lambda>r. rf_hash r = h)) hs db) = users db"
  by (induction hs arbitrary: db) (auto simp: drop_rotated_def drop_tokens_def intro: filter_cong)

lemma revoke_sessions_tables:
  "sessions (snd (revoke_sessions P db)) = map (\<lambda>s. if P s then s\<lparr>se_active := False\<rparr> else s) (sessions db)"
  "refresh_tokens (snd (revoke_sessions P db)) =
     filter (\<lambda>r. rf_hash r \<notin> se_hash ` {s \<in> set (sessions db). P s}) (refresh_tokens db)"
  "users (snd (revoke_sessions P db)) = users db"
  by (simp_all add: revoke_sessions_def Let_def drop_hashes deactivate_def)

end
