(* ===== verification/Auth_Revocation.thy ===== *)
theory Auth_Revocation
  imports Auth_Client Auth_Devices
begin

section \<open>Revoking a session, across auth service and gateway\<close>

text \<open>
  What \<open>DELETE /sessions/:id\<close> of the auth service does to the tables, and what the gateway makes of the
  denylist it writes (\<open>revokeCheck\<close> in \<open>services/api-gateway-node/index.js\<close>).
\<close>

text \<open>The session a request names, as a session of the caller.\<close>

definition named_session :: "jsv \<Rightarrow> auth_http \<Rightarrow> session_row \<Rightarrow> bool" where
  "named_session payload q s \<longleftrightarrow> se_id s = to_lower (param q ''id'') \<and> Some (se_user s) = claim_id payload"

lemma revoke_session_200:
  assumes "revoke_session_route payload env d q w = (a, w')" and "rp_status a = 200"
  shows "\<exists>s \<in> set (sessions (aw_db w)). named_session payload q s"
    and "aw_db w' = snd (revoke_sessions (named_session payload q) (aw_db w))"
    and "redis_open (aw_redis w) \<longrightarrow> aw_redis w' = denylist (ae_now env)
      ([''denylist:sid:'' @ param q ''id''] @ own_claim env q ''jti'' @ own_claim env q ''sid'') (aw_redis w)"
proof -
  have P: "named_session payload q = (\<lambda>s. se_id s = to_lower (param q ''id'') \<and> Some (se_user s) = claim_id payload)"
    by (rule ext) (simp add: named_session_def)
  show "\<exists>s \<in> set (sessions (aw_db w)). named_session payload q s"
    using assms unfolding revoke_session_route_def Let_def P
    by (auto simp: failure_def reply_def list_ex_iff split: if_splits)
  show "aw_db w' = snd (revoke_sessions (named_session payload q) (aw_db w))"
    "redis_open (aw_redis w) \<longrightarrow> aw_redis w' = denylist (ae_now env)
      ([''denylist:sid:'' @ param q ''id''] @ own_claim env q ''jti'' @ own_claim env q ''sid'') (aw_redis w)"
    using assms unfolding revoke_session_route_def Let_def P
    by (auto simp: failure_def reply_def split: if_splits)
qed

lemma access_claims_sid: "sid \<noteq> [] \<Longrightarrow> get_field (access_claims env u (Some sid) jti) ''sid'' = JStr sid"
  by (simp add: access_claims_def signed_claims_def get_field_def falsy_string_def)

lemma denylisted_sid: "sid \<noteq> [] \<Longrightarrow> ''denylist:sid:'' @ sid \<in> set (denylist_keys (access_claims env u (Some sid) jti))"
  by (simp add: denylist_keys_def access_claims_sid)

text \<open>A token whose session is on the denylist.\<close>

lemma denied_by_gateway:
  assumes "verify_session genv tok = Verified p" and "k \<in> set (denylist_keys p)"
    and "redis_get (of_int (now_ms genv)) r k = Some ''1''"
    and "session_token g = (Some tok, scheme)" and "needsAuth (g_path g)" and "\<not> isPublicOrAuthPath (g_path g)"
  shows "\<exists>e. authMiddleware genv r g = Inl e \<and> re_status e \<in> {401, 503}"
proof -
  have "\<exists>e. revokeCheck (of_int (now_ms genv)) r p = Some e \<and> re_status e \<in> {401, 503}"
    using assms(2,3) by (fastforce simp: revokeCheck_def authStoreUnavailable_def refusal_of_def falsy_string_def)
  then show ?thesis
    using assms(1,4-6) by (auto simp: authMiddleware_def refusal_of_def)
qed

text \<open>What a user may check after a revocation: the session is off, its refresh token is dead.\<close>

lemma revoked_tables:
  assumes "revoke_session_route payload env d q w = (a, w')" and "rp_status a = 200"
  shows "list_all (\<lambda>s. named_session payload q s \<longrightarrow> \<not> se_active s) (sessions (aw_db w'))"
    and "\<And>s. s \<in> set (sessions (aw_db w)) \<Longrightarrow> \<not> named_session payload q s \<Longrightarrow> s \<in> set (sessions (aw_db w'))"
    and "s \<in> set (sessions (aw_db w)) \<Longrightarrow> named_session payload q s \<Longrightarrow>
      list_all (\<lambda>r. rf_hash r \<noteq> se_hash s) (refresh_tokens (aw_db w'))"
  using revoke_session_200(2) [OF assms]
  by (auto simp: revoke_sessions_tables list_all_iff named_session_def image_iff)

lemma dead_token_refused:
  assumes "list_all (\<lambda>r. rf_hash r \<noteq> h) (refresh_tokens (aw_db w))"
    and "map_get (hq_cookies q) ''refreshToken'' = Some tok" and "ae_sha256 env tok = h"
  shows "rp_status (fst (refresh_route env d q w)) \<noteq> 200"
proof -
  have "rotate_tx (ae_now env) new h (aw_db w) = (None, aw_db w)" for new
  proof -
    have "find (\<lambda>r. rf_hash r = h \<and> ae_now env < rf_expires r) (refresh_tokens (aw_db w)) = None"
      using assms(1) by (auto simp: find_None_iff list_all_iff)
    then show ?thesis by (simp add: rotate_tx_def)
  qed
  then show ?thesis
    using assms(2,3)
    by (auto simp: refresh_route_def rotateRefreshToken_def failure_def reply_def split: option.splits prod.splits)
qed

text \<open>
  Claim C21. What revoking a session does. After \<open>DELETE /sessions/:id\<close> is answered with 200 the session is
  off and its refresh token is exchanged no more. If the id was written in lower case, as the tokens
  carry it, and the auth service reached redis, then the gateway also refuses the access tokens of the
  session for a quarter of an hour, which is as long as one lives; of the store this takes that it
  keeps the entry. (In the other two cases the answer is 200 as well, no entry is made for the session,
  and its access tokens are taken until they expire.)
\<close>

theorem revoked_session_dead:
  assumes "revoke_session_route payload env d q w = (a, w')" and "rp_status a = 200"
    and "s \<in> set (sessions (aw_db w))" and "named_session payload q s"
    and "\<And>t. redis_get t r (''denylist:sid:'' @ se_id s) = redis_get t (aw_redis w') (''denylist:sid:'' @ se_id s)"
    and "verify_session genv tok = Verified (access_claims env2 u (Some (se_id s)) jti)"
    and "se_id s \<noteq> []" and "now_ms genv < ae_now env + 15 * 60 * 1000"
    and "session_token g = (Some tok, scheme)" and "needsAuth (g_path g)" and "\<not> isPublicOrAuthPath (g_path g)"
    and "map_get (hq_cookies q3) ''refreshToken'' = Some rt" and "ae_sha256 env3 rt = se_hash s"
  shows "list_all (\<lambda>x. named_session payload q x \<longrightarrow> \<not> se_active x) (sessions (aw_db w')) \<and>
    rp_status (fst (refresh_route env3 d3 q3 w')) \<noteq> 200 \<and>
    (to_lower (param q ''id'') = param q ''id'' \<and> redis_open (aw_redis w) \<longrightarrow>
      (\<exists>e. authMiddleware genv r g = Inl e \<and> re_status e \<in> {401, 503}))"
proof (intro conjI impI)
  show "list_all (\<lambda>x. named_session payload q x \<longrightarrow> \<not> se_active x) (sessions (aw_db w'))"
    using revoked_tables(1) [OF assms(1,2)] .
  show "rp_status (fst (refresh_route env3 d3 q3 w')) \<noteq> 200"
    using dead_token_refused [OF revoked_tables(3) [OF assms(1-4)] assms(12,13)] .
  assume c: "to_lower (param q ''id'') = param q ''id'' \<and> redis_open (aw_redis w)"
  then have sid: "se_id s = param q ''id''" using assms(4) by (simp add: named_session_def)
  have "redis_get (of_int (now_ms genv)) (aw_redis w') (''denylist:sid:'' @ param q ''id'') = Some ''1''"
    using revoke_session_200(3) [OF assms(1,2)] c assms(8) by (auto intro: redis_get_denylist)
  then have "redis_get (of_int (now_ms genv)) r (''denylist:sid:'' @ se_id s) = Some ''1''"
    unfolding assms(5) unfolding sid .
  then show "\<exists>e. authMiddleware genv r g = Inl e \<and> re_status e \<in> {401, 503}"
    by (rule denied_by_gateway [OF assms(6) denylisted_sid [OF assms(7)] _ assms(9-11)])
qed

text \<open>
  Whoever revokes another session locks itself out. The request also puts the caller's own
  session on the denylist: that session stays on and its row is as it was, but for a quarter of an
  hour the gateway refuses every access token of it, those refreshed since included.
\<close>

lemma revoker_locked_out:
  assumes "revoke_session_route payload env d q w = (a, w')" and "rp_status a = 200"
    and "own \<in> set (sessions (aw_db w))" and "\<not> named_session payload q own" and "se_id own \<noteq> []"
    and "bearer_of q = Some t0" and "ae_decode env t0 = Some (access_claims env0 u (Some (se_id own)) jti0)"
    and "redis_open (aw_redis w)"
    and "\<And>t. redis_get t r (''denylist:sid:'' @ se_id own) = redis_get t (aw_redis w') (''denylist:sid:'' @ se_id own)"
    and "verify_session genv tok = Verified (access_claims env2 u (Some (se_id own)) jti)"
    and "now_ms genv < ae_now env + 15 * 60 * 1000"
    and "session_token g = (Some tok, scheme)" and "needsAuth (g_path g)" and "\<not> isPublicOrAuthPath (g_path g)"
  shows "own \<in> set (sessions (aw_db w')) \<and> (\<exists>e. authMiddleware genv r g = Inl e \<and> re_status e \<in> {401, 503})"
proof
  show "own \<in> set (sessions (aw_db w'))" using revoked_tables(2) [OF assms(1,2) assms(3,4)] .
  have "own_claim env q ''sid'' = [''denylist:sid:'' @ se_id own]"
    using assms(5-7) by (simp add: own_claim_def access_claims_sid)
  then have "redis_get (of_int (now_ms genv)) (aw_redis w') (''denylist:sid:'' @ se_id own) = Some ''1''"
    using revoke_session_200(3) [OF assms(1,2)] assms(8,11) by (auto intro: redis_get_denylist)
  then have "redis_get (of_int (now_ms genv)) r (''denylist:sid:'' @ se_id own) = Some ''1''"
    unfolding assms(9) .
  then show "\<exists>e. authMiddleware genv r g = Inl e \<and> re_status e \<in> {401, 503}"
    by (rule denied_by_gateway [OF assms(10) denylisted_sid [OF assms(5)] _ assms(12-14)])
qed

subsection \<open>Two sessions\<close>

definition other_id :: string where "other_id = ''11111111-1111-4111-8111-111111111111''"

definition other_session :: session_row where
  "other_session = \<lparr>se_id = other_id, se_user = 7, se_hash = ''#t'', se_active = True\<rparr>"

definition own_session :: session_row where
  "own_session = \<lparr>se_id = ''s'', se_user = 7, se_hash = ''h'', se_active = True\<rparr>"

definition two_sessions :: auth_world where
  "two_sessions = svc_world\<lparr>aw_db := (aw_db svc_world)\<lparr>
     refresh_tokens := [\<lparr>rf_user = 7, rf_hash = ''#t'', rf_expires = 99999\<rparr>],
     sessions := [other_session, own_session]\<rparr>\<rparr>"

definition revoke_request :: auth_http where
  "revoke_request = logout_request\<lparr>hq_params := [(''id'', other_id)]\<rparr>"

definition ada_payload :: jsv where "ada_payload = JObj [(''id'', JNum 7)]"

definition other_gateway :: gateway_env where
  "other_gateway = \<lparr>verify_session = (\<lambda>tok. Verified (access_claims (svc_env 5) ada (Some other_id) ''j'')),
     verify_step_up = (\<lambda>tok. VerifyFails ''JsonWebTokenError''), now_ms = 7000\<rparr>"

definition refresh_with_t :: auth_http where
  "refresh_with_t = logout_request\<lparr>hq_cookies := [(''refreshToken'', ''t'')]\<rparr>"

lemma revoke_run:
  "rp_status (fst (revoke_session_route ada_payload logout_env some_draws revoke_request two_sessions)) = 200"
  by code_simp

theorem revoked_session_dead_witness:
  "rp_status (fst (refresh_route (svc_env 6500) some_draws refresh_with_t two_sessions)) = 200 \<and>
   rp_status (fst (refresh_route (svc_env 6500) some_draws refresh_with_t
     (snd (revoke_session_route ada_payload logout_env some_draws revoke_request two_sessions)))) \<noteq> 200 \<and>
   (\<exists>e. authMiddleware other_gateway
      (aw_redis (snd (revoke_session_route ada_payload logout_env some_draws revoke_request two_sessions))) late_read = Inl e \<and>
      re_status e \<in> {401, 503})"
proof
  show "rp_status (fst (refresh_route (svc_env 6500) some_draws refresh_with_t two_sessions)) = 200" by code_simp
  let ?r = "revoke_session_route ada_payload logout_env some_draws revoke_request two_sessions"
  have "list_all (\<lambda>x. named_session ada_payload revoke_request x \<longrightarrow> \<not> se_active x) (sessions (aw_db (snd ?r))) \<and>
    rp_status (fst (refresh_route (svc_env 6500) some_draws refresh_with_t (snd ?r))) \<noteq> 200 \<and>
    (to_lower (param revoke_request ''id'') = param revoke_request ''id'' \<and> redis_open (aw_redis two_sessions) \<longrightarrow>
      (\<exists>e. authMiddleware other_gateway (aw_redis (snd ?r)) late_read = Inl e \<and> re_status e \<in> {401, 503}))"
  proof (rule revoked_session_dead [of _ _ _ _ _ "fst ?r" _ other_session _ _ "''signed''" "svc_env 5" ada "''j''" _ "''bearer''" _ "''t''"])
    show "rp_status (fst ?r) = 200" by (rule revoke_run)
    show "verify_session other_gateway ''signed'' = Verified (access_claims (svc_env 5) ada (Some (se_id other_session)) ''j'')"
      by (simp add: other_gateway_def other_session_def)
    show "other_session \<in> set (sessions (aw_db two_sessions))" by (simp add: two_sessions_def)
  qed (simp_all add: other_gateway_def logout_env_def svc_env_def, code_simp+)
  moreover have "to_lower (param revoke_request ''id'') = param revoke_request ''id''" "redis_open (aw_redis two_sessions)"
    by code_simp+
  ultimately show "rp_status (fst (refresh_route (svc_env 6500) some_draws refresh_with_t (snd ?r))) \<noteq> 200 \<and>
      (\<exists>e. authMiddleware other_gateway (aw_redis (snd ?r)) late_read = Inl e \<and> re_status e \<in> {401, 503})" by blast
qed

lemma revoker_locked_out_witness:
  "own_session \<in> set (sessions (aw_db (snd (revoke_session_route ada_payload logout_env some_draws revoke_request two_sessions)))) \<and>
   (\<exists>e. authMiddleware (gateway_at 7000)
      (aw_redis (snd (revoke_session_route ada_payload logout_env some_draws revoke_request two_sessions))) late_read = Inl e \<and>
      re_status e \<in> {401, 503})"
proof -
  let ?r = "revoke_session_route ada_payload logout_env some_draws revoke_request two_sessions"
  show ?thesis
  proof (rule revoker_locked_out [of _ _ _ _ _ "fst ?r" _ own_session "''signed''" "svc_env 5" ada "''j''" _ _ "''signed''" "svc_env 5" "''j''" _ "''bearer''"])
    show "rp_status (fst ?r) = 200" by (rule revoke_run)
    show "verify_session (gateway_at 7000) ''signed'' = Verified (access_claims (svc_env 5) ada (Some (se_id own_session)) ''j'')"
      by (simp add: gateway_at_def own_session_def)
    show "ae_decode logout_env ''signed'' = Some (access_claims (svc_env 5) ada (Some (se_id own_session)) ''j'')"
      by (simp add: logout_env_def own_session_def)
    show "own_session \<in> set (sessions (aw_db two_sessions))" by (simp add: two_sessions_def)
  qed (simp_all add: gateway_at_def logout_env_def svc_env_def, code_simp+)
qed

end
