(* ===== verification/Auth_Account.thy ===== *)
theory Auth_Account
  imports Auth_Mfa
begin

section \<open>The auth service: passwords, magic links and sessions\<close>

text \<open>
  The routes under \<open>/auth/password\<close>, \<open>/auth/passwordless\<close>, \<open>/auth/admin/password-reset\<close> and
  \<open>/sessions\<close> of \<open>services/auth-service/index.js\<close>. \<open>sendEmail\<close> only logs, so no mail is part of the
  state. A value PostgreSQL cannot read as the type of its column makes a statement fail, which the
  handlers answer with 500.
\<close>

subsection \<open>Password reset\<close>

text \<open>\<open>frontend\<close> is \<open>getFrontendUrl()\<close>, empty when it is not configured.\<close>

definition RESET_MESSAGE :: string where
  "RESET_MESSAGE = ''If an account exists for this email, a reset link has been sent.''"

definition reset_request_route :: "string \<Rightarrow> handler" where
  "reset_request_route frontend env d q w =
     (let email = body_field q ''email''
      in if hq_body q = JUndef then (failure 500 ''Failed to process reset request'', w)
         else if \<not> truthy email \<or> (case email of JStr _ \<Rightarrow> False | _ \<Rightarrow> True) then
           (failure 400 ''Email is required'', w)
         else
           (case validateEmail email of
              Some e \<Rightarrow> (failure 400 e, w)
            | None \<Rightarrow>
                if frontend = [] then
                  (failure 503 ''Password reset is not configured (FRONTEND_URL missing)'', w)
                else
                  (case user_by_email (normalizeEmail email) w of
                     None \<Rightarrow> (failure 200 RESET_MESSAGE, w)
                   | Some u \<Rightarrow>
                       if \<not> u_active u then (failure 200 RESET_MESSAGE, w)
                       else
                         (failure 200 RESET_MESSAGE,
                          w\<lparr>aw_resets :=
                            \<lparr>rs_user = u_id u, rs_hash = ae_sha256 env (dr_refresh d),
                             rs_expires = ae_now env + 60 * 60 * 1000, rs_used = False\<rparr> #
                            filter (\<lambda>r. rs_user r \<noteq> u_id u \<and> ae_now env < rs_expires r) (aw_resets w)\<rparr>))))"

text \<open>The single statement that redeems a token.\<close>

definition redeem_reset :: "int \<Rightarrow> string \<Rightarrow> auth_world \<Rightarrow> reset_token_row option \<times> auth_world" where
  "redeem_reset now h w =
     (let hit = (\<lambda>r. rs_hash r = h \<and> \<not> rs_used r \<and> now < rs_expires r)
      in (find hit (aw_resets w),
          w\<lparr>aw_resets := map (\<lambda>r. if hit r then r\<lparr>rs_used := True\<rparr> else r) (aw_resets w)\<rparr>))"

text \<open>
  The rules a new password has to meet, then its storage; \<open>None\<close> when bcrypt throws because the
  password is not a string.
\<close>

definition field_error :: "string \<Rightarrow> auth_reply" where
  "field_error m = reply 400 (JObj [(''message'', JStr m), (''field'', JStr ''password'')])"

definition password_refused :: "auth_env \<Rightarrow> user_row \<Rightarrow> jsv \<Rightarrow> auth_world \<Rightarrow> auth_reply option" where
  "password_refused env u password w =
     (let policy = getPasswordPolicyForTenant w (Some (tenant_or_default (u_tenant u)))
      in case validatePassword password (policy_value policy) of
           Some e \<Rightarrow> Some (field_error e)
         | None \<Rightarrow>
             (case password of
                JStr p \<Rightarrow>
                  map_option field_error
                    (enforcePasswordHistory (ae_matches env) (aw_history w) (string_of_int (u_id u)) p
                       (history_count policy))
              | _ \<Rightarrow> None))"

definition cleared_account :: "user_row \<Rightarrow> auth_world \<Rightarrow> auth_world" where
  "cleared_account u w =
     clearFailedAttempts (u_email u) (w\<lparr>aw_db := revokeAllUserSessions (u_id u) (aw_db w)\<rparr>)"

definition reset_route :: handler where
  "reset_route env d q w =
     (let token = body_field q ''token''; newPassword = js_or (body_field q ''password'') (body_field q ''new_password'')
      in if hq_body q = JUndef then (failure 500 ''Password reset failed'', w)
         else if \<not> truthy token \<or> \<not> truthy newPassword then
           (failure 400 ''Token and new password are required'', w)
         else
           (let h = ae_sha256 env (trim (js_string token))
            in case redeem_reset (ae_now env) h w of
                 (None, w1) \<Rightarrow> (failure 400 ''Invalid or expired token'', w1)
               | (Some r, w1) \<Rightarrow>
                   (case user_by_id (rs_user r) w1 of
                      None \<Rightarrow> (failure 400 ''Invalid or expired token'', w1)
                    | Some u \<Rightarrow>
                        if \<not> u_active u then (failure 403 ''Account is deactivated'', w1)
                        else
                          (case (password_refused env u newPassword w1, newPassword) of
                             (Some a, _) \<Rightarrow> (a, w1)
                           | (None, JStr p) \<Rightarrow>
                               (failure 200 ''Password has been reset successfully'',
                                cleared_account u
                                  ((setUserPassword env d HistoryStored (u_id u) p w1)
                                     \<lparr>aw_resets := filter (\<lambda>x. \<not> (rs_user x = u_id u \<and> rs_hash x \<noteq> h)) (aw_resets w1)\<rparr>))
                           | (None, _) \<Rightarrow> (failure 500 ''Password reset failed'', w1)))))"

text \<open>The parameter of \<open>WHERE id = $1\<close>: a number, or a text that spells an integer.\<close>

definition id_param :: "jsv \<Rightarrow> int option" where
  "id_param v =
     (case v of
        JNum x \<Rightarrow> if x = of_int \<lfloor>x\<rfloor> then Some \<lfloor>x\<rfloor> else None
      | JStr s \<Rightarrow> integer_literal (trim s)
      | _ \<Rightarrow> None)"

definition admin_reset_route :: "jsv \<Rightarrow> handler" where
  "admin_reset_route payload env d q w =
     (let email = body_field q ''email''; target = js_or (body_field q ''user_id'') (body_field q ''userId'');
          newPassword = js_or (body_field q ''password'') (body_field q ''new_password'')
      in if hq_body q = JUndef then (failure 500 ''Admin password reset failed'', w)
         else if (\<not> truthy email \<and> \<not> truthy target) \<or> \<not> truthy newPassword then
           (failure 400 ''Target email or user_id and a new password are required'', w)
         else if truthy target \<and> id_param target = None then (failure 500 ''Admin password reset failed'', w)
         else
           (case (if truthy target then user_by_id (the (id_param target)) w
                  else user_by_email (pg_text env email) w) of
              None \<Rightarrow> (failure 404 ''User not found'', w)
            | Some u \<Rightarrow>
                (case (password_refused env u newPassword w, newPassword) of
                   (Some a, _) \<Rightarrow> (a, w)
                 | (None, JStr p) \<Rightarrow>
                     (reply 200 (JObj [(''message'', JStr ''Password reset successfully''), (''user'', sanitizeUser u)]),
                      cleared_account u
                        ((setUserPassword env d HistoryStored (u_id u) p w)
                           \<lparr>aw_resets := filter (\<lambda>x. rs_user x \<noteq> u_id u) (aw_resets w)\<rparr>))
                 | (None, _) \<Rightarrow> (failure 500 ''Admin password reset failed'', w))))"

subsection \<open>Magic links\<close>

definition MAGIC_MESSAGE :: string where "MAGIC_MESSAGE = ''Check your email for the login link''"

text \<open>Only the four newest live links of a user stay when a fifth is made.\<close>

fun keep_links :: "int \<Rightarrow> nat \<Rightarrow> magic_row list \<Rightarrow> magic_row list" where
  "keep_links u n [] = []"
| "keep_links u n (r # rs) =
     (if mg_user r \<noteq> u then r # keep_links u n rs
      else case n of 0 \<Rightarrow> keep_links u 0 rs | Suc m \<Rightarrow> r # keep_links u m rs)"

definition magic_request_route :: handler where
  "magic_request_route env d q w =
     (let email = body_field q ''email''
      in if hq_body q = JUndef then (failure 500 ''Failed to generate magic link'', w)
         else if \<not> truthy email then (failure 400 ''Email is required'', w)
         else
           (case validateEmail email of
              Some e \<Rightarrow> (failure 400 e, w)
            | None \<Rightarrow>
                (case find (\<lambda>u. u_email u = normalizeEmail email \<and> u_active u) (users (aw_db w)) of
                   None \<Rightarrow> (failure 200 MAGIC_MESSAGE, w)
                 | Some u \<Rightarrow>
                     (failure 200 MAGIC_MESSAGE,
                      w\<lparr>aw_magic :=
                        \<lparr>mg_user = u_id u, mg_hash = ae_sha256 env (dr_refresh d),
                         mg_expires = ae_now env + 15 * 60 * 1000, mg_used = False\<rparr> #
                        keep_links (u_id u) 4
                          (filter (\<lambda>r. \<not> (mg_user r = u_id u \<and> (mg_used r \<or> mg_expires r \<le> ae_now env)))
                             (aw_magic w))\<rparr>))))"

definition redeem_magic :: "int \<Rightarrow> string \<Rightarrow> auth_world \<Rightarrow> magic_row option \<times> auth_world" where
  "redeem_magic now h w =
     (let hit = (\<lambda>r. mg_hash r = h \<and> \<not> mg_used r \<and> now < mg_expires r)
      in (find hit (aw_magic w),
          w\<lparr>aw_magic := map (\<lambda>r. if hit r then r\<lparr>mg_used := True\<rparr> else r) (aw_magic w)\<rparr>))"

definition magic_verify_route :: handler where
  "magic_verify_route env d q w =
     (let token = body_field q ''token''
      in if hq_body q = JUndef then (failure 500 ''Magic link verification failed'', w)
         else if \<not> truthy token then (failure 400 ''Token is required'', w)
         else
           (case token of
              JStr t \<Rightarrow>
                (case redeem_magic (ae_now env) (ae_sha256 env t) w of
                   (None, w1) \<Rightarrow> (failure 400 ''Invalid or expired token'', w1)
                 | (Some r, w1) \<Rightarrow>
                     (case user_by_id (mg_user r) w1 of
                        None \<Rightarrow> (failure 403 ''Account is deactivated'', w1)
                      | Some u \<Rightarrow>
                          if \<not> u_active u then (failure 403 ''Account is deactivated'', w1)
                          else
                            (case issueLoginSession env d q u w1 of
                               (tok, w2) \<Rightarrow>
                                 (with_cookies (session_cookies d)
                                    (reply 200 (JObj [(''message'', JStr ''Logged in successfully''),
                                       (''token'', JStr tok), (''session_id'', JStr (dr_session d)),
                                       (''user'', sanitizeUser u)])), w2))))
            | _ \<Rightarrow> (failure 500 ''Magic link verification failed'', w)))"

text \<open>The routes with their middlewares.\<close>

definition POST_password_reset_request :: "string \<Rightarrow> handler" where
  "POST_password_reset_request frontend = limited ''password_reset_request'' 5 False (reset_request_route frontend)"

definition POST_password_reset :: handler where
  "POST_password_reset = limited ''password_reset'' 10 False reset_route"

definition POST_admin_password_reset :: handler where
  "POST_admin_password_reset = signed_in [''admin''] ''admin_password_reset'' 20 admin_reset_route"

definition POST_passwordless_request :: handler where
  "POST_passwordless_request = limited ''passwordless_request'' 5 True magic_request_route"

definition POST_passwordless_verify :: handler where
  "POST_passwordless_verify = limited ''passwordless_verify'' 10 False magic_verify_route"

subsection \<open>What a reset token does\<close>

lemma redeem_reset_hit:
  assumes "redeem_reset now h w = (r, w1)"
  shows "w1 = w\<lparr>aw_resets := aw_resets w1\<rparr>"
    and "\<forall>x. x \<in> set (aw_resets w1) \<and> rs_hash x = h \<longrightarrow> rs_used x \<or> rs_expires x \<le> now"
    and "r = None \<longrightarrow> w1 = w"
    and "r = Some x \<longrightarrow> x \<in> set (aw_resets w) \<and> rs_hash x = h \<and> \<not> rs_used x \<and> now < rs_expires x"
proof -
  let ?hit = "\<lambda>r. rs_hash r = h \<and> \<not> rs_used r \<and> now < rs_expires r"
  have eq: "redeem_reset now h w = (find ?hit (aw_resets w),
      w\<lparr>aw_resets := map (\<lambda>r. if ?hit r then r\<lparr>rs_used := True\<rparr> else r) (aw_resets w)\<rparr>)"
    by (simp only: redeem_reset_def Let_def)
  have r: "r = find ?hit (aw_resets w)"
    using arg_cong [OF trans [OF assms [symmetric] eq], of fst] by (simp only: fst_conv)
  have w1: "w1 = w\<lparr>aw_resets := map (\<lambda>r. if ?hit r then r\<lparr>rs_used := True\<rparr> else r) (aw_resets w)\<rparr>"
    using arg_cong [OF trans [OF assms [symmetric] eq], of snd] by (simp only: snd_conv)
  show "w1 = w\<lparr>aw_resets := aw_resets w1\<rparr>" unfolding w1 by simp
  show "\<forall>x. x \<in> set (aw_resets w1) \<and> rs_hash x = h \<longrightarrow> rs_used x \<or> rs_expires x \<le> now"
  proof (intro allI impI)
    fix x assume x: "x \<in> set (aw_resets w1) \<and> rs_hash x = h"
    have "aw_resets w1 = map (\<lambda>r. if ?hit r then r\<lparr>rs_used := True\<rparr> else r) (aw_resets w)"
      by (simp only: w1) simp
    then have "x \<in> (\<lambda>r. if ?hit r then r\<lparr>rs_used := True\<rparr> else r) ` set (aw_resets w)"
      using x by (simp only: set_map)
    then obtain y where "x = (if ?hit y then y\<lparr>rs_used := True\<rparr> else y)" by blast
    then show "rs_used x \<or> rs_expires x \<le> now" using x by (cases "?hit y") auto
  qed
  show "r = None \<longrightarrow> w1 = w"
  proof
    assume "r = None"
    then have "map (\<lambda>r. if ?hit r then r\<lparr>rs_used := True\<rparr> else r) (aw_resets w) = aw_resets w"
      unfolding r find_None_iff by (intro map_idI) auto
    then show "w1 = w" by (simp only: w1) simp
  qed
  show "r = Some x \<longrightarrow> x \<in> set (aw_resets w) \<and> rs_hash x = h \<and> \<not> rs_used x \<and> now < rs_expires x"
    unfolding r using find_Some_set by fast
qed

text \<open>The tables after a new password: everything the account was signed in with is off.\<close>

definition renewed_account :: "auth_env \<Rightarrow> draws \<Rightarrow> user_row \<Rightarrow> string \<Rightarrow> auth_world \<Rightarrow> auth_world \<Rightarrow> bool" where
  "renewed_account env d u p w w' \<longleftrightarrow>
     users (aw_db w') =
       map (\<lambda>x. if u_id x = u_id u
              then x\<lparr>u_password := ae_bcrypt env (dr_salt d) p, u_password_changed_at := Some (ae_now env),
                     u_updated := ae_now env\<rparr> else x) (users (aw_db w)) \<and>
     list_all (\<lambda>s. se_user s = u_id u \<longrightarrow> \<not> se_active s) (sessions (aw_db w')) \<and>
     list_all (\<lambda>r. rf_user r \<noteq> u_id u) (refresh_tokens (aw_db w')) \<and>
     filter (\<lambda>s. se_user s \<noteq> u_id u) (sessions (aw_db w')) = filter (\<lambda>s. se_user s \<noteq> u_id u) (sessions (aw_db w)) \<and>
     filter (\<lambda>r. rf_user r \<noteq> u_id u) (refresh_tokens (aw_db w')) =
       filter (\<lambda>r. rf_user r \<noteq> u_id u) (refresh_tokens (aw_db w)) \<and>
     (normalizeFailedAttemptEmail (u_email u) \<noteq> [] \<longrightarrow> failed_of (u_email u) w' = None)"

lemma filter_map_off:
  "filter (\<lambda>s. se_user s \<noteq> i) (map (\<lambda>s. if se_user s = i then s\<lparr>se_active := False\<rparr> else s) ss) =
   filter (\<lambda>s. se_user s \<noteq> i) ss"
  by (induction ss) auto

lemma renewed_after:
  assumes "aw_db w1 = aw_db w"
  shows "renewed_account env d u p w
     (cleared_account u ((setUserPassword env d hw (u_id u) p w1)\<lparr>aw_resets := rs\<rparr>))"
  by (simp add: renewed_account_def cleared_account_def setUserPassword_def update_user_def Let_def
      clearFailedAttempts_def revokeAllUserSessions_def drop_tokens_def deactivate_def assms
      failed_of_def delete_conv' filter_map_off comp_def conj_commute) (auto simp: list_all_iff)

lemma password_refused_status: "password_refused env u v w = Some a \<Longrightarrow> rp_status a = 400 \<and> rp_set a = []"
  by (auto simp: password_refused_def Let_def field_error_def reply_def split: option.splits jsv.splits)

lemma password_refused_resets [simp]:
  "password_refused env u v (w\<lparr>aw_resets := rs\<rparr>) = password_refused env u v w"
  by (auto simp: password_refused_def getPasswordPolicyForTenant_def Let_def split: option.splits jsv.splits)

lemma user_by_id_resets [simp]: "user_by_id i (w\<lparr>aw_resets := rs\<rparr>) = user_by_id i w"
  by (simp add: user_by_id_def)

text \<open>The token of a request, as it is stored, and its new password.\<close>

definition reset_hash :: "auth_env \<Rightarrow> auth_http \<Rightarrow> string" where
  "reset_hash env q = ae_sha256 env (trim (js_string (body_field q ''token'')))"

definition new_password :: "auth_http \<Rightarrow> jsv" where
  "new_password q = js_or (body_field q ''password'') (body_field q ''new_password'')"

text \<open>A token that can be redeemed.\<close>

definition redeemable :: "auth_env \<Rightarrow> string \<Rightarrow> auth_world \<Rightarrow> reset_token_row \<Rightarrow> bool" where
  "redeemable env h w r \<longleftrightarrow>
     r \<in> set (aw_resets w) \<and> rs_hash r = h \<and> \<not> rs_used r \<and> ae_now env < rs_expires r"

definition spent :: "auth_env \<Rightarrow> string \<Rightarrow> auth_world \<Rightarrow> bool" where
  "spent env h w \<longleftrightarrow> list_all (\<lambda>x. rs_hash x = h \<longrightarrow> rs_used x \<or> rs_expires x \<le> ae_now env) (aw_resets w)"

lemma reset_cases:
  assumes "reset_route env d q w = (a, w')"
  obtains (refused) "rp_status a \<noteq> 200" "rp_set a = []" "w' = w"
  | (burnt) r w1 where "rp_status a \<noteq> 200" "rp_set a = []"
      "redeem_reset (ae_now env) (reset_hash env q) w = (Some r, w1)" "w' = w1"
  | (accepted) r u p w1 where "rp_status a = 200"
      "redeem_reset (ae_now env) (reset_hash env q) w = (Some r, w1)"
      "user_by_id (rs_user r) w = Some u" "u_active u" "new_password q = JStr p"
      "password_refused env u (JStr p) w = None"
      "w' = cleared_account u ((setUserPassword env d HistoryStored (u_id u) p w1)
         \<lparr>aw_resets := filter (\<lambda>x. \<not> (rs_user x = u_id u \<and> rs_hash x \<noteq> reset_hash env q)) (aw_resets w1)\<rparr>)"
proof (cases "hq_body q = JUndef \<or> \<not> truthy (body_field q ''token'') \<or> \<not> truthy (new_password q)")
  case True
  then show ?thesis
    using assms refused by (auto simp: reset_route_def Let_def new_password_def split: if_splits)
next
  case False
  obtain x w1 where red: "redeem_reset (ae_now env) (reset_hash env q) w = (x, w1)" by fastforce
  note w1 = redeem_reset_hit [OF red]
  show ?thesis
  proof (cases x)
    case None
    then show ?thesis
      using assms False refused red w1(3) by (auto simp: reset_route_def Let_def new_password_def reset_hash_def)
  next
    case (Some r)
    have user: "user_by_id i w1 = user_by_id i w" for i by (subst w1(1)) simp
    have pol: "password_refused env u v w1 = password_refused env u v w" for u v by (subst w1(1)) simp
    show ?thesis
    proof (cases "\<exists>u p. user_by_id (rs_user r) w = Some u \<and> u_active u \<and> new_password q = JStr p \<and>
        password_refused env u (JStr p) w = None")
      case True
      then obtain u p where u: "user_by_id (rs_user r) w = Some u" "u_active u" "new_password q = JStr p"
        "password_refused env u (JStr p) w = None" by blast
      show ?thesis
        using assms False red Some u user pol
        by (intro accepted [of r w1 u p]) (auto simp: reset_route_def Let_def new_password_def reset_hash_def)
    next
      case f: False
      then have "rp_status a \<noteq> 200 \<and> rp_set a = [] \<and> w' = w1"
        using assms False red Some user pol
        by (auto simp: reset_route_def Let_def new_password_def reset_hash_def
            split: option.splits if_splits jsv.splits dest: password_refused_status)
      then show ?thesis using burnt red Some by blast
    qed
  qed
qed

lemma spent_after_redeem:
  assumes "redeem_reset (ae_now env) h w = (r, w1)"
  shows "spent env h w1"
  using redeem_reset_hit(2) [OF assms] by (simp add: spent_def list_all_iff)

lemma reset_gives:
  assumes "reset_route env d q w = (a, w')"
  shows "(rp_status a = 200 \<and>
      (\<exists>r u p. redeemable env (reset_hash env q) w r \<and> user_by_id (rs_user r) w = Some u \<and> u_active u \<and>
         new_password q = JStr p \<and> password_refused env u (JStr p) w = None \<and> renewed_account env d u p w w' \<and>
         list_all (\<lambda>x. rs_user x = u_id u \<longrightarrow> rs_used x \<or> rs_expires x \<le> ae_now env) (aw_resets w'))) \<or>
    (rp_status a \<noteq> 200 \<and> rp_set a = [] \<and> w' = w\<lparr>aw_resets := aw_resets w'\<rparr>)"
  using assms
proof (cases rule: reset_cases)
  case refused
  then show ?thesis by simp
next
  case (burnt r w1)
  then show ?thesis using redeem_reset_hit(1) by metis
next
  case (accepted r u p w1)
  note w1 = redeem_reset_hit [OF accepted(2)]
  have db: "aw_db w1 = aw_db w" by (subst w1(1)) simp
  have "aw_resets w' = filter (\<lambda>x. \<not> (rs_user x = u_id u \<and> rs_hash x \<noteq> reset_hash env q)) (aw_resets w1)"
    by (simp add: accepted(7) cleared_account_def clearFailedAttempts_def Let_def)
  then have "list_all (\<lambda>x. rs_user x = u_id u \<longrightarrow> rs_used x \<or> rs_expires x \<le> ae_now env) (aw_resets w')"
    using w1(2) by (auto simp: list_all_iff)
  moreover have "redeemable env (reset_hash env q) w r" using w1(4) by (simp add: redeemable_def)
  ultimately show ?thesis using accepted renewed_after [OF db] by blast
qed

text \<open>
  Claim C7. What \<open>/auth/password/reset\<close> does. A 200 rests on a stored token that is neither used nor
  expired, whose active user gets the new password, which met the policy of the user's tenant and
  is none of the remembered ones. Then every session of the user is off, none of the user's
  refresh tokens is left, the lock is gone, no token is left that resets the password again, and
  the other accounts are as they were. Any other answer changes nothing but the token's mark.
\<close>

theorem password_reset_contract:
  assumes "reset_route env d q w = (a, w')"
  shows "(rp_status a = 200 \<and>
      (\<exists>r u p. redeemable env (reset_hash env q) w r \<and> user_by_id (rs_user r) w = Some u \<and> u_active u \<and>
         new_password q = JStr p \<and> password_refused env u (JStr p) w = None \<and> renewed_account env d u p w w' \<and>
         list_all (\<lambda>x. rs_user x = u_id u \<longrightarrow> rs_used x \<or> rs_expires x \<le> ae_now env) (aw_resets w'))) \<or>
    (rp_status a \<noteq> 200 \<and> rp_set a = [] \<and> w' = w\<lparr>aw_resets := aw_resets w'\<rparr>)"
  using assms by (rule reset_gives)

text \<open>
  The first presentation of a reset token uses it up, before the new password is looked at:
  also when the policy or the history refuses the password, the same token is refused from then
  on, whatever password comes with it.
\<close>

lemma reset_token_spent:
  assumes "reset_route env d q w = (a, w')" and "redeemable env (reset_hash env q) w r"
    and "hq_body q \<noteq> JUndef" and "truthy (body_field q ''token'')" and "truthy (new_password q)"
    and "reset_hash env2 q2 = reset_hash env q" and "ae_now env \<le> ae_now env2"
  shows "rp_status (fst (reset_route env2 d2 q2 w')) \<noteq> 200"
proof -
  obtain x w1 where red: "redeem_reset (ae_now env) (reset_hash env q) w = (x, w1)" by fastforce
  have "x \<noteq> None"
  proof
    assume "x = None"
    with red have "w1 = w" using redeem_reset_hit(3) by blast
    then show False
      using redeem_reset_hit(2) [OF red] assms(2) unfolding redeemable_def by fastforce
  qed
  have "spent env (reset_hash env q) w'"
    using assms(1)
  proof (cases rule: reset_cases)
    case refused
    obtain r where x: "x = Some r" using \<open>x \<noteq> None\<close> by blast
    have "rp_status a \<noteq> 200 \<Longrightarrow> w' = w1"
      using assms(1,3-5) red x
      by (auto simp: reset_route_def Let_def new_password_def reset_hash_def
          split: option.splits if_splits jsv.splits)
    then show ?thesis using refused spent_after_redeem [OF red] by simp
  next
    case (burnt r w1)
    then show ?thesis using spent_after_redeem by blast
  next
    case (accepted r u p w1)
    have "aw_resets w' = filter (\<lambda>x. \<not> (rs_user x = u_id u \<and> rs_hash x \<noteq> reset_hash env q)) (aw_resets w1)"
      by (simp add: accepted(7) cleared_account_def clearFailedAttempts_def Let_def)
    then show ?thesis
      using spent_after_redeem [OF accepted(2)] by (auto simp: spent_def list_all_iff)
  qed
  then have "\<not> redeemable env2 (reset_hash env2 q2) w' y" for y
    using assms(6,7) by (auto simp: redeemable_def spent_def list_all_iff)
  then show ?thesis
    using reset_gives [of env2 d2 q2 w'] by (metis prod.collapse)
qed

subsection \<open>A reset\<close>

definition reset_world :: auth_world where
  "reset_world = svc_world\<lparr>
     aw_db := (aw_db svc_world)\<lparr>
       refresh_tokens := [\<lparr>rf_user = 7, rf_hash = ''h'', rf_expires = 99\<rparr>],
       sessions := [\<lparr>se_id = ''s1'', se_user = 7, se_hash = ''h'', se_active = True\<rparr>]\<rparr>,
     aw_resets := [\<lparr>rs_user = 7, rs_hash = ''#t'', rs_expires = 60, rs_used = False\<rparr>]\<rparr>"

definition reset_request :: "string \<Rightarrow> auth_http" where
  "reset_request p = \<lparr>hq_body = JObj [(''token'', JStr '' t''), (''password'', JStr p)],
     hq_headers = [], hq_cookies = [], hq_ip = ''10.0.0.1'', hq_params = [], hq_query = JUndef\<rparr>"

theorem password_reset_contract_witness:
  "rp_status (fst (reset_route (svc_env 5) some_draws (reset_request ''Fresh1pw'') reset_world)) = 200 \<and>
   (\<exists>u. renewed_account (svc_env 5) some_draws u ''Fresh1pw'' reset_world
      (snd (reset_route (svc_env 5) some_draws (reset_request ''Fresh1pw'') reset_world)))"
proof -
  let ?r = "reset_route (svc_env 5) some_draws (reset_request ''Fresh1pw'') reset_world"
  have "rp_status (fst ?r) = 200" by code_simp
  moreover have "new_password (reset_request ''Fresh1pw'') = JStr ''Fresh1pw''" by code_simp
  ultimately show ?thesis
    using password_reset_contract [of "svc_env 5" some_draws "reset_request ''Fresh1pw''" reset_world "fst ?r" "snd ?r"]
    by auto
qed

lemma reset_token_spent_witness:
  "rp_status (fst (reset_route (svc_env 5) some_draws (reset_request ''short'') reset_world)) = 400 \<and>
   rp_status (fst (reset_route (svc_env 6) some_draws (reset_request ''Fresh1pw'')
     (snd (reset_route (svc_env 5) some_draws (reset_request ''short'') reset_world)))) \<noteq> 200"
proof -
  let ?r = "reset_route (svc_env 5) some_draws (reset_request ''short'') reset_world"
  have "rp_status (fst ?r) = 400" by code_simp
  moreover have "redeemable (svc_env 5) (reset_hash (svc_env 5) (reset_request ''short'')) reset_world
      \<lparr>rs_user = 7, rs_hash = ''#t'', rs_expires = 60, rs_used = False\<rparr>" by code_simp
  moreover have "truthy (body_field (reset_request ''short'') ''token'')" "truthy (new_password (reset_request ''short''))"
    "reset_hash (svc_env 6) (reset_request ''Fresh1pw'') = reset_hash (svc_env 5) (reset_request ''short'')"
    by code_simp+
  ultimately show ?thesis
    using reset_token_spent [of "svc_env 5" some_draws "reset_request ''short''" reset_world "fst ?r" "snd ?r"
      _ "svc_env 6" "reset_request ''Fresh1pw''" some_draws]
    by (simp add: reset_request_def svc_env_def)
qed

end
