(* ===== verification/Auth_Admin.thy ===== *)
theory Auth_Admin
  imports Auth_Mfa
begin

section \<open>The auth service: policies, API keys and the internal lookup\<close>

text \<open>
  The routes \<open>/auth/admin/password-policy\<close>, \<open>/auth/admin/api-keys\<close> and \<open>/internal/atlas-user\<close> of
  \<open>services/auth-service/index.js\<close>. The tenant is that of the verified token. The columns
  \<open>revoked_by\<close> and \<open>last_used_at\<close> of a key, which nothing decides on, are left out.
\<close>

definition admin_tenant :: "auth_env \<Rightarrow> jsv \<Rightarrow> string" where
  "admin_tenant env payload = pg_text env (js_or (get_field payload ''tenant_id'') (JStr ''default''))"

text \<open>\<open>req.body || {}\<close>, and the keys of what it is.\<close>

definition body_or_empty :: "auth_http \<Rightarrow> jsv" where
  "body_or_empty q = js_or (hq_body q) (JObj [])"

definition object_keys :: "jsv \<Rightarrow> string list" where
  "object_keys v =
     (case v of JObj fs \<Rightarrow> map fst fs | JArr vs \<Rightarrow> map string_of_nat [0..<length vs] | _ \<Rightarrow> [])"

definition object_entries :: "jsv \<Rightarrow> (string \<times> jsv) list" where
  "object_entries v = (case v of JObj fs \<Rightarrow> fs | _ \<Rightarrow> [])"

subsection \<open>The password policy of a tenant\<close>

definition policy_fields :: "string list" where
  "policy_fields =
     [''min_length'', ''require_upper'', ''require_lower'', ''require_digit'', ''require_symbol'',
      ''history_count'', ''max_age_days'']"

definition policy_route :: "jsv \<Rightarrow> handler" where
  "policy_route payload env d q w =
     (let tenant = admin_tenant env payload; stored = map_get (aw_policies w) tenant
      in (reply 200 (JObj [(''tenant_id'', JStr tenant), (''configured'', JBool (stored \<noteq> None)),
            (''policy'', policy_value (case stored of Some row \<Rightarrow> clampPasswordPolicy row
                                       | None \<Rightarrow> DEFAULT_PASSWORD_POLICY)),
            (''hard_floor_min_length'', JNum (of_int PASSWORD_HARD_FLOOR)),
            (''history_max_retention'', JNum (of_int PASSWORD_HISTORY_MAX_RETENTION)),
            (''max_age_days_cap'', JNum (of_int PASSWORD_MAX_AGE_DAYS_CAP)),
            (''denylist_version'', JStr COMMON_PASSWORD_LIST_VERSION)]), w))"

text \<open>The stored row with the fields of the body over it.\<close>

definition merged_policy :: "jsv \<Rightarrow> jsv option \<Rightarrow> password_policy" where
  "merged_policy body stored =
     clampPasswordPolicy
       (JObj (object_entries body @
          object_entries (case stored of Some row \<Rightarrow> row | None \<Rightarrow> policy_value DEFAULT_PASSWORD_POLICY)))"

definition policy_update_route :: "jsv \<Rightarrow> handler" where
  "policy_update_route payload env d q w =
     (let tenant = admin_tenant env payload; body = body_or_empty q
      in case filter (\<lambda>k. k \<notin> set policy_fields) (object_keys body) of
           k # _ \<Rightarrow>
             (reply 400 (JObj [(''message'', JStr (''Unknown password policy field: '' @ k)),
                (''field'', JStr k)]), w)
         | [] \<Rightarrow>
             (case validatePasswordPolicyInput body of
                Some errors \<Rightarrow>
                  (reply 400 (JObj [(''message'', JStr (snd (hd errors))), (''field'', JStr (fst (hd errors))),
                     (''errors'', JObj (map (\<lambda>(k, m). (k, JStr m)) errors))]), w)
              | None \<Rightarrow>
                  (let policy = merged_policy body (map_get (aw_policies w) tenant)
                   in (reply 200 (JObj [(''tenant_id'', JStr tenant), (''configured'', JBool True),
                         (''policy'', policy_value (clampPasswordPolicy (policy_value policy))),
                         (''hard_floor_min_length'', JNum (of_int PASSWORD_HARD_FLOOR)),
                         (''denylist_version'', JStr COMMON_PASSWORD_LIST_VERSION)]),
                       w\<lparr>aw_policies := map_set tenant (policy_value policy) (aw_policies w)\<rparr>))))"

subsection \<open>API keys\<close>

definition API_KEY_DEFAULT_EXPIRY_DAYS :: int where "API_KEY_DEFAULT_EXPIRY_DAYS = 90"
definition API_KEY_MAX_EXPIRY_DAYS :: int where "API_KEY_MAX_EXPIRY_DAYS = 730"

definition refused_field :: "string \<Rightarrow> string \<Rightarrow> auth_reply" where
  "refused_field m field = reply 400 (JObj [(''message'', JStr m), (''field'', JStr field)])"

definition label_given :: "jsv \<Rightarrow> string option" where
  "label_given v =
     (case v of
        JStr s \<Rightarrow> if trim s = [] \<or> 120 < length (trim s) then None else Some (trim s)
      | _ \<Rightarrow> None)"

text \<open>\<open>None\<close> when the value is there and out of range.\<close>

definition expiry_days :: "jsv \<Rightarrow> int option" where
  "expiry_days v =
     (if nullish v then Some API_KEY_DEFAULT_EXPIRY_DAYS
      else if integer_between 1 API_KEY_MAX_EXPIRY_DAYS v then (case v of JNum x \<Rightarrow> Some \<lfloor>x\<rfloor> | _ \<Rightarrow> None)
      else None)"

definition unique_scopes :: "jsv \<Rightarrow> jsv list" where
  "unique_scopes v = (case v of JArr vs \<Rightarrow> fold set_add vs [] | _ \<Rightarrow> [])"

definition issued_row :: "auth_env \<Rightarrow> draws \<Rightarrow> jsv \<Rightarrow> string \<Rightarrow> jsv list \<Rightarrow> int \<Rightarrow> api_key_row" where
  "issued_row env d payload label scopes days =
     \<lparr>ak_key_id = fst (dr_key d), ak_key_hash = ae_bcrypt env (dr_salt d) (snd (dr_key d)),
      ak_tenant = Some (admin_tenant env payload), ak_scopes = JArr scopes, ak_revoked_at = None,
      ak_expires_at = Some (ae_now env + days * day_ms), ak_label = label,
      ak_created_by = get_field payload ''id'', ak_created = ae_now env\<rparr>"

definition iso_or_null :: "auth_env \<Rightarrow> int option \<Rightarrow> jsv" where
  "iso_or_null env t = (case t of Some n \<Rightarrow> JStr (ae_iso env n) | None \<Rightarrow> JNull)"

text \<open>A key id that is taken violates a constraint, as the id of an unknown caller does.\<close>

definition unknown_caller :: "jsv \<Rightarrow> auth_world \<Rightarrow> bool" where
  "unknown_caller payload w \<longleftrightarrow> \<not> nullish (get_field payload ''id'') \<and> user_of payload w = None"

definition key_create_route :: "jsv \<Rightarrow> handler" where
  "key_create_route payload env d q w =
     (let body = body_or_empty q
      in case label_given (get_field body ''label'') of
           None \<Rightarrow> (refused_field ''label is required (max 120 characters)'' ''label'', w)
         | Some label \<Rightarrow>
             (case validateApiKeyScopes (get_field body ''scopes'') of
                Some e \<Rightarrow> (refused_field e ''scopes'', w)
              | None \<Rightarrow>
                  (case expiry_days (get_field body ''expires_in_days'') of
                     None \<Rightarrow>
                       (refused_field (''expires_in_days must be an integer between 1 and '' @
                          string_of_int API_KEY_MAX_EXPIRY_DAYS) ''expires_in_days'', w)
                   | Some days \<Rightarrow>
                       (let row = issued_row env d payload label (unique_scopes (get_field body ''scopes'')) days
                        in if fst (dr_key d) \<in> ak_key_id ` set (aw_keys w) \<or> unknown_caller payload w
                           then (failure 500 ''Failed to create API key'', w)
                           else
                             (reply 201 (JObj
                                [(''message'', JStr ''API key created. Store it now; it will never be shown again.''),
                                 (''api_key'', JStr (format_key (fst (dr_key d)) (snd (dr_key d)))),
                                 (''key'', JObj [(''key_id'', JStr (ak_key_id row)), (''label'', JStr label),
                                    (''scopes'', ak_scopes row), (''tenant_id'', null_or (ak_tenant row)),
                                    (''created_at'', JStr (ae_iso env (ak_created row))),
                                    (''expires_at'', iso_or_null env (ak_expires_at row))])]),
                              w\<lparr>aw_keys := row # aw_keys w\<rparr>)))))"

definition key_list_route :: "jsv \<Rightarrow> handler" where
  "key_list_route payload env d q w =
     (reply 200 (JObj [(''api_keys'', JArr (map (\<lambda>k.
        JObj [(''key_id'', JStr (ak_key_id k)), (''label'', JStr (ak_label k)), (''scopes'', ak_scopes k),
          (''tenant_id'', null_or (ak_tenant k)), (''created_by'', ak_created_by k),
          (''created_at'', JStr (ae_iso env (ak_created k))),
          (''expires_at'', iso_or_null env (ak_expires_at k)),
          (''revoked_at'', iso_or_null env (ak_revoked_at k))])
        (take 100 (filter (\<lambda>k. ak_tenant k = Some (admin_tenant env payload)) (aw_keys w)))))]), w)"

definition key_revoke_route :: "jsv \<Rightarrow> handler" where
  "key_revoke_route payload env d q w =
     (let keyId = (case map_get (hq_params q) ''keyId'' of Some k \<Rightarrow> k | None \<Rightarrow> []);
          ours = (\<lambda>k. ak_key_id k = keyId \<and> ak_tenant k = Some (admin_tenant env payload))
      in if length keyId \<noteq> 16 \<or> \<not> list_all lower_hex keyId then (failure 400 ''Invalid key id'', w)
         else
           (case find (\<lambda>k. ours k \<and> ak_revoked_at k = None) (aw_keys w) of
              Some k \<Rightarrow>
                if unknown_caller payload w then (failure 500 ''Failed to revoke API key'', w) else
                (reply 200 (JObj [(''message'', JStr ''API key revoked''), (''key_id'', JStr keyId),
                   (''revoked_at'', JStr (ae_iso env (ae_now env)))]),
                 w\<lparr>aw_keys := map (\<lambda>k. if ours k \<and> ak_revoked_at k = None
                     then k\<lparr>ak_revoked_at := Some (ae_now env)\<rparr> else k) (aw_keys w)\<rparr>)
            | None \<Rightarrow>
                (case find ours (aw_keys w) of
                   None \<Rightarrow> (failure 404 ''API key not found'', w)
                 | Some k \<Rightarrow>
                     (reply 200 (JObj [(''message'', JStr ''API key was already revoked''),
                        (''revoked_at'', iso_or_null env (ak_revoked_at k))]), w))))"

subsection \<open>The lookup of the gateway\<close>

text \<open>Letters, digits and \<open>._%+-\<close>, an \<open>@\<close>, and a domain that ends in a dot and two letters or more.\<close>

definition is_letter :: "char \<Rightarrow> bool" where
  "is_letter c \<longleftrightarrow> is_upper c \<or> is_lower c"

definition lookup_email :: "string \<Rightarrow> bool" where
  "lookup_email s \<longleftrightarrow>
     (case split_on (CHR ''@'') s of
        [loc, site] \<Rightarrow>
          (let tld = last (split_on (CHR ''.'') site)
           in loc \<noteq> [] \<and> list_all (\<lambda>c. is_letter c \<or> is_digit c \<or> c \<in> set ''._%+-'') loc \<and>
              list_all (\<lambda>c. is_letter c \<or> is_digit c \<or> c \<in> set ''.-'') site \<and>
              2 \<le> length tld \<and> list_all is_letter tld \<and> length tld + 1 < length site)
      | _ \<Rightarrow> False)"

definition atlas_user_route :: handler where
  "atlas_user_route env d q w =
     (let token = header_of q ''x-internal-auth''
      in if falsy_string token then (failure 401 ''Internal authentication required'', w)
         else
           (case ae_verify_internal env (the token) of
              VerifyFails _ \<Rightarrow> (failure 401 ''Invalid internal token'', w)
            | Verified claims \<Rightarrow>
                (let email = (case get_field (hq_query q) ''email'' of JStr s \<Rightarrow> to_lower (trim s) | _ \<Rightarrow> []);
                     tenant = (case get_field claims ''tenant_id'' of
                                 JStr t \<Rightarrow> if trim t = [] then ''default'' else trim t | _ \<Rightarrow> ''default'')
                 in if \<not> lookup_email email then (failure 400 ''A valid email is required'', w)
                    else
                      (case find (\<lambda>u. u_email u = email \<and> u_tenant u = Some tenant) (users (aw_db w)) of
                         None \<Rightarrow> (failure 404 ''No matching Atlas user in this workspace'', w)
                       | Some u \<Rightarrow>
                           if u_enabled u = Some False then (failure 404 ''No matching Atlas user in this workspace'', w)
                           else
                             (reply 200 (JObj [(''id'', JNum (of_int (u_id u))), (''email'', JStr (u_email u)),
                                (''name'', JStr (u_name u)), (''role'', JStr (u_role u)),
                                (''tenant_id'', JStr (if falsy_string (u_tenant u) then tenant
                                                      else the (u_tenant u)))]), w)))))"

text \<open>The routes with their middlewares.\<close>

definition GET_password_policy :: handler where
  "GET_password_policy = signed_in [''admin''] ''password_policy_read'' 60 policy_route"

definition PUT_password_policy :: handler where
  "PUT_password_policy = signed_in [''admin''] ''password_policy_update'' 20 policy_update_route"

definition POST_api_keys :: handler where
  "POST_api_keys = signed_in [''admin''] ''api_key_issue'' 20 key_create_route"

definition GET_api_keys :: handler where
  "GET_api_keys = signed_in [''admin''] ''api_key_list'' 60 key_list_route"

definition DELETE_api_key :: handler where
  "DELETE_api_key = signed_in [''admin''] ''api_key_revoke'' 20 key_revoke_route"

subsection \<open>The life of an API key\<close>

text \<open>The answer of the SCIM guard to a live key.\<close>

definition key_answer :: "jsv list \<Rightarrow> string \<Rightarrow> string \<Rightarrow> (nat \<times> string) + scim_identity" where
  "key_answer scopes tenant verb =
     (if apiKeyHasScope scopes (scimScopeForRequest verb)
      then Inr \<lparr>si_tenant = (if tenant = [] then ''default'' else tenant), si_scopes = scopes\<rparr>
      else Inl (403, ''API key is missing the required scope: '' @ scimScopeForRequest verb))"

lemma key_created:
  assumes "key_create_route payload env d q w = (a, w1)" and "rp_status a = 201"
  obtains label days where "expiry_days (get_field (body_or_empty q) ''expires_in_days'') = Some days"
    "aw_keys w1 = issued_row env d payload label (unique_scopes (get_field (body_or_empty q) ''scopes'')) days # aw_keys w"
    "fst (dr_key d) \<notin> ak_key_id ` set (aw_keys w)"
    "get_field (rp_body a) ''api_key'' = JStr (format_key (fst (dr_key d)) (snd (dr_key d)))"
  using assms unfolding key_create_route_def Let_def
  by (auto simp: refused_field_def failure_def reply_def get_field_def split: option.splits if_splits)

lemma key_format: "parseApiKeyFormat key = Some (i, secret) \<Longrightarrow> length i = 16 \<and> list_all lower_hex i"
  by (auto simp: parseApiKeyFormat_def Let_def simp del: length_take length_drop split: if_splits)

lemma guard_of_key:
  assumes "parseApiKeyFormat key = Some (i, secret)" and "resolveScimTenant keys legacy key = None"
    and "find (\<lambda>k. ak_key_id k = i) rows = Some k" and "compare secret (ak_key_hash k)"
    and "ak_scopes k = JArr scopes" and "ak_tenant k = Some tenant"
  shows "requireScimAuth keys legacy compare (Some rows) now verb (Some key) =
    (case apiKeyStateError (Some k) now of Some e \<Rightarrow> Inl (401, e) | None \<Rightarrow> key_answer scopes tenant verb)"
proof -
  have "key \<noteq> []" using assms(1) by (auto simp: parseApiKeyFormat_def Let_def format_key_def split: if_splits)
  then show ?thesis
    using assms
    by (simp add: requireScimAuth_def falsy_string_def normalizeApiKeyScopes_def key_answer_def Let_def
        split: option.splits)
qed

lemma key_life:
  assumes "key_create_route payload env d q w = (a, w1)" and "rp_status a = 201"
    and "parseApiKeyFormat (format_key (fst (dr_key d)) (snd (dr_key d))) = Some (dr_key d)"
    and "ae_matches env (snd (dr_key d)) (ae_bcrypt env (dr_salt d) (snd (dr_key d)))"
    and "resolveScimTenant keys legacy (format_key (fst (dr_key d)) (snd (dr_key d))) = None"
    and "key_revoke_route payload2 env2 d2 q2 w1 = (b, w2)"
    and "map_get (hq_params q2) ''keyId'' = Some (fst (dr_key d))" and "\<not> unknown_caller payload2 w1"
  shows "\<exists>days key. expiry_days (get_field (body_or_empty q) ''expires_in_days'') = Some days \<and>
    get_field (rp_body a) ''api_key'' = JStr key \<and>
    requireScimAuth keys legacy (ae_matches env) (Some (aw_keys w1)) t verb (Some key) =
      (if ae_now env + days * day_ms \<le> t then Inl (401, ''API key has expired'')
       else key_answer (unique_scopes (get_field (body_or_empty q) ''scopes'')) (admin_tenant env payload) verb) \<and>
    (if admin_tenant env2 payload2 = admin_tenant env payload
     then rp_status b = 200 \<and> requireScimAuth keys legacy (ae_matches env) (Some (aw_keys w2)) t verb (Some key) =
            Inl (401, ''API key has been revoked'')
     else rp_status b = 404 \<and> w2 = w1)"
proof -
  let ?key = "format_key (fst (dr_key d)) (snd (dr_key d))" and ?i = "fst (dr_key d)"
  obtain label days where k: "expiry_days (get_field (body_or_empty q) ''expires_in_days'') = Some days"
    "aw_keys w1 = issued_row env d payload label (unique_scopes (get_field (body_or_empty q) ''scopes'')) days # aw_keys w"
    "?i \<notin> ak_key_id ` set (aw_keys w)" "get_field (rp_body a) ''api_key'' = JStr ?key"
    using key_created [OF assms(1,2)] .
  let ?row = "issued_row env d payload label (unique_scopes (get_field (body_or_empty q) ''scopes'')) days"
  let ?off = "?row\<lparr>ak_revoked_at := Some (ae_now env2)\<rparr>"
  have fmt: "parseApiKeyFormat ?key = Some (?i, snd (dr_key d))" using assms(3) by simp
  then have hex: "length ?i = 16" "list_all lower_hex ?i" using key_format by blast+
  have guard: "requireScimAuth keys legacy (ae_matches env) (Some rows) t verb (Some ?key) =
      (case apiKeyStateError (Some r) t of Some e \<Rightarrow> Inl (401, e)
       | None \<Rightarrow> key_answer (unique_scopes (get_field (body_or_empty q) ''scopes'')) (admin_tenant env payload) verb)"
    if "find (\<lambda>k. ak_key_id k = ?i) rows = Some r" "r = ?row \<or> r = ?off" for rows r
    using that assms(4) by (intro guard_of_key [OF fmt assms(5) that(1)]) (auto simp: issued_row_def)
  have live: "requireScimAuth keys legacy (ae_matches env) (Some (aw_keys w1)) t verb (Some ?key) =
      (if ae_now env + days * day_ms \<le> t then Inl (401, ''API key has expired'')
       else key_answer (unique_scopes (get_field (body_or_empty q) ''scopes'')) (admin_tenant env payload) verb)"
    using guard [of "aw_keys w1" ?row] by (simp add: k(2) apiKeyStateError_def) (simp add: issued_row_def)
  have other: "ak_key_id k \<noteq> ?i" if "k \<in> set (aw_keys w)" for k using k(3) that by force
  show ?thesis
  proof (cases "admin_tenant env2 payload2 = admin_tenant env payload")
    case True
    have "aw_keys w2 = ?off # aw_keys w \<and> rp_status b = 200"
      using assms(6-8) hex True other
      by (auto simp: key_revoke_route_def Let_def k(2) issued_row_def reply_def intro!: map_idI)
    moreover from this have "requireScimAuth keys legacy (ae_matches env) (Some (aw_keys w2)) t verb (Some ?key) =
        Inl (401, ''API key has been revoked'')"
      using guard [of "aw_keys w2" ?off] by (simp add: apiKeyStateError_def) (simp add: issued_row_def)
    ultimately show ?thesis using True k(1,4) live by auto
  next
    case False
    then have none: "find (\<lambda>k. ak_key_id k = ?i \<and> ak_tenant k = Some (admin_tenant env2 payload2)) (aw_keys w1) = None"
      "find (\<lambda>k. (ak_key_id k = ?i \<and> ak_tenant k = Some (admin_tenant env2 payload2)) \<and> ak_revoked_at k = None) (aw_keys w1) = None"
      using other by (auto simp: find_None_iff k(2) issued_row_def)
    have "rp_status b = 404 \<and> w2 = w1"
      using assms(6,7) hex none by (auto simp: key_revoke_route_def Let_def failure_def reply_def)
    then show ?thesis using False k(1,4) live by auto
  qed
qed

text \<open>
  Claim C23. The life of an API key. The key an admin is given (once, in the answer) passes the SCIM
  guard for the admin's tenant with the scopes it was issued with until it expires, and a request
  beyond its scopes is refused with 403. Revoked by an admin of the same tenant it is refused with
  401 from then on; an admin of another tenant does not find it.
\<close>

theorem api_key_life:
  assumes "key_create_route payload env d q w = (a, w1)" and "rp_status a = 201"
    and "parseApiKeyFormat (format_key (fst (dr_key d)) (snd (dr_key d))) = Some (dr_key d)"
    and "ae_matches env (snd (dr_key d)) (ae_bcrypt env (dr_salt d) (snd (dr_key d)))"
    and "resolveScimTenant keys legacy (format_key (fst (dr_key d)) (snd (dr_key d))) = None"
    and "key_revoke_route payload2 env2 d2 q2 w1 = (b, w2)"
    and "map_get (hq_params q2) ''keyId'' = Some (fst (dr_key d))" and "\<not> unknown_caller payload2 w1"
  shows "\<exists>days key. expiry_days (get_field (body_or_empty q) ''expires_in_days'') = Some days \<and>
    get_field (rp_body a) ''api_key'' = JStr key \<and>
    requireScimAuth keys legacy (ae_matches env) (Some (aw_keys w1)) t verb (Some key) =
      (if ae_now env + days * day_ms \<le> t then Inl (401, ''API key has expired'')
       else key_answer (unique_scopes (get_field (body_or_empty q) ''scopes'')) (admin_tenant env payload) verb) \<and>
    (if admin_tenant env2 payload2 = admin_tenant env payload
     then rp_status b = 200 \<and> requireScimAuth keys legacy (ae_matches env) (Some (aw_keys w2)) t verb (Some key) =
            Inl (401, ''API key has been revoked'')
     else rp_status b = 404 \<and> w2 = w1)"
  using assms by (rule key_life)

definition hex_draws :: draws where
  "hex_draws = some_draws\<lparr>dr_key := (replicate 16 (CHR ''a''), replicate 64 (CHR ''b''))\<rparr>"

definition admin_payload :: "string \<Rightarrow> jsv" where
  "admin_payload tenant = JObj [(''id'', JNum 7), (''role'', JStr ''admin''), (''tenant_id'', JStr tenant)]"

definition admin_request :: "(string \<times> jsv) list \<Rightarrow> auth_http" where
  "admin_request fs = \<lparr>hq_body = JObj fs, hq_headers = [], hq_cookies = [], hq_ip = ''10.0.0.1'',
     hq_params = [(''keyId'', replicate 16 (CHR ''a''))], hq_query = JUndef\<rparr>"

abbreviation "issue_request \<equiv> admin_request [(''label'', JStr '' ci ''), (''scopes'', JArr [JStr ''scim:read''])]"

theorem api_key_life_witness:
  "\<exists>key. get_field (rp_body (fst (key_create_route (admin_payload ''acme'') (svc_env 5) hex_draws issue_request svc_world))) ''api_key''
       = JStr key \<and>
     requireScimAuth [] [] (ae_matches (svc_env 5))
       (Some (aw_keys (snd (key_create_route (admin_payload ''acme'') (svc_env 5) hex_draws issue_request svc_world)))) 6 ''GET'' (Some key)
       = Inr \<lparr>si_tenant = ''acme'', si_scopes = [JStr ''scim:read'']\<rparr>"
proof -
  let ?r = "key_create_route (admin_payload ''acme'') (svc_env 5) hex_draws issue_request svc_world"
  let ?v = "key_revoke_route (admin_payload ''acme'') (svc_env 7) hex_draws issue_request (snd ?r)"
  have run: "rp_status (fst ?r) = 201"
    "parseApiKeyFormat (format_key (fst (dr_key hex_draws)) (snd (dr_key hex_draws))) = Some (dr_key hex_draws)"
    "ae_matches (svc_env 5) (snd (dr_key hex_draws)) (ae_bcrypt (svc_env 5) (dr_salt hex_draws) (snd (dr_key hex_draws)))"
    "resolveScimTenant [] [] (format_key (fst (dr_key hex_draws)) (snd (dr_key hex_draws))) = None"
    "map_get (hq_params issue_request) ''keyId'' = Some (fst (dr_key hex_draws))"
    "\<not> unknown_caller (admin_payload ''acme'') (snd ?r)"
    by code_simp+
  have facts: "expiry_days (get_field (body_or_empty issue_request) ''expires_in_days'') = Some 90"
    "key_answer (unique_scopes (get_field (body_or_empty issue_request) ''scopes''))
       (admin_tenant (svc_env 5) (admin_payload ''acme'')) ''GET'' =
       Inr \<lparr>si_tenant = ''acme'', si_scopes = [JStr ''scim:read'']\<rparr>"
    "(ae_now (svc_env 5) + 90 * day_ms \<le> 6) = False"
    by code_simp+
  show ?thesis
    using api_key_life [of "admin_payload ''acme''" "svc_env 5" hex_draws issue_request svc_world "fst ?r" "snd ?r" "[]" "[]"
      "admin_payload ''acme''" "svc_env 7" hex_draws issue_request "fst ?v" "snd ?v" 6 "''GET''"] run facts
    by (auto simp del: append_Cons)
qed

subsection \<open>Storing a policy\<close>

lemma merged_field:
  "get_field (JObj (b @ s)) k = (if k \<in> fst ` set b then get_field (JObj b) k else get_field (JObj s) k)"
  by (induction b) (auto simp: map_add_def split: option.splits dest: map_of_SomeD)

text \<open>The value a field of the policy has after a request with this body, given the one before.\<close>

definition updated_field :: "jsv \<Rightarrow> password_policy \<Rightarrow> string \<Rightarrow> jsv" where
  "updated_field body old k =
     (if \<not> has_field body k then get_field (policy_value old) k
      else if k = ''max_age_days'' \<and> get_field body k = JNum 0 then JNull
      else get_field body k)"

definition policy_in_force :: "string \<Rightarrow> auth_world \<Rightarrow> password_policy" where
  "policy_in_force tenant w =
     (case map_get (aw_policies w) tenant of Some row \<Rightarrow> clampPasswordPolicy row | None \<Rightarrow> DEFAULT_PASSWORD_POLICY)"

lemma integer_value:
  assumes "integer_between lo hi v"
  obtains n where "v = JNum (of_int n)" "lo \<le> n" "n \<le> hi" "toInt v = Some n"
proof -
  obtain q where q: "v = JNum q" "q = of_int \<lfloor>q\<rfloor>" "lo \<le> \<lfloor>q\<rfloor>" "\<lfloor>q\<rfloor> \<le> hi"
    using assms by (auto simp: integer_between_def split: jsv.splits)
  have "js_trunc q = \<lfloor>q\<rfloor>" by (subst q(2), simp add: js_trunc_def)
  then show ?thesis using that [of "\<lfloor>q\<rfloor>"] q by (simp add: toInt_def)
qed

text \<open>A field of a clamped row, from that field of the row.\<close>

definition clamped_field :: "string \<Rightarrow> jsv \<Rightarrow> jsv" where
  "clamped_field k v =
     (let d = DEFAULT_PASSWORD_POLICY
      in if k = ''min_length'' then
           JNum (of_int (case toInt v of None \<Rightarrow> min_length d
             | Some n \<Rightarrow> clamp_between PASSWORD_HARD_FLOOR PASSWORD_MIN_LENGTH_CAP n))
         else if k = ''history_count'' then
           JNum (of_int (case toInt v of None \<Rightarrow> history_count d
             | Some n \<Rightarrow> clamp_between 0 PASSWORD_HISTORY_MAX_RETENTION n))
         else if k = ''max_age_days'' then
           (case toInt v of None \<Rightarrow> JNull
            | Some n \<Rightarrow> if n \<le> 0 then JNull else JNum (of_int (min n PASSWORD_MAX_AGE_DAYS_CAP)))
         else if k = ''require_upper'' then JBool (flag_of v (require_upper d))
         else if k = ''require_lower'' then JBool (flag_of v (require_lower d))
         else if k = ''require_digit'' then JBool (flag_of v (require_digit d))
         else JBool (flag_of v (require_symbol d)))"

lemma no_age: "toInt JNull = None" "max_age_days DEFAULT_PASSWORD_POLICY = None"
  by (simp_all add: toInt_def DEFAULT_PASSWORD_POLICY_def)

lemma clamp_fieldwise:
  assumes "is_object raw" and "k \<in> set policy_fields"
  shows "get_field (policy_value (clampPasswordPolicy raw)) k = clamped_field k (get_field raw k)"
proof -
  have flags: "get_field (policy_value (clampPasswordPolicy raw)) f = clamped_field f (get_field raw f)"
    if "f \<in> {''require_upper'', ''require_lower'', ''require_digit'', ''require_symbol''}" for f
    using that assms(1) by (auto simp: policy_value_def clampPasswordPolicy_def clamped_field_def Let_def)
  have "get_field (policy_value (clampPasswordPolicy raw)) f = clamped_field f (get_field raw f)"
    if "f \<in> {''min_length'', ''history_count''}" for f
    using that assms(1) by (auto simp: policy_value_def clampPasswordPolicy_def clamped_field_def Let_def)
  moreover have "get_field (policy_value (clampPasswordPolicy raw)) ''max_age_days'' =
      clamped_field ''max_age_days'' (get_field raw ''max_age_days'')"
    using assms(1)
    by (cases "get_field raw ''max_age_days'' = JNull"; cases "toInt (get_field raw ''max_age_days'')")
      (simp_all add: policy_value_def clampPasswordPolicy_def clamped_field_def no_age Let_def)
  ultimately show ?thesis using assms(2) flags by (auto simp: policy_fields_def)
qed

lemma object_is_object: "is_object (JObj fs)"
  by (simp add: is_object_def typeof_object_def)

lemma clamped_input:
  assumes "validatePasswordPolicyInput body = None" and "k \<in> set policy_fields" and "has_field body k"
  shows "clamped_field k (get_field body k) =
    (if k = ''max_age_days'' \<and> get_field body k = JNum 0 then JNull else get_field body k)"
proof -
  let ?v = "get_field body k"
  consider (len) "k = ''min_length''" "integer_between PASSWORD_HARD_FLOOR PASSWORD_MIN_LENGTH_CAP ?v"
    | (count) "k = ''history_count''" "integer_between 0 PASSWORD_HISTORY_MAX_RETENTION ?v"
    | (age) "k = ''max_age_days''" "?v = JNull \<or> integer_between 0 PASSWORD_MAX_AGE_DAYS_CAP ?v"
    | (flag) "k \<in> {''require_upper'', ''require_lower'', ''require_digit'', ''require_symbol''}" "is_boolean ?v"
  proof -
    have v: "(has_field body ''min_length'' \<longrightarrow>
          integer_between PASSWORD_HARD_FLOOR PASSWORD_MIN_LENGTH_CAP (get_field body ''min_length'')) \<and>
        (has_field body ''history_count'' \<longrightarrow>
          integer_between 0 PASSWORD_HISTORY_MAX_RETENTION (get_field body ''history_count'')) \<and>
        (has_field body ''max_age_days'' \<longrightarrow> get_field body ''max_age_days'' = JNull \<or>
          integer_between 0 PASSWORD_MAX_AGE_DAYS_CAP (get_field body ''max_age_days''))"
      using assms(1) by (simp add: validatePasswordPolicyInput_def Let_def split: if_splits)
    have f: "has_field body f \<longrightarrow> is_boolean (get_field body f)"
      if "f \<in> set [''require_upper'', ''require_lower'', ''require_digit'', ''require_symbol'']" for f
      using assms(1) that
      by (simp only: validatePasswordPolicyInput_def Let_def append_is_Nil_conv map_is_Nil_conv filter_empty_conv
          option.distinct split: if_splits) (blast+)
    show ?thesis
      using assms(2) unfolding policy_fields_def list.set insert_iff empty_iff
    proof (elim disjE FalseE)
      assume "k = ''min_length''"
      then show ?thesis using v assms(3) that(1) by simp
    next
      assume k: "k = ''require_upper''"
      then show ?thesis using f [of k] assms(3) that(4) by simp
    next
      assume k: "k = ''require_lower''"
      then show ?thesis using f [of k] assms(3) that(4) by simp
    next
      assume k: "k = ''require_digit''"
      then show ?thesis using f [of k] assms(3) that(4) by simp
    next
      assume k: "k = ''require_symbol''"
      then show ?thesis using f [of k] assms(3) that(4) by simp
    next
      assume "k = ''history_count''"
      then show ?thesis using v assms(3) that(2) by simp
    next
      assume "k = ''max_age_days''"
      then show ?thesis using v assms(3) that(3) by simp
    qed
  qed
  then show ?thesis
  proof cases
    case len
    then show ?thesis by (elim integer_value) (simp add: clamped_field_def clamp_between_id len(1))
  next
    case count
    then show ?thesis by (elim integer_value) (simp add: clamped_field_def clamp_between_id count(1))
  next
    case age
    then show ?thesis
    proof (elim disjE integer_value)
      assume "?v = JNull"
      then show ?thesis using age(1) by (simp add: clamped_field_def toInt_def)
    next
      fix n assume "?v = JNum (of_int n)" "0 \<le> n" "n \<le> PASSWORD_MAX_AGE_DAYS_CAP" "toInt ?v = Some n"
      then show ?thesis using age(1) by (simp add: clamped_field_def)
    qed
  next
    case flag
    then obtain b where b: "?v = JBool b" by (cases ?v) (simp_all add: is_boolean_def)
    have "clamped_field k (JBool b) = JBool b \<and> k \<noteq> ''max_age_days''"
      using flag(1) by (elim insertE emptyE) (simp_all add: clamped_field_def flag_of_def Let_def)
    then show ?thesis using b by simp
  qed
qed

lemma merged_policy_field:
  assumes "validatePasswordPolicyInput body = None" and "k \<in> set policy_fields"
  shows "get_field (policy_value (merged_policy body stored)) k =
    updated_field body (case stored of Some row \<Rightarrow> clampPasswordPolicy row | None \<Rightarrow> DEFAULT_PASSWORD_POLICY) k"
proof -
  let ?s = "case stored of Some row \<Rightarrow> row | None \<Rightarrow> policy_value DEFAULT_PASSWORD_POLICY"
  let ?old = "case stored of Some row \<Rightarrow> clampPasswordPolicy row | None \<Rightarrow> DEFAULT_PASSWORD_POLICY"
  have "policy_ok DEFAULT_PASSWORD_POLICY"
    by (simp add: policy_ok_def DEFAULT_PASSWORD_POLICY_def policy_bounds PASSWORD_HISTORY_MAX_RETENTION_def)
  then have "?old = clampPasswordPolicy ?s" by (simp add: clamp_policy_value split: option.splits)
  also have "\<dots> = clampPasswordPolicy (JObj (object_entries ?s))"
    by (cases ?s) (simp_all add: clampPasswordPolicy_def object_entries_def is_object_def typeof_object_def
        get_field_def toInt_def flag_of_def DEFAULT_PASSWORD_POLICY_def)
  finally have old: "get_field (policy_value ?old) k = clamped_field k (get_field (JObj (object_entries ?s)) k)"
    using clamp_fieldwise [OF object_is_object assms(2)] by simp
  have new: "get_field (policy_value (merged_policy body stored)) k =
      clamped_field k (if k \<in> fst ` set (object_entries body) then get_field (JObj (object_entries body)) k
        else get_field (JObj (object_entries ?s)) k)"
    unfolding merged_policy_def clamp_fieldwise [OF object_is_object assms(2)] merged_field by simp
  have body: "has_field body k \<longleftrightarrow> k \<in> fst ` set (object_entries body)"
    "has_field body k \<Longrightarrow> get_field (JObj (object_entries body)) k = get_field body k"
    by (auto simp: has_field_def object_entries_def get_field_def split: jsv.splits)
  show ?thesis
  proof (cases "has_field body k")
    case True
    then show ?thesis using new body clamped_input [OF assms True] by (simp add: updated_field_def del: get_field_JObj)
  next
    case False
    then show ?thesis using new body old by (simp add: updated_field_def del: get_field_JObj)
  qed
qed

lemma policy_update_200:
  assumes "policy_update_route payload env d q w = (a, w1)" and "rp_status a = 200"
  shows "validatePasswordPolicyInput (body_or_empty q) = None"
    and "w1 = w\<lparr>aw_policies := map_set (admin_tenant env payload)
      (policy_value (merged_policy (body_or_empty q) (map_get (aw_policies w) (admin_tenant env payload)))) (aw_policies w)\<rparr>"
  using assms unfolding policy_update_route_def Let_def
  by (auto simp: reply_def split: list.splits option.splits)

text \<open>
  Storing a policy and reading it. When the update is answered with 200, the policy read back
  has every field the body gives as it was given (an age of 0 comes back as null) and every other
  field as it was in force before; it is the policy passwords of the tenant are measured
  against, and the policies of other tenants are as they were.
\<close>

lemma policy_round_trip:
  assumes "policy_update_route payload env d q w = (a, w1)" and "rp_status a = 200"
    and "admin_tenant env payload = t" and "admin_tenant env2 payload2 = t"
    and "trim t = t" and "t \<noteq> []" and "k \<in> set policy_fields" and "t' \<noteq> t"
  shows "get_field (get_field (rp_body (fst (policy_route payload2 env2 d2 q2 w1))) ''policy'') k =
      updated_field (body_or_empty q) (policy_in_force t w) k \<and>
    policy_value (getPasswordPolicyForTenant w1 (Some t)) =
      get_field (rp_body (fst (policy_route payload2 env2 d2 q2 w1))) ''policy'' \<and>
    policy_in_force t' w1 = policy_in_force t' w"
proof -
  note stored = policy_update_200 [OF assms(1,2), unfolded assms(3)]
  let ?m = "merged_policy (body_or_empty q) (map_get (aw_policies w) t)"
  have row: "map_get (aw_policies w1) t = Some (policy_value ?m)" by (simp add: stored(2))
  have ok: "clampPasswordPolicy (policy_value ?m) = ?m"
    by (rule clamp_policy_value) (simp add: merged_policy_def clamp_policy_ok)
  have "get_field (rp_body (fst (policy_route payload2 env2 d2 q2 w1))) ''policy'' = policy_value ?m"
    using row ok by (simp add: policy_route_def Let_def assms(4) reply_def get_field_def)
  moreover have "getPasswordPolicyForTenant w1 (Some t) = ?m"
    using row ok assms(5,6) by (simp add: getPasswordPolicyForTenant_def tenant_or_default_def falsy_string_def)
  moreover have "policy_in_force t' w1 = policy_in_force t' w"
    using assms(8) by (simp add: policy_in_force_def stored(2))
  ultimately show ?thesis
    using merged_policy_field [OF stored(1) assms(7)] by (simp add: policy_in_force_def)
qed

lemma policy_round_trip_witness:
  "get_field (get_field (rp_body (fst (policy_route (admin_payload ''acme'') (svc_env 6) some_draws (admin_request [])
      (snd (policy_update_route (admin_payload ''acme'') (svc_env 5) some_draws
         (admin_request [(''min_length'', JNum 12)]) svc_world))))) ''policy'') ''min_length'' = JNum 12"
proof -
  let ?q = "admin_request [(''min_length'', JNum 12)]"
  let ?r = "policy_update_route (admin_payload ''acme'') (svc_env 5) some_draws ?q svc_world"
  have "rp_status (fst ?r) = 200" "admin_tenant (svc_env 5) (admin_payload ''acme'') = ''acme''"
    "admin_tenant (svc_env 6) (admin_payload ''acme'') = ''acme''" "trim ''acme'' = ''acme''"
    "''min_length'' \<in> set policy_fields"
    "updated_field (body_or_empty ?q) (policy_in_force ''acme'' svc_world) ''min_length'' = JNum 12"
    by code_simp+
  then show ?thesis
    using policy_round_trip [of "admin_payload ''acme''" "svc_env 5" some_draws ?q svc_world "fst ?r" "snd ?r" "''acme''"
      "svc_env 6" "admin_payload ''acme''" "''min_length''" "''other''" some_draws "admin_request []"] by simp
qed

end
