(* ===== verification/Auth_Scim.thy ===== *)
theory Auth_Scim
  imports Auth_Mfa
begin

section \<open>The auth service: provisioning\<close>

text \<open>
  The routes \<open>/scim/v2/Users\<close> of \<open>services/auth-service/index.js\<close>, behind \<open>requireScimAuth\<close>. The
  shared keys and the address of the service are parameters (\<open>scim_config\<close>). An \<open>UPDATE\<close> is a list
  of columns with the values given for them: it fails when a column is set twice, when a value is
  not one of the type of its column, when the id in the path is no integer, when a column that
  must not be null would be, and when an e-mail is taken.
\<close>

record scim_config =
  sc_keys :: "(string, string) js_map"
  sc_legacy :: string
  sc_base :: string

subsection \<open>Replies\<close>

definition scim_error_schema :: "string \<times> jsv" where
  "scim_error_schema = (''schemas'', JArr [JStr ''urn:ietf:params:scim:api:messages:2.0:Error''])"

definition sendScimError :: "nat \<Rightarrow> string \<Rightarrow> auth_reply" where
  "sendScimError st detail =
     reply st (JObj [scim_error_schema, (''detail'', JStr detail), (''status'', JStr (string_of_nat st)),
       (''message'', JStr detail)])"

definition given_name :: "string \<Rightarrow> string" where
  "given_name name = hd (split_on (CHR '' '') name)"

definition family_name :: "string \<Rightarrow> string" where
  "family_name name = join_with '' '' (tl (split_on (CHR '' '') name))"

definition formatScimUser :: "auth_env \<Rightarrow> string \<Rightarrow> user_row \<Rightarrow> jsv" where
  "formatScimUser env base u =
     JObj [(''schemas'', JArr [JStr ''urn:ietf:params:scim:schemas:core:2.0:User'']),
       (''id'', JStr (string_of_int (u_id u))), (''userName'', JStr (u_email u)),
       (''name'', JObj [(''formatted'', JStr (u_name u)), (''givenName'', JStr (given_name (u_name u))),
          (''familyName'', JStr (family_name (u_name u)))]),
       (''emails'', JArr [JObj [(''value'', JStr (u_email u)), (''primary'', JBool True), (''type'', JStr ''work'')]]),
       (''roles'', JArr [JObj [(''value'', JStr (if u_role u = [] then ''employee'' else u_role u)),
          (''type'', JStr ''default'')]]),
       (''active'', JBool (u_enabled u \<noteq> Some False)),
       (''meta'', JObj [(''resourceType'', JStr ''User''), (''created'', JStr (ae_iso env (u_created u))),
          (''lastModified'', JStr (ae_iso env (u_updated u))),
          (''version'', JStr (''W/'' @ [CHR 0x22] @ string_of_int (u_id u) @ [CHR 0x22])),
          (''location'', JStr (base @ ''/scim/v2/Users/'' @ string_of_int (u_id u)))])]"

subsection \<open>Who asks\<close>

definition scim_refusal :: "nat \<times> string \<Rightarrow> auth_reply" where
  "scim_refusal e =
     (case e of (st, detail) \<Rightarrow>
        if detail = ''Authentication required'' then
          reply st (JObj [scim_error_schema, (''detail'', JStr detail), (''status'', JStr (string_of_nat st))])
        else sendScimError st detail)"

definition scim_caller :: "scim_config \<Rightarrow> string \<Rightarrow> auth_env \<Rightarrow> auth_http \<Rightarrow> auth_world \<Rightarrow> (nat \<times> string) + scim_identity" where
  "scim_caller cfg verb env q w =
     requireScimAuth (sc_keys cfg) (sc_legacy cfg) (ae_matches env) (Some (aw_keys w)) (ae_now env) verb
       (header_of q ''x-api-key'')"

text \<open>The middlewares, and the check every handler starts with.\<close>

definition provisioned ::
  "scim_config \<Rightarrow> string \<Rightarrow> string \<Rightarrow> nat \<Rightarrow> (string \<Rightarrow> handler) \<Rightarrow> handler"
where
  "provisioned cfg verb action maxRequests h env d q w =
     (case scim_caller cfg verb env q w of
        Inl e \<Rightarrow> (scim_refusal e, w)
      | Inr who \<Rightarrow>
          (case userRateLimiter action maxRequests False env None q w of
             (Some a, w') \<Rightarrow> (a, w')
           | (None, w') \<Rightarrow>
               if si_tenant who = [] then (sendScimError 401 ''Authentication required'', w')
               else h (si_tenant who) env d q w'))"

subsection \<open>Filters\<close>

fun suffixes_of :: "'a list \<Rightarrow> 'a list list" where
  "suffixes_of [] = [[]]"
| "suffixes_of (x # xs) = (x # xs) # suffixes_of xs"

definition after_word :: "string \<Rightarrow> string \<Rightarrow> string option" where
  "after_word word s =
     (if to_lower (take (length word) s) = word then Some (drop (length word) s) else None)"

definition after_space :: "string \<Rightarrow> string option" where
  "after_space s = (if s \<noteq> [] \<and> is_ws (hd s) then Some (dropWhile is_ws s) else None)"

definition quoted :: "string \<Rightarrow> string option" where
  "quoted s =
     (case s of
        c # r \<Rightarrow>
          (let v = takeWhile (\<lambda>x. x \<noteq> CHR 0x22) r
           in if c = CHR 0x22 \<and> v \<noteq> [] \<and> length v \<le> 254 \<and> length v < length r then Some v else None)
      | [] \<Rightarrow> None)"

text \<open>An attribute, \<open>eq\<close> and a quoted value, from the first position where they stand.\<close>

definition filter_at :: "string \<Rightarrow> string \<Rightarrow> string option" where
  "filter_at attribute s =
     Option.bind (after_word attribute s) (\<lambda>s1. Option.bind (after_space s1)
       (\<lambda>s2. Option.bind (after_word ''eq'' s2) (\<lambda>s3. Option.bind (after_space s3) quoted)))"

definition filter_value :: "string \<Rightarrow> string \<Rightarrow> string option" where
  "filter_value attribute s =
     (case List.map_filter (filter_at attribute) (suffixes_of s) of v # _ \<Rightarrow> Some v | [] \<Rightarrow> None)"

definition scim_filter :: "string \<Rightarrow> string option" where
  "scim_filter s = (case filter_value ''username'' s of Some v \<Rightarrow> Some v | None \<Rightarrow> filter_value ''value'' s)"

subsection \<open>Listing\<close>

definition scim_count :: "jsv \<Rightarrow> int" where
  "scim_count query =
     (case parse_int (get_field query ''count'') of None \<Rightarrow> 10 | Some n \<Rightarrow> min (max n 1) 100)"

definition scim_start :: "jsv \<Rightarrow> int" where
  "scim_start query =
     (case parse_int (get_field query ''startIndex'') of None \<Rightarrow> 1 | Some n \<Rightarrow> max n 1)"

definition scim_rows :: "string \<Rightarrow> string option \<Rightarrow> auth_world \<Rightarrow> user_row list" where
  "scim_rows tenant email w =
     sort_by (\<lambda>x y. u_id x \<le> u_id y)
       (filter (\<lambda>u. u_tenant u = Some tenant \<and> (case email of None \<Rightarrow> True | Some e \<Rightarrow> u_email u = e))
          (users (aw_db w)))"

definition scim_list_route :: "string \<Rightarrow> string \<Rightarrow> handler" where
  "scim_list_route base tenant env d q w =
     (let given = get_field (hq_query q) ''filter''; wanted = scim_filter (js_string given);
          count = scim_count (hq_query q); start = scim_start (hq_query q)
      in if truthy given \<and> wanted = None then
           (sendScimError 400 (''Unsupported SCIM filter. Supported: userName eq '' @ [CHR 0x22] @
              ''email@example.com'' @ [CHR 0x22]), w)
         else if 2 ^ 63 \<le> start - 1 then (sendScimError 500 ''Internal error'', w)
         else
           (let rows = scim_rows tenant (if truthy given then wanted else None) w
            in (reply 200 (JObj [(''schemas'', JArr [JStr ''urn:ietf:params:scim:api:messages:2.0:ListResponse'']),
                  (''totalResults'', JNum (of_nat (length rows))), (''itemsPerPage'', JNum (of_int count)),
                  (''startIndex'', JNum (of_int start)),
                  (''Resources'', JArr (map (formatScimUser env base) (take (nat count) (drop (nat (start - 1)) rows))))]),
                w)))"

subsection \<open>What a body says of a user\<close>

text \<open>\<open>v?.[0]?.value\<close>\<close>

definition first_value :: "jsv \<Rightarrow> jsv" where
  "first_value v =
     (case v of JArr (x # _) \<Rightarrow> get_field x ''value'' | JObj _ \<Rightarrow> get_field (get_field v ''0'') ''value''
      | _ \<Rightarrow> JUndef)"

definition value_or_empty :: "jsv \<Rightarrow> string" where
  "value_or_empty v = (if truthy v then js_string v else [])"

definition email_given :: "jsv \<Rightarrow> jsv" where
  "email_given body = js_or (first_value (get_field body ''emails'')) (get_field body ''userName'')"

definition display_name :: "jsv \<Rightarrow> jsv" where
  "display_name body =
     (let name = get_field body ''name''
      in js_or (get_field name ''formatted'')
           (js_or (JStr (trim (value_or_empty (get_field name ''givenName'') @ '' '' @
                               value_or_empty (get_field name ''familyName''))))
              (email_given body)))"

text \<open>
  A boolean as PostgreSQL reads it: a prefix of a word that is no other's, in any case. The outer
  option is the error, the inner one null.
\<close>

definition pg_boolean :: "string \<Rightarrow> bool option" where
  "pg_boolean s =
     (let v = to_lower (trim s); prefix = (\<lambda>n word. n \<le> length v \<and> v = take (length v) word)
      in if prefix 1 ''true'' \<or> prefix 1 ''yes'' \<or> v = ''on'' \<or> v = ''1'' then Some True
         else if prefix 1 ''false'' \<or> prefix 1 ''no'' \<or> prefix 2 ''off'' \<or> v = ''0'' then Some False
         else None)"

definition boolean_param :: "auth_env \<Rightarrow> jsv \<Rightarrow> bool option option" where
  "boolean_param env v =
     (if nullish v then Some None
      else case v of JBool b \<Rightarrow> Some (Some b) | _ \<Rightarrow> map_option Some (pg_boolean (pg_text env v)))"

subsection \<open>Creating\<close>

definition new_scim_user :: "auth_env \<Rightarrow> string \<Rightarrow> jsv \<Rightarrow> string \<Rightarrow> bool option \<Rightarrow> int \<Rightarrow> user_row" where
  "new_scim_user env tenant body h act i =
     \<lparr>u_id = i, u_email = pg_text env (email_given body), u_password = h,
      u_name = pg_text env (display_name body), u_role = ''employee'', u_department = None,
      u_position = None, u_tenant = Some tenant, u_enabled = act,
      u_password_changed_at = Some (ae_now env), u_created = ae_now env, u_updated = ae_now env\<rparr>"

definition bad_role :: auth_reply where
  "bad_role = sendScimError 400 ''Invalid role. Only employee provisioning is allowed via SCIM.''"

text \<open>Without a password of the caller a random one is stored, and not kept in the history.\<close>

definition scim_create_route :: "string \<Rightarrow> string \<Rightarrow> handler" where
  "scim_create_route base tenant env d q w =
     (let body = hq_body q; role = first_value (get_field body ''roles''); act = get_field body ''active'';
          chosen = (case get_field body ''password'' of JStr p \<Rightarrow> if p = [] then None else Some p | _ \<Rightarrow> None)
      in if body = JUndef then (sendScimError 500 ''Internal error'', w)
         else if \<not> truthy (get_field body ''userName'') then (sendScimError 400 ''userName is required'', w)
         else if truthy role \<and> \<not> isAllowedScimRole role then (bad_role, w)
         else if user_by_email (pg_text env (email_given body)) w \<noteq> None then
           (sendScimError 409 ''User already exists'', w)
         else
           (case (case chosen of None \<Rightarrow> None
                  | Some p \<Rightarrow> validatePassword (JStr p) (policy_value (getPasswordPolicyForTenant w (Some tenant)))) of
              Some e \<Rightarrow> (sendScimError 400 e, w)
            | None \<Rightarrow>
                (case boolean_param env (if act = JUndef then JBool True else act) of
                   None \<Rightarrow> (sendScimError 500 ''Internal error'', w)
                 | Some a \<Rightarrow>
                     (let h = ae_bcrypt env (dr_salt d) (case chosen of Some p \<Rightarrow> p | None \<Rightarrow> dr_secret d);
                          u = new_scim_user env tenant body h a (aw_next_user w)
                      in (reply 201 (formatScimUser env base u),
                          w\<lparr>aw_db := (aw_db w)\<lparr>users := users (aw_db w) @ [u]\<rparr>,
                            aw_next_user := aw_next_user w + 1,
                            aw_history := (if chosen = None then aw_history w
                              else recordPasswordHistory HistoryStored (string_of_int (u_id u)) h (aw_history w))\<rparr>)))))"

subsection \<open>Reading and changing one user\<close>

text \<open>The id of the path in a comparison with an integer column.\<close>

definition scim_id :: "string \<Rightarrow> int option" where
  "scim_id s =
     (if s \<noteq> [] \<and> list_all is_digit s \<and> int (digits_val s) < 2 ^ 31 then Some (int (digits_val s)) else None)"

definition path_id :: "auth_http \<Rightarrow> string" where
  "path_id q = (case map_get (hq_params q) ''id'' of Some s \<Rightarrow> s | None \<Rightarrow> [])"

definition in_tenant :: "string \<Rightarrow> int \<Rightarrow> user_row \<Rightarrow> bool" where
  "in_tenant tenant i u \<longleftrightarrow> u_id u = i \<and> u_tenant u = Some tenant"

definition scim_get_route :: "string \<Rightarrow> string \<Rightarrow> handler" where
  "scim_get_route base tenant env d q w =
     (if \<not> isValidScimUserId (path_id q) then (sendScimError 400 ''Invalid user id'', w)
      else
        (case scim_id (path_id q) of
           None \<Rightarrow> (sendScimError 500 ''Internal error'', w)
         | Some i \<Rightarrow>
             (case find (in_tenant tenant i) (users (aw_db w)) of
                None \<Rightarrow> (sendScimError 404 ''User not found'', w)
              | Some u \<Rightarrow> (reply 200 (formatScimUser env base u), w))))"

datatype user_column = ActiveColumn | NameColumn | EmailColumn | RoleColumn

text \<open>One assignment; \<open>None\<close> when it violates a constraint of its own column.\<close>

fun assign_column :: "auth_env \<Rightarrow> user_column \<times> jsv \<Rightarrow> user_row \<Rightarrow> user_row option" where
  "assign_column env (ActiveColumn, v) u = map_option (\<lambda>a. u\<lparr>u_enabled := a\<rparr>) (boolean_param env v)"
| "assign_column env (NameColumn, v) u = (if nullish v then None else Some (u\<lparr>u_name := pg_text env v\<rparr>))"
| "assign_column env (EmailColumn, v) u = (if nullish v then None else Some (u\<lparr>u_email := pg_text env v\<rparr>))"
| "assign_column env (RoleColumn, v) u = Some (u\<lparr>u_role := pg_text env v\<rparr>)"

definition assign_columns :: "auth_env \<Rightarrow> (user_column \<times> jsv) list \<Rightarrow> user_row \<Rightarrow> user_row option" where
  "assign_columns env cs u =
     map_option (\<lambda>u. u\<lparr>u_updated := ae_now env\<rparr>)
       (foldl (\<lambda>acc c. Option.bind acc (assign_column env c)) (Some u) cs)"

definition well_typed :: "auth_env \<Rightarrow> (user_column \<times> jsv) list \<Rightarrow> bool" where
  "well_typed env cs \<longleftrightarrow>
     distinct (map fst cs) \<and> list_all (\<lambda>(c, v). c = ActiveColumn \<longrightarrow> boolean_param env v \<noteq> None) cs"

definition update_by_scim :: "string \<Rightarrow> string \<Rightarrow> (user_column \<times> jsv) list \<Rightarrow> handler" where
  "update_by_scim base tenant cs env d q w =
     (case scim_id (path_id q) of
        None \<Rightarrow> (sendScimError 500 ''Internal error'', w)
      | Some i \<Rightarrow>
          if \<not> well_typed env cs then (sendScimError 500 ''Internal error'', w)
          else
            (case find (in_tenant tenant i) (users (aw_db w)) of
               None \<Rightarrow> (sendScimError 404 ''User not found'', w)
             | Some u \<Rightarrow>
                 (case assign_columns env cs u of
                    None \<Rightarrow> (sendScimError 500 ''Internal error'', w)
                  | Some u' \<Rightarrow>
                      if list_ex (\<lambda>x. u_id x \<noteq> i \<and> u_email x = u_email u') (users (aw_db w)) then
                        (sendScimError 409 ''User already exists'', w)
                      else (reply 200 (formatScimUser env base u'), update_user i (\<lambda>_. u') w))))"

definition put_columns :: "jsv \<Rightarrow> (user_column \<times> jsv) list" where
  "put_columns body =
     (let email = email_given body; name = display_name body; role = first_value (get_field body ''roles'');
          act = get_field body ''active''
      in (if truthy email then [(EmailColumn, email)] else []) @
         (if truthy name then [(NameColumn, name)] else []) @
         (if truthy role then [(RoleColumn, role)] else []) @
         (if act = JUndef then [] else [(ActiveColumn, act)]))"

definition scim_put_route :: "string \<Rightarrow> string \<Rightarrow> handler" where
  "scim_put_route base tenant env d q w =
     (let body = hq_body q; role = first_value (get_field body ''roles'')
      in if \<not> isValidScimUserId (path_id q) then (sendScimError 400 ''Invalid user id'', w)
         else if body = JUndef then (sendScimError 500 ''Internal error'', w)
         else if truthy role \<and> \<not> isAllowedScimRole role then (bad_role, w)
         else if put_columns body = [] then (sendScimError 400 ''No attributes to update'', w)
         else update_by_scim base tenant (put_columns body) env d q w)"

text \<open>The columns an operation without a path sets, with the checks on roles in their order.\<close>

definition checked_role :: "jsv \<Rightarrow> auth_reply + (user_column \<times> jsv) list" where
  "checked_role v = (if isAllowedScimRole v then Inr [(RoleColumn, v)] else Inl bad_role)"

definition object_columns :: "jsv \<Rightarrow> auth_reply + (user_column \<times> jsv) list" where
  "object_columns v =
     (let act = get_field v ''active''; name = get_field (get_field v ''name'') ''formatted'';
          email = first_value (get_field v ''emails''); role = first_value (get_field v ''roles'');
          role2 = get_field v ''role''; userName = get_field v ''userName'';
          named = (case role2 of JStr s \<Rightarrow> s \<noteq> [] | _ \<Rightarrow> False)
      in if truthy role \<and> \<not> isAllowedScimRole role \<or> named \<and> \<not> isAllowedScimRole role2 then Inl bad_role
         else Inr
           ((if act = JUndef then [] else [(ActiveColumn, act)]) @
            (if truthy name then [(NameColumn, name)] else []) @
            (if truthy email then [(EmailColumn, email)] else []) @
            (if truthy role then [(RoleColumn, role)] else []) @
            (if named then [(RoleColumn, role2)] else []) @
            (if truthy userName then [(EmailColumn, userName)] else [])))"

definition patch_columns :: "jsv \<Rightarrow> auth_reply + (user_column \<times> jsv) list" where
  "patch_columns op =
     (let path = get_field op ''path''; v = get_field op ''value''
      in if nullish op then Inl (sendScimError 500 ''Internal error'')
         else if get_field op ''op'' \<noteq> JStr ''replace'' then Inr []
         else if path = JStr ''active'' then
           Inr [(ActiveColumn, JBool (v = JBool True \<or> v = JStr ''true''))]
         else if path = JStr ''name.formatted'' then Inr [(NameColumn, v)]
         else if path = JStr ''emails[0].value'' \<or> path = JStr ''userName'' then Inr [(EmailColumn, v)]
         else if path = JStr ''roles[0].value'' \<or> path = JStr ''role'' then checked_role v
         else if \<not> truthy path \<and> truthy v \<and> typeof_object v then object_columns v
         else Inr [])"

fun all_columns :: "jsv list \<Rightarrow> auth_reply + (user_column \<times> jsv) list" where
  "all_columns [] = Inr []"
| "all_columns (op # ops) =
     (case patch_columns op of
        Inl a \<Rightarrow> Inl a
      | Inr cs \<Rightarrow> (case all_columns ops of Inl a \<Rightarrow> Inl a | Inr cs' \<Rightarrow> Inr (cs @ cs')))"

definition scim_patch_route :: "string \<Rightarrow> string \<Rightarrow> handler" where
  "scim_patch_route base tenant env d q w =
     (if \<not> isValidScimUserId (path_id q) then (sendScimError 400 ''Invalid user id'', w)
      else if hq_body q = JUndef then (sendScimError 500 ''Internal error'', w)
      else
        (case body_field q ''Operations'' of
           JArr ops \<Rightarrow>
             (case all_columns ops of
                Inl a \<Rightarrow> (a, w)
              | Inr [] \<Rightarrow> (sendScimError 400 ''No valid replace operations found'', w)
              | Inr cs \<Rightarrow> update_by_scim base tenant cs env d q w)
         | _ \<Rightarrow> (sendScimError 400 ''Operations array is required'', w)))"

definition scim_delete_route :: "string \<Rightarrow> handler" where
  "scim_delete_route tenant env d q w =
     (if \<not> isValidScimUserId (path_id q) then (sendScimError 400 ''Invalid user id'', w)
      else
        (case scim_id (path_id q) of
           None \<Rightarrow> (sendScimError 500 ''Internal error'', w)
         | Some i \<Rightarrow>
             if find (in_tenant tenant i) (users (aw_db w)) = None then (sendScimError 404 ''User not found'', w)
             else
               (reply 204 JUndef,
                update_user i (\<lambda>u. u\<lparr>u_enabled := Some False, u_updated := ae_now env\<rparr>) w)))"

text \<open>The routes with their middlewares.\<close>

definition GET_scim_users :: "scim_config \<Rightarrow> handler" where
  "GET_scim_users cfg = provisioned cfg ''GET'' ''scim_list'' 30 (scim_list_route (sc_base cfg))"

definition POST_scim_users :: "scim_config \<Rightarrow> handler" where
  "POST_scim_users cfg = provisioned cfg ''POST'' ''scim_create'' 20 (scim_create_route (sc_base cfg))"

definition GET_scim_user :: "scim_config \<Rightarrow> handler" where
  "GET_scim_user cfg = provisioned cfg ''GET'' ''scim_get'' 60 (scim_get_route (sc_base cfg))"

definition PUT_scim_user :: "scim_config \<Rightarrow> handler" where
  "PUT_scim_user cfg = provisioned cfg ''PUT'' ''scim_update'' 20 (scim_put_route (sc_base cfg))"

definition PATCH_scim_user :: "scim_config \<Rightarrow> handler" where
  "PATCH_scim_user cfg = provisioned cfg ''PATCH'' ''scim_patch'' 20 (scim_patch_route (sc_base cfg))"

definition DELETE_scim_user :: "scim_config \<Rightarrow> handler" where
  "DELETE_scim_user cfg = provisioned cfg ''DELETE'' ''scim_delete'' 10 scim_delete_route"

subsection \<open>The requests of a tenant\<close>

datatype scim_request = ListUsers | CreateUser | GetUser | PutUser | PatchUser | DeleteUser

fun scim_verb :: "scim_request \<Rightarrow> string" where
  "scim_verb ListUsers = ''GET''"
| "scim_verb CreateUser = ''POST''"
| "scim_verb GetUser = ''GET''"
| "scim_verb PutUser = ''PUT''"
| "scim_verb PatchUser = ''PATCH''"
| "scim_verb DeleteUser = ''DELETE''"

fun scim_service :: "scim_config \<Rightarrow> scim_request \<Rightarrow> handler" where
  "scim_service cfg ListUsers = GET_scim_users cfg"
| "scim_service cfg CreateUser = POST_scim_users cfg"
| "scim_service cfg GetUser = GET_scim_user cfg"
| "scim_service cfg PutUser = PUT_scim_user cfg"
| "scim_service cfg PatchUser = PATCH_scim_user cfg"
| "scim_service cfg DeleteUser = DELETE_scim_user cfg"

fun scim_handler :: "string \<Rightarrow> scim_request \<Rightarrow> string \<Rightarrow> handler" where
  "scim_handler base ListUsers = scim_list_route base"
| "scim_handler base CreateUser = scim_create_route base"
| "scim_handler base GetUser = scim_get_route base"
| "scim_handler base PutUser = scim_put_route base"
| "scim_handler base PatchUser = scim_patch_route base"
| "scim_handler base DeleteUser = scim_delete_route"

lemma scim_service_provisioned:
  obtains action n where "scim_service cfg op = provisioned cfg (scim_verb op) action n (scim_handler (sc_base cfg) op)"
  by (cases op) (auto simp: GET_scim_users_def POST_scim_users_def GET_scim_user_def PUT_scim_user_def
    PATCH_scim_user_def DELETE_scim_user_def)

text \<open>What a request may do to the rows of the users, for the tenant it comes from.\<close>

definition row_kept :: "user_row \<Rightarrow> user_row \<Rightarrow> bool" where
  "row_kept u u' \<longleftrightarrow>
     u_id u' = u_id u \<and> u_tenant u' = u_tenant u \<and> u_password u' = u_password u \<and>
     u_role u' \<in> {u_role u, ''employee''}"

definition joins :: "string \<Rightarrow> int \<Rightarrow> user_row list \<Rightarrow> user_row list \<Rightarrow> bool" where
  "joins tenant i us us' \<longleftrightarrow>
     (\<exists>u. us' = us @ [u] \<and> u_id u = i \<and> u_tenant u = Some tenant \<and> u_role u = ''employee'' \<and>
        u_email u \<notin> u_email ` set us)"

definition edits :: "string \<Rightarrow> user_row list \<Rightarrow> user_row list \<Rightarrow> bool" where
  "edits tenant us us' \<longleftrightarrow>
     (\<exists>u u'. u \<in> set us \<and> u_tenant u = Some tenant \<and> row_kept u u' \<and>
        us' = map (\<lambda>x. if u_id x = u_id u then u' else x) us \<and>
        u_email u' \<notin> u_email ` {x \<in> set us. u_id x \<noteq> u_id u})"

definition scim_change :: "string \<Rightarrow> auth_world \<Rightarrow> auth_world \<Rightarrow> bool" where
  "scim_change tenant w w' \<longleftrightarrow>
     (\<exists>us. aw_db w' = (aw_db w)\<lparr>users := us\<rparr> \<and>
        (us = users (aw_db w) \<and> aw_next_user w' = aw_next_user w \<or>
         joins tenant (aw_next_user w) (users (aw_db w)) us \<and> aw_next_user w' = aw_next_user w + 1 \<or>
         edits tenant (users (aw_db w)) us \<and> aw_next_user w' = aw_next_user w))"

lemma scim_change_same: "aw_db w' = aw_db w \<Longrightarrow> aw_next_user w' = aw_next_user w \<Longrightarrow> scim_change tenant w w'"
  unfolding scim_change_def by (rule exI [of _ "users (aw_db w)"]) simp

lemma allowed_role: "isAllowedScimRole v \<Longrightarrow> pg_text env v = ''employee''"
  by (auto simp: isAllowedScimRole_def SCIM_ALLOWED_ROLES_def pg_text_def split: jsv.splits)

definition roles_checked :: "(user_column \<times> jsv) list \<Rightarrow> bool" where
  "roles_checked cs \<longleftrightarrow> list_all (\<lambda>(c, v). c = RoleColumn \<longrightarrow> isAllowedScimRole v) cs"

lemma assign_column_row:
  assumes "assign_column env (c, v) u = Some u'" and "c = RoleColumn \<longrightarrow> isAllowedScimRole v"
  shows "row_kept u u'"
  using assms allowed_role by (cases c) (auto simp: row_kept_def split: if_splits)

lemma row_kept_trans: "row_kept u v \<Longrightarrow> row_kept v w \<Longrightarrow> row_kept u w"
  by (auto simp: row_kept_def)

lemma foldl_bind_None: "foldl (\<lambda>acc c. Option.bind acc (f c)) None cs = None"
  by (induction cs) auto

lemma assign_columns_row:
  assumes "assign_columns env cs u = Some u'" and "roles_checked cs"
  shows "row_kept u u'"
proof -
  have "row_kept u v" if "foldl (\<lambda>acc c. Option.bind acc (assign_column env c)) (Some u) cs = Some v" for v
    using that assms(2)
  proof (induction cs arbitrary: u)
    case Nil
    then show ?case by (simp add: row_kept_def)
  next
    case (Cons c cs)
    obtain u1 where 1: "assign_column env c u = Some u1"
      using Cons.prems(1) by (cases "assign_column env c u") (auto simp: foldl_bind_None)
    then have "row_kept u1 v" using Cons by (simp add: roles_checked_def)
    moreover have "row_kept u u1"
      using 1 Cons.prems(2) by (cases c) (auto simp: roles_checked_def intro: assign_column_row)
    ultimately show ?case using row_kept_trans by blast
  qed
  then show ?thesis using assms(1) by (auto simp: assign_columns_def row_kept_def)
qed

lemma put_columns_roles:
  "(truthy (first_value (get_field body ''roles'')) \<longrightarrow> isAllowedScimRole (first_value (get_field body ''roles''))) \<Longrightarrow>
   roles_checked (put_columns body)"
  by (simp add: put_columns_def roles_checked_def Let_def)

lemma patch_columns_roles: "patch_columns op = Inr cs \<Longrightarrow> roles_checked cs"
  by (auto simp: patch_columns_def checked_role_def object_columns_def roles_checked_def Let_def
      split: if_splits)

lemma all_columns_roles: "all_columns ops = Inr cs \<Longrightarrow> roles_checked cs"
proof (induction ops arbitrary: cs)
  case (Cons op ops)
  then obtain c1 c2 where "patch_columns op = Inr c1" "all_columns ops = Inr c2" "cs = c1 @ c2"
    by (auto split: sum.splits)
  then show ?case using Cons.IH patch_columns_roles by (auto simp: roles_checked_def)
qed (simp add: roles_checked_def)

lemma update_by_scim_change:
  assumes "roles_checked cs"
  shows "scim_change tenant w (snd (update_by_scim base tenant cs env d q w))"
proof (cases "update_by_scim base tenant cs env d q w")
  case (Pair a w')
  show ?thesis
  proof (cases "w' = w")
    case True
    then show ?thesis using Pair scim_change_same by simp
  next
    case False
    then obtain i u u' where u: "find (in_tenant tenant i) (users (aw_db w)) = Some u"
      "assign_columns env cs u = Some u'"
      "\<not> list_ex (\<lambda>x. u_id x \<noteq> i \<and> u_email x = u_email u') (users (aw_db w))"
      "w' = update_user i (\<lambda>_. u') w"
      using Pair unfolding update_by_scim_def by (auto split: option.splits if_splits)
    have i: "u \<in> set (users (aw_db w))" "u_id u = i" "u_tenant u = Some tenant"
      using find_Some_set [OF u(1)] by (auto simp: in_tenant_def)
    have "edits tenant (users (aw_db w)) (map (\<lambda>x. if u_id x = i then u' else x) (users (aw_db w)))"
      unfolding edits_def using i u(3) assign_columns_row [OF u(2) assms]
      by (intro exI [of _ u] exI [of _ u']) (auto simp: list_ex_iff)
    then show ?thesis unfolding scim_change_def Pair by (auto simp: u(4) update_user_def)
  qed
qed

lemma scim_create_change: "scim_change tenant w (snd (scim_create_route base tenant env d q w))"
proof (cases "scim_create_route base tenant env d q w")
  case (Pair a w')
  show ?thesis
  proof (cases "w' = w")
    case True
    then show ?thesis using Pair scim_change_same by simp
  next
    case False
    then obtain h act where new: "user_by_email (pg_text env (email_given (hq_body q))) w = None"
      "aw_db w' = (aw_db w)\<lparr>users := users (aw_db w) @ [new_scim_user env tenant (hq_body q) h act (aw_next_user w)]\<rparr>"
      "aw_next_user w' = aw_next_user w + 1"
      using Pair unfolding scim_create_route_def Let_def by (auto split: option.splits if_splits)
    have "joins tenant (aw_next_user w) (users (aw_db w))
        (users (aw_db w) @ [new_scim_user env tenant (hq_body q) h act (aw_next_user w)])"
      unfolding joins_def using new(1)
      by (auto simp: new_scim_user_def user_by_email_def find_None_iff)
    then show ?thesis unfolding scim_change_def Pair using new(2,3) by auto
  qed
qed

lemma map_one_row:
  assumes "distinct (map u_id us)" and "u \<in> set us"
  shows "map (\<lambda>x. if u_id x = u_id u then f x else x) us = map (\<lambda>x. if u_id x = u_id u then f u else x) us"
  using assms eq_key_imp_eq_value [of "map (\<lambda>x. (u_id x, x)) us"] by (auto simp: comp_def image_iff)

lemma distinct_emails:
  assumes "distinct (map u_email us)" and "u \<in> set us"
  shows "u_email u \<notin> u_email ` {x \<in> set us. u_id x \<noteq> u_id u}"
  using assms eq_key_imp_eq_value [of "map (\<lambda>x. (u_email x, x)) us"] by (auto simp: comp_def image_iff)

lemma scim_delete_change:
  assumes "distinct (map u_id (users (aw_db w)))" and "distinct (map u_email (users (aw_db w)))"
  shows "scim_change tenant w (snd (scim_delete_route tenant env d q w))"
proof (cases "scim_delete_route tenant env d q w")
  case (Pair a w')
  let ?f = "\<lambda>u. u\<lparr>u_enabled := Some False, u_updated := ae_now env\<rparr>"
  show ?thesis
  proof (cases "w' = w")
    case True
    then show ?thesis using Pair scim_change_same by simp
  next
    case False
    then obtain i u where u: "find (in_tenant tenant i) (users (aw_db w)) = Some u" "w' = update_user i ?f w"
      using Pair unfolding scim_delete_route_def by (auto split: option.splits if_splits)
    have i: "u \<in> set (users (aw_db w))" "u_id u = i" "u_tenant u = Some tenant"
      using find_Some_set [OF u(1)] by (auto simp: in_tenant_def)
    have "edits tenant (users (aw_db w)) (map (\<lambda>x. if u_id x = i then ?f u else x) (users (aw_db w)))"
      unfolding edits_def using i distinct_emails [OF assms(2) i(1)]
      by (intro exI [of _ u] exI [of _ "?f u"]) (auto simp: row_kept_def)
    then have "edits tenant (users (aw_db w)) (map (\<lambda>x. if u_id x = i then ?f x else x) (users (aw_db w)))"
      using map_one_row [OF assms(1) i(1), of ?f] by (simp only: i(2))
    then show ?thesis unfolding scim_change_def Pair by (auto simp: u(2) update_user_def)
  qed
qed

lemma scim_handler_change:
  assumes "distinct (map u_id (users (aw_db w)))" and "distinct (map u_email (users (aw_db w)))"
  shows "scim_change tenant w (snd (scim_handler base op tenant env d q w))"
proof (cases op)
  case ListUsers
  then show ?thesis by (auto simp: scim_list_route_def Let_def intro: scim_change_same)
next
  case GetUser
  then show ?thesis by (auto simp: scim_get_route_def intro: scim_change_same split: option.splits)
next
  case PutUser
  show ?thesis
    unfolding PutUser scim_handler.simps scim_put_route_def Let_def
    using scim_change_same [of w w] update_by_scim_change put_columns_roles by (auto split: if_splits)
next
  case PatchUser
  show ?thesis
    unfolding PatchUser scim_handler.simps scim_patch_route_def
    using scim_change_same [of w w] update_by_scim_change all_columns_roles
    by (auto split: jsv.splits sum.splits list.splits)
qed (simp_all add: scim_create_change scim_delete_change assms)

lemma provisioned_cases:
  assumes "provisioned cfg verb action n h env d q w = (a, w')"
  obtains (refused) "aw_db w' = aw_db w" "aw_next_user w' = aw_next_user w"
  | (served) who v where "scim_caller cfg verb env q w = Inr who"
      "aw_db v = aw_db w" "aw_next_user v = aw_next_user w" "h (si_tenant who) env d q v = (a, w')"
proof (cases "scim_caller cfg verb env q w")
  case (Inl e)
  then show ?thesis using assms refused by (auto simp: provisioned_def)
next
  case (Inr who)
  obtain x v where l: "userRateLimiter action n False env None q w = (x, v)" by fastforce
  have v: "aw_db v = aw_db w" "aw_next_user v = aw_next_user w" by (subst limiter_keeps [OF l], simp)+
  show ?thesis
    using assms Inr l v refused served by (auto simp: provisioned_def split: option.splits if_splits)
qed

lemma scim_change_from:
  "aw_db v = aw_db w \<Longrightarrow> aw_next_user v = aw_next_user w \<Longrightarrow> scim_change tenant v w' = scim_change tenant w w'"
  by (simp add: scim_change_def)

lemma scim_service_change:
  assumes "distinct (map u_id (users (aw_db w)))" and "distinct (map u_email (users (aw_db w)))"
    and "scim_service cfg op env d q w = (a, w')"
  shows "aw_db w' = aw_db w \<and> aw_next_user w' = aw_next_user w \<or>
    (\<exists>who. scim_caller cfg (scim_verb op) env q w = Inr who \<and> scim_change (si_tenant who) w w')"
proof -
  obtain action n where "provisioned cfg (scim_verb op) action n (scim_handler (sc_base cfg) op) env d q w = (a, w')"
    using assms(3) scim_service_provisioned [of cfg op] by metis
  then show ?thesis
  proof (cases rule: provisioned_cases)
    case refused
    then show ?thesis by simp
  next
    case (served who v)
    then show ?thesis
      using scim_handler_change [of v "si_tenant who" "sc_base cfg" op env d q] assms(1,2) scim_change_from [of v w]
      by auto
  qed
qed

subsection \<open>Tenants are kept apart\<close>

definition of_tenant :: "string \<Rightarrow> auth_world \<Rightarrow> user_row list" where
  "of_tenant t w = filter (\<lambda>u. u_tenant u = Some t) (users (aw_db w))"

definition foreign :: "string \<Rightarrow> auth_world \<Rightarrow> user_row list" where
  "foreign t w = filter (\<lambda>u. u_tenant u \<noteq> Some t) (users (aw_db w))"

definition keys_of_users :: "auth_world \<Rightarrow> bool" where
  "keys_of_users w \<longleftrightarrow> distinct (map u_id (users (aw_db w))) \<and> distinct (map u_email (users (aw_db w)))"

lemma same_row:
  assumes "keys_of_users w" and "x \<in> set (users (aw_db w))" and "u \<in> set (users (aw_db w))" and "u_id x = u_id u"
  shows "x = u"
  using assms eq_key_imp_eq_value [of "map (\<lambda>x. (u_id x, x)) (users (aw_db w))"]
  by (auto simp: keys_of_users_def comp_def image_iff)

lemma filter_map_outside:
  assumes "\<And>x. x \<in> set xs \<Longrightarrow> P x \<Longrightarrow> f x = x" and "\<And>x. x \<in> set xs \<Longrightarrow> P (f x) = P x"
  shows "filter P (map f xs) = filter P xs"
  using assms by (induction xs) auto

text \<open>A row of another tenant after a request, and where a row comes from.\<close>

definition row_from :: "string \<Rightarrow> auth_world \<Rightarrow> user_row \<Rightarrow> bool" where
  "row_from t w u' \<longleftrightarrow>
     (\<exists>u\<in>set (users (aw_db w)). row_kept u u') \<or>
     u_id u' = aw_next_user w \<and> u_tenant u' = Some t \<and> u_role u' = ''employee''"

lemma row_from_old: "u \<in> set (users (aw_db w)) \<Longrightarrow> row_from t w u"
  unfolding row_from_def by (rule disjI1, rule bexI [of _ u]) (simp_all add: row_kept_def)

lemma scim_change_confined:
  assumes "scim_change t w w'" and "keys_of_users w"
  shows "foreign t w' = foreign t w" and "list_all (row_from t w) (users (aw_db w'))"
    and "aw_db w' = (aw_db w)\<lparr>users := users (aw_db w')\<rparr>"
proof -
  obtain us where us: "aw_db w' = (aw_db w)\<lparr>users := us\<rparr>"
    and how: "us = users (aw_db w) \<or> joins t (aw_next_user w) (users (aw_db w)) us \<or> edits t (users (aw_db w)) us"
    using assms(1) by (auto simp: scim_change_def)
  show "aw_db w' = (aw_db w)\<lparr>users := users (aw_db w')\<rparr>" by (simp add: us)
  have "filter (\<lambda>u. u_tenant u \<noteq> Some t) us = foreign t w \<and> list_all (row_from t w) us"
    using how
  proof (elim disjE)
    assume "us = users (aw_db w)"
    then show ?thesis by (auto simp: foreign_def row_from_old list_all_iff)
  next
    assume "joins t (aw_next_user w) (users (aw_db w)) us"
    then show ?thesis by (auto simp: joins_def foreign_def row_from_old list_all_iff) (simp_all add: row_from_def)
  next
    assume "edits t (users (aw_db w)) us"
    then obtain u u' where u: "u \<in> set (users (aw_db w))" "u_tenant u = Some t" "row_kept u u'"
      "us = map (\<lambda>x. if u_id x = u_id u then u' else x) (users (aw_db w))" by (auto simp: edits_def)
    have "x = u" if "x \<in> set (users (aw_db w))" "u_id x = u_id u" for x
      using same_row [OF assms(2) that(1) u(1) that(2)] .
    then have "filter (\<lambda>u. u_tenant u \<noteq> Some t) us = foreign t w"
      unfolding u(4) foreign_def by (intro filter_map_outside) (use u(2,3) in \<open>auto simp: row_kept_def\<close>)
    moreover have "list_all (row_from t w) us"
      using u(1,3) unfolding u(4) by (auto simp: list_all_iff row_from_old) (auto simp: row_from_def)
    ultimately show ?thesis by blast
  qed
  then show "foreign t w' = foreign t w" "list_all (row_from t w) (users (aw_db w'))"
    by (simp_all add: foreign_def us)
qed

text \<open>
  Claim C9. A provisioning key reaches only its own tenant. Whatever request it comes with, the rows of
  users of other tenants, all sessions and all tokens are as before; each row afterwards is an
  old one with its id, tenant and password and with its old role or that of an employee, or a new
  employee of the tenant. Without a key nothing changes.
\<close>

theorem scim_confined:
  assumes "scim_service cfg op env d q w = (a, w')" and "keys_of_users w"
  shows "(case scim_caller cfg (scim_verb op) env q w of
            Inl e \<Rightarrow> a = scim_refusal e \<and> w' = w
          | Inr who \<Rightarrow>
              foreign (si_tenant who) w' = foreign (si_tenant who) w \<and>
              list_all (row_from (si_tenant who) w) (users (aw_db w')) \<and>
              aw_db w' = (aw_db w)\<lparr>users := users (aw_db w')\<rparr>)"
proof (cases "scim_caller cfg (scim_verb op) env q w")
  case (Inl e)
  obtain action n where "provisioned cfg (scim_verb op) action n (scim_handler (sc_base cfg) op) env d q w = (a, w')"
    using assms(1) scim_service_provisioned [of cfg op] by metis
  then show ?thesis using Inl by (simp add: provisioned_def)
next
  case (Inr who)
  have "scim_change (si_tenant who) w w'"
    using scim_service_change [OF _ _ assms(1)] assms(2) Inr scim_change_same
    by (auto simp: keys_of_users_def)
  then show ?thesis using Inr scim_change_confined [OF _ assms(2)] by simp
qed

text \<open>Two states that differ only in the rows of other tenants, with the same e-mails taken.\<close>

definition same_view :: "string \<Rightarrow> auth_world \<Rightarrow> auth_world \<Rightarrow> bool" where
  "same_view t w1 w2 \<longleftrightarrow>
     (\<exists>us. w2 = w1\<lparr>aw_db := (aw_db w1)\<lparr>users := us\<rparr>\<rparr>) \<and> of_tenant t w2 = of_tenant t w1 \<and>
     u_email ` set (foreign t w2) = u_email ` set (foreign t w1)"

lemma find_filtered: "(\<And>x. P x \<Longrightarrow> Q x) \<Longrightarrow> find P (filter Q xs) = find P xs"
  by (induction xs) auto

lemma find_in_tenant: "find (in_tenant t i) (users (aw_db w)) = find (in_tenant t i) (of_tenant t w)"
  unfolding of_tenant_def by (rule find_filtered [symmetric]) (simp add: in_tenant_def)

lemma scim_rows_of_tenant:
  "scim_rows t e w = sort_by (\<lambda>x y. u_id x \<le> u_id y)
     (filter (\<lambda>u. case e of None \<Rightarrow> True | Some m \<Rightarrow> u_email u = m) (of_tenant t w))"
  unfolding scim_rows_def of_tenant_def by (simp add: conj_commute)

lemma email_taken:
  "user_by_email e w = None \<longleftrightarrow> e \<notin> u_email ` set (of_tenant t w) \<and> e \<notin> u_email ` set (foreign t w)"
  by (auto simp: user_by_email_def find_None_iff of_tenant_def foreign_def)

lemma email_clash:
  assumes "keys_of_users w" and "find (in_tenant t i) (users (aw_db w)) = Some u"
  shows "list_ex (\<lambda>x. u_id x \<noteq> i \<and> u_email x = e) (users (aw_db w)) \<longleftrightarrow>
    list_ex (\<lambda>x. u_id x \<noteq> i \<and> u_email x = e) (of_tenant t w) \<or> e \<in> u_email ` set (foreign t w)"
proof -
  have u: "u \<in> set (users (aw_db w))" "u_id u = i" "u_tenant u = Some t"
    using find_Some_set [OF assms(2)] by (auto simp: in_tenant_def)
  have "u_id x \<noteq> i" if "x \<in> set (foreign t w)" for x
    using same_row [OF assms(1), of x u] that u by (auto simp: foreign_def)
  then show ?thesis by (auto simp: list_ex_iff of_tenant_def foreign_def)
qed

lemma same_view_parts:
  assumes "same_view t w1 w2"
  shows "of_tenant t w2 = of_tenant t w1" "u_email ` set (foreign t w2) = u_email ` set (foreign t w1)"
    "aw_policies w2 = aw_policies w1" "aw_next_user w2 = aw_next_user w1" "aw_history w2 = aw_history w1"
    "aw_keys w2 = aw_keys w1"
  using assms by (auto simp: same_view_def)

lemma same_view_find:
  "same_view t w1 w2 \<Longrightarrow> find (in_tenant t i) (users (aw_db w2)) = find (in_tenant t i) (users (aw_db w1))"
  by (simp add: find_in_tenant same_view_parts)

lemma same_view_email:
  "same_view t w1 w2 \<Longrightarrow> (user_by_email e w2 = None) = (user_by_email e w1 = None)"
  unfolding email_taken [of _ _ t] by (simp add: same_view_parts)

lemma same_view_update:
  assumes "same_view t w1 w2" and "keys_of_users w1" and "keys_of_users w2"
  shows "fst (update_by_scim base t cs env d q w2) = fst (update_by_scim base t cs env d q w1)"
proof (cases "scim_id (path_id q)")
  case (Some i)
  show ?thesis
  proof (cases "find (in_tenant t i) (users (aw_db w1))")
    case None
    then show ?thesis using Some same_view_find [OF assms(1)] by (simp add: update_by_scim_def)
  next
    case u: (Some u)
    then have u2: "find (in_tenant t i) (users (aw_db w2)) = Some u"
      using same_view_find [OF assms(1)] by simp
    have "list_ex (\<lambda>x. u_id x \<noteq> i \<and> u_email x = e) (users (aw_db w2)) =
        list_ex (\<lambda>x. u_id x \<noteq> i \<and> u_email x = e) (users (aw_db w1))" for e
      using email_clash [OF assms(2) u] email_clash [OF assms(3) u2] same_view_parts(1,2) [OF assms(1)] by simp
    then show ?thesis using Some u u2 by (simp add: update_by_scim_def split: option.splits)
  qed
qed (simp add: update_by_scim_def)

lemma same_view_create:
  assumes "same_view t w1 w2"
  shows "fst (scim_create_route base t env d q w2) = fst (scim_create_route base t env d q w1)"
  using same_view_email [OF assms] same_view_parts [OF assms]
  by (simp add: scim_create_route_def Let_def getPasswordPolicyForTenant_def split: option.splits)

lemma same_view_handler:
  assumes "same_view t w1 w2" and "keys_of_users w1" and "keys_of_users w2"
  shows "fst (scim_handler base op t env d q w2) = fst (scim_handler base op t env d q w1)"
proof (cases op)
  case ListUsers
  then show ?thesis by (simp add: scim_list_route_def Let_def scim_rows_of_tenant same_view_parts [OF assms(1)])
next
  case CreateUser
  then show ?thesis using same_view_create [OF assms(1)] by simp
next
  case GetUser
  then show ?thesis using same_view_find [OF assms(1)] by (simp add: scim_get_route_def split: option.splits)
next
  case PutUser
  then show ?thesis using same_view_update [OF assms] by (simp add: scim_put_route_def Let_def)
next
  case PatchUser
  then show ?thesis
    using same_view_update [OF assms]
    by (simp add: scim_patch_route_def split: jsv.splits sum.splits list.splits)
next
  case DeleteUser
  then show ?thesis using same_view_find [OF assms(1)] by (simp add: scim_delete_route_def split: option.splits)
qed

lemma limiter_ignores_tables:
  "userRateLimiter action n k env usr q (w\<lparr>aw_db := db\<rparr>) =
   apsnd (\<lambda>v. v\<lparr>aw_db := db\<rparr>) (userRateLimiter action n k env usr q w)"
  by (simp add: userRateLimiter_def Let_def split: prod.splits)

text \<open>
  Claim C10. What a provisioning key is answered depends on its own tenant alone: in two states that
  differ only in the users of other tenants, with the same addresses taken, every request gets
  the same reply. The addresses matter: one taken in any tenant is answered with 409.
\<close>

theorem scim_noninterference:
  assumes "scim_caller cfg (scim_verb op) env q w1 = Inr who" and "same_view (si_tenant who) w1 w2"
    and "keys_of_users w1" and "keys_of_users w2"
  shows "fst (scim_service cfg op env d q w2) = fst (scim_service cfg op env d q w1)"
proof -
  let ?t = "si_tenant who"
  obtain us where w2: "w2 = w1\<lparr>aw_db := (aw_db w1)\<lparr>users := us\<rparr>\<rparr>"
    using assms(2) by (auto simp: same_view_def)
  have caller: "scim_caller cfg (scim_verb op) env q w2 = Inr who"
    using assms(1) by (simp add: scim_caller_def w2)
  obtain action n where op: "scim_service cfg op = provisioned cfg (scim_verb op) action n (scim_handler (sc_base cfg) op)"
    by (rule scim_service_provisioned)
  obtain x v1 where l1: "userRateLimiter action n False env None q w1 = (x, v1)" by fastforce
  define v2 where "v2 = v1\<lparr>aw_db := aw_db w2\<rparr>"
  have l2: "userRateLimiter action n False env None q w2 = (x, v2)"
    using l1 by (simp add: w2 v2_def limiter_ignores_tables)
  have db: "aw_db v1 = aw_db w1" by (subst limiter_keeps [OF l1]) simp
  have view: "same_view ?t v1 v2"
    using assms(2) by (auto simp: same_view_def v2_def of_tenant_def foreign_def db w2)
  have keys: "keys_of_users v1" "keys_of_users v2"
    using assms(3,4) by (simp_all add: keys_of_users_def db v2_def)
  show ?thesis
    unfolding op using assms(1) caller l1 l2 same_view_handler [OF view keys]
    by (simp add: provisioned_def split: option.splits)
qed

subsection \<open>Deprovisioning\<close>

lemma exchange_answer:
  "fst (rotate_tx now new old db) \<noteq> None \<longleftrightarrow>
     (\<exists>r u. find (\<lambda>r. rf_hash r = old \<and> now < rf_expires r) (refresh_tokens db) = Some r \<and>
        find (\<lambda>u. u_id u = rf_user r) (users db) = Some u \<and>
        \<not> (case find (\<lambda>s. se_hash s = old \<and> se_user s = rf_user r) (sessions db) of
             Some s \<Rightarrow> \<not> se_active s | None \<Rightarrow> False))"
  by (auto simp: rotate_tx_def Let_def split: option.splits)

lemma refresh_200:
  "rp_status (fst (refresh_route env d q w)) = 200 \<longleftrightarrow>
     \<not> falsy_string (map_get (hq_cookies q) ''refreshToken'') \<and>
     fst (rotate_tx (ae_now env) (ae_sha256 env (dr_refresh d))
       (ae_sha256 env (the (map_get (hq_cookies q) ''refreshToken''))) (aw_db w)) \<noteq> None"
  by (auto simp: refresh_route_def rotateRefreshToken_def failure_def reply_def with_cookies_def
      split: option.splits prod.splits)

lemma limiter_parts:
  assumes "userRateLimiter action n k env usr q w = (x, v)"
  shows "aw_db v = aw_db w \<and> (\<forall>a. x = Some a \<longrightarrow> rp_status a = 429)"
  using assms by (auto simp: userRateLimiter_def Let_def too_many_def reply_def split: if_splits prod.splits)

lemma deleted_rows:
  assumes "scim_service cfg DeleteUser env d q w = (a, w')" and "rp_status a = 204"
  obtains i where "scim_id (path_id q) = Some i" "user_by_id i w \<noteq> None"
    "aw_db w' = (aw_db w)\<lparr>users := map (\<lambda>u. if u_id u = i
       then u\<lparr>u_enabled := Some False, u_updated := ae_now env\<rparr> else u) (users (aw_db w))\<rparr>"
proof -
  have "provisioned cfg ''DELETE'' ''scim_delete'' 10 scim_delete_route env d q w = (a, w')"
    using assms(1) by (simp add: DELETE_scim_user_def)
  moreover have "rp_status (scim_refusal e) \<noteq> 204" if "scim_caller cfg ''DELETE'' env q w = Inl e" for e
    using that by (auto simp: scim_caller_def requireScimAuth_def scim_refusal_def sendScimError_def Let_def
        split: if_splits option.splits prod.splits)
  ultimately obtain v tenant where v: "aw_db v = aw_db w" "scim_delete_route tenant env d q v = (a, w')"
    using assms(2)
    by (auto simp: provisioned_def sendScimError_def split: sum.splits if_splits option.splits prod.splits
        dest!: limiter_parts)
  then obtain i where i: "scim_id (path_id q) = Some i" "find (in_tenant tenant i) (users (aw_db w)) \<noteq> None"
    "w' = update_user i (\<lambda>u. u\<lparr>u_enabled := Some False, u_updated := ae_now env\<rparr>) v"
    using assms(2) by (auto simp: scim_delete_route_def sendScimError_def split: option.splits if_splits)
  have "user_by_id i w \<noteq> None"
    using i(2) by (auto simp: user_by_id_def find_None_iff in_tenant_def)
  then show ?thesis using that [OF i(1)] i(3) v(1) by (simp add: update_user_def)
qed

text \<open>
  Deprovisioning ends no session. After \<open>DELETE /scim/v2/Users/:id\<close> is answered with 204 the
  user is inactive, and still every refresh token the user could have exchanged before is exchanged:
  the answer is 200.
\<close>

lemma deprovisioned_user_refreshes:
  assumes "scim_service cfg DeleteUser env d q w = (a, w')" and "rp_status a = 204"
    and "rp_status (fst (refresh_route env2 d2 q2 w)) = 200"
  shows "\<exists>i u. scim_id (path_id q) = Some i \<and> user_by_id i w' = Some u \<and> \<not> u_active u \<and>
    rp_status (fst (refresh_route env2 d2 q2 w')) = 200"
proof -
  obtain i where i: "scim_id (path_id q) = Some i" "user_by_id i w \<noteq> None"
    "aw_db w' = (aw_db w)\<lparr>users := map (\<lambda>u. if u_id u = i
       then u\<lparr>u_enabled := Some False, u_updated := ae_now env\<rparr> else u) (users (aw_db w))\<rparr>"
    using deleted_rows [OF assms(1,2)] .
  have found: "find (\<lambda>u. u_id u = j) (users (aw_db w')) =
      map_option (\<lambda>u. if u_id u = i then u\<lparr>u_enabled := Some False, u_updated := ae_now env\<rparr> else u)
        (find (\<lambda>u. u_id u = j) (users (aw_db w)))" for j
    unfolding i(3) by (simp add: find_map_keeping)
  have "rp_status (fst (refresh_route env2 d2 q2 w')) = 200"
    using assms(3) unfolding refresh_200 exchange_answer found by (auto simp: i(3))
  moreover obtain u where "find (\<lambda>u. u_id u = i) (users (aw_db w)) = Some u"
    using i(2) by (auto simp: user_by_id_def)
  moreover have "u_id u = i" using calculation(2) find_Some_set by fast
  ultimately show ?thesis using i(1) found [of i] by (auto simp: user_by_id_def)
qed

subsection \<open>A provisioned tenant\<close>

definition bob :: user_row where
  "bob = ada\<lparr>u_id := 8, u_email := ''bob@other.io'', u_tenant := Some ''other'', u_role := ''admin''\<rparr>"

definition scim_world :: auth_world where
  "scim_world = svc_world\<lparr>aw_next_user := 9,
     aw_db := (aw_db svc_world)\<lparr>users := [ada, bob],
       refresh_tokens := [\<lparr>rf_user = 7, rf_hash = ''#t'', rf_expires = 99\<rparr>],
       sessions := [\<lparr>se_id = ''s1'', se_user = 7, se_hash = ''#t'', se_active = True\<rparr>]\<rparr>\<rparr>"

definition acme_config :: scim_config where
  "acme_config = \<lparr>sc_keys = [(''acme'', ''secret'')], sc_legacy = [], sc_base = ''https://atlas''\<rparr>"

definition scim_call :: "string \<Rightarrow> (string \<times> jsv) list \<Rightarrow> auth_http" where
  "scim_call i fs = \<lparr>hq_body = JObj fs, hq_headers = [(''x-api-key'', ''secret'')], hq_cookies = [],
     hq_ip = ''10.0.0.1'', hq_params = [(''id'', i)], hq_query = JUndef\<rparr>"

definition refresh_call :: auth_http where
  "refresh_call = \<lparr>hq_body = JObj [], hq_headers = [], hq_cookies = [(''refreshToken'', ''t'')],
     hq_ip = ''10.0.0.1'', hq_params = [], hq_query = JUndef\<rparr>"

abbreviation "deactivate_bob \<equiv> scim_call ''8'' [(''Operations'', JArr [JObj [(''op'', JStr ''replace''),
  (''path'', JStr ''active''), (''value'', JBool False)]])]"

lemma acme_caller:
  "scim_caller acme_config v (svc_env 5) (scim_call i fs) w = Inr \<lparr>si_tenant = ''acme'', si_scopes = map JStr API_KEY_SCOPES\<rparr>"
  by (simp add: scim_caller_def acme_config_def scim_call_def header_of_def requireScimAuth_def
      resolveScimTenant_def falsy_string_def)

theorem scim_confined_witness:
  "rp_status (fst (scim_service acme_config PatchUser (svc_env 5) some_draws deactivate_bob scim_world)) = 404 \<and>
   foreign ''acme'' (snd (scim_service acme_config PatchUser (svc_env 5) some_draws deactivate_bob scim_world)) = [bob]"
proof -
  let ?r = "scim_service acme_config PatchUser (svc_env 5) some_draws deactivate_bob scim_world"
  have "rp_status (fst ?r) = 404" by code_simp
  moreover have "keys_of_users scim_world" "foreign ''acme'' scim_world = [bob]" by code_simp+
  ultimately show ?thesis
    using scim_confined [of acme_config PatchUser "svc_env 5" some_draws deactivate_bob scim_world "fst ?r" "snd ?r"]
    by (simp add: acme_caller)
qed

theorem scim_noninterference_witness:
  "fst (scim_service acme_config ListUsers (svc_env 5) some_draws (scim_call [] [])
      (scim_world\<lparr>aw_db := (aw_db scim_world)\<lparr>users := [ada, bob\<lparr>u_role := ''hr''\<rparr>]\<rparr>\<rparr>)) =
   fst (scim_service acme_config ListUsers (svc_env 5) some_draws (scim_call [] []) scim_world)"
proof -
  let ?w = "scim_world\<lparr>aw_db := (aw_db scim_world)\<lparr>users := [ada, bob\<lparr>u_role := ''hr''\<rparr>]\<rparr>\<rparr>"
  have "same_view ''acme'' scim_world ?w"
    unfolding same_view_def by (intro conjI exI [of _ "[ada, bob\<lparr>u_role := ''hr''\<rparr>]"]) (simp, code_simp+)
  moreover have "keys_of_users scim_world" "keys_of_users ?w" by code_simp+
  ultimately show ?thesis
    using scim_noninterference [of acme_config ListUsers "svc_env 5" "scim_call [] []" scim_world]
    by (simp add: acme_caller)
qed

lemma deprovisioned_user_refreshes_witness:
  "\<exists>u. user_by_id 7 (snd (scim_service acme_config DeleteUser (svc_env 5) some_draws (scim_call ''7'' []) scim_world)) = Some u \<and>
     \<not> u_active u \<and> rp_status (fst (refresh_route (svc_env 6) some_draws refresh_call
       (snd (scim_service acme_config DeleteUser (svc_env 5) some_draws (scim_call ''7'' []) scim_world)))) = 200"
proof -
  let ?r = "scim_service acme_config DeleteUser (svc_env 5) some_draws (scim_call ''7'' []) scim_world"
  have "rp_status (fst ?r) = 204" "rp_status (fst (refresh_route (svc_env 6) some_draws refresh_call scim_world)) = 200"
    "scim_id (path_id (scim_call ''7'' [])) = Some 7"
    by code_simp+
  then show ?thesis
    using deprovisioned_user_refreshes [of acme_config "svc_env 5" some_draws "scim_call ''7'' []" scim_world "fst ?r" "snd ?r"
      "svc_env 6" some_draws refresh_call] by auto
qed

end
