(* ===== verification/Auth_Service.thy ===== *)
theory Auth_Service
  imports Auth_Account Auth_Admin Auth_Devices Auth_Scim
begin

section \<open>The auth service: its routes and the machine of accounts\<close>

text \<open>
  The routes of \<open>services/auth-service/index.js\<close> outside the federated sign-ins, with their verbs and
  paths and the functions Express calls for them. Below it an abstract machine of accounts: what may
  happen to the tables of users, sessions and tokens at all (\<open>account_step\<close>). Each request is one step of
  that machine. \<open>Auth_Whole\<close> adds the other routes and the runs.
\<close>

datatype auth_route =
    Register | Login | Refresh | Logout
  | MfaSetup | MfaRotate | MfaVerify | MfaValidate | MfaDisable | MfaStatus
  | AddDevice | ListDevices | TrustDevice | RemoveDevice | VerifyDevice
  | Scim scim_request
  | MagicRequest | MagicVerify | ResetRequest | Reset | AdminReset
  | ReadPolicy | StorePolicy | IssueKey | ListKeys | RevokeKey | LookUpUser
  | ListSessions | RevokeSession | RevokeSessions

fun route_line :: "auth_route \<Rightarrow> string \<times> string" where
  "route_line Register = (''POST'', ''/register'')"
| "route_line Login = (''POST'', ''/login'')"
| "route_line Refresh = (''POST'', ''/refresh'')"
| "route_line Logout = (''POST'', ''/logout'')"
| "route_line MfaSetup = (''POST'', ''/mfa/setup'')"
| "route_line MfaRotate = (''POST'', ''/mfa/rotate-backup-codes'')"
| "route_line MfaVerify = (''POST'', ''/mfa/verify'')"
| "route_line MfaValidate = (''POST'', ''/mfa/validate'')"
| "route_line MfaDisable = (''POST'', ''/mfa/disable'')"
| "route_line MfaStatus = (''GET'', ''/mfa/status'')"
| "route_line AddDevice = (''POST'', ''/devices/register'')"
| "route_line ListDevices = (''GET'', ''/devices'')"
| "route_line TrustDevice = (''PUT'', ''/devices/:id/trust'')"
| "route_line RemoveDevice = (''DELETE'', ''/devices/:id'')"
| "route_line VerifyDevice = (''POST'', ''/devices/verify'')"
| "route_line (Scim op) = (scim_verb op, if op = ListUsers \<or> op = CreateUser then ''/scim/v2/Users'' else ''/scim/v2/Users/:id'')"
| "route_line MagicRequest = (''POST'', ''/auth/passwordless/request'')"
| "route_line MagicVerify = (''POST'', ''/auth/passwordless/verify'')"
| "route_line ResetRequest = (''POST'', ''/auth/password/reset-request'')"
| "route_line Reset = (''POST'', ''/auth/password/reset'')"
| "route_line AdminReset = (''POST'', ''/auth/admin/password-reset'')"
| "route_line ReadPolicy = (''GET'', ''/auth/admin/password-policy'')"
| "route_line StorePolicy = (''PUT'', ''/auth/admin/password-policy'')"
| "route_line IssueKey = (''POST'', ''/auth/admin/api-keys'')"
| "route_line ListKeys = (''GET'', ''/auth/admin/api-keys'')"
| "route_line RevokeKey = (''DELETE'', ''/auth/admin/api-keys/:keyId'')"
| "route_line LookUpUser = (''GET'', ''/internal/atlas-user'')"
| "route_line ListSessions = (''GET'', ''/sessions'')"
| "route_line RevokeSession = (''DELETE'', ''/sessions/:id'')"
| "route_line RevokeSessions = (''DELETE'', ''/sessions'')"

record service_config =
  cf_scim :: scim_config
  cf_frontend :: string
  cf_keyuri :: "string \<Rightarrow> string \<Rightarrow> string" \<comment> \<open>otplib's\<close>

fun auth_service :: "service_config \<Rightarrow> auth_route \<Rightarrow> handler" where
  "auth_service cfg Register = POST_register"
| "auth_service cfg Login = POST_login"
| "auth_service cfg Refresh = POST_refresh"
| "auth_service cfg Logout = POST_logout"
| "auth_service cfg MfaSetup = POST_mfa_setup (cf_keyuri cfg)"
| "auth_service cfg MfaRotate = POST_mfa_rotate"
| "auth_service cfg MfaVerify = POST_mfa_verify"
| "auth_service cfg MfaValidate = POST_mfa_validate"
| "auth_service cfg MfaDisable = POST_mfa_disable"
| "auth_service cfg MfaStatus = GET_mfa_status"
| "auth_service cfg AddDevice = POST_devices"
| "auth_service cfg ListDevices = GET_devices"
| "auth_service cfg TrustDevice = PUT_device_trust"
| "auth_service cfg RemoveDevice = DELETE_device"
| "auth_service cfg VerifyDevice = POST_device_verify"
| "auth_service cfg (Scim op) = scim_service (cf_scim cfg) op"
| "auth_service cfg MagicRequest = POST_passwordless_request"
| "auth_service cfg MagicVerify = POST_passwordless_verify"
| "auth_service cfg ResetRequest = POST_password_reset_request (cf_frontend cfg)"
| "auth_service cfg Reset = POST_password_reset"
| "auth_service cfg AdminReset = POST_admin_password_reset"
| "auth_service cfg ReadPolicy = GET_password_policy"
| "auth_service cfg StorePolicy = PUT_password_policy"
| "auth_service cfg IssueKey = POST_api_keys"
| "auth_service cfg ListKeys = GET_api_keys"
| "auth_service cfg RevokeKey = DELETE_api_key"
| "auth_service cfg LookUpUser = atlas_user_route"
| "auth_service cfg ListSessions = GET_sessions"
| "auth_service cfg RevokeSession = DELETE_session"
| "auth_service cfg RevokeSessions = DELETE_sessions"

subsection \<open>The machine of accounts\<close>

text \<open>Users, sessions and tokens, and the next user id.\<close>

type_synonym accounts = "token_db \<times> int"

abbreviation accounts_of :: "auth_world \<Rightarrow> accounts" where
  "accounts_of w \<equiv> (aw_db w, aw_next_user w)"

datatype account_event =
  Idle | Joined | SignedIn int | Exchanged | TurnedOff | PasswordSet int | Provisioned string

inductive account_step :: "auth_env \<Rightarrow> draws \<Rightarrow> accounts \<Rightarrow> account_event \<Rightarrow> accounts \<Rightarrow> bool" for env d where
  idle: "account_step env d s Idle s"
| join: "u_id u = n \<Longrightarrow> u_role u = ''employee'' \<Longrightarrow> u_email u \<notin> u_email ` set (users db) \<Longrightarrow>
    account_step env d (db, n) Joined (db\<lparr>users := users db @ [u]\<rparr>, n + 1)"
| sign_in: "u \<in> set (users db) \<Longrightarrow> u_active u \<Longrightarrow>
    account_step env d (db, n) (SignedIn (u_id u))
      (issue_session (ae_now env) (dr_session d) (u_id u) (ae_sha256 env (dr_refresh d)) db, n)"
| exchange: "account_step env d (db, n) Exchanged
    (snd (rotateRefreshToken (ae_now env) (ae_sha256 env (dr_refresh d)) h db), n)"
| turn_off: "account_step env d (db, n) TurnedOff (drop_rotated R (drop_tokens Q (deactivate P db)), n)"
| set_password: "account_step env d (db, n) (PasswordSet i)
    (revokeAllUserSessions i (db\<lparr>users := map (\<lambda>x. if u_id x = i
       then x\<lparr>u_password := h, u_password_changed_at := Some (ae_now env), u_updated := ae_now env\<rparr> else x) (users db)\<rparr>), n)"
| provision: "edits t (users db) us \<Longrightarrow> account_step env d (db, n) (Provisioned t) (db\<lparr>users := us\<rparr>, n)"

inductive_cases account_stepE: "account_step env d s e s'"

definition accounts_ok :: "accounts \<Rightarrow> bool" where
  "accounts_ok s \<longleftrightarrow>
     (case s of (db, n) \<Rightarrow>
        distinct (map u_id (users db)) \<and> distinct (map u_email (users db)) \<and>
        (\<forall>u \<in> set (users db). u_id u < n) \<and>
        distinct (map se_id (sessions db)) \<and> se_user ` set (sessions db) \<subseteq> u_id ` set (users db) \<and>
        distinct (map rf_hash (refresh_tokens db)) \<and> rf_user ` set (refresh_tokens db) \<subseteq> u_id ` set (users db))"

definition fresh_draws :: "auth_env \<Rightarrow> draws \<Rightarrow> token_db \<Rightarrow> bool" where
  "fresh_draws env d db \<longleftrightarrow>
     dr_session d \<notin> se_id ` set (sessions db) \<and> ae_sha256 env (dr_refresh d) \<notin> rf_hash ` set (refresh_tokens db)"

lemma turned_off_tables:
  "users (drop_rotated R (drop_tokens Q (deactivate P db))) = users db"
  "map se_id (sessions (drop_rotated R (drop_tokens Q (deactivate P db)))) = map se_id (sessions db)"
  "map se_user (sessions (drop_rotated R (drop_tokens Q (deactivate P db)))) = map se_user (sessions db)"
  "refresh_tokens (drop_rotated R (drop_tokens Q (deactivate P db))) = filter (\<lambda>r. \<not> Q r) (refresh_tokens db)"
  by (simp_all add: drop_rotated_def drop_tokens_def deactivate_def)

lemma accounts_ok_tables:
  assumes "accounts_ok (db, n)" and "users db' = users db" and "map se_id (sessions db') = map se_id (sessions db)"
    and "map se_user (sessions db') = map se_user (sessions db)" and "refresh_tokens db' = filter P (refresh_tokens db)"
  shows "accounts_ok (db', n)"
proof -
  have "se_user ` set (sessions db') = se_user ` set (sessions db)"
    using assms(4) by (metis list.set_map)
  moreover have "distinct (map rf_hash (filter P (refresh_tokens db)))"
    using assms(1) by (auto simp: accounts_ok_def distinct_map intro: inj_on_subset)
  ultimately show ?thesis
    using assms unfolding accounts_ok_def by auto
qed

lemma exchange_tables:
  obtains (renewed) r where "r \<in> set (refresh_tokens db)"
      "refresh_tokens (snd (rotateRefreshToken now new old db)) =
         \<lparr>rf_user = rf_user r, rf_hash = new, rf_expires = now + REFRESH_EXPIRY_DAYS * day_ms\<rparr> #
         filter (\<lambda>r. rf_hash r \<noteq> old) (refresh_tokens db)"
      "users (snd (rotateRefreshToken now new old db)) = users db"
      "map se_id (sessions (snd (rotateRefreshToken now new old db))) = map se_id (sessions db)"
      "map se_user (sessions (snd (rotateRefreshToken now new old db))) = map se_user (sessions db)"
  | (refused) Q R P where "snd (rotateRefreshToken now new old db) = drop_rotated R (drop_tokens Q (deactivate P db))"
proof (cases "rotate_tx now new old db")
  case (Pair x db1)
  show ?thesis
  proof (cases x)
    case None
    then have db1: "db1 = db" using Pair by (auto simp: rotate_tx_def Let_def split: option.splits if_splits)
    have same: "db = drop_rotated (\<lambda>_. False) (drop_tokens (\<lambda>_. False) (deactivate (\<lambda>_. False) db))"
      by (simp add: drop_rotated_def drop_tokens_def deactivate_def)
    have comm: "drop_tokens Q (deactivate P (drop_rotated R db)) = drop_rotated R (drop_tokens Q (deactivate P db))" for P Q R
      by (simp add: drop_rotated_def drop_tokens_def deactivate_def)
    have one: "drop_rotated R db = drop_rotated R (drop_tokens (\<lambda>_. False) (deactivate (\<lambda>_. False) db))" for R
      by (simp add: drop_rotated_def drop_tokens_def deactivate_def)
    have "snd (rotateRefreshToken now new old db) = drop_rotated (\<lambda>r. ro_hash r = old) db \<or>
      (\<exists>u. snd (rotateRefreshToken now new old db) =
        drop_rotated (\<lambda>r. ro_hash r = old) (drop_tokens (\<lambda>r. rf_user r = u) (deactivate (\<lambda>s. se_user s = u) db)))"
      using Pair None
      by (auto simp: rotateRefreshToken_def db1 revokeOnRotatedTokenReuse_def claim_rotated_def
          revokeAllUserSessions_def comm split: option.splits prod.splits)
    then show ?thesis using refused one by metis
  next
    case (Some rot)
    then obtain r where r: "r \<in> set (refresh_tokens db)"
      "refresh_tokens db1 =
         \<lparr>rf_user = rf_user r, rf_hash = new, rf_expires = now + REFRESH_EXPIRY_DAYS * day_ms\<rparr> #
         filter (\<lambda>r. rf_hash r \<noteq> old) (refresh_tokens db)"
      "users db1 = users db" "map se_id (sessions db1) = map se_id (sessions db)"
      "map se_user (sessions db1) = map se_user (sessions db)"
      using Pair
      by (auto simp: rotate_tx_def Let_def createRefreshToken_def drop_tokens_def
          split: option.splits if_splits dest!: find_Some_set)
    show ?thesis
      using r Pair Some
      by (intro renewed [of r]) (simp_all add: rotateRefreshToken_def purge_rotated_def drop_rotated_def)
  qed
qed

text \<open>A column stays without repetition when one row is changed to a value that is not taken.\<close>

lemma distinct_edit:
  assumes "distinct (map u_id us)" and "distinct (map u_email us)"
    and "u_email u' \<notin> u_email ` {x \<in> set us. u_id x \<noteq> i}"
  shows "distinct (map u_email (map (\<lambda>x. if u_id x = i then u' else x) us))"
  using assms
proof (induction us)
  case (Cons a us)
  then have "distinct (map u_email (map (\<lambda>x. if u_id x = i then u' else x) us))" by auto
  moreover have "map (\<lambda>x. if u_id x = i then u' else x) us = us" if "u_id a = i"
    using Cons.prems(1) that by (intro map_idI) (auto simp: image_iff)
  ultimately show ?case using Cons.prems by (auto simp: image_iff split: if_splits)
qed simp

lemma accounts_ok_users:
  assumes "accounts_ok (db, n)" and "map u_id us = map u_id (users db)" and "distinct (map u_email us)"
  shows "accounts_ok (db\<lparr>users := us\<rparr>, n)"
proof -
  have ids: "u_id ` set us = u_id ` set (users db)" using assms(2) by (metis list.set_map)
  moreover have "u_id x < n" if "x \<in> set us" for x
  proof -
    have "u_id x \<in> u_id ` set (users db)" using that ids by blast
    then show ?thesis using assms(1) by (auto simp: accounts_ok_def)
  qed
  ultimately show ?thesis using assms unfolding accounts_ok_def by simp
qed

lemma account_step_ok:
  assumes "account_step env d s e s'" and "accounts_ok s" and "fresh_draws env d (fst s)"
  shows "accounts_ok s'"
  using assms(1)
proof cases
  case idle
  then show ?thesis using assms(2) by simp
next
  case (join u n db)
  then show ?thesis using assms(2) by (auto simp: accounts_ok_def)
next
  case (sign_in u db n)
  then show ?thesis
    using assms(2,3)
    by (auto simp: accounts_ok_def fresh_draws_def issue_session_def insert_session_def createRefreshToken_def)
next
  case (exchange db n h)
  let ?r = "rotateRefreshToken (ae_now env) (ae_sha256 env (dr_refresh d)) h db"
  show ?thesis
  proof (cases rule: exchange_tables [of db "ae_now env" "ae_sha256 env (dr_refresh d)" h])
    case (renewed r)
    have "accounts_ok (db\<lparr>refresh_tokens := filter (\<lambda>r. rf_hash r \<noteq> h) (refresh_tokens db)\<rparr>, n)"
      by (rule accounts_ok_tables) (use assms(2) exchange in auto)
    moreover have "se_user ` set (sessions (snd ?r)) = se_user ` set (sessions db)"
      using renewed(5) by (metis list.set_map)
    ultimately show ?thesis
      using renewed assms(2,3) exchange by (auto simp: accounts_ok_def fresh_draws_def)
  next
    case (refused Q R P)
    show ?thesis
      unfolding exchange(3) refused
      by (rule accounts_ok_tables [of db]) (use assms(2) exchange(1) turned_off_tables in auto)
  qed
next
  case (turn_off db n R Q P)
  show ?thesis
    unfolding turn_off(3)
    by (rule accounts_ok_tables [of db]) (use assms(2) turn_off(1) turned_off_tables in auto)
next
  case (set_password db n i h)
  let ?us = "map (\<lambda>x. if u_id x = i
    then x\<lparr>u_password := h, u_password_changed_at := Some (ae_now env), u_updated := ae_now env\<rparr> else x) (users db)"
  have "map u_id ?us = map u_id (users db)" "map u_email ?us = map u_email (users db)" by simp_all
  then have "accounts_ok (db\<lparr>users := ?us\<rparr>, n)"
    using accounts_ok_users [of db n ?us] assms(2) set_password(1) by (simp add: accounts_ok_def del: map_map)
  then show ?thesis
    unfolding set_password(3) revokeAllUserSessions_def
    by (rule accounts_ok_tables) (auto simp: drop_tokens_def deactivate_def)
next
  case (provision t db us n)
  obtain u u' where u: "u \<in> set (users db)" "row_kept u u'"
    "us = map (\<lambda>x. if u_id x = u_id u then u' else x) (users db)"
    "u_email u' \<notin> u_email ` {x \<in> set (users db). u_id x \<noteq> u_id u}"
    using provision(4) by (auto simp: edits_def)
  have "map u_id us = map u_id (users db)" using u(2) by (simp add: u(3) row_kept_def)
  moreover have "distinct (map u_email us)"
    unfolding u(3) by (rule distinct_edit [OF _ _ u(4)]) (use assms(2) provision(1) in \<open>simp_all add: accounts_ok_def\<close>)
  ultimately show ?thesis
    using accounts_ok_users assms(2) unfolding provision(1,3) by blast
qed

subsection \<open>What an event rests on\<close>

text \<open>A session: the password, the second factor, or the link.\<close>

definition credential :: "auth_route \<Rightarrow> auth_env \<Rightarrow> auth_http \<Rightarrow> auth_world \<Rightarrow> int \<Rightarrow> bool" where
  "credential r env q w i \<longleftrightarrow>
     (\<exists>u. u_id u = i \<and> u_active u \<and>
        (r = Login \<and> user_by_email (login_email q) w = Some u \<and>
           (\<exists>p. body_field q ''password'' = JStr p \<and> ae_matches env p (u_password u)) \<and>
           \<not> fst (isAccountLocked (ae_now env) (login_email q) w) \<and> \<not> mfa_required i w \<or>
         r = MfaValidate \<and> (\<exists>jti w'. redeems env q w jti u \<and> factor_shown env q i w w') \<or>
         r = MagicVerify \<and>
           (\<exists>t row. body_field q ''token'' = JStr t \<and> row \<in> set (aw_magic w) \<and> mg_hash row = ae_sha256 env t \<and>
              \<not> mg_used row \<and> ae_now env < mg_expires row \<and> user_by_id (mg_user row) w = Some u)))"

text \<open>A new password: the token that was mailed, or an admin.\<close>

definition password_grant :: "auth_route \<Rightarrow> auth_env \<Rightarrow> auth_http \<Rightarrow> auth_world \<Rightarrow> int \<Rightarrow> bool" where
  "password_grant r env q w i \<longleftrightarrow>
     r = Reset \<and> (\<exists>row u. redeemable env (reset_hash env q) w row \<and> user_by_id (rs_user row) w = Some u \<and>
        u_id u = i \<and> u_active u) \<or>
     r = AdminReset \<and> (\<exists>payload. requireRole env [''admin''] q = Inr payload)"

definition justified :: "service_config \<Rightarrow> auth_route \<Rightarrow> auth_env \<Rightarrow> auth_http \<Rightarrow> auth_world \<Rightarrow> account_event \<Rightarrow> bool" where
  "justified cfg r env q w e \<longleftrightarrow>
     (case e of
        Idle \<Rightarrow> True
      | Joined \<Rightarrow> r = Register \<or> r = Scim CreateUser
      | SignedIn i \<Rightarrow> credential r env q w i
      | Exchanged \<Rightarrow> r = Refresh
      | TurnedOff \<Rightarrow> r \<in> {Logout, RevokeSession, RevokeSessions}
      | PasswordSet i \<Rightarrow> password_grant r env q w i
      | Provisioned t \<Rightarrow>
          (\<exists>op who. r = Scim op \<and> scim_caller (cf_scim cfg) (scim_verb op) env q w = Inr who \<and> si_tenant who = t))"

lemma justified_counters [simp]:
  "justified cfg r env q (w\<lparr>aw_shared_counters := m, aw_local_counters := n\<rparr>) e = justified cfg r env q w e"
  by (auto simp: justified_def credential_def password_grant_def redeems_def factor_shown_def redeemable_def
      scim_caller_def user_by_email_def user_by_id_def isAccountLocked_def mfa_required_def Let_def
      split: account_event.splits option.splits)

lemma justified_Idle [simp]: "justified cfg r env q w Idle" by (simp add: justified_def)

lemma limiter_transfer:
  assumes "userRateLimiter action n k env usr q w = (x, v)"
  shows "accounts_of v = accounts_of w" "justified cfg r env' q' v e = justified cfg r env' q' w e"
proof -
  obtain m m' where v: "v = w\<lparr>aw_shared_counters := m, aw_local_counters := m'\<rparr>"
    using limiter_keeps [OF assms] by blast
  show "accounts_of v = accounts_of w" unfolding v by simp
  show "justified cfg r env' q' v e = justified cfg r env' q' w e" unfolding v by simp
qed

text \<open>A handler whose every request is a step of the machine.\<close>

definition steps :: "(auth_env \<Rightarrow> auth_http \<Rightarrow> auth_world \<Rightarrow> account_event \<Rightarrow> bool) \<Rightarrow> handler \<Rightarrow> bool" where
  "steps P h \<longleftrightarrow>
     (\<forall>env d q w. keys_of_users w \<longrightarrow>
        (\<exists>e. account_step env d (accounts_of w) e (accounts_of (snd (h env d q w))) \<and> P env q w e))"

definition idles :: "handler \<Rightarrow> bool" where
  "idles h \<longleftrightarrow>
     (\<forall>env d q w. aw_db (snd (h env d q w)) = aw_db w \<and> aw_next_user (snd (h env d q w)) = aw_next_user w)"

lemma idles_steps: "idles h \<Longrightarrow> (\<And>env q w. P env q w Idle) \<Longrightarrow> steps P h"
  unfolding steps_def idles_def by (metis account_step.idle)

lemma steps_limited:
  assumes "steps (justified cfg r) h"
  shows "steps (justified cfg r) (limited action n k h)"
  unfolding steps_def
proof (intro allI impI)
  fix env d q w assume w: "keys_of_users w"
  obtain x v where l: "userRateLimiter action n k env None q w = (x, v)" by fastforce
  note tables = limiter_transfer(1) [OF l]
  show "\<exists>e. account_step env d (accounts_of w) e (accounts_of (snd (limited action n k h env d q w))) \<and>
      justified cfg r env q w e"
  proof (cases x)
    case None
    have "keys_of_users v" using w tables by (simp add: keys_of_users_def)
    then obtain e where "account_step env d (accounts_of v) e (accounts_of (snd (h env d q v)))" "justified cfg r env q v e"
      using assms unfolding steps_def by blast
    then show ?thesis using None l tables limiter_transfer(2) [OF l] by (auto simp: limited_def)
  next
    case (Some a)
    then show ?thesis using l tables account_step.idle [of env d "accounts_of w"] by (auto simp: limited_def)
  qed
qed

lemma steps_signed_in:
  assumes "\<And>payload. steps (\<lambda>env q w e. requireRole env roles q = Inr payload \<longrightarrow> justified cfg r env q w e) (h payload)"
  shows "steps (justified cfg r) (signed_in roles action n h)"
  unfolding steps_def
proof (intro allI impI)
  fix env d q w assume w: "keys_of_users w"
  show "\<exists>e. account_step env d (accounts_of w) e (accounts_of (snd (signed_in roles action n h env d q w))) \<and>
      justified cfg r env q w e"
  proof (cases "requireRole env roles q")
    case (Inl a)
    then show ?thesis using account_step.idle [of env d "accounts_of w"] by (auto simp: signed_in_def)
  next
    case (Inr payload)
    obtain x v where l: "userRateLimiter action n False env (Some payload) q w = (x, v)" by fastforce
    note tables = limiter_transfer(1) [OF l]
    show ?thesis
    proof (cases x)
      case None
      have "keys_of_users v" using w tables by (simp add: keys_of_users_def)
      then obtain e where "account_step env d (accounts_of v) e (accounts_of (snd (h payload env d q v)))"
        "justified cfg r env q v e"
        using assms [of payload] Inr unfolding steps_def by blast
      then show ?thesis using None l Inr tables limiter_transfer(2) [OF l] by (auto simp: signed_in_def)
    next
      case (Some a)
      then show ?thesis using l Inr tables account_step.idle [of env d "accounts_of w"] by (auto simp: signed_in_def)
    qed
  qed
qed

lemma steps_csrf: "steps (justified cfg r) h \<Longrightarrow> steps (justified cfg r) (csrf_checked h)"
  unfolding steps_def csrf_checked_def
  by (auto split: option.splits) (metis account_step.idle justified_Idle)

subsection \<open>The handlers as steps\<close>

text \<open>Most leave the accounts alone.\<close>

lemma idle_mfa:
  "idles (mfa_setup_route keyuri p)" "idles (mfa_rotate_route p)" "idles (mfa_verify_route p)"
  "idles (mfa_disable_route p)" "idles (mfa_status_route p)"
  by (auto simp: idles_def mfa_setup_route_def mfa_rotate_route_def mfa_verify_route_def mfa_disable_route_def
      mfa_status_route_def Let_def split: option.splits bool.splits)

lemma take_nonce_keeps:
  assumes "take_nonce env v w = (x, w')"
  shows "aw_db w' = aw_db w" "aw_next_user w' = aw_next_user w"
  using assms by (auto simp: take_nonce_def Let_def split: if_splits)

lemma idle_devices:
  "idles (device_register_route p)" "idles (device_list_route p)" "idles (device_trust_route p)"
  "idles (device_remove_route p)" "idles (device_verify_route p)" "idles (sessions_route p)"
proof -
  show "idles (device_verify_route p)"
    by (auto simp: idles_def device_verify_route_def Let_def take_nonce_keeps split: option.splits prod.splits)
qed (auto simp: idles_def device_register_route_def device_list_route_def device_trust_route_def
    device_remove_route_def sessions_route_def Let_def split: option.splits)

lemma idle_admin:
  "idles (policy_route p)" "idles (policy_update_route p)" "idles (key_create_route p)" "idles (key_list_route p)"
  "idles (key_revoke_route p)" "idles atlas_user_route"
  by (auto simp: idles_def policy_route_def policy_update_route_def key_create_route_def key_list_route_def
      key_revoke_route_def atlas_user_route_def Let_def split: option.splits list.splits jwt_answer.splits)

lemma idle_requests: "idles magic_request_route" "idles (reset_request_route f)"
  by (auto simp: idles_def magic_request_route_def reset_request_route_def Let_def split: option.splits)

lemma stepsI:
  assumes "\<And>env d q w a w'. h env d q w = (a, w') \<Longrightarrow> keys_of_users w \<Longrightarrow>
    \<exists>e. account_step env d (accounts_of w) e (accounts_of w') \<and> P env q w e"
  shows "steps P h"
  unfolding steps_def
proof (intro allI impI)
  fix env d q w assume "keys_of_users w"
  then show "\<exists>e. account_step env d (accounts_of w) e (accounts_of (snd (h env d q w))) \<and> P env q w e"
    using assms [of env d q w "fst (h env d q w)" "snd (h env d q w)"] by simp
qed

lemma idle_step: "aw_db w' = aw_db w \<Longrightarrow> aw_next_user w' = aw_next_user w \<Longrightarrow> account_step env d (accounts_of w) Idle (accounts_of w')"
  using account_step.idle [of env d "accounts_of w"] by simp

lemma idle_event:
  assumes "aw_db w' = aw_db w" and "aw_next_user w' = aw_next_user w"
  shows "\<exists>e. account_step env d (accounts_of w) e (accounts_of w') \<and> justified cfg r env q w e"
  using idle_step [OF assms, of env d] justified_Idle by blast

text \<open>Registration.\<close>

lemma steps_register: "steps (justified cfg Register) register_route"
proof (rule stepsI)
  fix env d q w a w' assume h: "register_route env d q w = (a, w')"
  show "\<exists>e. account_step env d (accounts_of w) e (accounts_of w') \<and> justified cfg Register env q w e"
  proof (cases "w' = w")
    case True
    then show ?thesis using idle_event [of w w] by simp
  next
    case False
    then obtain u where u: "aw_db w' = (aw_db w)\<lparr>users := users (aw_db w) @ [u]\<rparr>" "aw_next_user w' = aw_next_user w + 1"
      "u_id u = aw_next_user w" "u_role u = ''employee''" "user_by_email (u_email u) w = None"
      using h unfolding register_route_def Let_def by (auto split: option.splits jsv.splits if_splits)
    have "account_step env d (accounts_of w) Joined (accounts_of w')"
      unfolding u(1,2) using u(3-5) by (intro account_step.join) (auto simp: user_by_email_def find_None_iff)
    then show ?thesis by (auto simp: justified_def)
  qed
qed

text \<open>Logging in.\<close>

lemma next_user_kept:
  "aw_next_user (snd (isAccountLocked now e w)) = aw_next_user w"
  "aw_next_user (clearFailedAttempts e w) = aw_next_user w"
  "aw_next_user (recordFailedAttempt now e w) = aw_next_user w"
  "aw_next_user (snd (device_trust env q u w)) = aw_next_user w"
  "aw_next_user (snd (issueLoginSession env d q u w)) = aw_next_user w"
  by (auto simp: isAccountLocked_def clearFailedAttempts_def recordFailedAttempt_def device_trust_def
      issueLoginSession_def Let_def split: option.splits)

lemma login_next_user:
  assumes "login_route env d q w = (a, w')"
  shows "aw_next_user w' = aw_next_user w"
proof -
  have kept: "aw_next_user (snd (login_accepted u env d q v)) = aw_next_user v" for u v
    unfolding login_accepted_def Let_def
    using next_user_kept(4) [of env q u v] next_user_kept(5)
    by (auto split: prod.splits option.splits if_splits bool.splits) (metis snd_conv)+
  obtain l v where l: "isAccountLocked (ae_now env) (normalizeEmail (body_field q ''email'')) w = (l, v)" by fastforce
  then have v: "aw_next_user v = aw_next_user w" using next_user_kept(1) by (metis snd_conv)
  show ?thesis
    using assms kept v unfolding login_route_def Let_def l
    by (auto simp: next_user_kept split: option.splits if_splits bool.splits) (metis kept next_user_kept(2) snd_conv)+
qed

lemma user_by_email_Some: "user_by_email e w = Some u \<Longrightarrow> u \<in> set (users (aw_db w))"
  by (auto simp: user_by_email_def dest: find_Some_set)

lemma signed_in_step:
  assumes "u \<in> set (users (aw_db w))" and "u_active u" and "aw_next_user w' = aw_next_user w"
    and "aw_db w' = issue_session (ae_now env) (dr_session d) (u_id u) (ae_sha256 env (dr_refresh d)) (aw_db w)"
  shows "account_step env d (accounts_of w) (SignedIn (u_id u)) (accounts_of w')"
  unfolding assms(3,4) by (rule account_step.sign_in [OF assms(1,2)])

lemma steps_login: "steps (justified cfg Login) login_route"
proof (rule stepsI)
  fix env d q w a w' assume h: "login_route env d q w = (a, w')"
  note n = login_next_user [OF h]
  consider (idle) "aw_db w' = aw_db w"
    | (session) u p where "user_by_email (login_email q) w = Some u" "u_active u" "body_field q ''password'' = JStr p"
        "ae_matches env p (u_password u)" "\<not> fst (isAccountLocked (ae_now env) (login_email q) w)"
        "\<not> mfa_required (u_id u) w" "signed_in_as env d u a w w'"
    using login_gives [OF h] by (auto simp: challenged_def nothing_given_def split: if_splits)
  then show "\<exists>e. account_step env d (accounts_of w) e (accounts_of w') \<and> justified cfg Login env q w e"
  proof cases
    case idle
    show ?thesis using idle_event [OF idle n] .
  next
    case session
    have "account_step env d (accounts_of w) (SignedIn (u_id u)) (accounts_of w')"
      using session(7) by (intro signed_in_step [OF user_by_email_Some [OF session(1)] session(2) n]) (simp add: signed_in_as_def)
    moreover have "credential Login env q w (u_id u)" using session by (auto simp: credential_def)
    ultimately show ?thesis by (auto simp: justified_def)
  qed
qed

text \<open>The second factor.\<close>

lemma mfa_validate_next_user:
  assumes "mfa_validate_route env d q w = (a, w')"
  shows "aw_next_user w' = aw_next_user w"
proof (cases "mfa_check env q w")
  case (Pair x v)
  show ?thesis
  proof (cases x)
    case (Inl b)
    then show ?thesis using assms Pair mfa_check_refused [of env q w b v] by (auto simp: mfa_validate_route_def)
  next
    case (Inr c)
    obtain m where "v = w\<lparr>aw_mfa := m\<rparr>" using mfa_check_passed(3) Pair Inr by blast
    then show ?thesis
      using assms Pair Inr
      by (auto simp: mfa_validate_route_def mfa_finish_def issueLoginSession_def split: mfa_claim.splits prod.splits bool.splits)
  qed
qed

lemma steps_mfa_validate: "steps (justified cfg MfaValidate) mfa_validate_route"
proof (rule stepsI)
  fix env d q w a w' assume h: "mfa_validate_route env d q w = (a, w')"
  note n = mfa_validate_next_user [OF h]
  consider (idle) "aw_db w' = aw_db w"
    | (session) jti u where "redeems env q w jti u" "factor_shown env q (u_id u) w w'"
      "aw_db w' = issue_session (ae_now env) (dr_session d) (u_id u) (ae_sha256 env (dr_refresh d)) (aw_db w)"
    using mfa_validate_gives [OF h] by blast
  then show "\<exists>e. account_step env d (accounts_of w) e (accounts_of w') \<and> justified cfg MfaValidate env q w e"
  proof cases
    case idle
    show ?thesis using idle_event [OF idle n] .
  next
    case session
    have u: "u \<in> set (users (aw_db w))" "u_active u" using session(1) user_by_id_Some by (auto simp: redeems_def)
    have "credential MfaValidate env q w (u_id u)" using session(1,2) u(2) unfolding credential_def by blast
    then show ?thesis using signed_in_step [OF u n session(3)] by (auto simp: justified_def)
  qed
qed

text \<open>Magic links.\<close>

lemma steps_magic: "steps (justified cfg MagicVerify) magic_verify_route"
proof (rule stepsI)
  fix env d q w a w' assume h: "magic_verify_route env d q w = (a, w')"
  show "\<exists>e. account_step env d (accounts_of w) e (accounts_of w') \<and> justified cfg MagicVerify env q w e"
  proof (cases "aw_db w' = aw_db w \<and> aw_next_user w' = aw_next_user w")
    case True
    then show ?thesis using idle_event by blast
  next
    case False
    have red: "aw_db (snd (redeem_magic now t w)) = aw_db w" "aw_next_user (snd (redeem_magic now t w)) = aw_next_user w"
      "user_by_id i (snd (redeem_magic now t w)) = user_by_id i w" for now t i
      by (simp_all add: redeem_magic_def Let_def user_by_id_def)
    obtain t r v u where r: "body_field q ''token'' = JStr t" "redeem_magic (ae_now env) (ae_sha256 env t) w = (Some r, v)"
      "user_by_id (mg_user r) v = Some u" "u_active u" "w' = snd (issueLoginSession env d q u v)"
      using h False red unfolding magic_verify_route_def Let_def
      by (auto split: if_splits jsv.splits prod.splits option.splits) (metis fst_conv snd_conv)+
    have sv: "v = snd (redeem_magic (ae_now env) (ae_sha256 env t) w)" using r(2) by simp
    have v: "aw_db v = aw_db w" "aw_next_user v = aw_next_user w" "user_by_id (mg_user r) w = Some u"
      using r(3) sv red by simp_all
    have row: "r \<in> set (aw_magic w) \<and> mg_hash r = ae_sha256 env t \<and> \<not> mg_used r \<and> ae_now env < mg_expires r"
      using r(2) by (auto simp: redeem_magic_def Let_def dest!: find_Some_set)
    have "credential MagicVerify env q w (u_id u)" using r(1,4) v(3) row unfolding credential_def by blast
    moreover have "account_step env d (accounts_of w) (SignedIn (u_id u)) (accounts_of w')"
      using user_by_id_Some [OF v(3)] r(4) v(1,2) unfolding r(5)
      by (intro signed_in_step) (simp_all add: issueLoginSession_def)
    ultimately show ?thesis by (auto simp: justified_def)
  qed
qed

text \<open>Refreshing.\<close>

lemma steps_refresh: "steps (justified cfg Refresh) refresh_route"
proof (rule stepsI)
  fix env d q w a w' assume h: "refresh_route env d q w = (a, w')"
  let ?h = "ae_sha256 env (the (map_get (hq_cookies q) ''refreshToken''))"
  have n: "aw_next_user w' = aw_next_user w"
    using h by (auto simp: refresh_route_def split: if_splits prod.splits rotation_status.splits)
  consider "aw_db w' = aw_db w"
    | "aw_db w' = snd (rotateRefreshToken (ae_now env) (ae_sha256 env (dr_refresh d)) ?h (aw_db w))"
    using h by (auto simp: refresh_route_def split: if_splits prod.splits rotation_status.splits)
  then show "\<exists>e. account_step env d (accounts_of w) e (accounts_of w') \<and> justified cfg Refresh env q w e"
  proof cases
    case 1
    show ?thesis using idle_event [OF 1 n] .
  next
    case 2
    have "account_step env d (accounts_of w) Exchanged (accounts_of w')"
      unfolding n 2 by (rule account_step.exchange)
    then show ?thesis by (auto simp: justified_def)
  qed
qed

text \<open>Turning sessions and tokens off, in any order.\<close>

definition weaker :: "token_db \<Rightarrow> token_db \<Rightarrow> bool" where
  "weaker db db' \<longleftrightarrow> (\<exists>R Q P. db' = drop_rotated R (drop_tokens Q (deactivate P db)))"

lemma weaker_refl: "weaker db db"
  unfolding weaker_def
  by (intro exI [of _ "\<lambda>_. False"]) (simp add: drop_rotated_def drop_tokens_def deactivate_def)

lemma weaker_drop_rotated: "weaker db db' \<Longrightarrow> weaker db (drop_rotated R' db')"
  unfolding weaker_def
proof (elim exE)
  fix R Q P assume "db' = drop_rotated R (drop_tokens Q (deactivate P db))"
  then have "drop_rotated R' db' = drop_rotated (\<lambda>r. R r \<or> R' r) (drop_tokens Q (deactivate P db))"
    by (simp add: drop_rotated_def drop_tokens_def deactivate_def)
  then show "\<exists>R Q P. drop_rotated R' db' = drop_rotated R (drop_tokens Q (deactivate P db))" by blast
qed

lemma weaker_drop_tokens: "weaker db db' \<Longrightarrow> weaker db (drop_tokens Q' db')"
  unfolding weaker_def
proof (elim exE)
  fix R Q P assume "db' = drop_rotated R (drop_tokens Q (deactivate P db))"
  then have "drop_tokens Q' db' = drop_rotated R (drop_tokens (\<lambda>r. Q r \<or> Q' r) (deactivate P db))"
    by (simp add: drop_rotated_def drop_tokens_def deactivate_def)
  then show "\<exists>R Q P. drop_tokens Q' db' = drop_rotated R (drop_tokens Q (deactivate P db))" by blast
qed

lemma weaker_deactivate: "weaker db db' \<Longrightarrow> weaker db (deactivate P' db')"
  unfolding weaker_def
proof (elim exE)
  fix R Q P assume "db' = drop_rotated R (drop_tokens Q (deactivate P db))"
  moreover have "(\<lambda>s. if P' s then s\<lparr>se_active := False\<rparr> else s) \<circ> (\<lambda>s. if P s then s\<lparr>se_active := False\<rparr> else s) =
      (\<lambda>s. if P s \<or> P' s then s\<lparr>se_active := False\<rparr> else s)"
    by (rule ext) simp
  ultimately have "deactivate P' db' = drop_rotated R (drop_tokens Q (deactivate (\<lambda>s. P s \<or> P' s) db))"
    by (simp add: drop_rotated_def drop_tokens_def deactivate_def)
  then show "\<exists>R Q P. deactivate P' db' = drop_rotated R (drop_tokens Q (deactivate P db))" by blast
qed

lemmas weakening = weaker_refl weaker_drop_rotated weaker_drop_tokens weaker_deactivate

lemma weaker_drops:
  "weaker db db' \<Longrightarrow> weaker db (fold (\<lambda>h. drop_rotated (\<lambda>r. ro_hash r = h) \<circ> drop_tokens (\<lambda>r. rf_hash r = h)) hs db')"
  by (induction hs arbitrary: db') (simp_all add: weakening)

lemma weaker_logout: "weaker db (snd (revokeRefreshTokenForLogout h db))"
  by (auto simp: revokeRefreshTokenForLogout_def logout_tx_def revokeOnRotatedTokenReuse_def claim_rotated_def
      revokeAllUserSessions_def intro!: weakening split: option.splits prod.splits)

lemma weaker_revocation: "weaker db (snd (revoke_sessions P db))"
  unfolding revoke_sessions_def Let_def snd_conv by (intro weaker_drops weakening)

lemma turned_off_event:
  assumes "weaker (aw_db w) (aw_db w')" and "aw_next_user w' = aw_next_user w" and "r \<in> {Logout, RevokeSession, RevokeSessions}"
  shows "\<exists>e. account_step env d (accounts_of w) e (accounts_of w') \<and> justified cfg r env q w e"
proof -
  obtain R Q P where "aw_db w' = drop_rotated R (drop_tokens Q (deactivate P (aw_db w)))"
    using assms(1) by (auto simp: weaker_def)
  then have "account_step env d (accounts_of w) TurnedOff (accounts_of w')"
    using account_step.turn_off [of env d "aw_db w" "aw_next_user w" R Q P] assms(2) by simp
  then show ?thesis using assms(3) by (auto simp: justified_def)
qed

lemma steps_logout: "steps (justified cfg Logout) logout_route"
proof (rule stepsI)
  fix env d q w a w' assume h: "logout_route env d q w = (a, w')"
  have "weaker (aw_db w) (aw_db w') \<and> aw_next_user w' = aw_next_user w"
    using h weaker_logout unfolding logout_route_def Let_def
    by (auto intro!: weakening split: if_splits)
  then show "\<exists>e. account_step env d (accounts_of w) e (accounts_of w') \<and> justified cfg Logout env q w e"
    using turned_off_event by blast
qed

lemma steps_revoke: "steps (justified cfg RevokeSession) (revoke_session_route payload)"
proof (rule stepsI)
  fix env d q w a w' assume h: "revoke_session_route payload env d q w = (a, w')"
  have "weaker (aw_db w) (aw_db w') \<and> aw_next_user w' = aw_next_user w"
    using h weaker_revocation weaker_refl unfolding revoke_session_route_def Let_def
    by (auto split: if_splits)
  then show "\<exists>e. account_step env d (accounts_of w) e (accounts_of w') \<and> justified cfg RevokeSession env q w e"
    using turned_off_event by blast
qed

lemma steps_revoke_all: "steps (justified cfg RevokeSessions) (revoke_sessions_route payload)"
proof (rule stepsI)
  fix env d q w a w' assume h: "revoke_sessions_route payload env d q w = (a, w')"
  have "weaker (aw_db w) (aw_db w') \<and> aw_next_user w' = aw_next_user w"
    using h weaker_revocation weaker_refl unfolding revoke_sessions_route_def Let_def
    by (auto intro!: weaker_drop_rotated weaker_drop_tokens weaker_deactivate [OF weaker_refl] split: if_splits)
  then show "\<exists>e. account_step env d (accounts_of w) e (accounts_of w') \<and> justified cfg RevokeSessions env q w e"
    using turned_off_event by blast
qed

text \<open>New passwords.\<close>

lemma password_step:
  assumes "aw_db v = aw_db w" and "aw_next_user v = aw_next_user w"
    and "w' = cleared_account u ((setUserPassword env d hw (u_id u) p v)\<lparr>aw_resets := rs\<rparr>)"
  shows "account_step env d (accounts_of w) (PasswordSet (u_id u)) (accounts_of w')"
proof -
  have "aw_db w' = revokeAllUserSessions (u_id u) ((aw_db w)\<lparr>users := map (\<lambda>x. if u_id x = u_id u
       then x\<lparr>u_password := ae_bcrypt env (dr_salt d) p, u_password_changed_at := Some (ae_now env), u_updated := ae_now env\<rparr>
       else x) (users (aw_db w))\<rparr>)" "aw_next_user w' = aw_next_user w"
    by (simp_all add: assms cleared_account_def setUserPassword_def update_user_def clearFailedAttempts_def Let_def)
  then show ?thesis using account_step.set_password [of env d "aw_db w" "aw_next_user w" "u_id u"] by simp
qed

lemma steps_reset: "steps (justified cfg Reset) reset_route"
proof (rule stepsI)
  fix env d q w a w' assume h: "reset_route env d q w = (a, w')"
  then show "\<exists>e. account_step env d (accounts_of w) e (accounts_of w') \<and> justified cfg Reset env q w e"
  proof (cases rule: reset_cases)
    case refused
    then show ?thesis using idle_event [of w w] by simp
  next
    case (burnt r w1)
    obtain rs where "w' = w\<lparr>aw_resets := rs\<rparr>" using redeem_reset_hit(1) [OF burnt(3)] burnt(4) by blast
    then show ?thesis using idle_event [of w' w] by simp
  next
    case (accepted r u p w1)
    obtain rs where w1: "w1 = w\<lparr>aw_resets := rs\<rparr>" using redeem_reset_hit(1) [OF accepted(2)] by blast
    have "redeemable env (reset_hash env q) w r" using redeem_reset_hit(4) [OF accepted(2)] by (simp add: redeemable_def)
    then have "password_grant Reset env q w (u_id u)" using accepted(3,4) unfolding password_grant_def by blast
    moreover have "account_step env d (accounts_of w) (PasswordSet (u_id u)) (accounts_of w')"
      by (rule password_step [OF _ _ accepted(7)]) (simp_all add: w1)
    ultimately show ?thesis by (auto simp: justified_def)
  qed
qed

lemma steps_admin_reset:
  "steps (\<lambda>env q w e. requireRole env [''admin''] q = Inr payload \<longrightarrow> justified cfg AdminReset env q w e) (admin_reset_route payload)"
proof (rule stepsI)
  fix env d q w a w' assume h: "admin_reset_route payload env d q w = (a, w')"
  show "\<exists>e. account_step env d (accounts_of w) e (accounts_of w') \<and>
    (requireRole env [''admin''] q = Inr payload \<longrightarrow> justified cfg AdminReset env q w e)"
  proof (cases "w' = w")
    case True
    then show ?thesis using idle_event [of w w] by blast
  next
    case False
    then obtain u p rs where "w' = cleared_account u ((setUserPassword env d HistoryStored (u_id u) p w)\<lparr>aw_resets := rs\<rparr>)"
      using h unfolding admin_reset_route_def Let_def by (auto split: option.splits jsv.splits if_splits)
    then have "account_step env d (accounts_of w) (PasswordSet (u_id u)) (accounts_of w')"
      using password_step [of w w] by blast
    then show ?thesis by (auto simp: justified_def password_grant_def)
  qed
qed

text \<open>Provisioning.\<close>

lemma update_by_scim_next: "aw_next_user (snd (update_by_scim base t cs env d q w)) = aw_next_user w"
  by (auto simp: update_by_scim_def update_user_def split: option.splits if_splits)

lemma handler_next:
  "op \<noteq> CreateUser \<Longrightarrow> aw_next_user (snd (scim_handler base op t env d q w)) = aw_next_user w"
  by (cases op) (auto simp: scim_list_route_def scim_get_route_def scim_put_route_def scim_patch_route_def
    scim_delete_route_def update_by_scim_next update_user_def Let_def
    split: option.splits if_splits jsv.splits sum.splits list.splits)

lemma only_create_joins:
  assumes "scim_service cfg op env d q w = (a, w')" and "aw_next_user w' = aw_next_user w + 1"
  shows "op = CreateUser"
proof (rule ccontr)
  assume "op \<noteq> CreateUser"
  obtain action n where "provisioned cfg (scim_verb op) action n (scim_handler (sc_base cfg) op) env d q w = (a, w')"
    using assms(1) scim_service_provisioned [of cfg op] by metis
  then show False
  proof (cases rule: provisioned_cases)
    case refused
    then show ?thesis using assms(2) by simp
  next
    case (served who v)
    then show ?thesis using handler_next [OF \<open>op \<noteq> CreateUser\<close>] assms(2) by (metis add_cancel_right_right snd_conv zero_neq_one)
  qed
qed

lemma steps_scim: "steps (justified cfg (Scim op)) (scim_service (cf_scim cfg) op)"
proof (rule stepsI)
  fix env d q w a w' assume h: "scim_service (cf_scim cfg) op env d q w = (a, w')" and k: "keys_of_users w"
  from scim_service_change [OF _ _ h] k
  consider "aw_db w' = aw_db w" "aw_next_user w' = aw_next_user w"
    | who us where "scim_caller (cf_scim cfg) (scim_verb op) env q w = Inr who" "aw_db w' = (aw_db w)\<lparr>users := us\<rparr>"
        "joins (si_tenant who) (aw_next_user w) (users (aw_db w)) us" "aw_next_user w' = aw_next_user w + 1"
    | who us where "scim_caller (cf_scim cfg) (scim_verb op) env q w = Inr who" "aw_db w' = (aw_db w)\<lparr>users := us\<rparr>"
        "edits (si_tenant who) (users (aw_db w)) us" "aw_next_user w' = aw_next_user w"
    by (auto simp: keys_of_users_def scim_change_def)
  then show "\<exists>e. account_step env d (accounts_of w) e (accounts_of w') \<and> justified cfg (Scim op) env q w e"
  proof cases
    case 1
    show ?thesis using idle_event [OF 1] .
  next
    case 2
    then obtain u where u: "us = users (aw_db w) @ [u]" "u_id u = aw_next_user w" "u_role u = ''employee''"
      "u_email u \<notin> u_email ` set (users (aw_db w))" by (auto simp: joins_def)
    have "op = CreateUser" using only_create_joins [OF h 2(4)] .
    moreover have "account_step env d (accounts_of w) Joined (accounts_of w')"
      using account_step.join [OF u(2-4)] 2 u(1) by simp
    ultimately show ?thesis by (auto simp: justified_def)
  next
    case 3
    have "account_step env d (accounts_of w) (Provisioned (si_tenant who)) (accounts_of w')"
      using account_step.provision [OF 3(3), of env d "aw_next_user w"] 3(2,4) by simp
    then show ?thesis using 3(1) by (auto simp: justified_def)
  qed
qed

subsection \<open>The service as steps\<close>

lemmas route_definitions =
  POST_register_def POST_login_def POST_refresh_def POST_logout_def POST_mfa_setup_def POST_mfa_rotate_def
  POST_mfa_verify_def POST_mfa_validate_def POST_mfa_disable_def GET_mfa_status_def POST_devices_def
  GET_devices_def PUT_device_trust_def DELETE_device_def POST_device_verify_def POST_passwordless_request_def
  POST_passwordless_verify_def POST_password_reset_request_def POST_password_reset_def
  POST_admin_password_reset_def GET_password_policy_def PUT_password_policy_def POST_api_keys_def
  GET_api_keys_def DELETE_api_key_def GET_sessions_def DELETE_session_def DELETE_sessions_def

lemma idle_limited: "idles h \<Longrightarrow> steps (justified cfg r) (limited action n k h)"
  by (intro steps_limited idles_steps) simp_all

lemma idle_signed_in: "(\<And>p. idles (h p)) \<Longrightarrow> steps (justified cfg r) (signed_in roles action n h)"
  by (intro steps_signed_in idles_steps) simp_all

lemma weakened_steps: "steps P h \<Longrightarrow> steps (\<lambda>env q w e. C env q \<longrightarrow> P env q w e) h"
  unfolding steps_def by blast

lemma service_steps: "steps (justified cfg r) (auth_service cfg r)"
  by (cases r)
    (simp_all add: route_definitions idle_limited idle_signed_in idle_mfa idle_devices idle_admin idle_requests
      idles_steps steps_limited steps_csrf steps_signed_in weakened_steps steps_register steps_login steps_refresh
      steps_logout steps_mfa_validate steps_scim steps_magic steps_reset steps_admin_reset steps_revoke steps_revoke_all)

lemma service_step:
  assumes "auth_service cfg r env d q w = (a, w')" and "keys_of_users w"
  obtains e where "account_step env d (accounts_of w) e (accounts_of w')" "justified cfg r env q w e"
  using service_steps [of cfg r] assms unfolding steps_def by (metis snd_conv)

lemma sweeps_keep [simp]:
  "aw_db (sweep_failed now w) = aw_db w" "aw_next_user (sweep_failed now w) = aw_next_user w"
  "aw_db (sweep_counters now w) = aw_db w" "aw_next_user (sweep_counters now w) = aw_next_user w"
  by (simp_all add: sweep_failed_def sweep_counters_def)

lemma accounts_ok_keys: "accounts_ok (accounts_of w) \<Longrightarrow> keys_of_users w"
  by (simp add: accounts_ok_def keys_of_users_def)

subsection \<open>Where the sessions, roles and passwords of a step come from\<close>

lemma session_ids_after:
  assumes "account_step env d s e s'" and "x \<in> set (sessions (fst s'))"
  shows "(\<exists>y \<in> set (sessions (fst s)). se_id y = se_id x \<and> se_user y = se_user x) \<or>
    e = SignedIn (se_user x) \<and> se_id x = dr_session d"
  using assms(1)
proof cases
  case (exchange db n h)
  let ?r = "snd (rotateRefreshToken (ae_now env) (ae_sha256 env (dr_refresh d)) h db)"
  have "map se_id (sessions ?r) = map se_id (sessions db) \<and> map se_user (sessions ?r) = map se_user (sessions db)"
    by (cases rule: exchange_tables [of db "ae_now env" "ae_sha256 env (dr_refresh d)" h])
      (simp_all add: turned_off_tables)
  moreover obtain k where "k < length (sessions ?r)" "sessions ?r ! k = x"
    using assms(2) exchange(3) by (auto simp: in_set_conv_nth)
  ultimately have "k < length (sessions db)" "se_id (sessions db ! k) = se_id x" "se_user (sessions db ! k) = se_user x"
    by (metis length_map nth_map)+
  then show ?thesis using exchange(1) nth_mem by fastforce
qed (use assms(2) in \<open>auto simp: issue_session_def insert_session_def createRefreshToken_def drop_rotated_def
  drop_tokens_def deactivate_def revokeAllUserSessions_def\<close>)

text \<open>A row as it is related to the rows before.\<close>

definition descends :: "user_row list \<Rightarrow> int \<Rightarrow> user_row \<Rightarrow> bool" where
  "descends us n u' \<longleftrightarrow>
     (\<exists>u \<in> set us. u_id u = u_id u' \<and> u_tenant u = u_tenant u' \<and> u_role u' \<in> {u_role u, ''employee''}) \<or>
     u_role u' = ''employee'' \<and> n \<le> u_id u'"

lemma descends_refl: "u \<in> set us \<Longrightarrow> descends us n u"
  unfolding descends_def by blast

lemma descends_trans:
  assumes "descends us' n' u''" and "\<And>u'. u' \<in> set us' \<Longrightarrow> descends us n u'" and "n \<le> n'"
  shows "descends us n u''"
  using assms unfolding descends_def by fastforce

lemma step_descends:
  assumes "account_step env d s e s'" and "u' \<in> set (users (fst s'))"
  shows "descends (users (fst s)) (snd s) u'"
  using assms(1)
proof cases
  case (join u n db)
  then show ?thesis using assms(2) by (auto simp: descends_refl) (simp add: descends_def)
next
  case (exchange db n h)
  have "users (snd (rotateRefreshToken (ae_now env) (ae_sha256 env (dr_refresh d)) h db)) = users db"
    by (cases rule: exchange_tables [of db "ae_now env" "ae_sha256 env (dr_refresh d)" h]) (simp_all add: turned_off_tables)
  then show ?thesis using assms(2) exchange by (simp add: descends_refl)
next
  case (set_password db n i h)
  then obtain u where "u \<in> set (users db)" "u_id u = u_id u'" "u_tenant u = u_tenant u'" "u_role u' = u_role u"
    using assms(2) by (auto simp: revokeAllUserSessions_def drop_tokens_def deactivate_def)
  then show ?thesis using set_password(1) by (auto simp: descends_def)
next
  case (provision t db us n)
  then show ?thesis
    using assms(2) by (auto simp: edits_def descends_refl) (auto simp: descends_def row_kept_def)
qed (use assms(2) in \<open>simp_all add: descends_refl issue_session_def insert_session_def createRefreshToken_def
  turned_off_tables\<close>)

lemma step_next: "account_step env d s e s' \<Longrightarrow> snd s \<le> snd s'"
  by (induction rule: account_step.induct) auto

lemma step_passwords:
  assumes "account_step env d s e s'" and "accounts_ok s"
    and "u \<in> set (users (fst s))" and "u' \<in> set (users (fst s'))" and "u_id u' = u_id u" and "u_password u' \<noteq> u_password u"
  shows "e = PasswordSet (u_id u)"
proof -
  have one: "x = y" if "x \<in> set (users (fst s))" "y \<in> set (users (fst s))" "u_id x = u_id y" for x y
    using assms(2) that eq_key_imp_eq_value [of "map (\<lambda>x. (u_id x, x)) (users (fst s))"]
    by (auto simp: accounts_ok_def comp_def image_iff split: prod.splits)
  from assms(1) show ?thesis
  proof cases
    case (join v n db)
    then have "u_id u < n" using assms(2,3) by (auto simp: accounts_ok_def)
    then show ?thesis using join assms(3-6) one by fastforce
  next
    case (exchange db n h)
    have "users (snd (rotateRefreshToken (ae_now env) (ae_sha256 env (dr_refresh d)) h db)) = users db"
      by (cases rule: exchange_tables [of db "ae_now env" "ae_sha256 env (dr_refresh d)" h]) (simp_all add: turned_off_tables)
    then show ?thesis using exchange assms(3-6) one by fastforce
  next
    case (set_password db n i h)
    then obtain v where "v \<in> set (users db)" "u' = v \<or> u_id v = i \<and> u_id u' = u_id v" "u_id u' = u_id v"
      using assms(4) by (auto simp: revokeAllUserSessions_def drop_tokens_def deactivate_def)
    then show ?thesis using set_password assms(3,5,6) one by fastforce
  next
    case (provision t db us n)
    then obtain v where "v \<in> set (users db)" "u_id v = u_id u'" "u_password u' = u_password v"
      using assms(4) by (auto simp: edits_def row_kept_def)
    then show ?thesis using provision assms(3,5,6) one by fastforce
  qed (use assms(3-6) one in \<open>fastforce simp: issue_session_def insert_session_def createRefreshToken_def turned_off_tables\<close>)+
qed

subsection \<open>A configuration\<close>

definition atlas_config :: service_config where
  "atlas_config = \<lparr>cf_scim = acme_config, cf_frontend = ''https://app'', cf_keyuri = (\<lambda>u s. s)\<rparr>"

lemma start_ok: "accounts_ok (accounts_of svc_world)"
  by (simp add: accounts_ok_def svc_world_def ada_def)

end
