(* ===== verification/Auth_Reach.thy ===== *)
theory Auth_Reach
  imports Gateway Auth_Service
begin

section \<open>From the client to a handler of the auth service\<close>

text \<open>
  A call of \<open>authApi\<close>, \<open>sessionsApi\<close> or \<open>devicesApi\<close> (\<open>frontend/src/lib/api.ts\<close>) has a path under
  \<open>/api/auth\<close>. The gateway takes that prefix off and the auth service looks for a route with what
  is left. \<open>SERVICE_ROUTES\<close> are the lines \<open>app.get\<close>, \<open>app.post\<close>, \<open>app.put\<close>, \<open>app.patch\<close> and
  \<open>app.delete\<close> of \<open>services/auth-service/index.js\<close>, also those whose handlers are not modelled.
\<close>

definition SERVICE_ROUTES :: "(string \<times> string) list" where
  "SERVICE_ROUTES = map route_line [Register, Login, Refresh, Logout, MfaSetup, MfaRotate, MfaVerify,
       MfaValidate, MfaDisable, MfaStatus, AddDevice, ListDevices, TrustDevice, RemoveDevice,
       VerifyDevice, Scim ListUsers, Scim CreateUser, Scim GetUser, Scim PutUser, Scim PatchUser,
       Scim DeleteUser] @
     [(''POST'', ''/saml/acs''), (''GET'', ''/saml/metadata''), (''POST'', ''/saml/login'')] @
     map route_line [MagicRequest, MagicVerify, ResetRequest, Reset, AdminReset, ReadPolicy,
       StorePolicy, IssueKey, ListKeys, RevokeKey, LookUpUser, ListSessions, RevokeSession,
       RevokeSessions] @
     [(''POST'', ''/webauthn/register/begin''), (''POST'', ''/webauthn/register/complete''),
      (''POST'', ''/webauthn/authenticate/begin''), (''POST'', ''/webauthn/authenticate/complete''),
      (''GET'', ''/webauthn/credentials''), (''DELETE'', ''/webauthn/credentials/:id''),
      (''GET'', ''/oauth/providers''), (''POST'', ''/oauth/providers''),
      (''POST'', ''/oauth/login/:provider''), (''POST'', ''/oauth/callback/:provider''),
      (''GET'', ''/oauth/links''), (''DELETE'', ''/oauth/links/:provider''),
      (''GET'', ''/health''), (''GET'', ''/metrics'')]"

text \<open>Express compares the segments regardless of case and ignores a slash at the end.\<close>

fun segments_match :: "string list \<Rightarrow> string list \<Rightarrow> bool" where
  "segments_match [] [] = True"
| "segments_match (p # ps) (s # ss) =
     ((if starts_with p '':'' then s \<noteq> [] else to_lower s = to_lower p) \<and> segments_match ps ss)"
| "segments_match _ _ = False"

definition line_matches :: "string \<Rightarrow> string \<Rightarrow> bool" where
  "line_matches line path =
     (let ws = segments path
      in segments_match (segments line) (if length ws > 2 \<and> last ws = [] then butlast ws else ws))"

definition serving_route :: "string \<Rightarrow> string \<Rightarrow> (string \<times> string) option" where
  "serving_route meth path = find (\<lambda>(m, line). m = meth \<and> line_matches line path) SERVICE_ROUTES"

end
