(* ===== verification/Auth_Federated.thy ===== *)
theory Auth_Federated
  imports Auth_Login
begin

section \<open>The auth service: what the federated sign-ins share\<close>

text \<open>
  SAML, OAuth and WebAuthn keep tables of their own next to the state of the service. A handler
  works on both; here are its middlewares, the accounts it makes on the first sign-in and the
  session it ends with.
\<close>

type_synonym 's fed_handler =
  "auth_env \<Rightarrow> draws \<Rightarrow> auth_http \<Rightarrow> auth_world \<times> 's \<Rightarrow> auth_reply \<times> auth_world \<times> 's"

definition fed_limited :: "string \<Rightarrow> nat \<Rightarrow> bool \<Rightarrow> 's fed_handler \<Rightarrow> 's fed_handler" where
  "fed_limited action maxRequests keyByEmail h env d q s =
     (case userRateLimiter action maxRequests keyByEmail env None q (fst s) of
        (Some a, w') \<Rightarrow> (a, w', snd s)
      | (None, w') \<Rightarrow> h env d q (w', snd s))"

definition fed_signed_in :: "string list \<Rightarrow> string \<Rightarrow> nat \<Rightarrow> (jsv \<Rightarrow> 's fed_handler) \<Rightarrow> 's fed_handler" where
  "fed_signed_in roles action maxRequests h env d q s =
     (case requireRole env roles q of
        Inl a \<Rightarrow> (a, s)
      | Inr payload \<Rightarrow>
          (case userRateLimiter action maxRequests False env (Some payload) q (fst s) of
             (Some a, w') \<Rightarrow> (a, w', snd s)
           | (None, w') \<Rightarrow> h payload env d q (w', snd s)))"

text \<open>The address a request came to, as the templates print it.\<close>

definition request_base :: "string \<Rightarrow> auth_http \<Rightarrow> string" where
  "request_base protocol q =
     protocol @ ''://'' @ (case header_of q ''host'' of Some h \<Rightarrow> h | None \<Rightarrow> ''undefined'')"

definition in_quotes :: "string \<Rightarrow> string" where "in_quotes s = CHR 0x22 # s @ [CHR 0x22]"

text \<open>An \<open>INSERT INTO users\<close> of an account nobody knows the password of; its role is the default.\<close>

definition provision_user ::
  "auth_env \<Rightarrow> draws \<Rightarrow> string \<Rightarrow> string \<Rightarrow> string \<Rightarrow> string \<Rightarrow> (string \<times> string) option \<Rightarrow> auth_world \<Rightarrow> user_row \<times> auth_world"
where
  "provision_user env d temp email name tenant staff w =
     (let u = \<lparr>u_id = aw_next_user w, u_email = email, u_password = ae_bcrypt env (dr_salt d) temp,
            u_name = name, u_role = ''employee'', u_department = map_option fst staff,
            u_position = map_option snd staff, u_tenant = Some tenant, u_enabled = Some True,
            u_password_changed_at = Some (ae_now env), u_created = ae_now env, u_updated = ae_now env\<rparr>
      in (u, w\<lparr>aw_db := (aw_db w)\<lparr>users := users (aw_db w) @ [u]\<rparr>, aw_next_user := aw_next_user w + 1\<rparr>))"

text \<open>The session and the answer at the end of a sign-in.\<close>

definition signed_in_reply ::
  "string \<Rightarrow> (string \<times> jsv) list \<Rightarrow> auth_env \<Rightarrow> draws \<Rightarrow> auth_http \<Rightarrow> user_row \<Rightarrow> auth_world \<Rightarrow> auth_reply \<times> auth_world"
where
  "signed_in_reply m extra env d q u w =
     (case issueLoginSession env d q u w of
        (token, w') \<Rightarrow>
          (with_cookies (session_cookies d)
             (reply 200 (JObj ([(''message'', JStr m), (''token'', JStr token),
                (''session_id'', JStr (dr_session d)), (''user'', sanitizeUser u)] @ extra))), w'))"

subsection \<open>What a sign-in leaves\<close>

lemma failure_simps [simp]: "rp_set (failure st m) = []" "rp_set (reply st b) = []"
  by (simp_all add: failure_def reply_def)

lemma signed_in_reply_status [simp]: "rp_status (fst (signed_in_reply m x env d q u w)) = 200"
  by (simp add: signed_in_reply_def issueLoginSession_def)

definition session_world :: "auth_env \<Rightarrow> draws \<Rightarrow> auth_http \<Rightarrow> user_row \<Rightarrow> auth_world \<Rightarrow> auth_world" where
  "session_world env d q u w =
     w\<lparr>aw_db := issue_session (ae_now env) (dr_session d) (u_id u) (ae_sha256 env (dr_refresh d)) (aw_db w),
       aw_sessions := map_set (dr_session d) (session_columns env q) (aw_sessions w)\<rparr>"

lemma signed_in_reply_world:
  "snd (signed_in_reply m x env d q u w) = session_world env d q u w"
  by (simp add: signed_in_reply_def issueLoginSession_def session_world_def)

text \<open>The account of an address, and the tables, before and after it was looked up or made.\<close>

definition account_for ::
  "auth_env \<Rightarrow> draws \<Rightarrow> string \<Rightarrow> string \<Rightarrow> string \<Rightarrow> auth_world \<Rightarrow> user_row \<Rightarrow> auth_world \<Rightarrow> bool"
where
  "account_for env d email tenant temp w u w1 \<longleftrightarrow>
     user_by_email email w = Some u \<and> w1 = w \<or>
     user_by_email email w = None \<and> u_email u = email \<and> u_tenant u = Some tenant \<and> u_role u = ''employee'' \<and>
       u_id u = aw_next_user w \<and> u_active u \<and> u_password u = ae_bcrypt env (dr_salt d) temp \<and>
       w1 = w\<lparr>aw_db := (aw_db w)\<lparr>users := users (aw_db w) @ [u]\<rparr>, aw_next_user := aw_next_user w + 1\<rparr>"

lemma provision_account:
  assumes "user_by_email email w = None" and "provision_user env d temp email name tenant staff w = (u, w1)"
  shows "account_for env d email tenant temp w u w1"
  using assms by (auto simp: account_for_def provision_user_def Let_def)

subsection \<open>The middlewares\<close>

text \<open>Only the counters of the limiter differ.\<close>

definition counted :: "auth_world \<Rightarrow> auth_world \<Rightarrow> bool" where
  "counted w w' \<longleftrightarrow>
     w' = w\<lparr>aw_shared_counters := aw_shared_counters w', aw_local_counters := aw_local_counters w'\<rparr>"

lemma counted_refl [simp]: "counted w w" by (simp add: counted_def)

lemma limiter_answer:
  "userRateLimiter action n k env usr q w = (x, v) \<Longrightarrow>
     counted w v \<and> (\<forall>a. x = Some a \<longrightarrow> rp_status a = 429 \<and> rp_set a = [])"
  using limiter_keeps [of action n k env usr q w x v]
  by (auto simp: counted_def userRateLimiter_def Let_def too_many_def reply_def split: if_splits prod.splits)

lemma requireRole_refused: "requireRole env roles q = Inl a \<Longrightarrow> rp_status a \<in> {401, 403} \<and> rp_set a = []"
  by (auto simp: requireRole_def split: if_splits option.splits jwt_answer.splits)

lemma fed_limited_cases:
  assumes "fed_limited action n k h env d q s = (a, s')"
  obtains (refused) x where "counted (fst s) x" "s' = (x, snd s)" "rp_status a = 429" "rp_set a = []"
  | (passed) x where "counted (fst s) x" "h env d q (x, snd s) = (a, s')"
  using assms limiter_answer by (fastforce simp: fed_limited_def split: prod.splits option.splits)

lemma fed_signed_in_cases:
  assumes "fed_signed_in roles action n h env d q s = (a, s')"
  obtains (refused) x where "counted (fst s) x" "s' = (x, snd s)" "rp_status a \<in> {401, 403, 429}" "rp_set a = []"
  | (passed) payload x where "requireRole env roles q = Inr payload" "counted (fst s) x" "h payload env d q (x, snd s) = (a, s')"
proof (cases "requireRole env roles q")
  case (Inl b)
  then have "a = b" "s' = s" using assms by (auto simp: fed_signed_in_def)
  then show thesis using refused [of "fst s"] requireRole_refused [OF Inl] by auto
next
  case (Inr payload)
  obtain y w where u: "userRateLimiter action n False env (Some payload) q (fst s) = (y, w)" by fastforce
  show thesis
  proof (cases y)
    case None
    with Inr u assms passed limiter_answer [OF u] show thesis by (auto simp: fed_signed_in_def)
  next
    case (Some b)
    with Inr u assms limiter_answer [OF u] have "counted (fst s) w" "s' = (w, snd s)" "rp_status a = 429" "rp_set a = []"
      by (auto simp: fed_signed_in_def)
    then show thesis using refused by blast
  qed
qed

end
