(* ===== verification/Auth_Saml.thy ===== *)
theory Auth_Saml
  imports Auth_Federated
begin

section \<open>The auth service: single sign-on over SAML\<close>

text \<open>
  \<open>POST /saml/login\<close>, \<open>POST /saml/acs\<close> and \<open>GET /saml/metadata\<close> of \<open>services/auth-service/index.js\<close>.
  A document is a tree of elements with the namespace and the local name of each, as the DOM has
  it; the lookups of the code are functions on it. Parameters, in \<open>saml_env\<close>: the configuration,
  base64, the XML parser, the signature check of \<open>xml-crypto\<close> and \<open>Date\<close>.
\<close>

subsection \<open>Documents\<close>

datatype xml =
    XElem (xml_ns: string) (xml_name: string) (xml_attrs: "(string \<times> string) list") (xml_children: "xml list")
  | XText string

text \<open>In the order of the document, as \<open>getElementsByTagNameNS\<close> finds them.\<close>

fun elements :: "xml \<Rightarrow> xml list" where
  "elements (XText s) = []"
| "elements (XElem ns n as cs) = XElem ns n as cs # concat (map elements cs)"

fun text_content :: "xml \<Rightarrow> string" where
  "text_content (XText s) = s"
| "text_content (XElem ns n as cs) = concat (map text_content cs)"

definition SAML_NS :: string where "SAML_NS = ''urn:oasis:names:tc:SAML:2.0:assertion''"
definition DSIG_NS :: string where "DSIG_NS = ''http://www.w3.org/2000/09/xmldsig#''"

fun has_tag :: "string \<Rightarrow> string \<Rightarrow> xml \<Rightarrow> bool" where
  "has_tag ns n (XElem ns' n' as cs) \<longleftrightarrow> ns' = ns \<and> n' = n"
| "has_tag ns n (XText s) \<longleftrightarrow> False"

definition by_tag :: "string \<Rightarrow> string \<Rightarrow> xml \<Rightarrow> xml list" where
  "by_tag ns n doc = filter (has_tag ns n) (elements doc)"

definition below :: "string \<Rightarrow> string \<Rightarrow> xml \<Rightarrow> xml list" where
  "below ns n e = concat (map (by_tag ns n) (case e of XElem _ _ _ cs \<Rightarrow> cs | XText _ \<Rightarrow> []))"

definition attribute :: "xml \<Rightarrow> string \<Rightarrow> string option" where
  "attribute e k = (case e of XElem _ _ as _ \<Rightarrow> map_of as k | XText _ \<Rightarrow> None)"

record saml_env =
  sv_idp_url :: string
  sv_idp_entity :: string
  sv_cert :: string
  sv_tenant :: string
  sv_protocol :: string \<comment> \<open>\<open>req.protocol\<close>\<close>
  sv_decode :: "jsv \<Rightarrow> string option" \<comment> \<open>\<open>Buffer.from(.., 'base64')\<close> read as UTF-8; \<open>None\<close> when it throws\<close>
  sv_encode :: "string \<Rightarrow> string"
  sv_parse :: "string \<Rightarrow> xml option"
  sv_loads :: "xml \<Rightarrow> bool" \<comment> \<open>\<open>loadSignature\<close> does not throw\<close>
  sv_check :: "xml \<Rightarrow> string \<Rightarrow> string \<Rightarrow> bool option" \<comment> \<open>signature, key and document\<close>
  sv_date :: "string \<Rightarrow> int option"
  sv_temp :: string \<comment> \<open>the password drawn for a new account\<close>
  sv_request :: string \<comment> \<open>the 32 hex digits drawn for a request\<close>

subsection \<open>Login requests\<close>

record saml_row =
  sr_id :: string
  sr_tenant :: string
  sr_expires :: int
  sr_consumed :: "int option"

definition SAML_AUTHN_REQUEST_TTL_MINUTES :: int where "SAML_AUTHN_REQUEST_TTL_MINUTES = 10"

definition request_id_shape :: "string \<Rightarrow> bool" where
  "request_id_shape s \<longleftrightarrow>
     length s = 33 \<and> hd s = CHR ''_'' \<and> list_all (\<lambda>c. is_digit c \<or> c \<in> set ''abcdef'') (tl s)"

definition generateSamlRequestId :: "saml_env \<Rightarrow> string" where
  "generateSamlRequestId se = CHR ''_'' # sv_request se"

definition buildSamlAuthnRequest :: "string \<Rightarrow> string \<Rightarrow> string \<Rightarrow> string \<Rightarrow> string \<Rightarrow> string" where
  "buildSamlAuthnRequest requestId issueInstant entityId acsUrl idpSsoUrl =
     ''<?xml version='' @ in_quotes ''1.0'' @ ''?>'' @ [CHR 0x0A] @
     ''<samlp:AuthnRequest xmlns:samlp='' @ in_quotes ''urn:oasis:names:tc:SAML:2.0:protocol'' @
     '' xmlns:saml='' @ in_quotes SAML_NS @ '' ID='' @ in_quotes requestId @ '' Version='' @ in_quotes ''2.0'' @
     '' IssueInstant='' @ in_quotes issueInstant @ '' Destination='' @ in_quotes idpSsoUrl @
     '' AssertionConsumerServiceURL='' @ in_quotes acsUrl @ '' ProtocolBinding='' @
     in_quotes ''urn:oasis:names:tc:SAML:2.0:bindings:HTTP-POST'' @ ''>'' @ [CHR 0x0A] @
     ''  <saml:Issuer>'' @ entityId @ ''</saml:Issuer>'' @ [CHR 0x0A] @
     ''  <samlp:NameIDPolicy Format='' @ in_quotes ''urn:oasis:names:tc:SAML:1.1:nameid-format:emailAddress'' @
     '' AllowCreate='' @ in_quotes ''true'' @ ''/>'' @ [CHR 0x0A] @ ''</samlp:AuthnRequest>''"

text \<open>The id is the primary key: a second row with it is refused.\<close>

definition recordSamlAuthnRequest :: "int \<Rightarrow> string \<Rightarrow> string \<Rightarrow> saml_row list \<Rightarrow> saml_row list option" where
  "recordSamlAuthnRequest now i tenant rows =
     (if i \<in> sr_id ` set rows then None
      else Some (rows @ [\<lparr>sr_id = i, sr_tenant = tenant,
             sr_expires = now + SAML_AUTHN_REQUEST_TTL_MINUTES * 60 * 1000, sr_consumed = None\<rparr>]))"

definition redeemable_request :: "int \<Rightarrow> string \<Rightarrow> saml_row \<Rightarrow> bool" where
  "redeemable_request now i r \<longleftrightarrow> sr_id r = i \<and> sr_consumed r = None \<and> now < sr_expires r"

definition consumeSamlAuthnRequest :: "int \<Rightarrow> string \<Rightarrow> saml_row list \<Rightarrow> bool \<times> saml_row list" where
  "consumeSamlAuthnRequest now i rows =
     (list_ex (redeemable_request now i) rows,
      map (\<lambda>r. if redeemable_request now i r then r\<lparr>sr_consumed := Some now\<rparr> else r) rows)"

text \<open>The sweep every ten minutes.\<close>

definition sweep_saml :: "int \<Rightarrow> saml_row list \<Rightarrow> saml_row list" where
  "sweep_saml now rows = filter (\<lambda>r. \<not> sr_expires r < now - 60 * 60 * 1000) rows"

definition acs_url :: "saml_env \<Rightarrow> auth_http \<Rightarrow> string" where
  "acs_url se q = request_base (sv_protocol se) q @ ''/saml/acs''"

definition sp_entity :: "saml_env \<Rightarrow> auth_http \<Rightarrow> string" where
  "sp_entity se q = request_base (sv_protocol se) q @ ''/saml/metadata''"

definition saml_login_route :: "saml_env \<Rightarrow> saml_row list fed_handler" where
  "saml_login_route se env d q s =
     (if sv_idp_url se = [] then
        (failure 503 (''SAML is not configured on this server. Set SAML_IDP_SSO_URL to enable SAML authentication.''), s)
      else
        (case recordSamlAuthnRequest (ae_now env) (generateSamlRequestId se) (sv_tenant se) (snd s) of
           None \<Rightarrow> (failure 500 ''SAML login initiation failed'', s)
         | Some rows \<Rightarrow>
             (let encoded = sv_encode se (buildSamlAuthnRequest (generateSamlRequestId se) (ae_iso env (ae_now env))
                    (sp_entity se q) (acs_url se q) (sv_idp_url se))
              in (reply 200 (JObj
                    [(''redirect_url'', JStr (sv_idp_url se @ ''?SAMLRequest='' @ encode_uri_component encoded)),
                     (''saml_request'', JStr encoded), (''entity_id'', JStr (sp_entity se q)),
                     (''acs_url'', JStr (acs_url se q))]), fst s, rows))))"

definition saml_metadata_route :: "saml_env \<Rightarrow> saml_row list fed_handler" where
  "saml_metadata_route se env d q s =
     (reply 200 (JStr
        (''<?xml version='' @ in_quotes ''1.0'' @ ''?>'' @ [CHR 0x0A] @
         ''<EntityDescriptor xmlns='' @ in_quotes ''urn:oasis:names:tc:SAML:2.0:metadata'' @
         '' entityID='' @ in_quotes (sp_entity se q) @ ''>'' @ [CHR 0x0A] @
         ''  <SPSSODescriptor protocolSupportEnumeration='' @
         in_quotes ''urn:oasis:names:tc:SAML:2.0:protocol'' @ ''>'' @ [CHR 0x0A] @
         ''    <NameIDFormat>urn:oasis:names:tc:SAML:1.1:nameid-format:emailAddress</NameIDFormat>'' @ [CHR 0x0A] @
         ''    <AssertionConsumerService Binding='' @ in_quotes ''urn:oasis:names:tc:SAML:2.0:bindings:HTTP-POST'' @
         '' Location='' @ in_quotes (acs_url se q) @ '' index='' @ in_quotes ''0'' @ ''/>'' @ [CHR 0x0A] @
         ''  </SPSSODescriptor>'' @ [CHR 0x0A] @ ''</EntityDescriptor>'')), s)"

subsection \<open>The answer of the identity provider\<close>

text \<open>
  One of the signatures has to check against the configured certificate; \<open>None\<close> when
  \<open>loadSignature\<close> throws, while a check that throws is passed over.
\<close>

fun signature_verified :: "saml_env \<Rightarrow> string \<Rightarrow> xml list \<Rightarrow> bool option" where
  "signature_verified se source [] = Some False"
| "signature_verified se source (n # ns) =
     (if \<not> sv_loads se n then None
      else if sv_check se n (sv_cert se) source = Some True then Some True
      else signature_verified se source ns)"

text \<open>The first of the candidates that is not blank.\<close>

definition extractSamlInResponseTo :: "xml \<Rightarrow> string" where
  "extractSamlInResponseTo doc =
     (let candidates = map (\<lambda>e. attribute e ''InResponseTo'') (doc # by_tag SAML_NS ''SubjectConfirmationData'' doc)
      in case find (\<lambda>x. x \<noteq> []) (map (\<lambda>c. trim (case c of Some x \<Rightarrow> x | None \<Rightarrow> [])) candidates) of
           Some x \<Rightarrow> x | None \<Rightarrow> [])"

text \<open>Comparisons with the date of an attribute; a text that is no date compares to nothing.\<close>

definition date_after :: "saml_env \<Rightarrow> int \<Rightarrow> string option \<Rightarrow> bool" where
  "date_after se now a \<longleftrightarrow>
     \<not> falsy_string a \<and> (case sv_date se (the a) of Some t \<Rightarrow> now < t | None \<Rightarrow> False)"

definition date_passed :: "saml_env \<Rightarrow> int \<Rightarrow> string option \<Rightarrow> bool" where
  "date_passed se now a \<longleftrightarrow>
     \<not> falsy_string a \<and> (case sv_date se (the a) of Some t \<Rightarrow> t \<le> now | None \<Rightarrow> False)"

definition audience_ok :: "saml_env \<Rightarrow> auth_http \<Rightarrow> xml \<Rightarrow> bool" where
  "audience_ok se q doc \<longleftrightarrow>
     by_tag SAML_NS ''Audience'' doc = [] \<or>
     list_ex (\<lambda>a. trim (text_content a) \<in> {sv_idp_entity se, sp_entity se q}) (by_tag SAML_NS ''Audience'' doc)"

definition conditions_refusal :: "saml_env \<Rightarrow> int \<Rightarrow> auth_http \<Rightarrow> xml \<Rightarrow> string option" where
  "conditions_refusal se now q doc =
     (case by_tag SAML_NS ''Conditions'' doc of
        [] \<Rightarrow> None
      | c # _ \<Rightarrow>
          if date_after se now (attribute c ''NotBefore'') then
            Some ''SAML assertion is not yet valid (NotBefore)''
          else if date_passed se now (attribute c ''NotOnOrAfter'') then
            Some ''SAML assertion has expired (NotOnOrAfter)''
          else if \<not> audience_ok se q doc then Some ''SAML audience restriction mismatch''
          else None)"

fun confirmation_refusal :: "saml_env \<Rightarrow> int \<Rightarrow> string \<Rightarrow> xml list \<Rightarrow> string option" where
  "confirmation_refusal se now recipient [] = None"
| "confirmation_refusal se now recipient (e # es) =
     (if \<not> falsy_string (attribute e ''Recipient'') \<and> attribute e ''Recipient'' \<noteq> Some recipient then
        Some ''SAML Recipient mismatch''
      else if date_passed se now (attribute e ''NotOnOrAfter'') then
        Some ''SAML SubjectConfirmation has expired''
      else confirmation_refusal se now recipient es)"

definition destination_refusal :: "saml_env \<Rightarrow> auth_http \<Rightarrow> xml \<Rightarrow> string option" where
  "destination_refusal se q doc =
     (if \<not> falsy_string (attribute doc ''Destination'') \<and> attribute doc ''Destination'' \<noteq> Some (acs_url se q)
      then Some ''SAML Destination mismatch'' else None)"

text \<open>All checks of the document before the request id is redeemed.\<close>

definition response_refusal :: "saml_env \<Rightarrow> int \<Rightarrow> auth_http \<Rightarrow> xml \<Rightarrow> string option" where
  "response_refusal se now q doc =
     (let irt = extractSamlInResponseTo doc
      in if irt = [] then Some ''SAML response is not tied to a login request (InResponseTo missing)''
         else if \<not> request_id_shape irt then Some ''SAML response references an unknown login request''
         else
           (case conditions_refusal se now q doc of
              Some e \<Rightarrow> Some e
            | None \<Rightarrow>
                (case confirmation_refusal se now (acs_url se q) (by_tag SAML_NS ''SubjectConfirmationData'' doc) of
                   Some e \<Rightarrow> Some e
                 | None \<Rightarrow> destination_refusal se q doc)))"

text \<open>The identity: e-mail address, first and last name.\<close>

definition name_id :: "xml \<Rightarrow> string" where
  "name_id doc = (case by_tag SAML_NS ''NameID'' doc of [] \<Rightarrow> [] | e # _ \<Rightarrow> text_content e)"

definition read_attribute :: "xml \<Rightarrow> string \<times> string \<times> string \<Rightarrow> string \<times> string \<times> string" where
  "read_attribute e = (\<lambda>(email, given, family).
     (let value = (case below SAML_NS ''AttributeValue'' e of [] \<Rightarrow> [] | v # _ \<Rightarrow> text_content v);
          n = to_lower (case attribute e ''Name'' of Some x \<Rightarrow> x | None \<Rightarrow> [])
      in if str_includes n ''email'' \<and> email = [] then (value, given, family)
         else if str_includes n ''firstname'' \<or> str_includes n ''givenname'' then (email, value, family)
         else if str_includes n ''lastname'' \<or> str_includes n ''surname'' then (email, given, value)
         else (email, given, family)))"

definition asserted_identity :: "xml \<Rightarrow> string \<times> string \<times> string" where
  "asserted_identity doc = fold read_attribute (by_tag SAML_NS ''Attribute'' doc) (name_id doc, [], [])"

definition asserted_email :: "xml \<Rightarrow> string" where "asserted_email doc = fst (asserted_identity doc)"

definition asserted_name :: "xml \<Rightarrow> string" where
  "asserted_name doc =
     (case asserted_identity doc of
        (email, given, family) \<Rightarrow>
          (let n = trim (given @ '' '' @ family) in if n = [] then email else n))"

text \<open>What follows once the request id is redeemed.\<close>

definition saml_sign_in :: "saml_env \<Rightarrow> xml \<Rightarrow> handler" where
  "saml_sign_in se doc env d q w =
     (let email = normalizeEmail (JStr (asserted_email doc))
      in if asserted_email doc = [] then
           (failure 400 ''Could not extract user identity from SAML response'', w)
         else
           (case validateEmail (JStr email) of
              Some e \<Rightarrow> (failure 400 (''SAML asserted email is invalid: '' @ e), w)
            | None \<Rightarrow>
                (case (case user_by_email email w of
                         Some u \<Rightarrow> (u, w)
                       | None \<Rightarrow>
                           provision_user env d (sv_temp se) email
                             (if asserted_name doc = [] then email else asserted_name doc)
                             (sv_tenant se) (Some (''General'', ''Staff'')) w) of
                   (u, w1) \<Rightarrow>
                     if \<not> u_active u then (failure 403 ''Account is deactivated'', w1)
                     else signed_in_reply ''SAML login successful'' [] env d q u w1)))"

text \<open>The document of a request, when there is one.\<close>

definition response_doc :: "saml_env \<Rightarrow> auth_http \<Rightarrow> (string \<times> xml) option" where
  "response_doc se q =
     Option.bind (sv_decode se (body_field q ''SAMLResponse'')) (\<lambda>source. map_option (Pair source) (sv_parse se source))"

definition saml_redeem :: "saml_env \<Rightarrow> xml \<Rightarrow> saml_row list fed_handler" where
  "saml_redeem se doc env d q s =
     (case consumeSamlAuthnRequest (ae_now env) (extractSamlInResponseTo doc) (snd s) of
        (False, rows) \<Rightarrow> (failure 401 ''SAML response replay or stale login request rejected'', fst s, rows)
      | (True, rows) \<Rightarrow> (case saml_sign_in se doc env d q (fst s) of (a, w) \<Rightarrow> (a, w, rows)))"

definition saml_acs_route :: "saml_env \<Rightarrow> saml_row list fed_handler" where
  "saml_acs_route se env d q s =
     (let response = body_field q ''SAMLResponse''
      in if hq_body q = JUndef then (failure 500 ''SAML ACS processing error'', s)
         else if \<not> truthy response then (failure 400 ''SAMLResponse is required'', s)
         else if trim (sv_cert se) = [] then
           (failure 503 (''SAML is not configured on this server. Set SAML_IDP_CERT to enable SAML authentication.''), s)
         else
           (case response_doc se q of
              None \<Rightarrow> (failure 500 ''SAML ACS processing error'', s)
            | Some (source, doc) \<Rightarrow>
                if by_tag DSIG_NS ''Signature'' doc = [] then (failure 400 ''SAML response is not signed'', s)
                else
                  (case signature_verified se source (by_tag DSIG_NS ''Signature'' doc) of
                     None \<Rightarrow> (failure 500 ''SAML ACS processing error'', s)
                   | Some False \<Rightarrow> (failure 401 ''SAML signature verification failed'', s)
                   | Some True \<Rightarrow>
                       (case response_refusal se (ae_now env) q doc of
                          Some e \<Rightarrow> (failure 401 e, s)
                        | None \<Rightarrow> saml_redeem se doc env d q s))))"

definition POST_saml_acs :: "saml_env \<Rightarrow> saml_row list fed_handler" where
  "POST_saml_acs se = fed_limited ''saml_acs'' 20 False (saml_acs_route se)"
definition POST_saml_login :: "saml_env \<Rightarrow> saml_row list fed_handler" where
  "POST_saml_login se = fed_limited ''saml_login'' 20 False (saml_login_route se)"
definition GET_saml_metadata :: "saml_env \<Rightarrow> saml_row list fed_handler" where
  "GET_saml_metadata se = saml_metadata_route se"

subsection \<open>What a SAML sign-in rests on\<close>

lemma consume_spec:
  "consumeSamlAuthnRequest now i rows = (b, rows') \<Longrightarrow>
    b = (\<exists>r \<in> set rows. redeemable_request now i r) \<and>
    rows' = map (\<lambda>r. if redeemable_request now i r then r\<lparr>sr_consumed := Some now\<rparr> else r) rows"
  by (auto simp: consumeSamlAuthnRequest_def list_ex_iff)

lemma signature_from:
  "signature_verified se source ns = Some True \<Longrightarrow> \<exists>n \<in> set ns. sv_check se n (sv_cert se) source = Some True"
  by (induction ns) (auto split: if_splits)

definition accepted_response :: "saml_env \<Rightarrow> auth_env \<Rightarrow> auth_http \<Rightarrow> xml \<Rightarrow> bool" where
  "accepted_response se env q doc \<longleftrightarrow>
     (\<exists>source n. response_doc se q = Some (source, doc) \<and> n \<in> set (by_tag DSIG_NS ''Signature'' doc) \<and>
        sv_check se n (sv_cert se) source = Some True) \<and>
     response_refusal se (ae_now env) q doc = None"

lemma saml_sign_in_cases:
  assumes "saml_sign_in se doc env d q w = (a, w')"
  obtains (refused) "rp_status a \<noteq> 200" "rp_set a = []" "w' = w"
  | (session) u w1 where "rp_status a = 200" "account_for env d (normalizeEmail (JStr (asserted_email doc)))
      (sv_tenant se) (sv_temp se) w u w1" "u_active u" "w' = session_world env d q u w1"
proof -
  let ?email = "normalizeEmail (JStr (asserted_email doc))"
  let ?found = "case user_by_email ?email w of Some u \<Rightarrow> (u, w)
    | None \<Rightarrow> provision_user env d (sv_temp se) ?email (if asserted_name doc = [] then ?email else asserted_name doc)
        (sv_tenant se) (Some (''General'', ''Staff'')) w"
  obtain u w1 where f: "?found = (u, w1)" by fastforce
  have acc: "account_for env d ?email (sv_tenant se) (sv_temp se) w u w1"
    using f provision_account by (auto simp: account_for_def split: option.splits)
  show thesis
  proof (cases "asserted_email doc = [] \<or> validateEmail (JStr ?email) \<noteq> None")
    case True
    then show thesis using assms refused
      by (auto simp: saml_sign_in_def Let_def failure_def reply_def split: if_splits option.splits)
  next
    case False
    then have step: "(a, w') = (if \<not> u_active u then (failure 403 ''Account is deactivated'', w1)
        else signed_in_reply ''SAML login successful'' [] env d q u w1)"
      using assms by (simp add: saml_sign_in_def Let_def f)
    show thesis
    proof (cases "u_active u")
      case True
      then show thesis using step session acc
        by (metis fst_conv signed_in_reply_status signed_in_reply_world snd_conv)
    next
      case False
      then have "w1 = w" using acc by (auto simp: account_for_def)
      with False step refused show thesis by (simp add: failure_def reply_def)
    qed
  qed
qed

lemma saml_acs_cases:
  assumes "saml_acs_route se env d q (w, rows) = (a, w', rows')"
  obtains (refused) "rp_status a \<noteq> 200" "rp_set a = []" "w' = w"
      "rows' = rows \<or> (\<exists>i. rows' = snd (consumeSamlAuthnRequest (ae_now env) i rows))"
  | (session) doc r u w1 where "rp_status a = 200" "accepted_response se env q doc" "r \<in> set rows"
      "redeemable_request (ae_now env) (extractSamlInResponseTo doc) r"
      "rows' = snd (consumeSamlAuthnRequest (ae_now env) (extractSamlInResponseTo doc) rows)"
      "account_for env d (normalizeEmail (JStr (asserted_email doc))) (sv_tenant se) (sv_temp se) w u w1"
      "u_active u" "w' = session_world env d q u w1"
proof (cases "rp_status a = 200 \<or> w' \<noteq> w \<or> rows' \<noteq> rows")
  case False
  have "rp_set a = []" using False assms
    by (auto simp: saml_acs_route_def saml_redeem_def Let_def failure_def reply_def
        split: if_splits option.splits bool.splits prod.splits elim!: saml_sign_in_cases)
  with False refused show thesis by blast
next
  case True
  then obtain source doc where d: "response_doc se q = Some (source, doc)"
    "signature_verified se source (by_tag DSIG_NS ''Signature'' doc) = Some True"
    "response_refusal se (ae_now env) q doc = None"
    "saml_redeem se doc env d q (w, rows) = (a, w', rows')"
    using assms by (auto simp: saml_acs_route_def Let_def split: if_splits option.splits bool.splits)
  have acc: "accepted_response se env q doc"
    using d(1,2,3) signature_from unfolding accepted_response_def by blast
  obtain b rows2 where b: "consumeSamlAuthnRequest (ae_now env) (extractSamlInResponseTo doc) rows = (b, rows2)" by fastforce
  show thesis
  proof (cases b)
    case False
    with b d(4) have "a = failure 401 ''SAML response replay or stale login request rejected''" "w' = w" "rows' = rows2"
      by (auto simp: saml_redeem_def)
    moreover have "rows' = snd (consumeSamlAuthnRequest (ae_now env) (extractSamlInResponseTo doc) rows)"
      using b calculation(3) by simp
    ultimately show thesis using refused by (auto simp: failure_def reply_def)
  next
    case True
    then obtain r where r: "r \<in> set rows" "redeemable_request (ae_now env) (extractSamlInResponseTo doc) r"
      using consume_spec [OF b] by auto
    have "saml_sign_in se doc env d q w = (a, w')" and rows: "rows' = rows2"
      using d(4) b True by (auto simp: saml_redeem_def split: prod.splits)
    from this(1) show thesis
    proof (cases rule: saml_sign_in_cases)
      case refused
      then show thesis using that(1) rows b by (metis snd_conv)
    next
      case (session u w1)
      then show thesis using that(2) acc r rows b by (metis snd_conv)
    qed
  qed
qed

text \<open>
  Claim C15. What a SAML sign-in rests on. A 200 means that one of the signatures in the document checks
  against the configured certificate, that the document is within its times and meant for this
  service, and that it answers a request stored here, unused and not expired, which is used up by
  it. Then the active account with the asserted address, or a new account of an employee in the
  configured tenant, gets exactly one session. Any other answer gives nothing.
\<close>

theorem saml_contract:
  assumes "saml_acs_route se env d q (w, rows) = (a, w', rows')"
  shows "(rp_status a = 200 \<and>
      (\<exists>doc r u w1. accepted_response se env q doc \<and> r \<in> set rows \<and>
         redeemable_request (ae_now env) (extractSamlInResponseTo doc) r \<and>
         list_all (\<lambda>x. \<not> redeemable_request (ae_now env) (extractSamlInResponseTo doc) x) rows' \<and>
         account_for env d (normalizeEmail (JStr (asserted_email doc))) (sv_tenant se) (sv_temp se) w u w1 \<and>
         u_active u \<and> w' = session_world env d q u w1)) \<or>
    (rp_status a \<noteq> 200 \<and> rp_set a = [] \<and> w' = w)"
  using assms
proof (cases rule: saml_acs_cases)
  case (session doc r u w1)
  have "list_all (\<lambda>x. \<not> redeemable_request (ae_now env) (extractSamlInResponseTo doc) x) rows'"
    unfolding session(5) by (auto simp: consumeSamlAuthnRequest_def list_all_iff redeemable_request_def)
  with session show ?thesis by blast
qed blast

subsection \<open>A response is good once\<close>

definition response_id :: "saml_env \<Rightarrow> auth_http \<Rightarrow> string" where
  "response_id se q = (case response_doc se q of Some (source, doc) \<Rightarrow> extractSamlInResponseTo doc | None \<Rightarrow> [])"

text \<open>
  The requests for the two routes and the sweep, in any order, with the ids issued and the ids of
  the responses answered with 200. What else happens to the state of the service, and what the
  parameters of a request are, is arbitrary; an id drawn is new.
\<close>

inductive saml_run :: "string list \<Rightarrow> string list \<Rightarrow> saml_row list \<Rightarrow> bool" where
  none: "saml_run [] [] []"
| ask: "saml_run issued accepted rows \<Longrightarrow> generateSamlRequestId se \<notin> set issued \<Longrightarrow>
    saml_login_route se env d q (w, rows) = (a, w', rows') \<Longrightarrow>
    saml_run (if rp_status a = 200 then generateSamlRequestId se # issued else issued) accepted rows'"
| answer: "saml_run issued accepted rows \<Longrightarrow> saml_acs_route se env d q (w, rows) = (a, w', rows') \<Longrightarrow>
    saml_run issued (if rp_status a = 200 then response_id se q # accepted else accepted) rows'"
| sweep: "saml_run issued accepted rows \<Longrightarrow> saml_run issued accepted (sweep_saml now rows)"

definition saml_ok :: "string list \<Rightarrow> string list \<Rightarrow> saml_row list \<Rightarrow> bool" where
  "saml_ok issued accepted rows \<longleftrightarrow>
     distinct accepted \<and> set accepted \<subseteq> set issued \<and> sr_id ` set rows \<subseteq> set issued \<and>
     (\<forall>r \<in> set rows. sr_id r \<in> set accepted \<longrightarrow> sr_consumed r \<noteq> None)"

lemma saml_ok_consume:
  assumes "saml_ok issued accepted rows"
  shows "saml_ok issued accepted (snd (consumeSamlAuthnRequest now i rows))"
  using assms by (force simp: saml_ok_def consumeSamlAuthnRequest_def)

lemma same_request:
  "distinct (map sr_id rows) \<Longrightarrow> r \<in> set rows \<Longrightarrow> r0 \<in> set rows \<Longrightarrow> sr_id r = sr_id r0 \<Longrightarrow> r = r0"
  by (induction rows) (auto simp: rev_image_eqI)

lemma consumed_marked:
  assumes "r \<in> set (snd (consumeSamlAuthnRequest now i rows))" and "sr_id r = i"
    and "redeemable_request now i r0" and "r0 \<in> set rows" and "distinct (map sr_id rows)"
  shows "sr_consumed r \<noteq> None"
proof -
  obtain x where x: "x \<in> set rows" "r = (if redeemable_request now i x then x\<lparr>sr_consumed := Some now\<rparr> else x)"
    using assms(1) by (auto simp: consumeSamlAuthnRequest_def)
  then have "sr_id x = i" using assms(2) by (auto split: if_splits)
  then have "x = r0" using same_request [OF assms(5) x(1) assms(4)] assms(3) by (simp add: redeemable_request_def)
  then show ?thesis using x(2) assms(3) by simp
qed

lemma saml_login_rows:
  assumes "saml_login_route se env d q (w, rows) = (a, w', rows')"
  obtains (refused) "w' = w" "rp_status a \<noteq> 200" "rows' = rows" "rp_set a = []"
  | (stored) r where "w' = w" "rp_status a = 200" "rows' = rows @ [r]" "sr_id r = generateSamlRequestId se"
      "sr_consumed r = None" "generateSamlRequestId se \<notin> sr_id ` set rows" "rp_set a = []"
proof (cases "recordSamlAuthnRequest (ae_now env) (generateSamlRequestId se) (sv_tenant se) rows")
  case None
  with assms refused show thesis
    by (auto simp: saml_login_route_def failure_def reply_def split: if_splits)
next
  case (Some rows2)
  then obtain r where r: "rows2 = rows @ [r]" "sr_id r = generateSamlRequestId se" "sr_consumed r = None"
      "generateSamlRequestId se \<notin> sr_id ` set rows"
    by (auto simp: recordSamlAuthnRequest_def split: if_splits)
  show thesis
  proof (cases "sv_idp_url se = []")
    case True
    with assms refused show thesis by (auto simp: saml_login_route_def failure_def reply_def)
  next
    case False
    let ?r = "saml_login_route se env d q (w, rows)"
    have "snd ?r = (w, rows2)" "rp_status (fst ?r) = 200" "rp_set (fst ?r) = []"
      by (simp_all add: saml_login_route_def Let_def reply_def False Some)
    then have "w' = w" "rows' = rows2" "rp_status a = 200" "rp_set a = []" unfolding assms by simp_all
    with stored r show thesis by blast
  qed
qed

lemma saml_run_ids:
  "saml_run issued accepted rows \<Longrightarrow> distinct (map sr_id rows)"
proof (induction rule: saml_run.induct)
  case (ask issued accepted rows se env d q w a w' rows')
  from ask(3,4) show ?case by (cases rule: saml_login_rows) auto
next
  case (answer issued accepted rows se env d q w a w' rows')
  have "map sr_id (snd (consumeSamlAuthnRequest now i rows)) = map sr_id rows" for now i
    by (simp add: consumeSamlAuthnRequest_def comp_def if_distrib cong: if_cong)
  with answer(2,3) show ?case by (cases rule: saml_acs_cases) auto
next
  case (sweep issued accepted rows now)
  then show ?case by (simp add: sweep_saml_def distinct_map_filter)
qed simp

lemma accepted_response_id: "accepted_response se env q doc \<Longrightarrow> response_id se q = extractSamlInResponseTo doc"
  by (auto simp: accepted_response_def response_id_def)

lemma saml_run_ok: "saml_run issued accepted rows \<Longrightarrow> saml_ok issued accepted rows"
proof (induction rule: saml_run.induct)
  case (ask issued accepted rows se env d q w a w' rows')
  from ask(3,2,4) show ?case by (cases rule: saml_login_rows) (auto simp: saml_ok_def)
next
  case (answer issued accepted rows se env d q w a w' rows')
  from answer(2) show ?case
  proof (cases rule: saml_acs_cases)
    case refused
    with answer(3) saml_ok_consume show ?thesis by auto
  next
    case (session doc r u w1)
    let ?i = "extractSamlInResponseTo doc"
    have new: "?i \<notin> set accepted" and issued: "?i \<in> set issued"
      using answer(3) session(3,4) by (auto simp: saml_ok_def redeemable_request_def)
    have "saml_ok issued accepted rows'" unfolding session(5) using answer(3) by (rule saml_ok_consume)
    moreover have "sr_consumed x \<noteq> None" if "x \<in> set rows'" "sr_id x = ?i" for x
      using consumed_marked [OF _ that(2) session(4,3) saml_run_ids [OF answer(1)]] that(1) session(5) by blast
    ultimately show ?thesis
      using session(1) new issued accepted_response_id [OF session(2)] by (auto simp: saml_ok_def)
  qed
next
  case (sweep issued accepted rows now)
  then show ?case by (auto simp: saml_ok_def sweep_saml_def)
qed (simp add: saml_ok_def)

text \<open>
  Claim C14. A SAML response is good once. In any run of the two routes and the sweep, the responses
  answered with 200 answer requests that were issued before, each a different one, so that a
  captured response is refused when it is presented again.
\<close>

theorem saml_response_once:
  assumes "saml_run issued accepted rows"
  shows "distinct accepted \<and> set accepted \<subseteq> set issued"
  using saml_run_ok [OF assms] by (simp add: saml_ok_def)

subsection \<open>The signed part is not the part that is read\<close>

text \<open>An assertion nobody signed, and a document with it in front of everything else.\<close>

definition forged_assertion :: "string \<Rightarrow> xml" where
  "forged_assertion e =
     XElem SAML_NS ''Assertion'' [] [XElem SAML_NS ''Subject'' [] [XElem SAML_NS ''NameID'' [] [XText e]]]"

lemma by_tag_forged:
  "ns = SAML_NS \<and> t \<in> {''Assertion'', ''Subject'', ''NameID''} \<or> by_tag ns t (forged_assertion e) = []"
  "by_tag SAML_NS ''NameID'' (forged_assertion e) = [XElem SAML_NS ''NameID'' [] [XText e]]"
  by (auto simp: by_tag_def forged_assertion_def)

lemma by_tag_root:
  "rns \<noteq> ns \<Longrightarrow> by_tag ns t (XElem rns n as cs) = concat (map (by_tag ns t) cs)"
  by (simp add: by_tag_def [abs_def] filter_concat comp_def)

lemma wrapped_tags:
  assumes "rns \<notin> {SAML_NS, DSIG_NS}"
  shows "t \<notin> {''Assertion'', ''Subject'', ''NameID''} \<Longrightarrow>
      by_tag SAML_NS t (XElem rns n as (forged_assertion e # cs)) = by_tag SAML_NS t (XElem rns n as cs)"
    and "by_tag DSIG_NS t (XElem rns n as (forged_assertion e # cs)) = by_tag DSIG_NS t (XElem rns n as cs)"
    and "name_id (XElem rns n as (forged_assertion e # cs)) = e"
proof -
  have "DSIG_NS \<noteq> SAML_NS" by (simp add: SAML_NS_def DSIG_NS_def)
  then show "by_tag DSIG_NS t (XElem rns n as (forged_assertion e # cs)) = by_tag DSIG_NS t (XElem rns n as cs)"
    using assms by_tag_forged(1) [of DSIG_NS t e] by (simp add: by_tag_root)
  show "name_id (XElem rns n as (forged_assertion e # cs)) = e"
    using assms by (simp add: name_id_def by_tag_root by_tag_forged(2))
  show "by_tag SAML_NS t (XElem rns n as (forged_assertion e # cs)) = by_tag SAML_NS t (XElem rns n as cs)"
    if "t \<notin> {''Assertion'', ''Subject'', ''NameID''}"
    using assms that by_tag_forged(1) [of SAML_NS t e] by (simp add: by_tag_root)
qed

lemma email_kept: "e \<noteq> [] \<Longrightarrow> fst (fold read_attribute as (e, f, l)) = e"
proof (induction as arbitrary: f l)
  case (Cons x xs)
  have "fst (read_attribute x (e, f, l)) = e"
    using Cons.prems by (simp add: read_attribute_def Let_def)
  then obtain f' l' where "read_attribute x (e, f, l) = (e, f', l')" by (metis prod.collapse)
  with Cons show ?case by simp
qed simp

lemma wrapped_reads:
  assumes "rns \<notin> {SAML_NS, DSIG_NS}"
  shows "response_refusal se now q (XElem rns n as (forged_assertion e # cs)) =
      response_refusal se now q (XElem rns n as cs)"
    and "extractSamlInResponseTo (XElem rns n as (forged_assertion e # cs)) =
      extractSamlInResponseTo (XElem rns n as cs)"
    and "e \<noteq> [] \<Longrightarrow> asserted_email (XElem rns n as (forged_assertion e # cs)) = e"
proof -
  note tags = wrapped_tags(1) [OF assms]
  show irt: "extractSamlInResponseTo (XElem rns n as (forged_assertion e # cs)) =
      extractSamlInResponseTo (XElem rns n as cs)"
    by (simp add: extractSamlInResponseTo_def tags attribute_def)
  show "response_refusal se now q (XElem rns n as (forged_assertion e # cs)) =
      response_refusal se now q (XElem rns n as cs)"
  proof -
    have "conditions_refusal se now q (XElem rns n as (forged_assertion e # cs)) =
        conditions_refusal se now q (XElem rns n as cs)"
      by (simp add: conditions_refusal_def audience_ok_def tags)
    moreover have "destination_refusal se q (XElem rns n as (forged_assertion e # cs)) =
        destination_refusal se q (XElem rns n as cs)"
      by (simp add: destination_refusal_def attribute_def)
    ultimately show ?thesis by (simp add: response_refusal_def irt tags Let_def cong: option.case_cong)
  qed
  show "asserted_email (XElem rns n as (forged_assertion e # cs)) = e" if "e \<noteq> []"
    using that by (simp add: asserted_email_def asserted_identity_def wrapped_tags(3) [OF assms] email_kept)
qed

lemma signature_verified_cong:
  "(\<And>n. sv_check se n (sv_cert se) source2 = sv_check se n (sv_cert se) source) \<Longrightarrow>
    signature_verified se source2 ns = signature_verified se source ns"
  by (induction ns) simp_all

lemma saml_acs_200:
  assumes "saml_acs_route se env d q s = (a, s')" and "rp_status a = 200"
  obtains source doc where "response_doc se q = Some (source, doc)" "by_tag DSIG_NS ''Signature'' doc \<noteq> []"
    "signature_verified se source (by_tag DSIG_NS ''Signature'' doc) = Some True"
    "response_refusal se (ae_now env) q doc = None" "trim (sv_cert se) \<noteq> []"
    "fst (consumeSamlAuthnRequest (ae_now env) (extractSamlInResponseTo doc) (snd s))"
  using assms
  by (auto simp: saml_acs_route_def saml_redeem_def Let_def split: if_splits option.splits bool.splits prod.splits)

text \<open>
  The signature covers one part of a response and the address is read from another. Take a
  response that is accepted, and put an unsigned assertion with the address of somebody else in
  front of it; as long as the signature, whose elements are all still there, checks as before,
  the same handler gives its sender a session of that other account.
\<close>

lemma saml_wrapping:
  assumes "saml_acs_route se env d q s = (a, s')" and "rp_status a = 200"
    and "response_doc se q = Some (source, XElem rns n as cs)" and "rns \<notin> {SAML_NS, DSIG_NS}"
    and "response_doc se q2 = Some (source2, XElem rns n as (forged_assertion e # cs))"
    and "\<And>sig. sv_check se sig (sv_cert se) source2 = sv_check se sig (sv_cert se) source"
    and "header_of q2 ''host'' = header_of q ''host''" and "truthy (body_field q2 ''SAMLResponse'')"
    and "e \<noteq> []" and "validateEmail (JStr (normalizeEmail (JStr e))) = None"
    and "user_by_email (normalizeEmail (JStr e)) (fst s) = Some v" and "u_active v"
  shows "rp_status (fst (saml_acs_route se env d q2 s)) = 200 \<and>
    get_field (rp_body (fst (saml_acs_route se env d q2 s))) ''user'' = sanitizeUser v \<and>
    fst (snd (saml_acs_route se env d q2 s)) = session_world env d q2 v (fst s)"
proof -
  let ?doc = "XElem rns n as cs" and ?wrapped = "XElem rns n as (forged_assertion e # cs)"
  have f: "by_tag DSIG_NS ''Signature'' ?doc \<noteq> []"
    "signature_verified se source (by_tag DSIG_NS ''Signature'' ?doc) = Some True"
    "response_refusal se (ae_now env) q ?doc = None" "trim (sv_cert se) \<noteq> []"
    "fst (consumeSamlAuthnRequest (ae_now env) (extractSamlInResponseTo ?doc) (snd s))"
    using saml_acs_200 [OF assms(1,2)] assms(3) by auto
  have host: "acs_url se q2 = acs_url se q" "sp_entity se q2 = sp_entity se q"
    using assms(7) by (simp_all add: acs_url_def sp_entity_def request_base_def)
  have refusal_host: "response_refusal se (ae_now env) q2 ?doc = response_refusal se (ae_now env) q ?doc"
  proof -
    have "conditions_refusal se (ae_now env) q2 ?doc = conditions_refusal se (ae_now env) q ?doc"
      by (simp add: conditions_refusal_def audience_ok_def host)
    moreover have "destination_refusal se q2 ?doc = destination_refusal se q ?doc"
      by (simp add: destination_refusal_def host)
    ultimately show ?thesis by (simp add: response_refusal_def host Let_def cong: option.case_cong)
  qed
  have "response_refusal se (ae_now env) q2 ?wrapped = response_refusal se (ae_now env) q ?doc"
    unfolding wrapped_reads(1) [OF assms(4)] by (rule refusal_host)
  moreover have "signature_verified se source2 (by_tag DSIG_NS ''Signature'' ?wrapped) = Some True"
    unfolding wrapped_tags(2) [OF assms(4)] signature_verified_cong [of se, OF assms(6)] by (rule f(2))
  moreover have "hq_body q2 \<noteq> JUndef" using assms(8) by (auto simp: body_field_def get_field_def)
  moreover obtain rows where "consumeSamlAuthnRequest (ae_now env) (extractSamlInResponseTo ?wrapped) (snd s) = (True, rows)"
    using f(5) unfolding wrapped_reads(2) [OF assms(4)] by (metis prod.collapse)
  moreover have "saml_sign_in se ?wrapped env d q2 (fst s) = signed_in_reply ''SAML login successful'' [] env d q2 v (fst s)"
    using assms(9-12) wrapped_reads(3) [OF assms(4)] by (simp add: saml_sign_in_def Let_def)
  ultimately have "saml_acs_route se env d q2 s =
      (case signed_in_reply ''SAML login successful'' [] env d q2 v (fst s) of (a, w) \<Rightarrow> (a, w, rows))"
    using assms(5,8) f wrapped_tags(2) [OF assms(4)] by (simp add: saml_acs_route_def saml_redeem_def Let_def)
  then show ?thesis
    by (simp add: signed_in_reply_def issueLoginSession_def session_world_def with_cookies_def reply_def)
qed

subsection \<open>A response on which the theorems apply\<close>

definition eve :: user_row where
  "eve = ada\<lparr>u_id := 9, u_email := ''eve@atlas.io'', u_name := ''Eve'', u_role := ''employee''\<rparr>"

definition sso_world :: auth_world where
  "sso_world = svc_world\<lparr>aw_db := (aw_db svc_world)\<lparr>users := [ada, eve]\<rparr>, aw_next_user := 10\<rparr>"

definition request_a :: string where "request_a = CHR ''_'' # replicate 32 (CHR ''a'')"

definition eves_parts :: "xml list" where
  "eves_parts = [XElem DSIG_NS ''Signature'' [] [],
     XElem SAML_NS ''Assertion'' [] [XElem SAML_NS ''NameID'' [] [XText ''eve@atlas.io'']]]"

definition PROTOCOL_NS :: string where "PROTOCOL_NS = ''urn:oasis:names:tc:SAML:2.0:protocol''"

definition eves_response :: xml where
  "eves_response = XElem PROTOCOL_NS ''Response'' [(''InResponseTo'', request_a)] eves_parts"

definition wrapped_response :: xml where
  "wrapped_response = XElem PROTOCOL_NS ''Response'' [(''InResponseTo'', request_a)]
     (forged_assertion ''ada@atlas.io'' # eves_parts)"

definition idp :: saml_env where
  "idp = \<lparr>sv_idp_url = ''https://idp'', sv_idp_entity = ''idp'', sv_cert = ''cert'', sv_tenant = ''default'',
     sv_protocol = ''https'', sv_decode = (\<lambda>v. Some (js_string v)), sv_encode = (\<lambda>s. s),
     sv_parse = (\<lambda>s. Some (if s = ''W'' then wrapped_response else eves_response)), sv_loads = (\<lambda>n. True),
     sv_check = (\<lambda>n cert source. Some True), sv_date = (\<lambda>s. None), sv_temp = ''t'',
     sv_request = replicate 32 (CHR ''a'')\<rparr>"

definition saml_post :: "string \<Rightarrow> auth_http" where
  "saml_post x = \<lparr>hq_body = JObj [(''SAMLResponse'', JStr x)], hq_headers = [(''host'', ''sso'')], hq_cookies = [],
     hq_ip = ''10.0.0.1'', hq_params = [], hq_query = JUndef\<rparr>"

definition asked :: "auth_world \<times> saml_row list" where
  "asked = snd (saml_login_route idp (svc_env 5) some_draws (saml_post ''L'') (sso_world, []))"

abbreviation answered :: "string \<Rightarrow> auth_world \<times> saml_row list \<Rightarrow> auth_reply \<times> auth_world \<times> saml_row list" where
  "answered x s \<equiv> saml_acs_route idp (svc_env 6) some_draws (saml_post x) s"

lemma asked_state: "asked = (sso_world, [\<lparr>sr_id = request_a, sr_tenant = ''default'', sr_expires = 600005, sr_consumed = None\<rparr>])"
  by (simp add: asked_def saml_login_route_def recordSamlAuthnRequest_def idp_def generateSamlRequestId_def
      request_a_def svc_env_def SAML_AUTHN_REQUEST_TTL_MINUTES_def Let_def)

lemma answered_200: "rp_status (fst (answered ''E'' asked)) = 200" "rp_status (fst (answered ''E'' (snd (answered ''E'' asked)))) = 401"
  unfolding asked_state by code_simp+

theorem saml_contract_witness:
  "rp_status (fst (answered ''E'' asked)) = 200 \<and>
   (\<exists>doc u w1. accepted_response idp (svc_env 6) (saml_post ''E'') doc \<and>
      account_for (svc_env 6) some_draws (normalizeEmail (JStr (asserted_email doc))) ''default'' ''t'' sso_world u w1 \<and>
      u_active u \<and> fst (snd (answered ''E'' asked)) = session_world (svc_env 6) some_draws (saml_post ''E'') u w1)"
proof -
  obtain a w' rows' where r: "answered ''E'' asked = (a, w', rows')" by (metis prod.collapse)
  have c: "sv_tenant idp = ''default''" "sv_temp idp = ''t''" by (simp_all add: idp_def)
  show ?thesis
    using saml_contract [OF r [unfolded asked_state]] answered_200(1) unfolding r c fst_conv snd_conv by blast
qed

theorem saml_response_once_witness:
  "saml_run [request_a] [request_a] (snd (snd (answered ''E'' asked))) \<and> distinct [request_a] \<and>
   rp_status (fst (answered ''E'' (snd (answered ''E'' asked)))) = 401"
proof -
  have l: "saml_login_route idp (svc_env 5) some_draws (saml_post ''L'') (sso_world, []) =
      (fst (saml_login_route idp (svc_env 5) some_draws (saml_post ''L'') (sso_world, [])), fst asked, snd asked)"
    by (simp add: asked_def)
  have "generateSamlRequestId idp = request_a" by (simp add: generateSamlRequestId_def idp_def request_a_def)
  moreover have "rp_status (fst (saml_login_route idp (svc_env 5) some_draws (saml_post ''L'') (sso_world, []))) = 200"
    by code_simp
  ultimately have "saml_run [request_a] [] (snd asked)"
    using saml_run.ask [OF saml_run.none _ l] by simp
  moreover have "saml_acs_route idp (svc_env 6) some_draws (saml_post ''E'') (fst asked, snd asked) =
      (fst (answered ''E'' asked), fst (snd (answered ''E'' asked)), snd (snd (answered ''E'' asked)))"
    by simp
  moreover have "response_id idp (saml_post ''E'') = request_a" by code_simp
  ultimately have run: "saml_run [request_a] [request_a] (snd (snd (answered ''E'' asked)))"
    using saml_run.answer [of "[request_a]" "[]" "snd asked" idp "svc_env 6" some_draws "saml_post ''E''" "fst asked"]
      answered_200(1) by (cases "answered ''E'' asked") simp
  show ?thesis using run saml_response_once [OF run] answered_200(2) by blast
qed

lemma saml_wrapping_witness:
  "rp_status (fst (answered ''E'' asked)) = 200 \<and> rp_status (fst (answered ''W'' asked)) = 200 \<and>
   get_field (rp_body (fst (answered ''W'' asked))) ''user'' = sanitizeUser ada"
proof -
  have e: "answered ''E'' asked = (fst (answered ''E'' asked), snd (answered ''E'' asked))" by simp
  have d: "response_doc idp (saml_post ''E'') = Some (''E'', XElem PROTOCOL_NS ''Response'' [(''InResponseTo'', request_a)] eves_parts)"
    "response_doc idp (saml_post ''W'') = Some (''W'', XElem PROTOCOL_NS ''Response'' [(''InResponseTo'', request_a)]
       (forged_assertion ''ada@atlas.io'' # eves_parts))"
    by (simp_all add: response_doc_def idp_def saml_post_def body_field_def eves_response_def wrapped_response_def)
  have ns: "PROTOCOL_NS \<notin> {SAML_NS, DSIG_NS}" by (simp add: PROTOCOL_NS_def SAML_NS_def DSIG_NS_def)
  have "sv_check idp sig (sv_cert idp) ''W'' = sv_check idp sig (sv_cert idp) ''E''" for sig by (simp add: idp_def)
  moreover have "header_of (saml_post ''W'') ''host'' = header_of (saml_post ''E'') ''host''"
    "truthy (body_field (saml_post ''W'') ''SAMLResponse'')" "''ada@atlas.io'' \<noteq> []"
    "validateEmail (JStr (normalizeEmail (JStr ''ada@atlas.io''))) = None"
    "user_by_email (normalizeEmail (JStr ''ada@atlas.io'')) (fst asked) = Some ada" "u_active ada"
    unfolding asked_state by code_simp+
  ultimately show ?thesis
    using saml_wrapping [OF e answered_200(1) d(1) ns d(2)] answered_200(1) by blast
qed

end
