(* ===== verification/Auth_Oidc.thy ===== *)
theory Auth_Oidc
  imports Service_Base
begin

section \<open>The auth service: id tokens of OpenID providers\<close>

text \<open>
  The checks of an \<open>id_token\<close> in \<open>services/auth-service/index.js\<close>: its claims, the discovery document
  and the key set of the provider with their caches, and its signature. Parameters, in \<open>oidc_env\<close>:
  \<open>jwt.decode\<close> and \<open>jwt.verify\<close>, the export of a key to PEM, \<open>new URL\<close>, the clock, and the network,
  which answers each fetch of a run on its own.
\<close>

subsection \<open>Providers\<close>

definition okta_name_char :: "char \<Rightarrow> bool" where
  "okta_name_char c \<longleftrightarrow> is_digit c \<or> c = CHR ''-'' \<or>
     (let n = of_char c :: nat in 97 \<le> n \<and> n \<le> 122 \<or> 65 \<le> n \<and> n \<le> 90)"

definition okta_suffix :: string where "okta_suffix = ''.okta.com''"

text \<open>The name is what is left of the suffix; it has no dot.\<close>

definition resolveOktaBaseUrl :: "string \<Rightarrow> string option" where
  "resolveOktaBaseUrl clientId =
     (let name = takeWhile okta_name_char clientId
      in if name \<noteq> [] \<and> length name \<le> 63 \<and> drop (length name) clientId = okta_suffix
         then Some (''https://'' @ name @ okta_suffix) else None)"

definition ends_with :: "string \<Rightarrow> string \<Rightarrow> bool" where
  "ends_with s e \<longleftrightarrow> length e \<le> length s \<and> drop (length s - length e) s = e"

record oidc_env =
  oe_now :: int
  oe_decode :: "jsv \<Rightarrow> jsv option" \<comment> \<open>\<open>None\<close> when it throws\<close>
  oe_header :: "jsv \<Rightarrow> jsv" \<comment> \<open>\<open>JUndef\<close> when there is none\<close>
  oe_verify :: "jsv \<Rightarrow> string \<Rightarrow> string \<Rightarrow> bool" \<comment> \<open>token, key and algorithm\<close>
  oe_pem :: "jsv \<Rightarrow> jsv \<Rightarrow> string option" \<comment> \<open>modulus and exponent\<close>
  oe_url :: "string \<Rightarrow> (string \<times> string) option" \<comment> \<open>protocol and host name\<close>
  oe_fetch :: "nat \<Rightarrow> string \<Rightarrow> (jsv \<times> string option) option" \<comment> \<open>body and \<open>cache-control\<close> of the nth fetch\<close>

definition issuerMatchesProvider :: "(string \<Rightarrow> (string \<times> string) option) \<Rightarrow> jsv \<Rightarrow> string \<Rightarrow> bool" where
  "issuerMatchesProvider url iss provider =
     (case iss of
        JStr s \<Rightarrow>
          s \<noteq> [] \<and>
          (provider = ''google'' \<and> s = ''accounts.google.com'' \<or>
           (case url s of
              None \<Rightarrow> False
            | Some (protocol, hostname) \<Rightarrow>
                protocol = ''https:'' \<and>
                (let host = to_lower hostname
                 in if provider = ''google'' then host = ''accounts.google.com'' \<or> host = ''oauth2.googleapis.com''
                    else if provider = ''microsoft'' then host = ''login.microsoftonline.com''
                    else provider = ''okta'' \<and> ends_with host okta_suffix)))
      | _ \<Rightarrow> False)"

subsection \<open>The claims\<close>

datatype id_check = Valid | Skipped | Invalid string

definition audiences :: "jsv \<Rightarrow> jsv list" where
  "audiences payload =
     (case get_field payload ''aud'' of JArr vs \<Rightarrow> vs | JUndef \<Rightarrow> [] | v \<Rightarrow> [v])"

text \<open>The claims that are numbers, in milliseconds.\<close>

definition claim_ms :: "jsv \<Rightarrow> string \<Rightarrow> rat option" where
  "claim_ms payload k = (case get_field payload k of JNum q \<Rightarrow> Some (q * 1000) | _ \<Rightarrow> None)"

definition check_audience :: "jsv \<Rightarrow> string \<Rightarrow> id_check" where
  "check_audience payload clientId =
     (if audiences payload = [] then Invalid ''id_token missing aud claim''
      else if JStr clientId \<notin> set (audiences payload) then Invalid ''audience mismatch''
      else if get_field payload ''azp'' \<notin> {JUndef, JStr clientId} then Invalid ''authorized party mismatch''
      else Valid)"

definition check_nonce :: "jsv \<Rightarrow> string option \<Rightarrow> id_check" where
  "check_nonce payload nonce =
     (if falsy_string nonce then Valid
      else if get_field payload ''nonce'' = JUndef then Invalid ''id_token missing nonce claim''
      else if get_field payload ''nonce'' \<noteq> JStr (the nonce) then Invalid ''nonce mismatch''
      else Valid)"

definition check_email :: "jsv \<Rightarrow> string \<Rightarrow> id_check" where
  "check_email payload email =
     (if truthy (get_field payload ''email'') \<and> email \<noteq> [] \<and>
         to_lower (js_string (get_field payload ''email'')) \<noteq> to_lower email
      then Invalid ''email mismatch between id_token and userinfo''
      else if get_field payload ''email_verified'' \<notin> {JUndef, JBool True, JStr ''true''}
      then Invalid ''email_verified false in id_token''
      else Valid)"

definition check_times :: "int \<Rightarrow> jsv \<Rightarrow> id_check" where
  "check_times now payload =
     (case claim_ms payload ''exp'' of
        None \<Rightarrow> Invalid ''id_token missing exp claim''
      | Some expiry \<Rightarrow>
          if expiry \<le> of_int now then Invalid ''id_token expired''
          else if get_field payload ''nbf'' = JUndef then Valid
          else
            (case claim_ms payload ''nbf'' of
               None \<Rightarrow> Invalid ''id_token malformed nbf claim''
             | Some nbf \<Rightarrow> if of_int now < nbf then Invalid ''id_token not yet valid'' else Valid))"

text \<open>The checks run one after another until one fails.\<close>

fun first_failure :: "id_check list \<Rightarrow> id_check" where
  "first_failure [] = Valid"
| "first_failure (Invalid r # cs) = Invalid r"
| "first_failure (_ # cs) = first_failure cs"

definition validateOAuthIdToken ::
  "oidc_env \<Rightarrow> jsv \<Rightarrow> string \<Rightarrow> string \<Rightarrow> string \<Rightarrow> string option \<Rightarrow> id_check"
where
  "validateOAuthIdToken oe idToken provider clientId email nonce =
     (if \<not> truthy idToken then
        (if falsy_string nonce then Skipped else Invalid ''id_token required because a nonce was sent'')
      else if provider = ''github'' then Invalid ''GitHub OAuth2 does not issue id_token''
      else
        (case oe_decode oe idToken of
           None \<Rightarrow> Invalid ''id_token decode failed''
         | Some payload \<Rightarrow>
             if \<not> is_object payload then Invalid ''invalid id_token structure''
             else first_failure
               [check_times (oe_now oe) payload,
                if issuerMatchesProvider (oe_url oe) (get_field payload ''iss'') provider then Valid
                else Invalid (''issuer mismatch: '' @ js_string (js_or (get_field payload ''iss'') (JStr []))),
                check_audience payload clientId, check_nonce payload nonce, check_email payload email]))"

subsection \<open>Discovery and keys\<close>

definition OIDC_DISCOVERY_DEFAULT_TTL_MS :: int where "OIDC_DISCOVERY_DEFAULT_TTL_MS = 60 * 60 * 1000"
definition OIDC_DISCOVERY_MIN_TTL_MS :: int where "OIDC_DISCOVERY_MIN_TTL_MS = 60 * 1000"
definition OIDC_DISCOVERY_MAX_TTL_MS :: int where "OIDC_DISCOVERY_MAX_TTL_MS = 24 * 60 * 60 * 1000"
definition OIDC_SIGNING_ALGORITHMS :: "string list" where
  "OIDC_SIGNING_ALGORITHMS = [''RS256'', ''RS384'', ''RS512'']"

definition oidcDiscoveryUrlFor :: "string \<Rightarrow> string option \<Rightarrow> string option" where
  "oidcDiscoveryUrlFor provider oktaBase =
     (if provider = ''okta'' then map_option (\<lambda>b. b @ ''/.well-known/openid-configuration'') oktaBase
      else if provider = ''google'' then Some ''https://accounts.google.com/.well-known/openid-configuration''
      else if provider = ''microsoft'' then
        Some ''https://login.microsoftonline.com/common/v2.0/.well-known/openid-configuration''
      else None)"

text \<open>The digits of the first \<open>max-age=...\<close>, blanks allowed around the sign.\<close>

definition max_age_at :: "string \<Rightarrow> string option" where
  "max_age_at s =
     (let rest = dropWhile is_ws (drop 7 s); digits = takeWhile is_digit (dropWhile is_ws (tl rest))
      in if to_lower (take 7 s) = ''max-age'' \<and> rest \<noteq> [] \<and> hd rest = CHR ''='' \<and> digits \<noteq> []
         then Some digits else None)"

fun max_age_digits :: "string \<Rightarrow> string option" where
  "max_age_digits [] = None"
| "max_age_digits (c # cs) = (case max_age_at (c # cs) of Some ds \<Rightarrow> Some ds | None \<Rightarrow> max_age_digits cs)"

text \<open>\<open>parseInt\<close> of digits beyond the range of doubles is not finite.\<close>

definition computeCacheTtlMs :: "string option \<Rightarrow> int" where
  "computeCacheTtlMs header =
     (case max_age_digits (case header of Some h \<Rightarrow> h | None \<Rightarrow> []) of
        None \<Rightarrow> OIDC_DISCOVERY_DEFAULT_TTL_MS
      | Some ds \<Rightarrow>
          if (2::nat) ^ 1024 - 2 ^ 970 \<le> digits_val ds then OIDC_DISCOVERY_DEFAULT_TTL_MS
          else min (max (int (digits_val ds) * 1000) OIDC_DISCOVERY_MIN_TTL_MS) OIDC_DISCOVERY_MAX_TTL_MS)"

type_synonym key_map = "(string, string) js_map" \<comment> \<open>\<open>kid\<close> to PEM\<close>

text \<open>The caches, with the time an entry expires, and the number of fetches made.\<close>

record oidc_caches =
  oc_discovery :: "(string, jsv \<times> int) js_map"
  oc_jwks :: "(string, key_map \<times> int) js_map"
  oc_fetches :: nat

definition fetch_json :: "oidc_env \<Rightarrow> string \<Rightarrow> oidc_caches \<Rightarrow> (jsv \<times> string option) option \<times> oidc_caches" where
  "fetch_json oe url c = (oe_fetch oe (oc_fetches c) url, c\<lparr>oc_fetches := oc_fetches c + 1\<rparr>)"

definition cached_value :: "int \<Rightarrow> (string, 'a \<times> int) js_map \<Rightarrow> string \<Rightarrow> 'a option" where
  "cached_value now m key =
     (case map_get m key of Some (x, expires) \<Rightarrow> if now < expires then Some x else None | None \<Rightarrow> None)"

text \<open>\<open>None\<close> where the code throws.\<close>

definition fetchDiscoveryDocument :: "oidc_env \<Rightarrow> string \<Rightarrow> oidc_caches \<Rightarrow> jsv option \<times> oidc_caches" where
  "fetchDiscoveryDocument oe url c =
     (case cached_value (oe_now oe) (oc_discovery c) url of
        Some document \<Rightarrow> (Some document, c)
      | None \<Rightarrow>
          (case fetch_json oe url c of
             (None, c') \<Rightarrow> (None, c')
           | (Some (document, cc), c') \<Rightarrow>
               (case get_field document ''jwks_uri'' of
                  JStr uri \<Rightarrow>
                    if uri = [] then (None, c')
                    else (Some document,
                      c'\<lparr>oc_discovery := map_set url (document, oe_now oe + computeCacheTtlMs cc) (oc_discovery c')\<rparr>)
                | _ \<Rightarrow> (None, c'))))"

definition jwkToPem :: "oidc_env \<Rightarrow> jsv \<Rightarrow> string option" where
  "jwkToPem oe jwk =
     (if get_field jwk ''kty'' = JStr ''RSA'' \<and> truthy (get_field jwk ''n'') \<and> truthy (get_field jwk ''e'')
      then oe_pem oe (get_field jwk ''n'') (get_field jwk ''e'') else None)"

definition usable_jwk :: "jsv \<Rightarrow> bool" where
  "usable_jwk jwk \<longleftrightarrow> get_field jwk ''kty'' = JStr ''RSA'' \<and> truthy (get_field jwk ''kid'') \<and>
     (\<not> truthy (get_field jwk ''use'') \<or> get_field jwk ''use'' = JStr ''sig'')"

definition add_key :: "oidc_env \<Rightarrow> jsv \<Rightarrow> key_map \<Rightarrow> key_map" where
  "add_key oe jwk keys =
     (if \<not> usable_jwk jwk then keys
      else (case jwkToPem oe jwk of
              Some pem \<Rightarrow> map_set (js_string (get_field jwk ''kid'')) pem keys | None \<Rightarrow> keys))"

definition normalizeJwksBundle :: "oidc_env \<Rightarrow> jsv \<Rightarrow> key_map" where
  "normalizeJwksBundle oe document =
     fold (add_key oe) (case get_field document ''keys'' of JArr vs \<Rightarrow> vs | _ \<Rightarrow> []) []"

definition getSigningKeys :: "oidc_env \<Rightarrow> bool \<Rightarrow> string \<Rightarrow> oidc_caches \<Rightarrow> key_map option \<times> oidc_caches" where
  "getSigningKeys oe force uri c =
     (case if force then None else cached_value (oe_now oe) (oc_jwks c) uri of
        Some keys \<Rightarrow> (Some keys, c)
      | None \<Rightarrow>
          (case fetch_json oe uri c of
             (None, c') \<Rightarrow> (None, c')
           | (Some (document, cc), c') \<Rightarrow>
               (let keys = normalizeJwksBundle oe document
                in if keys = [] then (None, c')
                   else (Some keys,
                     c'\<lparr>oc_jwks := map_set uri (keys, oe_now oe + computeCacheTtlMs cc) (oc_jwks c')\<rparr>))))"

datatype signature_check = Signed | Unsigned string | UnknownKey

definition verifyIdTokenSignature :: "oidc_env \<Rightarrow> jsv \<Rightarrow> key_map \<Rightarrow> signature_check" where
  "verifyIdTokenSignature oe idToken keys =
     (let header = oe_header oe idToken; alg = get_field header ''alg''; kid = get_field header ''kid''
      in if \<not> truthy header then Unsigned ''id_token header decode failed''
         else if alg \<notin> JStr ` set OIDC_SIGNING_ALGORITHMS then Unsigned ''unsupported id_token signature algorithm''
         else if \<not> truthy kid then Unsigned ''id_token missing kid header''
         else
           (case map_get keys (js_string kid) of
              None \<Rightarrow> UnknownKey
            | Some pem \<Rightarrow>
                if oe_verify oe idToken pem (js_string alg) then Signed
                else Unsigned ''id_token signature verification failed''))"

definition verifyOAuthIdTokenSignature ::
  "oidc_env \<Rightarrow> jsv \<Rightarrow> string \<Rightarrow> oidc_caches \<Rightarrow> signature_check option \<times> oidc_caches"
where
  "verifyOAuthIdTokenSignature oe idToken uri c =
     (case getSigningKeys oe False uri c of
        (None, c1) \<Rightarrow> (None, c1)
      | (Some keys, c1) \<Rightarrow>
          (case verifyIdTokenSignature oe idToken keys of
             UnknownKey \<Rightarrow>
               (case getSigningKeys oe True uri c1 of
                  (None, c2) \<Rightarrow> (None, c2)
                | (Some keys', c2) \<Rightarrow> (Some (verifyIdTokenSignature oe idToken keys'), c2))
           | r \<Rightarrow> (Some r, c1)))"

text \<open>The whole check: \<open>options\<close> holds the nonce only, as in the callback.\<close>

definition unverified :: id_check where
  "unverified = Invalid ''id_token signature could not be verified against provider JWKS''"

definition verifyOAuthIdToken ::
  "oidc_env \<Rightarrow> jsv \<Rightarrow> string \<Rightarrow> string \<Rightarrow> string \<Rightarrow> string option \<Rightarrow> oidc_caches \<Rightarrow> id_check \<times> oidc_caches"
where
  "verifyOAuthIdToken oe idToken provider clientId email nonce c =
     (case validateOAuthIdToken oe idToken provider clientId email nonce of
        Valid \<Rightarrow>
          (case oidcDiscoveryUrlFor provider (if provider = ''okta'' then resolveOktaBaseUrl clientId else None) of
             None \<Rightarrow> (Invalid ''no discovery document configured for provider'', c)
           | Some url \<Rightarrow>
               (case fetchDiscoveryDocument oe url c of
                  (None, c1) \<Rightarrow> (unverified, c1)
                | (Some document, c1) \<Rightarrow>
                    (case verifyOAuthIdTokenSignature oe idToken (js_string (get_field document ''jwks_uri'')) c1 of
                       (None, c2) \<Rightarrow> (unverified, c2)
                     | (Some Signed, c2) \<Rightarrow> (Valid, c2)
                     | (Some (Unsigned r), c2) \<Rightarrow> (Invalid r, c2)
                     | (Some UnknownKey, c2) \<Rightarrow> (Invalid ''signing key not found for kid'', c2))))
      | r \<Rightarrow> (r, c))"

subsection \<open>What the checks establish\<close>

lemma first_failure_Valid:
  "first_failure cs \<noteq> Skipped" "first_failure cs = Valid \<longleftrightarrow> (\<forall>c \<in> set cs. c = Valid \<or> c = Skipped)"
  by (induction cs rule: first_failure.induct) auto

text \<open>The claims of an accepted token.\<close>

definition claims_ok :: "oidc_env \<Rightarrow> string \<Rightarrow> string \<Rightarrow> string option \<Rightarrow> jsv \<Rightarrow> bool" where
  "claims_ok oe provider clientId nonce payload \<longleftrightarrow>
     (\<exists>t. claim_ms payload ''exp'' = Some t \<and> of_int (oe_now oe) < t) \<and>
     issuerMatchesProvider (oe_url oe) (get_field payload ''iss'') provider \<and>
     JStr clientId \<in> set (audiences payload) \<and>
     (falsy_string nonce \<or> get_field payload ''nonce'' = JStr (the nonce)) \<and>
     get_field payload ''email_verified'' \<in> {JUndef, JBool True, JStr ''true''}"

lemma check_results:
  "check_times now p \<noteq> Skipped" "check_audience p cid \<noteq> Skipped" "check_nonce p n \<noteq> Skipped"
  "check_email p e \<noteq> Skipped"
  by (auto simp: check_times_def check_audience_def check_nonce_def check_email_def split: option.splits)

lemma validate_Valid:
  assumes "validateOAuthIdToken oe tok provider cid email nonce = Valid"
  shows "truthy tok \<and> (\<exists>payload. oe_decode oe tok = Some payload \<and> claims_ok oe provider cid nonce payload)"
proof -
  obtain payload where p: "truthy tok" "oe_decode oe tok = Some payload"
    "check_times (oe_now oe) payload = Valid" "issuerMatchesProvider (oe_url oe) (get_field payload ''iss'') provider"
    "check_audience payload cid = Valid" "check_nonce payload nonce = Valid" "check_email payload email = Valid"
    using assms check_results
    by (auto simp: validateOAuthIdToken_def first_failure_Valid split: if_splits option.splits)
  moreover have "\<exists>t. claim_ms payload ''exp'' = Some t \<and> of_int (oe_now oe) < t"
    using p(3) by (auto simp: check_times_def split: option.splits if_splits)
  moreover have "JStr cid \<in> set (audiences payload)"
    using p(5) by (auto simp: check_audience_def split: if_splits)
  moreover have "falsy_string nonce \<or> get_field payload ''nonce'' = JStr (the nonce)"
    using p(6) by (auto simp: check_nonce_def split: if_splits)
  moreover have "get_field payload ''email_verified'' \<in> {JUndef, JBool True, JStr ''true''}"
    using p(7) by (auto simp: check_email_def split: if_splits)
  ultimately show ?thesis unfolding claims_ok_def by blast
qed

lemma validate_Skipped:
  "validateOAuthIdToken oe tok provider cid email nonce = Skipped \<longleftrightarrow> \<not> truthy tok \<and> falsy_string nonce"
  by (auto simp: validateOAuthIdToken_def first_failure_Valid split: option.splits)

lemma ttl_bounds:
  "OIDC_DISCOVERY_MIN_TTL_MS \<le> computeCacheTtlMs h \<and> computeCacheTtlMs h \<le> OIDC_DISCOVERY_MAX_TTL_MS"
  by (auto simp: computeCacheTtlMs_def OIDC_DISCOVERY_MIN_TTL_MS_def OIDC_DISCOVERY_MAX_TTL_MS_def
      OIDC_DISCOVERY_DEFAULT_TTL_MS_def split: option.splits)

lemma ttl_positive: "0 < computeCacheTtlMs h"
  using ttl_bounds [of h] by (simp add: OIDC_DISCOVERY_MIN_TTL_MS_def)

lemma cached_value_set [simp]: "cached_value now (map_set k (x, now + computeCacheTtlMs h) m) k = Some x"
  by (simp add: cached_value_def ttl_positive)

lemma discovery_found:
  assumes "fetchDiscoveryDocument oe url c = (Some document, c')"
  shows "cached_value (oe_now oe) (oc_discovery c') url = Some document \<and> oc_jwks c' = oc_jwks c"
  using assms by (auto simp: fetchDiscoveryDocument_def fetch_json_def split: option.splits jsv.splits if_splits)

lemma keys_found:
  assumes "getSigningKeys oe force uri c = (Some keys, c')"
  shows "cached_value (oe_now oe) (oc_jwks c') uri = Some keys \<and> oc_discovery c' = oc_discovery c"
  using assms by (auto simp: getSigningKeys_def fetch_json_def Let_def split: option.splits if_splits)

lemma signature_found:
  assumes "verifyOAuthIdTokenSignature oe tok uri c = (Some Signed, c')"
  shows "\<exists>keys. cached_value (oe_now oe) (oc_jwks c') uri = Some keys \<and> verifyIdTokenSignature oe tok keys = Signed \<and>
    oc_discovery c' = oc_discovery c"
proof -
  obtain keys c1 where k: "getSigningKeys oe False uri c = (Some keys, c1)"
    using assms by (auto simp: verifyOAuthIdTokenSignature_def split: prod.splits option.splits)
  show ?thesis
  proof (cases "verifyIdTokenSignature oe tok keys = UnknownKey")
    case True
    then obtain keys' where "getSigningKeys oe True uri c1 = (Some keys', c')" "verifyIdTokenSignature oe tok keys' = Signed"
      using assms k by (auto simp: verifyOAuthIdTokenSignature_def split: prod.splits option.splits)
    with keys_found [OF k] keys_found show ?thesis by metis
  next
    case False
    then have "verifyIdTokenSignature oe tok keys = Signed" "c' = c1"
      using assms k by (auto simp: verifyOAuthIdTokenSignature_def split: signature_check.splits)
    with keys_found [OF k] show ?thesis by blast
  qed
qed

lemma signed_by:
  assumes "verifyIdTokenSignature oe tok keys = Signed"
  obtains alg kid pem where "alg \<in> set OIDC_SIGNING_ALGORITHMS" "map_get keys kid = Some pem" "oe_verify oe tok pem alg"
  using assms that by (auto simp: verifyIdTokenSignature_def Let_def split: if_splits option.splits)

text \<open>What stands behind a token that was not rejected.\<close>

definition trusted_token ::
  "oidc_env \<Rightarrow> jsv \<Rightarrow> string \<Rightarrow> string \<Rightarrow> string option \<Rightarrow> oidc_caches \<Rightarrow> bool"
where
  "trusted_token oe tok provider clientId nonce c \<longleftrightarrow>
     (\<exists>payload url document keys alg kid pem.
        oe_decode oe tok = Some payload \<and> claims_ok oe provider clientId nonce payload \<and>
        oidcDiscoveryUrlFor provider (if provider = ''okta'' then resolveOktaBaseUrl clientId else None) = Some url \<and>
        cached_value (oe_now oe) (oc_discovery c) url = Some document \<and>
        cached_value (oe_now oe) (oc_jwks c) (js_string (get_field document ''jwks_uri'')) = Some keys \<and>
        map_get keys kid = Some pem \<and> alg \<in> set OIDC_SIGNING_ALGORITHMS \<and> oe_verify oe tok pem alg)"

lemma token_cases:
  assumes "verifyOAuthIdToken oe tok provider cid email nonce c = (r, c')"
  shows "r = Skipped \<and> \<not> truthy tok \<and> falsy_string nonce \<and> c' = c \<or>
    r = Valid \<and> truthy tok \<and> trusted_token oe tok provider cid nonce c' \<or> (\<exists>x. r = Invalid x)"
proof (cases "validateOAuthIdToken oe tok provider cid email nonce")
  case Valid
  note v = Valid
  show ?thesis
  proof (cases r)
    case r: Valid
    obtain url document c1 where d:
      "oidcDiscoveryUrlFor provider (if provider = ''okta'' then resolveOktaBaseUrl cid else None) = Some url"
      "fetchDiscoveryDocument oe url c = (Some document, c1)"
      "verifyOAuthIdTokenSignature oe tok (js_string (get_field document ''jwks_uri'')) c1 = (Some Signed, c')"
      using assms v r unfolding verifyOAuthIdToken_def
      by (auto simp: unverified_def split: option.splits prod.splits signature_check.splits)
    obtain keys where k: "cached_value (oe_now oe) (oc_jwks c') (js_string (get_field document ''jwks_uri'')) = Some keys"
      "verifyIdTokenSignature oe tok keys = Signed" "oc_discovery c' = oc_discovery c1"
      using signature_found [OF d(3)] by blast
    have l: "cached_value (oe_now oe) (oc_discovery c') url = Some document" using discovery_found [OF d(2)] k(3) by simp
    obtain alg kid pem where s: "alg \<in> set OIDC_SIGNING_ALGORITHMS" "map_get keys kid = Some pem" "oe_verify oe tok pem alg"
      using signed_by [OF k(2)] .
    obtain payload where p: "truthy tok" "oe_decode oe tok = Some payload" "claims_ok oe provider cid nonce payload"
      using validate_Valid [OF v] by blast
    show ?thesis using r p(1) unfolding trusted_token_def using p d(1) l k(1) s by blast
  next
    case Skipped
    then show ?thesis using assms v
      by (auto simp: verifyOAuthIdToken_def unverified_def split: option.splits prod.splits signature_check.splits)
  qed blast
next
  case Skipped
  then show ?thesis using assms validate_Skipped by (fastforce simp: verifyOAuthIdToken_def)
next
  case (Invalid x)
  then have "r = Invalid x" using assms by (simp add: verifyOAuthIdToken_def)
  then show ?thesis by blast
qed

subsection \<open>Rotation of keys and the caches\<close>

text \<open>The header names the key and the algorithm.\<close>

definition signed_with :: "oidc_env \<Rightarrow> jsv \<Rightarrow> string \<Rightarrow> string \<Rightarrow> bool" where
  "signed_with oe tok kid alg \<longleftrightarrow>
     truthy (oe_header oe tok) \<and> get_field (oe_header oe tok) ''alg'' = JStr alg \<and> alg \<in> set OIDC_SIGNING_ALGORITHMS \<and>
     truthy (get_field (oe_header oe tok) ''kid'') \<and> js_string (get_field (oe_header oe tok) ''kid'') = kid"

lemma verify_signed_with:
  "signed_with oe tok kid alg \<Longrightarrow> verifyIdTokenSignature oe tok keys =
     (case map_get keys kid of None \<Rightarrow> UnknownKey
      | Some pem \<Rightarrow> if oe_verify oe tok pem alg then Signed else Unsigned ''id_token signature verification failed'')"
  by (auto simp: signed_with_def verifyIdTokenSignature_def Let_def split: option.splits)

text \<open>
  A key the provider has just rotated in is accepted although the key set in the cache is
  still live and does not hold it: the set is fetched once more, the token accepted, and the new
  set cached, so that the next token with that key takes no fetch.
\<close>

lemma rotated_key_accepted:
  assumes "validateOAuthIdToken oe tok provider cid email nonce = Valid"
    and "oidcDiscoveryUrlFor provider (if provider = ''okta'' then resolveOktaBaseUrl cid else None) = Some url"
    and "cached_value (oe_now oe) (oc_discovery c) url = Some document" and "js_string (get_field document ''jwks_uri'') = uri"
    and "cached_value (oe_now oe) (oc_jwks c) uri = Some old" and "map_get old kid = None"
    and "signed_with oe tok kid alg"
    and "oe_fetch oe (oc_fetches c) uri = Some (bundle, cc)"
    and "map_get (normalizeJwksBundle oe bundle) kid = Some pem" and "oe_verify oe tok pem alg"
  shows "verifyOAuthIdToken oe tok provider cid email nonce c =
      (Valid, c\<lparr>oc_jwks := map_set uri (normalizeJwksBundle oe bundle, oe_now oe + computeCacheTtlMs cc) (oc_jwks c),
         oc_fetches := oc_fetches c + 1\<rparr>) \<and>
    oc_fetches (snd (verifyOAuthIdToken oe tok provider cid email nonce
      (snd (verifyOAuthIdToken oe tok provider cid email nonce c)))) = oc_fetches c + 1"
proof -
  let ?keys = "normalizeJwksBundle oe bundle"
  let ?c = "c\<lparr>oc_jwks := map_set uri (?keys, oe_now oe + computeCacheTtlMs cc) (oc_jwks c), oc_fetches := oc_fetches c + 1\<rparr>"
  have some: "?keys \<noteq> []" using assms(9) by auto
  have "getSigningKeys oe False uri c = (Some old, c)" using assms(5) by (simp add: getSigningKeys_def)
  moreover have "getSigningKeys oe True uri c = (Some ?keys, ?c)"
    using assms(8) some by (simp add: getSigningKeys_def fetch_json_def Let_def)
  ultimately have "verifyOAuthIdTokenSignature oe tok uri c = (Some Signed, ?c)"
    using assms(6,9,10) by (simp add: verifyOAuthIdTokenSignature_def verify_signed_with [OF assms(7)])
  then have first: "verifyOAuthIdToken oe tok provider cid email nonce c = (Valid, ?c)"
    using assms(1-4) by (simp add: verifyOAuthIdToken_def fetchDiscoveryDocument_def)
  have "getSigningKeys oe False uri ?c = (Some ?keys, ?c)" by (simp add: getSigningKeys_def)
  then have "verifyOAuthIdTokenSignature oe tok uri ?c = (Some Signed, ?c)"
    using assms(9,10) by (simp add: verifyOAuthIdTokenSignature_def verify_signed_with [OF assms(7)])
  then have "verifyOAuthIdToken oe tok provider cid email nonce ?c = (Valid, ?c)"
    using assms(1-4) by (simp add: verifyOAuthIdToken_def fetchDiscoveryDocument_def)
  with first show ?thesis by simp
qed

text \<open>No entry of a cache lives longer than a day.\<close>

definition caches_fresh :: "int \<Rightarrow> oidc_caches \<Rightarrow> bool" where
  "caches_fresh now c \<longleftrightarrow>
     list_all (\<lambda>(k, x, t). t \<le> now + OIDC_DISCOVERY_MAX_TTL_MS) (oc_discovery c) \<and>
     list_all (\<lambda>(k, x, t). t \<le> now + OIDC_DISCOVERY_MAX_TTL_MS) (oc_jwks c)"

lemma list_all_map_set:
  "list_all P m \<Longrightarrow> P (k, v) \<Longrightarrow> list_all P (map_set k v m)"
  by (induction m) auto

lemma discovery_fresh:
  assumes "caches_fresh (oe_now oe) c" and "fetchDiscoveryDocument oe url c = (r, c')"
  shows "caches_fresh (oe_now oe) c' \<and> oc_fetches c' \<le> oc_fetches c + 1"
  using assms ttl_bounds
  by (auto simp: fetchDiscoveryDocument_def fetch_json_def caches_fresh_def list_all_map_set
      split: option.splits jsv.splits if_splits)

lemma keys_fresh:
  assumes "caches_fresh (oe_now oe) c" and "getSigningKeys oe force uri c = (r, c')"
  shows "caches_fresh (oe_now oe) c' \<and> oc_fetches c' \<le> oc_fetches c + 1"
  using assms ttl_bounds
  by (auto simp: getSigningKeys_def fetch_json_def caches_fresh_def list_all_map_set Let_def
      split: option.splits if_splits)

lemma signature_fresh:
  assumes "caches_fresh (oe_now oe) c" and "verifyOAuthIdTokenSignature oe tok uri c = (r, c')"
  shows "caches_fresh (oe_now oe) c' \<and> oc_fetches c' \<le> oc_fetches c + 2"
proof -
  obtain k c1 where k: "getSigningKeys oe False uri c = (k, c1)" by fastforce
  obtain k' c2 where k': "getSigningKeys oe True uri c1 = (k', c2)" by fastforce
  have "c' = c1 \<or> c' = c2"
    using assms(2) k k' by (auto simp: verifyOAuthIdTokenSignature_def split: option.splits signature_check.splits)
  with keys_fresh [OF assms(1) k] keys_fresh [OF _ k'] show ?thesis by fastforce
qed

text \<open>
  A verification makes at most three fetches, whatever the provider answers, and leaves no
  entry in a cache that lives longer than a day; a token that is not checked makes none.
\<close>

lemma verification_bounded:
  assumes "verifyOAuthIdToken oe tok provider cid email nonce c = (r, c')" and "caches_fresh (oe_now oe) c"
  shows "oc_fetches c' \<le> oc_fetches c + 3 \<and> caches_fresh (oe_now oe) c' \<and> (r = Skipped \<longrightarrow> c' = c)"
proof -
  have "oc_fetches c' \<le> oc_fetches c + 3 \<and> caches_fresh (oe_now oe) c'"
  proof (cases "c' = c")
    case False
    then obtain url x c1 where d: "fetchDiscoveryDocument oe url c = (x, c1)"
      and s: "c' = c1 \<or> (\<exists>uri y. verifyOAuthIdTokenSignature oe tok uri c1 = (y, c'))"
      using assms(1) unfolding verifyOAuthIdToken_def
      by (auto split: id_check.splits option.splits prod.splits signature_check.splits) blast+
    note d' = discovery_fresh [OF assms(2) d]
    from s show ?thesis
    proof (elim disjE exE)
      fix uri y assume "verifyOAuthIdTokenSignature oe tok uri c1 = (y, c')"
      with d' signature_fresh show ?thesis by fastforce
    qed (use d' in simp)
  qed (use assms(2) in simp)
  moreover have "r = Skipped \<longrightarrow> c' = c" using token_cases [OF assms(1)] by auto
  ultimately show ?thesis by blast
qed

definition google_claims :: jsv where
  "google_claims = JObj [(''iss'', JStr ''https://accounts.google.com''), (''aud'', JStr ''app''),
     (''exp'', JNum 100), (''nonce'', JStr ''n''), (''email'', JStr ''Ann@Acme.io''), (''email_verified'', JBool True)]"

definition rotating_google :: oidc_env where
  "rotating_google =
     \<lparr>oe_now = 1000, oe_decode = (\<lambda>t. Some google_claims),
      oe_header = (\<lambda>t. JObj [(''alg'', JStr ''RS256''), (''kid'', JStr ''new'')]),
      oe_verify = (\<lambda>t pem alg. pem = ''P2''), oe_pem = (\<lambda>n e. Some ''P2''),
      oe_url = (\<lambda>s. Some (''https:'', ''accounts.google.com'')),
      oe_fetch = (\<lambda>n u. Some (JObj [(''keys'', JArr [JObj [(''kty'', JStr ''RSA''), (''kid'', JStr ''new''),
         (''n'', JStr ''n''), (''e'', JStr ''e'')]])], Some ''public, Max-Age = 600''))\<rparr>"

definition google_discovery :: string where
  "google_discovery = ''https://accounts.google.com/.well-known/openid-configuration''"

definition old_keys :: oidc_caches where
  "old_keys = \<lparr>oc_discovery = [(google_discovery, JObj [(''jwks_uri'', JStr ''https://keys'')], 5000)],
     oc_jwks = [(''https://keys'', [(''old'', ''P1'')], 5000)], oc_fetches = 0\<rparr>"

definition new_keys :: oidc_caches where
  "new_keys = \<lparr>oc_discovery = [(google_discovery, JObj [(''jwks_uri'', JStr ''https://keys'')], 5000)],
     oc_jwks = [(''https://keys'', [(''new'', ''P2'')], 601000)], oc_fetches = 1\<rparr>"

abbreviation check_google :: "oidc_caches \<Rightarrow> id_check \<times> oidc_caches" where
  "check_google c \<equiv> verifyOAuthIdToken rotating_google (JStr ''t'') ''google'' ''app'' ''ann@acme.io'' (Some ''n'') c"

lemma rotating_google_facts:
  "validateOAuthIdToken rotating_google (JStr ''t'') ''google'' ''app'' ''ann@acme.io'' (Some ''n'') = Valid"
  "oidcDiscoveryUrlFor ''google'' (if ''google'' = ''okta'' then resolveOktaBaseUrl ''app'' else None) = Some google_discovery"
  "cached_value (oe_now rotating_google) (oc_discovery old_keys) google_discovery = Some (JObj [(''jwks_uri'', JStr ''https://keys'')])"
  "js_string (get_field (JObj [(''jwks_uri'', JStr ''https://keys'')]) ''jwks_uri'') = ''https://keys''"
  "cached_value (oe_now rotating_google) (oc_jwks old_keys) ''https://keys'' = Some [(''old'', ''P1'')]"
  "map_get [(''old'', ''P1'')] ''new'' = None"
  "signed_with rotating_google (JStr ''t'') ''new'' ''RS256''"
  by code_simp+

lemma rotated_key_accepted_witness: "check_google old_keys = (Valid, new_keys) \<and> oc_fetches (snd (check_google new_keys)) = 1"
proof -
  let ?body = "JObj [(''keys'', JArr [JObj [(''kty'', JStr ''RSA''), (''kid'', JStr ''new''), (''n'', JStr ''n''), (''e'', JStr ''e'')]])]"
  have f: "oe_fetch rotating_google (oc_fetches old_keys) ''https://keys'' = Some (?body, Some ''public, Max-Age = 600'')"
    by (simp add: rotating_google_def)
  have k: "map_get (normalizeJwksBundle rotating_google ?body) ''new'' = Some ''P2''"
    and v: "oe_verify rotating_google (JStr ''t'') ''P2'' ''RS256''"
    and z: "oc_fetches old_keys = 0"
    by code_simp+
  have t: "computeCacheTtlMs (Some ''public, Max-Age = 600'') = 600000"
  proof -
    have "max_age_digits ''public, Max-Age = 600'' = Some ''600''" "digits_val ''600'' = 600" by code_simp+
    then show ?thesis
      by (simp add: computeCacheTtlMs_def OIDC_DISCOVERY_MIN_TTL_MS_def OIDC_DISCOVERY_MAX_TTL_MS_def)
  qed
  have n: "old_keys\<lparr>oc_jwks := map_set ''https://keys'' (normalizeJwksBundle rotating_google ?body,
        oe_now rotating_google + computeCacheTtlMs (Some ''public, Max-Age = 600'')) (oc_jwks old_keys),
        oc_fetches := oc_fetches old_keys + 1\<rparr> = new_keys"
    unfolding t by code_simp
  show ?thesis
    using rotated_key_accepted [OF rotating_google_facts f k v, unfolded n] unfolding z by (metis add_0 snd_conv)
qed

lemma verification_bounded_witness: "oc_fetches (snd (check_google old_keys)) \<le> 3 \<and> caches_fresh 1000 (snd (check_google old_keys))"
proof -
  have "caches_fresh (oe_now rotating_google) old_keys" and n: "oe_now rotating_google = 1000" "oc_fetches old_keys = 0"
    by code_simp+
  then show ?thesis using verification_bounded [of rotating_google "JStr ''t''" _ _ _ _ old_keys] by (metis add_0 prod.collapse)
qed

end
