(* ===== verification/Auth_Oauth.thy ===== *)
theory Auth_Oauth
  imports Auth_Federated Auth_Oidc Auth_Devices Auth_Admin
begin

section \<open>The auth service: sign-in with OAuth providers\<close>

text \<open>
  The routes under \<open>/oauth\<close> of \<open>services/auth-service/index.js\<close> and the secrets they keep encrypted.
  Parameters, in \<open>oauth_env\<close>: AES-GCM, the calls to the provider (\<open>None\<close> when axios throws), what
  \<open>Auth_Oidc\<close> needs, and the values drawn. The lengths of columns are not modelled.
\<close>

subsection \<open>Secrets at rest\<close>

record oauth_env =
  oa_protocol :: string
  oa_encrypt :: "string \<Rightarrow> string" \<comment> \<open>with the key of the service and a drawn nonce, in base64\<close>
  oa_decrypt :: "string \<Rightarrow> string option" \<comment> \<open>\<open>None\<close> when the tag does not fit\<close>
  oa_post :: "string \<Rightarrow> string \<Rightarrow> jsv option" \<comment> \<open>address and form; the body of the answer\<close>
  oa_get :: "string \<Rightarrow> string \<Rightarrow> jsv option" \<comment> \<open>address and \<open>Authorization\<close>\<close>
  oa_oidc :: oidc_env
  oa_temp :: string \<comment> \<open>the password drawn for a new account\<close>
  oa_state :: string
  oa_nonce :: string

text \<open>\<open>None\<close> when the cipher throws, as it does for what is not a string.\<close>

definition encryptOAuthSecret :: "oauth_env \<Rightarrow> jsv \<Rightarrow> jsv option" where
  "encryptOAuthSecret oa v =
     (if \<not> truthy v then Some v
      else (case v of JStr s \<Rightarrow> Some (JStr (oa_encrypt oa s)) | _ \<Rightarrow> None))"

definition decryptOAuthSecret :: "oauth_env \<Rightarrow> string \<Rightarrow> string" where
  "decryptOAuthSecret oa s =
     (if length (buffer_base64 s) < 28 then s
      else (case oa_decrypt oa s of Some p \<Rightarrow> p | None \<Rightarrow> s))"

definition base64_char :: "char \<Rightarrow> bool" where
  "base64_char c \<longleftrightarrow> is_digit c \<or> c \<in> set ''+/=_-'' \<or>
     (let n = of_char c :: nat in 97 \<le> n \<and> n \<le> 122 \<or> 65 \<le> n \<and> n \<le> 90)"

definition isEncryptedOAuthSecret :: "string \<Rightarrow> bool" where
  "isEncryptedOAuthSecret s \<longleftrightarrow>
     40 \<le> length s \<and> list_all base64_char s \<and> 28 \<le> length (buffer_base64 s)"

definition client_secret_of :: "oauth_env \<Rightarrow> string \<Rightarrow> string" where
  "client_secret_of oa s = (if isEncryptedOAuthSecret s then decryptOAuthSecret oa s else s)"

subsection \<open>Tables\<close>

record provider_row =
  pv_id :: int
  pv_provider :: string
  pv_client_id :: string
  pv_secret :: string
  pv_redirect :: string
  pv_scopes :: string
  pv_enabled :: bool
  pv_tenant :: string

record oauth_state_row =
  os_state :: string
  os_provider :: string
  os_tenant :: string
  os_redirect :: string
  os_nonce :: "string option"
  os_expires :: int

record link_row =
  ln_user :: int
  ln_provider :: string
  ln_subject :: string
  ln_access :: "string option"
  ln_refresh :: "string option"
  ln_expires :: "int option"
  ln_created :: int

record oauth_tables =
  ot_providers :: "provider_row list"
  ot_next_provider :: int
  ot_states :: "oauth_state_row list"
  ot_links :: "link_row list" \<comment> \<open>newest first\<close>
  ot_caches :: oidc_caches

definition PROVIDERS :: "string list" where
  "PROVIDERS = [''google'', ''microsoft'', ''github'', ''okta'']"
definition OIDC_PROVIDERS :: "string list" where
  "OIDC_PROVIDERS = [''google'', ''microsoft'', ''okta'']"

subsection \<open>Providers\<close>

definition provider_json :: "provider_row \<Rightarrow> jsv" where
  "provider_json r =
     JObj [(''id'', JNum (of_int (pv_id r))), (''provider'', JStr (pv_provider r)),
       (''client_id'', JStr (pv_client_id r)), (''redirect_uri'', JStr (pv_redirect r)),
       (''scopes'', JStr (pv_scopes r)), (''enabled'', JBool (pv_enabled r)), (''tenant_id'', JStr (pv_tenant r))]"

text \<open>The order of texts by their characters.\<close>

fun text_le :: "string \<Rightarrow> string \<Rightarrow> bool" where
  "text_le [] t = True"
| "text_le (c # s) [] = False"
| "text_le (c # s) (e # t) =
     ((of_char c :: nat) < of_char e \<or> c = e \<and> text_le s t)"

definition providers_route :: "jsv \<Rightarrow> oauth_tables fed_handler" where
  "providers_route payload env d q s =
     (if bigint_max < page_offset (hq_query q) then (failure 500 ''Failed to list OAuth providers'', s)
      else
        (reply 200 (JArr (map provider_json (page_of (hq_query q)
           (sort_by (\<lambda>x y. text_le (pv_provider x) (pv_provider y))
              (filter (\<lambda>r. pv_tenant r = admin_tenant env payload) (ot_providers (snd s))))))), s))"

definition provider_create_route :: "oauth_env \<Rightarrow> jsv \<Rightarrow> oauth_tables fed_handler" where
  "provider_create_route oa payload env d q s =
     (let provider = body_field q ''provider''; client_id = body_field q ''client_id'';
          client_secret = body_field q ''client_secret''; t = snd s
      in if hq_body q = JUndef then (failure 500 ''Failed to create OAuth provider'', s)
         else if \<not> truthy provider \<or> \<not> truthy client_id \<or> \<not> truthy client_secret then
           (failure 400 ''provider, client_id, client_secret are required'', s)
         else
           (case encryptOAuthSecret oa client_secret of
              None \<Rightarrow> (failure 500 ''Failed to create OAuth provider'', s)
            | Some secret \<Rightarrow>
                (let row = \<lparr>pv_id = ot_next_provider t, pv_provider = pg_text env provider,
                       pv_client_id = pg_text env client_id, pv_secret = pg_text env secret,
                       pv_redirect = pg_text env (js_or (body_field q ''redirect_uri'') (JStr [])),
                       pv_scopes = pg_text env (js_or (body_field q ''scopes'') (JStr ''openid email profile'')),
                       pv_enabled = True, pv_tenant = admin_tenant env payload\<rparr>;
                     t' = t\<lparr>ot_next_provider := ot_next_provider t + 1\<rparr>
                 in if list_ex (\<lambda>r. pv_provider r = pv_provider row \<and> pv_tenant r = pv_tenant row) (ot_providers t)
                    then (failure 409 ''Provider already configured for this tenant'', fst s, t')
                    else (reply 201 (provider_json row), fst s, t'\<lparr>ot_providers := ot_providers t @ [row]\<rparr>))))"

text \<open>The row the two ends of a sign-in look up.\<close>

definition enabled_provider :: "string \<Rightarrow> string \<Rightarrow> oauth_tables \<Rightarrow> provider_row option" where
  "enabled_provider provider tenant t =
     find (\<lambda>r. pv_provider r = provider \<and> pv_tenant r = tenant \<and> pv_enabled r) (ot_providers t)"

subsection \<open>The start of a sign-in\<close>

text \<open>\<open>URLSearchParams\<close>: the characters it keeps differ from those of \<open>encodeURIComponent\<close>.\<close>

definition form_char :: "char \<Rightarrow> string" where
  "form_char c =
     (if c = CHR '' '' then ''+''
      else if (of_char c :: nat) \<in> {33, 39, 40, 41, 126} then percent_byte (of_char c)
      else encode_uri_char c)"

definition form_encoded :: "(string \<times> string) list \<Rightarrow> string" where
  "form_encoded ps =
     join_with ''&'' (map (\<lambda>(k, v). concat (map form_char k) @ ''='' @ concat (map form_char v)) ps)"

definition callback_address :: "oauth_env \<Rightarrow> auth_http \<Rightarrow> string \<Rightarrow> provider_row \<Rightarrow> string" where
  "callback_address oa q provider row =
     (if pv_redirect row = [] then request_base (oa_protocol oa) q @ ''/oauth/callback/'' @ provider
      else pv_redirect row)"

definition okta_base :: "provider_row \<Rightarrow> string" where
  "okta_base row = (case resolveOktaBaseUrl (pv_client_id row) of Some b \<Rightarrow> b | None \<Rightarrow> ''null'')"

definition authorize_address :: "oauth_env \<Rightarrow> auth_http \<Rightarrow> string \<Rightarrow> provider_row \<Rightarrow> string \<Rightarrow> string option \<Rightarrow> string" where
  "authorize_address oa q provider row state nonce =
     (let base =
            (if provider = ''google'' then ''https://accounts.google.com/o/oauth2/v2/auth''
             else if provider = ''microsoft'' then ''https://login.microsoftonline.com/common/oauth2/v2.0/authorize''
             else if provider = ''github'' then ''https://github.com/login/oauth/authorize''
             else okta_base row @ ''/oauth2/v1/authorize'');
          scope = (if pv_scopes row = [] then ''openid email profile'' else pv_scopes row);
          ends = [(''client_id'', pv_client_id row), (''redirect_uri'', callback_address oa q provider row)];
          rest =
            (if provider = ''github'' then [(''scope'', ''read:user user:email''), (''state'', state)]
             else [(''response_type'', ''code''), (''scope'', scope), (''state'', state),
                   (''nonce'', case nonce of Some n \<Rightarrow> n | None \<Rightarrow> ''null'')] @
               (if provider = ''google'' then [(''access_type'', ''offline''), (''prompt'', ''consent'')] else []))
      in base @ ''?'' @ form_encoded (ends @ rest))"

definition unsupported :: "string \<Rightarrow> auth_reply" where
  "unsupported provider = failure 400 (''Unsupported OAuth provider '' @ in_quotes provider)"

definition bad_okta :: auth_reply where
  "bad_okta = failure 400 ''Invalid Okta client_id; expected <subdomain>.okta.com''"

definition oauth_login_route :: "oauth_env \<Rightarrow> oauth_tables fed_handler" where
  "oauth_login_route oa env d q s =
     (let provider = param q ''provider''; tenant = pg_text env (js_or (body_field q ''tenant_id'') (JStr ''default''));
          redirect = pg_text env (js_or (body_field q ''redirect_to'') (JStr ''/dashboard'')); t = snd s;
          nonce = (if provider \<in> set OIDC_PROVIDERS then Some (oa_nonce oa) else None)
      in if hq_body q = JUndef then (failure 500 ''OAuth login initiation failed'', s)
         else if provider \<notin> set PROVIDERS then (unsupported provider, s)
         else
           (case enabled_provider provider tenant t of
              None \<Rightarrow> (failure 404 (''OAuth provider '' @ in_quotes provider @ '' not configured''), s)
            | Some row \<Rightarrow>
                if oa_state oa \<in> os_state ` set (ot_states t) then
                  (failure 500 ''OAuth login initiation failed'', s)
                else
                  (let t' = t\<lparr>ot_states := ot_states t @
                         [\<lparr>os_state = oa_state oa, os_provider = provider, os_tenant = tenant,
                           os_redirect = redirect, os_nonce = nonce,
                           os_expires = ae_now env + 10 * 60 * 1000\<rparr>]\<rparr>
                   in if provider = ''okta'' \<and> resolveOktaBaseUrl (pv_client_id row) = None then (bad_okta, fst s, t')
                      else
                        (reply 200 (JObj
                           [(''redirect_url'', JStr (authorize_address oa q provider row (oa_state oa) nonce)),
                            (''state'', JStr (oa_state oa)), (''provider'', JStr provider),
                            (''nonce'', null_or nonce)]), fst s, t'))))"

subsection \<open>The end of a sign-in\<close>

definition token_address :: "string \<Rightarrow> provider_row \<Rightarrow> string" where
  "token_address provider row =
     (if provider = ''google'' then ''https://oauth2.googleapis.com/token''
      else if provider = ''microsoft'' then ''https://login.microsoftonline.com/common/oauth2/v2.0/token''
      else if provider = ''github'' then ''https://github.com/login/oauth/access_token''
      else okta_base row @ ''/oauth2/v1/token'')"

definition userinfo_address :: "string \<Rightarrow> provider_row \<Rightarrow> string" where
  "userinfo_address provider row =
     (if provider = ''google'' then ''https://www.googleapis.com/oauth2/v2/userinfo''
      else if provider = ''microsoft'' then ''https://graph.microsoft.com/v1.0/me''
      else if provider = ''github'' then ''https://api.github.com/user''
      else okta_base row @ ''/oauth2/v1/userinfo'')"

definition token_form :: "oauth_env \<Rightarrow> auth_http \<Rightarrow> string \<Rightarrow> provider_row \<Rightarrow> string" where
  "token_form oa q provider row =
     form_encoded [(''code'', js_string (body_field q ''code'')), (''client_id'', pv_client_id row),
       (''client_secret'', client_secret_of oa (pv_secret row)),
       (''redirect_uri'', callback_address oa q provider row), (''grant_type'', ''authorization_code'')]"

definition any_of :: "jsv \<Rightarrow> string list \<Rightarrow> jsv" where
  "any_of v ks = foldr (\<lambda>k x. js_or (get_field v k) x) ks (JStr [])"

definition info_email :: "jsv \<Rightarrow> string" where
  "info_email info = normalizeEmail (any_of info [''email'', ''mail'', ''userPrincipalName''])"

definition info_subject :: "jsv \<Rightarrow> string" where
  "info_subject info = js_string (any_of info [''id'', ''sub'', ''login''])"

definition info_name :: "jsv \<Rightarrow> string \<Rightarrow> jsv" where
  "info_name info email =
     js_or (get_field info ''name'') (js_or (get_field info ''displayName'') (js_or (get_field info ''login'')
       (js_or (JStr email) (JStr (js_string (js_or (get_field info ''sub'') (JStr [])))))))"

text \<open>The address GitHub has verified: the primary one, else any.\<close>

definition github_email :: "jsv \<Rightarrow> string option" where
  "github_email answer =
     (let emails = (case answer of JArr vs \<Rightarrow> vs | _ \<Rightarrow> []);
          verified = (\<lambda>e. get_field e ''verified'' = JBool True);
          chosen = (case find (\<lambda>e. get_field e ''primary'' = JBool True \<and> verified e) emails of
                      Some e \<Rightarrow> Some e | None \<Rightarrow> find verified emails)
      in case chosen of
           Some e \<Rightarrow> if truthy (get_field e ''email'') then Some (normalizeEmail (get_field e ''email'')) else None
         | None \<Rightarrow> None)"

definition or_defined :: "jsv \<Rightarrow> jsv \<Rightarrow> jsv" where "or_defined v w = (if v = JUndef then w else v)"

definition email_verified :: "jsv \<Rightarrow> bool" where
  "email_verified info =
     (case or_defined (get_field info ''email_verified'')
             (or_defined (get_field info ''verified'') (get_field info ''verified_email'')) of
        JBool b \<Rightarrow> b | JStr s \<Rightarrow> to_lower s = ''true'' | _ \<Rightarrow> False)"

definition token_says_verified :: "oauth_env \<Rightarrow> jsv \<Rightarrow> bool" where
  "token_says_verified oa idToken \<longleftrightarrow>
     truthy idToken \<and>
     (case oe_decode (oa_oidc oa) idToken of
        Some p \<Rightarrow> get_field p ''email_verified'' \<in> {JBool True, JStr ''true''} | None \<Rightarrow> False)"

text \<open>The identity the answers of the provider establish, or the refusal.\<close>

definition oidc_now :: "oauth_env \<Rightarrow> auth_env \<Rightarrow> oidc_env" where
  "oidc_now oa env = (oa_oidc oa)\<lparr>oe_now := ae_now env\<rparr>"

definition bad_gateway :: "string \<Rightarrow> auth_reply" where
  "bad_gateway provider = failure 502 (''OAuth '' @ provider @ '' authentication failed'')"

definition provider_email ::
  "oauth_env \<Rightarrow> string \<Rightarrow> jsv \<Rightarrow> jsv \<Rightarrow> jsv \<Rightarrow> auth_reply + string"
where
  "provider_email oa provider accessToken idToken info =
     (if provider = ''github'' then
        (case oa_get oa ''https://api.github.com/user/emails'' (''Bearer '' @ js_string accessToken) of
           None \<Rightarrow> Inl (failure 403 ''GitHub email could not be verified'')
         | Some answer \<Rightarrow>
             (case github_email answer of
                None \<Rightarrow> Inl (failure 403 ''GitHub account has no verified email'')
              | Some e \<Rightarrow> Inr e))
      else if email_verified info \<or> token_says_verified oa idToken then Inr (info_email info)
      else Inl (failure 403 ''Email not verified by provider''))"

definition check_identity ::
  "oauth_env \<Rightarrow> auth_env \<Rightarrow> string \<Rightarrow> provider_row \<Rightarrow> string option \<Rightarrow> jsv \<Rightarrow> jsv \<Rightarrow> jsv \<Rightarrow> oidc_caches \<Rightarrow>
    (auth_reply + string) \<times> oidc_caches"
where
  "check_identity oa env provider row nonce accessToken idToken info c =
     (if info_subject info = [] then
        (Inl (failure 403 ''Provider did not return a stable subject identifier''), c)
      else
        (case verifyOAuthIdToken (oidc_now oa env) idToken provider (pv_client_id row) (info_email info) nonce c of
           (Invalid r, c') \<Rightarrow> (Inl (failure 401 (''OAuth id_token validation failed: '' @ r)), c')
         | (_, c') \<Rightarrow>
             (case provider_email oa provider accessToken idToken info of
                Inl a \<Rightarrow> (Inl a, c')
              | Inr email \<Rightarrow>
                  (if validateEmail (JStr email) \<noteq> None
                   then Inl (failure 403 ''Verified email required for provisioning'') else Inr email, c'))))"

text \<open>The account of an address in the tenant of the sign-in.\<close>

definition oauth_account ::
  "oauth_env \<Rightarrow> auth_env \<Rightarrow> draws \<Rightarrow> string \<Rightarrow> jsv \<Rightarrow> string \<Rightarrow> auth_world \<Rightarrow> auth_reply + user_row \<times> auth_world"
where
  "oauth_account oa env d tenant info email w =
     (case user_by_email email w of
        None \<Rightarrow> Inr (provision_user env d (oa_temp oa) email (pg_text env (info_name info (info_email info))) tenant None w)
      | Some u \<Rightarrow>
          if \<not> falsy_string (u_tenant u) \<and> u_tenant u \<noteq> Some tenant
          then Inl (failure 403 ''Email already registered in another tenant'')
          else if \<not> u_active u then Inl (failure 403 ''Account is deactivated'')
          else Inr (u, w))"

text \<open>\<open>None\<close> when the date is out of range or no number, which makes the statement fail.\<close>

definition link_expiry :: "int \<Rightarrow> jsv \<Rightarrow> int option option" where
  "link_expiry now v =
     (if \<not> truthy v then Some None
      else
        (case js_number v of
           None \<Rightarrow> None
         | Some n \<Rightarrow>
             (let t = of_int now + n * 1000
              in if \<bar>t\<bar> \<le> 8640000000000000 then Some (Some (if t < 0 then \<lceil>t\<rceil> else \<lfloor>t\<rfloor>)) else None)))"

text \<open>
  The row of a provider and subject is made or given new tokens, whoever it belongs to; an absent
  refresh token keeps the one before.
\<close>

definition save_link :: "link_row \<Rightarrow> link_row list \<Rightarrow> link_row list" where
  "save_link r rows =
     (if list_ex (\<lambda>x. ln_provider x = ln_provider r \<and> ln_subject x = ln_subject r) rows
      then map (\<lambda>x. if ln_provider x = ln_provider r \<and> ln_subject x = ln_subject r
             then x\<lparr>ln_access := ln_access r,
                    ln_refresh := (case ln_refresh r of Some v \<Rightarrow> Some v | None \<Rightarrow> ln_refresh x),
                    ln_expires := ln_expires r\<rparr> else x) rows
      else r # rows)"

definition secret_column :: "jsv \<Rightarrow> string option" where
  "secret_column v = (case v of JStr s \<Rightarrow> if s = [] then None else Some s | _ \<Rightarrow> None)"

definition oauth_finish ::
  "oauth_env \<Rightarrow> string \<Rightarrow> jsv \<Rightarrow> jsv \<Rightarrow> user_row \<Rightarrow> oauth_tables fed_handler"
where
  "oauth_finish oa provider tokens info u env d q s =
     (case (encryptOAuthSecret oa (get_field tokens ''access_token''),
            encryptOAuthSecret oa (get_field tokens ''refresh_token''),
            link_expiry (ae_now env) (get_field tokens ''expires_in'')) of
        (Some access, Some refresh, Some expires) \<Rightarrow>
          (let link = \<lparr>ln_user = u_id u, ln_provider = provider, ln_subject = info_subject info,
                 ln_access = secret_column access, ln_refresh = secret_column refresh, ln_expires = expires,
                 ln_created = ae_now env\<rparr>
           in case signed_in_reply (''OAuth '' @ provider @ '' login successful'')
                [(''provider'', JStr provider)] env d q u (fst s) of
                (a, w) \<Rightarrow> (a, w, (snd s)\<lparr>ot_links := save_link link (ot_links (snd s))\<rparr>))
      | _ \<Rightarrow> (bad_gateway provider, s))"

text \<open>Once the state is redeemed and the provider known.\<close>

definition oauth_exchange ::
  "oauth_env \<Rightarrow> string \<Rightarrow> oauth_state_row \<Rightarrow> provider_row \<Rightarrow> oauth_tables fed_handler"
where
  "oauth_exchange oa provider st row env d q s =
     (case oa_post oa (token_address provider row) (token_form oa q provider row) of
        None \<Rightarrow> (bad_gateway provider, s)
      | Some tokens \<Rightarrow>
          if nullish tokens then (bad_gateway provider, s)
          else
            (case oa_get oa (userinfo_address provider row)
                    (''Bearer '' @ js_string (get_field tokens ''access_token'')) of
               None \<Rightarrow> (bad_gateway provider, s)
             | Some info \<Rightarrow>
                 if nullish info then (bad_gateway provider, s)
                 else
                   (case check_identity oa env provider row (os_nonce st) (get_field tokens ''access_token'')
                           (get_field tokens ''id_token'') info (ot_caches (snd s)) of
                      (Inl a, c) \<Rightarrow> (a, fst s, (snd s)\<lparr>ot_caches := c\<rparr>)
                    | (Inr email, c) \<Rightarrow>
                        (case oauth_account oa env d (os_tenant st) info email (fst s) of
                           Inl a \<Rightarrow> (a, fst s, (snd s)\<lparr>ot_caches := c\<rparr>)
                         | Inr (u, w) \<Rightarrow>
                             oauth_finish oa provider tokens info u env d q (w, (snd s)\<lparr>ot_caches := c\<rparr>)))))"

definition redeemable_state :: "auth_env \<Rightarrow> string \<Rightarrow> string \<Rightarrow> oauth_state_row \<Rightarrow> bool" where
  "redeemable_state env provider state r \<longleftrightarrow>
     os_state r = state \<and> os_provider r = provider \<and> ae_now env < os_expires r"

definition oauth_callback_route :: "oauth_env \<Rightarrow> oauth_tables fed_handler" where
  "oauth_callback_route oa env d q s =
     (let provider = param q ''provider''; code = body_field q ''code''; state = body_field q ''state''; t = snd s
      in if hq_body q = JUndef then (failure 500 ''OAuth callback processing failed'', s)
         else if provider \<notin> set PROVIDERS then (unsupported provider, s)
         else if \<not> truthy code \<or> \<not> truthy state then (failure 400 ''code and state are required'', s)
         else
           (case find (redeemable_state env provider (pg_text env state)) (ot_states t) of
              None \<Rightarrow> (failure 400 ''Invalid or expired state parameter'', s)
            | Some st \<Rightarrow>
                (let t' = t\<lparr>ot_states := filter (\<lambda>r. os_state r \<noteq> os_state st) (ot_states t)\<rparr>
                 in case enabled_provider provider (os_tenant st) t' of
                      None \<Rightarrow> (failure 404 ''Provider not found'', fst s, t')
                    | Some row \<Rightarrow>
                        if provider = ''okta'' \<and> resolveOktaBaseUrl (pv_client_id row) = None then (bad_okta, fst s, t')
                        else oauth_exchange oa provider st row env d q (fst s, t'))))"

subsection \<open>Links\<close>

definition links_route :: "jsv \<Rightarrow> oauth_tables fed_handler" where
  "links_route payload env d q s =
     (if bigint_max < page_offset (hq_query q) then (failure 500 ''Failed to list OAuth links'', s)
      else
        (reply 200 (JArr (map (\<lambda>r. JObj [(''provider'', JStr (ln_provider r)),
             (''provider_user_id'', JStr (ln_subject r)), (''created_at'', JStr (ae_iso env (ln_created r)))])
           (page_of (hq_query q) (sort_by (\<lambda>x y. ln_created y \<le> ln_created x)
              (filter (\<lambda>r. Some (ln_user r) = claim_id payload) (ot_links (snd s))))))), s))"

definition unlink_route :: "jsv \<Rightarrow> oauth_tables fed_handler" where
  "unlink_route payload env d q s =
     (let mine = (\<lambda>r. Some (ln_user r) = claim_id payload \<and> ln_provider r = param q ''provider'')
      in if \<not> list_ex mine (ot_links (snd s)) then (failure 404 ''Link not found'', s)
         else (failure 200 ''OAuth link disconnected'', fst s,
               (snd s)\<lparr>ot_links := filter (\<lambda>r. \<not> mine r) (ot_links (snd s))\<rparr>))"

definition GET_oauth_providers :: "oauth_tables fed_handler" where
  "GET_oauth_providers = fed_signed_in [''admin''] ''oauth_providers_list'' 60 providers_route"
definition POST_oauth_providers :: "oauth_env \<Rightarrow> oauth_tables fed_handler" where
  "POST_oauth_providers oa = fed_signed_in [''admin''] ''oauth_providers_create'' 20 (provider_create_route oa)"
definition POST_oauth_login :: "oauth_env \<Rightarrow> oauth_tables fed_handler" where
  "POST_oauth_login oa = fed_limited ''oauth_login'' 20 False (oauth_login_route oa)"
definition POST_oauth_callback :: "oauth_env \<Rightarrow> oauth_tables fed_handler" where
  "POST_oauth_callback oa = fed_limited ''oauth_callback'' 20 False (oauth_callback_route oa)"
definition GET_oauth_links :: "oauth_tables fed_handler" where
  "GET_oauth_links = fed_signed_in [] ''oauth_links_list'' 60 links_route"
definition DELETE_oauth_link :: "oauth_tables fed_handler" where
  "DELETE_oauth_link = fed_signed_in [] ''oauth_links_delete'' 20 unlink_route"

subsection \<open>What an OAuth sign-in rests on\<close>

lemma other_replies [simp]:
  "rp_status (unsupported p) = 400" "rp_status bad_okta = 400" "rp_status (bad_gateway p) = 502"
  "rp_set (unsupported p) = []" "rp_set bad_okta = []" "rp_set (bad_gateway p) = []"
  by (simp_all add: unsupported_def bad_okta_def bad_gateway_def failure_def reply_def)

text \<open>The refusals of the checks are no 200.\<close>

lemma provider_email_refusal: "provider_email oa p tok idt info = Inl a \<Longrightarrow> rp_status a = 403 \<and> rp_set a = []"
  by (auto simp: provider_email_def split: if_splits option.splits)

lemma check_identity_refusal:
  "check_identity oa env p row n tok idt info c = (Inl a, c') \<Longrightarrow> rp_status a \<in> {401, 403} \<and> rp_set a = []"
  by (auto simp: check_identity_def dest: provider_email_refusal
      split: if_splits prod.splits id_check.splits sum.splits)

text \<open>
  A provider vouches for an address when it says so itself: GitHub in its list of addresses, the
  others in the profile or in the claims of the identity token.
\<close>

definition says_yes :: "jsv \<Rightarrow> bool" where
  "says_yes v \<longleftrightarrow> v = JBool True \<or> (\<exists>s. v = JStr s \<and> to_lower s = ''true'')"

definition address_vouched ::
  "oauth_env \<Rightarrow> string \<Rightarrow> jsv \<Rightarrow> jsv \<Rightarrow> jsv \<Rightarrow> string \<Rightarrow> bool"
where
  "address_vouched oa provider accessToken idToken info email \<longleftrightarrow>
     (if provider = ''github'' then
        (\<exists>es e. oa_get oa ''https://api.github.com/user/emails'' (''Bearer '' @ js_string accessToken) = Some (JArr es) \<and>
           e \<in> set es \<and> get_field e ''verified'' = JBool True \<and> email = normalizeEmail (get_field e ''email''))
      else
        email = info_email info \<and>
        ((\<exists>k \<in> {''email_verified'', ''verified'', ''verified_email''}. says_yes (get_field info k)) \<or>
         (\<exists>p. oe_decode (oa_oidc oa) idToken = Some p \<and> get_field p ''email_verified'' \<in> {JBool True, JStr ''true''})))"

text \<open>
  What the answers of the provider to this request have established: to the code the token
  endpoint gave tokens, with the access token the profile was read, the identity token given is
  trusted by the keys fetched or cached (or there is neither a token nor a nonce), and the provider
  vouches for the address. \<open>c\<close> are the caches before and \<open>c'\<close> those after the check of the token.
\<close>

definition established ::
  "oauth_env \<Rightarrow> auth_env \<Rightarrow> auth_http \<Rightarrow> string \<Rightarrow> oauth_state_row \<Rightarrow> provider_row \<Rightarrow> oidc_caches \<Rightarrow>
    jsv \<Rightarrow> string \<Rightarrow> oidc_caches \<Rightarrow> bool"
where
  "established oa env q provider st row c info email c' \<longleftrightarrow>
     (\<exists>tokens accessToken idToken.
        oa_post oa (token_address provider row) (token_form oa q provider row) = Some tokens \<and>
        accessToken = get_field tokens ''access_token'' \<and> idToken = get_field tokens ''id_token'' \<and>
        oa_get oa (userinfo_address provider row) (''Bearer '' @ js_string accessToken) = Some info \<and>
        c' = snd (verifyOAuthIdToken (oidc_now oa env) idToken provider (pv_client_id row) (info_email info) (os_nonce st) c) \<and>
        (\<not> truthy idToken \<and> falsy_string (os_nonce st) \<or>
         trusted_token (oidc_now oa env) idToken provider (pv_client_id row) (os_nonce st) c') \<and>
        address_vouched oa provider accessToken idToken info email) \<and>
     info_subject info \<noteq> [] \<and> validateEmail (JStr email) = None"

lemma provider_email_ok: "provider_email oa p tok idt info = Inr email \<Longrightarrow> address_vouched oa p tok idt info email"
proof -
  assume e: "provider_email oa p tok idt info = Inr email"
  show ?thesis
  proof (cases "p = ''github''")
    case True
    then obtain a where a: "oa_get oa ''https://api.github.com/user/emails'' (''Bearer '' @ js_string tok) = Some a"
      "github_email a = Some email"
      using e by (auto simp: provider_email_def split: option.splits)
    define es where "es = (case a of JArr vs \<Rightarrow> vs | _ \<Rightarrow> [])"
    obtain x where x: "x \<in> set es" "get_field x ''verified'' = JBool True" "email = normalizeEmail (get_field x ''email'')"
      using a(2) by (auto simp: github_email_def Let_def es_def [symmetric] dest!: find_Some_set split: option.splits if_splits)
    then have "a = JArr es" by (cases a) (auto simp: es_def)
    with x a(1) True show ?thesis unfolding address_vouched_def by auto
  next
    case False
    then have "email_verified info \<or> token_says_verified oa idt" and i: "email = info_email info"
      using e by (auto simp: provider_email_def split: if_splits)
    then show ?thesis
    proof (elim disjE)
      assume "email_verified info"
      then have "\<exists>k \<in> {''email_verified'', ''verified'', ''verified_email''}. says_yes (get_field info k)"
        by (auto simp: email_verified_def or_defined_def says_yes_def split: if_splits jsv.splits)
      with False i show ?thesis unfolding address_vouched_def by simp
    next
      assume "token_says_verified oa idt"
      then show ?thesis using False i by (auto simp: address_vouched_def token_says_verified_def split: option.splits)
    qed
  qed
qed

lemma check_identity_ok:
  assumes "check_identity oa env provider row (os_nonce st) (get_field tokens ''access_token'')
      (get_field tokens ''id_token'') info c = (Inr email, c')"
    and "oa_post oa (token_address provider row) (token_form oa q provider row) = Some tokens"
    and "oa_get oa (userinfo_address provider row) (''Bearer '' @ js_string (get_field tokens ''access_token'')) = Some info"
  shows "established oa env q provider st row c info email c'"
proof -
  let ?tok = "get_field tokens ''access_token''" and ?idt = "get_field tokens ''id_token''"
  obtain r where v: "verifyOAuthIdToken (oidc_now oa env) ?idt provider (pv_client_id row) (info_email info) (os_nonce st) c = (r, c')"
    and r: "r = Valid \<or> r = Skipped" and e: "provider_email oa provider ?tok ?idt info = Inr email"
    and o: "info_subject info \<noteq> []" "validateEmail (JStr email) = None"
    using assms(1) by (auto simp: check_identity_def split: if_splits prod.splits id_check.splits sum.splits)
  have "\<not> truthy ?idt \<and> falsy_string (os_nonce st) \<or>
      trusted_token (oidc_now oa env) ?idt provider (pv_client_id row) (os_nonce st) c'"
    using token_cases [OF v] r by auto
  with v o assms(2,3) provider_email_ok [OF e] show ?thesis unfolding established_def by fastforce
qed

lemma oauth_account_ok:
  assumes "oauth_account oa env d tenant info email w = Inr (u, w1)"
  shows "account_for env d email tenant (oa_temp oa) w u w1 \<and> u_active u \<and>
    (falsy_string (u_tenant u) \<or> u_tenant u = Some tenant)"
proof (cases "user_by_email email w")
  case None
  then have "provision_user env d (oa_temp oa) email (pg_text env (info_name info (info_email info))) tenant None w = (u, w1)"
    using assms by (simp add: oauth_account_def)
  then have "account_for env d email tenant (oa_temp oa) w u w1" by (rule provision_account [OF None])
  then show ?thesis using None by (auto simp: account_for_def)
next
  case (Some v)
  with assms show ?thesis by (auto simp: oauth_account_def account_for_def split: if_splits)
qed

lemma oauth_account_refusal:
  "oauth_account oa env d tenant info email w = Inl a \<Longrightarrow> rp_status a = 403 \<and> rp_set a = []"
  by (auto simp: oauth_account_def split: option.splits if_splits)

lemma save_link_has:
  "\<exists>x \<in> set (save_link r rows). ln_provider x = ln_provider r \<and> ln_subject x = ln_subject r"
proof (cases "list_ex (\<lambda>x. ln_provider x = ln_provider r \<and> ln_subject x = ln_subject r) rows")
  case True
  then obtain x where "x \<in> set rows" "ln_provider x = ln_provider r" "ln_subject x = ln_subject r"
    by (auto simp: list_ex_iff)
  then show ?thesis unfolding save_link_def if_P [OF True] set_map by (intro bexI [OF _ imageI]) auto
qed (simp add: save_link_def)

definition linked :: "string \<Rightarrow> jsv \<Rightarrow> link_row list \<Rightarrow> bool" where
  "linked provider info rows \<longleftrightarrow> list_ex (\<lambda>x. ln_provider x = provider \<and> ln_subject x = info_subject info) rows"

lemma oauth_finish_cases:
  assumes "oauth_finish oa provider tokens info u env d q s = (a, w', t')"
  obtains (refused) "rp_status a \<noteq> 200" "rp_set a = []" "(w', t') = s"
  | (session) rows where "rp_status a = 200" "w' = session_world env d q u (fst s)"
      "t' = (snd s)\<lparr>ot_links := rows\<rparr>" "linked provider info rows"
proof (cases "\<exists>x y z. encryptOAuthSecret oa (get_field tokens ''access_token'') = Some x \<and>
    encryptOAuthSecret oa (get_field tokens ''refresh_token'') = Some y \<and>
    link_expiry (ae_now env) (get_field tokens ''expires_in'') = Some z")
  case False
  then have "(a, w', t') = (bad_gateway provider, s)"
    using assms by (auto simp: oauth_finish_def split: option.splits)
  with refused show thesis by simp
next
  case True
  then obtain x y z where e: "encryptOAuthSecret oa (get_field tokens ''access_token'') = Some x"
    "encryptOAuthSecret oa (get_field tokens ''refresh_token'') = Some y"
    "link_expiry (ae_now env) (get_field tokens ''expires_in'') = Some z" by blast
  define link where "link = \<lparr>ln_user = u_id u, ln_provider = provider, ln_subject = info_subject info,
    ln_access = secret_column x, ln_refresh = secret_column y, ln_expires = z, ln_created = ae_now env\<rparr>"
  let ?r = "signed_in_reply (''OAuth '' @ provider @ '' login successful'') [(''provider'', JStr provider)] env d q u (fst s)"
  have "(a, w', t') = (fst ?r, snd ?r, (snd s)\<lparr>ot_links := save_link link (ot_links (snd s))\<rparr>)"
    using assms e by (simp add: oauth_finish_def link_def split: prod.splits)
  moreover have "linked provider info (save_link link (ot_links (snd s)))"
    using save_link_has [of link] by (auto simp: linked_def list_ex_iff link_def)
  ultimately show thesis
    using session signed_in_reply_status signed_in_reply_world by (metis Pair_inject)
qed

text \<open>What a 200 of the callback rests on, and what it leaves.\<close>

definition oauth_granted ::
  "oauth_env \<Rightarrow> auth_env \<Rightarrow> draws \<Rightarrow> auth_http \<Rightarrow> string \<Rightarrow> oauth_state_row \<Rightarrow> provider_row \<Rightarrow>
    auth_world \<times> oauth_tables \<Rightarrow> auth_world \<times> oauth_tables \<Rightarrow> bool"
where
  "oauth_granted oa env d q provider st row s s' \<longleftrightarrow>
     (\<exists>info email u w1.
        established oa env q provider st row (ot_caches (snd s)) info email (ot_caches (snd s')) \<and>
        account_for env d email (os_tenant st) (oa_temp oa) (fst s) u w1 \<and> u_active u \<and>
        (falsy_string (u_tenant u) \<or> u_tenant u = Some (os_tenant st)) \<and>
        fst s' = session_world env d q u w1 \<and> linked provider info (ot_links (snd s')))"

definition provisioned_only :: "auth_env \<Rightarrow> draws \<Rightarrow> string \<Rightarrow> string \<Rightarrow> auth_world \<Rightarrow> auth_world \<Rightarrow> bool" where
  "provisioned_only env d tenant temp w w' \<longleftrightarrow> w' = w \<or> (\<exists>email u. account_for env d email tenant temp w u w')"

lemma oauth_exchange_cases:
  assumes "oauth_exchange oa provider st row env d q s = (a, w', t')"
  obtains (refused) "rp_status a \<noteq> 200" "rp_set a = []" "provisioned_only env d (os_tenant st) (oa_temp oa) (fst s) w'"
      "ot_states t' = ot_states (snd s)"
  | (session) "rp_status a = 200" "oauth_granted oa env d q provider st row s (w', t')" "ot_states t' = ot_states (snd s)"
proof (cases "\<exists>tokens info. oa_post oa (token_address provider row) (token_form oa q provider row) = Some tokens \<and>
    \<not> nullish tokens \<and> oa_get oa (userinfo_address provider row)
      (''Bearer '' @ js_string (get_field tokens ''access_token'')) = Some info \<and> \<not> nullish info")
  case False
  then have "(a, w', t') = (bad_gateway provider, s)"
    using assms by (auto simp: oauth_exchange_def split: option.splits if_splits)
  with refused show thesis by (auto simp: provisioned_only_def)
next
  case True
  then obtain tokens info where net:
    "oa_post oa (token_address provider row) (token_form oa q provider row) = Some tokens" "\<not> nullish tokens"
    "oa_get oa (userinfo_address provider row) (''Bearer '' @ js_string (get_field tokens ''access_token'')) = Some info"
    "\<not> nullish info" by blast
  obtain x c where i: "check_identity oa env provider row (os_nonce st) (get_field tokens ''access_token'')
      (get_field tokens ''id_token'') info (ot_caches (snd s)) = (x, c)" by fastforce
  show thesis
  proof (cases x)
    case (Inl b)
    then have "(a, w', t') = (b, fst s, (snd s)\<lparr>ot_caches := c\<rparr>)"
      using assms net i by (simp add: oauth_exchange_def)
    then show thesis using refused check_identity_refusal i Inl by (fastforce simp: provisioned_only_def)
  next
    case email: (Inr email)
    show thesis
    proof (cases "oauth_account oa env d (os_tenant st) info email (fst s)")
      case (Inl b)
      then have "(a, w', t') = (b, fst s, (snd s)\<lparr>ot_caches := c\<rparr>)"
        using assms net i email by (simp add: oauth_exchange_def)
      then show thesis using refused oauth_account_refusal [OF Inl] by (auto simp: provisioned_only_def)
    next
      case (Inr p)
      obtain u w1 where p: "p = (u, w1)" by fastforce
      note acc = oauth_account_ok [OF Inr [unfolded p]]
      have "oauth_finish oa provider tokens info u env d q (w1, (snd s)\<lparr>ot_caches := c\<rparr>) = (a, w', t')"
        using assms net i email Inr p by (simp add: oauth_exchange_def)
      then show thesis
      proof (cases rule: oauth_finish_cases)
        case refused
        then show thesis using that(1) acc by (auto simp: provisioned_only_def)
      next
        case (session rows)
        have "oauth_granted oa env d q provider st row s (w', t')"
          unfolding oauth_granted_def using check_identity_ok [OF i [unfolded email] net(1,3)] acc session by fastforce
        then show thesis using that(2) session by simp
      qed
    qed
  qed
qed

lemma find_redeemable:
  "find P xs = Some x \<Longrightarrow> x \<in> set xs \<and> P x"
  by (rule find_Some_set)

lemma oauth_callback_cases:
  assumes "oauth_callback_route oa env d q (w, t) = (a, w', t')"
  obtains (refused) "rp_status a \<noteq> 200" "rp_set a = []" "\<exists>tenant. provisioned_only env d tenant (oa_temp oa) w w'"
      "ot_states t' = ot_states t \<or> (\<exists>x. ot_states t' = filter (\<lambda>r. os_state r \<noteq> x) (ot_states t))"
  | (session) st row where "rp_status a = 200" "st \<in> set (ot_states t)"
      "redeemable_state env (param q ''provider'') (pg_text env (body_field q ''state'')) st"
      "ot_states t' = filter (\<lambda>r. os_state r \<noteq> os_state st) (ot_states t)"
      "enabled_provider (param q ''provider'') (os_tenant st) t = Some row"
      "oauth_granted oa env d q (param q ''provider'') st row (w, t) (w', t')"
proof (cases "find (redeemable_state env (param q ''provider'') (pg_text env (body_field q ''state''))) (ot_states t)")
  case None
  then have "w' = w" "t' = t" "rp_status a \<noteq> 200" "rp_set a = []"
    using assms by (auto simp: oauth_callback_route_def Let_def split: if_splits)
  with refused show thesis by (auto simp: provisioned_only_def)
next
  case (Some st)
  let ?p = "param q ''provider''" and ?t = "t\<lparr>ot_states := filter (\<lambda>r. os_state r \<noteq> os_state st) (ot_states t)\<rparr>"
  have p: "enabled_provider ?p (os_tenant st) ?t = enabled_provider ?p (os_tenant st) t"
    by (simp add: enabled_provider_def)
  consider "t' = t" "w' = w" "rp_status a \<noteq> 200" "rp_set a = []"
    | "t' = ?t" "w' = w" "rp_status a \<noteq> 200" "rp_set a = []"
    | row where "enabled_provider ?p (os_tenant st) t = Some row" "oauth_exchange oa ?p st row env d q (w, ?t) = (a, w', t')"
    using assms Some p by (auto simp: oauth_callback_route_def Let_def split: if_splits option.splits)
  then show thesis
  proof cases
    case 1
    with refused show thesis by (auto simp: provisioned_only_def)
  next
    case 2
    then have "ot_states t' = filter (\<lambda>r. os_state r \<noteq> os_state st) (ot_states t)" by simp
    with 2 refused show thesis unfolding provisioned_only_def by blast
  next
    case (3 row)
    from 3(2) show thesis
    proof (cases rule: oauth_exchange_cases)
      case refused
      then show thesis using that(1) by auto
    next
      case session
      have "oauth_granted oa env d q ?p st row (w, t) (w', t')"
        using session(2) by (simp add: oauth_granted_def)
      moreover note session(1) session(3) 3(1) find_redeemable [OF Some]
      ultimately show thesis using that(2) [of st row] by simp
    qed
  qed
qed


subsection \<open>A sign-in on which the contract applies\<close>

definition google_row :: provider_row where
  "google_row = \<lparr>pv_id = 1, pv_provider = ''google'', pv_client_id = ''app'', pv_secret = ''s'', pv_redirect = [],
     pv_scopes = [], pv_enabled = True, pv_tenant = ''acme''\<rparr>"

definition google_oauth :: oauth_env where
  "google_oauth = \<lparr>oa_protocol = ''https'', oa_encrypt = (\<lambda>s. s), oa_decrypt = Some,
     oa_post = (\<lambda>u f. Some (JObj [(''access_token'', JStr ''at''), (''id_token'', JStr ''it'')])),
     oa_get = (\<lambda>u h. Some (JObj [(''id'', JStr ''sub''), (''email'', JStr ''Ann@Acme.io'')])),
     oa_oidc = rotating_google, oa_temp = ''t'', oa_state = ''st'', oa_nonce = ''n''\<rparr>"

definition oauth_post :: "(string \<times> jsv) list \<Rightarrow> auth_http" where
  "oauth_post b = \<lparr>hq_body = JObj b, hq_headers = [(''host'', ''sso'')], hq_cookies = [], hq_ip = ''10.0.0.1'',
     hq_params = [(''provider'', ''google'')], hq_query = JUndef\<rparr>"

definition oauth_begun :: "auth_world \<times> oauth_tables" where
  "oauth_begun = snd (oauth_login_route google_oauth (svc_env 5) some_draws (oauth_post [(''tenant_id'', JStr ''acme'')])
     (svc_world, \<lparr>ot_providers = [google_row], ot_next_provider = 2, ot_states = [], ot_links = [], ot_caches = new_keys\<rparr>))"

definition oauth_answer :: "auth_world \<times> oauth_tables \<Rightarrow> auth_reply \<times> auth_world \<times> oauth_tables" where
  "oauth_answer = oauth_callback_route google_oauth (svc_env 1000) some_draws
     (oauth_post [(''code'', JStr ''c''), (''state'', JStr ''st'')])"

lemma oauth_answer_checked:
  "case oauth_answer oauth_begun of (a, w, t) \<Rightarrow>
     rp_status a = 200 \<and> ot_states t = [] \<and> map u_email (users (aw_db w)) = [''ada@atlas.io'', ''ann@acme.io'']"
  by code_simp

lemma oauth_begun_world: "fst oauth_begun = svc_world"
  by code_simp

lemma oauth_answers:
  "rp_status (fst (oauth_answer oauth_begun)) = 200"
  "ot_states (snd (snd (oauth_answer oauth_begun))) = []"
  "fst oauth_begun = svc_world"
  "map u_email (users (aw_db (fst (snd (oauth_answer oauth_begun))))) = [''ada@atlas.io'', ''ann@acme.io'']"
  using oauth_answer_checked by (simp_all only: case_prod_beta oauth_begun_world)


end
