(* ===== verification/Auth_Webauthn.thy ===== *)
theory Auth_Webauthn
  imports Auth_Federated Auth_Devices
begin

section \<open>The auth service: hardware security keys\<close>

text \<open>
  The routes under \<open>/webauthn\<close> of \<open>services/auth-service/index.js\<close>. The functions of
  \<open>@simplewebauthn/server\<close> are the parameters of \<open>webauthn_env\<close>: what the call returns, for the two that are
  awaited what it resolves to, or \<open>None\<close> when it rejects. A byte array is a \<open>JArr\<close> of its bytes. The other
  parameters are the settings and the host name Express reads. The lengths of columns are not modelled.
\<close>

subsection \<open>Base64\<close>

definition b64_char :: "nat \<Rightarrow> char" where
  "b64_char n =
     (if n < 26 then char_of (65 + n) else if n < 52 then char_of (71 + n)
      else if n < 62 then char_of (n - 4) else if n = 62 then CHR ''+'' else CHR ''/'')"

text \<open>\<open>toString("base64")\<close> of the bytes of a buffer.\<close>

fun base64_of :: "string \<Rightarrow> string" where
  "base64_of (x # y # z # r) =
     (let a = of_char x; b = of_char y; c = of_char z
      in b64_char (a div 4) # b64_char ((a mod 4) * 16 + b div 16) # b64_char ((b mod 16) * 4 + c div 64) #
         b64_char (c mod 64) # base64_of r)"
| "base64_of [x, y] =
     (let a = of_char x; b = of_char y
      in [b64_char (a div 4), b64_char ((a mod 4) * 16 + b div 16), b64_char ((b mod 16) * 4), CHR ''=''])"
| "base64_of [x] = (let a = of_char x in [b64_char (a div 4), b64_char ((a mod 4) * 16), CHR ''='', CHR ''=''])"
| "base64_of [] = []"

definition utf8_char :: "char \<Rightarrow> string" where
  "utf8_char c =
     (let n = of_char c :: nat in if n < 128 then [c] else [char_of (192 + n div 64), char_of (128 + n mod 64)])"

definition byte_of :: "jsv \<Rightarrow> char" where
  "byte_of v = (case js_number v of None \<Rightarrow> char_of (0 :: nat) | Some n \<Rightarrow> char_of (nat (\<lfloor>n\<rfloor> mod 256)))"

text \<open>\<open>Buffer.from(v)\<close>; \<open>None\<close> is its \<open>TypeError\<close>.\<close>

definition buffer_from :: "jsv \<Rightarrow> string option" where
  "buffer_from v =
     (case v of JStr s \<Rightarrow> Some (concat (map utf8_char s)) | JArr vs \<Rightarrow> Some (map byte_of vs) | _ \<Rightarrow> None)"

definition plain_char :: "char \<Rightarrow> char" where
  "plain_char c = (if c = CHR ''-'' then CHR ''+'' else if c = CHR ''_'' then CHR ''/'' else c)"

definition base64urlToBuffer :: "string \<Rightarrow> string" where
  "base64urlToBuffer s = (let t = map plain_char s in buffer_base64 (t @ replicate ((4 - length t mod 4) mod 4) (CHR ''='')))"

definition base64urlToBase64 :: "string \<Rightarrow> string" where
  "base64urlToBase64 s = base64_of (base64urlToBuffer s)"

subsection \<open>Tables\<close>

record challenge_row =
  ch_user :: int
  ch_challenge :: string
  ch_purpose :: string
  ch_expires :: int
  ch_created :: int

record credential_row =
  cr_id :: int
  cr_user :: int
  cr_credential :: string
  cr_key :: string
  cr_counter :: "int option"
  cr_name :: string
  cr_type :: string
  cr_transports :: jsv
  cr_active :: bool
  cr_created :: int
  cr_used :: "int option"

record webauthn_tables =
  wt_challenges :: "challenge_row list"
  wt_credentials :: "credential_row list"
  wt_next :: int

record webauthn_env =
  wa_rp_id :: "string option"
  wa_origin :: "string option"
  wa_hostname :: "auth_http \<Rightarrow> string option" \<comment> \<open>\<open>req.hostname\<close>\<close>
  wa_registration :: "string \<Rightarrow> string \<Rightarrow> string \<Rightarrow> string list \<Rightarrow> jsv"
    \<comment> \<open>\<open>generateRegistrationOptions\<close>: party, user name, display name, excluded credentials\<close>
  wa_authentication :: "string \<Rightarrow> string list \<Rightarrow> jsv"
    \<comment> \<open>\<open>generateAuthenticationOptions\<close>: party, bytes of the allowed credentials\<close>
  wa_verify_registration :: "jsv \<Rightarrow> string \<Rightarrow> string \<Rightarrow> string \<Rightarrow> jsv option"
    \<comment> \<open>response, challenge, origin, party\<close>
  wa_verify_authentication :: "jsv \<Rightarrow> string \<Rightarrow> string \<Rightarrow> string \<Rightarrow> string \<Rightarrow> string \<Rightarrow> int option \<Rightarrow> jsv \<Rightarrow> jsv option"
    \<comment> \<open>also the bytes of the id and of the key, the counter and the transports\<close>

definition RP_NAME :: string where "RP_NAME = ''Atlas Workforce''"

definition or_text :: "string option \<Rightarrow> string \<Rightarrow> string" where
  "or_text s x = (if falsy_string s then x else the s)"

definition getRpId :: "webauthn_env \<Rightarrow> auth_http \<Rightarrow> string" where
  "getRpId wa q = or_text (wa_rp_id wa) (or_text (wa_hostname wa q) ''localhost'')"

definition expected_origin :: "webauthn_env \<Rightarrow> auth_http \<Rightarrow> string" where
  "expected_origin wa q =
     or_text (wa_origin wa) (''http://'' @ or_text (wa_hostname wa q) ''localhost'' @ '':3000'')"

subsection \<open>Challenges\<close>

definition WEBAUTHN_CHALLENGE_TTL_MINUTES :: int where "WEBAUTHN_CHALLENGE_TTL_MINUTES = 5"

text \<open>\<open>LIKE 'challenge:%'\<close>: rows of an earlier release, which kept challenges among the credentials.\<close>

definition legacy_row :: "credential_row \<Rightarrow> bool" where
  "legacy_row r \<longleftrightarrow> starts_with (cr_credential r) ''challenge:''"

text \<open>
  The expired challenges are gone even when the second statement fails, as it does for a challenge
  that is \<open>undefined\<close>: the column is not null.
\<close>

definition storeWebauthnChallenge ::
  "auth_env \<Rightarrow> int \<Rightarrow> jsv \<Rightarrow> string \<Rightarrow> webauthn_tables \<Rightarrow> bool \<times> webauthn_tables"
where
  "storeWebauthnChallenge env i challenge purpose t =
     (let kept = filter (\<lambda>r. ae_now env < ch_expires r) (wt_challenges t);
          row = \<lparr>ch_user = i, ch_challenge = pg_text env challenge, ch_purpose = purpose,
            ch_expires = ae_now env + WEBAUTHN_CHALLENGE_TTL_MINUTES * 60 * 1000, ch_created = ae_now env\<rparr>
      in if nullish challenge then (False, t\<lparr>wt_challenges := kept\<rparr>)
         else (True, t\<lparr>wt_challenges :=
           (if list_ex (\<lambda>r. ch_challenge r = ch_challenge row) kept
            then map (\<lambda>r. if ch_challenge r = ch_challenge row then row else r) kept else kept @ [row])\<rparr>))"

definition live_challenge :: "auth_env \<Rightarrow> int \<Rightarrow> string \<Rightarrow> challenge_row \<Rightarrow> bool" where
  "live_challenge env i purpose r \<longleftrightarrow> ch_user r = i \<and> ch_purpose r = purpose \<and> ae_now env < ch_expires r"

definition getLatestWebauthnChallenge :: "auth_env \<Rightarrow> int \<Rightarrow> string \<Rightarrow> webauthn_tables \<Rightarrow> string option" where
  "getLatestWebauthnChallenge env i purpose t =
     (case sort_by (\<lambda>x y. ch_created y \<le> ch_created x) (filter (live_challenge env i purpose) (wt_challenges t)) of
        r # _ \<Rightarrow> Some (ch_challenge r)
      | [] \<Rightarrow>
          (case sort_by (\<lambda>x y. cr_created y \<le> cr_created x)
                  (filter (\<lambda>r. cr_user r = i \<and> legacy_row r \<and> cr_name r = ''pending'') (wt_credentials t)) of
             r # _ \<Rightarrow> Some (cr_key r)
           | [] \<Rightarrow> None))"

definition consumeWebauthnChallenge :: "int \<Rightarrow> string \<Rightarrow> webauthn_tables \<Rightarrow> webauthn_tables" where
  "consumeWebauthnChallenge i purpose t =
     t\<lparr>wt_challenges := filter (\<lambda>r. \<not> (ch_user r = i \<and> ch_purpose r = purpose)) (wt_challenges t),
       wt_credentials := filter (\<lambda>r. \<not> (cr_user r = i \<and> legacy_row r)) (wt_credentials t)\<rparr>"

text \<open>No route calls it.\<close>

definition consumeChallenge :: "int \<Rightarrow> string \<Rightarrow> webauthn_tables \<Rightarrow> bool \<times> webauthn_tables" where
  "consumeChallenge i challenge t =
     (let mine = (\<lambda>r. ch_user r = i \<and> ch_challenge r = challenge);
          old = (\<lambda>r. cr_user r = i \<and> cr_credential r = ''challenge:'' @ challenge)
      in if list_ex mine (wt_challenges t) then (True, t\<lparr>wt_challenges := filter (\<lambda>r. \<not> mine r) (wt_challenges t)\<rparr>)
         else (list_ex old (wt_credentials t),
               t\<lparr>wt_credentials := filter (\<lambda>r. \<not> old r) (wt_credentials t)\<rparr>))"

definition active_keys :: "int \<Rightarrow> webauthn_tables \<Rightarrow> credential_row list" where
  "active_keys i t = filter (\<lambda>r. cr_user r = i \<and> cr_active r \<and> \<not> legacy_row r) (wt_credentials t)"

text \<open>What the column \<open>counter\<close> takes of a number; \<open>None\<close> when the statement fails.\<close>

definition counter_column :: "jsv \<Rightarrow> int option option" where
  "counter_column v =
     (case v of JNum n \<Rightarrow> if n = of_int \<lfloor>n\<rfloor> \<and> fits_integer \<lfloor>n\<rfloor> then Some (Some \<lfloor>n\<rfloor>) else None
      | _ \<Rightarrow> if nullish v then Some None else None)"

subsection \<open>Registration\<close>

definition register_begin_route :: "webauthn_env \<Rightarrow> jsv \<Rightarrow> webauthn_tables fed_handler" where
  "register_begin_route wa payload env d q s =
     (let failed = failure 500 ''WebAuthn registration initiation failed''
      in if hq_body q = JUndef then (failed, s)
         else
           (case user_of payload (fst s) of
              None \<Rightarrow> (failed, s)
            | Some u \<Rightarrow>
                (let options = wa_registration wa (getRpId wa q) (u_email u)
                       (if u_name u = [] then u_email u else u_name u) (map cr_credential (active_keys (u_id u) (snd s)))
                 in case storeWebauthnChallenge env (u_id u) (get_field options ''challenge'') ''registration'' (snd s) of
                      (False, t) \<Rightarrow> (failed, fst s, t)
                    | (True, t) \<Rightarrow>
                        (reply 200 (JObj [(''status'', JStr ''ok''), (''creationOptions'', options)]), fst s, t))))"

definition add_key_row :: "auth_env \<Rightarrow> auth_http \<Rightarrow> int \<Rightarrow> string \<Rightarrow> string \<Rightarrow> int option \<Rightarrow> webauthn_tables \<Rightarrow> bool \<times> webauthn_tables" where
  "add_key_row env q i cred key counter t =
     (let row = \<lparr>cr_id = wt_next t, cr_user = i, cr_credential = cred, cr_key = key, cr_counter = counter,
            cr_name = pg_text env (js_or (body_field q ''device_name'') (JStr ''Security Key'')),
            cr_type = pg_text env (js_or (body_field q ''device_type'') (JStr ''hardware'')),
            cr_transports = js_or (get_field (body_field q ''response'') ''transports'') (JArr []),
            cr_active = True, cr_created = ae_now env, cr_used = None\<rparr>;
          t' = t\<lparr>wt_next := wt_next t + 1\<rparr>
      in if list_ex (\<lambda>r. cr_credential r = cred) (wt_credentials t) then (False, t')
         else (True, t'\<lparr>wt_credentials := wt_credentials t @ [row]\<rparr>))"

text \<open>The challenge is used up before the key is read from the verification.\<close>

definition save_registration ::
  "auth_env \<Rightarrow> auth_http \<Rightarrow> int \<Rightarrow> jsv \<Rightarrow> webauthn_tables \<Rightarrow> auth_reply \<times> webauthn_tables"
where
  "save_registration env q i info t0 =
     (let failed = failure 500 ''WebAuthn registration completion failed'';
          t = consumeWebauthnChallenge i ''registration'' t0
      in case (buffer_from (get_field info ''credentialID''), buffer_from (get_field info ''credentialPublicKey''),
               counter_column (get_field info ''counter'')) of
           (Some cred, Some key, Some counter) \<Rightarrow>
             (case add_key_row env q i (base64_of cred) (base64_of key) counter t of
                (False, t') \<Rightarrow> (failed, t')
              | (True, t') \<Rightarrow>
                  (reply 200 (JObj [(''status'', JStr ''ok''), (''message'', JStr ''Hardware security key registered'')]), t'))
         | _ \<Rightarrow> (failed, t))"

definition register_complete_route :: "webauthn_env \<Rightarrow> jsv \<Rightarrow> webauthn_tables fed_handler" where
  "register_complete_route wa payload env d q s =
     (let failed = failure 500 ''WebAuthn registration completion failed''; t = snd s
      in if nullish (hq_body q) then (failed, s)
         else if \<not> truthy (body_field q ''response'') \<or> \<not> truthy (body_field q ''id'') then
           (failure 400 ''Invalid credential response'', s)
         else
           (case claim_id payload of
              None \<Rightarrow> (failed, s)
            | Some i \<Rightarrow>
                (let expected = getLatestWebauthnChallenge env i ''registration'' t
                 in if falsy_string expected then
                      (failure 400 ''No pending registration challenge found. Please start registration again.'', s)
                    else
                      (case wa_verify_registration wa (hq_body q) (the expected) (expected_origin wa q) (getRpId wa q) of
                         None \<Rightarrow> (failed, s)
                       | Some v \<Rightarrow>
                           if nullish v then (failed, s)
                           else if \<not> truthy (get_field v ''verified'') \<or> \<not> truthy (get_field v ''registrationInfo'') then
                             (failure 400 ''Registration verification failed'', s)
                           else
                             (case save_registration env q i (get_field v ''registrationInfo'') t of
                                (a, t') \<Rightarrow> (a, fst s, t'))))))"

subsection \<open>Authentication\<close>

definition authenticate_begin_route :: "webauthn_env \<Rightarrow> webauthn_tables fed_handler" where
  "authenticate_begin_route wa env d q s =
     (let email = body_field q ''email''; failed = failure 500 ''WebAuthn authentication initiation failed''
      in if nullish (hq_body q) then (failed, s)
         else if \<not> truthy email then (failure 400 ''Email is required'', s)
         else
           (case find (\<lambda>u. u_email u = pg_text env email \<and> u_active u) (users (aw_db (fst s))) of
              None \<Rightarrow> (failure 404 ''User not found'', s)
            | Some u \<Rightarrow>
                (let keys = active_keys (u_id u) (snd s);
                     options = wa_authentication wa (getRpId wa q) (map (\<lambda>r. buffer_base64 (cr_credential r)) keys)
                 in if keys = [] then (failure 400 ''No hardware security keys registered for this user'', s)
                    else
                      (case storeWebauthnChallenge env (u_id u) (get_field options ''challenge'') ''authentication'' (snd s) of
                         (False, t) \<Rightarrow> (failed, fst s, t)
                       | (True, t) \<Rightarrow>
                           (reply 200 (JObj [(''status'', JStr ''ok''), (''authenticationOptions'', options),
                              (''userId'', JNum (of_int (u_id u)))]), fst s, t)))))"

text \<open>The counter is stored and the challenge used up before the account is looked at.\<close>

definition webauthn_sign_in :: "credential_row \<Rightarrow> int option \<Rightarrow> webauthn_tables fed_handler" where
  "webauthn_sign_in cred counter env d q s =
     (let t = (snd s)\<lparr>wt_credentials :=
            map (\<lambda>r. if cr_id r = cr_id cred then r\<lparr>cr_counter := counter, cr_used := Some (ae_now env)\<rparr> else r)
              (wt_credentials (snd s))\<rparr>;
          t' = consumeWebauthnChallenge (cr_user cred) ''authentication'' t
      in case user_by_id (cr_user cred) (fst s) of
           None \<Rightarrow> (failure 403 ''Account is deactivated'', fst s, t')
         | Some u \<Rightarrow>
             if \<not> u_active u then (failure 403 ''Account is deactivated'', fst s, t')
             else
               (case signed_in_reply ''Hardware security key authentication successful'' [] env d q u (fst s) of
                  (a, w) \<Rightarrow> (a, w, t')))"

definition check_assertion :: "webauthn_env \<Rightarrow> auth_http \<Rightarrow> credential_row \<Rightarrow> string \<Rightarrow> jsv option" where
  "check_assertion wa q cred challenge =
     wa_verify_authentication wa (hq_body q) challenge (expected_origin wa q) (getRpId wa q)
       (buffer_base64 (cr_credential cred)) (buffer_base64 (cr_key cred)) (cr_counter cred)
       (js_or (cr_transports cred) (JArr []))"

definition find_key :: "string \<Rightarrow> webauthn_tables \<Rightarrow> credential_row option" where
  "find_key c t = find (\<lambda>r. cr_credential r = c \<and> cr_active r \<and> \<not> legacy_row r) (wt_credentials t)"

definition authenticate_complete_route :: "webauthn_env \<Rightarrow> webauthn_tables fed_handler" where
  "authenticate_complete_route wa env d q s =
     (let i = body_field q ''id''; failed = failure 500 ''WebAuthn authentication completion failed''
      in if \<not> truthy i \<or> \<not> truthy (body_field q ''response'') \<or>
            \<not> truthy (get_field (body_field q ''response'') ''signature'')
         then (failure 400 ''Invalid authentication response'', s)
         else
           (case i of
              JStr b \<Rightarrow>
                (case find_key (base64urlToBase64 b) (snd s) of
                   None \<Rightarrow> (failure 400 ''Credential not found'', s)
                 | Some cred \<Rightarrow>
                     (let expected = getLatestWebauthnChallenge env (cr_user cred) ''authentication'' (snd s)
                      in if falsy_string expected then
                           (failure 400 ''No pending authentication challenge. Please start authentication again.'', s)
                         else
                           (case check_assertion wa q cred (the expected) of
                              None \<Rightarrow> (failed, s)
                            | Some v \<Rightarrow>
                                if nullish v then (failed, s)
                                else if \<not> truthy (get_field v ''verified'') then
                                  (failure 400 ''Authentication verification failed'', s)
                                else if nullish (get_field v ''authenticationInfo'') then (failed, s)
                                else
                                  (case counter_column (get_field (get_field v ''authenticationInfo'') ''newCounter'') of
                                     None \<Rightarrow> (failed, s)
                                   | Some n \<Rightarrow> webauthn_sign_in cred n env d q s))))
            | _ \<Rightarrow> (failed, s)))"

subsection \<open>The keys of a user\<close>

definition key_json :: "auth_env \<Rightarrow> credential_row \<Rightarrow> jsv" where
  "key_json env r =
     JObj [(''id'', JNum (of_int (cr_id r))), (''credential_id'', JStr (take 20 (cr_credential r) @ ''...'')),
       (''device_name'', JStr (cr_name r)), (''device_type'', JStr (cr_type r)),
       (''counter'', case cr_counter r of Some n \<Rightarrow> JNum (of_int n) | None \<Rightarrow> JNull),
       (''is_active'', JBool (cr_active r)), (''created_at'', JStr (ae_iso env (cr_created r))),
       (''last_used_at'', optional_iso env (cr_used r))]"

definition credentials_route :: "jsv \<Rightarrow> webauthn_tables fed_handler" where
  "credentials_route payload env d q s =
     (if bigint_max < page_offset (hq_query q) then (failure 500 ''Failed to list credentials'', s)
      else
        (reply 200 (JArr (map (key_json env) (page_of (hq_query q)
           (sort_by (\<lambda>x y. cr_created y \<le> cr_created x)
              (filter (\<lambda>r. Some (cr_user r) = claim_id payload \<and> \<not> legacy_row r) (wt_credentials (snd s))))))), s))"

definition own_key :: "jsv \<Rightarrow> int \<Rightarrow> credential_row \<Rightarrow> bool" where
  "own_key payload i r \<longleftrightarrow> cr_id r = i \<and> Some (cr_user r) = claim_id payload \<and> cr_active r \<and> \<not> legacy_row r"

definition remove_key_route :: "jsv \<Rightarrow> webauthn_tables fed_handler" where
  "remove_key_route payload env d q s =
     (case parse_int (JStr (param q ''id'')) of
        None \<Rightarrow> (failure 500 ''Failed to remove credential'', s)
      | Some i \<Rightarrow>
          if \<not> fits_integer i then (failure 500 ''Failed to remove credential'', s)
          else if \<not> list_ex (own_key payload i) (wt_credentials (snd s)) then (failure 404 ''Credential not found'', s)
          else (failure 200 ''Security key removed'', fst s,
                (snd s)\<lparr>wt_credentials := filter (\<lambda>r. \<not> own_key payload i r) (wt_credentials (snd s))\<rparr>))"

definition POST_register_begin :: "webauthn_env \<Rightarrow> webauthn_tables fed_handler" where
  "POST_register_begin wa = fed_signed_in [] ''webauthn_register'' 10 (register_begin_route wa)"
definition POST_register_complete :: "webauthn_env \<Rightarrow> webauthn_tables fed_handler" where
  "POST_register_complete wa = fed_signed_in [] ''webauthn_register_complete'' 10 (register_complete_route wa)"
definition POST_authenticate_begin :: "webauthn_env \<Rightarrow> webauthn_tables fed_handler" where
  "POST_authenticate_begin wa = fed_limited ''webauthn_auth'' 10 True (authenticate_begin_route wa)"
definition POST_authenticate_complete :: "webauthn_env \<Rightarrow> webauthn_tables fed_handler" where
  "POST_authenticate_complete wa = fed_limited ''webauthn_auth'' 10 False (authenticate_complete_route wa)"
definition GET_credentials :: "webauthn_tables fed_handler" where
  "GET_credentials = fed_signed_in [] ''webauthn_list'' 60 credentials_route"
definition DELETE_credential :: "webauthn_tables fed_handler" where
  "DELETE_credential = fed_signed_in [] ''webauthn_delete'' 20 remove_key_route"

subsection \<open>Ids of credentials\<close>

lemma b64_val_char: "n < 64 \<Longrightarrow> b64_val (b64_char n) = Some n"
  by (auto simp: b64_val_def b64_char_def Let_def)

lemma b64_char_plain: "n < 64 \<Longrightarrow> b64_char n \<noteq> CHR ''='' \<and> b64_char n \<noteq> CHR '':''"
  using b64_val_char [of n] by (auto simp: b64_val_def)

text \<open>What a browser sends for an id: the alphabet of URLs and no padding.\<close>

definition url_char :: "char \<Rightarrow> char" where
  "url_char c = (if c = CHR ''+'' then CHR ''-'' else if c = CHR ''/'' then CHR ''_'' else c)"

definition browser_id :: "string \<Rightarrow> string" where
  "browser_id b = map url_char (takeWhile (\<lambda>c. c \<noteq> CHR ''='') (base64_of b))"

lemma plain_url_char: "n < 64 \<Longrightarrow> plain_char (url_char (b64_char n)) = b64_char n"
proof -
  assume n: "n < 64"
  have "b64_val (CHR ''-'') = None" "b64_val (CHR ''_'') = None" by code_simp+
  with b64_val_char [OF n] have "b64_char n \<noteq> CHR ''-''" "b64_char n \<noteq> CHR ''_''" by auto
  then show ?thesis by (simp add: plain_char_def url_char_def)
qed

lemma byte_bound: "(of_char c :: nat) < 256" by simp

lemma joined: "y < m \<Longrightarrow> (x * m + y) div m = x \<and> (x * m + y) mod m = y" for x y m :: nat
  by simp

lemma sextet_bounds:
  "a < 256 \<Longrightarrow> a div 4 < 64" "(a mod 4) * 16 < 64" "b < 256 \<Longrightarrow> (a mod 4) * 16 + b div 16 < 64"
  "(b mod 16) * 4 < 64" "c < 256 \<Longrightarrow> (b mod 16) * 4 + c div 64 < 64" "c mod 64 < 64" for a b c :: nat
proof -
  have "a mod 4 < 4" "b mod 16 < 16" "c mod 64 < 64" "b < 256 \<Longrightarrow> b div 16 < 16" "c < 256 \<Longrightarrow> c div 64 < 4" by auto
  then show "(a mod 4) * 16 < 64" "b < 256 \<Longrightarrow> (a mod 4) * 16 + b div 16 < 64"
    "(b mod 16) * 4 < 64" "c < 256 \<Longrightarrow> (b mod 16) * 4 + c div 64 < 64" "c mod 64 < 64" by linarith+
qed auto

lemma sextet_bytes:
  "b < 256 \<Longrightarrow> (a div 4) * 4 + ((a mod 4) * 16 + b div 16) div 16 = a"
  "(a div 4) * 4 + ((a mod 4) * 16) div 16 = a"
  "b < 256 \<Longrightarrow> c < 256 \<Longrightarrow> (((a mod 4) * 16 + b div 16) mod 16) * 16 + ((b mod 16) * 4 + c div 64) div 4 = b"
  "b < 256 \<Longrightarrow> (((a mod 4) * 16 + b div 16) mod 16) * 16 + ((b mod 16) * 4) div 4 = b"
  "c < 256 \<Longrightarrow> (((b mod 16) * 4 + c div 64) mod 4) * 64 + c mod 64 = c" for a b c :: nat
proof -
  have d: "b < 256 \<Longrightarrow> b div 16 < 16" "c < 256 \<Longrightarrow> c div 64 < 4" by auto
  show "b < 256 \<Longrightarrow> (a div 4) * 4 + ((a mod 4) * 16 + b div 16) div 16 = a"
    "b < 256 \<Longrightarrow> c < 256 \<Longrightarrow> (((a mod 4) * 16 + b div 16) mod 16) * 16 + ((b mod 16) * 4 + c div 64) div 4 = b"
    "b < 256 \<Longrightarrow> (((a mod 4) * 16 + b div 16) mod 16) * 16 + ((b mod 16) * 4) div 4 = b"
    "c < 256 \<Longrightarrow> (((b mod 16) * 4 + c div 64) mod 4) * 64 + c mod 64 = c"
    using joined [OF d(1)] joined [OF d(2)] by (simp_all add: div_mult_mod_eq)
qed simp

definition sextets_of :: "string \<Rightarrow> string" where
  "sextets_of s = takeWhile (\<lambda>c. c \<noteq> CHR ''='') (base64_of s)"

lemma sextets_of_simps:
  "sextets_of [] = []"
  "sextets_of [x] = [b64_char (of_char x div 4), b64_char ((of_char x mod 4) * 16)]"
  "sextets_of [x, y] = [b64_char (of_char x div 4), b64_char ((of_char x mod 4) * 16 + of_char y div 16),
     b64_char ((of_char y mod 16) * 4)]"
  "sextets_of (x # y # z # r) = b64_char (of_char x div 4) # b64_char ((of_char x mod 4) * 16 + of_char y div 16) #
     b64_char ((of_char y mod 16) * 4 + of_char z div 64) # b64_char (of_char z mod 64) # sextets_of r"
  by (simp_all add: sextets_of_def Let_def b64_char_plain sextet_bounds byte_bound del: of_char_mod_256)

lemma sextets_of_char: "c \<in> set (sextets_of s) \<Longrightarrow> \<exists>n < 64. c = b64_char n"
  by (induction s rule: base64_of.induct)
    (auto simp: sextets_of_simps intro: sextet_bounds byte_bound)

lemma nat_divs:
  "n < 256 \<Longrightarrow> n div 16 div 16 = 0" "n < 256 \<Longrightarrow> n div 16 mod 16 = n div 16"
  "n < 256 \<Longrightarrow> n div 64 div 4 = 0" "n < 256 \<Longrightarrow> n div 64 mod 4 = n div 64" for n :: nat
  by auto

lemmas byte_divs = nat_divs [OF byte_bound]

lemma sextets_of_bytes: "sextets_bytes (List.map_filter b64_val (sextets_of s)) = s"
  by (induction s rule: base64_of.induct)
    (simp_all add: sextets_of_simps b64_val_char sextet_bounds byte_bound sextet_bytes byte_divs map_filter_simps)

lemma base64_bytes [simp]: "buffer_base64 (base64_of s) = s"
  using sextets_of_bytes by (simp add: buffer_base64_def sextets_of_def)

lemma browser_id_plain: "map plain_char (browser_id s) = sextets_of s"
proof -
  have "map (plain_char \<circ> url_char) (sextets_of s) = sextets_of s"
    by (rule map_idI) (use sextets_of_char plain_url_char in fastforce)
  then show ?thesis by (simp add: browser_id_def sextets_of_def)
qed

lemma base64url_browser: "base64urlToBase64 (browser_id s) = base64_of s"
proof -
  have "c \<in> set (sextets_of s) \<Longrightarrow> c \<noteq> CHR ''=''" for c
    by (auto simp: sextets_of_def dest: set_takeWhileD)
  then have "takeWhile (\<lambda>c. c \<noteq> CHR ''='') (sextets_of s @ replicate n (CHR ''='')) = sextets_of s" for n
    by (subst takeWhile_append2) (auto simp: takeWhile_eq_Nil_iff)
  then show ?thesis
    by (simp add: base64urlToBase64_def base64urlToBuffer_def browser_id_plain buffer_base64_def sextets_of_bytes Let_def)
qed

lemma b64_char_no_colon: "n < 64 \<Longrightarrow> CHR '':'' \<noteq> b64_char n"
  using b64_char_plain by metis

lemma base64_no_colon: "CHR '':'' \<notin> set (base64_of s)"
  by (induction s rule: base64_of.induct)
    (simp_all add: Let_def b64_char_no_colon sextet_bounds byte_bound)

lemma base64_not_legacy: "\<not> starts_with (base64_of s) ''challenge:''"
proof
  assume "starts_with (base64_of s) ''challenge:''"
  then have "CHR '':'' \<in> set (base64_of s)" by (auto simp: starts_with_iff_prefix elim!: prefixE)
  then show False using base64_no_colon by blast
qed

subsection \<open>A key is found again\<close>

lemma find_append_new: "list_all (\<lambda>x. \<not> P x) xs \<Longrightarrow> P y \<Longrightarrow> find P (xs @ [y]) = Some y"
  by (induction xs) auto

text \<open>
  A key registered is the key a browser signs in with. Whatever bytes the id and the
  public key of a verified registration have, after it was saved the id in the form a browser sends
  it (the alphabet of URLs, no padding) finds the row of that user, and the id and the key read back
  from the row are the same bytes.
\<close>

lemma key_found_again:
  assumes "save_registration env q i info t0 = (a, t)" and "rp_status a = 200"
    and "buffer_from (get_field info ''credentialID'') = Some b"
  shows "\<exists>r. find_key (base64urlToBase64 (browser_id b)) t = Some r \<and> cr_user r = i \<and>
    buffer_base64 (cr_credential r) = b \<and>
    buffer_from (get_field info ''credentialPublicKey'') = Some (buffer_base64 (cr_key r)) \<and>
    counter_column (get_field info ''counter'') = Some (cr_counter r)"
proof -
  let ?t = "consumeWebauthnChallenge i ''registration'' t0"
  obtain k n t1 where k: "buffer_from (get_field info ''credentialPublicKey'') = Some k"
    "counter_column (get_field info ''counter'') = Some n"
    and "add_key_row env q i (base64_of b) (base64_of k) n ?t = (True, t1)" "t = t1"
    using assms by (auto simp: save_registration_def Let_def split: option.splits prod.splits bool.splits)
  then obtain r where r: "wt_credentials t = wt_credentials ?t @ [r]" "cr_user r = i" "cr_credential r = base64_of b"
    "cr_key r = base64_of k" "cr_counter r = n" "cr_active r"
    and "list_all (\<lambda>x. cr_credential x \<noteq> base64_of b) (wt_credentials ?t)"
    by (auto simp: add_key_row_def Let_def list_ex_iff list_all_iff split: if_splits)
  then have "find_key (base64_of b) t = Some r"
    using base64_not_legacy by (simp add: find_key_def legacy_row_def find_append_new list_all_iff)
  with r k show ?thesis by (simp add: base64url_browser)
qed

subsection \<open>What a sign-in with a key rests on\<close>

lemma consumed_challenge: "getLatestWebauthnChallenge env i purpose (consumeWebauthnChallenge i purpose t) = None"
  by (simp add: getLatestWebauthnChallenge_def consumeWebauthnChallenge_def live_challenge_def filter_empty_conv)

lemma webauthn_sign_in_cases:
  assumes "webauthn_sign_in cred n env d q s = (a, w', t')"
  obtains (refused) "rp_status a \<noteq> 200" "rp_set a = []" "w' = fst s"
  | (session) u where "rp_status a = 200" "user_by_id (cr_user cred) (fst s) = Some u" "u_active u"
      "w' = session_world env d q u (fst s)"
      "\<And>env2. getLatestWebauthnChallenge env2 (cr_user cred) ''authentication'' t' = None"
proof (cases "user_by_id (cr_user cred) (fst s)")
  case None
  with assms refused show thesis by (auto simp: webauthn_sign_in_def Let_def failure_def reply_def)
next
  case (Some u)
  show thesis
  proof (cases "u_active u")
    case False
    with assms Some refused show thesis by (auto simp: webauthn_sign_in_def Let_def failure_def reply_def)
  next
    case True
    let ?r = "signed_in_reply ''Hardware security key authentication successful'' [] env d q u (fst s)"
    have "a = fst ?r" "w' = snd ?r" "\<exists>x. t' = consumeWebauthnChallenge (cr_user cred) ''authentication'' x"
      using assms Some True by (auto simp: webauthn_sign_in_def Let_def split: prod.splits)
    with session [OF _ Some True] show thesis
      by (auto simp: signed_in_reply_world consumed_challenge)
  qed
qed

lemma authenticate_200:
  assumes "authenticate_complete_route wa env d q s = (a, s')" and "rp_status a = 200"
  obtains b r c v n where "body_field q ''id'' = JStr b" "find_key (base64urlToBase64 b) (snd s) = Some r"
    "getLatestWebauthnChallenge env (cr_user r) ''authentication'' (snd s) = Some c" "c \<noteq> []"
    "check_assertion wa q r c = Some v" "truthy (get_field v ''verified'')"
    "webauthn_sign_in r n env d q s = (a, s')"
  using assms
  by (auto simp: authenticate_complete_route_def Let_def falsy_string_def
      split: if_splits option.splits jsv.splits)

lemma authenticate_refused:
  assumes "authenticate_complete_route wa env d q s = (a, s')" and "rp_status a \<noteq> 200"
  shows "rp_set a = [] \<and> fst s' = fst s"
proof (cases "\<exists>r n. webauthn_sign_in r n env d q s = (a, s')")
  case True
  then obtain r n where "webauthn_sign_in r n env d q s = (a, fst s', snd s')" by auto
  then show ?thesis by (cases rule: webauthn_sign_in_cases) (use assms(2) in auto)
next
  case False
  with assms(1) show ?thesis
    unfolding authenticate_complete_route_def Let_def
    by (auto split: if_splits option.splits jsv.splits)
qed

text \<open>
  Claim C17. What a sign-in with a security key rests on. A 200 means that the id names an active key
  of the table, that a challenge of a sign-in of its owner is pending, that the library verified the
  assertion for that challenge with the stored key, and that the owner's account is active. The owner
  gets exactly one session, and no challenge of the owner is left that a second assertion could
  answer, at any later time. Any other answer gives nothing.
\<close>

theorem webauthn_contract:
  assumes "authenticate_complete_route wa env d q (w, t) = (a, w', t')"
  shows "(rp_status a = 200 \<and>
      (\<exists>b r c v u. body_field q ''id'' = JStr b \<and> r \<in> set (wt_credentials t) \<and>
         cr_credential r = base64urlToBase64 b \<and> cr_active r \<and>
         getLatestWebauthnChallenge env (cr_user r) ''authentication'' t = Some c \<and> c \<noteq> [] \<and>
         check_assertion wa q r c = Some v \<and> truthy (get_field v ''verified'') \<and>
         user_by_id (cr_user r) w = Some u \<and> u_active u \<and> w' = session_world env d q u w \<and>
         (\<forall>env2. getLatestWebauthnChallenge env2 (cr_user r) ''authentication'' t' = None))) \<or>
    (rp_status a \<noteq> 200 \<and> rp_set a = [] \<and> w' = w)"
proof (cases "rp_status a = 200")
  case False
  with authenticate_refused [OF assms False] show ?thesis by simp
next
  case True
  from authenticate_200 [OF assms True] obtain b r c v n where f: "body_field q ''id'' = JStr b"
    "find_key (base64urlToBase64 b) t = Some r"
    "getLatestWebauthnChallenge env (cr_user r) ''authentication'' t = Some c" "c \<noteq> []"
    "check_assertion wa q r c = Some v" "truthy (get_field v ''verified'')"
    and s: "webauthn_sign_in r n env d q (w, t) = (a, w', t')" unfolding snd_conv by blast
  have r: "r \<in> set (wt_credentials t)" "cr_credential r = base64urlToBase64 b" "cr_active r"
    using find_Some_set [OF f(2) [unfolded find_key_def]] by auto
  from s show ?thesis
  proof (cases rule: webauthn_sign_in_cases)
    case (session u)
    with True f r show ?thesis unfolding fst_conv by blast
  qed simp
qed

subsection \<open>Keys and challenges over all routes\<close>

definition webauthn_ceremonies :: "webauthn_env \<Rightarrow> webauthn_tables fed_handler list" where
  "webauthn_ceremonies wa =
     [POST_register_begin wa, POST_register_complete wa, POST_authenticate_begin wa, POST_authenticate_complete wa]"

definition webauthn_routes :: "webauthn_env \<Rightarrow> webauthn_tables fed_handler list" where
  "webauthn_routes wa = webauthn_ceremonies wa @ [GET_credentials, DELETE_credential]"

lemma store_keeps: "storeWebauthnChallenge env i c p t = (b, t') \<Longrightarrow> wt_credentials t' = wt_credentials t"
  by (auto simp: storeWebauthnChallenge_def Let_def split: if_splits)

lemma register_begin_keeps:
  assumes "register_begin_route wa payload env d q s = (a, s')"
  shows "wt_credentials (snd s') = wt_credentials (snd s) \<and> fst s' = fst s"
  using assms unfolding register_begin_route_def Let_def
  by (auto dest: store_keeps split: if_splits option.splits prod.splits bool.splits)

lemma authenticate_begin_keeps:
  assumes "authenticate_begin_route wa env d q s = (a, s')"
  shows "wt_credentials (snd s') = wt_credentials (snd s) \<and> fst s' = fst s"
  using assms unfolding authenticate_begin_route_def Let_def
  by (auto dest: store_keeps split: if_splits option.splits prod.splits bool.splits)

lemmas begin_keeps = register_begin_keeps authenticate_begin_keeps

lemma list_keeps: "credentials_route payload env d q s = (a, s') \<Longrightarrow> s' = s"
  by (auto simp: credentials_route_def split: if_splits)

text \<open>What of a row stays when it is used.\<close>

definition same_key :: "credential_row \<Rightarrow> credential_row \<Rightarrow> bool" where
  "same_key r r' \<longleftrightarrow> cr_id r' = cr_id r \<and> cr_user r' = cr_user r \<and> cr_credential r' = cr_credential r \<and>
     cr_key r' = cr_key r \<and> cr_active r' = cr_active r"

definition registered :: "webauthn_env \<Rightarrow> auth_env \<Rightarrow> auth_http \<Rightarrow> webauthn_tables \<Rightarrow> credential_row \<Rightarrow> bool" where
  "registered wa env q t r \<longleftrightarrow>
     (\<exists>payload c v b k. requireRole env [] q = Inr payload \<and> claim_id payload = Some (cr_user r) \<and>
        getLatestWebauthnChallenge env (cr_user r) ''registration'' t = Some c \<and> c \<noteq> [] \<and>
        wa_verify_registration wa (hq_body q) c (expected_origin wa q) (getRpId wa q) = Some v \<and>
        truthy (get_field v ''verified'') \<and>
        buffer_from (get_field (get_field v ''registrationInfo'') ''credentialID'') = Some b \<and>
        buffer_from (get_field (get_field v ''registrationInfo'') ''credentialPublicKey'') = Some k \<and>
        cr_credential r = base64_of b \<and> cr_key r = base64_of k)"

lemma save_registration_rows:
  assumes "save_registration env q i info t = (a, t')" and "r \<in> set (wt_credentials t')"
  shows "r \<in> set (wt_credentials t) \<or>
    cr_user r = i \<and> (\<exists>b k. buffer_from (get_field info ''credentialID'') = Some b \<and>
      buffer_from (get_field info ''credentialPublicKey'') = Some k \<and> cr_credential r = base64_of b \<and> cr_key r = base64_of k)"
  using assms
  by (auto simp: save_registration_def add_key_row_def consumeWebauthnChallenge_def Let_def
      split: if_splits option.splits prod.splits bool.splits)

lemma save_registration_kept:
  assumes "save_registration env q i info t = (a, t')" and "r \<in> set (wt_credentials t)" and "\<not> legacy_row r"
  shows "r \<in> set (wt_credentials t')"
  using assms
  by (auto simp: save_registration_def add_key_row_def consumeWebauthnChallenge_def Let_def
      split: if_splits option.splits prod.splits bool.splits)

lemma register_complete_saves:
  assumes "register_complete_route wa payload env d q s = (a, s')"
  obtains (nothing) "s' = s" "rp_status a \<noteq> 200"
  | (saved) i c v where "claim_id payload = Some i" "getLatestWebauthnChallenge env i ''registration'' (snd s) = Some c" "c \<noteq> []"
      "wa_verify_registration wa (hq_body q) c (expected_origin wa q) (getRpId wa q) = Some v"
      "truthy (get_field v ''verified'')" "fst s' = fst s"
      "save_registration env q i (get_field v ''registrationInfo'') (snd s) = (a, snd s')"
  using assms
  by (auto simp: register_complete_route_def Let_def falsy_string_def
      split: if_splits option.splits prod.splits)

lemma authenticate_rows:
  assumes "authenticate_complete_route wa env d q s = (a, s')"
  shows "wt_credentials (snd s') = wt_credentials (snd s) \<or>
    (\<exists>f i. wt_credentials (snd s') = filter (\<lambda>r. \<not> (cr_user r = i \<and> legacy_row r)) (map f (wt_credentials (snd s))) \<and>
      (\<forall>r. same_key r (f r)))"
proof (cases "\<exists>r n. webauthn_sign_in r n env d q s = (a, s')")
  case True
  then obtain c n where s: "webauthn_sign_in c n env d q s = (a, s')" by blast
  let ?f = "\<lambda>r. if cr_id r = cr_id c then r\<lparr>cr_counter := n, cr_used := Some (ae_now env)\<rparr> else r"
  have "wt_credentials (snd s') = filter (\<lambda>r. \<not> (cr_user r = cr_user c \<and> legacy_row r)) (map ?f (wt_credentials (snd s)))"
    using s by (auto simp: webauthn_sign_in_def consumeWebauthnChallenge_def Let_def split: if_splits option.splits prod.splits)
  moreover have "same_key r (?f r)" for r by (simp add: same_key_def)
  ultimately show ?thesis by blast
next
  case False
  with assms show ?thesis
    unfolding authenticate_complete_route_def Let_def
    by (auto split: if_splits option.splits jsv.splits)
qed

lemma remove_rows:
  assumes "remove_key_route payload env d q s = (a, s')"
  shows "s' = s \<or> (\<exists>i. fst s' = fst s \<and> (snd s') = (snd s)\<lparr>wt_credentials := filter (\<lambda>r. \<not> own_key payload i r) (wt_credentials (snd s))\<rparr>)"
  using assms by (auto simp: remove_key_route_def split: if_splits option.splits)

text \<open>
  Claim C18. Keys belong to their users. After any request of these routes, a row of the table was
  there before with the same owner, id and public key, or the request came with a valid token of
  its owner, whose pending challenge it answered with a registration the library verified. And a row that
  is gone was one of the challenges of the earlier release, or its owner's token came with the request.
\<close>

theorem keys_confined:
  assumes "h \<in> set (webauthn_routes wa)" and "h env d q (w, t) = (a, w', t')"
  shows "(\<forall>r \<in> set (wt_credentials t'). (\<exists>r0 \<in> set (wt_credentials t). same_key r0 r) \<or> registered wa env q t r) \<and>
    (\<forall>r0 \<in> set (wt_credentials t). legacy_row r0 \<or> (\<exists>r \<in> set (wt_credentials t'). same_key r0 r) \<or>
      (\<exists>payload. requireRole env [] q = Inr payload \<and> claim_id payload = Some (cr_user r0)))"
    (is "?added \<and> ?gone")
proof -
  have refl: "same_key r r" for r by (simp add: same_key_def)
  have kept: "?added \<and> ?gone" if "wt_credentials t' = wt_credentials t" using that refl by auto
  consider "h = POST_register_begin wa" | "h = POST_register_complete wa" | "h = POST_authenticate_begin wa"
    | "h = POST_authenticate_complete wa" | "h = GET_credentials" | "h = DELETE_credential"
    using assms(1) by (auto simp: webauthn_routes_def webauthn_ceremonies_def)
  then show ?thesis
  proof cases
    case 1
    from assms(2) [unfolded 1 POST_register_begin_def] show ?thesis
      by (cases rule: fed_signed_in_cases) (use kept begin_keeps(1) in fastforce)+
  next
    case 2
    from assms(2) [unfolded 2 POST_register_complete_def] show ?thesis
    proof (cases rule: fed_signed_in_cases)
      case (passed payload x)
      from passed(3) show ?thesis
      proof (cases rule: register_complete_saves)
        case (saved i c v)
        have "?added"
          using save_registration_rows [OF saved(7)] saved(1-5) passed(1) refl unfolding registered_def by fastforce
        moreover have ?gone using save_registration_kept [OF saved(7)] refl by fastforce
        ultimately show ?thesis ..
      qed (use kept in simp)
    qed (use kept in simp)
  next
    case 3
    from assms(2) [unfolded 3 POST_authenticate_begin_def] show ?thesis
      by (cases rule: fed_limited_cases) (use kept begin_keeps(2) in fastforce)+
  next
    case 4
    from assms(2) [unfolded 4 POST_authenticate_complete_def] show ?thesis
    proof (cases rule: fed_limited_cases)
      case (passed x)
      from authenticate_rows [OF passed(2)] show ?thesis
      proof (elim disjE exE conjE)
        fix f i assume f: "wt_credentials (snd (w', t')) = filter (\<lambda>r. \<not> (cr_user r = i \<and> legacy_row r)) (map f (wt_credentials (snd (x, snd (w, t)))))"
          "\<forall>r. same_key r (f r)"
        then have ?added by auto
        moreover have "legacy_row (f r) = legacy_row r" for r using f(2) by (simp add: same_key_def legacy_row_def)
        then have ?gone using f by fastforce
        ultimately show ?thesis ..
      qed (use kept in simp)
    qed (use kept in simp)
  next
    case 5
    from assms(2) [unfolded 5 GET_credentials_def] show ?thesis
      by (cases rule: fed_signed_in_cases) (use kept list_keeps in fastforce)+
  next
    case 6
    from assms(2) [unfolded 6 DELETE_credential_def] show ?thesis
    proof (cases rule: fed_signed_in_cases)
      case (passed payload x)
      from remove_rows [OF passed(3)] show ?thesis
      proof (elim disjE exE conjE)
        fix i assume f: "snd (w', t') = (snd (x, snd (w, t)))\<lparr>wt_credentials := filter (\<lambda>r. \<not> own_key payload i r) (wt_credentials (snd (x, snd (w, t))))\<rparr>"
        then have ?added using refl by auto
        moreover have ?gone using f refl passed(1) by (fastforce simp: own_key_def)
        ultimately show ?thesis ..
      qed (use kept in simp)
    qed (use kept in simp)
  qed
qed

subsection \<open>Options without a challenge\<close>

text \<open>Requests for these routes, in any order and at any times, from empty tables.\<close>

inductive keys_run :: "webauthn_env \<Rightarrow> webauthn_tables \<Rightarrow> bool" for wa where
  start: "keys_run wa \<lparr>wt_challenges = [], wt_credentials = [], wt_next = n\<rparr>"
| request: "keys_run wa t \<Longrightarrow> h \<in> set (webauthn_routes wa) \<Longrightarrow> h env d q (w, t) = (a, w', t') \<Longrightarrow> keys_run wa t'"

definition no_keys :: "webauthn_tables \<Rightarrow> bool" where
  "no_keys t \<longleftrightarrow> wt_challenges t = [] \<and> wt_credentials t = []"

definition never_challenges :: "webauthn_env \<Rightarrow> bool" where
  "never_challenges wa \<longleftrightarrow>
     (\<forall>p e n xs. nullish (get_field (wa_registration wa p e n xs) ''challenge'')) \<and>
     (\<forall>p xs. nullish (get_field (wa_authentication wa p xs) ''challenge''))"

lemma no_pending: "no_keys t \<Longrightarrow> getLatestWebauthnChallenge env i p t = None"
  by (simp add: no_keys_def getLatestWebauthnChallenge_def)

lemma store_nothing: "nullish v \<Longrightarrow> no_keys t \<Longrightarrow> fst (storeWebauthnChallenge env i v p t) = False \<and>
    no_keys (snd (storeWebauthnChallenge env i v p t))"
  by (simp add: storeWebauthnChallenge_def no_keys_def Let_def)

lemma no_begin:
  assumes "never_challenges wa" and "no_keys (snd s)" and "register_begin_route wa payload env d q s = (a, s')"
  shows "rp_status a \<noteq> 200 \<and> no_keys (snd s')"
proof -
  have "fst (storeWebauthnChallenge env i (get_field (wa_registration wa p e n xs) ''challenge'') r (snd s)) = False \<and>
      no_keys (snd (storeWebauthnChallenge env i (get_field (wa_registration wa p e n xs) ''challenge'') r (snd s)))"
    for i p e n xs r by (rule store_nothing) (use assms(1,2) in \<open>auto simp: never_challenges_def\<close>)
  then show ?thesis
    using assms(2,3) unfolding register_begin_route_def Let_def
    by (auto split: if_splits option.splits prod.splits bool.splits) (metis fst_conv snd_conv)+
qed

lemma no_authenticate:
  assumes "no_keys (snd s)" and "authenticate_begin_route wa env d q s = (a, s')"
  shows "rp_status a \<noteq> 200 \<and> s' = s"
  using assms unfolding authenticate_begin_route_def Let_def active_keys_def no_keys_def
  by (auto split: if_splits option.splits prod.splits bool.splits)

lemma no_completion:
  "no_keys (snd s) \<Longrightarrow> register_complete_route wa payload env d q s = (a, s') \<Longrightarrow> rp_status a \<noteq> 200 \<and> s' = s"
  "no_keys (snd s) \<Longrightarrow> authenticate_complete_route wa env d q s = (a, s') \<Longrightarrow> rp_status a \<noteq> 200 \<and> s' = s"
proof -
  assume n: "no_keys (snd s)"
  show "rp_status a \<noteq> 200 \<and> s' = s" if "register_complete_route wa payload env d q s = (a, s')"
    using that by (cases rule: register_complete_saves) (use no_pending [OF n] in auto)
  have "find_key c (snd s) = None" for c using n by (simp add: find_key_def no_keys_def)
  then show "rp_status a \<noteq> 200 \<and> s' = s" if "authenticate_complete_route wa env d q s = (a, s')"
    using that unfolding authenticate_complete_route_def Let_def
    by (auto split: if_splits option.splits jsv.splits)
qed

lemma no_ceremony:
  assumes "never_challenges wa" and "no_keys t" and "h \<in> set (webauthn_ceremonies wa)" and "h env d q (w, t) = (a, w', t')"
  shows "no_keys t' \<and> counted w w' \<and> rp_status a \<noteq> 200"
proof -
  consider "h = POST_register_begin wa" | "h = POST_register_complete wa" | "h = POST_authenticate_begin wa"
    | "h = POST_authenticate_complete wa" using assms(3) by (auto simp: webauthn_ceremonies_def)
  then show ?thesis
  proof cases
    case 1
    from assms(4) [unfolded 1 POST_register_begin_def] show ?thesis
    proof (cases rule: fed_signed_in_cases)
      case (passed payload x)
      then show ?thesis
        using no_begin [OF assms(1) _ passed(3)] begin_keeps(1) [OF passed(3)] assms(2) by (auto simp: no_keys_def)
    qed (use assms(2) in auto)
  next
    case 2
    from assms(4) [unfolded 2 POST_register_complete_def] show ?thesis
    proof (cases rule: fed_signed_in_cases)
      case (passed payload x)
      then show ?thesis using no_completion(1) [OF _ passed(3)] assms(2) by auto
    qed (use assms(2) in auto)
  next
    case 3
    from assms(4) [unfolded 3 POST_authenticate_begin_def] show ?thesis
    proof (cases rule: fed_limited_cases)
      case (passed x)
      then show ?thesis using no_authenticate [OF _ passed(2)] assms(2) by auto
    qed (use assms(2) in auto)
  next
    case 4
    from assms(4) [unfolded 4 POST_authenticate_complete_def] show ?thesis
    proof (cases rule: fed_limited_cases)
      case (passed x)
      then show ?thesis using no_completion(2) [OF _ passed(2)] assms(2) by auto
    qed (use assms(2) in auto)
  qed
qed

lemma no_keys_step:
  assumes "never_challenges wa" and "no_keys t" and "h \<in> set (webauthn_routes wa)" and "h env d q (w, t) = (a, w', t')"
  shows "no_keys t'"
proof -
  consider "h \<in> set (webauthn_ceremonies wa)" | "h = GET_credentials" | "h = DELETE_credential"
    using assms(3) by (auto simp: webauthn_routes_def)
  then show ?thesis
  proof cases
    case 1
    then show ?thesis using no_ceremony assms by blast
  next
    case 2
    from assms(4) [unfolded 2 GET_credentials_def] show ?thesis
    proof (cases rule: fed_signed_in_cases)
      case (passed payload x)
      then show ?thesis using list_keeps [OF passed(3)] assms(2) by simp
    qed (use assms(2) in simp)
  next
    case 3
    from assms(4) [unfolded 3 DELETE_credential_def] show ?thesis
    proof (cases rule: fed_signed_in_cases)
      case (passed payload x)
      then show ?thesis using remove_rows [OF passed(3)] assms(2) by (auto simp: no_keys_def)
    qed (use assms(2) in simp)
  qed
qed

text \<open>
  Where the options the library returns have no challenge, as a promise that is not awaited
  has none, security keys cannot be used at all: however the routes are called, starting from empty
  tables, no registration and no sign-in ever begins or completes, no key is stored, and a request
  changes nothing but the counters of its limiter.
\<close>

lemma webauthn_unawaited:
  assumes "keys_run wa t" and "never_challenges wa" and "h \<in> set (webauthn_ceremonies wa)"
    and "h env d q (w, t) = (a, w', t')"
  shows "rp_status a \<noteq> 200 \<and> wt_credentials t' = [] \<and> wt_challenges t' = [] \<and>
    w' = w\<lparr>aw_shared_counters := aw_shared_counters w', aw_local_counters := aw_local_counters w'\<rparr>"
proof -
  have "no_keys t"
    using assms(1)
  proof induction
    case (request t h env d q w a w' t')
    then show ?case using no_keys_step assms(2) by blast
  qed (simp add: no_keys_def)
  from no_ceremony [OF assms(2) this assms(3,4)] show ?thesis by (simp add: no_keys_def counted_def)
qed

subsection \<open>A key on which the theorems apply\<close>

definition key_library :: webauthn_env where
  "key_library = \<lparr>wa_rp_id = None, wa_origin = None, wa_hostname = (\<lambda>q. None),
     wa_registration = (\<lambda>p e n xs. JObj [(''challenge'', JStr ''C1'')]),
     wa_authentication = (\<lambda>p xs. JObj [(''challenge'', JStr ''C2'')]),
     wa_verify_registration = (\<lambda>r c og p. Some (JObj [(''verified'', JBool (c = ''C1'')), (''registrationInfo'',
       JObj [(''credentialID'', JArr [JNum 251, JNum 255]), (''credentialPublicKey'', JArr [JNum 7]), (''counter'', JNum 0)])])),
     wa_verify_authentication = (\<lambda>r c og p i k n t. Some (JObj [(''verified'', JBool (c = ''C2'')),
       (''authenticationInfo'', JObj [(''newCounter'', JNum 1)])]))\<rparr>"

definition promising_library :: webauthn_env where
  "promising_library = key_library\<lparr>wa_registration := (\<lambda>p e n xs. JObj []), wa_authentication := (\<lambda>p xs. JObj [])\<rparr>"

definition key_env :: "int \<Rightarrow> auth_env" where
  "key_env t = (svc_env t)\<lparr>ae_verify := (\<lambda>x. Verified (JObj [(''id'', JNum 7)]))\<rparr>"

definition key_request :: auth_http where
  "key_request = \<lparr>hq_body = JObj [(''email'', JStr ''ada@atlas.io''), (''id'', JStr ''-_8''),
       (''response'', JObj [(''signature'', JStr ''S'')])],
     hq_headers = [(''authorization'', ''Bearer t'')], hq_cookies = [], hq_ip = ''10.0.0.1'', hq_params = [], hq_query = JUndef\<rparr>"

definition no_key_tables :: webauthn_tables where
  "no_key_tables = \<lparr>wt_challenges = [], wt_credentials = [], wt_next = 1\<rparr>"

definition ada_key :: credential_row where
  "ada_key = \<lparr>cr_id = 1, cr_user = 7, cr_credential = ''+/8='', cr_key = ''Bw=='', cr_counter = Some 0,
     cr_name = ''Security Key'', cr_type = ''hardware'', cr_transports = JArr [], cr_active = True, cr_created = 5,
     cr_used = None\<rparr>"

definition key_added :: webauthn_tables where
  "key_added = \<lparr>wt_challenges = [], wt_credentials = [ada_key], wt_next = 2\<rparr>"

definition key_asked :: webauthn_tables where
  "key_asked = key_added\<lparr>wt_challenges := [\<lparr>ch_user = 7, ch_challenge = ''C2'', ch_purpose = ''authentication'',
     ch_expires = 300006, ch_created = 6\<rparr>]\<rparr>"

definition key_begun :: webauthn_tables where
  "key_begun = no_key_tables\<lparr>wt_challenges := [\<lparr>ch_user = 7, ch_challenge = ''C1'', ch_purpose = ''registration'',
     ch_expires = 300004, ch_created = 4\<rparr>]\<rparr>"

lemma key_steps:
  "snd (snd (register_begin_route key_library (JObj [(''id'', JNum 7)]) (key_env 4) some_draws key_request (svc_world, no_key_tables))) = key_begun"
  "rp_status (fst (POST_register_complete key_library (key_env 5) some_draws key_request (svc_world, key_begun))) = 200"
  "snd (snd (POST_register_complete key_library (key_env 5) some_draws key_request (svc_world, key_begun))) = key_added"
  "snd (snd (authenticate_begin_route key_library (key_env 6) some_draws key_request (svc_world, key_added))) = key_asked"
  "rp_status (fst (authenticate_complete_route key_library (key_env 7) some_draws key_request (svc_world, key_asked))) = 200"
  by code_simp+

lemma key_found_again_witness:
  "\<exists>r. find_key (base64urlToBase64 (browser_id [CHR 0xFB, CHR 0xFF])) key_added = Some r \<and> cr_user r = 7 \<and>
     browser_id [CHR 0xFB, CHR 0xFF] = ''-_8''"
proof -
  let ?info = "JObj [(''credentialID'', JArr [JNum 251, JNum 255]), (''credentialPublicKey'', JArr [JNum 7]), (''counter'', JNum 0)]"
  have f: "save_registration (key_env 5) key_request 7 ?info key_begun =
      (fst (save_registration (key_env 5) key_request 7 ?info key_begun), key_added)"
    "rp_status (fst (save_registration (key_env 5) key_request 7 ?info key_begun)) = 200"
    "buffer_from (get_field ?info ''credentialID'') = Some [CHR 0xFB, CHR 0xFF]"
    "browser_id [CHR 0xFB, CHR 0xFF] = ''-_8''"
    by code_simp+
  from key_found_again [OF f(1-3)] f(4) show ?thesis by blast
qed

theorem webauthn_contract_witness:
  "rp_status (fst (authenticate_complete_route key_library (key_env 7) some_draws key_request (svc_world, key_asked))) = 200 \<and>
   (\<exists>r u. r \<in> set (wt_credentials key_asked) \<and> user_by_id (cr_user r) svc_world = Some u \<and>
      fst (snd (authenticate_complete_route key_library (key_env 7) some_draws key_request (svc_world, key_asked))) =
        session_world (key_env 7) some_draws key_request u svc_world)"
proof -
  obtain a w' t' where r: "authenticate_complete_route key_library (key_env 7) some_draws key_request (svc_world, key_asked) = (a, w', t')"
    by (metis prod.collapse)
  show ?thesis using webauthn_contract [OF r] key_steps(5) unfolding r fst_conv snd_conv by blast
qed

theorem keys_confined_witness:
  "registered key_library (key_env 5) key_request key_begun ada_key \<and> wt_credentials key_added = [ada_key]"
proof -
  have "POST_register_complete key_library \<in> set (webauthn_routes key_library)"
    by (simp add: webauthn_routes_def webauthn_ceremonies_def)
  moreover obtain a w' where "POST_register_complete key_library (key_env 5) some_draws key_request (svc_world, key_begun) = (a, w', key_added)"
    using key_steps(3) by (metis prod.collapse)
  moreover have "wt_credentials key_begun = []" "wt_credentials key_added = [ada_key]" by code_simp+
  ultimately show ?thesis using keys_confined [of "POST_register_complete key_library" key_library] by fastforce
qed

lemma webauthn_unawaited_witness:
  "rp_status (fst (POST_register_begin promising_library (key_env 4) some_draws key_request (svc_world, no_key_tables))) \<noteq> 200 \<and>
   wt_credentials (snd (snd (POST_register_begin promising_library (key_env 4) some_draws key_request (svc_world, no_key_tables)))) = []"
proof -
  obtain a w' t' where r: "POST_register_begin promising_library (key_env 4) some_draws key_request (svc_world, no_key_tables) = (a, w', t')"
    by (metis prod.collapse)
  have "keys_run promising_library no_key_tables" unfolding no_key_tables_def by (rule keys_run.start)
  moreover have "never_challenges promising_library"
    by (simp add: never_challenges_def promising_library_def get_field_def nullish_def)
  moreover have "POST_register_begin promising_library \<in> set (webauthn_ceremonies promising_library)"
    by (simp add: webauthn_ceremonies_def)
  ultimately show ?thesis
    using webauthn_unawaited [of promising_library no_key_tables "POST_register_begin promising_library", OF _ _ _ r] unfolding r fst_conv snd_conv by blast
qed

end
