(* ===== verification/Auth_Whole.thy ===== *)
theory Auth_Whole
  imports Auth_Service Auth_Saml Auth_Oauth Auth_Webauthn
begin

section \<open>The auth service with the federated sign-ins\<close>

text \<open>
  All routes of \<open>services/auth-service/index.js\<close> that keep accounts, sessions and sign-ins: those of
  \<open>Auth_Service\<close>, and those of SAML, OAuth and security keys with their own tables. Each request
  refines a few steps of the machine of accounts (at most one account made and one session given), so
  the invariants of that machine hold of every run over all the routes.
\<close>

datatype fed_route =
    SamlMetadata | SamlLogin | SamlAcs
  | KeyBegin | KeyComplete | KeyChallenge | KeySignIn | KeyList | KeyRemove
  | ProviderList | ProviderCreate | OauthLogin | OauthCallback | LinkList | LinkRemove

fun fed_line :: "fed_route \<Rightarrow> string \<times> string" where
  "fed_line SamlMetadata = (''GET'', ''/saml/metadata'')"
| "fed_line SamlLogin = (''POST'', ''/saml/login'')"
| "fed_line SamlAcs = (''POST'', ''/saml/acs'')"
| "fed_line KeyBegin = (''POST'', ''/webauthn/register/begin'')"
| "fed_line KeyComplete = (''POST'', ''/webauthn/register/complete'')"
| "fed_line KeyChallenge = (''POST'', ''/webauthn/authenticate/begin'')"
| "fed_line KeySignIn = (''POST'', ''/webauthn/authenticate/complete'')"
| "fed_line KeyList = (''GET'', ''/webauthn/credentials'')"
| "fed_line KeyRemove = (''DELETE'', ''/webauthn/credentials/:id'')"
| "fed_line ProviderList = (''GET'', ''/oauth/providers'')"
| "fed_line ProviderCreate = (''POST'', ''/oauth/providers'')"
| "fed_line OauthLogin = (''POST'', ''/oauth/login/:provider'')"
| "fed_line OauthCallback = (''POST'', ''/oauth/callback/:provider'')"
| "fed_line LinkList = (''GET'', ''/oauth/links'')"
| "fed_line LinkRemove = (''DELETE'', ''/oauth/links/:provider'')"

text \<open>What others answer while a request is handled, and the tables.\<close>

record fed_env =
  fe_saml :: saml_env
  fe_oauth :: oauth_env
  fe_keys :: webauthn_env

record fed_tables =
  ft_saml :: "saml_row list"
  ft_oauth :: oauth_tables
  ft_keys :: webauthn_tables

definition on_saml :: "saml_row list fed_handler \<Rightarrow> fed_tables fed_handler" where
  "on_saml h env d q s = (case h env d q (fst s, ft_saml (snd s)) of (a, w, t) \<Rightarrow> (a, w, (snd s)\<lparr>ft_saml := t\<rparr>))"
definition on_oauth :: "oauth_tables fed_handler \<Rightarrow> fed_tables fed_handler" where
  "on_oauth h env d q s = (case h env d q (fst s, ft_oauth (snd s)) of (a, w, t) \<Rightarrow> (a, w, (snd s)\<lparr>ft_oauth := t\<rparr>))"
definition on_keys :: "webauthn_tables fed_handler \<Rightarrow> fed_tables fed_handler" where
  "on_keys h env d q s = (case h env d q (fst s, ft_keys (snd s)) of (a, w, t) \<Rightarrow> (a, w, (snd s)\<lparr>ft_keys := t\<rparr>))"

fun federated :: "fed_env \<Rightarrow> fed_route \<Rightarrow> fed_tables fed_handler" where
  "federated fe SamlMetadata = on_saml (GET_saml_metadata (fe_saml fe))"
| "federated fe SamlLogin = on_saml (POST_saml_login (fe_saml fe))"
| "federated fe SamlAcs = on_saml (POST_saml_acs (fe_saml fe))"
| "federated fe KeyBegin = on_keys (POST_register_begin (fe_keys fe))"
| "federated fe KeyComplete = on_keys (POST_register_complete (fe_keys fe))"
| "federated fe KeyChallenge = on_keys (POST_authenticate_begin (fe_keys fe))"
| "federated fe KeySignIn = on_keys (POST_authenticate_complete (fe_keys fe))"
| "federated fe KeyList = on_keys GET_credentials"
| "federated fe KeyRemove = on_keys DELETE_credential"
| "federated fe ProviderList = on_oauth GET_oauth_providers"
| "federated fe ProviderCreate = on_oauth (POST_oauth_providers (fe_oauth fe))"
| "federated fe OauthLogin = on_oauth (POST_oauth_login (fe_oauth fe))"
| "federated fe OauthCallback = on_oauth (POST_oauth_callback (fe_oauth fe))"
| "federated fe LinkList = on_oauth GET_oauth_links"
| "federated fe LinkRemove = on_oauth DELETE_oauth_link"

datatype any_route = Own auth_route | Fed fed_route

fun whole_service :: "service_config \<Rightarrow> fed_env \<Rightarrow> any_route \<Rightarrow> fed_tables fed_handler" where
  "whole_service cfg fe (Own r) env d q s =
     (case auth_service cfg r env d q (fst s) of (a, w) \<Rightarrow> (a, w, snd s))"
| "whole_service cfg fe (Fed r) env d q s = federated fe r env d q s"

text \<open>One tick of the timer of the tables.\<close>

definition sweep_stale :: "int \<Rightarrow> auth_world \<times> fed_tables \<Rightarrow> auth_world \<times> fed_tables" where
  "sweep_stale now s = (sweep_failed now (fst s), (snd s)\<lparr>ft_saml := sweep_saml now (ft_saml (snd s))\<rparr>)"

subsection \<open>What a federated session rests on\<close>

definition vouched_saml :: "saml_env \<Rightarrow> auth_env \<Rightarrow> auth_http \<Rightarrow> saml_row list \<Rightarrow> user_row \<Rightarrow> bool" where
  "vouched_saml se env q rows u \<longleftrightarrow>
     (\<exists>doc r. accepted_response se env q doc \<and> r \<in> set rows \<and>
        redeemable_request (ae_now env) (extractSamlInResponseTo doc) r \<and>
        u_email u = normalizeEmail (JStr (asserted_email doc)))"

definition vouched_oauth :: "oauth_env \<Rightarrow> auth_env \<Rightarrow> auth_http \<Rightarrow> oauth_tables \<Rightarrow> user_row \<Rightarrow> bool" where
  "vouched_oauth oa env q t u \<longleftrightarrow>
     (\<exists>st row info c. st \<in> set (ot_states t) \<and>
        redeemable_state env (param q ''provider'') (pg_text env (body_field q ''state'')) st \<and>
        enabled_provider (param q ''provider'') (os_tenant st) t = Some row \<and>
        established oa env q (param q ''provider'') st row (ot_caches t) info (u_email u) c \<and>
        (falsy_string (u_tenant u) \<or> u_tenant u = Some (os_tenant st)))"

definition vouched_key :: "webauthn_env \<Rightarrow> auth_env \<Rightarrow> auth_http \<Rightarrow> webauthn_tables \<Rightarrow> user_row \<Rightarrow> bool" where
  "vouched_key wa env q t u \<longleftrightarrow>
     (\<exists>b k c v. body_field q ''id'' = JStr b \<and> k \<in> set (wt_credentials t) \<and> cr_credential k = base64urlToBase64 b \<and>
        cr_active k \<and> cr_user k = u_id u \<and> getLatestWebauthnChallenge env (cr_user k) ''authentication'' t = Some c \<and>
        check_assertion wa q k c = Some v \<and> truthy (get_field v ''verified''))"

definition vouched :: "fed_env \<Rightarrow> fed_route \<Rightarrow> auth_env \<Rightarrow> auth_http \<Rightarrow> fed_tables \<Rightarrow> user_row \<Rightarrow> bool" where
  "vouched fe r env q t u \<longleftrightarrow>
     u_active u \<and>
     (r = SamlAcs \<and> vouched_saml (fe_saml fe) env q (ft_saml t) u \<or>
      r = OauthCallback \<and> vouched_oauth (fe_oauth fe) env q (ft_oauth t) u \<or>
      r = KeySignIn \<and> vouched_key (fe_keys fe) env q (ft_keys t) u)"

text \<open>The account there was, or the one just made; then perhaps the session.\<close>

definition admitted :: "auth_world \<Rightarrow> user_row \<Rightarrow> auth_world \<Rightarrow> bool" where
  "admitted w u w1 \<longleftrightarrow>
     u \<in> set (users (aw_db w)) \<and> w1 = w \<or>
     u_id u = aw_next_user w \<and> u_role u = ''employee'' \<and> u_email u \<notin> u_email ` set (users (aw_db w)) \<and>
       w1 = w\<lparr>aw_db := (aw_db w)\<lparr>users := users (aw_db w) @ [u]\<rparr>, aw_next_user := aw_next_user w + 1\<rparr>"

definition fed_change ::
  "fed_env \<Rightarrow> fed_route \<Rightarrow> auth_env \<Rightarrow> draws \<Rightarrow> auth_http \<Rightarrow> fed_tables \<Rightarrow> auth_world \<Rightarrow> auth_world \<Rightarrow> bool"
where
  "fed_change fe r env d q t w w' \<longleftrightarrow>
     accounts_of w' = accounts_of w \<or>
     (\<exists>x u w1. counted w x \<and> admitted x u w1 \<and>
        (w' = w1 \<and> r = OauthCallback \<or> w' = session_world env d q u w1 \<and> vouched fe r env q t u))"

lemma counted_accounts: "counted w w' \<Longrightarrow> accounts_of w' = accounts_of w"
proof -
  assume "counted w w'"
  then obtain m n where "w' = w\<lparr>aw_shared_counters := m, aw_local_counters := n\<rparr>" unfolding counted_def by blast
  then show ?thesis by simp
qed

lemma account_for_admitted: "account_for env d email tenant temp w u w1 \<Longrightarrow> admitted w u w1 \<and> u_email u = email"
  by (auto simp: account_for_def admitted_def user_by_email_def find_None_iff dest: find_Some_set)

lemma idle_change: "accounts_of w' = accounts_of w \<Longrightarrow> fed_change fe r env d q t w w'"
  by (simp add: fed_change_def)

subsection \<open>The routes as steps\<close>

text \<open>A handler that changes its own tables only.\<close>

definition keeps_world :: "'s fed_handler \<Rightarrow> bool" where
  "keeps_world h \<longleftrightarrow> (\<forall>env d q s. fst (snd (h env d q s)) = fst s)"

lemma keeps_worldD: "keeps_world h \<Longrightarrow> h env d q s = (a, s') \<Longrightarrow> fst s' = fst s"
  unfolding keeps_world_def by (metis snd_conv)

lemma keeps_worldI: "(\<And>env d q s a s'. h env d q s = (a, s') \<Longrightarrow> fst s' = fst s) \<Longrightarrow> keeps_world h"
  unfolding keeps_world_def by (metis prod.collapse)

lemma keeps_limited:
  assumes "keeps_world h" and "fed_limited action n k h env d q s = (a, s')"
  shows "accounts_of (fst s') = accounts_of (fst s)"
  using assms(2)
proof (cases rule: fed_limited_cases)
  case (passed x)
  then have "fst s' = x" using keeps_worldD [OF assms(1) passed(2)] by simp
  then show ?thesis using counted_accounts [OF passed(1)] by simp
qed (use counted_accounts in simp)

lemma keeps_signed_in:
  assumes "\<And>payload. keeps_world (h payload)" and "fed_signed_in roles action n h env d q s = (a, s')"
  shows "accounts_of (fst s') = accounts_of (fst s)"
  using assms(2)
proof (cases rule: fed_signed_in_cases)
  case (passed payload x)
  then have "fst s' = x" using keeps_worldD [OF assms(1) passed(3)] by simp
  then show ?thesis using counted_accounts [OF passed(2)] by simp
qed (use counted_accounts in simp)

lemma keeps_saml: "keeps_world (saml_login_route se)" "keeps_world (saml_metadata_route se)"
  unfolding keeps_world_def saml_login_route_def saml_metadata_route_def Let_def
  by (auto split: option.splits)

lemma keeps_keys:
  "keeps_world (register_begin_route wa payload)" "keeps_world (authenticate_begin_route wa)"
  "keeps_world (register_complete_route wa payload)" "keeps_world (credentials_route payload)"
  "keeps_world (remove_key_route payload)"
  by (rule keeps_worldI, use begin_keeps list_keeps remove_rows in \<open>blast | metis register_complete_saves\<close>)+

lemma keeps_oauth:
  "keeps_world (providers_route payload)" "keeps_world (provider_create_route oa payload)"
  "keeps_world (oauth_login_route oa)" "keeps_world (links_route payload)" "keeps_world (unlink_route payload)"
  unfolding keeps_world_def providers_route_def provider_create_route_def oauth_login_route_def links_route_def
    unlink_route_def Let_def
  by (auto split: option.splits)

text \<open>The three that sign in.\<close>

lemma saml_acs_change:
  assumes "POST_saml_acs (fe_saml fe) env d q (w, ft_saml t) = (a, w', rows')"
  shows "fed_change fe SamlAcs env d q t w w'"
  using assms unfolding POST_saml_acs_def
proof (cases rule: fed_limited_cases)
  case (refused x)
  then show ?thesis using counted_accounts [of w x] by (auto intro: idle_change)
next
  case (passed x)
  from passed(2) [unfolded snd_conv] show ?thesis
  proof (cases rule: saml_acs_cases)
    case refused
    then show ?thesis using counted_accounts passed(1) by (auto intro!: idle_change)
  next
    case (session doc r u w1)
    note u = account_for_admitted [OF session(6)]
    have "vouched_saml (fe_saml fe) env q (ft_saml t) u" using session u unfolding vouched_saml_def by blast
    then have "vouched fe SamlAcs env q t u" using session(7) by (simp add: vouched_def)
    then show ?thesis using u session(8) passed(1) unfolding fed_change_def by auto
  qed
qed

lemma oauth_callback_change:
  assumes "POST_oauth_callback (fe_oauth fe) env d q (w, ft_oauth t) = (a, w', t')"
  shows "fed_change fe OauthCallback env d q t w w'"
  using assms unfolding POST_oauth_callback_def
proof (cases rule: fed_limited_cases)
  case (refused x)
  then show ?thesis using counted_accounts [of w x] by (auto intro: idle_change)
next
  case (passed x)
  from passed(2) [unfolded snd_conv] show ?thesis
  proof (cases rule: oauth_callback_cases)
    case refused
    from refused(3) consider "w' = x" | tenant email u where "account_for env d email tenant (oa_temp (fe_oauth fe)) x u w'"
      unfolding provisioned_only_def by blast
    then show ?thesis
    proof cases
      case 1
      then show ?thesis using counted_accounts passed(1) by (auto intro!: idle_change)
    next
      case (2 tenant email u)
      then show ?thesis using account_for_admitted [OF 2] passed(1) unfolding fed_change_def by auto
    qed
  next
    case (session st row)
    obtain info email u w1 where g: "established (fe_oauth fe) env q (param q ''provider'') st row (ot_caches (ft_oauth t)) info email (ot_caches t')"
      "account_for env d email (os_tenant st) (oa_temp (fe_oauth fe)) x u w1" "u_active u"
      "falsy_string (u_tenant u) \<or> u_tenant u = Some (os_tenant st)" "w' = session_world env d q u w1"
      using session(6) unfolding oauth_granted_def fst_conv snd_conv by blast
    note u = account_for_admitted [OF g(2)]
    have "vouched_oauth (fe_oauth fe) env q (ft_oauth t) u"
      using session(2,3,5) g(1,4) u unfolding vouched_oauth_def by blast
    then have "vouched fe OauthCallback env q t u" using g(3) by (simp add: vouched_def)
    then show ?thesis using u g(5) passed(1) unfolding fed_change_def by auto
  qed
qed

lemma key_sign_in_change:
  assumes "POST_authenticate_complete (fe_keys fe) env d q (w, ft_keys t) = (a, w', t')"
  shows "fed_change fe KeySignIn env d q t w w'"
  using assms unfolding POST_authenticate_complete_def
proof (cases rule: fed_limited_cases)
  case (refused x)
  then show ?thesis using counted_accounts [of w x] by (auto intro: idle_change)
next
  case (passed x)
  show ?thesis
  proof (cases "rp_status a = 200")
    case False
    then have "w' = x" using authenticate_refused [OF passed(2)] by simp
    then show ?thesis using counted_accounts passed(1) by (auto intro!: idle_change)
  next
    case True
    from passed(2) True show ?thesis
    proof (cases rule: authenticate_200)
      case f: (1 b k c v n)
      have k: "k \<in> set (wt_credentials (ft_keys t)) \<and> cr_credential k = base64urlToBase64 b \<and> cr_active k"
        using find_Some_set [OF f(2) [unfolded find_key_def snd_conv]] by blast
      from f(7) show ?thesis
      proof (cases rule: webauthn_sign_in_cases)
        case (session u)
        have u: "u_id u = cr_user k" "u \<in> set (users (aw_db x))" using user_by_id_Some session(2) by auto
        have "vouched_key (fe_keys fe) env q (ft_keys t) u"
          unfolding vouched_key_def u(1) using f(1,3,5,6) k by auto
        then have "vouched fe KeySignIn env q t u" using session(3) by (simp add: vouched_def)
        moreover have "admitted x u x" using u(2) by (simp add: admitted_def)
        ultimately show ?thesis using session(4) passed(1) unfolding fed_change_def by auto
      qed (use True in simp)
    qed
  qed
qed

lemma on_tables:
  "on_saml h env d q (w, t) = (a, w', t') \<Longrightarrow> \<exists>x. h env d q (w, ft_saml t) = (a, w', x)"
  "on_oauth h' env d q (w, t) = (a, w', t') \<Longrightarrow> \<exists>x. h' env d q (w, ft_oauth t) = (a, w', x)"
  "on_keys h'' env d q (w, t) = (a, w', t') \<Longrightarrow> \<exists>x. h'' env d q (w, ft_keys t) = (a, w', x)"
  by (auto simp: on_saml_def on_oauth_def on_keys_def split: prod.splits)

lemma keeps_on:
  "keeps_world h \<Longrightarrow> on_saml (fed_limited action n k h) env d q (w, t) = (a, w', t') \<Longrightarrow> accounts_of w' = accounts_of w"
  "keeps_world h \<Longrightarrow> on_saml h env d q (w, t) = (a, w', t') \<Longrightarrow> accounts_of w' = accounts_of w"
  "keeps_world h' \<Longrightarrow> on_oauth (fed_limited action n k h') env d q (w, t) = (a, w', t') \<Longrightarrow> accounts_of w' = accounts_of w"
  "keeps_world h'' \<Longrightarrow> on_keys (fed_limited action n k h'') env d q (w, t) = (a, w', t') \<Longrightarrow> accounts_of w' = accounts_of w"
  using on_tables keeps_limited keeps_worldD by (metis fst_conv)+

lemma keeps_on_signed_in:
  "(\<And>p. keeps_world (h' p)) \<Longrightarrow> on_oauth (fed_signed_in roles action n h') env d q (w, t) = (a, w', t') \<Longrightarrow>
    accounts_of w' = accounts_of w"
  "(\<And>p. keeps_world (h'' p)) \<Longrightarrow> on_keys (fed_signed_in roles action n h'') env d q (w, t) = (a, w', t') \<Longrightarrow>
    accounts_of w' = accounts_of w"
  using on_tables(2,3) keeps_signed_in by (metis fst_conv)+

lemma federated_change:
  assumes "federated fe r env d q (w, t) = (a, w', t')"
  shows "fed_change fe r env d q t w w'"
proof (cases r)
  case SamlAcs
  then show ?thesis using assms on_tables(1) saml_acs_change by (metis federated.simps(3))
next
  case OauthCallback
  then show ?thesis using assms on_tables(2) oauth_callback_change by (metis federated.simps(13))
next
  case KeySignIn
  then show ?thesis using assms on_tables(3) key_sign_in_change by (metis federated.simps(7))
next
  case SamlMetadata
  then show ?thesis using assms keeps_on(2) [OF keeps_saml(2)] by (simp add: GET_saml_metadata_def idle_change)
next
  case SamlLogin
  then show ?thesis using assms keeps_on(1) [OF keeps_saml(1)] by (simp add: POST_saml_login_def idle_change)
next
  case KeyBegin
  then show ?thesis using assms keeps_on_signed_in(2) [OF keeps_keys(1)] by (simp add: POST_register_begin_def idle_change)
next
  case KeyComplete
  then show ?thesis using assms keeps_on_signed_in(2) [OF keeps_keys(3)] by (simp add: POST_register_complete_def idle_change)
next
  case KeyChallenge
  then show ?thesis using assms keeps_on(4) [OF keeps_keys(2)] by (simp add: POST_authenticate_begin_def idle_change)
next
  case KeyList
  then show ?thesis using assms keeps_on_signed_in(2) [OF keeps_keys(4)] by (simp add: GET_credentials_def idle_change)
next
  case KeyRemove
  then show ?thesis using assms keeps_on_signed_in(2) [OF keeps_keys(5)] by (simp add: DELETE_credential_def idle_change)
next
  case ProviderList
  then show ?thesis using assms keeps_on_signed_in(1) [OF keeps_oauth(1)] by (simp add: GET_oauth_providers_def idle_change)
next
  case ProviderCreate
  then show ?thesis using assms keeps_on_signed_in(1) [OF keeps_oauth(2)] by (simp add: POST_oauth_providers_def idle_change)
next
  case OauthLogin
  then show ?thesis using assms keeps_on(3) [OF keeps_oauth(3)] by (simp add: POST_oauth_login_def idle_change)
next
  case LinkList
  then show ?thesis using assms keeps_on_signed_in(1) [OF keeps_oauth(4)] by (simp add: GET_oauth_links_def idle_change)
next
  case LinkRemove
  then show ?thesis using assms keeps_on_signed_in(1) [OF keeps_oauth(5)] by (simp add: DELETE_oauth_link_def idle_change)
qed

subsection \<open>Every request refines the machine of accounts\<close>

inductive account_steps :: "auth_env \<Rightarrow> draws \<Rightarrow> accounts \<Rightarrow> account_event list \<Rightarrow> accounts \<Rightarrow> bool" for env d where
  finished: "account_steps env d s [] s"
| step: "account_step env d s e s' \<Longrightarrow> account_steps env d s' es s'' \<Longrightarrow> account_steps env d s (e # es) s''"

lemma one_step: "account_step env d s e s' \<Longrightarrow> account_steps env d s [e] s'"
  by (rule account_steps.step [OF _ account_steps.finished])

lemma two_steps: "account_step env d s e s' \<Longrightarrow> account_step env d s' e' s'' \<Longrightarrow> account_steps env d s [e, e'] s''"
  by (rule account_steps.step [OF _ one_step])

text \<open>What a request may do to the accounts, by its route.\<close>

definition rests_on ::
  "service_config \<Rightarrow> fed_env \<Rightarrow> any_route \<Rightarrow> auth_env \<Rightarrow> auth_http \<Rightarrow> auth_world \<times> fed_tables \<Rightarrow> account_event list \<Rightarrow> bool"
where
  "rests_on cfg fe r env q s es \<longleftrightarrow>
     (case r of
        Own o' \<Rightarrow> (\<exists>e. es = [e] \<and> justified cfg o' env q (fst s) e)
      | Fed f \<Rightarrow>
          es = [] \<or> es = [Joined] \<and> f = OauthCallback \<or>
          (\<exists>u. (es = [SignedIn (u_id u)] \<or> es = [Joined, SignedIn (u_id u)]) \<and> vouched fe f env q (snd s) u))"

lemma admitted_step:
  assumes "admitted w u w1"
  shows "(u \<in> set (users (aw_db w)) \<and> accounts_of w1 = accounts_of w \<or>
      account_step env d (accounts_of w) Joined (accounts_of w1)) \<and> u \<in> set (users (aw_db w1))"
proof (cases "u \<in> set (users (aw_db w)) \<and> w1 = w")
  case False
  then have "u_id u = aw_next_user w" "u_role u = ''employee''" "u_email u \<notin> u_email ` set (users (aw_db w))"
    and w1: "w1 = w\<lparr>aw_db := (aw_db w)\<lparr>users := users (aw_db w) @ [u]\<rparr>, aw_next_user := aw_next_user w + 1\<rparr>"
    using assms by (auto simp: admitted_def)
  from account_step.join [OF this(1-3), of env d] show ?thesis by (simp add: w1)
qed simp

lemma session_step:
  assumes "u \<in> set (users (aw_db w))" and "u_active u"
  shows "account_step env d (accounts_of w) (SignedIn (u_id u)) (accounts_of (session_world env d q u w))"
  by (rule signed_in_step [OF assms]) (simp_all add: session_world_def)

lemma whole_steps:
  assumes "whole_service cfg fe r env d q (w, t) = (a, w', t')" and "keys_of_users w"
  obtains es where "account_steps env d (accounts_of w) es (accounts_of w')" "rests_on cfg fe r env q (w, t) es"
proof (cases r)
  case (Own r')
  then have "auth_service cfg r' env d q w = (a, w')" using assms(1) by (auto split: prod.splits)
  from service_step [OF this assms(2)] obtain e where
    "account_step env d (accounts_of w) e (accounts_of w')" "justified cfg r' env q w e" .
  then show thesis using that [OF one_step] Own by (simp add: rests_on_def)
next
  case (Fed f)
  then have "fed_change fe f env d q t w w'" using assms(1) federated_change by simp
  then consider (idle) "accounts_of w' = accounts_of w"
    | (change) x u w1 where "counted w x" "admitted x u w1"
        "w' = w1 \<and> f = OauthCallback \<or> w' = session_world env d q u w1 \<and> vouched fe f env q t u"
    unfolding fed_change_def by blast
  then show thesis
  proof cases
    case idle
    then show thesis using that [of "[]"] account_steps.finished Fed by (simp add: rests_on_def)
  next
    case change
    note x = counted_accounts [OF change(1)] and j = admitted_step [OF change(2), of env d]
    from change(3) show thesis
    proof (elim disjE conjE)
      assume "w' = w1" "f = OauthCallback"
      then show thesis
        using j x that [of "[]"] that [OF one_step, of Joined] account_steps.finished Fed by (auto simp: rests_on_def)
    next
      assume s: "w' = session_world env d q u w1" "vouched fe f env q t u"
      have u: "account_step env d (accounts_of w1) (SignedIn (u_id u)) (accounts_of w')"
        unfolding s(1) by (rule session_step) (use j s(2) in \<open>auto simp: vouched_def\<close>)
      have "rests_on cfg fe r env q (w, t) [SignedIn (u_id u)]" "rests_on cfg fe r env q (w, t) [Joined, SignedIn (u_id u)]"
        using s(2) Fed by (auto simp: rests_on_def)
      then show thesis
        using j x u that one_step [of env d "accounts_of w"] two_steps [of env d "accounts_of w"] by metis
    qed
  qed
qed


subsection \<open>Runs over all routes\<close>

inductive whole_run :: "service_config \<Rightarrow> auth_world \<times> fed_tables \<Rightarrow> auth_world \<times> fed_tables \<Rightarrow> bool" for cfg where
  start: "whole_run cfg s s"
| request: "whole_run cfg s v \<Longrightarrow> fresh_draws env d (aw_db (fst v)) \<Longrightarrow> whole_service cfg fe r env d q v = (a, v') \<Longrightarrow>
    whole_run cfg s v'"
| sweep_tables: "whole_run cfg s v \<Longrightarrow> whole_run cfg s (sweep_stale now v)"
| sweep_limits: "whole_run cfg s v \<Longrightarrow> whole_run cfg s (sweep_counters now (fst v), snd v)"

lemma sweep_stale_accounts [simp]: "accounts_of (fst (sweep_stale now s)) = accounts_of (fst s)"
  by (simp add: sweep_stale_def)

lemma join_fresh: "account_step env d s Joined s' \<Longrightarrow> fresh_draws env d (fst s) \<Longrightarrow> fresh_draws env d (fst s')"
  by (auto elim!: account_stepE simp: fresh_draws_def)

lemma steps_ok:
  assumes "account_steps env d s es s'" and "accounts_ok s" and "fresh_draws env d (fst s)"
    and "rests_on cfg fe r env q v es"
  shows "accounts_ok s'"
proof -
  consider "es = []" | e where "es = [e]" | i where "es = [Joined, SignedIn i]"
    using assms(4) by (auto simp: rests_on_def split: any_route.splits)
  then show ?thesis
  proof cases
    case 1
    then show ?thesis using assms(1,2) by (auto elim: account_steps.cases)
  next
    case 2
    then have "account_step env d s e s'" using assms(1) by (auto elim!: account_steps.cases)
    then show ?thesis using account_step_ok assms(2,3) by blast
  next
    case 3
    then obtain s1 where "account_step env d s Joined s1" "account_step env d s1 (SignedIn i) s'"
      using assms(1) by (auto elim!: account_steps.cases)
    then show ?thesis using account_step_ok join_fresh assms(2,3) by blast
  qed
qed

lemma whole_run_ok:
  assumes "whole_run cfg s0 s" and "accounts_ok (accounts_of (fst s0))"
  shows "accounts_ok (accounts_of (fst s))"
  using assms
proof (induction rule: whole_run.induct)
  case (request s v env d fe r q a v')
  note ok = request.IH [OF request.prems]
  obtain w t w' t' where v: "v = (w, t)" "v' = (w', t')" by fastforce
  from whole_steps [OF request.hyps(3) [unfolded v] accounts_ok_keys [OF ok [unfolded v fst_conv]]]
  obtain es where "account_steps env d (accounts_of w) es (accounts_of w')" "rests_on cfg fe r env q (w, t) es" .
  then show ?case using steps_ok ok request.hyps(2) v by fastforce
qed simp_all

text \<open>
  Claim C11. The tables of the service stay well-formed over all its routes. However many requests of
  whatever kind are answered, whatever the identity providers, the OAuth providers and the library of
  security keys answer, and with the sweeps between them: ids and addresses of users are unique,
  every id was drawn from the sequence, session ids and stored tokens are unique, and every session
  and every refresh token belongs to a user there is.
\<close>

theorem whole_invariant:
  assumes "whole_run cfg s0 s" and "accounts_ok (accounts_of (fst s0))"
  shows "accounts_ok (accounts_of (fst s))"
  using assms by (rule whole_run_ok)

subsection \<open>Sessions, roles and passwords over all routes\<close>

lemma steps_sessions:
  assumes "account_steps env d s es s'" and "x \<in> set (sessions (fst s'))"
  shows "(\<exists>y \<in> set (sessions (fst s)). se_id y = se_id x \<and> se_user y = se_user x) \<or>
    SignedIn (se_user x) \<in> set es \<and> se_id x = dr_session d"
  using assms
proof (induction arbitrary: x rule: account_steps.induct)
  case (step s e s' es s'')
  from step.IH [OF step.prems] show ?case
  proof (elim disjE bexE conjE)
    fix y assume "y \<in> set (sessions (fst s'))" "se_id y = se_id x" "se_user y = se_user x"
    then show ?thesis using session_ids_after [OF step.hyps(1), of y] by auto
  qed simp
qed blast

definition shown_for :: "fed_env \<Rightarrow> any_route \<Rightarrow> auth_env \<Rightarrow> auth_http \<Rightarrow> auth_world \<times> fed_tables \<Rightarrow> int \<Rightarrow> bool" where
  "shown_for fe r env q s i \<longleftrightarrow>
     (case r of Own o' \<Rightarrow> credential o' env q (fst s) i | Fed f \<Rightarrow> (\<exists>u. u_id u = i \<and> vouched fe f env q (snd s) u))"

lemma rests_shown: "rests_on cfg fe r env q s es \<Longrightarrow> SignedIn i \<in> set es \<Longrightarrow> shown_for fe r env q s i"
  by (auto simp: rests_on_def shown_for_def justified_def split: any_route.splits)

text \<open>
  The log of a service: the requests it handled, each with what others answered it and the values it
  drew, and the ticks of its timers. The log determines the state.
\<close>

datatype happening =
    Handled fed_env any_route auth_env draws auth_http
  | SweptTables int
  | SweptLimits int

fun happen :: "service_config \<Rightarrow> happening \<Rightarrow> auth_world \<times> fed_tables \<Rightarrow> auth_world \<times> fed_tables" where
  "happen cfg (Handled fe r env d q) s = snd (whole_service cfg fe r env d q s)"
| "happen cfg (SweptTables now) s = sweep_stale now s"
| "happen cfg (SweptLimits now) s = (sweep_counters now (fst s), snd s)"

definition replay_log :: "service_config \<Rightarrow> auth_world \<times> fed_tables \<Rightarrow> happening list \<Rightarrow> auth_world \<times> fed_tables" where
  "replay_log cfg s hs = fold (happen cfg) hs s"

text \<open>The values drawn are new when they are drawn.\<close>

fun fresh_log :: "service_config \<Rightarrow> auth_world \<times> fed_tables \<Rightarrow> happening list \<Rightarrow> bool" where
  "fresh_log cfg s [] \<longleftrightarrow> True"
| "fresh_log cfg s (h # hs) \<longleftrightarrow>
     (case h of Handled fe r env d q \<Rightarrow> fresh_draws env d (aw_db (fst s)) | _ \<Rightarrow> True) \<and>
     fresh_log cfg (happen cfg h s) hs"

lemma replay_log_simps [simp]:
  "replay_log cfg s [] = s" "replay_log cfg s (h # hs) = replay_log cfg (happen cfg h s) hs"
  "replay_log cfg s (hs @ hs') = replay_log cfg (replay_log cfg s hs) hs'"
  by (simp_all add: replay_log_def)

lemma fresh_log_append: "fresh_log cfg s (hs @ hs') \<longleftrightarrow> fresh_log cfg s hs \<and> fresh_log cfg (replay_log cfg s hs) hs'"
  by (induction hs arbitrary: s) auto

lemma happen_run:
  assumes "whole_run cfg s0 s" and "fresh_log cfg s [h]"
  shows "whole_run cfg s0 (happen cfg h s)"
proof (cases h)
  case (Handled fe r env d q)
  then show ?thesis
    using whole_run.request [OF assms(1), of env d fe r q] assms(2) by (metis (no_types, lifting) fresh_log.simps(2)
        happen.simps(1) happening.simps(10) prod.collapse)
qed (use assms(1) whole_run.sweep_tables whole_run.sweep_limits in auto)

lemma replay_log_run: "fresh_log cfg s0 hs \<Longrightarrow> whole_run cfg s0 (replay_log cfg s0 hs)"
proof (induction hs rule: rev_induct)
  case Nil
  show ?case by (simp add: whole_run.start)
next
  case (snoc h hs)
  then have "whole_run cfg s0 (replay_log cfg s0 hs)" "fresh_log cfg (replay_log cfg s0 hs) [h]"
    by (simp_all add: fresh_log_append)
  from happen_run [OF this] show ?case by simp
qed

text \<open>What one happening adds to the sessions.\<close>

lemma happen_sessions:
  assumes "accounts_ok (accounts_of (fst s))" and "x \<in> set (sessions (aw_db (fst (happen cfg h s))))"
  shows "(\<exists>y \<in> set (sessions (aw_db (fst s))). se_id y = se_id x \<and> se_user y = se_user x) \<or>
    (\<exists>fe r env d q. h = Handled fe r env d q \<and> dr_session d = se_id x \<and> shown_for fe r env q s (se_user x))"
proof (cases h)
  case (Handled fe r env d q)
  obtain w t w' t' where v: "s = (w, t)" "happen cfg h s = (w', t')" by fastforce
  obtain a where a: "whole_service cfg fe r env d q (w, t) = (a, w', t')"
    using v Handled by (metis happen.simps(1) prod.collapse)
  from whole_steps [OF a accounts_ok_keys [OF assms(1) [unfolded v fst_conv]]]
  obtain es where es: "account_steps env d (accounts_of w) es (accounts_of w')" "rests_on cfg fe r env q (w, t) es" .
  have "x \<in> set (sessions (aw_db w'))" using assms(2) unfolding v(2) by simp
  with steps_sessions [OF es(1), of x] rests_shown [OF es(2)] Handled show ?thesis by (auto simp: v(1))
next
  case (SweptTables now)
  have "aw_db (fst (sweep_stale now s)) = aw_db (fst s)" using sweep_stale_accounts [of now s] by (simp only: prod.inject)
  then show ?thesis using assms(2) SweptTables by auto
next
  case (SweptLimits now)
  then show ?thesis using assms(2) by auto
qed

definition given_in ::
  "service_config \<Rightarrow> auth_world \<times> fed_tables \<Rightarrow> happening list \<Rightarrow> string \<Rightarrow> int \<Rightarrow> bool"
where
  "given_in cfg s0 hs sid i \<longleftrightarrow>
     (\<exists>before fe r env d q after. hs = before @ Handled fe r env d q # after \<and> dr_session d = sid \<and>
        shown_for fe r env q (replay_log cfg s0 before) i)"

lemma replay_log_sessions:
  assumes "fresh_log cfg s0 hs" and "accounts_ok (accounts_of (fst s0))"
    and "x \<in> set (sessions (aw_db (fst (replay_log cfg s0 hs))))"
  shows "(\<exists>y \<in> set (sessions (aw_db (fst s0))). se_id y = se_id x \<and> se_user y = se_user x) \<or>
    given_in cfg s0 hs (se_id x) (se_user x)"
  using assms(1,3)
proof (induction hs arbitrary: x rule: rev_induct)
  case (snoc h hs)
  have fresh: "fresh_log cfg s0 hs" using snoc.prems(1) by (simp add: fresh_log_append)
  have ok: "accounts_ok (accounts_of (fst (replay_log cfg s0 hs)))"
    by (rule whole_run_ok [OF replay_log_run [OF fresh] assms(2)])
  have x: "x \<in> set (sessions (aw_db (fst (happen cfg h (replay_log cfg s0 hs)))))" using snoc.prems(2) by simp
  from happen_sessions [OF ok x] show ?case
  proof (elim disjE bexE conjE)
    fix y assume y: "y \<in> set (sessions (aw_db (fst (replay_log cfg s0 hs))))" "se_id y = se_id x" "se_user y = se_user x"
    have "given_in cfg s0 (hs @ [h]) sid i" if "given_in cfg s0 hs sid i" for sid i
      using that unfolding given_in_def by fastforce
    with snoc.IH [OF fresh y(1)] y(2,3) show ?thesis by metis
  next
    assume "\<exists>fe r env d q. h = Handled fe r env d q \<and> dr_session d = se_id x \<and>
        shown_for fe r env q (replay_log cfg s0 hs) (se_user x)"
    then show ?thesis unfolding given_in_def by blast
  qed
qed auto


lemma steps_descend:
  assumes "account_steps env d s es s'"
  shows "snd s \<le> snd s' \<and> (\<forall>u' \<in> set (users (fst s')). descends (users (fst s)) (snd s) u')"
  using assms
proof (induction rule: account_steps.induct)
  case (step s e s' es s'')
  note n = step_next [OF step.hyps(1)]
  have "descends (users (fst s)) (snd s) u'" if "u' \<in> set (users (fst s''))" for u'
    using descends_trans [of "users (fst s')" "snd s'" u' "users (fst s)" "snd s"] step_descends [OF step.hyps(1)]
      step.IH that n by blast
  with n step.IH show ?case by auto
qed (auto simp: descends_refl)

lemma whole_run_descends:
  assumes "whole_run cfg s0 s" and "accounts_ok (accounts_of (fst s0))"
  shows "aw_next_user (fst s0) \<le> aw_next_user (fst s) \<and>
    (\<forall>u \<in> set (users (aw_db (fst s))). descends (users (aw_db (fst s0))) (aw_next_user (fst s0)) u)"
  using assms
proof (induction rule: whole_run.induct)
  case (request s v env d fe r q a v')
  obtain w t w' t' where v: "v = (w, t)" "v' = (w', t')" by fastforce
  note ok = whole_run_ok [OF request.hyps(1) request.prems(1)]
  from whole_steps [OF request.hyps(3) [unfolded v] accounts_ok_keys [OF ok [unfolded v fst_conv]]]
  obtain es where es: "account_steps env d (accounts_of w) es (accounts_of w')" .
  note now = steps_descend [OF es, unfolded fst_conv snd_conv] and before = request.IH [OF request.prems]
  have "descends (users (aw_db (fst s))) (aw_next_user (fst s)) u" if "u \<in> set (users (aw_db w'))" for u
    using descends_trans [of "users (aw_db w)" "aw_next_user w" u "users (aw_db (fst s))" "aw_next_user (fst s)"]
      now before that by (simp add: v)
  with now before show ?case by (auto simp: v)
next
  case (sweep_tables s v now)
  then show ?case by (simp add: sweep_stale_def)
qed (simp_all add: descends_refl)

text \<open>
  Claim C12. No request of any route raises a role or moves a user to another tenant. In whatever state the
  service is, a user who was there at the start has the same tenant and the role from then or that of
  an employee, and everyone who came later, by whichever sign-in, is an employee.
\<close>

theorem whole_roles_never_rise:
  assumes "whole_run cfg s0 s" and "accounts_ok (accounts_of (fst s0))" and "u \<in> set (users (aw_db (fst s)))"
  shows "(\<exists>u0 \<in> set (users (aw_db (fst s0))). u_id u0 = u_id u \<and> u_tenant u0 = u_tenant u \<and>
      u_role u \<in> {u_role u0, ''employee''}) \<or>
    u_role u = ''employee'' \<and> aw_next_user (fst s0) \<le> u_id u"
  using whole_run_descends [OF assms(1,2)] assms(3) unfolding descends_def by blast

lemma fed_steps_users:
  assumes "account_steps env d s es s'" and "list_all (\<lambda>e. e = Joined \<or> (\<exists>i. e = SignedIn i)) es"
  shows "snd s \<le> snd s' \<and> (\<exists>vs. users (fst s') = users (fst s) @ vs \<and> (\<forall>v \<in> set vs. snd s \<le> u_id v))"
  using assms
proof (induction rule: account_steps.induct)
  case (step s e s' es s'')
  have one: "snd s \<le> snd s' \<and> (\<exists>vs. users (fst s') = users (fst s) @ vs \<and> (\<forall>v \<in> set vs. snd s \<le> u_id v))"
    using step.hyps(1) step.prems
    by (auto elim!: account_stepE simp: issue_session_def insert_session_def createRefreshToken_def)
  moreover obtain vs where "users (fst s'') = users (fst s') @ vs" "\<forall>v \<in> set vs. snd s' \<le> u_id v" "snd s' \<le> snd s''"
    using step.IH step.prems by auto
  ultimately show ?case by fastforce
qed simp

text \<open>
  Claim C13. Over all routes, a stored password changes only when a live reset token of that active user is
  redeemed or an admin signed in with a valid token resets it; no federated sign-in changes one.
\<close>

theorem whole_passwords_traced:
  assumes "whole_service cfg fe r env d q (w, t) = (a, w', t')" and "accounts_ok (accounts_of w)"
    and "u \<in> set (users (aw_db w))" and "u' \<in> set (users (aw_db w'))" and "u_id u' = u_id u"
    and "u_password u' \<noteq> u_password u"
  shows "\<exists>r'. r = Own r' \<and> password_grant r' env q w (u_id u)"
proof -
  from whole_steps [OF assms(1) accounts_ok_keys [OF assms(2)]]
  obtain es where es: "account_steps env d (accounts_of w) es (accounts_of w')" "rests_on cfg fe r env q (w, t) es" .
  show ?thesis
  proof (cases r)
    case (Own r')
    then obtain e where e: "account_step env d (accounts_of w) e (accounts_of w')" "justified cfg r' env q w e"
      using es by (auto simp: rests_on_def elim!: account_steps.cases)
    then have "e = PasswordSet (u_id u)" using step_passwords assms(2-6) by simp
    then show ?thesis using e(2) Own by (simp add: justified_def)
  next
    case (Fed f)
    then have "list_all (\<lambda>e. e = Joined \<or> (\<exists>i. e = SignedIn i)) es" using es(2) by (auto simp: rests_on_def)
    from fed_steps_users [OF es(1) this] obtain vs where
      vs: "users (aw_db w') = users (aw_db w) @ vs" "\<forall>v \<in> set vs. aw_next_user w \<le> u_id v" by auto
    have "u_id u < aw_next_user w" using assms(2,3) by (auto simp: accounts_ok_def)
    then have "u' \<in> set (users (aw_db w))" using vs assms(4,5) by fastforce
    then have "u' = u"
      using assms(2,3,5) eq_key_imp_eq_value [of "map (\<lambda>x. (u_id x, x)) (users (aw_db w))" "u_id u"]
      by (auto simp: accounts_ok_def comp_def image_iff)
    then show ?thesis using assms(6) by simp
  qed
qed

subsection \<open>A run with a federated sign-in\<close>

definition others :: fed_env where
  "others = \<lparr>fe_saml = idp, fe_oauth = google_oauth, fe_keys = key_library\<rparr>"

definition fed_start :: "auth_world \<times> fed_tables" where
  "fed_start = (svc_world, \<lparr>ft_saml = [], ft_oauth = \<lparr>ot_providers = [google_row], ot_next_provider = 2,
     ot_states = [], ot_links = [], ot_caches = new_keys\<rparr>, ft_keys = no_key_tables\<rparr>)"

definition fed_begun :: "auth_world \<times> fed_tables" where
  "fed_begun = snd (whole_service atlas_config others (Fed OauthLogin) (svc_env 5) some_draws
     (oauth_post [(''tenant_id'', JStr ''acme'')]) fed_start)"

definition fed_done :: "auth_world \<times> fed_tables" where
  "fed_done = snd (whole_service atlas_config others (Fed OauthCallback) (svc_env 1000) some_draws
     (oauth_post [(''code'', JStr ''c''), (''state'', JStr ''st'')]) fed_begun)"

definition ann :: user_row where
  "ann = \<lparr>u_id = 8, u_email = ''ann@acme.io'', u_password = ''t'', u_name = ''ann@acme.io'', u_role = ''employee'',
     u_department = None, u_position = None, u_tenant = Some ''acme'', u_enabled = Some True,
     u_password_changed_at = Some 1000, u_created = 1000, u_updated = 1000\<rparr>"

definition ann_session :: session_row where
  "ann_session = \<lparr>se_id = ''s'', se_user = 8, se_hash = ''#r'', se_active = True\<rparr>"

lemma fed_done_checked:
  "case fed_done of (w, t) \<Rightarrow> (case aw_db w of db \<Rightarrow> users db = [ada, ann] \<and> sessions db = [ann_session])"
  by code_simp

lemma fed_done_tables: "users (aw_db (fst fed_done)) = [ada, ann]" "sessions (aw_db (fst fed_done)) = [ann_session]"
  using fed_done_checked by (simp_all add: case_prod_beta)

lemma fed_begun_checked:
  "case fed_begun of (w, t) \<Rightarrow>
     users (aw_db w) = [ada] \<and> fresh_draws (svc_env 1000) some_draws (aw_db w)"
  by code_simp

lemma fed_start_ok: "accounts_ok (accounts_of (fst fed_start))"
  using start_ok by (simp add: fed_start_def)

definition fed_log :: "happening list" where
  "fed_log = [Handled others (Fed OauthLogin) (svc_env 5) some_draws (oauth_post [(''tenant_id'', JStr ''acme'')]),
     Handled others (Fed OauthCallback) (svc_env 1000) some_draws
       (oauth_post [(''code'', JStr ''c''), (''state'', JStr ''st'')])]"

lemma fed_log_replayed: "fresh_log atlas_config fed_start fed_log \<and> replay_log atlas_config fed_start fed_log = fed_done"
proof -
  have f: "fresh_draws (svc_env 5) some_draws (aw_db (fst fed_start))" by code_simp
  have g: "fresh_draws (svc_env 1000) some_draws (aw_db (fst fed_begun))"
    using fed_begun_checked by (simp add: case_prod_beta)
  show ?thesis using f g by (simp add: fed_log_def fed_done_def fed_begun_def)
qed

lemma fed_run: "whole_run atlas_config fed_start fed_done"
  using fed_log_replayed replay_log_run by metis

theorem whole_invariant_witness:
  "accounts_ok (accounts_of (fst fed_done)) \<and> sessions (aw_db (fst fed_done)) = [ann_session]"
  using whole_invariant [OF fed_run fed_start_ok] fed_done_tables(2) by simp



theorem whole_roles_never_rise_witness:
  "u_role (hd (users (aw_db (fst fed_done)))) \<in> {''hr'', ''employee''} \<and> u_role (users (aw_db (fst fed_done)) ! 1) = ''employee''"
proof -
  have "ada \<in> set (users (aw_db (fst fed_done)))" "ann \<in> set (users (aw_db (fst fed_done)))" by (simp_all add: fed_done_tables)
  from this [THEN whole_roles_never_rise [OF fed_run fed_start_ok]] show ?thesis
    by (auto simp: fed_done_tables fed_start_def svc_world_def ada_def ann_def)
qed

theorem whole_passwords_traced_witness:
  "password_grant Reset (svc_env 5) (reset_request ''Fresh1pw'') reset_world 7"
proof -
  let ?r = "whole_service atlas_config others (Own Reset) (svc_env 5) some_draws (reset_request ''Fresh1pw'') (reset_world, snd fed_start)"
  have ok: "accounts_ok (accounts_of reset_world)"
    by (simp add: accounts_ok_def reset_world_def svc_world_def ada_def)
  let ?u = "ada\<lparr>u_password := ''Fresh1pw'', u_password_changed_at := Some 5, u_updated := 5\<rparr>"
  have u: "ada \<in> set (users (aw_db reset_world))" "?u \<in> set (users (aw_db (fst (snd ?r))))"
    "u_id ?u = u_id ada" "u_password ?u \<noteq> u_password ada" "u_id ada = 7"
    by code_simp+
  obtain a w' t' where r: "?r = (a, w', t')" by (metis prod.collapse)
  from whole_passwords_traced [OF r ok u(1) _ u(3,4)] u(2,5) show ?thesis unfolding r fst_conv snd_conv by simp
qed

end
