(* ===== verification/Gateway_Slack.thy ===== *)
theory Gateway_Slack
  imports Gateway Auth_World Dashboard_Data
begin

section \<open>The API gateway: Slack\<close>

text \<open>
  \<open>services/api-gateway-node/index.js\<close>, lines 1190 to 1668: the signature check, the webhook that
  files a leave request, the slash commands and the approval buttons, and how they hang behind
  the guards of \<open>Gateway\<close>. A call to another service is a value of \<open>slack_call\<close> and its
  answer a parameter; one request makes each call at most once. Parameters are also the
  HMAC of \<open>crypto\<close> (its hexadecimal digest), the form parser (qs) and the clock, which stands
  still during a request. The token a call carries is represented by its claims. A request
  without a form body leaves \<open>req.body\<close> undefined (Express 5), and \<open>rawBody\<close> unset. The bullet of
  a directory line is written as its UTF-8 bytes.
\<close>

subsection \<open>Requests, calls and answers\<close>

record slack_env =
  sk_signing :: string \<comment> \<open>\<open>SLACK_SIGNING_SECRET\<close>\<close>
  sk_webhook :: string \<comment> \<open>\<open>SLACK_WEBHOOK_SECRET\<close>\<close>
  sk_tenant_secrets :: string \<comment> \<open>\<open>SLACK_TENANT_SIGNING_SECRETS\<close>\<close>
  sk_hmac :: "string \<Rightarrow> string \<Rightarrow> string" \<comment> \<open>secret and text\<close>
  sk_form :: "string \<Rightarrow> jsv"
  sk_now :: int \<comment> \<open>milliseconds\<close>

record slack_request =
  sl_request :: gateway_request
  sl_form :: bool \<comment> \<open>a form body was read\<close>
  sl_raw :: string

datatype slack_call =
    FileLeave jsv string \<comment> \<open>\<open>POST /request\<close> of the leave service: body and tenant\<close>
  | UsersInfo string \<comment> \<open>Slack's \<open>users.info\<close>\<close>
  | AtlasUser string jsv string \<comment> \<open>\<open>GET /internal/atlas-user\<close>: e-mail, claims, tenant\<close>
  | SetStatus string string jsv string \<comment> \<open>\<open>PUT /api/leave/:id/status\<close>: id, status, claims, tenant\<close>
  | LeaveBalances jsv string
  | Directory string jsv string \<comment> \<open>search, claims, tenant\<close>

datatype http_answer =
    HttpBody jsv
  | HttpFails string "nat option" \<comment> \<open>\<open>err.code\<close> and the status of the answer, if there was one\<close>

type_synonym slack_reply = "nat \<times> jsv"

definition sl_header :: "slack_request \<Rightarrow> string \<Rightarrow> string option" where
  "sl_header q k = map_get (g_headers (sl_request q)) k"

definition raw_body :: "slack_request \<Rightarrow> string" where
  "raw_body q = (if sl_form q then sl_raw q else [])"

definition form_body :: "slack_env \<Rightarrow> slack_request \<Rightarrow> jsv" where
  "form_body env q = (if sl_form q then sk_form env (sl_raw q) else JUndef)"

definition ephemeral :: "nat \<Rightarrow> string \<Rightarrow> slack_reply" where
  "ephemeral st t = (st, JObj [(''response_type'', JStr ''ephemeral''), (''text'', JStr t)])"

definition in_channel :: "string \<Rightarrow> slack_reply" where
  "in_channel t = (200, JObj [(''response_type'', JStr ''in_channel''), (''text'', JStr t)])"

text \<open>\<open>globalErrorHandler\<close>, for an error without a status\<close>

definition server_error :: slack_reply where
  "server_error = (500, JObj [(''message'', JStr ''Internal server error'')])"

text \<open>The words of a text: \<open>trim().split(/\s+/)\<close> without the empty word of an empty text.\<close>

definition words_of :: "string \<Rightarrow> string list" where
  "words_of s = filter (\<lambda>w. w \<noteq> []) (split_on (CHR '' '') (map (\<lambda>c. if is_ws c then CHR '' '' else c) s))"

subsection \<open>Signatures\<close>

definition utf8_length :: "string \<Rightarrow> nat" where
  "utf8_length s = sum_list (map (\<lambda>c. if of_char c < (128 :: nat) then 1 else 2) s)"

text \<open>The reason of a refusal, if there is one.\<close>

definition verifySlackHmac :: "slack_env \<Rightarrow> slack_request \<Rightarrow> string \<Rightarrow> string option" where
  "verifySlackHmac env q secret =
     (let signature = sl_header q ''x-slack-signature''; timestamp = sl_header q ''x-slack-request-timestamp''
      in if secret = [] \<or> falsy_string signature \<or> falsy_string timestamp
         then Some ''Missing or invalid Slack signature''
         else
           (case parse_int (JStr (the timestamp)) of
              None \<Rightarrow> Some ''Invalid timestamp''
            | Some ts \<Rightarrow>
                if 60 * 5 < \<bar>sk_now env div 1000 - ts\<bar> then Some ''Stale timestamp''
                else
                  (let expected = ''v0='' @ sk_hmac env secret (''v0:'' @ the timestamp @ '':'' @ raw_body q)
                   in if utf8_length (the signature) \<noteq> utf8_length expected
                      then Some ''Invalid signature length''
                      else if the signature \<noteq> expected then Some ''Invalid signature''
                      else None)))"

definition verifySlackRequest :: "slack_env \<Rightarrow> slack_request \<Rightarrow> string option" where
  "verifySlackRequest env q =
     (if sk_signing env \<noteq> [] \<and> \<not> falsy_string (sl_header q ''x-slack-signature'') \<and>
         \<not> falsy_string (sl_header q ''x-slack-request-timestamp'')
      then verifySlackHmac env q (sk_signing env)
      else if sk_webhook env \<noteq> [] \<and>
        (case find (\<lambda>k. \<not> falsy_string (sl_header q k))
                [''x-slack-webhook-secret'', ''x-webhook-secret'', ''x-internal-key''] of
           Some k \<Rightarrow> sl_header q k = Some (sk_webhook env)
         | None \<Rightarrow> False)
      then None
      else Some ''Missing or invalid Slack signature'')"

text \<open>\<open>SLACK_TEAM_ID_RE\<close>\<close>

definition team_char :: "char \<Rightarrow> bool" where
  "team_char c \<longleftrightarrow>
     (let n = (of_char c :: nat)
      in is_digit c \<or> (65 \<le> n \<and> n \<le> 90) \<or> (97 \<le> n \<and> n \<le> 122) \<or> c = CHR ''_'' \<or> c = CHR ''-'')"

definition team_id :: "string \<Rightarrow> bool" where
  "team_id s \<longleftrightarrow> 1 \<le> length s \<and> length s \<le> 64 \<and> list_all team_char s"

definition team_of :: "jsv \<Rightarrow> string option" where
  "team_of v = (case v of JStr s \<Rightarrow> if team_id s then Some s else None | _ \<Rightarrow> None)"

definition resolveSlackSigningSecret :: "slack_env \<Rightarrow> string \<Rightarrow> string" where
  "resolveSlackSigningSecret env team =
     (if \<not> team_id team then []
      else if trim (sk_tenant_secrets env) \<noteq> [] then
        (case json_parse (sk_tenant_secrets env) of
           Some (JObj fs) \<Rightarrow>
             (case get_field (JObj fs) team of JStr s \<Rightarrow> if 16 \<le> length s then s else [] | _ \<Rightarrow> [])
         | _ \<Rightarrow> [])
      else sk_signing env)"

definition slackTenantIdFromCommandBody :: "slack_env \<Rightarrow> slack_request \<Rightarrow> string option" where
  "slackTenantIdFromCommandBody env q = team_of (get_field (form_body env q) ''team_id'')"

definition verifySlackTenantRequest :: "slack_env \<Rightarrow> slack_request \<Rightarrow> string option \<Rightarrow> slack_reply option" where
  "verifySlackTenantRequest env q teamId =
     (case teamId of
        None \<Rightarrow> Some (ephemeral 400 ''Missing Slack workspace context (team_id).'')
      | Some team \<Rightarrow>
          (let secret = resolveSlackSigningSecret env team
           in if secret = [] then Some (ephemeral 503 ''Slack commands are not enabled for this workspace.'')
              else if verifySlackHmac env q secret \<noteq> None
              then Some (ephemeral 401 ''Invalid request signature.'')
              else None))"

subsection \<open>The webhook that files a leave request\<close>

definition ALLOWED_LEAVE_TYPES :: "string list" where
  "ALLOWED_LEAVE_TYPES =
     [''VACATION'', ''SICK'', ''PERSONAL'', ''UNPAID'', ''MATERNITY'', ''PATERNITY'', ''BEREAVEMENT'']"

text \<open>
  The day of \<open>new Date(`${s}T00:00:00Z`)\<close>, if that is a time. V8 asks that the month is one of 1 to 12 and
  the day one of 1 to 31, whatever the month, and counts on from the first of the month: the 31st of
  February is the 3rd of March.
\<close>

definition day_number :: "string \<Rightarrow> int option" where
  "day_number s =
     (case iso_date s of
        Some (y, m, d) \<Rightarrow>
          if 1 \<le> m \<and> m \<le> 12 \<and> 1 \<le> d \<and> d \<le> 31 then Some (epoch_days y m d) else None
      | None \<Rightarrow> None)"

definition nonblank :: "jsv \<Rightarrow> string option" where
  "nonblank v = (case v of JStr s \<Rightarrow> if trim s \<noteq> [] then Some (trim s) else None | _ \<Rightarrow> None)"

text \<open>The employee a webhook acts for.\<close>

definition webhook_employee :: "jsv \<Rightarrow> string option" where
  "webhook_employee body =
     (case nonblank (get_field body ''user_id'') of
        Some u \<Rightarrow> Some u | None \<Rightarrow> nonblank (get_field body ''user_name''))"

definition leave_body :: "string \<Rightarrow> string list \<Rightarrow> jsv" where
  "leave_body employee parts =
     (let rawType = (if 4 \<le> length parts then map upper_char (parts ! 3) else ''VACATION'');
          typed = (rawType \<in> set ALLOWED_LEAVE_TYPES);
          reason = take 500 (join_with '' '' (drop (if typed then 4 else 3) parts))
      in JObj [(''employeeId'', JStr employee), (''startDate'', JStr (parts ! 0)),
               (''endDate'', JStr (parts ! 2)), (''leaveType'', JStr (if typed then rawType else ''VACATION'')),
               (''reason'', JStr (if reason = [] then ''Slack request'' else reason))])"

definition webhook_failed :: "string \<Rightarrow> nat option \<Rightarrow> slack_reply" where
  "webhook_failed code st =
     (if code = ''ECONNABORTED'' then ephemeral 504 ''Leave service timed out. Please try again.''
      else case st of
        Some n \<Rightarrow>
          if 400 \<le> n \<and> n < 500 then ephemeral 502 ''Leave request rejected by leave service.''
          else ephemeral 502 ''Failed to submit leave request. Please try again.''
      | None \<Rightarrow> ephemeral 502 ''Failed to submit leave request. Please try again.'')"

text \<open>The order a command text gives: the refusal, or the words.\<close>

definition leave_command :: "jsv \<Rightarrow> slack_reply + string list" where
  "leave_command text =
     (let parts = (if truthy text then words_of (js_string text) else [])
      in if length parts < 3 \<or> to_lower (parts ! 1) \<noteq> ''to''
         then Inl (ephemeral 400 ''Please use format: `/atlas-leave YYYY-MM-DD to YYYY-MM-DD Reason`'')
         else if iso_date (parts ! 0) = None \<or> iso_date (parts ! 2) = None
         then Inl (ephemeral 400 ''Dates must be YYYY-MM-DD.'')
         else
           (case (day_number (parts ! 0), day_number (parts ! 2)) of
              (Some from_day, Some to_day) \<Rightarrow>
                if to_day < from_day
                then Inl (ephemeral 400 ''Invalid date range: end date must be on or after start date.'')
                else Inr parts
            | _ \<Rightarrow> Inl (ephemeral 400 ''Invalid date range: end date must be on or after start date.'')))"

definition slack_webhook ::
  "slack_env \<Rightarrow> (slack_call \<Rightarrow> http_answer) \<Rightarrow> slack_request \<Rightarrow> slack_reply \<times> slack_call list"
where
  "slack_webhook env http q =
     (if sk_signing env = [] \<and> sk_webhook env = [] then (ephemeral 503 ''Webhook not configured'', [])
      else if verifySlackRequest env q \<noteq> None then (ephemeral 401 ''Invalid webhook signature'', [])
      else
        (case form_body env q of
           JUndef \<Rightarrow> (webhook_failed [] None, [])
         | body \<Rightarrow>
             (case team_of (get_field body ''team_id'') of
                None \<Rightarrow> (ephemeral 400 ''Missing Slack workspace context (team_id).'', [])
              | Some tenant \<Rightarrow>
                  (case webhook_employee body of
                     None \<Rightarrow> (ephemeral 400 ''Missing Slack user identity.'', [])
                   | Some employee \<Rightarrow>
                       (case leave_command (get_field body ''text'') of
                          Inl e \<Rightarrow> (e, [])
                        | Inr parts \<Rightarrow>
                            (let c = FileLeave (leave_body employee parts) tenant
                             in (case http c of
                                   HttpFails code st \<Rightarrow> webhook_failed code st
                                 | HttpBody _ \<Rightarrow> in_channel (''Leave request submitted for '' @ parts ! 0 @
                                     '' to '' @ parts ! 2), [c])))))))"

subsection \<open>Identities\<close>

record slack_identity =
  atl_id :: jsv
  atl_email :: jsv
  atl_name :: jsv
  atl_role :: string
  atl_tenant :: jsv

text \<open>The claims of the tokens the gateway signs: ten seconds for a user, thirty for the lookup.\<close>

definition slackInternalToken :: "slack_env \<Rightarrow> slack_identity \<Rightarrow> jsv" where
  "slackInternalToken env i =
     JObj [(''user_id'', atl_id i), (''user_role'', JStr (atl_role i)), (''tenant_id'', atl_tenant i),
           (''email'', atl_email i), (''exp'', JNum (of_int (sk_now env div 1000 + 10)))]"

definition lookup_claims :: "slack_env \<Rightarrow> string \<Rightarrow> jsv" where
  "lookup_claims env team =
     JObj [(''sub'', JStr ''api-gateway-slack''), (''service'', JStr ''api-gateway''),
           (''tenant_id'', JStr team), (''exp'', JNum (of_int (sk_now env div 1000 + 30)))]"

text \<open>The e-mail of an answer of \<open>users.info\<close>.\<close>

definition slack_email :: "http_answer \<Rightarrow> string option" where
  "slack_email a =
     (case a of
        HttpFails _ _ \<Rightarrow> None
      | HttpBody data \<Rightarrow>
          (let usr = (if truthy data \<and> get_field data ''ok'' \<noteq> JBool False then get_field data ''user'' else JNull)
           in case get_field (get_field usr ''profile'') ''email'' of
                JStr e \<Rightarrow> if trim e = [] then None else Some (to_lower (trim e))
              | _ \<Rightarrow> None))"

definition identity_of :: "string \<Rightarrow> string \<Rightarrow> http_answer \<Rightarrow> slack_identity option" where
  "identity_of email team a =
     (case a of
        HttpFails _ _ \<Rightarrow> None
      | HttpBody data \<Rightarrow>
          (let atlasUser = js_or data (JObj [])
           in if get_field atlasUser ''active'' = JBool False then None
              else Some \<lparr>atl_id = get_field atlasUser ''id'',
                         atl_email = js_or (get_field atlasUser ''email'') (JStr email),
                         atl_name = js_or (get_field atlasUser ''name'') (JStr []),
                         atl_role = to_lower (js_string (js_or (get_field atlasUser ''role'') (JStr []))),
                         atl_tenant = js_or (get_field atlasUser ''tenant_id'') (JStr team)\<rparr>))"

definition resolveSlackAtlasIdentity ::
  "slack_env \<Rightarrow> (slack_call \<Rightarrow> http_answer) \<Rightarrow> string \<Rightarrow> string \<Rightarrow> slack_identity option \<times> slack_call list"
where
  "resolveSlackAtlasIdentity env http usr team =
     (if usr = [] \<or> team = [] then (None, [])
      else
        (case slack_email (http (UsersInfo usr)) of
           None \<Rightarrow> (None, [UsersInfo usr])
         | Some email \<Rightarrow>
             (let c = AtlasUser email (lookup_claims env team) team
              in (identity_of email team (http c), [UsersInfo usr, c]))))"

subsection \<open>The commands\<close>

definition newline :: string where "newline = [CHR 0x0A]"
definition dquoted :: "string \<Rightarrow> string" where "dquoted s = [CHR 0x22] @ s @ [CHR 0x22]"

definition SLACK_APPROVER_ROLES :: "string list" where
  "SLACK_APPROVER_ROLES = [''admin'', ''hr'', ''manager'']"

datatype decision = Approve | Deny

definition decision_word :: "decision \<Rightarrow> string" where
  "decision_word d = (case d of Approve \<Rightarrow> ''approve'' | Deny \<Rightarrow> ''deny'')"

definition handleAtlasApprovalCommand ::
  "slack_env \<Rightarrow> (slack_call \<Rightarrow> http_answer) \<Rightarrow> slack_identity \<Rightarrow> string \<Rightarrow> decision \<Rightarrow> string \<Rightarrow>
   slack_reply \<times> slack_call list"
where
  "handleAtlasApprovalCommand env http i leaveId d team =
     (if atl_role i \<notin> set SLACK_APPROVER_ROLES then
        (ephemeral 403 ''Only managers, HR, or admins can approve or deny leave from Slack.'', [])
      else
        (let c = SetStatus leaveId (if d = Approve then ''APPROVED'' else ''REJECTED'') (slackInternalToken env i) team
         in (case http c of
               HttpBody data \<Rightarrow>
                 in_channel (''Leave request #'' @
                   js_string (js_or (get_field (js_or data (JObj [])) ''id'') (JStr leaveId)) @
                   (if d = Approve then '' approved by '' else '' denied by '') @
                   js_string (js_or (js_or (atl_email i) (atl_name i)) (JStr ''a manager'')) @ ''.'')
             | HttpFails _ st \<Rightarrow>
                 if st = Some 404 \<or> st = Some 400 then
                   ephemeral 404 ''That leave request was not found in this workspace.''
                 else if st = Some 403 then
                   ephemeral 403 ''Leave service rejected this approval for your role.''
                 else ephemeral 502 (''Could not '' @ decision_word d @
                   '' the leave request. Please try again.''), [c])))"

text \<open>The lines of an array of rows; reading a field of a nullish row throws.\<close>

definition list_of :: "jsv \<Rightarrow> jsv list" where
  "list_of v = (case v of JArr rows \<Rightarrow> rows | _ \<Rightarrow> [])"

definition lines_of :: "(jsv \<Rightarrow> string) \<Rightarrow> jsv list \<Rightarrow> string list option" where
  "lines_of f rows = (if list_ex nullish rows then None else Some (map f rows))"

definition balance_line :: "jsv \<Rightarrow> string" where
  "balance_line row =
     js_string (get_field row ''leaveType'') @ '': '' @ js_string (get_field row ''remainingDays'') @
     '' day(s) remaining (of '' @ js_string (get_field row ''entitlementDays'') @ '', used '' @
     js_string (get_field row ''usedDays'') @ '')''"

definition handleAtlasBalanceCommand ::
  "slack_env \<Rightarrow> (slack_call \<Rightarrow> http_answer) \<Rightarrow> slack_identity \<Rightarrow> string \<Rightarrow> slack_reply \<times> slack_call list"
where
  "handleAtlasBalanceCommand env http i team =
     (let c = LeaveBalances (slackInternalToken env i) team;
          failed = ephemeral 502 ''Could not fetch your leave balance. Please try again.''
      in (case http c of
            HttpFails _ _ \<Rightarrow> failed
          | HttpBody data \<Rightarrow>
              (let balances = list_of (get_field data ''balances'')
               in if balances = [] then ephemeral 200 ''No leave balances found for your account.''
                  else case lines_of balance_line balances of
                    None \<Rightarrow> failed
                  | Some ls \<Rightarrow> ephemeral 200 (''*Your Atlas leave balance*'' @ newline @ join_with newline ls)), [c]))"

definition directory_line :: "jsv \<Rightarrow> string" where
  "directory_line emp =
     [CHR 0xE2, CHR 0x80, CHR 0xA2] @ '' '' @ js_string (get_field emp ''name'') @ '' ('' @
     js_string (js_or (get_field emp ''position'') (JStr ''n/a'')) @ '', '' @
     js_string (js_or (get_field emp ''department'') (JStr ''n/a'')) @ '') <'' @
     js_string (get_field emp ''email'') @ ''>''"

definition handleAtlasDirectoryCommand ::
  "slack_env \<Rightarrow> (slack_call \<Rightarrow> http_answer) \<Rightarrow> slack_identity \<Rightarrow> string \<Rightarrow> string \<Rightarrow> slack_reply \<times> slack_call list"
where
  "handleAtlasDirectoryCommand env http i team query =
     (let c = Directory query (slackInternalToken env i) team;
          failed = ephemeral 502 ''Could not fetch the directory. Please try again.''
      in (case http c of
            HttpFails _ _ \<Rightarrow> failed
          | HttpBody data \<Rightarrow>
              (let items = list_of (get_field data ''items'')
               in if items = [] then
                    ephemeral 200 (if query \<noteq> [] then ''No directory matches for '' @ dquoted query @ ''.''
                                   else ''The directory is empty.'')
                  else case lines_of directory_line items of
                    None \<Rightarrow> failed
                  | Some ls \<Rightarrow> ephemeral 200 (''*Atlas directory*'' @ newline @ join_with newline ls)), [c]))"

definition SLACK_COMMANDS_USAGE :: string where
  "SLACK_COMMANDS_USAGE =
     ''*Atlas commands*'' @ newline @ ''`/atlas balance` - your leave balance'' @ newline @
     ''`/atlas directory [name|department]` - look up colleagues'' @ newline @
     ''`/atlas help` - show this help''"

definition unmapped :: slack_reply where
  "unmapped = ephemeral 401 (''I could not map your Slack account to an Atlas identity. '' @
     ''Ask an admin to check your Slack email against the Atlas directory.'')"

definition slack_command_route ::
  "slack_env \<Rightarrow> (slack_call \<Rightarrow> http_answer) \<Rightarrow> slack_request \<Rightarrow> slack_reply \<times> slack_call list"
where
  "slack_command_route env http q =
     (let body = form_body env q; teamId = slackTenantIdFromCommandBody env q
      in case verifySlackTenantRequest env q teamId of
           Some e \<Rightarrow> (e, [])
         | None \<Rightarrow>
             (case nonblank (get_field body ''user_id'') of
                None \<Rightarrow> (ephemeral 400 ''Missing Slack user identity.'', [])
              | Some usr \<Rightarrow>
                  (let parts = (case get_field body ''text'' of JStr t \<Rightarrow> words_of t | _ \<Rightarrow> []);
                       command = (case parts of w # ws \<Rightarrow> to_lower w | [] \<Rightarrow> [])
                   in if command = [] \<or> command = ''help'' then (ephemeral 200 SLACK_COMMANDS_USAGE, [])
                      else if command \<notin> {''balance'', ''directory''} then
                        (ephemeral 400 (''Unknown command '' @ dquoted command @ ''.'' @ newline @
                           SLACK_COMMANDS_USAGE), [])
                      else
                        (case resolveSlackAtlasIdentity env http usr (the teamId) of
                           (None, calls) \<Rightarrow> (unmapped, calls)
                         | (Some i, calls) \<Rightarrow>
                             (case (if command = ''balance'' then handleAtlasBalanceCommand env http i (the teamId)
                                    else handleAtlasDirectoryCommand env http i (the teamId)
                                      (take 200 (join_with '' '' (tl parts)))) of
                                (a, later) \<Rightarrow> (a, calls @ later))))))"

subsection \<open>The buttons\<close>

definition action_decision :: "jsv \<Rightarrow> decision option" where
  "action_decision action =
     (if get_field action ''action_id'' = JStr ''leave_approve'' then Some Approve
      else if get_field action ''action_id'' = JStr ''leave_deny'' then Some Deny
      else None)"

definition leave_id :: "jsv \<Rightarrow> string option" where
  "leave_id v =
     (case v of
        JStr s \<Rightarrow> if 1 \<le> length s \<and> length s \<le> 12 \<and> list_all is_digit s then Some s else None
      | _ \<Rightarrow> None)"

definition first_action :: "jsv \<Rightarrow> jsv" where
  "first_action payload = (case get_field payload ''actions'' of JArr (a # as) \<Rightarrow> a | _ \<Rightarrow> JUndef)"

definition slack_button ::
  "slack_env \<Rightarrow> (slack_call \<Rightarrow> http_answer) \<Rightarrow> slack_request \<Rightarrow> jsv \<Rightarrow> slack_reply \<times> slack_call list"
where
  "slack_button env http q payload =
     (let teamId = team_of (get_field (get_field payload ''team'') ''id'')
      in case verifySlackTenantRequest env q teamId of
           Some e \<Rightarrow> (e, [])
         | None \<Rightarrow>
             (case nonblank (get_field (get_field payload ''user'') ''id'') of
                None \<Rightarrow> (ephemeral 400 ''Missing Slack user identity.'', [])
              | Some usr \<Rightarrow>
                  (case resolveSlackAtlasIdentity env http usr (the teamId) of
                     (None, calls) \<Rightarrow> (unmapped, calls)
                   | (Some i, calls) \<Rightarrow>
                       (let action = first_action payload
                        in case (action_decision action, leave_id (get_field action ''value'')) of
                             (Some d, Some leaveId) \<Rightarrow>
                               (case handleAtlasApprovalCommand env http i leaveId d (the teamId) of
                                  (a, later) \<Rightarrow> (a, calls @ later))
                           | _ \<Rightarrow> (ephemeral 400
                               ''Unsupported interaction. Atlas handles leave approve/deny buttons.'', calls)))))"

definition slack_interactive_route ::
  "slack_env \<Rightarrow> (slack_call \<Rightarrow> http_answer) \<Rightarrow> slack_request \<Rightarrow> slack_reply \<times> slack_call list"
where
  "slack_interactive_route env http q =
     (if \<not> sl_form q then (server_error, [])
      else
        (case get_field (form_body env q) ''payload'' of
           JStr p \<Rightarrow>
             (case json_parse p of
                None \<Rightarrow> (ephemeral 400 ''Malformed interaction payload.'', [])
              | Some payload \<Rightarrow>
                  if truthy payload \<and> typeof_object payload then slack_button env http q payload
                  else (ephemeral 400 ''Missing interaction payload.'', []))
         | _ \<Rightarrow> (ephemeral 400 ''Missing interaction payload.'', [])))"

subsection \<open>Behind the guards\<close>

definition mounted_at :: "string \<Rightarrow> string \<Rightarrow> bool" where
  "mounted_at path p \<longleftrightarrow> to_lower path \<in> {p, p @ ''/''}"

definition slack_routes ::
  "slack_env \<Rightarrow> (slack_call \<Rightarrow> http_answer) \<Rightarrow> slack_request \<Rightarrow> (slack_reply \<times> slack_call list) option"
where
  "slack_routes env http q =
     (let path = g_path (sl_request q)
      in if g_method (sl_request q) \<noteq> ''POST'' then None
         else if mounted_at path ''/api/webhooks/slack'' then Some (slack_webhook env http q)
         else if mounted_at path ''/api/integrations/slack/commands''
         then Some (slack_command_route env http q)
         else if mounted_at path ''/api/integrations/slack/interactive''
         then Some (slack_interactive_route env http q)
         else None)"

datatype app_answer =
    ByGateway gateway_answer
  | BySlack slack_reply

text \<open>
  The application: the guards of \<open>gateway\<close>, then the Slack routes, which stand before the proxies;
  no mount of a proxy covers one of their paths.
\<close>

definition gateway_app ::
  "gateway_env \<Rightarrow> slack_env \<Rightarrow> redis \<Rightarrow> headcount_call \<Rightarrow> (slack_call \<Rightarrow> http_answer) \<Rightarrow> slack_request \<Rightarrow>
   app_answer \<times> slack_call list \<times> redis"
where
  "gateway_app genv senv r call http q =
     (case gateway genv r call (sl_request q) of
        (NotProxied, r') \<Rightarrow>
          (case slack_routes senv http q of
             Some (a, calls) \<Rightarrow> (BySlack a, calls, r')
           | None \<Rightarrow> (ByGateway NotProxied, [], r'))
      | (a, r') \<Rightarrow> (ByGateway a, [], r'))"

subsection \<open>What a valid signature shows\<close>

definition slack_signed :: "slack_env \<Rightarrow> slack_request \<Rightarrow> string \<Rightarrow> bool" where
  "slack_signed env q secret \<longleftrightarrow> secret \<noteq> [] \<and>
     (case (sl_header q ''x-slack-signature'', sl_header q ''x-slack-request-timestamp'') of
        (Some sig, Some stamp) \<Rightarrow>
          stamp \<noteq> [] \<and> sig = ''v0='' @ sk_hmac env secret (''v0:'' @ stamp @ '':'' @ raw_body q) \<and>
          (case parse_int (JStr stamp) of
             Some ts \<Rightarrow> \<bar>sk_now env div 1000 - ts\<bar> \<le> 300 | None \<Rightarrow> False)
      | _ \<Rightarrow> False)"

lemma verifySlackHmac_iff: "verifySlackHmac env q secret = None \<longleftrightarrow> slack_signed env q secret"
  by (auto simp: verifySlackHmac_def slack_signed_def Let_def falsy_string_def split: option.splits)

definition shows_webhook_secret :: "slack_env \<Rightarrow> slack_request \<Rightarrow> bool" where
  "shows_webhook_secret env q \<longleftrightarrow> sk_webhook env \<noteq> [] \<and>
     Some (sk_webhook env) \<in> sl_header q ` {''x-slack-webhook-secret'', ''x-webhook-secret'', ''x-internal-key''}"

lemma verifySlackRequest_shows:
  "verifySlackRequest env q = None \<Longrightarrow> slack_signed env q (sk_signing env) \<or> shows_webhook_secret env q"
  by (auto simp: verifySlackRequest_def verifySlackHmac_iff shows_webhook_secret_def
      split: if_splits dest!: find_Some_set)

lemma tenant_gate_open:
  assumes "verifySlackTenantRequest env q teamId = None"
  obtains team where "teamId = Some team" "slack_signed env q (resolveSlackSigningSecret env team)"
  using assms by (auto simp: verifySlackTenantRequest_def verifySlackHmac_iff Let_def
      split: option.splits if_splits)

lemma team_of_Some: "team_of v = Some t \<longleftrightarrow> v = JStr t \<and> team_id t"
  by (auto simp: team_of_def split: jsv.splits)

lemma slack_route_of:
  assumes "gateway_app genv senv r call http q = (a, calls, r')" and "calls \<noteq> []"
  shows "\<exists>b. a = BySlack b \<and> slack_routes senv http q = Some (b, calls)"
  using assms unfolding gateway_app_def
  by (auto split: prod.splits gateway_answer.splits option.splits)

text \<open>What each route can call.\<close>

fun reads :: "slack_call \<Rightarrow> bool" where
  "reads (FileLeave b t) = False"
| "reads (SetStatus l s cl t) = False"
| "reads c = True"

lemma identity_calls: "resolveSlackAtlasIdentity env http u t = (x, calls) \<Longrightarrow> list_all reads calls"
  by (auto simp: resolveSlackAtlasIdentity_def Let_def split: if_splits option.splits)

lemma resolved_identity:
  assumes "resolveSlackAtlasIdentity env http u t = (Some i, calls)"
  obtains email where "slack_email (http (UsersInfo u)) = Some email"
    "identity_of email t (http (AtlasUser email (lookup_claims env t) t)) = Some i"
    "calls = [UsersInfo u, AtlasUser email (lookup_claims env t) t]"
  using assms by (auto simp: resolveSlackAtlasIdentity_def Let_def split: if_splits option.splits)

lemma command_calls: "list_all reads (snd (slack_command_route env http q))"
  unfolding slack_command_route_def handleAtlasBalanceCommand_def handleAtlasDirectoryCommand_def Let_def
  by (auto split: option.split if_split prod.split dest: identity_calls)

lemma webhook_calls:
  assumes "c \<in> set (snd (slack_webhook env http q))"
  obtains employee parts tenant where "c = FileLeave (leave_body employee parts) tenant"
    "verifySlackRequest env q = None" "team_of (get_field (form_body env q) ''team_id'') = Some tenant"
    "webhook_employee (form_body env q) = Some employee"
    "leave_command (get_field (form_body env q) ''text'') = Inr parts"
  using assms unfolding slack_webhook_def Let_def
  by (auto split: option.splits if_splits sum.splits jsv.splits)

lemma approval_calls:
  assumes "handleAtlasApprovalCommand env http i l d t = (a, calls)"
  shows "calls = [] \<or> atl_role i \<in> set SLACK_APPROVER_ROLES \<and>
    calls = [SetStatus l (if d = Approve then ''APPROVED'' else ''REJECTED'') (slackInternalToken env i) t]"
  using assms by (auto simp: handleAtlasApprovalCommand_def Let_def split: if_splits)

lemma button_calls:
  assumes "c \<in> set (snd (slack_button env http q payload))" and "\<not> reads c"
  obtains team usr i early d l where
    "team_of (get_field (get_field payload ''team'') ''id'') = Some team"
    "slack_signed env q (resolveSlackSigningSecret env team)"
    "nonblank (get_field (get_field payload ''user'') ''id'') = Some usr"
    "resolveSlackAtlasIdentity env http usr team = (Some i, early)"
    "atl_role i \<in> set SLACK_APPROVER_ROLES"
    "action_decision (first_action payload) = Some d" "leave_id (get_field (first_action payload) ''value'') = Some l"
    "c = SetStatus l (if d = Approve then ''APPROVED'' else ''REJECTED'') (slackInternalToken env i) team"
proof -
  let ?team = "team_of (get_field (get_field payload ''team'') ''id'')"
  let ?usr = "nonblank (get_field (get_field payload ''user'') ''id'')"
  from assms(1) have gate: "verifySlackTenantRequest env q ?team = None"
    by (auto simp: slack_button_def Let_def split: option.splits)
  then obtain team where team: "?team = Some team" "slack_signed env q (resolveSlackSigningSecret env team)"
    by (elim tenant_gate_open)
  from assms(1) gate team obtain usr where usr: "?usr = Some usr"
    by (auto simp: slack_button_def Let_def split: option.splits)
  obtain x early where res: "resolveSlackAtlasIdentity env http usr team = (x, early)" by fastforce
  then have early: "c \<notin> set early"
    using identity_calls [OF res] assms(2) by (auto simp: list_all_iff)
  show thesis
  proof (cases x)
    case None
    with assms(1) gate team usr res early show thesis by (simp add: slack_button_def)
  next
    case (Some i)
    with assms(1) gate team usr res early obtain d l where
      act: "action_decision (first_action payload) = Some d" "leave_id (get_field (first_action payload) ''value'') = Some l"
      by (auto simp: slack_button_def Let_def split: option.splits prod.splits)
    obtain a calls where app: "handleAtlasApprovalCommand env http i l d team = (a, calls)" by fastforce
    with assms(1) gate team usr res early Some act have "c \<in> set calls"
      by (simp add: slack_button_def)
    with approval_calls [OF app] show thesis
      using that [OF team usr _ _ act, of i early] res Some by auto
  qed
qed

lemma interactive_calls:
  assumes "c \<in> set (snd (slack_interactive_route env http q))"
  obtains p payload where "sl_form q" "get_field (form_body env q) ''payload'' = JStr p"
    "json_parse p = Some payload" "c \<in> set (snd (slack_button env http q payload))"
  using assms unfolding slack_interactive_route_def
  by (auto split: if_splits jsv.splits option.splits)

text \<open>Every request of the application that changes something came by one of two ways.\<close>

lemma app_writes:
  assumes "gateway_app genv senv r call http q = (a, calls, r')" and "c \<in> set calls" and "\<not> reads c"
  shows "mounted_at (g_path (sl_request q)) ''/api/webhooks/slack'' \<and> c \<in> set (snd (slack_webhook senv http q)) \<or>
    mounted_at (g_path (sl_request q)) ''/api/integrations/slack/interactive'' \<and>
    c \<in> set (snd (slack_interactive_route senv http q))"
proof -
  from assms(2) have "calls \<noteq> []" by auto
  with slack_route_of [OF assms(1)] obtain b where "slack_routes senv http q = Some (b, calls)" by blast
  then show ?thesis
    using assms(2,3) command_calls [of senv http q]
    by (auto simp: slack_routes_def Let_def list_all_iff split: if_splits)
qed

subsection \<open>The guards in front of the commands\<close>

lemma prefix_of_lower:
  assumes "starts_with path q" and "to_lower q = q"
  shows "starts_with (to_lower path) q"
  using assms by (metis prefixE starts_with_iff_prefix starts_with_self to_lower_append)

lemma slack_path_unguarded:
  assumes "mounted_at path ''/api/integrations/slack/commands'' \<or>
    mounted_at path ''/api/integrations/slack/interactive''"
  shows "\<not> isPublicOrAuthPath path" "\<not> needsAuth path" "\<not> isSensitiveRoute path"
    "\<not> pathMatchesPrefix path ''/api/auth/mfa/validate''"
    "\<forall>t \<in> set [''/api/analytics'', ''/api/employee'', ''/api/security'', ''/api/command-center'', ''/api/workforce''].
       \<not> starts_with path t"
proof -
  let ?ps = "PUBLIC_PREFIXES @ protectedPrefixes @ map sr_prefix SENSITIVE_ROUTE_REGISTRY @ [''/api/auth/mfa/validate'']"
  let ?ts = "[''/api/analytics'', ''/api/employee'', ''/api/security'', ''/api/command-center'', ''/api/workforce'']"
  let ?ls = "map (\<lambda>p. ''/api/integrations/slack/'' @ p) [''commands'', ''commands/'', ''interactive'', ''interactive/'']"
  have lower: "to_lower path \<in> set ?ls" using assms by (auto simp: mounted_at_def)
  have no: "list_all (\<lambda>l. list_all (\<lambda>p. l \<noteq> p \<and> \<not> starts_with l (p @ ''/'')) ?ps) ?ls"
    by code_simp
  have small: "list_all (\<lambda>p. to_lower (p @ ''/'') = p @ ''/'') ?ps" by code_simp
  have no2: "list_all (\<lambda>l. list_all (\<lambda>t. \<not> starts_with l t \<and> to_lower t = t) ?ts) ?ls"
    by code_simp
  have un: "\<not> pathMatchesPrefix path p" if "p \<in> set ?ps" for p
  proof
    assume "pathMatchesPrefix path p"
    moreover have *: "to_lower path \<noteq> p" "\<not> starts_with (to_lower path) (p @ ''/'')" "to_lower (p @ ''/'') = p @ ''/''"
      using no small lower that by (auto simp only: list_all_iff)
    moreover from *(3) have "to_lower p = p" by (metis append_same_eq to_lower_append append_eq_append_conv length_to_lower)
    ultimately show False
      using prefix_of_lower [of path "p @ ''/''"] by (auto simp: pathMatchesPrefix_def)
  qed
  show "\<not> isPublicOrAuthPath path" using un by (auto simp: isPublicOrAuthPath_def)
  show "\<not> needsAuth path" using un by (auto simp: needsAuth_def)
  show "\<not> isSensitiveRoute path" using un by (auto simp: isSensitiveRoute_def)
  show "\<not> pathMatchesPrefix path ''/api/auth/mfa/validate''" using un by simp
  show "\<forall>t \<in> set ?ts. \<not> starts_with path t"
    using no2 lower prefix_of_lower [of path] by (auto simp only: list_all_iff)
qed

text \<open>
  Claim C35. Slack's commands and buttons never reach their handlers: a POST to either route that
  carries no header credential and no double-submit cookie, which is every request Slack
  makes, whatever its signature, is answered 403 by the CSRF guard in front of the routes, and no
  service is called.
\<close>

theorem slack_commands_refused:
  assumes "g_method (sl_request q) = ''POST''"
    and "mounted_at (g_path (sl_request q)) ''/api/integrations/slack/commands'' \<or>
      mounted_at (g_path (sl_request q)) ''/api/integrations/slack/interactive''"
    and "\<not> hasHeaderCredential (sl_request q) []"
    and "falsy_string (g_csrf_cookie (sl_request q)) \<or>
      g_csrf_cookie (sl_request q) \<noteq> sl_header q ''x-csrf-token''"
  shows "gateway_app genv senv r call http q =
    (ByGateway (Refused (refusal_of 403 ''CSRF token validation failed'')), [], r)"
proof -
  let ?g = "sl_request q"
  note un = slack_path_unguarded [OF assms(2)]
  have "find (registry_refuses (g_path ?g) role) SENSITIVE_ROUTE_REGISTRY = None" for role
    using un(3) by (auto simp: find_None_iff registry_refuses_def isSensitiveRoute_def)
  then have "rbacMiddleware ?g None = None" using un(1,5) by (simp add: rbacMiddleware_def Let_def)
  moreover have "authMiddleware genv r ?g = Inr (None, [])" by (simp add: authMiddleware_def un)
  moreover have "mfaStepUpMiddleware genv r ?g None = (None, r)" by (simp add: mfaStepUpMiddleware_def un)
  moreover have "\<exists>m. csrfMiddleware ?g None [] = (Some (refusal_of 403 ''CSRF token validation failed''), m)"
    using assms un by (auto simp: csrfMiddleware_def Let_def safe_method_def
        CSRF_BODY_CREDENTIAL_ROUTES_def sl_header_def)
  ultimately show ?thesis by (auto simp: gateway_app_def gateway_def)
qed

definition slack_post :: "string \<Rightarrow> string \<Rightarrow> slack_request" where
  "slack_post path sig =
     \<lparr>sl_request = \<lparr>g_method = ''POST'', g_path = path,
        g_headers = [(''x-slack-signature'', sig), (''x-slack-request-timestamp'', ''1000'')],
        g_csrf_cookie = None, g_query_token = None, g_body = JUndef\<rparr>, sl_form = True, sl_raw = ''form''\<rparr>"

text \<open>A workspace whose signing secret is \<open>s\<close>, with a digest that names its secret.\<close>

definition sample_slack :: "jsv \<Rightarrow> slack_env" where
  "sample_slack body =
     \<lparr>sk_signing = ''0123456789abcdef'', sk_webhook = [], sk_tenant_secrets = [],
      sk_hmac = (\<lambda>s t. s @ t), sk_form = (\<lambda>t. body), sk_now = 1000000\<rparr>"

definition sample_signature :: string where
  "sample_signature = ''v0=0123456789abcdefv0:1000:form''"

definition sample_command :: jsv where
  "sample_command = JObj [(''team_id'', JStr ''T1''), (''user_id'', JStr ''U1''), (''text'', JStr ''balance'')]"

theorem slack_commands_refused_witness:
  "slack_signed (sample_slack sample_command) (slack_post ''/api/integrations/slack/commands'' sample_signature)
     (resolveSlackSigningSecret (sample_slack sample_command) ''T1'') \<and>
   gateway_app sample_env (sample_slack sample_command) empty_redis (HeadcountFails True)
     (\<lambda>c. HttpFails [] None) (slack_post ''/api/integrations/slack/commands'' sample_signature) =
     (ByGateway (Refused (refusal_of 403 ''CSRF token validation failed'')), [], empty_redis)"
proof
  let ?q = "slack_post ''/api/integrations/slack/commands'' sample_signature"
  show "slack_signed (sample_slack sample_command) ?q (resolveSlackSigningSecret (sample_slack sample_command) ''T1'')"
    by code_simp
  have "g_method (sl_request ?q) = ''POST''" "mounted_at (g_path (sl_request ?q)) ''/api/integrations/slack/commands''"
    "\<not> hasHeaderCredential (sl_request ?q) []" "falsy_string (g_csrf_cookie (sl_request ?q))"
    by code_simp+
  then show "gateway_app sample_env (sample_slack sample_command) empty_redis (HeadcountFails True)
     (\<lambda>c. HttpFails [] None) ?q =
     (ByGateway (Refused (refusal_of 403 ''CSRF token validation failed'')), [], empty_redis)"
    using slack_commands_refused [of ?q] by blast
qed

subsection \<open>What a leave request from Slack rests on\<close>

lemma leave_command_dates:
  assumes "leave_command text = Inr parts"
  obtains from_day to_day where "day_number (parts ! 0) = Some from_day" "day_number (parts ! 2) = Some to_day"
    "from_day \<le> to_day" "3 \<le> length parts"
  using assms by (auto simp: leave_command_def Let_def split: if_splits option.splits)

lemma leave_body_fields:
  "get_field (leave_body e parts) ''employeeId'' = JStr e"
  "get_field (leave_body e parts) ''startDate'' = JStr (parts ! 0)"
  "get_field (leave_body e parts) ''endDate'' = JStr (parts ! 2)"
  "get_field (leave_body e parts) ''leaveType'' \<in> JStr ` set ALLOWED_LEAVE_TYPES"
  "\<exists>r. get_field (leave_body e parts) ''reason'' = JStr r \<and> r \<noteq> [] \<and> length r \<le> 500"
proof -
  let ?b = "\<lambda>s1 s2 ty reason. JObj [(''employeeId'', JStr e), (''startDate'', JStr s1), (''endDate'', JStr s2),
     (''leaveType'', JStr ty), (''reason'', JStr reason)]"
  have b: "\<exists>ty reason. leave_body e parts = ?b (parts ! 0) (parts ! 2) ty reason \<and>
      ty \<in> set ALLOWED_LEAVE_TYPES \<and> reason \<noteq> [] \<and> length reason \<le> 500"
    unfolding leave_body_def Let_def by (intro exI conjI, rule refl) (auto simp: ALLOWED_LEAVE_TYPES_def)
  have f: "get_field (?b s1 s2 ty reason) ''employeeId'' = JStr e" "get_field (?b s1 s2 ty reason) ''startDate'' = JStr s1"
    "get_field (?b s1 s2 ty reason) ''endDate'' = JStr s2" "get_field (?b s1 s2 ty reason) ''leaveType'' = JStr ty"
    "get_field (?b s1 s2 ty reason) ''reason'' = JStr reason" for s1 s2 ty reason
    by (simp_all add: get_field_def)
  from b obtain ty reason where body: "leave_body e parts = ?b (parts ! 0) (parts ! 2) ty reason"
    and ty: "ty \<in> set ALLOWED_LEAVE_TYPES" and reason: "reason \<noteq> []" "length reason \<le> 500" by blast
  show "get_field (leave_body e parts) ''employeeId'' = JStr e" "get_field (leave_body e parts) ''startDate'' = JStr (parts ! 0)"
    "get_field (leave_body e parts) ''endDate'' = JStr (parts ! 2)"
    "get_field (leave_body e parts) ''leaveType'' \<in> JStr ` set ALLOWED_LEAVE_TYPES"
    "\<exists>r. get_field (leave_body e parts) ''reason'' = JStr r \<and> r \<noteq> [] \<and> length r \<le> 500"
    unfolding body f using ty reason by blast+
qed

lemma webhook_answer:
  assumes "FileLeave b t \<in> set (snd (slack_webhook env http q))"
  shows "snd (slack_webhook env http q) = [FileLeave b t] \<and>
    fst (slack_webhook env http q) =
      (case http (FileLeave b t) of
         HttpFails code st \<Rightarrow> webhook_failed code st
       | HttpBody _ \<Rightarrow> in_channel (''Leave request submitted for '' @ js_string (get_field b ''startDate'') @
           '' to '' @ js_string (get_field b ''endDate'')))"
proof -
  from assms obtain e parts tenant where w: "FileLeave b t = FileLeave (leave_body e parts) tenant"
      "verifySlackRequest env q = None" "team_of (get_field (form_body env q) ''team_id'') = Some tenant"
      "webhook_employee (form_body env q) = Some e" "leave_command (get_field (form_body env q) ''text'') = Inr parts"
    by (elim webhook_calls)
  from w(2) have "\<not> (sk_signing env = [] \<and> sk_webhook env = [])" by (auto simp: verifySlackRequest_def)
  moreover from w(3) have "form_body env q \<noteq> JUndef" by (auto simp: get_field_def team_of_def)
  moreover have b: "b = leave_body e parts" "t = tenant" using w(1) by simp_all
  ultimately have "slack_webhook env http q =
      (case http (FileLeave b t) of HttpFails code st \<Rightarrow> webhook_failed code st
       | HttpBody _ \<Rightarrow> in_channel (''Leave request submitted for '' @ parts ! 0 @ '' to '' @ parts ! 2), [FileLeave b t])"
    unfolding slack_webhook_def Let_def using w(2-5)
    by (cases "form_body env q") simp_all
  then show ?thesis unfolding b by (simp only: fst_conv snd_conv leave_body_fields js_string.simps)
qed

text \<open>A leave that begins on a day there is not.\<close>

lemma impossible_day_filed:
  "leave_command (JStr ''2026-02-31 to 2026-03-03 flu'') = Inr [''2026-02-31'', ''to'', ''2026-03-03'', ''flu'']"
  by code_simp

text \<open>
  Claim C20. A leave request the gateway files from Slack rests on a shared secret: the body was signed
  with the signing secret within five minutes, or the request carries the webhook secret. It is
  filed once, for the workspace and the user the body names, over two strings that JavaScript
  reads as days, the second not before the first, with a leave type of the allowlist and a reason of
  at most 500 characters; and the answer in the channel says the request was submitted exactly when
  the leave service took it. (A day its month does not have is filed as it was typed: see
  \<open>impossible_day_filed\<close>.)
\<close>

theorem slack_leave_authentic:
  assumes "gateway_app genv senv r call http q = (a, calls, r')" and "FileLeave b tenant \<in> set calls"
  shows "(slack_signed senv q (sk_signing senv) \<or> shows_webhook_secret senv q) \<and>
    get_field (form_body senv q) ''team_id'' = JStr tenant \<and> team_id tenant \<and>
    (\<exists>e s1 s2 d1 d2 ty reason. webhook_employee (form_body senv q) = Some e \<and>
       get_field b ''employeeId'' = JStr e \<and> get_field b ''startDate'' = JStr s1 \<and>
       get_field b ''endDate'' = JStr s2 \<and> day_number s1 = Some d1 \<and> day_number s2 = Some d2 \<and> d1 \<le> d2 \<and>
       get_field b ''leaveType'' = JStr ty \<and> ty \<in> set ALLOWED_LEAVE_TYPES \<and>
       get_field b ''reason'' = JStr reason \<and> length reason \<le> 500 \<and>
       a = BySlack (case http (FileLeave b tenant) of
             HttpBody _ \<Rightarrow> in_channel (''Leave request submitted for '' @ s1 @ '' to '' @ s2)
           | HttpFails code st \<Rightarrow> webhook_failed code st)) \<and>
    calls = [FileLeave b tenant]"
proof -
  have not_button: "FileLeave b tenant \<notin> set (snd (slack_interactive_route senv http q))"
  proof
    assume "FileLeave b tenant \<in> set (snd (slack_interactive_route senv http q))"
    then obtain payload where "FileLeave b tenant \<in> set (snd (slack_button senv http q payload))"
      by (elim interactive_calls)
    then show False by (elim button_calls) simp_all
  qed
  with app_writes [OF assms] have hook: "mounted_at (g_path (sl_request q)) ''/api/webhooks/slack''"
    "FileLeave b tenant \<in> set (snd (slack_webhook senv http q))" by auto
  from assms(2) have "calls \<noteq> []" by auto
  with slack_route_of [OF assms(1)] hook(1) have a: "\<exists>x. a = BySlack x \<and> slack_webhook senv http q = (x, calls)"
    by (auto simp: slack_routes_def Let_def split: if_splits)
  from hook(2) obtain e parts t where w: "FileLeave b tenant = FileLeave (leave_body e parts) t"
      "verifySlackRequest senv q = None" "team_of (get_field (form_body senv q) ''team_id'') = Some t"
      "webhook_employee (form_body senv q) = Some e"
      "leave_command (get_field (form_body senv q) ''text'') = Inr parts"
    by (elim webhook_calls)
  note answer = webhook_answer [OF hook(2)]
  from w(1) have b: "b = leave_body e parts" "t = tenant" by auto
  obtain ty where ty: "get_field b ''leaveType'' = JStr ty" "ty \<in> set ALLOWED_LEAVE_TYPES"
    using leave_body_fields(4) [of e parts] b by auto
  obtain reason where reason: "get_field b ''reason'' = JStr reason" "length reason \<le> 500"
    using leave_body_fields(5) [of e parts] b by auto
  obtain d1 d2 where d: "day_number (parts ! 0) = Some d1" "day_number (parts ! 2) = Some d2" "d1 \<le> d2"
    using w(5) by (elim leave_command_dates)
  have "a = BySlack (case http (FileLeave b tenant) of
      HttpBody _ \<Rightarrow> in_channel (''Leave request submitted for '' @ parts ! 0 @ '' to '' @ parts ! 2)
    | HttpFails code st \<Rightarrow> webhook_failed code st)" "calls = [FileLeave b tenant]"
    using a answer b by (auto simp: leave_body_fields split: http_answer.splits)
  with leave_body_fields(1-3) [of e parts, folded b(1)] w(4) d ty reason
  have "(\<exists>e s1 s2 d1 d2 ty reason. webhook_employee (form_body senv q) = Some e \<and>
       get_field b ''employeeId'' = JStr e \<and> get_field b ''startDate'' = JStr s1 \<and>
       get_field b ''endDate'' = JStr s2 \<and> day_number s1 = Some d1 \<and> day_number s2 = Some d2 \<and> d1 \<le> d2 \<and>
       get_field b ''leaveType'' = JStr ty \<and> ty \<in> set ALLOWED_LEAVE_TYPES \<and>
       get_field b ''reason'' = JStr reason \<and> length reason \<le> 500 \<and>
       a = BySlack (case http (FileLeave b tenant) of
             HttpBody _ \<Rightarrow> in_channel (''Leave request submitted for '' @ s1 @ '' to '' @ s2)
           | HttpFails code st \<Rightarrow> webhook_failed code st))" and "calls = [FileLeave b tenant]"
    by blast+
  moreover have "get_field (form_body senv q) ''team_id'' = JStr tenant" "team_id tenant"
    using w(3) b(2) by (simp_all add: team_of_Some)
  ultimately show ?thesis using verifySlackRequest_shows [OF w(2)] by (intro conjI)
qed

definition sample_leave :: jsv where
  "sample_leave = JObj [(''team_id'', JStr ''T1''), (''user_id'', JStr ''U1''),
     (''text'', JStr ''2026-03-02 to 2026-03-04 sick flu'')]"

theorem slack_leave_authentic_witness:
  "\<exists>calls b. gateway_app sample_env (sample_slack sample_leave) empty_redis (HeadcountFails True)
     (\<lambda>c. HttpBody JNull) (slack_post ''/api/webhooks/slack'' sample_signature) =
     (BySlack (in_channel ''Leave request submitted for 2026-03-02 to 2026-03-04''), calls, empty_redis) \<and>
     calls = [FileLeave b ''T1''] \<and>
     slack_signed (sample_slack sample_leave) (slack_post ''/api/webhooks/slack'' sample_signature) ''0123456789abcdef''"
proof -
  let ?q = "slack_post ''/api/webhooks/slack'' sample_signature"
  let ?b = "leave_body ''U1'' [''2026-03-02'', ''to'', ''2026-03-04'', ''sick'', ''flu'']"
  have run: "gateway_app sample_env (sample_slack sample_leave) empty_redis (HeadcountFails True)
      (\<lambda>c. HttpBody JNull) ?q =
      (BySlack (in_channel ''Leave request submitted for 2026-03-02 to 2026-03-04''), [FileLeave ?b ''T1''], empty_redis)"
    by code_simp
  from slack_leave_authentic [OF this, of ?b "''T1''"]
  have "slack_signed (sample_slack sample_leave) ?q (sk_signing (sample_slack sample_leave)) \<or>
      shows_webhook_secret (sample_slack sample_leave) ?q" by auto
  moreover have "\<not> shows_webhook_secret (sample_slack sample_leave) ?q"
    "sk_signing (sample_slack sample_leave) = ''0123456789abcdef''" by code_simp+
  ultimately show ?thesis using run by auto
qed

end
