(* ===== verification/Slack_Approvals.thy ===== *)
theory Slack_Approvals
  imports Gateway_Slack Auth_Login Auth_Admin
begin

section \<open>An approval from Slack, through the gateway and the auth service\<close>

text \<open>
  The composition of \<open>Gateway_Slack\<close> with the lookup route of the auth service
  (\<open>Auth_Admin.atlas_user_route\<close>): what the gateway asks for an identity is answered by the model of
  the route, over the stored users. The internal token is a value of \<open>sign\<close> (jsonwebtoken), read back
  by the auth service; axios rejects an answer whose status is not in the two hundreds.
\<close>

definition lookup_request :: "string \<Rightarrow> string \<Rightarrow> string \<Rightarrow> auth_http" where
  "lookup_request email tok tenant =
     \<lparr>hq_body = JUndef, hq_headers = [(''x-internal-auth'', tok), (''x-tenant-id'', tenant)], hq_cookies = [],
      hq_ip = ''10.0.0.2'', hq_params = [], hq_query = JObj [(''email'', JStr email)]\<rparr>"

definition axios_of :: "auth_reply \<Rightarrow> http_answer" where
  "axios_of a =
     (if 200 \<le> rp_status a \<and> rp_status a < 300 then HttpBody (rp_body a)
      else HttpFails ''ERR_BAD_REQUEST'' (Some (rp_status a)))"

definition auth_answers ::
  "(jsv \<Rightarrow> string) \<Rightarrow> auth_env \<Rightarrow> draws \<Rightarrow> auth_world \<Rightarrow> string \<Rightarrow> jsv \<Rightarrow> string \<Rightarrow> http_answer"
where
  "auth_answers sign aenv d w email claims tenant =
     axios_of (fst (atlas_user_route aenv d (lookup_request email (sign claims) tenant) w))"

subsection \<open>E-mail addresses and workspace ids\<close>

lemma of_lower_char:
  "of_char (lower_char c) =
     (let n = (of_char c :: nat) in if (65 \<le> n \<and> n \<le> 90) \<or> (192 \<le> n \<and> n \<le> 222 \<and> n \<noteq> 215) then n + 32 else n)"
  by (auto simp: lower_char_def Let_def)

lemma lower_char_ws: "is_ws (lower_char c) = is_ws c"
  by (auto simp: is_ws_def of_lower_char Let_def)

lemma lower_char_idem: "lower_char (lower_char c) = lower_char c"
  by (auto simp: of_lower_char lower_char_def [of "lower_char c"] Let_def)

lemma trim_to_lower: "trim (to_lower s) = to_lower (trim s)"
  by (simp add: trim_def to_lower_def dropWhile_map rev_map comp_def lower_char_ws)

lemma dropWhile_ends: "s \<noteq> [] \<Longrightarrow> \<not> P (last s) \<Longrightarrow> dropWhile P s \<noteq> [] \<and> last (dropWhile P s) = last s"
  by (induction s) (auto split: if_splits)

lemma trim_idem: "trim (trim s) = trim s"
proof (cases "trim s")
  case Nil
  moreover have "trim [] = []" by (simp add: trim_def)
  ultimately show ?thesis by simp
next
  case (Cons c cs)
  let ?d = "dropWhile is_ws s"
  have t: "trim s = rev (dropWhile is_ws (rev ?d))" by (simp add: trim_def)
  with Cons have ne1: "dropWhile is_ws (rev ?d) \<noteq> []" by simp
  then have "?d \<noteq> []" by (metis dropWhile.simps(1) rev.simps(1))
  note ne = ne1 this
  have "\<not> is_ws (hd ?d)" using hd_dropWhile [OF ne(2)] .
  then have "\<not> is_ws (last (rev ?d))" using ne(2) by (simp add: last_rev)
  with dropWhile_ends [of "rev ?d" is_ws] ne(2) have "\<not> is_ws (last (dropWhile is_ws (rev ?d)))" by simp
  then have "\<not> is_ws (hd (trim s))" unfolding t using ne(1) by (simp add: hd_rev)
  then have "dropWhile is_ws (trim s) = trim s" using Cons by simp
  moreover have "\<not> is_ws (hd (rev (trim s)))" unfolding t using hd_dropWhile [OF ne(1)] by simp
  then have "dropWhile is_ws (rev (trim s)) = rev (trim s)" using Cons by (cases "rev (trim s)") auto
  ultimately show ?thesis by (simp add: trim_def [of "trim s"])
qed

lemma to_lower_idem: "to_lower (to_lower s) = to_lower s"
  by (simp add: to_lower_def lower_char_idem)

lemma email_normal: "to_lower (trim (to_lower (trim e))) = to_lower (trim e)"
  by (simp add: trim_to_lower trim_idem to_lower_idem)

lemma team_not_blank: "team_id t \<Longrightarrow> trim t = t \<and> t \<noteq> []"
proof -
  assume t: "team_id t"
  have "\<not> is_ws c" if "team_char c" for c
    using that by (auto simp: team_char_def is_ws_def is_digit_def Let_def)
  with t show ?thesis by (auto simp: team_id_def list_all_iff intro!: trim_no_ws)
qed

subsection \<open>The approval\<close>

text \<open>What the lookup route answers when the gateway takes an identity from it.\<close>

lemma looked_up:
  assumes "identity_of email team (auth_answers sign aenv d w email (lookup_claims senv team) team) = Some i"
    and "ae_verify_internal aenv (sign (lookup_claims senv team)) = Verified (lookup_claims senv team)"
    and "team_id team" and "to_lower (trim email) = email"
  obtains u where "u \<in> set (users (aw_db w))" "u_email u = email" "u_tenant u = Some team"
    "u_enabled u \<noteq> Some False" "atl_id i = JNum (of_int (u_id u))" "atl_role i = to_lower (u_role u)"
    "atl_tenant i = JStr team"
proof -
  note t = team_not_blank [OF assms(3)]
  obtain data where data: "auth_answers sign aenv d w email (lookup_claims senv team) team = HttpBody data"
    using assms(1) by (auto simp: identity_of_def split: http_answer.splits)
  have claim: "get_field (lookup_claims senv team) ''tenant_id'' = JStr team"
    by (simp add: lookup_claims_def get_field_def)
  have query: "get_field (JObj [(''email'', JStr e)]) ''email'' = JStr e" for e
    by (simp add: get_field_def)
  from data obtain u where
    u: "find (\<lambda>u. u_email u = email \<and> u_tenant u = Some team) (users (aw_db w)) = Some u"
    and en: "u_enabled u \<noteq> Some False"
    and body: "data = JObj [(''id'', JNum (of_int (u_id u))), (''email'', JStr (u_email u)),
       (''name'', JStr (u_name u)), (''role'', JStr (u_role u)),
       (''tenant_id'', JStr (if falsy_string (u_tenant u) then team else the (u_tenant u)))]"
    using t assms(4)
    by (auto simp: auth_answers_def axios_of_def atlas_user_route_def lookup_request_def header_of_def claim
        query assms(2) failure_def reply_def Let_def split: if_splits option.splits)
  have u': "u \<in> set (users (aw_db w))" "u_email u = email" "u_tenant u = Some team"
    using find_Some_set [OF u] by auto
  have "get_field data ''active'' = JUndef" "truthy data"
    by (simp_all add: body get_field_def)
  with assms(1) data have i: "atl_id i = get_field data ''id''" "atl_tenant i = js_or (get_field data ''tenant_id'') (JStr team)"
    "atl_role i = to_lower (js_string (js_or (get_field data ''role'') (JStr [])))"
    by (auto simp: identity_of_def js_or_def)
  show thesis
    using that [OF u' en] i u' t
    by (auto simp: body get_field_def js_or_def falsy_string_def)
qed

text \<open>
  Claim C19. A leave request is approved or denied from Slack only by someone entitled to. When the
  gateway sends a decision to the leave service, the raw body was signed within five minutes with the
  signing secret of the workspace the payload names, the button and the request id come from that
  payload, and the auth service holds an account of that workspace whose active column is not false,
  whose e-mail is the one Slack has for the user who pressed the button and whose stored role is admin,
  hr or manager. The token that goes along names this account, its stored role and the workspace. (An
  active column that is empty, as SCIM can leave it, passes here, while the login refuses it.)
\<close>

theorem slack_approval_by_approver:
  assumes "gateway_app genv senv r call http q = (a, calls, r')" and "SetStatus l st claims team \<in> set calls"
    and "\<And>e cl t. http (AtlasUser e cl t) = auth_answers sign aenv d w e cl t"
    and "ae_verify_internal aenv (sign (lookup_claims senv team)) = Verified (lookup_claims senv team)"
  shows "\<exists>p payload usr u. slack_signed senv q (resolveSlackSigningSecret senv team) \<and>
    get_field (form_body senv q) ''payload'' = JStr p \<and> json_parse p = Some payload \<and>
    get_field (get_field payload ''team'') ''id'' = JStr team \<and>
    nonblank (get_field (get_field payload ''user'') ''id'') = Some usr \<and>
    get_field (first_action payload) ''value'' = JStr l \<and> list_all is_digit l \<and>
    (st = ''APPROVED'' \<and> get_field (first_action payload) ''action_id'' = JStr ''leave_approve'' \<or>
     st = ''REJECTED'' \<and> get_field (first_action payload) ''action_id'' = JStr ''leave_deny'') \<and>
    u \<in> set (users (aw_db w)) \<and> u_tenant u = Some team \<and> u_enabled u \<noteq> Some False \<and>
    slack_email (http (UsersInfo usr)) = Some (u_email u) \<and>
    to_lower (u_role u) \<in> {''admin'', ''hr'', ''manager''} \<and>
    get_field claims ''user_id'' = JNum (of_int (u_id u)) \<and>
    get_field claims ''user_role'' = JStr (to_lower (u_role u)) \<and> get_field claims ''tenant_id'' = JStr team"
proof -
  have change: "\<not> reads (SetStatus l st claims team)" by simp
  have "SetStatus l st claims team \<notin> set (snd (slack_webhook senv http q))"
    by (auto elim: webhook_calls)
  with app_writes [OF assms(1,2) change] have "SetStatus l st claims team \<in> set (snd (slack_interactive_route senv http q))"
    by simp
  then obtain p payload where p: "get_field (form_body senv q) ''payload'' = JStr p" "json_parse p = Some payload"
      "SetStatus l st claims team \<in> set (snd (slack_button senv http q payload))"
    by (elim interactive_calls)
  from button_calls [OF p(3) change] obtain team' usr i early dec l' where
    b: "team_of (get_field (get_field payload ''team'') ''id'') = Some team'"
      "slack_signed senv q (resolveSlackSigningSecret senv team')"
      "nonblank (get_field (get_field payload ''user'') ''id'') = Some usr"
      "resolveSlackAtlasIdentity senv http usr team' = (Some i, early)"
      "atl_role i \<in> set SLACK_APPROVER_ROLES"
      "action_decision (first_action payload) = Some dec" "leave_id (get_field (first_action payload) ''value'') = Some l'"
    and c: "SetStatus l st claims team =
      SetStatus l' (if dec = Approve then ''APPROVED'' else ''REJECTED'') (slackInternalToken senv i) team'"
    by metis
  from c have t: "team' = team" "l' = l" "st = (if dec = Approve then ''APPROVED'' else ''REJECTED'')"
      "claims = slackInternalToken senv i" by auto
  have team: "get_field (get_field payload ''team'') ''id'' = JStr team" "team_id team"
    using b(1) t(1) by (simp_all add: team_of_Some)
  from b(4) obtain email where e: "slack_email (http (UsersInfo usr)) = Some email"
      "identity_of email team (http (AtlasUser email (lookup_claims senv team) team)) = Some i"
    unfolding t by (elim resolved_identity)
  have norm: "to_lower (trim email) = email"
    using e(1) by (auto simp: slack_email_def email_normal Let_def split: http_answer.splits jsv.splits if_splits)
  obtain u where u: "u \<in> set (users (aw_db w))" "u_email u = email"
      "u_tenant u = Some team" "u_enabled u \<noteq> Some False" "atl_id i = JNum (of_int (u_id u))"
      "atl_role i = to_lower (u_role u)" "atl_tenant i = JStr team"
    using looked_up [of email team sign aenv d w senv i, OF e(2) [unfolded assms(3)] assms(4) team(2) norm] .
  have l: "get_field (first_action payload) ''value'' = JStr l" "list_all is_digit l"
    using b(7) t(2) by (auto simp: leave_id_def split: jsv.splits if_splits)
  have act: "st = ''APPROVED'' \<and> get_field (first_action payload) ''action_id'' = JStr ''leave_approve'' \<or>
      st = ''REJECTED'' \<and> get_field (first_action payload) ''action_id'' = JStr ''leave_deny''"
    using b(6) t(3) by (auto simp: action_decision_def split: if_splits)
  have cl: "get_field claims ''user_id'' = JNum (of_int (u_id u))"
      "get_field claims ''user_role'' = JStr (to_lower (u_role u))" "get_field claims ''tenant_id'' = JStr team"
    using u by (simp_all add: t(4) slackInternalToken_def get_field_def)
  have role: "to_lower (u_role u) \<in> {''admin'', ''hr'', ''manager''}"
    using b(5) unfolding u(6) SLACK_APPROVER_ROLES_def by simp
  show ?thesis
    using b(2,3) t(1) p(1,2) team(1) l act u(1,3,4) e(1) u(2) role cl by blast
qed

definition button_payload :: string where
  "button_payload =
     ''{'' @ dquoted ''team'' @ '':{'' @ dquoted ''id'' @ '':'' @ dquoted ''acme'' @ ''},'' @
     dquoted ''user'' @ '':{'' @ dquoted ''id'' @ '':'' @ dquoted ''U1'' @ ''},'' @
     dquoted ''actions'' @ '':[{'' @ dquoted ''action_id'' @ '':'' @ dquoted ''leave_approve'' @ '','' @
     dquoted ''value'' @ '':'' @ dquoted ''17'' @ ''}]}''"

definition button_env :: slack_env where
  "button_env = sample_slack (JObj [(''payload'', JStr button_payload)])"

text \<open>A press of the button that also carries an API key, which the CSRF guard lets through.\<close>

definition button_press :: slack_request where
  "button_press = (slack_post ''/api/integrations/slack/interactive'' sample_signature)
     \<lparr>sl_request := \<lparr>g_method = ''POST'', g_path = ''/api/integrations/slack/interactive'',
        g_headers = [(''x-slack-signature'', sample_signature), (''x-slack-request-timestamp'', ''1000''),
          (''x-api-key'', ''k'')], g_csrf_cookie = None, g_query_token = None, g_body = JUndef\<rparr>\<rparr>"

definition lookup_env :: auth_env where
  "lookup_env = (svc_env 5)\<lparr>ae_verify_internal := (\<lambda>tok. Verified (lookup_claims button_env ''acme''))\<rparr>"

definition button_http :: "slack_call \<Rightarrow> http_answer" where
  "button_http c =
     (case c of
        AtlasUser e cl t \<Rightarrow> auth_answers (\<lambda>c. ''tok'') lookup_env some_draws svc_world e cl t
      | UsersInfo usr \<Rightarrow> HttpBody (JObj [(''user'', JObj [(''profile'', JObj [(''email'', JStr ''Ada@Atlas.io'')])])])
      | _ \<Rightarrow> HttpBody JUndef)"

theorem slack_approval_by_approver_witness:
  "\<exists>claims. fst (snd (gateway_app sample_env button_env empty_redis (HeadcountFails True) button_http button_press)) =
     [UsersInfo ''U1'', AtlasUser ''ada@atlas.io'' (lookup_claims button_env ''acme'') ''acme'',
      SetStatus ''17'' ''APPROVED'' claims ''acme''] \<and>
   get_field claims ''user_id'' = JNum 7"
proof -
  let ?i = "\<lparr>atl_id = JNum 7, atl_email = JStr ''ada@atlas.io'', atl_name = JStr ''Ada'', atl_role = ''hr'',
     atl_tenant = JStr ''acme''\<rparr>"
  let ?calls = "[UsersInfo ''U1'', AtlasUser ''ada@atlas.io'' (lookup_claims button_env ''acme'') ''acme'',
      SetStatus ''17'' ''APPROVED'' (slackInternalToken button_env ?i) ''acme'']"
  have run: "fst (snd (gateway_app sample_env button_env empty_redis (HeadcountFails True) button_http button_press)) = ?calls"
    by code_simp
  then obtain a r' where "gateway_app sample_env button_env empty_redis (HeadcountFails True) button_http button_press = (a, ?calls, r')"
    by (metis prod.collapse)
  from slack_approval_by_approver [OF this, of "''17''" "''APPROVED''" "slackInternalToken button_env ?i" "''acme''"
      "\<lambda>c. ''tok''" lookup_env some_draws svc_world]
  obtain u where "u \<in> set (users (aw_db svc_world))"
    "get_field (slackInternalToken button_env ?i) ''user_id'' = JNum (of_int (u_id u))"
    by (auto simp: button_http_def lookup_env_def)
  then show ?thesis using run by (auto simp: svc_world_def ada_def)
qed

end
