(* ===== verification/Gateway_Audit.thy ===== *)
theory Gateway_Audit
  imports Gateway
begin

section \<open>The API gateway: audit events and their retries\<close>

text \<open>
  \<open>services/api-gateway-node/index.js\<close>: \<open>auditProxyMiddleware\<close> (621 to 660) and the retry queue (1855
  to 1995). The three redis lists of the queue are lists, the left end first, over the stored
  events; the text in redis is the JSON of such an event or something that does not parse.
  Whether a post to the audit service succeeds and the times are parameters; a post that
  succeeded but whose answer was lost counts as failed. The client has
  \<open>lMove\<close>. Every redis command is one step. A drain
  that is alone and whose commands all succeed is a function. The queue is shared by the replicas
  of the gateway, so the drains are also a relation, in which the commands of any number of
  processes interleave, each command may throw, done or not, and a process may die between any two.
\<close>

subsection \<open>Events\<close>

record audit_response =
  ar_status :: nat
  ar_path :: string \<comment> \<open>\<open>req.path\<close> when the response is finished\<close>
  ar_ip :: string
  ar_iso :: string \<comment> \<open>the time\<close>

definition header_or_null :: "gateway_request \<Rightarrow> string \<Rightarrow> jsv" where
  "header_or_null g k =
     (case map_get (g_headers g) k of Some v \<Rightarrow> js_or (JStr v) JNull | None \<Rightarrow> JNull)"

text \<open>The event of a request, when there is one; \<open>JSON.stringify\<close> leaves out a missing user agent.\<close>

definition auditProxyMiddleware :: "gateway_request \<Rightarrow> jsv option \<Rightarrow> audit_response \<Rightarrow> jsv option" where
  "auditProxyMiddleware g u a =
     (if g_method g = ''GET'' \<or> 400 \<le> ar_status a then None
      else Some (JObj
        ([(''event_type'', JStr (''gateway.'' @ to_lower (g_method g))), (''path'', JStr (ar_path a)),
          (''method'', JStr (g_method g)),
          (''user_id'', js_or (get_field (user_value u) ''id'') JNull),
          (''user_email'', js_or (get_field (user_value u) ''email'') JNull),
          (''user_role'', js_or (get_field (user_value u) ''role'') JNull),
          (''ip_address'', JStr (ar_ip a))] @
         (case map_get (g_headers g) ''user-agent'' of Some v \<Rightarrow> [(''user_agent'', JStr v)] | None \<Rightarrow> []) @
         [(''device_id'', header_or_null g ''x-device-id''), (''session_id'', header_or_null g ''x-session-id''),
          (''correlation_id'', header_or_null g ''x-correlation-id''),
          (''status_code'', JNum (of_nat (ar_status a))), (''timestamp'', JStr (ar_iso a)),
          (''service'', JStr ''api-gateway'')])))"

subsection \<open>The queue\<close>

definition MAX_AUDIT_RETRY_ATTEMPTS :: nat where "MAX_AUDIT_RETRY_ATTEMPTS = 10"
definition MAX_AUDIT_QUEUE_SIZE :: nat where "MAX_AUDIT_QUEUE_SIZE = 10000"

text \<open>What \<open>toStore\<close> and \<open>nextPayload\<close> add to the event.\<close>

record queued =
  qe_event :: jsv
  qe_attempts :: nat
  qe_first :: int
  qe_next :: int
  qe_error :: "string option"

datatype audit_entry = Event queued | Junk string

record audit_store =
  aq_open :: bool
  aq_queue :: "audit_entry list"
  aq_processing :: "audit_entry list"
  aq_dead :: "queued list"

text \<open>An event without a correlation id is given one, drawn before.\<close>

definition with_correlation :: "string \<Rightarrow> jsv \<Rightarrow> jsv" where
  "with_correlation drawn e =
     (case e of
        JObj fs \<Rightarrow> if truthy (get_field e ''correlation_id'') then e
                   else JObj (map_set ''correlation_id'' (JStr drawn) fs)
      | _ \<Rightarrow> e)"

definition fresh_entry :: "int \<Rightarrow> string \<Rightarrow> jsv \<Rightarrow> queued" where
  "fresh_entry now drawn e =
     \<lparr>qe_event = with_correlation drawn e, qe_attempts = 0, qe_first = now, qe_next = now, qe_error = None\<rparr>"

text \<open>
  The commands the queue is worked with: \<open>lMove(queue, processing, RIGHT, LEFT)\<close>, \<open>lPop(queue)\<close>,
  \<open>rPush(processing)\<close>, \<open>lRem(processing, 1)\<close>, \<open>rPush(queue)\<close>, \<open>rPush(dlq)\<close>; the first two answer with
  the entry there was.
\<close>

datatype redis_command =
    MoveLast | PopFirst | Keep audit_entry | Remove audit_entry | PushBack audit_entry | Bury queued

fun answer_of :: "redis_command \<Rightarrow> audit_store \<Rightarrow> audit_entry option" where
  "answer_of MoveLast s = (if aq_queue s = [] then None else Some (last (aq_queue s)))"
| "answer_of PopFirst s = (if aq_queue s = [] then None else Some (hd (aq_queue s)))"
| "answer_of c s = None"

fun execute :: "redis_command \<Rightarrow> audit_store \<Rightarrow> audit_store" where
  "execute MoveLast s =
     (if aq_queue s = [] then s
      else s\<lparr>aq_queue := butlast (aq_queue s), aq_processing := last (aq_queue s) # aq_processing s\<rparr>)"
| "execute PopFirst s = s\<lparr>aq_queue := tl (aq_queue s)\<rparr>"
| "execute (Keep i) s = s\<lparr>aq_processing := aq_processing s @ [i]\<rparr>"
| "execute (Remove i) s = s\<lparr>aq_processing := remove1 i (aq_processing s)\<rparr>"
| "execute (PushBack i) s = s\<lparr>aq_queue := aq_queue s @ [i]\<rparr>"
| "execute (Bury q) s = s\<lparr>aq_dead := aq_dead s @ [q]\<rparr>"

text \<open>The length of the queue is read first; the entry is pushed by a command of its own.\<close>

definition queue_has_room :: "audit_store \<Rightarrow> bool" where
  "queue_has_room s \<longleftrightarrow> aq_open s \<and> length (aq_queue s) < MAX_AUDIT_QUEUE_SIZE"

definition enqueueAuditRetry :: "int \<Rightarrow> string \<Rightarrow> jsv \<Rightarrow> audit_store \<Rightarrow> audit_store" where
  "enqueueAuditRetry now drawn e s =
     (if queue_has_room s then execute (PushBack (Event (fresh_entry now drawn e))) s else s)"

definition backoff_ms :: "nat \<Rightarrow> int" where
  "backoff_ms attempts = min 60000 (1000 * 2 ^ (attempts - 1))"

text \<open>
  What a round makes of the entry it took: whether it is due is decided at \<open>now\<close>, and the time of
  the next attempt is counted from \<open>later\<close>, when the post has failed.
\<close>

datatype round_outcome = Dropped | NotDue | Discarded queued | Confirmed | Failed queued

definition failed_again :: "int \<Rightarrow> string \<Rightarrow> queued \<Rightarrow> queued" where
  "failed_again later err q =
     q\<lparr>qe_attempts := qe_attempts q + 1, qe_next := later + backoff_ms (qe_attempts q + 1), qe_error := Some err\<rparr>"

lemma failed_again_simps [simp]:
  "qe_event (failed_again t err q) = qe_event q" "qe_attempts (failed_again t err q) = qe_attempts q + 1"
  "qe_next (failed_again t err q) = t + backoff_ms (qe_attempts q + 1)"
  by (simp_all add: failed_again_def)

definition judge :: "int \<Rightarrow> int \<Rightarrow> bool \<Rightarrow> string \<Rightarrow> audit_entry \<Rightarrow> round_outcome" where
  "judge now later sent err i =
     (case i of
        Junk t \<Rightarrow> Dropped
      | Event q \<Rightarrow>
          (let attempts = qe_attempts q + 1
           in if qe_next q \<noteq> 0 \<and> now < qe_next q then NotDue
              else if MAX_AUDIT_RETRY_ATTEMPTS < attempts then Discarded (q\<lparr>qe_attempts := attempts\<rparr>)
              else if sent then Confirmed
              else Failed (failed_again later err q)))"

text \<open>The commands that settle the round, in their order.\<close>

fun settling :: "audit_entry \<Rightarrow> round_outcome \<Rightarrow> redis_command list" where
  "settling i Dropped = [Remove i]"
| "settling i NotDue = [Remove i, PushBack i]"
| "settling i (Discarded q) = [Remove i, Bury q]"
| "settling i Confirmed = [Remove i]"
| "settling i (Failed q) = [Remove i, PushBack (Event q)]"

text \<open>The time of the next round: it waits after a failure.\<close>

definition pause_ms :: "round_outcome \<Rightarrow> int" where
  "pause_ms oc = (case oc of Failed q \<Rightarrow> min (backoff_ms (qe_attempts q)) 1000 | _ \<Rightarrow> 0)"

text \<open>The rounds left for an entry, at most.\<close>

definition rounds_left :: "audit_entry \<Rightarrow> nat" where
  "rounds_left i = (case i of Junk t \<Rightarrow> 1 | Event q \<Rightarrow> 1 + (11 - qe_attempts q))"

lemma failed_fewer_rounds:
  "judge now later sent err i = Failed q \<Longrightarrow> rounds_left (Event q) < rounds_left i"
  by (auto simp: judge_def rounds_left_def MAX_AUDIT_RETRY_ATTEMPTS_def Let_def
      split: audit_entry.splits if_splits)

lemma sum_list_butlast:
  "xs \<noteq> [] \<Longrightarrow> sum_list (map f (butlast xs)) + (f (last xs) :: nat) = sum_list (map f xs)"
  by (induction xs) auto

text \<open>
  The loop of a drain, with nobody else at the queue and redis answering: \<open>post now e\<close> says whether
  the audit service takes the event, and \<open>late\<close> how long the post and the commands before the next
  look at the clock take.
\<close>

function drainAuditRetryQueue ::
  "(int \<Rightarrow> jsv \<Rightarrow> bool) \<Rightarrow> string \<Rightarrow> (int \<Rightarrow> int) \<Rightarrow> int \<Rightarrow> audit_store \<Rightarrow> int \<times> audit_store"
where
  "drainAuditRetryQueue post err late now s =
     (case answer_of MoveLast s of
        None \<Rightarrow> (now, s)
      | Some i \<Rightarrow>
          (let later = now + late now;
               oc = judge now later (case i of Event q \<Rightarrow> post now (qe_event q) | Junk t \<Rightarrow> False) err i;
               s' = fold execute (settling i oc) (execute MoveLast s)
           in if oc = NotDue then (now, s')
              else drainAuditRetryQueue post err late (later + pause_ms oc + late later) s'))"
  by pat_completeness auto
termination
proof (relation "measure (\<lambda>(_, _, _, _, s). sum_list (map rounds_left (aq_queue s)))")
  fix post err late now s i and later :: int and oc s'
  assume a: "answer_of MoveLast s = Some i"
    "oc = judge now later (case i of Event q \<Rightarrow> post now (qe_event q) | Junk t \<Rightarrow> False) err i"
    "s' = fold execute (settling i oc) (execute MoveLast s)" "oc \<noteq> NotDue"
  then have q: "aq_queue s \<noteq> []" "i = last (aq_queue s)" by (auto split: if_splits)
  have pos: "0 < rounds_left i" by (simp add: rounds_left_def split: audit_entry.split)
  have fewer: "rounds_left (Event f) < rounds_left (last (aq_queue s))" if "oc = Failed f" for f
    using failed_fewer_rounds that a(2) q(2) by metis
  have "sum_list (map rounds_left (aq_queue s')) < sum_list (map rounds_left (aq_queue s))"
    using a(3,4) pos sum_list_butlast [OF q(1), of rounds_left] q(1)
    by (cases oc) (auto dest!: fewer simp: q(2))
  then show "((post, err, late, later + pause_ms oc + late later, s'), (post, err, late, now, s)) \<in>
      measure (\<lambda>(_, _, _, _, s). sum_list (map rounds_left (aq_queue s)))"
    by simp
qed simp

declare drainAuditRetryQueue.simps [simp del]

text \<open>What the timer does: one drain at a time, and none while redis is closed.\<close>

definition drain_tick ::
  "bool \<Rightarrow> (int \<Rightarrow> jsv \<Rightarrow> bool) \<Rightarrow> string \<Rightarrow> (int \<Rightarrow> int) \<Rightarrow> int \<Rightarrow> audit_store \<Rightarrow> int \<times> audit_store"
where
  "drain_tick isDrainingAuditQueue post err late now s =
     (if isDrainingAuditQueue \<or> \<not> aq_open s then (now, s) else drainAuditRetryQueue post err late now s)"

subsection \<open>One round\<close>

lemma round_not_due:
  assumes "aq_queue s = rest @ [Event q]" and "qe_next q \<noteq> 0" and "now < qe_next q"
  shows "drainAuditRetryQueue post err late now s = (now, s)"
  by (subst drainAuditRetryQueue.simps) (simp add: judge_def assms Let_def)

lemma round_sent:
  assumes "aq_queue s = rest @ [Event q]" and "qe_next q = 0 \<or> qe_next q \<le> now" and "qe_attempts q \<le> 9"
    and "post now (qe_event q)"
  shows "drainAuditRetryQueue post err late now s =
    drainAuditRetryQueue post err late (now + late now + late (now + late now)) (s\<lparr>aq_queue := rest\<rparr>)"
proof -
  have "judge now t (post now (qe_event q)) err (Event q) = Confirmed" for t
    using assms(2-4) by (auto simp: judge_def MAX_AUDIT_RETRY_ATTEMPTS_def Let_def)
  then show ?thesis
    by (subst drainAuditRetryQueue.simps) (simp add: assms(1) pause_ms_def Let_def)
qed

lemma round_failed:
  assumes "aq_queue s = rest @ [Event q]" and "qe_next q = 0 \<or> qe_next q \<le> now" and "qe_attempts q \<le> 9"
    and "\<not> post now (qe_event q)" and "t = now + late now"
  shows "drainAuditRetryQueue post err late now s =
    drainAuditRetryQueue post err late (t + min (backoff_ms (qe_attempts q + 1)) 1000 + late t)
      (s\<lparr>aq_queue := rest @ [Event (failed_again t err q)]\<rparr>)"
proof -
  have "judge now t (post now (qe_event q)) err (Event q) = Failed (failed_again t err q)" for t
    using assms(2-4) by (auto simp: judge_def MAX_AUDIT_RETRY_ATTEMPTS_def Let_def)
  then show ?thesis
    by (subst drainAuditRetryQueue.simps) (simp add: assms(1,5) pause_ms_def Let_def)
qed

lemma round_discarded:
  assumes "aq_queue s = rest @ [Event q]" and "qe_next q = 0 \<or> qe_next q \<le> now" and "10 \<le> qe_attempts q"
  shows "drainAuditRetryQueue post err late now s =
    drainAuditRetryQueue post err late (now + late now + late (now + late now))
      (s\<lparr>aq_queue := rest, aq_dead := aq_dead s @ [q\<lparr>qe_attempts := qe_attempts q + 1\<rparr>]\<rparr>)"
proof -
  have "judge now t sent err (Event q) = Discarded (q\<lparr>qe_attempts := qe_attempts q + 1\<rparr>)" for t sent
    using assms(2,3) by (auto simp: judge_def MAX_AUDIT_RETRY_ATTEMPTS_def Let_def)
  then show ?thesis
    by (subst drainAuditRetryQueue.simps) (simp add: assms(1) pause_ms_def Let_def)
qed

subsection \<open>A drain that empties the queue\<close>

definition due :: "int \<Rightarrow> audit_entry \<Rightarrow> bool" where
  "due now i = (case i of Event q \<Rightarrow> (qe_next q = 0 \<or> qe_next q \<le> now) \<and> qe_attempts q \<le> 9 | Junk t \<Rightarrow> False)"

lemma due_later: "due now i \<Longrightarrow> now \<le> t \<Longrightarrow> due t i"
  by (auto simp: due_def split: audit_entry.splits)

lemma drain_empties:
  assumes "list_all (due now) (aq_queue s)" and "\<And>t e. post t e" and "\<And>t. 0 \<le> late t"
  shows "snd (drainAuditRetryQueue post err late now s) = s\<lparr>aq_queue := []\<rparr>"
proof -
  have "\<forall>now (s :: audit_store). aq_queue s = xs \<and> list_all (due now) xs \<longrightarrow>
      snd (drainAuditRetryQueue post err late now s) = s\<lparr>aq_queue := []\<rparr>" for xs
  proof (induction xs rule: rev_induct)
    case Nil
    have "drainAuditRetryQueue post err late now s = (now, s)" if "aq_queue s = []" for now and s :: audit_store
      using that by (subst drainAuditRetryQueue.simps) simp
    then show ?case by simp
  next
    case (snoc i xs)
    show ?case
    proof (intro allI impI)
      fix now and s :: audit_store
      assume a: "aq_queue s = xs @ [i] \<and> list_all (due now) (xs @ [i])"
      then obtain q where i: "i = Event q" "qe_next q = 0 \<or> qe_next q \<le> now" "qe_attempts q \<le> 9"
        by (auto simp: due_def split: audit_entry.splits)
      let ?t = "now + late now + late (now + late now)"
      have "now \<le> ?t" using assms(3) [of now] assms(3) [of "now + late now"] by linarith
      then have "list_all (due ?t) xs" using a due_later by (fastforce simp: list_all_iff)
      with snoc.IH [rule_format, of "s\<lparr>aq_queue := xs\<rparr>" ?t] a
      show "snd (drainAuditRetryQueue post err late now s) = s\<lparr>aq_queue := []\<rparr>"
        using round_sent [of s xs q now post err late] i assms(2) by simp
    qed
  qed
  then show ?thesis using assms(1) by blast
qed

subsection \<open>The newest event stands in the way\<close>

lemma backoff_values: "backoff_ms 1 = 1000" "1 \<le> a \<Longrightarrow> 2000 \<le> backoff_ms (a + 1)"
proof -
  show "backoff_ms 1 = 1000" by (simp add: backoff_ms_def)
  assume "1 \<le> a"
  then have "(2::int) ^ 1 \<le> 2 ^ a" by (intro power_increasing) auto
  then show "2000 \<le> backoff_ms (a + 1)" by (simp add: backoff_ms_def)
qed

text \<open>An event that has failed before gets at most one attempt in a drain.\<close>

lemma drain_stuck:
  assumes "aq_queue s = rest @ [Event q]" and "1 \<le> qe_attempts q" and "qe_attempts q \<le> 9"
    and "\<And>t e. \<not> post t e" and "\<And>t. 0 \<le> late t \<and> late t < 1000" and "0 < now"
  shows "\<exists>q'. snd (drainAuditRetryQueue post err late now s) = s\<lparr>aq_queue := rest @ [Event q']\<rparr>"
proof (cases "qe_next q \<noteq> 0 \<and> now < qe_next q")
  case True
  then have "snd (drainAuditRetryQueue post err late now s) = s"
    using round_not_due [OF assms(1)] by simp
  also have "s = s\<lparr>aq_queue := rest @ [Event q]\<rparr>" using assms(1) by simp
  finally show ?thesis by (rule exI)
next
  case False
  let ?t = "now + late now" and ?b = "backoff_ms (qe_attempts q + 1)"
  let ?q = "failed_again ?t err q" and ?n = "?t + min ?b 1000 + late ?t"
  have "2000 \<le> ?b" using assms(2) by (rule backoff_values(2))
  then have "?n < qe_next ?q" "qe_next ?q \<noteq> 0"
    using assms(5) [of now] assms(5) [of ?t] assms(6) by simp_all
  then have "drainAuditRetryQueue post err late ?n (s\<lparr>aq_queue := rest @ [Event ?q]\<rparr>) =
      (?n, s\<lparr>aq_queue := rest @ [Event ?q]\<rparr>)"
    by (intro round_not_due [of _ rest ?q]) simp_all
  moreover have "qe_next q = 0 \<or> qe_next q \<le> now" using False by linarith
  ultimately have "snd (drainAuditRetryQueue post err late now s) = s\<lparr>aq_queue := rest @ [Event ?q]\<rparr>"
    using round_failed [OF assms(1) _ assms(3), where now = now and post = post and late = late and err = err and t = ?t] assms(4) by simp
  then show ?thesis by (rule exI)
qed

text \<open>One that has not failed yet gets at most two.\<close>

lemma drain_stuck_fresh:
  assumes "aq_queue s = rest @ [Event q]" and "qe_attempts q = 0"
    and "\<And>t e. \<not> post t e" and "\<And>t. 0 \<le> late t \<and> late t < 1000" and "0 < now"
  shows "\<exists>q'. snd (drainAuditRetryQueue post err late now s) = s\<lparr>aq_queue := rest @ [Event q']\<rparr>"
proof (cases "qe_next q \<noteq> 0 \<and> now < qe_next q")
  case True
  then have "snd (drainAuditRetryQueue post err late now s) = s"
    using round_not_due [OF assms(1)] by simp
  also have "s = s\<lparr>aq_queue := rest @ [Event q]\<rparr>" using assms(1) by simp
  finally show ?thesis by (rule exI)
next
  case False
  let ?t = "now + late now" and ?s = "\<lambda>q'. s\<lparr>aq_queue := rest @ [Event q']\<rparr>"
  let ?q = "failed_again ?t err q" and ?n = "?t + min (backoff_ms (qe_attempts q + 1)) 1000 + late ?t"
  have n: "0 < ?n" using assms(4) [of now] assms(4) [of ?t] assms(2,5) by (simp add: backoff_values(1) [simplified])
  have "drainAuditRetryQueue post err late now s = drainAuditRetryQueue post err late ?n (?s ?q)"
    using round_failed [OF assms(1), where now = now and post = post and late = late and err = err and t = ?t] False assms(2,3) by force
  moreover have "\<exists>q'. snd (drainAuditRetryQueue post err late ?n (?s ?q)) = (?s ?q)\<lparr>aq_queue := rest @ [Event q']\<rparr>"
    by (rule drain_stuck [of _ rest ?q]) (use assms n in simp_all)
  ultimately show ?thesis by simp
qed

subsection \<open>The queue between processes\<close>

text \<open>
  Where the drain of a process stands: it waits for its timer, is at the top of the loop, has had
  \<open>lMove\<close> throw, has taken an entry off the queue by \<open>lPop\<close> and not yet put it with those in
  processing, is about to judge the entry it has taken, or settles it and has these commands left.
\<close>

datatype worker =
    Asleep | Looping | Falling
  | Popped audit_entry | Judging audit_entry
  | Settling audit_entry round_outcome "redis_command list"

text \<open>Where a drain goes on when a command of the last stage throws.\<close>

fun after_throw :: "int \<Rightarrow> string \<Rightarrow> audit_entry \<Rightarrow> round_outcome \<Rightarrow> redis_command \<Rightarrow> worker" where
  "after_throw later err (Event q) Confirmed c =
     (let oc = Failed (failed_again later err q) in Settling (Event q) oc (settling (Event q) oc))"
| "after_throw later err i oc (Bury q) = Looping"
| "after_throw later err i oc c = Asleep"

definition perhaps :: "bool \<Rightarrow> redis_command \<Rightarrow> audit_store \<Rightarrow> audit_store" where
  "perhaps executed c s = (if executed then execute c s else s)"

definition event_of :: "audit_entry \<Rightarrow> jsv" where
  "event_of i = (case i of Event q \<Rightarrow> qe_event q | Junk t \<Rightarrow> JStr t)"

text \<open>
  One step of a drain: how many failures it is (a command that throws, whether redis executed it or
  not, or the death of the process), and what the audit service confirmed in it.
\<close>

inductive worker_step :: "nat \<Rightarrow> jsv multiset \<Rightarrow> audit_store \<times> worker \<Rightarrow> audit_store \<times> worker \<Rightarrow> bool" where
  ticked: "aq_open s \<Longrightarrow> worker_step 0 {#} (s, Asleep) (s, Looping)"
| moved: "answer_of MoveLast s = Some i \<Longrightarrow> worker_step 0 {#} (s, Looping) (execute MoveLast s, Judging i)"
| emptied: "answer_of MoveLast s = None \<Longrightarrow> worker_step 0 {#} (s, Looping) (s, Asleep)"
| move_throws: "worker_step 1 {#} (s, Looping) (perhaps b MoveLast s, Falling)"
| popped: "answer_of PopFirst s = Some i \<Longrightarrow> worker_step 0 {#} (s, Falling) (execute PopFirst s, Popped i)"
| none_popped: "answer_of PopFirst s = None \<Longrightarrow> worker_step 0 {#} (s, Falling) (s, Asleep)"
| pop_throws: "worker_step 1 {#} (s, Falling) (perhaps b PopFirst s, Asleep)"
| kept: "worker_step 0 {#} (s, Popped i) (execute (Keep i) s, Judging i)"
| keep_throws: "worker_step 1 {#} (s, Popped i) (perhaps b (Keep i) s, Asleep)"
| judged: "judge now later ok err i = oc \<Longrightarrow>
    worker_step 0 (if oc = Confirmed then {#event_of i#} else {#}) (s, Judging i) (s, Settling i oc (settling i oc))"
| settles: "worker_step 0 {#} (s, Settling i oc (c # cs)) (execute c s, Settling i oc cs)"
| settled: "worker_step 0 {#} (s, Settling i oc []) (s, if oc = NotDue then Asleep else Looping)"
| settle_throws: "worker_step 1 {#} (s, Settling i oc (c # cs)) (perhaps b c s, after_throw later err i oc c)"
| dies: "worker_step 1 {#} (s, w) (s, Asleep)"

text \<open>
  Any number of drains over one queue, and the requests that hand in events: the entries on offer
  are those whose check of the length has passed. \<open>given\<close> are the events the queue accepted, \<open>sent\<close>
  those the audit service confirmed.
\<close>

inductive audit_run ::
  "nat \<Rightarrow> jsv multiset \<Rightarrow> jsv multiset \<Rightarrow> audit_store \<times> queued multiset \<times> worker list \<Rightarrow> bool"
where
  run_start: "audit_run 0 {#} {#}
    (\<lparr>aq_open = True, aq_queue = [], aq_processing = [], aq_dead = []\<rparr>, {#}, replicate n Asleep)"
| run_offered: "audit_run failures given sent (s, offers, ws) \<Longrightarrow> queue_has_room s \<Longrightarrow>
    audit_run failures given sent (s, add_mset (fresh_entry now drawn e) offers, ws)"
| run_accepted: "audit_run failures given sent (s, add_mset q offers, ws) \<Longrightarrow>
    audit_run failures (add_mset (qe_event q) given) sent (execute (PushBack (Event q)) s, offers, ws)"
| run_refused: "audit_run failures given sent (s, add_mset q offers, ws) \<Longrightarrow>
    audit_run failures given sent (s, offers, ws)"
| run_drain: "audit_run failures given sent (s, offers, ws) \<Longrightarrow> p < length ws \<Longrightarrow>
    worker_step n confirmed (s, ws ! p) (s', w) \<Longrightarrow>
    audit_run (failures + n) given (sent + confirmed) (s', offers, ws[p := w])"
| run_connection: "audit_run failures given sent (s, offers, ws) \<Longrightarrow>
    audit_run failures given sent (s\<lparr>aq_open := b\<rparr>, offers, ws)"

subsection \<open>Where the events are\<close>

definition held :: "audit_store \<Rightarrow> jsv multiset" where
  "held s = mset (map event_of (aq_queue s)) + mset (map event_of (aq_processing s)) +
     mset (map qe_event (aq_dead s))"

text \<open>What only the memory of a process has.\<close>

fun in_memory :: "worker \<Rightarrow> jsv multiset" where
  "in_memory (Popped i) = {#event_of i#}"
| "in_memory (Settling i oc (PushBack j # cs)) = {#event_of j#}"
| "in_memory (Settling i oc (Bury q # cs)) = {#qe_event q#}"
| "in_memory w = {#}"

text \<open>What is confirmed and still in processing.\<close>

fun to_remove :: "worker \<Rightarrow> jsv multiset" where
  "to_remove (Settling i Confirmed (c # cs)) = {#event_of i#}"
| "to_remove w = {#}"

text \<open>The entry of a process in processing, while redis has answered every command.\<close>

fun being_processed :: "worker \<Rightarrow> audit_entry multiset" where
  "being_processed (Judging i) = {#i#}"
| "being_processed (Settling i oc (Remove j # cs)) = {#j#}"
| "being_processed w = {#}"

fun retried_enough :: "audit_entry \<Rightarrow> bool" where
  "retried_enough (Event q) = (qe_attempts q \<le> 10)"
| "retried_enough (Junk t) = False"

definition attempts_ok :: "audit_store \<Rightarrow> bool" where
  "attempts_ok s \<longleftrightarrow>
     list_all retried_enough (aq_queue s) \<and> list_all retried_enough (aq_processing s) \<and>
     list_all (\<lambda>q. qe_attempts q = 11) (aq_dead s)"

definition fits :: "audit_entry \<Rightarrow> round_outcome \<Rightarrow> bool" where
  "fits i oc \<longleftrightarrow> retried_enough i \<and>
     (case oc of
        Dropped \<Rightarrow> False
      | Discarded d \<Rightarrow> qe_event d = event_of i \<and> qe_attempts d = 11
      | Failed d \<Rightarrow> qe_event d = event_of i \<and> qe_attempts d \<le> 10
      | Confirmed \<Rightarrow> (\<exists>q. i = Event q \<and> qe_attempts q \<le> 9)
      | NotDue \<Rightarrow> True)"

fun worker_ok :: "worker \<Rightarrow> bool" where
  "worker_ok (Popped i) = retried_enough i"
| "worker_ok (Judging i) = retried_enough i"
| "worker_ok (Settling i oc cs) = (fits i oc \<and> cs \<in> {settling i oc, tl (settling i oc), []})"
| "worker_ok w = True"

lemma event_of_Event [simp]: "event_of (Event q) = qe_event q"
  by (simp add: event_of_def)

lemma judge_fits: "retried_enough i \<Longrightarrow> fits i (judge now later ok err i)"
  by (cases i) (auto simp: fits_def judge_def Let_def MAX_AUDIT_RETRY_ATTEMPTS_def)

lemma after_throw_leaves: "oc \<noteq> Confirmed \<Longrightarrow> after_throw later err i oc c \<in> {Looping, Asleep}"
  by (cases "(later, err, i, oc, c)" rule: after_throw.cases) auto

lemma after_throw_ok: "worker_ok (Settling i oc cs) \<Longrightarrow> worker_ok (after_throw later err i oc c)"
proof -
  assume ok: "worker_ok (Settling i oc cs)"
  show ?thesis
  proof (cases "oc = Confirmed")
    case True
    then show ?thesis using ok by (cases i) (auto simp: fits_def)
  qed (cases "(later, err, i, oc, c)" rule: after_throw.cases, auto)
qed

lemma held_commands:
  "aq_queue s \<noteq> [] \<Longrightarrow> held (execute MoveLast s) = held s"
  "held (execute (Keep i) s) = held s + {#event_of i#}"
  "held (execute (PushBack i) s) = held s + {#event_of i#}"
  "held (execute (Bury q) s) = held s + {#qe_event q#}"
  "aq_queue s \<noteq> [] \<Longrightarrow> held s = held (execute PopFirst s) + {#event_of (hd (aq_queue s))#}"
  "i \<in> set (aq_processing s) \<Longrightarrow> held s = held (execute (Remove i) s) + {#event_of i#}"
  "i \<notin> set (aq_processing s) \<Longrightarrow> held (execute (Remove i) s) = held s"
proof -
  show "aq_queue s \<noteq> [] \<Longrightarrow> held (execute MoveLast s) = held s"
    by (cases "aq_queue s" rule: rev_cases) (simp_all add: held_def)
  show "aq_queue s \<noteq> [] \<Longrightarrow> held s = held (execute PopFirst s) + {#event_of (hd (aq_queue s))#}"
    by (cases "aq_queue s") (simp_all add: held_def)
  assume "i \<in> set (aq_processing s)"
  then have "mset (aq_processing s) = add_mset i (mset (remove1 i (aq_processing s)))" by simp
  then show "held s = held (execute (Remove i) s) + {#event_of i#}"
    by (simp add: held_def del: mset_remove1)
qed (simp_all add: held_def remove1_idem)

lemma attempts_commands:
  "attempts_ok s \<Longrightarrow> attempts_ok (execute MoveLast s)"
  "attempts_ok s \<Longrightarrow> attempts_ok (execute PopFirst s)"
  "attempts_ok s \<Longrightarrow> attempts_ok (execute (Remove i) s)"
  "attempts_ok s \<Longrightarrow> retried_enough i \<Longrightarrow> attempts_ok (execute (Keep i) s)"
  "attempts_ok s \<Longrightarrow> retried_enough i \<Longrightarrow> attempts_ok (execute (PushBack i) s)"
  "attempts_ok s \<Longrightarrow> qe_attempts q = 11 \<Longrightarrow> attempts_ok (execute (Bury q) s)"
proof -
  assume "attempts_ok s"
  then show "attempts_ok (execute PopFirst s)" by (cases "aq_queue s") (auto simp: attempts_ok_def)
qed (auto simp: attempts_ok_def list_all_iff dest: in_set_butlastD last_in_set notin_set_remove1)

lemma attempts_taken:
  "attempts_ok s \<Longrightarrow> answer_of MoveLast s = Some i \<Longrightarrow> retried_enough i"
  "attempts_ok s \<Longrightarrow> answer_of PopFirst s = Some i \<Longrightarrow> retried_enough i"
  by (auto simp: attempts_ok_def list_all_iff split: if_splits)

lemma worker_keeps:
  assumes "worker_step n confirmed (s, w) (s', w')" and "worker_ok w" and "attempts_ok s"
  shows "worker_ok w' \<and> attempts_ok s'"
  using assms
proof (cases rule: worker_step.cases)
  case (moved i)
  then show ?thesis using assms(3) attempts_taken(1) attempts_commands(1) by simp
next
  case (move_throws b)
  then show ?thesis using assms(3) attempts_commands(1) by (simp add: perhaps_def)
next
  case (popped i)
  then show ?thesis using assms(3) attempts_taken(2) attempts_commands(2) by simp
next
  case (pop_throws b)
  then show ?thesis using assms(3) attempts_commands(2) by (simp add: perhaps_def)
next
  case (kept i)
  then show ?thesis using assms(2,3) attempts_commands(4) by simp
next
  case (keep_throws i b)
  then show ?thesis using assms(2,3) attempts_commands(4) by (simp add: perhaps_def)
next
  case (judged now later ok err i oc)
  then show ?thesis using assms(2,3) judge_fits [of i now later ok err] by simp
next
  case (settles i oc c cs)
  then have "attempts_ok (execute c s)"
    using assms(2,3) attempts_commands by (cases oc) (auto simp: fits_def)
  then show ?thesis using settles assms(2) by (cases oc) auto
next
  case (settle_throws i oc c cs b later err)
  then have "attempts_ok (execute c s)"
    using assms(2,3) attempts_commands by (cases oc) (auto simp: fits_def)
  moreover have "worker_ok w'" using settle_throws(3,5) assms(2) after_throw_ok [of i oc "c # cs" later err c] by simp
  ultimately show ?thesis using settle_throws assms(3) by (simp add: perhaps_def)
qed simp_all

text \<open>A step loses at most one event, and none when it is no failure.\<close>

lemma remove_loses: "held s \<subseteq># held (execute (Remove i) s) + {#event_of i#}"
  using held_commands(6) [of i s] held_commands(7) [of i s] by (cases "i \<in> set (aq_processing s)") auto

lemma settling_stages:
  assumes "worker_ok (Settling i oc (c # cs))"
  obtains (remove) "c = Remove i" "cs = tl (settling i oc)"
  | (pushed) "oc = NotDue" "c = PushBack i" "cs = []"
  | (bury) d where "oc = Discarded d" "c = Bury d" "cs = []" "qe_event d = event_of i"
  | (again) d where "oc = Failed d" "c = PushBack (Event d)" "cs = []" "qe_event d = event_of i"
  using assms by (cases oc) (auto simp: fits_def)

lemma memory_next:
  assumes "worker_ok (Settling i oc (c # cs))" and "cs = tl (settling i oc)"
  shows "in_memory (Settling i oc cs) = (if oc = Confirmed then {#} else {#event_of i#})"
    and "to_remove (Settling i oc cs) = {#}" and "being_processed (Settling i oc cs) = {#}"
  using assms by (cases oc; auto simp: fits_def)+

lemma worker_loses:
  assumes "worker_step n confirmed (s, w) (s', w')" and "worker_ok w"
  shows "\<exists>lost. size lost \<le> n \<and>
    held s + in_memory w + to_remove w' \<subseteq># held s' + in_memory w' + confirmed + to_remove w + lost"
  using assms(1)
proof (cases rule: worker_step.cases)
  case (moved i)
  then show ?thesis using held_commands(1) [of s] by (auto split: if_splits)
next
  case (move_throws b)
  have "held (execute MoveLast s) = held s" using held_commands(1) by (cases "aq_queue s = []") auto
  then have "held s = held s'" using move_throws by (simp add: perhaps_def)
  then show ?thesis using move_throws by (intro exI [of _ "{#}"]) simp
next
  case (popped i)
  then show ?thesis using held_commands(5) [of s] by (auto split: if_splits)
next
  case (pop_throws b)
  have "held s \<subseteq># held (perhaps b PopFirst s) + (if aq_queue s = [] then {#} else {#event_of (hd (aq_queue s))#})"
    using held_commands(5) [of s] by (auto simp: perhaps_def held_def)
  moreover have "size (if aq_queue s = [] then {#} else {#event_of (hd (aq_queue s))#}) \<le> 1" by simp
  ultimately show ?thesis using pop_throws by fastforce
next
  case (kept i)
  then show ?thesis using held_commands(2) by auto
next
  case (keep_throws i b)
  have "held s + {#event_of i#} \<subseteq># held (perhaps b (Keep i) s) + {#event_of i#}"
    using held_commands(2) [of i s] by (auto simp: perhaps_def)
  then show ?thesis using keep_throws by (intro exI [of _ "{#event_of i#}"]) simp
next
  case (judged now later ok err i oc)
  have "in_memory (Settling i oc (settling i oc)) = {#}" by (cases oc) auto
  moreover have "to_remove (Settling i oc (settling i oc)) = confirmed" using judged(2) by (cases oc) auto
  ultimately show ?thesis using judged by auto
next
  case (settles i oc c cs)
  from assms(2) [unfolded settles(3)] show ?thesis
  proof (cases rule: settling_stages)
    case remove
    note m = memory_next [OF assms(2) [unfolded settles(3)] remove(2)]
    have "to_remove w = (if oc = Confirmed then {#event_of i#} else {#})" using settles(3) by (cases oc) auto
    then show ?thesis using settles remove(1) m remove_loses [of s i] by auto
  qed (use settles held_commands(3,4) in auto)
next
  case (settle_throws i oc c cs b later err)
  from assms(2) [unfolded settle_throws(3)] show ?thesis
  proof (cases rule: settling_stages)
    case remove
    have l: "held s \<subseteq># held s' + {#event_of i#}"
      using settle_throws(4) remove(1) remove_loses [of s i] by (auto simp: perhaps_def)
    have w: "in_memory w = {#}" using settle_throws(3) remove(1) by simp
    show ?thesis
    proof (cases "oc = Confirmed")
      case True
      then obtain q where i: "i = Event q" using assms(2) settle_throws(3) by (auto simp: fits_def)
      then show ?thesis using True settle_throws l w by (intro exI [of _ "{#}"]) (simp add: Let_def)
    next
      case False
      then have "to_remove w = {#}" using settle_throws(3) by (cases oc) simp_all
      moreover have "to_remove w' = {#}" "in_memory w' = {#}"
        using after_throw_leaves [OF False, of later err i c] settle_throws(5) by auto
      ultimately show ?thesis using l w settle_throws(1,2) by (intro exI [of _ "{#event_of i#}"]) simp
    qed
  next
    case pushed
    have "held s \<subseteq># held s'" using settle_throws(4) pushed held_commands(3) by (simp add: perhaps_def)
    then show ?thesis using settle_throws pushed by (intro exI [of _ "{#event_of i#}"]) simp
  next
    case (bury d)
    have "held s \<subseteq># held s'" using settle_throws(4) bury held_commands(4) by (simp add: perhaps_def)
    then show ?thesis using settle_throws bury by (intro exI [of _ "{#event_of i#}"]) simp
  next
    case (again d)
    have "held s \<subseteq># held s'" using settle_throws(4) again held_commands(3) by (simp add: perhaps_def)
    then show ?thesis using settle_throws again by (intro exI [of _ "{#event_of i#}"]) simp
  qed
next
  case (dies)
  have "size (in_memory w) \<le> 1" by (cases w rule: in_memory.cases) auto
  then show ?thesis using dies by (intro exI [of _ "in_memory w"]) simp
qed auto

lemma worker_conserves:
  assumes "worker_step 0 confirmed (s, w) (s', w')" and "worker_ok w"
    and "being_processed w \<subseteq># mset (aq_processing s)"
  shows "held s + in_memory w + to_remove w' = held s' + in_memory w' + confirmed + to_remove w \<and>
    mset (aq_processing s') + being_processed w = mset (aq_processing s) + being_processed w'"
  using assms(1)
proof (cases rule: worker_step.cases)
  case (moved i)
  then show ?thesis using held_commands(1) [of s] by (auto split: if_splits)
next
  case (popped i)
  then show ?thesis using held_commands(5) [of s] by (auto split: if_splits)
next
  case (kept i)
  then show ?thesis using held_commands(2) by auto
next
  case (judged now later ok err i oc)
  have "in_memory (Settling i oc (settling i oc)) = {#}" by (cases oc) auto
  moreover have "to_remove (Settling i oc (settling i oc)) = confirmed" using judged(1) by (cases oc) auto
  moreover have "being_processed (Settling i oc (settling i oc)) = {#i#}" by (cases oc) auto
  ultimately show ?thesis using judged by auto
next
  case (settles i oc c cs)
  from assms(2) [unfolded settles(2)] show ?thesis
  proof (cases rule: settling_stages)
    case remove
    note m = memory_next [OF assms(2) [unfolded settles(2)] remove(2)]
    have i: "i \<in> set (aq_processing s)" using assms(3) settles(2) remove(1) by simp
    then have "add_mset i (mset (remove1 i (aq_processing s))) = mset (aq_processing s)" by simp
    moreover have "to_remove w = (if oc = Confirmed then {#event_of i#} else {#})" using settles(2) by (cases oc) auto
    ultimately show ?thesis using settles remove(1) m held_commands(6) [OF i] by auto
  qed (use settles held_commands(3,4) in auto)
qed auto

subsection \<open>Runs of all the drains\<close>

definition sum_over :: "('a \<Rightarrow> 'b :: comm_monoid_add) \<Rightarrow> 'a list \<Rightarrow> 'b" where
  "sum_over f xs = sum_list (map f xs)"

lemma sum_over_update:
  "p < length xs \<Longrightarrow> sum_over f (xs[p := x]) + f (xs ! p) = sum_over f xs + f x"
proof (induction xs arbitrary: p)
  case (Cons y xs)
  then show ?case by (cases p) (auto simp: sum_over_def ac_simps)
qed simp

lemma sum_over_member: "p < length xs \<Longrightarrow> (f (xs ! p) :: 'b multiset) \<subseteq># sum_over f xs"
proof (induction xs arbitrary: p)
  case (Cons y xs)
  then show ?case by (cases p) (auto simp: sum_over_def intro: subset_mset.add_increasing)
qed simp

lemma sum_over_start: "f x = 0 \<Longrightarrow> sum_over f (replicate n x) = 0"
  by (induction n) (simp_all add: sum_over_def)

text \<open>With \<open>f\<close> failures, at most \<open>f\<close> events are neither held nor confirmed.\<close>

definition accounted ::
  "nat \<Rightarrow> jsv multiset \<Rightarrow> jsv multiset \<Rightarrow> audit_store \<Rightarrow> worker list \<Rightarrow> bool"
where
  "accounted failures given sent s ws \<longleftrightarrow>
     (\<exists>lost. size lost \<le> failures \<and>
        given + sum_over to_remove ws \<subseteq># held s + sum_over in_memory ws + sent + lost)"

definition balanced :: "jsv multiset \<Rightarrow> jsv multiset \<Rightarrow> audit_store \<Rightarrow> worker list \<Rightarrow> bool" where
  "balanced given sent s ws \<longleftrightarrow>
     given + sum_over to_remove ws = held s + sum_over in_memory ws + sent \<and>
     mset (aq_processing s) = sum_over being_processed ws"

lemma accounted_step:
  assumes "accounted failures given sent s ws" and "p < length ws" and "worker_ok (ws ! p)"
    and "worker_step n confirmed (s, ws ! p) (s', w)"
  shows "accounted (failures + n) given (sent + confirmed) s' (ws[p := w])"
proof -
  obtain l where l: "size l \<le> failures" "given + sum_over to_remove ws \<subseteq># held s + sum_over in_memory ws + sent + l"
    using assms(1) unfolding accounted_def by blast
  obtain m where m: "size m \<le> n"
    "held s + in_memory (ws ! p) + to_remove w \<subseteq># held s' + in_memory w + confirmed + to_remove (ws ! p) + m"
    using worker_loses [OF assms(4,3)] by blast
  note memory = sum_over_update [OF assms(2), of in_memory w] and removal = sum_over_update [OF assms(2), of to_remove w]
  have "given + sum_over to_remove (ws[p := w]) \<subseteq># held s' + sum_over in_memory (ws[p := w]) + (sent + confirmed) + (l + m)"
    unfolding subseteq_mset_def
  proof
    fix e
    have "count (given + sum_over to_remove ws) e \<le> count (held s + sum_over in_memory ws + sent + l) e"
      "count (held s + in_memory (ws ! p) + to_remove w) e \<le>
        count (held s' + in_memory w + confirmed + to_remove (ws ! p) + m) e"
      using l(2) m(2) by (simp_all only: subseteq_mset_def)
    then show "count (given + sum_over to_remove (ws[p := w])) e \<le>
        count (held s' + sum_over in_memory (ws[p := w]) + (sent + confirmed) + (l + m)) e"
      using arg_cong [OF memory, of "\<lambda>x. count x e"] arg_cong [OF removal, of "\<lambda>x. count x e"] by simp
  qed
  moreover have "size (l + m) \<le> failures + n" using l(1) m(1) by simp
  ultimately show ?thesis unfolding accounted_def by blast
qed

lemma balanced_step:
  assumes "balanced given sent s ws" and "p < length ws" and "worker_ok (ws ! p)"
    and "worker_step 0 confirmed (s, ws ! p) (s', w)"
  shows "balanced given (sent + confirmed) s' (ws[p := w])"
proof -
  note b = assms(1) [unfolded balanced_def]
  have "being_processed (ws ! p) \<subseteq># mset (aq_processing s)"
    using b sum_over_member [OF assms(2), of being_processed] by simp
  note c = worker_conserves [OF assms(4,3) this]
  note memory = sum_over_update [OF assms(2), of in_memory w] and removal = sum_over_update [OF assms(2), of to_remove w]
    and processing = sum_over_update [OF assms(2), of being_processed w]
  have "given + sum_over to_remove (ws[p := w]) = held s' + sum_over in_memory (ws[p := w]) + (sent + confirmed)"
  proof (rule multiset_eqI)
    fix e
    show "count (given + sum_over to_remove (ws[p := w])) e =
        count (held s' + sum_over in_memory (ws[p := w]) + (sent + confirmed)) e"
      using arg_cong [OF conjunct1 [OF b], of "\<lambda>x. count x e"] arg_cong [OF conjunct1 [OF c], of "\<lambda>x. count x e"]
        arg_cong [OF memory, of "\<lambda>x. count x e"] arg_cong [OF removal, of "\<lambda>x. count x e"] by simp
  qed
  moreover have "mset (aq_processing s') = sum_over being_processed (ws[p := w])"
    using b c processing by (metis add_right_cancel)
  ultimately show ?thesis by (simp add: balanced_def)
qed

definition workers_ok :: "worker list \<Rightarrow> bool" where
  "workers_ok ws \<longleftrightarrow> list_all worker_ok ws"

lemma workers_update:
  "workers_ok ws \<Longrightarrow> worker_ok w \<Longrightarrow> workers_ok (ws[p := w])"
  "workers_ok ws \<Longrightarrow> p < length ws \<Longrightarrow> worker_ok (ws ! p)"
  by (auto simp: workers_ok_def list_all_iff dest: set_update_subset_insert [THEN subsetD])

lemma pushed_event:
  "accounted f g t s ws \<Longrightarrow> accounted f (add_mset (qe_event q) g) t (execute (PushBack (Event q)) s) ws"
  "balanced g t s ws \<Longrightarrow> balanced (add_mset (qe_event q) g) t (execute (PushBack (Event q)) s) ws"
  unfolding accounted_def balanced_def held_commands(3) by (auto simp: add.assoc)

lemma connection_keeps:
  "held (s\<lparr>aq_open := b\<rparr>) = held s" "attempts_ok (s\<lparr>aq_open := b\<rparr>) = attempts_ok s"
  by (simp_all add: held_def attempts_ok_def)

lemma audit_run_keeps:
  assumes "audit_run failures given sent (s, offers, ws)"
  shows "accounted failures given sent s ws \<and> (failures = 0 \<longrightarrow> balanced given sent s ws) \<and>
    attempts_ok s \<and> workers_ok ws \<and> (\<forall>q \<in># offers. qe_attempts q = 0)"
  using assms
proof (induction failures given sent "(s, offers, ws)" arbitrary: s offers ws rule: audit_run.induct)
  case (run_start n)
  then show ?case
    by (auto simp: accounted_def balanced_def held_def attempts_ok_def workers_ok_def sum_over_start list_all_iff)
next
  case (run_offered failures given sent s offers ws now drawn e)
  then show ?case by (simp add: fresh_entry_def)
next
  case (run_accepted failures given sent s q offers ws)
  then have q: "retried_enough (Event q)" by simp
  from run_accepted.hyps(2) have "accounted failures given sent s ws" "failures = 0 \<Longrightarrow> balanced given sent s ws"
    "attempts_ok s" "workers_ok ws" "\<forall>q \<in># offers. qe_attempts q = 0" by simp_all
  then show ?case using pushed_event attempts_commands(5) [OF _ q] by blast
next
  case (run_refused failures given sent s q offers ws)
  then show ?case by simp
next
  case (run_drain failures given sent s offers ws p n confirmed s' w)
  note ih = run_drain.hyps(2) and p = workers_update(2) [OF _ run_drain.hyps(3)]
  have "accounted (failures + n) given (sent + confirmed) s' (ws[p := w])"
    using accounted_step ih run_drain.hyps(3,4) p by blast
  moreover have "balanced given (sent + confirmed) s' (ws[p := w])" if "failures + n = 0"
    using balanced_step ih run_drain.hyps(3,4) p that by fastforce
  moreover have "worker_ok w \<and> attempts_ok s'" using worker_keeps [OF run_drain.hyps(4)] ih p by blast
  ultimately show ?case using ih workers_update(1) by blast
next
  case (run_connection failures given sent s offers ws b)
  then show ?case by (simp add: accounted_def balanced_def connection_keeps)
qed

text \<open>
  Claim C28. What becomes of the audit events the retry queue accepted, however requests and the commands of
  the drains of several processes interleave. As long as no command throws and no process dies,
  each is in exactly one place: it waits in the queue, is in processing, is in the memory of a
  process between two commands, lies on the dead list or was confirmed by the audit service (what
  is confirmed stays in processing until the next command). Every command that throws, executed or
  not, and every death of a process, wherever it strikes, loses at most one event. What waits has
  failed at most ten times, and what is on the dead list exactly ten.
\<close>

theorem audit_events_conserved:
  assumes "audit_run failures given sent (s, offers, ws)"
  shows "(failures = 0 \<longrightarrow> given + sum_over to_remove ws =
      mset (map event_of (aq_queue s)) + mset (map event_of (aq_processing s)) + mset (map qe_event (aq_dead s)) +
      sum_over in_memory ws + sent) \<and>
    (\<exists>lost. size lost \<le> failures \<and> given \<subseteq>#
      mset (map event_of (aq_queue s)) + mset (map event_of (aq_processing s)) + mset (map qe_event (aq_dead s)) +
      sum_over in_memory ws + sent + lost) \<and>
    (\<forall>q. Event q \<in> set (aq_queue s) \<union> set (aq_processing s) \<longrightarrow> qe_attempts q \<le> 10) \<and>
    (\<forall>q \<in> set (aq_dead s). qe_attempts q = 11)"
proof (intro conjI)
  note keeps = audit_run_keeps [OF assms]
  show "failures = 0 \<longrightarrow> given + sum_over to_remove ws =
      mset (map event_of (aq_queue s)) + mset (map event_of (aq_processing s)) + mset (map qe_event (aq_dead s)) +
      sum_over in_memory ws + sent"
    using keeps by (simp add: balanced_def held_def)
  obtain lost where "size lost \<le> failures" "given + sum_over to_remove ws \<subseteq># held s + sum_over in_memory ws + sent + lost"
    using keeps unfolding accounted_def by blast
  then show "\<exists>lost. size lost \<le> failures \<and> given \<subseteq>#
      mset (map event_of (aq_queue s)) + mset (map event_of (aq_processing s)) + mset (map qe_event (aq_dead s)) +
      sum_over in_memory ws + sent + lost"
    unfolding held_def by (intro exI [of _ lost]) (meson mset_subset_eq_add_left subset_mset.order_trans)
  have "attempts_ok s" using keeps by blast
  then show "\<forall>q. Event q \<in> set (aq_queue s) \<union> set (aq_processing s) \<longrightarrow> qe_attempts q \<le> 10"
    "\<forall>q \<in> set (aq_dead s). qe_attempts q = 11"
    by (auto simp: attempts_ok_def list_all_iff)
qed

subsection \<open>An event that fails, and one that is lost\<close>

definition start_store :: audit_store where
  "start_store = \<lparr>aq_open = True, aq_queue = [], aq_processing = [], aq_dead = []\<rparr>"

definition some_event :: jsv where
  "some_event = JObj [(''correlation_id'', JStr ''c'')]"

definition handed_in :: queued where
  "handed_in = \<lparr>qe_event = some_event, qe_attempts = 0, qe_first = 5, qe_next = 5, qe_error = None\<rparr>"

definition failed_entry :: queued where
  "failed_entry = \<lparr>qe_event = some_event, qe_attempts = 1, qe_first = 5, qe_next = 1005, qe_error = Some ''down''\<rparr>"

definition after_failure :: audit_store where
  "after_failure = start_store\<lparr>aq_queue := [Event failed_entry]\<rparr>"

text \<open>The event is handed in and taken, and its post fails; the process has removed it from processing.\<close>

lemma run_to_removal:
  "audit_run 0 {#some_event#} {#}
     (start_store, {#}, [Settling (Event handed_in) (Failed failed_entry) [PushBack (Event failed_entry)]])"
proof -
  let ?i = "Event handed_in" and ?oc = "Failed failed_entry"
  let ?q = "start_store\<lparr>aq_queue := [?i]\<rparr>" and ?p = "start_store\<lparr>aq_processing := [?i]\<rparr>"
  have fresh: "fresh_entry 5 ''x'' some_event = handed_in"
    by (simp add: fresh_entry_def handed_in_def with_correlation_def some_event_def get_field_def)
  have "audit_run 0 {#} {#} (start_store, {#}, [Asleep])" using run_start [of 1] by (simp add: start_store_def)
  from run_offered [OF this, of 5 "''x''" some_event]
  have "audit_run 0 {#} {#} (start_store, {#handed_in#}, [Asleep])"
    by (simp add: queue_has_room_def start_store_def MAX_AUDIT_QUEUE_SIZE_def fresh [unfolded start_store_def])
  from run_accepted [OF this] have "audit_run 0 {#some_event#} {#} (?q, {#}, [Asleep])"
    by (simp add: start_store_def handed_in_def)
  from run_drain [OF this, of 0, simplified, OF ticked] have "audit_run 0 {#some_event#} {#} (?q, {#}, [Looping])"
    by (simp add: start_store_def)
  from run_drain [OF this, of 0, simplified, OF moved [of _ ?i]] have "audit_run 0 {#some_event#} {#} (?p, {#}, [Judging ?i])"
    by (simp add: start_store_def)
  moreover have "judge 5 5 False ''down'' ?i = ?oc"
    by (simp add: judge_def failed_entry_def handed_in_def failed_again_def MAX_AUDIT_RETRY_ATTEMPTS_def backoff_ms_def)
  ultimately have "audit_run 0 {#some_event#} {#} (?p, {#}, [Settling ?i ?oc (settling ?i ?oc)])"
    using run_drain [of 0 _ _ ?p "{#}" "[Judging ?i]" 0, simplified, OF _ judged [of 5 5 False "''down''" ?i ?oc ?p]] by simp
  from run_drain [OF this, of 0, simplified, OF settles] show ?thesis by (simp add: start_store_def)
qed

lemma run_to_failure: "audit_run 0 {#some_event#} {#} (after_failure, {#}, [Settling (Event handed_in) (Failed failed_entry) []])"
  using run_drain [OF run_to_removal, of 0, simplified, OF settles] by (simp add: start_store_def after_failure_def)

theorem audit_events_conserved_witness:
  "audit_run 0 {#some_event#} {#} (after_failure, {#}, [Settling (Event handed_in) (Failed failed_entry) []]) \<and>
   mset (map event_of (aq_queue after_failure)) = {#some_event#}"
  using run_to_failure audit_events_conserved [OF run_to_failure]
  by (simp add: after_failure_def start_store_def sum_over_def)


subsection \<open>What a drain achieves\<close>

text \<open>
  A drain always ends, and when the audit service takes events and every entry is due and has failed
  at most nine times, it delivers all of them: the queue is empty afterwards, and nothing went to the
  dead list or stayed in the hands of the process.
\<close>

lemma audit_drain_delivers:
  assumes "aq_open s" and "list_all (due now) (aq_queue s)"
    and "\<And>t e. post t e" and "\<And>t. 0 \<le> late t"
  shows "snd (drain_tick False post err late now s) = s\<lparr>aq_queue := []\<rparr>"
  using drain_empties [OF assms(2-4)] assms(1) by (simp add: drain_tick_def)

lemma audit_drain_delivers_witness:
  "snd (drain_tick False (\<lambda>t e. True) ''down'' (\<lambda>t. 3) 1005 after_failure) = start_store"
  using audit_drain_delivers [of after_failure 1005 "\<lambda>t e. True" "\<lambda>t. 3" "''down''"]
  by (simp add: after_failure_def start_store_def due_def failed_entry_def)



end
