(* ===== verification/Gateway_Edge.thy ===== *)
theory Gateway_Edge
  imports Gateway_Slack
begin

section \<open>The API gateway: limits, correlation ids and websockets\<close>

text \<open>
  \<open>services/api-gateway-node/index.js\<close>: the proxy hops (180 to 189), the origins of CORS (228 to 247),
  correlation ids (254 to 271), the path of the metrics (291), the limiters and their mounts
  (274 to 470) and the websocket upgrade (593 to 599, 2085 to 2150). A limiter is data: the
  key of its counter, the limit and the window; what express-rate-limit counts is a parameter,
  the count its store gives for a counter and an address after this request. \<open>new URL\<close> gives the
  path and the query of an upgrade.
\<close>

subsection \<open>Settings\<close>

definition resolveTrustProxyHops :: "jsv \<Rightarrow> int" where
  "resolveTrustProxyHops raw =
     (if raw = JUndef \<or> raw = JStr [] then 1
      else case parse_int raw of
        Some n \<Rightarrow> if n < 0 \<or> 5 < n then 1 else n
      | None \<Rightarrow> 1)"

definition allowedOrigins :: "string option \<Rightarrow> string list" where
  "allowedOrigins env =
     filter (\<lambda>w. w \<noteq> [])
       (map trim (split_on (CHR '','') (if falsy_string env then ''http://localhost:3000'' else the env)))"

definition cors_allows :: "string option \<Rightarrow> string option \<Rightarrow> bool" where
  "cors_allows env origin \<longleftrightarrow> falsy_string origin \<or> the origin \<in> set (allowedOrigins env)"

subsection \<open>Correlation ids\<close>

definition correlation_char :: "char \<Rightarrow> bool" where
  "correlation_char c \<longleftrightarrow>
     (let n = (of_char c :: nat)
      in is_digit c \<or> (65 \<le> n \<and> n \<le> 90) \<or> (97 \<le> n \<and> n \<le> 122) \<or> c \<in> set ''-_:.'')"

text \<open>The id a request carries from here on, and the response too; a new one is drawn before.\<close>

definition correlationIdMiddleware :: "string \<Rightarrow> string option \<Rightarrow> string" where
  "correlationIdMiddleware drawn incoming =
     (case incoming of
        Some h \<Rightarrow>
          (let trimmed = take 128 (trim h)
           in if trimmed \<noteq> [] \<and> list_all correlation_char trimmed then trimmed else drawn)
      | None \<Rightarrow> drawn)"

definition auditWriterClaims :: "int \<Rightarrow> jsv" where
  "auditWriterClaims now =
     JObj [(''sub'', JStr ''api-gateway''), (''service'', JStr ''api-gateway''), (''tenant_id'', JStr ''default''),
       (''aud'', JStr ''audit-writer''), (''iat'', JNum (of_int (now div 1000))),
       (''exp'', JNum (of_int (now div 1000 + 60)))]"

text \<open>The claims of the internal token of a proxied request.\<close>

definition mintInternalAuthToken :: "int \<Rightarrow> jsv \<Rightarrow> jsv" where
  "mintInternalAuthToken now p =
     JObj [(''user_id'', get_field p ''id''), (''user_role'', js_or (get_field p ''role'') (JStr ''employee'')),
       (''tenant_id'', js_or (get_field p ''tenant_id'') (JStr ''default'')),
       (''email'', js_or (get_field p ''email'') (JStr [])), (''exp'', JNum (of_int (now div 1000 + 10)))]"

subsection \<open>The path of the metrics\<close>

text \<open>\<open>replace(/\/[0-9a-fA-F-]{36}|\/\d+/g, '/:param')\<close>\<close>

definition hex_or_dash :: "char \<Rightarrow> bool" where
  "hex_or_dash c \<longleftrightarrow>
     (let n = (of_char c :: nat)
      in is_digit c \<or> (65 \<le> n \<and> n \<le> 70) \<or> (97 \<le> n \<and> n \<le> 102) \<or> c = CHR ''-'')"

definition param_length :: "string \<Rightarrow> nat" where
  "param_length t =
     (if 36 \<le> length t \<and> list_all hex_or_dash (take 36 t) then 36 else length (takeWhile is_digit t))"

function metrics_path :: "string \<Rightarrow> string" where
  "metrics_path [] = []"
| "metrics_path (c # t) =
     (if c = CHR ''/'' \<and> 0 < param_length t then ''/:param'' @ metrics_path (drop (param_length t) t)
      else c # metrics_path t)"
  by pat_completeness auto
termination by (relation "measure length") (auto simp: param_length_def)

definition metered :: "string \<Rightarrow> bool" where
  "metered path \<longleftrightarrow> path \<noteq> ''/metrics'' \<and> path \<noteq> ''/health''"

subsection \<open>Limiters\<close>

record limiter =
  li_prefix :: string \<comment> \<open>of its keys in redis\<close>
  li_max :: nat
  li_minutes :: nat
  li_message :: string

definition globalLimiter :: limiter where
  "globalLimiter = \<lparr>li_prefix = ''rl:global:'', li_max = 1000, li_minutes = 15,
     li_message = ''Too many requests, please try again later''\<rparr>"
definition authLimiter :: limiter where
  "authLimiter = \<lparr>li_prefix = ''rl:auth:'', li_max = 30, li_minutes = 15,
     li_message = ''Too many auth requests, please try again later''\<rparr>"
definition loginLimiter :: limiter where
  "loginLimiter = \<lparr>li_prefix = ''rl:login:'', li_max = 5, li_minutes = 15,
     li_message = ''Too many login attempts, please try again later''\<rparr>"
definition apiLimiter :: limiter where
  "apiLimiter = \<lparr>li_prefix = ''rl:api:'', li_max = 500, li_minutes = 15,
     li_message = ''Too many API requests, please try again later''\<rparr>"
definition sensitiveLimiter :: limiter where
  "sensitiveLimiter = \<lparr>li_prefix = ''rl:sensitive:'', li_max = 100, li_minutes = 15,
     li_message = ''Too many requests to sensitive endpoints, please try again later''\<rparr>"
definition careerLimiter :: limiter where
  "careerLimiter = \<lparr>li_prefix = ''rl:career:'', li_max = 120, li_minutes = 15,
     li_message = ''Too many career portal requests, please try again later''\<rparr>"
definition careerApplyLimiter :: limiter where
  "careerApplyLimiter = \<lparr>li_prefix = ''rl:career-apply:'', li_max = 10, li_minutes = 60,
     li_message = ''Too many applications submitted, please try again later''\<rparr>"
definition scimLimiter :: limiter where
  "scimLimiter = \<lparr>li_prefix = ''rl:scim:'', li_max = 60, li_minutes = 15,
     li_message = ''Too many SCIM requests, please try again later''\<rparr>"
definition samlLimiter :: limiter where
  "samlLimiter = \<lparr>li_prefix = ''rl:saml:'', li_max = 30, li_minutes = 15,
     li_message = ''Too many SAML requests, please try again later''\<rparr>"

text \<open>The mounts in order, and what Express leaves of the path inside one.\<close>

definition limiter_mounts :: "(string \<times> limiter) list" where
  "limiter_mounts =
     [(''/api/auth'', authLimiter), (''/api/auth/login'', loginLimiter), (''/api/auth/register'', authLimiter)] @
     map (\<lambda>e. (sr_prefix e, sensitiveLimiter)) SENSITIVE_ROUTE_REGISTRY @
     [(''/api/ats/career'', careerLimiter), (''/api/ats/career/apply'', careerApplyLimiter),
      (''/scim'', scimLimiter), (''/saml'', samlLimiter), (''/api'', apiLimiter)]"

definition path_inside :: "string \<Rightarrow> string \<Rightarrow> string" where
  "path_inside mount path =
     (let rest = drop (length mount) path in if rest = [] then ''/'' else rest)"

definition api_skip :: "string \<Rightarrow> bool" where
  "api_skip p \<longleftrightarrow> starts_with p ''/api/auth'' \<or> isSensitiveRoute p \<or> starts_with p ''/api/ats/career''"

text \<open>The limiters that count a request, in order.\<close>

definition counting :: "string \<Rightarrow> limiter list" where
  "counting path =
     globalLimiter # map snd (filter (\<lambda>(mount, l). mount_matches path mount \<and>
       \<not> (l = apiLimiter \<and> api_skip (path_inside mount path))) limiter_mounts)"

text \<open>The refusal of the first limiter whose count, this request included, is above its limit.\<close>

definition rate_limited :: "(string \<Rightarrow> nat) \<Rightarrow> string \<Rightarrow> refusal option" where
  "rate_limited hits path =
     map_option (\<lambda>l. refusal_of 429 (li_message l)) (find (\<lambda>l. li_max l < hits (li_prefix l)) (counting path))"

text \<open>The limiters stand in front of the guards.\<close>

definition gateway_edge ::
  "(string \<Rightarrow> nat) \<Rightarrow> gateway_env \<Rightarrow> redis \<Rightarrow> headcount_call \<Rightarrow> gateway_request \<Rightarrow> gateway_answer \<times> redis"
where
  "gateway_edge hits env r call g =
     (case rate_limited hits (g_path g) of
        Some e \<Rightarrow> (Refused e, r)
      | None \<Rightarrow> gateway env r call g)"

subsection \<open>The websocket upgrade\<close>

definition ALLOWED_WS_PATHS :: "string list" where
  "ALLOWED_WS_PATHS = [''/ws'', ''/notification/ws'']"

definition isLivePath :: "string \<Rightarrow> bool" where
  "isLivePath pathname \<longleftrightarrow> pathname = ''/api/live/ws'' \<or> starts_with pathname ''/api/live/ws/''"

definition isWsPath :: "string \<Rightarrow> bool" where
  "isWsPath pathname \<longleftrightarrow> pathname \<in> set ALLOWED_WS_PATHS \<or> isLivePath pathname"

record ws_target =
  wt_service :: string
  wt_path :: string
  wt_claims :: jsv \<comment> \<open>of the token in \<open>x-internal-auth\<close>\<close>

datatype upgrade_answer =
    Destroyed
  | Unauthorized
  | Opened ws_target

definition ws_claims :: "int \<Rightarrow> jsv \<Rightarrow> jsv" where
  "ws_claims now p =
     JObj [(''user_id'', js_or (get_field p ''id'') (get_field p ''sub'')),
       (''user_role'', js_or (get_field p ''role'') (JStr ''employee'')),
       (''tenant_id'', js_or (get_field p ''tenant_id'') (JStr ''default'')),
       (''exp'', JNum (of_int (now div 1000 + 5)))]"

definition upgrade :: "gateway_env \<Rightarrow> string \<Rightarrow> string option \<Rightarrow> upgrade_answer" where
  "upgrade env pathname token =
     (if \<not> isWsPath pathname then Destroyed
      else if falsy_string token then Unauthorized
      else
        (case verify_session env (the token) of
           VerifyFails _ \<Rightarrow> Unauthorized
         | Verified p \<Rightarrow>
             if is_challenge p then Unauthorized
             else Opened
               \<lparr>wt_service = (if isLivePath pathname then ''live'' else ''notification''),
                wt_path = (if isLivePath pathname then ''/api/v1/live'' @ drop (length ''/api/live'') pathname
                           else ''/ws''),
                wt_claims = ws_claims (now_ms env) p\<rparr>))"

text \<open>The answer of the service: the socket is joined only when it accepts with a key.\<close>

definition upgrade_joined :: "string option \<Rightarrow> bool" where
  "upgrade_joined acceptKey \<longleftrightarrow> \<not> falsy_string acceptKey"

subsection \<open>What limits a login\<close>

lemma lower_prefix: "to_lower path = p @ s \<Longrightarrow> \<exists>s'. drop (length p) path = s' \<and> to_lower s' = s"
  by (metis append_eq_conv_conj drop_map to_lower_def)

lemma login_mounts:
  assumes "mount_matches path ''/api/auth/login''"
  shows "mount_matches path ''/api/auth''" "mount_matches path ''/api''"
    "\<not> api_skip (path_inside ''/api'' path)"
proof -
  obtain s where s: "to_lower path = ''/api/auth/login'' @ s"
    using assms by (auto simp: mount_matches_def pathMatchesPrefix_def starts_with_iff_prefix elim: prefixE)
  then show "mount_matches path ''/api/auth''" "mount_matches path ''/api''"
    by (simp_all add: mount_matches_def pathMatchesPrefix_def starts_with_def)
  have inside: "to_lower (drop 4 path) = ''/auth/login'' @ s"
    using lower_prefix [of path "''/api''" "''/auth/login'' @ s"] s by (simp add: eval_nat_numeral)
  moreover have four: "length ''/api'' = 4" by simp
  ultimately have rest: "path_inside ''/api'' path = drop 4 path"
    unfolding path_inside_def Let_def four by (cases "drop 4 path") (auto simp: to_lower_def)
  have "list_all (\<lambda>p. \<not> starts_with (''/auth/login'' @ s) p \<and> to_lower p = p)
      ([''/api/auth'', ''/api/ats/career''] @ map (\<lambda>e. sr_prefix e @ ''/'') SENSITIVE_ROUTE_REGISTRY)"
    by (simp add: SENSITIVE_ROUTE_REGISTRY_def starts_with_def to_lower_def lower_char_def Let_def)
  then have no: "\<not> starts_with (drop 4 path) p"
    if "p \<in> set ([''/api/auth'', ''/api/ats/career''] @ map (\<lambda>e. sr_prefix e @ ''/'') SENSITIVE_ROUTE_REGISTRY)" for p
    using prefix_of_lower [of "drop 4 path" p] inside that unfolding list_all_iff by auto
  have "drop 4 path \<noteq> sr_prefix e" if "e \<in> set SENSITIVE_ROUTE_REGISTRY" for e
  proof
    assume "drop 4 path = sr_prefix e"
    then have "to_lower (sr_prefix e) = ''/auth/login'' @ s" using inside by simp
    with that show False
      by (auto simp: SENSITIVE_ROUTE_REGISTRY_def to_lower_def lower_char_def Let_def)
  qed
  with no show "\<not> api_skip (path_inside ''/api'' path)"
    unfolding rest api_skip_def isSensitiveRoute_def pathMatchesPrefix_def by auto
qed

text \<open>
  A login that the limiters let through was within all of their limits, that of the general API tier
  included: the tier is mounted at \<open>/api\<close>, where Express shows its \<open>skip\<close> the rest of the path only, so
  no path the gateway serves is skipped.
\<close>

lemma login_limits:
  assumes "mount_matches (g_path g) ''/api/auth/login''" and "rate_limited hits (g_path g) = None"
  shows "hits ''rl:global:'' \<le> 1000" "hits ''rl:auth:'' \<le> 30" "hits ''rl:login:'' \<le> 5" "hits ''rl:api:'' \<le> 500"
proof -
  note m = assms(1) login_mounts [OF assms(1)]
  have within: "hits (li_prefix l) \<le> li_max l" if "l \<in> set (counting (g_path g))" for l
    using assms(2) that by (force simp: rate_limited_def find_None_iff not_less)
  have "globalLimiter \<in> set (counting (g_path g))" "authLimiter \<in> set (counting (g_path g))"
    "loginLimiter \<in> set (counting (g_path g))" "apiLimiter \<in> set (counting (g_path g))"
    using m by (auto simp: counting_def limiter_mounts_def authLimiter_def apiLimiter_def loginLimiter_def image_iff)
  from this [THEN within] show "hits ''rl:global:'' \<le> 1000" "hits ''rl:auth:'' \<le> 30"
      "hits ''rl:login:'' \<le> 5" "hits ''rl:api:'' \<le> 500"
    by (simp_all add: globalLimiter_def authLimiter_def loginLimiter_def apiLimiter_def)
qed

subsection \<open>Websockets and revoked sessions\<close>

lemma upgrade_opened:
  assumes "upgrade env pathname token = Opened t"
  obtains tok p where "token = Some tok" "verify_session env tok = Verified p" "\<not> is_challenge p"
    "isWsPath pathname" "wt_claims t = ws_claims (now_ms env) p"
    "wt_service t = (if isLivePath pathname then ''live'' else ''notification'')"
  using assms by (auto simp: upgrade_def falsy_string_def split: if_splits jwt_answer.splits)

text \<open>
  Claim C38. A revoked session keeps its websockets. Whatever the denylist holds, the upgrade does not look:
  with a token of a revoked session every request for the live service is answered 401, and the
  socket of the same service, or of the notifications, is opened with the identity of the token.
\<close>

theorem revoked_token_opens_socket:
  assumes "verify_session env tok = Verified p" and "\<not> is_challenge p" and "tok \<noteq> []"
    and "truthy (get_field p ''sid'')" and "redis_answers r"
    and "redis_get (of_int (now_ms env)) r (''denylist:sid:'' @ js_string (get_field p ''sid'')) = Some v" and "v \<noteq> []"
    and "starts_with (g_path g) ''/api/live/''" and "session_token g = (Some tok, scheme)"
    and "pathname \<in> {''/ws'', ''/notification/ws'', ''/api/live/ws''}"
  shows "gateway env r call g = (Refused (refusal_of 401 ''Session revoked''), r) \<and>
    (\<exists>t. upgrade env pathname (Some tok) = Opened t \<and> wt_claims t = ws_claims (now_ms env) p)"
proof -
  have "needsAuth (g_path g)"
    using assms(8) by (auto simp: needsAuth_def protectedPrefixes_def pathMatchesPrefix_def)
  moreover obtain s where "g_path g = ''/api/live/'' @ s"
    using assms(8) by (auto simp: starts_with_iff_prefix elim: prefixE)
  then have "\<not> isPublicOrAuthPath (g_path g)"
    by (simp add: isPublicOrAuthPath_def PUBLIC_PREFIXES_def pathMatchesPrefix_def starts_with_def)
  moreover have "revokeCheck (of_int (now_ms env)) r p = Some (refusal_of 401 ''Session revoked'')"
    using assms(4-7) by (auto simp: revokeCheck_def denylist_keys_def redis_answers_def falsy_string_def)
  ultimately have "gateway env r call g = (Refused (refusal_of 401 ''Session revoked''), r)"
    using assms(1-3,9) by (simp add: gateway_def authMiddleware_def falsy_string_def)
  moreover have "\<exists>t. upgrade env pathname (Some tok) = Opened t \<and> wt_claims t = ws_claims (now_ms env) p"
    using assms(1-3,10) by (auto simp: upgrade_def falsy_string_def isWsPath_def ALLOWED_WS_PATHS_def isLivePath_def)
  ultimately show ?thesis ..
qed

definition revoked_env :: gateway_env where
  "revoked_env = sample_env\<lparr>verify_session := (\<lambda>t. Verified (JObj [(''id'', JNum 7), (''sid'', JStr ''s'')]))\<rparr>"

theorem revoked_token_opens_socket_witness:
  "\<exists>t. upgrade revoked_env ''/ws'' (Some ''good'') = Opened t \<and>
     gateway revoked_env (redis_set ''denylist:sid:s'' ''1'' 900 empty_redis) (HeadcountFails True)
       (sample_get ''/api/live/feed'' ''good'') =
       (Refused (refusal_of 401 ''Session revoked''), redis_set ''denylist:sid:s'' ''1'' 900 empty_redis)"
proof -
  let ?p = "JObj [(''id'', JNum 7), (''sid'', JStr ''s'')]"
  let ?r = "redis_set ''denylist:sid:s'' ''1'' 900 empty_redis" and ?g = "sample_get ''/api/live/feed'' ''good''"
  have h: "verify_session revoked_env ''good'' = Verified ?p" "\<not> is_challenge ?p" "''good'' \<noteq> []"
    "truthy (get_field ?p ''sid'')" "redis_answers ?r"
    "redis_get (of_int (now_ms revoked_env)) ?r (''denylist:sid:'' @ js_string (get_field ?p ''sid'')) = Some ''1''"
    "''1'' \<noteq> []" "starts_with (g_path ?g) ''/api/live/''" "session_token ?g = (Some ''good'', ''bearer'')"
    by code_simp+
  have w: "''/ws'' \<in> {''/ws'', ''/notification/ws'', ''/api/live/ws''}" by simp
  show ?thesis using revoked_token_opens_socket [OF h w] by blast
qed

end
