(* ===== verification/Gateway_Cache.thy ===== *)
theory Gateway_Cache
  imports Gateway
begin

section \<open>The API gateway: the response cache\<close>

text \<open>
  \<open>services/api-gateway-node/index.js\<close>: \<open>checkCache\<close> (115 to 170), which stands in front of every proxy,
  and \<open>cacheInvalidationMiddleware\<close> (1164 to 1189). The store is the redis of \<open>Service_Base\<close>; what
  it looks like when an attempt is made is a function of the attempt, since others work on it while a
  request waits. How redis matches a pattern and which keys its scans return are parameters. An answer
  is stored when it passes \<open>res.send\<close>; the text sent is given.
\<close>

subsection \<open>Keys\<close>

record cache_request =
  cq_method :: string
  cq_path :: string
  cq_url :: string \<comment> \<open>\<open>req.originalUrl\<close>\<close>
  cq_user :: "jsv option"

definition cache_tenant :: "jsv option \<Rightarrow> string" where
  "cache_tenant u = js_string (js_or (get_field (user_value u) ''tenant_id'') (JStr ''public''))"

definition cache_role :: "jsv option \<Rightarrow> string" where
  "cache_role u = js_string (js_or (get_field (user_value u) ''role'') (JStr ''public''))"

definition cache_id :: "jsv option \<Rightarrow> string" where
  "cache_id u = (case u of Some p \<Rightarrow> js_string (get_field p ''id'') | None \<Rightarrow> ''public'')"

definition user_scope :: "jsv option \<Rightarrow> string" where
  "user_scope u = cache_id u @ '':'' @ cache_tenant u @ '':'' @ cache_role u"

definition cache_key :: "cache_request \<Rightarrow> string" where
  "cache_key q = ''cache:'' @ user_scope (cq_user q) @ '':'' @ cq_url q"

definition lock_key :: "string \<Rightarrow> string" where
  "lock_key key = ''lock:'' @ key"

subsection \<open>Looking up\<close>

datatype cache_verdict =
    CacheHit string
  | PassOn "string option" \<comment> \<open>to the proxy; the key the answer is stored under, if the lock is held\<close>

definition retryDelays :: "nat list" where "retryDelays = [50, 100, 200]"

text \<open>One attempt; none when the lock is held by another.\<close>

definition attempt_cache :: "string \<Rightarrow> rat \<Rightarrow> redis \<Rightarrow> (cache_verdict \<times> redis) option" where
  "attempt_cache key now r =
     (if \<not> redis_answers r then Some (PassOn None, r)
      else if \<not> falsy_string (redis_get now r key) then Some (CacheHit (the (redis_get now r key)), r)
      else if redis_get now r (lock_key key) = None
      then Some (PassOn (Some key), redis_set (lock_key key) ''1'' (now + 5000) r)
      else None)"

text \<open>The attempts, over the delays that are left; \<open>world n\<close> is the store \<open>n\<close> milliseconds after the first.\<close>

fun tryGetCache :: "(nat \<Rightarrow> redis) \<Rightarrow> rat \<Rightarrow> string \<Rightarrow> nat \<Rightarrow> nat list \<Rightarrow> cache_verdict \<times> redis" where
  "tryGetCache world start key waited delays =
     (case attempt_cache key (start + of_nat waited) (world waited) of
        Some result \<Rightarrow> result
      | None \<Rightarrow>
          (case delays of
             [] \<Rightarrow> (PassOn None, world waited)
           | d # ds \<Rightarrow> tryGetCache world start key (waited + d) ds))"

declare tryGetCache.simps [simp del]

definition checkCache :: "(nat \<Rightarrow> redis) \<Rightarrow> rat \<Rightarrow> cache_request \<Rightarrow> cache_verdict \<times> redis" where
  "checkCache world start q =
     (if cq_method q \<noteq> ''GET'' \<or> starts_with (cq_path q) ''/api/live'' \<or> \<not> redis_open (world 0)
      then (PassOn None, world 0)
      else tryGetCache world start (cache_key q) 0 retryDelays)"

text \<open>The wrapped \<open>res.send\<close> of a request that holds the lock.\<close>

definition cacheable :: "nat \<Rightarrow> string option \<Rightarrow> bool" where
  "cacheable status control \<longleftrightarrow> 200 \<le> status \<and> status < 300 \<and> control \<noteq> Some ''no-store''"

definition cached_send :: "rat \<Rightarrow> string \<Rightarrow> nat \<Rightarrow> string option \<Rightarrow> string \<Rightarrow> redis \<Rightarrow> redis" where
  "cached_send now key status control body r =
     (if \<not> redis_answers r then r
      else redis_del (lock_key key)
        (if cacheable status control then redis_set key body (now + 300 * 1000) r else r))"

subsection \<open>Invalidation\<close>

definition scope_pattern :: "jsv option \<Rightarrow> string" where
  "scope_pattern u =
     ''cache:'' @ (case u of Some p \<Rightarrow> cache_id u @ '':'' @ cache_tenant u @ '':*'' | None \<Rightarrow> ''public:public:*'') @ '':*''"

text \<open>The keys the scans of the pattern returned, in their replies.\<close>

definition cacheInvalidationMiddleware :: "string \<Rightarrow> nat \<Rightarrow> string list list \<Rightarrow> redis \<Rightarrow> redis" where
  "cacheInvalidationMiddleware verb status replies r =
     (if verb \<in> {''POST'', ''PUT'', ''PATCH'', ''DELETE''} \<and> status < 400 \<and> redis_answers r
      then fold (fold redis_del) replies r else r)"

subsection \<open>Runs of the cache\<close>

text \<open>
  Requests look up, send and invalidate in any order, time passes, and others use the store for keys
  of their own. \<open>answers\<close> is what was sent: the request, the status, the time and the text.
\<close>

type_synonym sent_answer = "cache_request \<times> nat \<times> rat \<times> string"

inductive cache_run :: "rat \<Rightarrow> redis \<Rightarrow> sent_answer list \<Rightarrow> bool" where
  cache_start: "redis_keys r = [] \<Longrightarrow> cache_run now r []"
| cache_attempt: "cache_run now r answers \<Longrightarrow> attempt_cache (cache_key q) now r = Some (v, r') \<Longrightarrow> cache_run now r' answers"
| cache_sent: "cache_run now r answers \<Longrightarrow>
    cache_run now (cached_send now (cache_key q) status control body r) ((q, status, now, body) # answers)"
| cache_invalidated: "cache_run now r answers \<Longrightarrow>
    cache_run now (cacheInvalidationMiddleware verb status replies r) answers"
| cache_other: "cache_run now r answers \<Longrightarrow> \<not> starts_with k ''cache:'' \<Longrightarrow> cache_run now (redis_set k v e r) answers"
| cache_expired: "cache_run now r answers \<Longrightarrow> cache_run now (redis_del k r) answers"
| cache_connection: "cache_run now r answers \<Longrightarrow> cache_run now (r\<lparr>redis_open := b, redis_throws := c\<rparr>) answers"
| cache_time: "cache_run now r answers \<Longrightarrow> now \<le> t \<Longrightarrow> cache_run t r answers"

text \<open>What lies under the key of a request was sent for a request with that key, and not long ago.\<close>

definition cached_from :: "rat \<Rightarrow> sent_answer list \<Rightarrow> string \<Rightarrow> string \<Rightarrow> bool" where
  "cached_from now answers k b \<longleftrightarrow>
     (\<exists>q status t. (q, status, t, b) \<in> set answers \<and> cache_key q = k \<and> 200 \<le> status \<and> status < 300 \<and>
        t \<le> now \<and> now < t + 300 * 1000)"

definition cache_ok :: "rat \<Rightarrow> redis \<Rightarrow> sent_answer list \<Rightarrow> bool" where
  "cache_ok now r answers \<longleftrightarrow>
     (\<forall>t k b. now \<le> t \<and> starts_with k ''cache:'' \<and> redis_get t r k = Some b \<longrightarrow> cached_from t answers k b)"

lemma lock_key_apart: "\<not> starts_with (lock_key k) ''cache:''"
  by (simp add: lock_key_def starts_with_def)

lemma cache_ok_set_other: "cache_ok now r answers \<Longrightarrow> \<not> starts_with k ''cache:'' \<Longrightarrow> cache_ok now (redis_set k v e r) answers"
  by (auto simp: cache_ok_def redis_get_set split: if_splits)

lemma cache_ok_del: "cache_ok now r answers \<Longrightarrow> cache_ok now (redis_del k r) answers"
  by (auto simp: cache_ok_def redis_get_del split: if_splits)

lemma cache_ok_dels: "cache_ok now r answers \<Longrightarrow> cache_ok now (fold (fold redis_del) replies r) answers"
proof (induction replies arbitrary: r)
  case (Cons ks replies)
  have "cache_ok now (fold redis_del ks r) answers"
    using Cons.prems by (induction ks arbitrary: r) (simp_all add: cache_ok_del)
  with Cons.IH show ?case by simp
qed simp

lemma cached_from_more: "cached_from now answers k b \<Longrightarrow> cached_from now (x # answers) k b"
  by (auto simp: cached_from_def)

lemma cache_ok_sent:
  assumes "cache_ok now r answers"
  shows "cache_ok now (cached_send now (cache_key q) status control body r) ((q, status, now, body) # answers)"
proof -
  let ?answers = "(q, status, now, body) # answers"
  have old: "cache_ok now r ?answers" using assms cached_from_more by (fastforce simp: cache_ok_def)
  have "cache_ok now (redis_set (cache_key q) body (now + 300 * 1000) r) ?answers" if "cacheable status control"
    unfolding cache_ok_def
  proof (intro allI impI)
    fix t k b
    assume h: "now \<le> t \<and> starts_with k ''cache:'' \<and> redis_get t (redis_set (cache_key q) body (now + 300 * 1000) r) k = Some b"
    show "cached_from t ?answers k b"
    proof (cases "k = cache_key q")
      case True
      with h have "b = body" "t < now + 300 * 1000" by (auto simp: redis_get_set split: if_splits)
      with True h that show ?thesis by (auto simp: cached_from_def cacheable_def)
    next
      case False
      with h old show ?thesis by (auto simp: cache_ok_def redis_get_set)
    qed
  qed
  with old show ?thesis by (auto simp: cached_send_def cache_ok_del)
qed

lemma cache_run_ok: "cache_run now r answers \<Longrightarrow> cache_ok now r answers"
proof (induction rule: cache_run.induct)
  case (cache_attempt now r answers q v r')
  then show ?case
    by (auto simp: attempt_cache_def cache_ok_set_other lock_key_apart split: if_splits)
next
  case (cache_time now r answers t)
  then show ?case by (auto simp: cache_ok_def)
next
  case (cache_connection now r answers b c)
  then show ?case by (simp add: cache_ok_def redis_get_def)
next
  case (cache_start r now)
  then show ?case by (simp add: cache_ok_def redis_get_def)
qed (simp_all add: cache_ok_sent cache_ok_set_other cache_ok_del cacheInvalidationMiddleware_def cache_ok_dels)

lemma hit_stored: "attempt_cache key now r = Some (CacheHit b, r') \<Longrightarrow> redis_get now r key = Some b"
  by (auto simp: attempt_cache_def falsy_string_def split: if_splits)

subsection \<open>Whose answers a user is given\<close>

definition no_colon :: "string \<Rightarrow> bool" where
  "no_colon s \<longleftrightarrow> CHR '':'' \<notin> set s"

definition plain_scope :: "jsv option \<Rightarrow> bool" where
  "plain_scope u \<longleftrightarrow> no_colon (cache_id u) \<and> no_colon (cache_tenant u) \<and> no_colon (cache_role u)"

lemma colon_split: "no_colon a \<Longrightarrow> no_colon b \<Longrightarrow> a @ '':'' @ x = b @ '':'' @ y \<longleftrightarrow> a = b \<and> x = y"
proof (induction a arbitrary: b)
  case Nil
  then show ?case by (cases b) (auto simp: no_colon_def)
next
  case (Cons c a)
  then show ?case by (cases b) (auto simp: no_colon_def)
qed

lemma cache_key_same:
  assumes "cache_key q = cache_key q'" and "plain_scope (cq_user q)" and "plain_scope (cq_user q')"
  shows "cache_id (cq_user q) = cache_id (cq_user q') \<and> cache_tenant (cq_user q) = cache_tenant (cq_user q') \<and>
    cache_role (cq_user q) = cache_role (cq_user q') \<and> cq_url q = cq_url q'"
proof -
  have plain: "no_colon (cache_id (cq_user x))" "no_colon (cache_tenant (cq_user x))" "no_colon (cache_role (cq_user x))"
    if "plain_scope (cq_user x)" for x using that by (auto simp: plain_scope_def)
  have "cache_id (cq_user q) @ '':'' @ (cache_tenant (cq_user q) @ '':'' @ (cache_role (cq_user q) @ '':'' @ cq_url q)) =
      cache_id (cq_user q') @ '':'' @ (cache_tenant (cq_user q') @ '':'' @ (cache_role (cq_user q') @ '':'' @ cq_url q'))"
    using assms(1) by (simp add: cache_key_def user_scope_def)
  then show ?thesis
    using plain [OF assms(2)] plain [OF assms(3)] by (simp only: colon_split)
qed

text \<open>
  Claim C29. What the cache answers to a request was sent, with a status in the two hundreds and less than five
  minutes before, to a request for the same URL by the same user of the same tenant in the same role,
  as long as ids, tenants and roles hold no colon; and that whatever else happens to the store:
  lookups, sends and invalidations of others in any order, keys that expire or are written by
  other parts of the gateway, connections that fail.
\<close>

theorem cached_answer_own:
  assumes "cache_run now r answers" and "attempt_cache (cache_key q) now r = Some (CacheHit b, r')"
    and "plain_scope (cq_user q)" and "list_all (\<lambda>a. plain_scope (cq_user (fst a))) answers"
  shows "\<exists>q0 status t. (q0, status, t, b) \<in> set answers \<and> 200 \<le> status \<and> status < 300 \<and>
    t \<le> now \<and> now < t + 300 * 1000 \<and> cq_url q0 = cq_url q \<and> cache_id (cq_user q0) = cache_id (cq_user q) \<and>
    cache_tenant (cq_user q0) = cache_tenant (cq_user q) \<and> cache_role (cq_user q0) = cache_role (cq_user q)"
proof -
  have "starts_with (cache_key q) ''cache:''" by (simp add: cache_key_def starts_with_def)
  then have "cached_from now answers (cache_key q) b"
    using cache_run_ok [OF assms(1)] hit_stored [OF assms(2)] by (auto simp: cache_ok_def)
  then obtain q0 status t where q0: "(q0, status, t, b) \<in> set answers" "cache_key q0 = cache_key q"
      "200 \<le> status" "status < 300" "t \<le> now" "now < t + 300 * 1000"
    by (auto simp: cached_from_def)
  have "plain_scope (cq_user q0)" using assms(4) q0(1) by (auto simp: list_all_iff)
  from cache_key_same [OF q0(2) this assms(3)] q0 show ?thesis by blast
qed

definition cache_read :: cache_request where
  "cache_read = \<lparr>cq_method = ''GET'', cq_path = ''/api/leave'', cq_url = ''/api/leave?page=2'',
     cq_user = Some (JObj [(''id'', JNum 7), (''tenant_id'', JStr ''acme''), (''role'', JStr ''hr'')])\<rparr>"

theorem cached_answer_own_witness:
  "\<exists>r answers r'. cache_run 10 r answers \<and> attempt_cache (cache_key cache_read) 10 r = Some (CacheHit ''[]'', r') \<and>
     (\<exists>q0 status t. (q0, status, t, ''[]'') \<in> set answers \<and> cq_url q0 = cq_url cache_read)"
proof -
  let ?r = "cached_send 5 (cache_key cache_read) 200 None ''[]'' empty_redis"
  let ?answers = "[(cache_read, 200, 5, ''[]'')]"
  have "cache_run 5 empty_redis []" by (rule cache_start) (simp add: empty_redis_def)
  from cache_sent [OF this] have "cache_run 5 ?r ?answers" .
  from cache_time [OF this, of 10] have run: "cache_run 10 ?r ?answers" by simp
  have hit: "attempt_cache (cache_key cache_read) 10 ?r = Some (CacheHit ''[]'', ?r)" by code_simp
  have plain: "plain_scope (cq_user cache_read)" by code_simp
  from cached_answer_own [OF run hit plain] plain run hit show ?thesis by (intro exI conjI) auto
qed

text \<open>
  After a write of a user that succeeded, nothing of that user and tenant is answered from the cache,
  provided the scans returned every key of the pattern. Answers cached for others stay.
\<close>

lemma fold_dels_get: "redis_get now (fold redis_del ks r) k = (if k \<in> set ks then None else redis_get now r k)"
  by (induction ks arbitrary: r) (auto simp: redis_get_del)

lemma write_clears_own:
  assumes "verb \<in> {''POST'', ''PUT'', ''PATCH'', ''DELETE''}" and "status < 400" and "redis_answers r"
    and "\<And>k. glob (scope_pattern u) k \<Longrightarrow> redis_get now r k \<noteq> None \<Longrightarrow> k \<in> set (concat replies)"
    and "glob (scope_pattern u) (cache_key q)"
  shows "redis_get now (cacheInvalidationMiddleware verb status replies r) (cache_key q) = None"
proof -
  have "fold (fold redis_del) replies r = fold redis_del (concat replies) r"
    by (induction replies arbitrary: r) simp_all
  then have "cacheInvalidationMiddleware verb status replies r = fold redis_del (concat replies) r"
    using assms(1-3) by (simp add: cacheInvalidationMiddleware_def)
  then show ?thesis using assms(4) [of "cache_key q"] assms(5) by (auto simp only: fold_dels_get split: if_split)
qed

end
