(* ===== verification/Spec2Isabelle.thy ===== *)
theory Spec2Isabelle
  imports Org_Tree Client_Stores Client_Support Realtime Api_Client Dashboard_Data Api_Catalogue Gateway Auth_Interleaving Auth_Client Auth_Revocation Auth_Service Auth_Reach Auth_Whole Gateway_Slack Slack_Approvals Gateway_Audit Gateway_Edge Gateway_Cache
begin

text \<open>
  Atlas is a workforce platform: a Next.js client (\<open>src/frontend\<close>), a Node gateway
  (\<open>src/services/api-gateway-node\<close>), a Node auth service (\<open>src/services/auth-service\<close>) and
  services in Go, Java and Python behind them. This library models the TypeScript and JavaScript
  parts that decide something: who is signed in, what is sent, what is refused, what is retried,
  what is shown.

  The theories, in the order of their imports:

  \<^item> \<open>Atlas_Prelude\<close>: JavaScript maps and sets, list and string functions, the loops every
    component shares.
  \<^item> \<open>Org_Tree\<close> (\<open>lib/org-tree.ts\<close>): the forest of the org chart, its stack loops, the search and
    expansion, facets and highlighting. Loops over the work list are total by a measure on the
    forest.
  \<^item> \<open>Js_Value\<close>: JSON values, numbers, strings, \<open>atob\<close>, \<open>JSON.parse\<close> of the payloads.
  \<^item> \<open>Auth_Session\<close> (\<open>lib/auth.ts\<close>, \<open>app/api/auth/*/route.ts\<close>, \<open>middleware.ts\<close>,
    \<open>components/auth/auth-guard.tsx\<close>): token in memory, cookie routes, page guard.
  \<^item> \<open>Client_Stores\<close> (\<open>stores/live-store.ts\<close>, \<open>toast-store.ts\<close>, \<open>workspace-store.ts\<close>): each
    store a record and one function per action; runs are folds; refinement to the history.
  \<^item> \<open>Api_Errors\<close> (\<open>lib/api-errors.ts\<close>, \<open>reconnect.ts\<close>, \<open>query-retry.ts\<close>,
    \<open>error-reporting.ts\<close>): classification, backoff, redaction, the retry interceptor.
  \<^item> \<open>Client_Support\<close> (\<open>lib/csv.ts\<close>, \<open>lib/env.ts\<close> and small hooks).
  \<^item> \<open>Realtime\<close> (\<open>hooks/use-notification-socket.ts\<close>, \<open>use-websocket.ts\<close>, \<open>use-realtime.ts\<close>): the
    reconnecting hooks as step functions over events of the browser.
  \<^item> \<open>Api_Client\<close> (\<open>lib/api.ts\<close>, the interceptors): the shared refresh and the retry of any number
    of concurrent requests as a transition system.
  \<^item> \<open>Api_Schemas\<close> (\<open>lib/api.ts\<close>, the zod schemas), \<open>Auth_Store\<close> (\<open>stores/auth-store.ts\<close>),
    \<open>Dashboard_Data\<close> (\<open>lib/dashboard-data.ts\<close>).
  \<^item> \<open>Api_Request\<close>, \<open>Api_Catalogue\<close> (\<open>lib/api.ts\<close>, the endpoint objects): the 580 calls of the
    client as data, and the path the URL parser of the browser makes of their addresses.
  \<^item> \<open>Service_Base\<close>: redis with its times of expiry, and the answers of \<open>jwt.verify\<close>, as both
    services use them.
  \<^item> \<open>Gateway\<close> (\<open>services/api-gateway-node/index.js\<close>): the middlewares in their order, the checkout
    and the routing. \<open>Gateway_Edge\<close>: what stands in front of them (correlation ids, the limiters)
    and beside them (the websocket upgrade). \<open>Gateway_Cache\<close>: the response cache. \<open>Gateway_Slack\<close>:
    the signature checks and the three Slack routes behind the guards. \<open>Gateway_Audit\<close>: audit
    events and the queue they are retried from, command by command, with drains of several
    processes, failing commands and crashes.
  \<^item> \<open>Auth_Policy\<close>, \<open>Auth_Tokens\<close>, \<open>Auth_Interleaving\<close>
    (\<open>services/auth-service/index.js\<close>): the pure decisions (passwords, policies, keys, logs), the
    tables of tokens and sessions, and any number of refreshes, logouts, logins and revocations
    interleaved statement by statement.
  \<^item> \<open>Auth_World\<close>: the state of the auth service, its requests and replies, its guards and rate
    limiter. On it, one theory per group of routes: \<open>Auth_Login\<close> (registration, login and the lock,
    refresh, logout), \<open>Auth_Mfa\<close>, \<open>Auth_Account\<close> (password reset, magic links), \<open>Auth_Admin\<close>
    (password policies, API keys, the internal lookup), \<open>Auth_Devices\<close> (sessions and devices),
    \<open>Auth_Scim\<close> (provisioning). \<open>Auth_Service\<close> collects them into one function of route, request
    and state, with an abstract machine of accounts below.
  \<^item> \<open>Auth_Federated\<close>, \<open>Auth_Saml\<close>, \<open>Auth_Oidc\<close>, \<open>Auth_Oauth\<close>, \<open>Auth_Webauthn\<close>: the sign-ins
    that others vouch for, with tables of their own. \<open>Auth_Whole\<close>: all routes together, their
    refinement of the machine of accounts, the invariants of every run, and the replay of a log, in
    which every session is traced to the request that gave it.
  \<^item> \<open>Auth_Client\<close>, \<open>Auth_Revocation\<close>, \<open>Auth_Reach\<close>, \<open>Slack_Approvals\<close>: what takes two of the
    programs: replies of the auth service in the store of the client, logouts and revocations seen
    by the gateway, the routes the calls of the client reach, approvals from Slack against the
    stored accounts.
  \<^item> this theory: the client's catalogue run against the gateway and the auth service.

  How the parts interact. The client keeps its access token in memory and asks for another with a
  cookie; its calls go to the gateway, which verifies the token, asks redis whether it was revoked,
  checks the role and the second factor, and forwards to the service of the path with a token of
  its own. The auth service issues the tokens, keeps the accounts, sessions and refresh tokens in
  PostgreSQL and writes what it revokes into the redis the gateway reads. Slack and the browser's
  websockets come in by routes of the gateway of their own; audit events leave it by a queue in
  redis.

  What the groups of lemmas show. Of every operation, what it does on each branch, errors
  included (\<open>*_cases\<close>, \<open>*_contract\<close>); of the paths of the client's calls, when an argument stays in its
  segment and what happens when it does not; of the stores, the hooks, the client's transition system, the
  tables of the auth service, the queue and the cache, invariants of all reachable states; of the loops
  of the org chart, that they compute the recursive definitions; of the statements of the auth service,
  that run alone they are the functions, and of the routes, that they refine the machine of accounts.
  On these rest the properties: a refresh token is exchanged once under any interleaving, every
  session was given for something shown, roles do not rise, passwords change only by their owner
  or an admin, a provisioning key stays in its tenant, what the gateway forwards was authorised.
  Some properties state what the code does wrong; their texts say so.

  Interfaces are locales, interpreted on the definitions of the model: a capped feed, a keyed store,
  a backoff, a reconnecting hook, invariants of event systems, a redaction, a collector over the
  forest, and what the code relies on of the schema library.

  Bounds and fuel. Loops over data are structural or total by a measure (the work list of the org chart,
  the retries of the client, the rounds of the audit queue, the paths of the metrics); the parser of
  JSON carries the length of its text, which is enough since each call consumes a character.
  Verifying an OpenID token makes at most three fetches. Integers are exact: the code keeps them far
  below the 53 bits of a double, the checkout checks it. Strings have code units below 256.
  A failure of redis in the audit queue is counted, whether it executed the command or not.

  Not modelled. Of the auth service: the statements that create its schema, start-up and shutdown,
  health and metrics, and the delivery of its audit events over RabbitMQ; a failing PostgreSQL is
  answered 500 everywhere and does not appear. Of the gateway: gauges, DNS and health checks at start-up,
  the headers of helmet, and the bytes http-proxy-middleware pipes. Of the client: the pages and
  components, which are markup over React and queries through the modelled client; the type
  declarations, erased at run time; the Excel export, sample data and class names, which are calls of
  libraries or constants. The services in Go, Java and Python are other programs: what they answer is
  a parameter. Tests, deployment files and documents decide nothing.
\<close>

section \<open>The client against the gateway\<close>

text \<open>
  A call of the catalogue as the gateway sees it: the base address ends in \<open>/api\<close>, the browser
  resolves the address (what stands behind the question mark of a query does not matter for the path),
  the request interceptor adds its headers, Node lower-cases header names. \<open>token\<close> is the parameter of
  that name in the query, if any.
\<close>

definition call_address :: "endpoint \<Rightarrow> args \<Rightarrow> string" where
  "call_address e a =
     ''/api'' @ rq_path (build_request e a) @ (if rq_query (build_request e a) = [] then [] else ''?'')"

definition gateway_path :: "endpoint \<Rightarrow> args \<Rightarrow> string" where
  "gateway_path e a = url_path (call_address e a)"

definition http_method :: "verb \<Rightarrow> string" where
  "http_method v = map upper_char (verb_name v)"

definition client_gateway_request ::
  "auth_state \<Rightarrow> string option \<Rightarrow> string option \<Rightarrow> string option \<Rightarrow> endpoint \<Rightarrow> args \<Rightarrow> unit + gateway_request"
where
  "client_gateway_request auth doc cookie token e a =
     (case request_interceptor auth doc (Some (verb_name (ep_verb e)))
             (rq_headers (build_request e a)) of
        Inl u \<Rightarrow> Inl u
      | Inr hs \<Rightarrow> Inr
          \<lparr>g_method = http_method (ep_verb e), g_path = gateway_path e a,
           g_headers = map (\<lambda>(n, v). (to_lower n, v)) hs, g_csrf_cookie = cookie,
           g_query_token = token, g_body = rq_body (build_request e a)\<rparr>)"

text \<open>Arguments that stay one segment each: the client interpolates them as they are.\<close>

definition plain_arguments :: "endpoint \<Rightarrow> args \<Rightarrow> bool" where
  "plain_arguments e a \<longleftrightarrow> (\<forall>x \<in> set (path_parameters (ep_path e)). one_segment (js_string (a x)))"

text \<open>Where the calls with a first segment are meant to go; billing is not proxied.\<close>

definition intended_service :: "string \<Rightarrow> string option" where
  "intended_service seg =
     (if seg = ''billing'' then None
      else if seg = ''command-center'' then Some ''analytics''
      else if seg = ''learning'' then Some ''lms''
      else Some seg)"

subsection \<open>The segments of a call\<close>

lemma lower_char_slash: "lower_char c = CHR ''/'' \<longleftrightarrow> c = CHR ''/''"
  by (auto simp: lower_char_def Let_def dest!: arg_cong [where f = "of_char :: char \<Rightarrow> nat"])

lemma to_lower_segments: "segments (to_lower path) = map to_lower (segments path)"
proof -
  have "split_on (CHR ''/'') (map lower_char path) = map (map lower_char) (split_on (CHR ''/'') path)"
    by (induction path) (auto simp: lower_char_slash split: list.splits)
  then show ?thesis by (simp add: segments_def to_lower_def)
qed

lemma segments_Cons: "segments (CHR ''/'' # t) = [] # segments t"
  by (simp add: segments_def)

lemma segments_append: "segments (s @ CHR ''/'' # t) = segments s @ segments t"
  by (simp add: segments_def split_on_append_sep)

lemma segments_plain: "no_slash s \<Longrightarrow> segments s = [s]"
  using split_on_prepend [of s "[]"] by (simp add: segments_def)

lemma SERVICES_plain: "seg \<in> set SERVICES \<Longrightarrow> no_slash seg \<and> static_segment seg \<and> to_lower seg = seg"
proof -
  have "\<forall>seg \<in> set SERVICES. no_slash seg \<and> static_segment seg \<and> to_lower seg = seg"
    unfolding SERVICES_def no_slash_def list.set ball_simps by code_simp
  then show "seg \<in> set SERVICES \<Longrightarrow> ?thesis" by blast
qed

text \<open>A segment as it is sent.\<close>

definition sent_segment :: "args \<Rightarrow> string \<Rightarrow> string" where
  "sent_segment a s = url_segment (fill a s)"

lemma sent_static: "static_segment s \<Longrightarrow> sent_segment a s = s"
  using static_segment(2) static_no_parameter by (simp add: sent_segment_def fill_def)

lemma path_of_Cons: "path_of (s # ss) = CHR ''/'' # s @ path_of ss"
  by (simp add: path_of_def)

lemma call_address_filled:
  assumes "e \<in> set catalogue"
  obtains q where "call_address e a = path_of (''api'' # map (fill a) (split_on (CHR ''/'') (tl (ep_path e)))) @ q"
    "q = [] \<or> q = ''?''"
proof -
  have "template_segments_ok (ep_path e)" using assms catalogue_paths by (auto simp: path_wf_def)
  from rendered_path [OF this, of a] show thesis
    using that [of "if rq_query (build_request e a) = [] then [] else ''?''"]
    by (simp add: call_address_def build_request_def path_of_Cons)
qed

lemma one_segment_api: "one_segment ''api''"
  by code_simp

lemma gateway_path_shape:
  assumes "e \<in> set catalogue" and "plain_arguments e a"
  shows "gateway_path e a = path_of (''api'' # map (sent_segment a) (split_on (CHR ''/'') (tl (ep_path e))))"
    and "segments (gateway_path e a) = [] # ''api'' # map (sent_segment a) (split_on (CHR ''/'') (tl (ep_path e)))"
proof -
  let ?ss = "''api'' # map (fill a) (split_on (CHR ''/'') (tl (ep_path e)))"
  have t: "template_segments_ok (ep_path e)" using assms(1) catalogue_paths by (auto simp: path_wf_def)
  have one: "\<forall>s \<in> set ?ss. one_segment s"
    using filled_segments [OF t] assms(2) one_segment_api by (auto simp: plain_arguments_def)
  obtain q where q: "call_address e a = path_of ?ss @ q" "q = [] \<or> q = ''?''"
    using call_address_filled [OF assms(1)] .
  have "url_segment ''api'' = ''api''" by code_simp
  then show p: "gateway_path e a = path_of (''api'' # map (sent_segment a) (split_on (CHR ''/'') (tl (ep_path e))))"
    using url_path_same [OF one _ q(2)] by (simp add: gateway_path_def q(1) sent_segment_def [abs_def] comp_def)
  have "\<forall>s \<in> set ?ss. no_slash (url_segment s)"
    using one segment_chars(1) url_segment_no_slash unfolding one_segment_def by blast
  then have "\<forall>s \<in> set (''api'' # map (sent_segment a) (split_on (CHR ''/'') (tl (ep_path e)))). no_slash s"
    by (auto simp: sent_segment_def no_slash_def)
  from split_path_of [OF this]
  show "segments (gateway_path e a) = [] # ''api'' # map (sent_segment a) (split_on (CHR ''/'') (tl (ep_path e)))"
    unfolding p segments_def .
qed

lemma first_of_split: "split_on (CHR ''/'') s = takeWhile (\<lambda>c. c \<noteq> CHR ''/'') s # tl (split_on (CHR ''/'') s)"
  by (induction s) (auto split: list.splits)

lemma gateway_path_segments:
  assumes "e \<in> set catalogue" and "plain_arguments e a"
  shows "\<exists>ws. segments (gateway_path e a) = [] # ''api'' # first_segment (ep_path e) # ws"
proof -
  have "first_segment (ep_path e) \<in> set SERVICES" using assms(1) catalogue_paths by (simp add: path_wf_def)
  then have "sent_segment a (first_segment (ep_path e)) = first_segment (ep_path e)"
    using SERVICES_plain sent_static by blast
  then show ?thesis
    unfolding gateway_path_shape(2) [OF assms] by (subst first_of_split) (simp add: first_segment_def)
qed

lemma service_segment: "e \<in> set catalogue \<Longrightarrow> first_segment (ep_path e) \<in> set SERVICES"
  using catalogue_paths by (simp add: path_wf_def)

lemma under_first_segment:
  assumes "segments path = [] # ''api'' # seg # ws" and "no_slash t"
  shows "pathMatchesPrefix path (''/api/'' @ t) \<longleftrightarrow> t = seg"
proof -
  have "segments (''/api/'' @ t) = [[], ''api'', t]"
    using segments_plain [OF assms(2)] segments_append [of "''/api''" t] by (simp add: segments_def)
  with assms(1) show ?thesis by (auto simp: pathMatchesPrefix_segments)
qed

text \<open>A set of prefixes of one segment each is decided by the first segment of the path.\<close>

lemma under_some_prefix:
  assumes "segments path = [] # ''api'' # seg # ws" and "\<forall>t \<in> set ts. no_slash t"
  shows "(\<exists>p \<in> set (map ((@) ''/api/'') ts). pathMatchesPrefix path p) \<longleftrightarrow> seg \<in> set ts"
  using assms(2) under_first_segment [OF assms(1)] by auto

definition protected_segments :: "string list" where
  "protected_segments = [''employee'', ''payroll'', ''analytics'', ''notification'', ''attendance'',
     ''leave'', ''ats'', ''lms'', ''performance'', ''copilot'', ''audit'', ''compliance'', ''integration'',
     ''lifecycle'', ''security'', ''ai'', ''billing'', ''live'', ''command-center'', ''learning'',
     ''workforce'']"

lemma segment_tables:
  "protectedPrefixes = map ((@) ''/api/'') protected_segments"
  "map sr_prefix SENSITIVE_ROUTE_REGISTRY = map ((@) ''/api/'') [''payroll'', ''compliance'', ''audit'', ''billing'']"
  "\<forall>t \<in> set protected_segments. no_slash t"
  "\<forall>t \<in> set SERVICES. t \<in> set protected_segments \<longleftrightarrow> t \<noteq> ''auth''"
  unfolding no_slash_def by code_simp+

lemma needsAuth_segment:
  assumes "segments path = [] # ''api'' # seg # ws" and "seg \<in> set SERVICES"
  shows "needsAuth path \<longleftrightarrow> seg \<noteq> ''auth''"
  using under_some_prefix [OF assms(1) segment_tables(3)] segment_tables(4) assms(2)
  by (simp add: needsAuth_def segment_tables(1))

lemma isSensitiveRoute_segment:
  assumes "segments path = [] # ''api'' # seg # ws"
  shows "isSensitiveRoute path \<longleftrightarrow> seg \<in> {''payroll'', ''compliance'', ''audit'', ''billing''}"
proof -
  have "isSensitiveRoute path \<longleftrightarrow> (\<exists>p \<in> set (map sr_prefix SENSITIVE_ROUTE_REGISTRY). pathMatchesPrefix path p)"
    by (auto simp: isSensitiveRoute_def)
  then show ?thesis
    unfolding segment_tables(2) by (subst (asm) under_some_prefix [OF assms]) (auto simp: no_slash_def)
qed

lemma isPublic_segment:
  assumes "segments path = [] # ''api'' # seg # ws" and "seg \<noteq> ''auth''" "seg \<noteq> ''webhooks''"
    and "seg \<noteq> ''notification''" and "seg = ''ats'' \<longrightarrow> \<not> pathMatchesPrefix path ''/api/ats/career''"
  shows "\<not> isPublicOrAuthPath path"
proof -
  have table: "\<forall>p \<in> set PUBLIC_PREFIXES. p = ''/api/ats/career'' \<or> 1 < length (segments p) \<and>
      (segments p ! 1 = ''api'' \<longrightarrow> 2 < length (segments p) \<and>
         segments p ! 2 \<in> {''auth'', ''webhooks'', ''notification''})"
    by code_simp
  show ?thesis
  proof
    assume "isPublicOrAuthPath path"
    then obtain p ws' where p: "p \<in> set PUBLIC_PREFIXES" "[] # ''api'' # seg # ws = segments p @ ws'"
      using assms(1) by (auto simp: isPublicOrAuthPath_def pathMatchesPrefix_segments elim: prefixE)
    then have nth: "k < length (segments p) \<Longrightarrow> segments p ! k = ([] # ''api'' # seg # ws) ! k" for k
      by (simp add: nth_append)
    have "p = ''/api/ats/career''"
      using table p(1) nth [of 1] nth [of 2] assms(2-4) by auto
    with p assms(1,5) show False
      by (auto simp: pathMatchesPrefix_segments segments_def)
  qed
qed

lemma not_career_path:
  assumes "e \<in> set catalogue" and "plain_arguments e a"
  shows "\<not> pathMatchesPrefix (gateway_path e a) ''/api/ats/career''"
proof
  let ?ss = "split_on (CHR ''/'') (tl (ep_path e))"
  have wf: "not_career (ep_path e)" "template_segments_ok (ep_path e)" "first_segment (ep_path e) \<in> set SERVICES"
    using assms(1) catalogue_paths by (auto simp: path_wf_def)
  assume "pathMatchesPrefix (gateway_path e a) ''/api/ats/career''"
  then have "prefix [''ats'', ''career''] (map (sent_segment a) ?ss)"
    unfolding pathMatchesPrefix_segments gateway_path_shape(2) [OF assms] by (simp add: segments_def)
  then obtain s t ss where ss: "?ss = s # t # ss" "sent_segment a s = ''ats''" "sent_segment a t = ''career''"
    by (auto elim!: prefixE simp: append_eq_map_conv map_eq_Cons_conv Cons_eq_map_conv)
  have "s = first_segment (ep_path e)"
    using first_of_split [of "tl (ep_path e)"] ss(1) by (simp add: first_segment_def)
  then have "s = ''ats''" using ss(2) wf(3) SERVICES_plain sent_static by metis
  then have "static_segment t" "t \<noteq> ''career''" using wf(1) ss(1) by (auto simp: not_career_def)
  then show False using ss(3) sent_static by metis
qed

lemma route_segment:
  assumes "segments path = [] # ''api'' # seg # ws" and "seg \<in> set SERVICES"
  shows "map_option fst (route path) = intended_service seg"
proof -
  have "map to_lower [[], ''api''] = [[], ''api'']" by code_simp
  then have low: "segments (to_lower path) = [] # ''api'' # seg # map to_lower ws"
    using assms SERVICES_plain by (simp add: to_lower_segments)
  have mounts: "\<forall>t \<in> set proxy_table. fst t \<in> {''/scim'', ''/saml''} \<or>
      starts_with (fst t) ''/api/'' \<and> no_slash (drop 5 (fst t))"
    unfolding no_slash_def by code_simp
  have "mount_matches path (fst t) \<longleftrightarrow> fst t = ''/api/'' @ seg" if t: "t \<in> set proxy_table" for t
  proof -
    consider "fst t \<in> {''/scim'', ''/saml''}" | u where "fst t = ''/api/'' @ u" "no_slash u"
      using mounts t by (force simp: starts_with_iff_prefix elim: prefixE)
    then show ?thesis
    proof cases
      case 1
      then show ?thesis
        using low by (auto simp: mount_matches_def pathMatchesPrefix_segments segments_def)
    next
      case 2
      then show ?thesis using under_first_segment [OF low] by (simp add: mount_matches_def)
    qed
  qed
  then have "find (\<lambda>(m, s, w). mount_matches path m) proxy_table =
      find (\<lambda>(m, s, w). m = ''/api/'' @ seg) proxy_table"
    by (intro find_cong) auto
  moreover have "\<forall>seg \<in> set SERVICES. map_option (fst \<circ> snd)
      (find (\<lambda>(m, s, w). m = ''/api/'' @ seg) proxy_table) = intended_service seg"
    by code_simp
  ultimately show ?thesis
    using assms(2) by (auto simp: route_def option.map_comp o_def case_prod_beta)
qed

lemma catalogue_guarded:
  assumes "e \<in> set catalogue" and "first_segment (ep_path e) \<noteq> ''auth''" and "plain_arguments e a"
  shows "needsAuth (gateway_path e a)" and "\<not> isPublicOrAuthPath (gateway_path e a)"
proof -
  obtain ws where path: "segments (gateway_path e a) = [] # ''api'' # first_segment (ep_path e) # ws"
    using gateway_path_segments [OF assms(1,3)] by blast
  have seg: "first_segment (ep_path e) \<in> set SERVICES" by (rule service_segment [OF assms(1)])
  then show "needsAuth (gateway_path e a)" using needsAuth_segment [OF path] assms(2) by simp
  have "first_segment (ep_path e) \<noteq> ''webhooks''" "first_segment (ep_path e) \<noteq> ''notification''"
    using seg by (auto simp: SERVICES_def)
  then show "\<not> isPublicOrAuthPath (gateway_path e a)"
    using isPublic_segment [OF path assms(2)] not_career_path [OF assms(1,3)] by blast
qed

text \<open>
  Claim C32. Every call of the client's catalogue whose arguments stay one segment each reaches the
  service it is meant for or is refused: the gateway routes it by its first segment to the intended
  service (billing, which is not proxied, to none), and forwards it to no other; a call outside
  \<open>/auth\<close> is forwarded only with the identity of a verified session token. (An argument stays one
  segment when it holds no slash, backslash, question mark, hash, tab or line end, is no dot segment
  and does not end in a blank. The client does not see to that: see \<open>argument_escapes\<close>.)
\<close>

theorem catalogue_routed:
  assumes "e \<in> set catalogue" and "plain_arguments e a" and "g_path g = gateway_path e a"
  shows "map_option fst (route (g_path g)) = intended_service (first_segment (ep_path e)) \<and>
    (\<forall>fw r'. gateway env r call g = (Forwarded fw, r') \<longrightarrow>
       intended_service (first_segment (ep_path e)) = Some (fw_service fw) \<and>
       (first_segment (ep_path e) \<noteq> ''auth'' \<longrightarrow>
          (\<exists>tok p. fst (session_token g) = Some tok \<and> verify_session env tok = Verified p \<and>
             fw_user fw = Some p)))"
proof -
  obtain ws where path: "segments (gateway_path e a) = [] # ''api'' # first_segment (ep_path e) # ws"
    using gateway_path_segments [OF assms(1,2)] by blast
  have r: "map_option fst (route (g_path g)) = intended_service (first_segment (ep_path e))"
    using route_segment [OF path] service_segment [OF assms(1)] assms(3) by simp
  have "intended_service (first_segment (ep_path e)) = Some (fw_service fw)"
    if "gateway env r call g = (Forwarded fw, r')" for fw r'
    using that
  proof (rule gateway_forwarded)
    fix u assume "proxyService g u = Forwarded fw"
    with r show ?thesis by (cases "route (g_path g)") (auto simp: proxyService_def)
  qed
  moreover have "\<exists>tok p. fst (session_token g) = Some tok \<and> verify_session env tok = Verified p \<and>
      fw_user fw = Some p"
    if fw: "gateway env r call g = (Forwarded fw, r')" and na: "first_segment (ep_path e) \<noteq> ''auth''" for fw r'
  proof -
    obtain u scheme mint where passed: "authMiddleware env r g = Inr (u, scheme)"
      "proxyService g u = Forwarded fw" using fw by (rule gateway_forwarded)
    obtain tok p where "fst (session_token g) = Some tok" "verify_session env tok = Verified p" "u = Some p"
      using passed(1) catalogue_guarded [OF assms(1) na assms(2)] assms(3) by (metis authMiddleware_passed)
    with passed(2) show ?thesis by (auto simp: proxyService_def split: option.splits)
  qed
  ultimately show ?thesis using r by blast
qed

definition payroll_list :: endpoint where
  "payroll_list = checked payrollListSchema ''payroll'' (http_get ''list'' ''/payroll'')"

lemma sample_endpoints: "get_employee \<in> set catalogue" "payroll_list \<in> set catalogue"
  by (simp_all add: catalogue_def employeeApi_def get_employee_def payrollApi_def payroll_list_def)

lemma get_employee_path: "ep_path get_employee = ''/employee/employees/{email}''"
  by (simp add: get_employee_def ep_path_builders)

lemma plain_employee: "one_segment (js_string (a ''email'')) \<Longrightarrow> plain_arguments get_employee a"
proof -
  have "path_parameters ''/employee/employees/{email}'' = [''email'']" by code_simp
  then show "one_segment (js_string (a ''email'')) \<Longrightarrow> ?thesis" by (simp add: plain_arguments_def get_employee_path)
qed

theorem catalogue_routed_witness:
  "intended_service (first_segment (ep_path get_employee)) = Some ''employee'' \<and>
   map_option fst (route (gateway_path get_employee (\<lambda>x. JStr ''ann@atlas.io''))) = Some ''employee''"
proof -
  have "one_segment ''ann@atlas.io''" by code_simp
  then have "plain_arguments get_employee (\<lambda>x. JStr ''ann@atlas.io'')" by (intro plain_employee) simp
  from catalogue_routed [OF sample_endpoints(1) this, of "sample_get (gateway_path get_employee
      (\<lambda>x. JStr ''ann@atlas.io'')) ''good''"]
  show ?thesis by (simp add: sample_get_def get_employee_path first_segment_def intended_service_def)
qed

subsection \<open>Arguments that leave their segment\<close>

lemma walk_path_up:
  "n \<le> length acc \<Longrightarrow> ts \<noteq> [] \<Longrightarrow> walk_path acc (replicate n ''..'' @ ts) = walk_path (take (length acc - n) acc) ts"
proof (induction n arbitrary: acc)
  case (Suc n)
  have "double_dot ''..''" by code_simp
  moreover have "take (length (butlast acc) - n) (butlast acc) = take (length acc - Suc n) acc"
    by (simp add: butlast_conv_take take_take min_def)
  ultimately show ?case using Suc by simp
qed simp

text \<open>An argument that climbs out of \<open>n\<close> segments and goes down along others.\<close>

definition climbing :: "nat \<Rightarrow> string list \<Rightarrow> string" where
  "climbing n ts = concat (replicate n ''../'') @ join_with ''/'' ts"

lemma climbing_segments: "ts \<noteq> [] \<Longrightarrow> CHR ''/'' # climbing n ts = path_of (replicate n ''..'' @ ts)"
proof -
  have "CHR ''/'' # join_with ''/'' ts = path_of ts" if "ts \<noteq> []"
    using that by (induction "''/''" ts rule: join_with.induct) (simp_all add: path_of_def)
  then show "ts \<noteq> [] \<Longrightarrow> ?thesis" by (induction n) (simp_all add: climbing_def path_of_def)
qed

text \<open>
  Claim C33. The arguments of the client's calls are interpolated as they are, and the browser resolves dot
  segments before it sends the request. A call whose last segment is a parameter therefore goes wherever
  its argument says: \<open>../\<close> as often as there are fixed segments before it, followed by any path,
  sends the call, with the token of the user, to that path under \<open>/api\<close>, and the gateway routes it to
  the service of that path instead of the one the call is meant for.
\<close>

theorem argument_escapes:
  assumes "e \<in> set catalogue" and "split_on (CHR ''/'') (tl (ep_path e)) = ss @ [s]"
    and "\<forall>t \<in> set ss. static_segment t" and "parameter s = Some x"
    and "js_string (a x) = climbing (length ss) (t # ts)" and "\<forall>u \<in> set (t # ts). one_segment u" and "t \<in> set SERVICES"
  shows "gateway_path e a = ''/api'' @ path_of (map url_segment (t # ts)) \<and>
    map_option fst (route (gateway_path e a)) = intended_service t"
proof -
  let ?up = "''api'' # ss @ replicate (length ss) ''..'' @ t # ts"
  obtain q where q: "call_address e a = path_of (''api'' # map (fill a) (split_on (CHR ''/'') (tl (ep_path e)))) @ q"
    "q = [] \<or> q = ''?''" using call_address_filled [OF assms(1)] .
  have fixed: "map (fill a) ss = ss" using assms(3) static_no_parameter by (intro map_idI) (simp add: fill_def)
  have last: "path_of [fill a s] = path_of (replicate (length ss) ''..'' @ t # ts)"
    using climbing_segments [of "t # ts" "length ss"] assms(4,5) by (simp add: fill_def path_of_def)
  have addr: "call_address e a = path_of ?up @ q"
    unfolding q(1) assms(2) map_append fixed using last by (simp add: path_of_append path_of_Cons)
  have plain: "\<forall>u \<in> set ss. one_segment u" using assms(3) static_segment(1) by blast
  have "double_dot ''..''" "list_all segment_char ''..''" by code_simp+
  then have chars: "\<forall>u \<in> set ?up. list_all segment_char u"
    using plain assms(6) one_segment_api by (auto simp: one_segment_def)
  have "ends_visibly (last ?up)" using assms(6) by (auto simp: one_segment_def ends_visibly_def)
  then have "gateway_path e a = path_of (walk_path [] ?up)"
    unfolding gateway_path_def addr by (intro url_path_segments [OF chars _ _ q(2)]) simp_all
  also have "walk_path [] ?up = walk_path (''api'' # ss) (replicate (length ss) ''..'' @ t # ts)"
  proof -
    have "url_segment ''api'' = ''api''" by code_simp
    moreover have "map url_segment ss = ss" using assms(3) static_segment(2) by (intro map_idI) simp
    ultimately show ?thesis
      using walk_path_plain [of "''api'' # ss" "[]" "replicate (length ss) ''..'' @ t # ts"] plain one_segment_api
      by (auto simp: one_segment_def)
  qed
  also have "\<dots> = walk_path [''api''] (t # ts)" by (simp add: walk_path_up del: walk_path.simps)
  also have "\<dots> = ''api'' # map url_segment (t # ts)"
    using walk_path_plain [of "t # ts" "[''api'']" "[]"] assms(6) by (auto simp: one_segment_def simp del: walk_path.simps(2))
  finally have path: "gateway_path e a = path_of (''api'' # map url_segment (t # ts))" .
  have "\<forall>u \<in> set (''api'' # map url_segment (t # ts)). no_slash u"
    using assms(6) one_segment_api segment_chars(1) url_segment_no_slash
    unfolding one_segment_def by auto
  from split_path_of [OF this] have "segments (gateway_path e a) = [] # ''api'' # t # map url_segment ts"
    using SERVICES_plain [OF assms(7)] static_segment(2) by (simp add: path segments_def)
  from route_segment [OF this assms(7)] path show ?thesis by (simp add: path_of_Cons)
qed

theorem argument_escapes_witness:
  "gateway_path get_employee (\<lambda>x. JStr ''../../payroll/me/payslips'') = ''/api/payroll/me/payslips'' \<and>
   map_option fst (route (gateway_path get_employee (\<lambda>x. JStr ''../../payroll/me/payslips''))) = Some ''payroll''"
proof -
  have c: "split_on (CHR ''/'') (tl (ep_path get_employee)) = [''employee'', ''employees''] @ [''{email}'']"
    unfolding get_employee_path by code_simp
  have d: "\<forall>t \<in> set [''employee'', ''employees'']. static_segment t" "parameter ''{email}'' = Some ''email''"
    "js_string (JStr ''../../payroll/me/payslips'') = climbing (length [''employee'', ''employees'']) [''payroll'', ''me'', ''payslips'']"
    "\<forall>u \<in> set [''payroll'', ''me'', ''payslips'']. one_segment u" "''payroll'' \<in> set SERVICES"
    by code_simp+
  have p: "''/api'' @ path_of (map url_segment [''payroll'', ''me'', ''payslips'']) = ''/api/payroll/me/payslips''"
    "intended_service ''payroll'' = Some ''payroll''" by code_simp+
  from argument_escapes [OF sample_endpoints(1) c d(1,2), where a = "\<lambda>x. JStr ''../../payroll/me/payslips''", OF d(3-5)]
  show ?thesis unfolding p .
qed

subsection \<open>The second factor the client never sends\<close>

lemma authMiddleware_status:
  "authMiddleware env r g = Inl x \<Longrightarrow> re_status x \<in> {401, 503}"
  by (auto simp: authMiddleware_def revokeCheck_def refusal_of_def authStoreUnavailable_def
      split: if_splits prod.splits jwt_answer.splits option.splits)

lemma rbacMiddleware_status: "rbacMiddleware g u = Some x \<Longrightarrow> re_status x = 403"
  by (auto simp: rbacMiddleware_def refusal_of_def Let_def split: if_splits option.splits)

lemma interceptor_headers:
  assumes "request_interceptor auth doc meth hs = Inr hs'"
  shows "fst ` set hs' \<subseteq> fst ` set hs \<union> {''Authorization'', ''x-csrf-token''}"
proof -
  define hs1 where "hs1 = (if falsy_string (getAccessToken auth) then hs
    else map_set ''Authorization'' (bearer_header (the (getAccessToken auth))) hs)"
  have "fst ` set hs1 \<subseteq> insert ''Authorization'' (fst ` set hs)"
    by (simp add: hs1_def dom_update subset_insertI)
  moreover have "hs' = hs1 \<or> (\<exists>x. hs' = map_set ''x-csrf-token'' x hs1)"
    using assms unfolding request_interceptor_def Let_def hs1_def [symmetric]
    by (auto split: if_splits sum.splits)
  then have "fst ` set hs' \<subseteq> insert ''x-csrf-token'' (fst ` set hs1)"
    by (elim disjE exE) (simp_all add: dom_update subset_insertI)
  ultimately show ?thesis by blast
qed

lemma client_sends_no_mfa_token:
  assumes "e \<in> set catalogue" and "client_gateway_request auth doc cookie qt e a = Inr g"
  shows "map_get (g_headers g) ''x-mfa-token'' = None"
proof -
  obtain hs where hs: "request_interceptor auth doc (Some (verb_name (ep_verb e)))
      (rq_headers (build_request e a)) = Inr hs" "g_headers g = map (\<lambda>(n, v). (to_lower n, v)) hs"
    using assms(2) by (auto simp: client_gateway_request_def split: sum.splits)
  have "fst ` set (rq_headers (build_request e a)) \<subseteq> {''x-session-id''}"
    using assms(1) catalogue_headers by (force simp: build_request_def)
  with interceptor_headers [OF hs(1)]
  have "to_lower ` fst ` set hs \<subseteq> to_lower ` {''x-session-id'', ''Authorization'', ''x-csrf-token''}"
    by (intro image_mono) blast
  moreover have "to_lower ''x-session-id'' = ''x-session-id''" "to_lower ''Authorization'' = ''authorization''"
    "to_lower ''x-csrf-token'' = ''x-csrf-token''" by code_simp+
  ultimately have "''x-mfa-token'' \<notin> to_lower ` fst ` set hs" by auto
  then show ?thesis by (force simp: hs(2) map_of_eq_None_iff image_image)
qed

text \<open>
  The browser client cannot use the sensitive surfaces: no call of its catalogue
  carries a step-up token, and the session tokens the auth service issues carry no MFA stamp, so
  that every payroll, compliance and billing call whose arguments stay one segment each, for any role and
  whatever the state of redis, is refused with 401, 403 or 503 (an employee's own payslips
  included), and changes nothing in redis.
\<close>

lemma client_sensitive_refused:
  assumes "e \<in> set catalogue" and "first_segment (ep_path e) \<in> {''payroll'', ''compliance'', ''billing''}"
    and "client_gateway_request auth doc cookie qt e a = Inr g" and "plain_arguments e a"
    and "\<forall>tok p. verify_session env tok = Verified p \<longrightarrow> get_field p ''mfa_validated_at'' = JUndef"
  shows "\<exists>x. gateway env r call g = (Refused x, r) \<and> re_status x \<in> {401, 403, 503}"
proof -
  have path: "g_path g = gateway_path e a"
    using assms(3) by (auto simp: client_gateway_request_def split: sum.splits)
  have na: "first_segment (ep_path e) \<noteq> ''auth''" using assms(2) by auto
  have sens: "isSensitiveRoute (g_path g)"
  proof -
    obtain ws where "segments (gateway_path e a) = [] # ''api'' # first_segment (ep_path e) # ws"
      using gateway_path_segments [OF assms(1,4)] by blast
    from isSensitiveRoute_segment [OF this] assms(2) path show ?thesis by auto
  qed
  show ?thesis
  proof (cases "authMiddleware env r g")
    case (Inl x)
    with authMiddleware_status [OF Inl] show ?thesis by (auto simp: gateway_def)
  next
    case (Inr us)
    obtain u scheme where us: "us = (u, scheme)" by (cases us)
    obtain tok p where p: "verify_session env tok = Verified p" "u = Some p"
      using Inr [unfolded us] catalogue_guarded [OF assms(1) na assms(4)] unfolding path [symmetric]
      by (rule authMiddleware_passed)
    show ?thesis
    proof (cases "rbacMiddleware g u")
      case (Some x)
      with Inr us rbacMiddleware_status [OF Some] show ?thesis by (simp add: gateway_def)
    next
      case None
      have "\<not> sessionMfaStampIsFresh (now_ms env) u"
        using assms(5) p by (simp add: sessionMfaStampIsFresh_def user_value_def stamp_is_fresh_def)
      then have "mfaStepUpMiddleware env r g u =
          (Some (refusal_of 403 ''MFA validation required for this resource''), r)"
        using sens client_sends_no_mfa_token [OF assms(1,3)]
        by (simp add: mfaStepUpMiddleware_def falsy_string_def)
      with Inr us None show ?thesis by (simp add: gateway_def refusal_of_def)
    qed
  qed
qed

lemma client_sensitive_refused_witness:
  "\<exists>x. gateway sample_env empty_redis (HeadcountFails True)
     (case client_gateway_request (auth_start\<lparr>inMemoryToken := Some ''good''\<rparr>) None None None payroll_list (\<lambda>x. JUndef) of
        Inr g \<Rightarrow> g) = (Refused x, empty_redis) \<and> re_status x \<in> {401, 403, 503}"
proof -
  let ?auth = "auth_start\<lparr>inMemoryToken := Some ''good''\<rparr>"
  have "getCsrfToken None = Inr None" by (simp add: getCsrfToken_def)
  then obtain g where g: "client_gateway_request ?auth None None None payroll_list (\<lambda>x. JUndef) = Inr g"
    by (cases "writes (Some (verb_name (ep_verb payroll_list)))")
      (auto simp: client_gateway_request_def request_interceptor_def Let_def)
  have "first_segment (ep_path payroll_list) \<in> {''payroll'', ''compliance'', ''billing''}"
    by (simp add: payroll_list_def ep_path_builders first_segment_def)
  moreover have "\<forall>tok p. verify_session sample_env tok = Verified p \<longrightarrow>
      get_field p ''mfa_validated_at'' = JUndef"
    by (simp add: sample_env_def)
  ultimately show ?thesis
    using client_sensitive_refused [OF sample_endpoints(2) _ g] g by (simp add: plain_arguments_def payroll_list_def ep_path_builders path_parameters_def map_filter_def parameter_def)
qed

subsection \<open>The checkout without an order\<close>

text \<open>\<open>billingApi.createCheckout\<close> posts no body, which the checkout refuses.\<close>

lemma client_checkout_refused:
  assumes "e \<in> set billingApi"
  shows "normalizeCheckoutRequest (rq_body (build_request e a)) =
    Inl (refusal_of 400 ''Invalid plan; expected one of: starter, growth, enterprise'')"
proof -
  have "rq_body (build_request e a) = JUndef"
    using assms by (auto simp: billingApi_def build_request_def http_post_def http_call_def)
  moreover have "normalizeCheckoutRequest JUndef =
      Inl (refusal_of 400 ''Invalid plan; expected one of: starter, growth, enterprise'')"
    by code_simp
  ultimately show ?thesis by simp
qed

subsection \<open>Where the calls to the auth service end\<close>

definition auth_calls :: "endpoint list" where
  "auth_calls = authApi @ sessionsApi @ devicesApi"

lemma route_auth: "route (''/api/auth'' @ CHR ''/'' # p) = Some (''auth'', CHR ''/'' # p)"
proof -
  have "mount_matches (''/api/auth'' @ CHR ''/'' # p) ''/api/auth''"
    by (simp add: mount_matches_def pathMatchesPrefix_def starts_with_iff_prefix to_lower_def lower_char_def Let_def)
  then show ?thesis by (simp add: route_def proxy_table_def upstream_path_def)
qed



text \<open>The route each of these calls is written for.\<close>

definition auth_call_table :: "((verb \<times> string) \<times> auth_route) list" where
  "auth_call_table =
     [((POST, ''/auth/login''), Login), ((POST, ''/auth/mfa/validate''), MfaValidate),
      ((POST, ''/auth/register''), Register), ((POST, ''/auth/refresh''), Refresh),
      ((POST, ''/auth/logout''), Logout), ((POST, ''/auth/password/reset-request''), ResetRequest),
      ((POST, ''/auth/password/reset''), Reset), ((GET, ''/auth/sessions''), ListSessions),
      ((DELETE, ''/auth/sessions''), RevokeSessions), ((GET, ''/auth/devices''), ListDevices),
      ((DELETE, ''/auth/sessions/{id}''), RevokeSession),
      ((PUT, ''/auth/devices/{id}/trust''), TrustDevice), ((DELETE, ''/auth/devices/{id}''), RemoveDevice)]"

definition intended_route :: "endpoint \<Rightarrow> auth_route option" where
  "intended_route e = map_of auth_call_table (ep_verb e, ep_path e)"

lemma auth_calls_in_table: "list_all (\<lambda>e. (ep_verb e, ep_path e) \<in> fst ` set auth_call_table) auth_calls"
  by code_simp

lemma fixed_calls_served:
  "list_all (\<lambda>((v, path), r). serving_route (http_method v) (drop 5 path) =
     (if r = ResetRequest \<or> r = Reset then None else Some (route_line r)))
   (take 10 auth_call_table)"
  by code_simp

lemma id_segments:
  assumes "no_slash s"
  shows "segments (''/sessions/'' @ s) = [[], ''sessions'', s]"
    and "segments (''/devices/'' @ s) = [[], ''devices'', s]"
    and "segments (''/devices/'' @ s @ ''/trust'') = [[], ''devices'', s, ''trust'']"
  using segments_append [of "''/sessions''" s] segments_append [of "''/devices''" s]
    segments_append [of "''/devices''" "s @ ''/trust''"] segments_append [of s "''trust''"] segments_plain [OF assms]
  by (simp_all add: segments_def)

lemma id_calls_served:
  assumes "no_slash s" and "s \<noteq> []"
  shows "serving_route ''DELETE'' (''/sessions/'' @ s) = Some (route_line RevokeSession)"
    and "serving_route ''DELETE'' (''/devices/'' @ s) = Some (route_line RemoveDevice)"
    and "serving_route ''PUT'' (''/devices/'' @ s @ ''/trust'') = Some (route_line TrustDevice)"
  using assms(2) unfolding serving_route_def line_matches_def id_segments [OF assms(1)] 
  by (simp_all add: SERVICE_ROUTES_def segments_def to_lower_def lower_char_def starts_with_def)

lemma fixed_calls_static:
  "list_all (\<lambda>((v, path), r). list_all static_segment (split_on (CHR ''/'') (drop 6 path))) (take 10 auth_call_table)"
  by code_simp

lemma auth_call_table_distinct: "distinct (map fst auth_call_table)"
  by code_simp

lemma http_names: "http_method DELETE = ''DELETE''" "http_method PUT = ''PUT''"
  by code_simp+

lemma id_calls: "set (drop 10 auth_call_table) = {((DELETE, ''/auth/sessions/{id}''), RevokeSession),
    ((PUT, ''/auth/devices/{id}/trust''), TrustDevice), ((DELETE, ''/auth/devices/{id}''), RemoveDevice)}"
  by (simp add: auth_call_table_def)

text \<open>The segments behind \<open>/auth\<close>.\<close>

definition auth_segments :: "string \<Rightarrow> string list" where
  "auth_segments path = split_on (CHR ''/'') (drop 6 path)"

lemma auth_call_segments:
  "list_all (\<lambda>((v, path), r). split_on (CHR ''/'') (tl path) = ''auth'' # auth_segments path \<and> drop 5 path = path_of (auth_segments path) \<and>
     list_all (\<lambda>x. x = ''id'') (path_parameters path)) auth_call_table"
  by code_simp

lemma auth_call_served:
  assumes row: "((v, path), r) \<in> set auth_call_table"
    and id: "js_string (a ''id'') = s" "s \<noteq> []" "no_slash s"
  shows "serving_route (http_method v) (path_of (map (sent_segment a) (auth_segments path))) =
       (if r = ResetRequest \<or> r = Reset then None else Some (route_line r))"
proof (cases "((v, path), r) \<in> set (take 10 auth_call_table)")
  case True
  have "list_all static_segment (auth_segments path)"
    using bspec [OF fixed_calls_static [unfolded list_all_iff] True] by (simp add: auth_segments_def list_all_iff)
  then have "map (sent_segment a) (auth_segments path) = auth_segments path"
    by (intro map_idI) (simp add: list_all_iff sent_static)
  moreover have "drop 5 path = path_of (auth_segments path)"
    using bspec [OF auth_call_segments [unfolded list_all_iff] row] by simp
  moreover have "serving_route (http_method v) (drop 5 path) =
      (if r = ResetRequest \<or> r = Reset then None else Some (route_line r))"
    using bspec [OF fixed_calls_served [unfolded list_all_iff] True] by (simp only: prod.case)
  ultimately show ?thesis by simp
next
  case False
  with row have "((v, path), r) \<in> set (drop 10 auth_call_table)"
    by (metis UnE append_take_drop_id set_append)
  then consider "v = DELETE" "path = ''/auth/sessions/{id}''" "r = RevokeSession"
    | "v = PUT" "path = ''/auth/devices/{id}/trust''" "r = TrustDevice"
    | "v = DELETE" "path = ''/auth/devices/{id}''" "r = RemoveDevice"
    unfolding id_calls by fastforce
  note calls = this
  have u: "no_slash (url_segment s)" "url_segment s \<noteq> []" using id(2,3) url_segment_no_slash url_segment_empty by auto
  have "parameter ''{id}'' = Some ''id''" "static_segment ''sessions''" "static_segment ''devices''" "static_segment ''trust''"
    by code_simp+
  then have f: "sent_segment a ''{id}'' = url_segment s" "sent_segment a ''sessions'' = ''sessions''"
    "sent_segment a ''devices'' = ''devices''" "sent_segment a ''trust'' = ''trust''"
    using id(1) sent_static by (simp_all add: sent_segment_def fill_def)
  have g: "auth_segments ''/auth/sessions/{id}'' = [''sessions'', ''{id}'']"
    "auth_segments ''/auth/devices/{id}/trust'' = [''devices'', ''{id}'', ''trust'']"
    "auth_segments ''/auth/devices/{id}'' = [''devices'', ''{id}'']"
    by code_simp+
  from calls show ?thesis
  proof cases
    case 1
    show ?thesis using id_calls_served(1) [OF u] by (simp add: 1 g(1) f http_names path_of_def)
  next
    case 2
    show ?thesis using id_calls_served(3) [OF u] by (simp add: 2 g(2) f http_names path_of_def)
  next
    case 3
    show ?thesis using id_calls_served(2) [OF u] by (simp add: 3 g(3) f http_names path_of_def)
  qed
qed

lemma auth_calls_in_catalogue: "set auth_calls \<subseteq> set catalogue"
  by (auto simp: auth_calls_def catalogue_def)

text \<open>
  Claim C34. Where the client's calls to the auth service end. Every call of \<open>authApi\<close>,
  \<open>sessionsApi\<close> and \<open>devicesApi\<close> whose id, where it has one, is not empty, stays one segment and holds no
  percent sign is routed to the auth service, which reads from the path, decoded, what the client
  put in, and the route that serves it there is the one it is written for, except for the two
  password reset calls: the gateway takes \<open>/api/auth\<close> off their paths, the service declares these
  routes as \<open>/auth/password/...\<close>, and no route of the service serves what is left.
\<close>

theorem auth_calls_reach:
  assumes "e \<in> set auth_calls" and "a ''id'' = JStr s" and "s \<noteq> []" and "one_segment s" and "CHR ''%'' \<notin> set s"
  shows "\<exists>p r. route (gateway_path e a) = Some (''auth'', p) \<and> intended_route e = Some r \<and>
     decode_uri_component p = Some (drop 5 (rq_path (build_request e a))) \<and>
     serving_route (http_method (ep_verb e)) p =
       (if r = ResetRequest \<or> r = Reset then None else Some (route_line r))"
proof -
  let ?ws = "auth_segments (ep_path e)"
  obtain r where r: "((ep_verb e, ep_path e), r) \<in> set auth_call_table"
    using bspec [OF auth_calls_in_table [unfolded list_all_iff] assms(1)] by (elim imageE) (metis prod.collapse)
  have id: "js_string (a ''id'') = s" using assms(2) by simp
  have e: "e \<in> set catalogue" using assms(1) auth_calls_in_catalogue by blast
  have shape: "split_on (CHR ''/'') (tl (ep_path e)) = ''auth'' # ?ws" "list_all (\<lambda>x. x = ''id'') (path_parameters (ep_path e))"
    using bspec [OF auth_call_segments [unfolded list_all_iff] r] by (simp_all add: list_all_iff)
  have plain: "plain_arguments e a" using shape(2) id assms(4) by (auto simp: plain_arguments_def list_all_iff)
  have auth: "static_segment ''auth''" by code_simp
  have path: "gateway_path e a = ''/api/auth'' @ path_of (map (sent_segment a) ?ws)"
    unfolding gateway_path_shape(1) [OF e plain] shape(1) using sent_static [OF auth] by (simp add: path_of_def)
  have t: "template_segments_ok (ep_path e)" using e catalogue_paths by (auto simp: path_wf_def)
  have "\<forall>w \<in> set ?ws. CHR ''%'' \<notin> set (fill a w)"
  proof
    fix w assume w: "w \<in> set ?ws"
    show "CHR ''%'' \<notin> set (fill a w)"
    proof (cases "parameter w")
      case None
      then have "static_segment w" using t w shape(1) by (auto simp: template_segments_ok_def list_all_iff)
      then have "list_all static_char w" by (simp add: static_segment_def)
      then have "CHR ''%'' \<notin> set w" using static_chars(4) by (fastforce simp: list_all_iff)
      then show ?thesis using None by (simp add: fill_def)
    next
      case (Some x)
      then have "x \<in> set (path_parameters (ep_path e))"
        using w shape(1) by (auto simp: path_parameters_def map_filter_def intro!: image_eqI)
      then have "x = ''id''" using shape(2) by (simp add: list_all_iff)
      then show ?thesis using Some id assms(5) by (simp add: fill_def)
    qed
  qed
  then have decoded: "decode_uri_component (path_of (map (sent_segment a) ?ws)) = Some (path_of (map (fill a) ?ws))"
    using decode_path_of [of "map (fill a) ?ws"] by (simp add: sent_segment_def [abs_def] comp_def)
  have "rq_path (build_request e a) = ''/auth'' @ path_of (map (fill a) ?ws)"
    using rendered_path [OF t, of a] shape(1) static_no_parameter [OF auth] by (simp add: build_request_def path_of_def fill_def)
  moreover obtain q where q: "path_of (map (sent_segment a) ?ws) = CHR ''/'' # q"
    using first_of_split [of "drop 6 (ep_path e)"] by (cases ?ws) (auto simp: path_of_def auth_segments_def)
  moreover have "intended_route e = Some r" using r auth_call_table_distinct by (simp add: intended_route_def)
  moreover have "no_slash s" using assms(4) segment_chars(1) by (simp add: one_segment_def)
  ultimately show ?thesis
    using route_auth [of q] auth_call_served [OF r, where a = a and s = s] id assms(3) decoded by (simp add: path)
qed

definition reset_call :: endpoint where
  "reset_call = http_post ''resetPassword'' ''/auth/password/reset'' (Fields [''token'', ''password''])"

theorem auth_calls_reach_witness:
  "route (gateway_path reset_call (\<lambda>x. JStr ''7'')) = Some (''auth'', ''/password/reset'') \<and>
   serving_route ''POST'' ''/password/reset'' = None \<and> serving_route ''POST'' ''/auth/password/reset'' = Some (route_line Reset)"
proof -
  have e: "reset_call \<in> set auth_calls" by (simp add: auth_calls_def authApi_def reset_call_def)
  have plain: "one_segment ''7''" by code_simp
  have i: "intended_route reset_call = Some Reset" and v: "http_method (ep_verb reset_call) = ''POST''"
    and g: "route (gateway_path reset_call (\<lambda>x. JStr ''7'')) = Some (''auth'', ''/password/reset'')"
    by code_simp+
  have "serving_route ''POST'' ''/password/reset'' = None"
    using auth_calls_reach [OF e, of "\<lambda>x. JStr ''7''" "''7''"] i v g plain by auto
  moreover have "serving_route ''POST'' ''/auth/password/reset'' = Some (route_line Reset)" by code_simp
  ultimately show ?thesis using g by blast
qed

end
